(* ===== verification/Prelude.thy ===== *)
theory Prelude
  imports Main "HOL-Library.Word" "HOL-Library.Product_Lexorder" "HOL-Library.Sublist"
begin

text \<open>
  Shared vocabulary of the development: the names of the machine types the Go code uses, the
  few functions of Go's standard library on strings and integers that the sources call, generic
  lemmas on lists and options, and the locale of systems that keep an invariant, which every
  stateful component interprets.

  Go's \<^verbatim>\<open>int\<close> and \<^verbatim>\<open>int64\<close> are 64 bits wide; they are modelled by \<open>int\<close> where the code
  never leaves that range and by words where the code relies on wrap-around. A Go string is a
  sequence of bytes, here a \<open>string\<close>, one \<open>char\<close> for each byte.
\<close>

type_synonym byte = "8 word"
type_synonym bytes = "8 word list"
type_synonym u32 = "32 word"
type_synonym u64 = "64 word"

text \<open>A time in milliseconds since the Unix epoch (\<^verbatim>\<open>time.Time\<close>, \<^verbatim>\<open>TIMESTAMPTZ\<close>).\<close>

type_synonym millis = int

definition day_ms :: int where
  "day_ms = 86400000"

named_theorems store_defs \<open>definitions of the storage operations\<close>
named_theorems handler_defs \<open>definitions of the protocol handlers\<close>


section \<open>Strings: the functions of Go's \<open>strings\<close> package the sources call\<close>

fun index_char :: "char \<Rightarrow> string \<Rightarrow> nat option" where
  "index_char c [] = None"
| "index_char c (x # xs) = (if x = c then Some 0 else map_option Suc (index_char c xs))"

definition has_prefix :: "string \<Rightarrow> string \<Rightarrow> bool" where
  "has_prefix s p \<longleftrightarrow> take (length p) s = p"

definition has_suffix :: "string \<Rightarrow> string \<Rightarrow> bool" where
  "has_suffix s p \<longleftrightarrow> length p \<le> length s \<and> drop (length s - length p) s = p"

fun contains_sub :: "string \<Rightarrow> string \<Rightarrow> bool" where
  "contains_sub [] p \<longleftrightarrow> p = []"
| "contains_sub (x # xs) p \<longleftrightarrow> has_prefix (x # xs) p \<or> contains_sub xs p"

text \<open>\<^verbatim>\<open>strings.ToLower\<close> on the ASCII letters; the names it is compared with are ASCII.\<close>

definition lower_char :: "char \<Rightarrow> char" where
  "lower_char c = (let n = of_char c :: nat in
     if 65 \<le> n \<and> n \<le> 90 then char_of (n + 32) else c)"

definition to_lower :: "string \<Rightarrow> string" where
  "to_lower s = map lower_char s"

fun join :: "string \<Rightarrow> string list \<Rightarrow> string" where
  "join sep [] = []"
| "join sep [x] = x"
| "join sep (x # y # xs) = x @ sep @ join sep (y # xs)"

lemma index_char_None: "index_char c s = None \<longleftrightarrow> c \<notin> set s"
  by (induction s) auto

lemma index_char_append:
  assumes "c \<notin> set s"
  shows "index_char c (s @ c # t) = Some (length s)"
  using assms by (induction s) auto

lemma index_char_Some:
  assumes "index_char c s = Some i"
  shows "i < length s \<and> s ! i = c \<and> c \<notin> set (take i s)"
  using assms
proof (induction s arbitrary: i)
  case Nil
  then show ?case by simp
next
  case (Cons x xs)
  then show ?case by (cases "x = c") auto
qed

lemma has_prefix_iff: "has_prefix s p \<longleftrightarrow> (\<exists>t. s = p @ t)"
  by (auto simp: has_prefix_def) (metis append_take_drop_id)

lemma contains_sub_iff: "contains_sub s p \<longleftrightarrow> (\<exists>u v. s = u @ p @ v)"
proof (induction s)
  case Nil
  then show ?case by auto
next
  case (Cons x xs)
  show ?case
  proof
    assume "contains_sub (x # xs) p"
    then consider t where "x # xs = p @ t" | u v where "xs = u @ p @ v"
      using Cons.IH by (auto simp: has_prefix_iff)
    then show "\<exists>u v. x # xs = u @ p @ v"
    proof cases
      case (1 t)
      then have "x # xs = [] @ p @ t" by simp
      then show ?thesis by blast
    next
      case (2 u v)
      then have "x # xs = (x # u) @ p @ v" by simp
      then show ?thesis by blast
    qed
  next
    assume "\<exists>u v. x # xs = u @ p @ v"
    then obtain u v where uv: "x # xs = u @ p @ v" by blast
    show "contains_sub (x # xs) p"
    proof (cases u)
      case Nil
      with uv have "has_prefix (x # xs) p" by (auto simp: has_prefix_iff)
      then show ?thesis by simp
    next
      case (Cons y ys)
      with uv have "xs = ys @ p @ v" by simp
      with Cons.IH show ?thesis by auto
    qed
  qed
qed


section \<open>UTF-8 validity and control characters (Go's \<open>unicode/utf8\<close>, \<open>unicode\<close>)\<close>

text \<open>
  \<^verbatim>\<open>utf8.ValidString\<close>: the accepted byte sequences are those of the Unicode table of well-formed
  UTF-8 (no overlong forms, no surrogates, nothing above U+10FFFF).
\<close>

abbreviation cont_byte :: "nat \<Rightarrow> bool" where
  "cont_byte b \<equiv> 128 \<le> b \<and> b \<le> 191"

fun utf8_ok :: "nat list \<Rightarrow> bool" where
  "utf8_ok [] = True"
| "utf8_ok (a # xs) =
     (if a < 128 then utf8_ok xs
      else case xs of
        [] \<Rightarrow> False
      | b # ys \<Rightarrow>
          (if 194 \<le> a \<and> a \<le> 223 then cont_byte b \<and> utf8_ok ys
           else case ys of
             [] \<Rightarrow> False
           | c # zs \<Rightarrow>
               (if 224 \<le> a \<and> a \<le> 239 then
                  cont_byte b \<and> cont_byte c \<and> (a = 224 \<longrightarrow> 160 \<le> b) \<and> (a = 237 \<longrightarrow> b \<le> 159)
                  \<and> utf8_ok zs
                else case zs of
                  [] \<Rightarrow> False
                | d # ws \<Rightarrow>
                    240 \<le> a \<and> a \<le> 244 \<and> cont_byte b \<and> cont_byte c \<and> cont_byte d
                    \<and> (a = 240 \<longrightarrow> 144 \<le> b) \<and> (a = 244 \<longrightarrow> b \<le> 143) \<and> utf8_ok ws)))"

definition valid_utf8 :: "string \<Rightarrow> bool" where
  "valid_utf8 s = utf8_ok (map of_char s)"

text \<open>
  \<^verbatim>\<open>unicode.IsControl\<close> holds of U+0000 to U+001F and U+007F to U+009F. In valid UTF-8 the
  second range above ASCII is the two-byte sequence C2 80 to C2 9F, and C2 is never a
  continuation byte, so the test can be made on the bytes.
\<close>

fun has_control :: "nat list \<Rightarrow> bool" where
  "has_control [] = False"
| "has_control (a # xs) =
     (a < 32 \<or> a = 127 \<or> (a = 194 \<and> (case xs of [] \<Rightarrow> False | b # _ \<Rightarrow> 128 \<le> b \<and> b \<le> 159))
      \<or> has_control xs)"

definition contains_control :: "string \<Rightarrow> bool" where
  "contains_control s = has_control (map of_char s)"


section \<open>Lists: counting, filtering, sorting\<close>

lemma length_filter_partition:
  "length (filter P xs) = length (filter (\<lambda>x. P x \<and> Q x) xs) + length (filter (\<lambda>x. P x \<and> \<not> Q x) xs)"
  by (induction xs) auto

lemma sum_list_filter_partition:
  "sum_list (map f (filter P xs)) =
     sum_list (map f (filter (\<lambda>x. P x \<and> Q x) xs)) + sum_list (map f (filter (\<lambda>x. P x \<and> \<not> Q x) xs) :: int list)"
  by (induction xs) auto

lemma distinct_map_filterI: "distinct (map f xs) \<Longrightarrow> distinct (map f (filter P xs))"
  by (simp add: distinct_map_filter)

lemma filter_map_id:
  assumes "\<And>x. x \<in> set xs \<Longrightarrow> P (f x) \<longleftrightarrow> P x"
  shows "filter P (map f xs) = map f (filter P xs)"
  using assms by (induction xs) auto

lemma length_filter_map:
  assumes "\<And>x. x \<in> set xs \<Longrightarrow> P (f x) \<longleftrightarrow> Q x"
  shows "length (filter P (map f xs)) = length (filter Q xs)"
  using assms by (induction xs) auto

text \<open>Where a key is distinct, at most one row has a given key.\<close>

lemma distinct_key_unique:
  assumes "distinct (map k xs)" "x \<in> set xs" "y \<in> set xs" "k x = k y"
  shows "x = y"
  using assms by (auto simp: distinct_map inj_on_def)

lemma filter_key_singleton:
  assumes "distinct (map k xs)" "x \<in> set xs"
  shows "filter (\<lambda>y. k y = k x) xs = [x]"
  using assms
proof (induction xs)
  case Nil
  then show ?case by simp
next
  case (Cons y ys)
  show ?case
  proof (cases "x = y")
    case True
    with Cons.prems(1) have "\<forall>z \<in> set ys. k z \<noteq> k x"
      by (metis distinct.simps(2) image_eqI list.set_map list.simps(9))
    with True show ?thesis by (simp add: filter_empty_conv)
  next
    case False
    with Cons show ?thesis by auto
  qed
qed

lemma find_SomeD: "find P xs = Some x \<Longrightarrow> x \<in> set xs \<and> P x"
  by (auto simp: find_Some_iff)

lemma find_NoneD: "find P xs = None \<Longrightarrow> x \<in> set xs \<Longrightarrow> \<not> P x"
  by (auto simp: find_None_iff)

lemma take_filter_prefix: "prefix (take n xs) xs"
  by (rule take_is_prefix)

lemma find_snoc: "find P (xs @ [v]) = (case find P xs of Some x \<Rightarrow> Some x | None \<Rightarrow> if P v then Some v else None)"
  by (induction xs) auto


section \<open>Systems that keep an invariant\<close>

text \<open>
  A component is a set of operations that act on its state. A run is a list of operations, each
  of which ends before the next begins; what one operation keeps, every run keeps. Where the code
  takes no lock over a whole operation, its sections are operations of their own in the theories
  that speak of overlapping requests (admission, notifier, bans, first writes, the mailbox cache).
\<close>

locale inv_system =
  fixes exec :: "'op \<Rightarrow> 's \<Rightarrow> 's"
    and inv :: "'s \<Rightarrow> bool"
  assumes exec_inv: "inv s \<Longrightarrow> inv (exec op s)"
begin

lemma run_inv: "inv s \<Longrightarrow> inv (fold exec ops s)"
  by (induction ops arbitrary: s) (auto intro: exec_inv)

lemma run_prefix_inv: "inv s \<Longrightarrow> prefix ops ops' \<Longrightarrow> inv (fold exec ops s)"
  by (rule run_inv)

text \<open>A quantity that no operation lowers is not lowered by a run.\<close>

lemma run_mono:
  assumes "\<And>op s. inv s \<Longrightarrow> f s \<le> (f (exec op s) :: 'b :: preorder)" and "inv s"
  shows "f s \<le> f (fold exec ops s)"
  using assms(2)
proof (induction ops arbitrary: s)
  case Nil
  then show ?case by simp
next
  case (Cons op ops)
  have "f s \<le> f (exec op s)" using Cons.prems by (rule assms(1))
  also have "\<dots> \<le> f (fold exec ops (exec op s))"
    using Cons.prems by (intro Cons.IH exec_inv)
  finally show ?case by simp
qed

end

end
