(* ===== verification/Errors.thy ===== *)
theory Errors
  imports Prelude
begin

text \<open>
  Errors as values. A Go \<^verbatim>\<open>error\<close> is one of the typed errors or sentinels the packages declare,
  or a \<^verbatim>\<open>fmt.Errorf\<close> that wraps another with \<^verbatim>\<open>%w\<close> (\<open>Wrapped\<close>, with the text around it). The
  chain of an error is what \<^verbatim>\<open>errors.Is\<close> and \<^verbatim>\<open>errors.As\<close> walk. \<open>DbError\<close> stands for every
  failure the database driver reports; \<open>PlainError\<close> for an error with a text and no type.
  An error that another package declares carries its text: forge's rate-limit and routing errors
  and the errors of \<^verbatim>\<open>encoding/json\<close>.
  Durations are in nanoseconds, as Go's \<^verbatim>\<open>time.Duration\<close>.
\<close>

datatype err =
    RateLimitedError int string
  | ErrRateLimited string
  | RateLimitError string
  | OverloadedError int string
  | ErrOverloaded
  | ErrDraining
  | MailboxFullError int int
  | QuotaExceededError string int int
  | ErrStorageFull
  | InvalidPathError string err
  | FieldError string string
  | ValidationError string
  | DocumentSizeExceededError int int
  | ErrInvalidCursor
  | ErrInvalidFilter
  | ErrInvalidContent
  | ErrDirectoryQueryTooLong
  | JsonSyntaxError string
  | JsonUnmarshalTypeError string
  | UnauthorizedError string
  | ForwardingRefusedError string
  | NotFoundError string
  | ErrMailboxNotFound
  | ErrDocumentNotFound
  | ErrDirectoryEntryNotFound
  | ErrFeedNotFound
  | ErrCollectionNotFound
  | DocumentConflictError string string
  | CollectionItemConflictError string string
  | ErrUnknownOperation string
  | ErrMissingOperation string
  | ErrNotSampled
  | DbError string
  | PlainError string
  | Wrapped string err string

text \<open>
  The unwrap chain, outermost first: \<^verbatim>\<open>fmt.Errorf\<close> with \<^verbatim>\<open>%w\<close>, \<^verbatim>\<open>OverloadedError.Unwrap\<close>,
  \<^verbatim>\<open>InvalidPathError.Unwrap\<close> and forge's \<^verbatim>\<open>RateLimitedError\<close>, which unwraps to its sentinel.
\<close>

fun chain :: "err \<Rightarrow> err list" where
  "chain (Wrapped pre e post) = Wrapped pre e post # chain e"
| "chain (InvalidPathError p e) = InvalidPathError p e # chain e"
| "chain (OverloadedError d r) = [OverloadedError d r, ErrOverloaded]"
| "chain (RateLimitedError d t) = [RateLimitedError d t, ErrRateLimited t]"
| "chain e = [e]"

text \<open>\<^verbatim>\<open>errors.As\<close>: the first error of the chain of the wanted kind; \<^verbatim>\<open>errors.Is\<close>: a sentinel occurs.\<close>

definition errors_as :: "(err \<Rightarrow> bool) \<Rightarrow> err \<Rightarrow> err option" where
  "errors_as P e = find P (chain e)"

definition errors_is :: "err \<Rightarrow> err \<Rightarrow> bool" where
  "errors_is e target \<longleftrightarrow> target \<in> set (chain e)"

lemma chain_self [simp]: "e \<in> set (chain e)"
  by (cases e) auto

lemma chain_nonempty [simp]: "chain e \<noteq> []"
  by (cases e) auto

lemma chain_Wrapped_suffix: "set (chain e) \<subseteq> set (chain (Wrapped pre e post))"
  by auto

text \<open>Wrapping an error with context does not change what \<^verbatim>\<open>errors.As\<close> finds of another kind.\<close>

lemma errors_as_Wrapped:
  "\<not> P (Wrapped pre e post) \<Longrightarrow> errors_as P (Wrapped pre e post) = errors_as P e"
  by (simp add: errors_as_def)

lemma errors_is_Wrapped:
  "target \<noteq> Wrapped pre e post \<Longrightarrow> errors_is (Wrapped pre e post) target = errors_is e target"
  by (auto simp: errors_is_def)

text \<open>Decimal and hexadecimal text (\<^verbatim>\<open>%d\<close>, \<^verbatim>\<open>%02X\<close>).\<close>

definition digit_char :: "nat \<Rightarrow> char" where
  "digit_char n = char_of (if n < 10 then 48 + n else 55 + n)"

fun show_nat :: "nat \<Rightarrow> string" where
  "show_nat n = (if n < 10 then [digit_char n] else show_nat (n div 10) @ [digit_char (n mod 10)])"

declare show_nat.simps [simp del]

definition show_int :: "int \<Rightarrow> string" where
  "show_int i = (if i < 0 then ''-'' @ show_nat (nat (- i)) else show_nat (nat i))"

definition hex2 :: "byte \<Rightarrow> string" where
  "hex2 b = [digit_char (unat b div 16), digit_char (unat b mod 16)]"

text \<open>
  \<^verbatim>\<open>fmt\<close>'s \<^verbatim>\<open>%q\<close>, which keeps bytes from 128 on as they are: the printable runes of valid UTF-8.
\<close>

definition quoted_char :: "char \<Rightarrow> string" where
  "quoted_char c =
     (if c = CHR 0x22 then [CHR 0x5C, CHR 0x22]
      else if c = CHR 0x5C then [CHR 0x5C, CHR 0x5C]
      else if c = CHR 0x07 then [CHR 0x5C, CHR ''a'']
      else if c = CHR 0x08 then [CHR 0x5C, CHR ''b'']
      else if c = CHR 0x0C then [CHR 0x5C, CHR ''f'']
      else if c = CHR 0x0A then [CHR 0x5C, CHR ''n'']
      else if c = CHR 0x0D then [CHR 0x5C, CHR ''r'']
      else if c = CHR 0x09 then [CHR 0x5C, CHR ''t'']
      else if c = CHR 0x0B then [CHR 0x5C, CHR ''v'']
      else if of_char c < (32 :: nat) \<or> c = CHR 0x7F
        then CHR 0x5C # CHR ''x'' # to_lower (hex2 (word_of_nat (of_char c)))
      else [c])"

definition quoted :: "string \<Rightarrow> string" where
  "quoted s = [CHR 0x22] @ concat (map quoted_char s) @ [CHR 0x22]"

end
