(* ===== verification/Wire.thy ===== *)
theory Wire
  imports Errors
begin

text \<open>
  The wire model of \<^verbatim>\<open>src/pkg/wire\<close>: message types, priorities, the two flag bitmaps, mailbox
  types, access modes, visibilities, status codes, and the message itself with its hop count
  and expiry. Go's enumerations are open \<^verbatim>\<open>uint8\<close>s, so they are \<open>8 word\<close>s with named values, and
  the branches for unknown values stay reachable.
\<close>

unbundle bit_operations_syntax

section \<open>Message types and priorities (\<open>types.go\<close>)\<close>

type_synonym SFMessageType = "8 word"

definition messageTypeNames :: "(SFMessageType \<times> string) list" where
  "messageTypeNames =
    [(0x30, ''storeMessage''), (0x31, ''storeAck''), (0x32, ''retrieveMessages''),
     (0x33, ''retrieveResp''), (0x34, ''markDelivered''), (0x35, ''markDeliveredAck''),
     (0x36, ''forwardMessage''), (0x37, ''forwardAck''), (0x38, ''queryCapacity''),
     (0x39, ''capacityResp''), (0x3A, ''setPriority''), (0x3B, ''setExpiry''),
     (0x3C, ''updateFlags''), (0x3D, ''updateFlagsAck''), (0x3E, ''expunge''),
     (0x3F, ''expungeAck''), (0x40, ''deleteMessages''), (0x41, ''deleteMessagesAck'')]"

definition SFMessageType_String :: "SFMessageType \<Rightarrow> string" where
  "SFMessageType_String t =
     (case map_of messageTypeNames t of
        Some name \<Rightarrow> ''SFMessageType.'' @ name @ ''(0x'' @ hex2 t @ '')''
      | None \<Rightarrow> ''SFMessageType.unknown(0x'' @ hex2 t @ '')'')"

definition SFMessageTypeFromValue :: "byte \<Rightarrow> err + SFMessageType" where
  "SFMessageTypeFromValue v =
     (case map_of messageTypeNames v of
        None \<Rightarrow> Inl (PlainError (''unknown SFMessageType value: 0x'' @ hex2 v))
      | Some _ \<Rightarrow> Inr v)"

type_synonym MessagePriority = "8 word"

definition PriorityLow :: MessagePriority where "PriorityLow = 0"
definition PriorityNormal :: MessagePriority where "PriorityNormal = 1"
definition PriorityHigh :: MessagePriority where "PriorityHigh = 2"
definition PriorityUrgent :: MessagePriority where "PriorityUrgent = 3"

definition priorityNames :: "(MessagePriority \<times> string) list" where
  "priorityNames = [(PriorityLow, ''low''), (PriorityNormal, ''normal''),
     (PriorityHigh, ''high''), (PriorityUrgent, ''urgent'')]"

definition unknown_name :: "byte \<Rightarrow> string" where
  "unknown_name v = ''unknown('' @ show_nat (unat v) @ '')''"

definition MessagePriority_String :: "MessagePriority \<Rightarrow> string" where
  "MessagePriority_String p =
     (case map_of priorityNames p of Some name \<Rightarrow> name | None \<Rightarrow> unknown_name p)"

definition MessagePriorityFromValue :: "byte \<Rightarrow> err + MessagePriority" where
  "MessagePriorityFromValue v =
     (if v > 3 then Inl (PlainError (''invalid MessagePriority value: '' @ show_nat (unat v) @ '' (must be 0-3)''))
      else Inr v)"


section \<open>Flag bitmaps (\<open>types.go\<close>)\<close>

type_synonym SFMessageFlags = u32

definition FlagEncrypted :: SFMessageFlags where "FlagEncrypted = push_bit 0 1"
definition FlagSigned :: SFMessageFlags where "FlagSigned = push_bit 1 1"
definition FlagCompressed :: SFMessageFlags where "FlagCompressed = push_bit 2 1"
definition FlagRequireAck :: SFMessageFlags where "FlagRequireAck = push_bit 3 1"
definition FlagForwarded :: SFMessageFlags where "FlagForwarded = push_bit 4 1"
definition FlagNone :: SFMessageFlags where "FlagNone = 0"

lemmas sf_flag_defs = FlagEncrypted_def FlagSigned_def FlagCompressed_def FlagRequireAck_def
  FlagForwarded_def FlagNone_def

definition SF_HasFlag :: "SFMessageFlags \<Rightarrow> SFMessageFlags \<Rightarrow> bool" where
  "SF_HasFlag f flag \<longleftrightarrow> f AND flag \<noteq> 0"

definition SF_WithFlag :: "SFMessageFlags \<Rightarrow> SFMessageFlags \<Rightarrow> SFMessageFlags" where
  "SF_WithFlag f flag = f OR flag"

definition SF_WithoutFlag :: "SFMessageFlags \<Rightarrow> SFMessageFlags \<Rightarrow> SFMessageFlags" where
  "SF_WithoutFlag f flag = f AND NOT flag"

definition SFMessageFlags_String :: "SFMessageFlags \<Rightarrow> string" where
  "SFMessageFlags_String f =
     (if f = FlagNone then ''none''
      else join ''|''
        ((if SF_HasFlag f FlagEncrypted then [''encrypted''] else []) @
         (if SF_HasFlag f FlagSigned then [''signed''] else []) @
         (if SF_HasFlag f FlagCompressed then [''compressed''] else []) @
         (if SF_HasFlag f FlagRequireAck then [''requireAck''] else []) @
         (if SF_HasFlag f FlagForwarded then [''forwarded''] else [])))"

type_synonym MessageFlags = u32

definition MsgFlagSeen :: MessageFlags where "MsgFlagSeen = push_bit 0 1"
definition MsgFlagFlagged :: MessageFlags where "MsgFlagFlagged = push_bit 1 1"
definition MsgFlagDeleted :: MessageFlags where "MsgFlagDeleted = push_bit 2 1"
definition MsgFlagDraft :: MessageFlags where "MsgFlagDraft = push_bit 3 1"
definition MsgFlagNone :: MessageFlags where "MsgFlagNone = 0"

lemmas msg_flag_defs = MsgFlagSeen_def MsgFlagFlagged_def MsgFlagDeleted_def MsgFlagDraft_def
  MsgFlagNone_def

definition HasFlag :: "MessageFlags \<Rightarrow> MessageFlags \<Rightarrow> bool" where
  "HasFlag f flag \<longleftrightarrow> f AND flag \<noteq> 0"

definition WithFlag :: "MessageFlags \<Rightarrow> MessageFlags \<Rightarrow> MessageFlags" where
  "WithFlag f flag = f OR flag"

definition WithoutFlag :: "MessageFlags \<Rightarrow> MessageFlags \<Rightarrow> MessageFlags" where
  "WithoutFlag f flag = f AND NOT flag"

definition MessageFlags_String :: "MessageFlags \<Rightarrow> string" where
  "MessageFlags_String f =
     (if f = MsgFlagNone then ''none''
      else join '',''
        ((if HasFlag f MsgFlagSeen then [''seen''] else []) @
         (if HasFlag f MsgFlagFlagged then [''flagged''] else []) @
         (if HasFlag f MsgFlagDeleted then [''deleted''] else []) @
         (if HasFlag f MsgFlagDraft then [''draft''] else [])))"


section \<open>Mailbox types, access modes, visibilities (\<open>mailbox.go\<close>, \<open>visibility.go\<close>)\<close>

type_synonym MailboxType = "8 word"

definition MailboxPrivate :: MailboxType where "MailboxPrivate = 0"
definition MailboxShared :: MailboxType where "MailboxShared = 1"
definition MailboxPublic :: MailboxType where "MailboxPublic = 2"
definition MailboxClaim :: MailboxType where "MailboxClaim = 3"

lemmas mailbox_type_defs = MailboxPrivate_def MailboxShared_def MailboxPublic_def MailboxClaim_def

definition mailboxTypeNames :: "(MailboxType \<times> string) list" where
  "mailboxTypeNames = [(MailboxPrivate, ''private''), (MailboxShared, ''shared''),
     (MailboxPublic, ''public''), (MailboxClaim, ''claim'')]"

definition MailboxType_String :: "MailboxType \<Rightarrow> string" where
  "MailboxType_String t =
     (case map_of mailboxTypeNames t of Some name \<Rightarrow> name | None \<Rightarrow> unknown_name t)"

definition MailboxTypeFromString :: "string \<Rightarrow> err + MailboxType" where
  "MailboxTypeFromString s =
     (let l = to_lower s in
      if l = ''private'' then Inr MailboxPrivate
      else if l = ''shared'' then Inr MailboxShared
      else if l = ''public'' then Inr MailboxPublic
      else if l = ''claim'' then Inr MailboxClaim
      else Inl (PlainError (''unknown MailboxType: '' @ s)))"

type_synonym AccessMode = "8 word"

definition AccessReadOnly :: AccessMode where "AccessReadOnly = 0"
definition AccessWriteOnly :: AccessMode where "AccessWriteOnly = 1"
definition AccessReadWrite :: AccessMode where "AccessReadWrite = 2"

lemmas access_mode_defs = AccessReadOnly_def AccessWriteOnly_def AccessReadWrite_def

definition accessModeNames :: "(AccessMode \<times> string) list" where
  "accessModeNames = [(AccessReadOnly, ''readOnly''), (AccessWriteOnly, ''writeOnly''),
     (AccessReadWrite, ''readWrite'')]"

definition AccessMode_String :: "AccessMode \<Rightarrow> string" where
  "AccessMode_String m =
     (case map_of accessModeNames m of Some name \<Rightarrow> name | None \<Rightarrow> unknown_name m)"

definition AccessModeFromString :: "string \<Rightarrow> err + AccessMode" where
  "AccessModeFromString s =
     (let l = to_lower s in
      if l = ''readonly'' \<or> l = ''read_only'' then Inr AccessReadOnly
      else if l = ''writeonly'' \<or> l = ''write_only'' then Inr AccessWriteOnly
      else if l = ''readwrite'' \<or> l = ''read_write'' then Inr AccessReadWrite
      else Inl (PlainError (''unknown AccessMode: '' @ s)))"

type_synonym Visibility = "8 word"

definition VisibilityPrivate :: Visibility where "VisibilityPrivate = 0"
definition VisibilityShared :: Visibility where "VisibilityShared = 1"
definition VisibilityPublic :: Visibility where "VisibilityPublic = 2"

lemmas visibility_defs = VisibilityPrivate_def VisibilityShared_def VisibilityPublic_def

definition visibilityNames :: "(Visibility \<times> string) list" where
  "visibilityNames = [(VisibilityPrivate, ''private''), (VisibilityShared, ''shared''),
     (VisibilityPublic, ''public'')]"

definition Visibility_String :: "Visibility \<Rightarrow> string" where
  "Visibility_String v =
     (case map_of visibilityNames v of Some name \<Rightarrow> name | None \<Rightarrow> unknown_name v)"

definition Visibility_Valid :: "Visibility \<Rightarrow> bool" where
  "Visibility_Valid v \<longleftrightarrow> map_of visibilityNames v \<noteq> None"

definition VisibilityFromString :: "string \<Rightarrow> err + Visibility" where
  "VisibilityFromString s =
     (let l = to_lower s in
      if l = ''private'' then Inr VisibilityPrivate
      else if l = ''shared'' then Inr VisibilityShared
      else if l = ''public'' then Inr VisibilityPublic
      else Inl (PlainError (''unknown visibility '' @ quoted s @ '' (want private, shared or public)'')))"


section \<open>Status codes and bounds (\<open>status.go\<close>, \<open>message.go\<close>)\<close>

definition StatusOK :: int where "StatusOK = 200"
definition StatusMultiStatus :: int where "StatusMultiStatus = 207"
definition StatusBadRequest :: int where "StatusBadRequest = 400"
definition StatusForbidden :: int where "StatusForbidden = 403"
definition StatusNotFound :: int where "StatusNotFound = 404"
definition StatusConflict :: int where "StatusConflict = 409"
definition StatusTooManyRequests :: int where "StatusTooManyRequests = 429"
definition StatusInternalError :: int where "StatusInternalError = 500"
definition StatusServiceUnavailable :: int where "StatusServiceUnavailable = 503"
definition StatusInsufficientStorage :: int where "StatusInsufficientStorage = 507"

lemmas status_defs = StatusOK_def StatusMultiStatus_def StatusBadRequest_def StatusForbidden_def
  StatusNotFound_def StatusConflict_def StatusTooManyRequests_def StatusInternalError_def
  StatusServiceUnavailable_def StatusInsufficientStorage_def

definition MaxHopCount :: int where "MaxHopCount = 10"
definition MaxPayloadSize :: int where "MaxPayloadSize = 10 * 1024 * 1024"


section \<open>Messages (\<open>message.go\<close>)\<close>

record Message =
  MessageID :: string
  RecipientPeerID :: string
  SenderPeerID :: string
  Payload :: bytes
  Priority :: MessagePriority
  ExpiryTimestamp :: millis
  HopCount :: int
  Flags :: SFMessageFlags
  CreatedTimestamp :: millis
  FolderPath :: string
  SequenceNumber :: u64
  MsgFlags :: MessageFlags
  Persistent :: bool

text \<open>\<^verbatim>\<open>NewMessage\<close> takes the fresh UUID and the clock, which the code reads from outside.\<close>

definition NewMessage :: "string \<Rightarrow> millis \<Rightarrow> string \<Rightarrow> string \<Rightarrow> bytes \<Rightarrow> Message" where
  "NewMessage uuid now senderID recipientID payload =
     \<lparr>MessageID = uuid, RecipientPeerID = recipientID, SenderPeerID = senderID,
      Payload = payload, Priority = PriorityNormal, ExpiryTimestamp = 0, HopCount = 0,
      Flags = FlagNone, CreatedTimestamp = now, FolderPath = [], SequenceNumber = 0,
      MsgFlags = 0, Persistent = False\<rparr>"

definition NewMessageWithDefaultExpiry :: "string \<Rightarrow> millis \<Rightarrow> string \<Rightarrow> string \<Rightarrow> bytes \<Rightarrow> Message" where
  "NewMessageWithDefaultExpiry uuid now senderID recipientID payload =
     (NewMessage uuid now senderID recipientID payload)\<lparr>ExpiryTimestamp := now + 7 * day_ms\<rparr>"

definition IsExpired :: "millis \<Rightarrow> Message \<Rightarrow> bool" where
  "IsExpired now m = (if ExpiryTimestamp m = 0 then False else now > ExpiryTimestamp m)"

definition TimeUntilExpiry :: "millis \<Rightarrow> Message \<Rightarrow> int" where
  "TimeUntilExpiry now m = (if ExpiryTimestamp m = 0 then 0 else ExpiryTimestamp m - now)"

definition Age :: "millis \<Rightarrow> Message \<Rightarrow> int" where
  "Age now m = now - CreatedTimestamp m"

definition WithIncrementedHopCount :: "Message \<Rightarrow> err + Message" where
  "WithIncrementedHopCount m =
     (if HopCount m \<ge> MaxHopCount
      then Inl (PlainError (''max hop count ('' @ show_int MaxHopCount @ '') exceeded''))
      else Inr (m\<lparr>HopCount := HopCount m + 1, Flags := SF_WithFlag (Flags m) FlagForwarded\<rparr>))"

record 'e StoreAck =
  ackMessageID :: string
  ackSuccess :: bool
  ackErrorMessage :: 'e
  ackStatus :: int
  ackRetryAfterMs :: int

definition StoreAck_StatusCode :: "'e StoreAck \<Rightarrow> int" where
  "StoreAck_StatusCode a =
     (if ackStatus a \<noteq> 0 then ackStatus a
      else if ackSuccess a then StatusOK
      else StatusInternalError)"


section \<open>Lemmas\<close>

lemma bit_flag_iff: "(w :: u32) AND push_bit n 1 \<noteq> 0 \<longleftrightarrow> bit w n"
proof
  assume "w AND push_bit n 1 \<noteq> 0"
  then obtain k where "bit (w AND push_bit n 1) k"
    by (auto simp: bit_eq_iff)
  then show "bit w n"
    by (auto simp: bit_and_iff bit_push_bit_iff bit_1_iff bit_exp_iff)
next
  assume b: "bit w n"
  then have "n < 32" using bit_imp_le_length [OF b] by simp
  with b have "bit (w AND push_bit n 1) n"
    by (simp add: bit_and_iff bit_exp_iff)
  then show "w AND push_bit n 1 \<noteq> 0" by auto
qed

lemma SF_HasFlag_WithFlag_Forwarded: "SF_HasFlag (SF_WithFlag f FlagForwarded) FlagForwarded"
  by (simp add: SF_HasFlag_def SF_WithFlag_def FlagForwarded_def bit_flag_iff bit_or_iff bit_push_bit_iff)

lemma HasFlag_bit:
  "HasFlag f MsgFlagSeen = bit f 0" "HasFlag f MsgFlagFlagged = bit f 1"
  "HasFlag f MsgFlagDeleted = bit f 2" "HasFlag f MsgFlagDraft = bit f 3"
  by (simp_all only: HasFlag_def msg_flag_defs bit_flag_iff)


lemma to_lower_names:
  "to_lower ''private'' = ''private''" "to_lower ''shared'' = ''shared''"
  "to_lower ''public'' = ''public''" "to_lower ''claim'' = ''claim''"
  "to_lower ''readOnly'' = ''readonly''" "to_lower ''writeOnly'' = ''writeonly''"
  "to_lower ''readWrite'' = ''readwrite''"
  by code_simp+

lemma to_lower_unknown: "to_lower (unknown_name v) = CHR ''u'' # to_lower (tl (unknown_name v))"
proof -
  have "lower_char (CHR ''u'') = CHR ''u''" by code_simp
  then show ?thesis by (simp add: unknown_name_def to_lower_def)
qed

lemma byte_le_cases:
  "(t :: byte) \<le> 2 \<longleftrightarrow> t = 0 \<or> t = 1 \<or> t = 2" "t \<le> 3 \<longleftrightarrow> t = 0 \<or> t = 1 \<or> t = 2 \<or> t = 3"
  by (auto simp: word_le_nat_alt word_unat_eq_iff)


section \<open>Properties\<close>

text \<open>
  Every named mailbox type, access mode and visibility is parsed back from the name it
  prints as, so a type that a listing reports can be sent back in a request; the printed form of a value
  outside the enumeration is refused.
\<close>

theorem enum_names_roundtrip:
  "(MailboxTypeFromString (MailboxType_String t) = Inr t \<longleftrightarrow> t \<le> 3)
   \<and> (AccessModeFromString (AccessMode_String a) = Inr a \<longleftrightarrow> a \<le> 2)
   \<and> (VisibilityFromString (Visibility_String v) = Inr v \<longleftrightarrow> Visibility_Valid v)"
  using byte_le_cases [of t] byte_le_cases [of a]
  by (auto simp: MailboxTypeFromString_def MailboxType_String_def mailboxTypeNames_def
      mailbox_type_defs AccessModeFromString_def AccessMode_String_def accessModeNames_def
      access_mode_defs VisibilityFromString_def Visibility_String_def Visibility_Valid_def
      visibilityNames_def visibility_defs Let_def to_lower_names to_lower_unknown)

end
