(* ===== verification/Address.thy ===== *)
theory Address
  imports Wire
begin

text \<open>
  Mailbox addresses (\<^verbatim>\<open>src/internal/core/mailbox.go\<close>). A peer identity belongs to libp2p: its text
  form, the parser of that form and the text of its errors are parameters (\<open>peer_lib\<close>), of which the code relies on two
  documented facts, that a printed identity is parsed back and that base58 text has no slash.
  A value of type \<open>peer_id\<close> is an identity libp2p produced, from a connection or from a parse.
\<close>

datatype peer_id = PeerID string

record peer_lib =
  peer_String :: "peer_id \<Rightarrow> string"
  peer_Decode :: "string \<Rightarrow> peer_id option"
  peer_DecodeError :: "string \<Rightarrow> string"

definition peer_lib_ok :: "peer_lib \<Rightarrow> bool" where
  "peer_lib_ok L \<longleftrightarrow> (\<forall>p. peer_Decode L (peer_String L p) = Some p \<and> CHR ''/'' \<notin> set (peer_String L p))"

lemma peer_Decode_String: "peer_lib_ok L \<Longrightarrow> peer_Decode L (peer_String L p) = Some p"
  by (simp add: peer_lib_ok_def)

lemma peer_String_inj: "peer_lib_ok L \<Longrightarrow> peer_String L p = peer_String L q \<longleftrightarrow> p = q"
  by (metis option.inject peer_Decode_String)

record MailboxAddress =
  OwnerID :: peer_id
  addrFolderPath :: string
  addrType :: MailboxType

definition MaxFolderPathLength :: nat where "MaxFolderPathLength = 256"

text \<open>\<^verbatim>\<open>validateFolderPath\<close>: the error, or none when the path is accepted.\<close>

definition validateFolderPath :: "string \<Rightarrow> err option" where
  "validateFolderPath path =
     (if path = [] then Some (PlainError ''folder path cannot be empty'')
      else if length path > MaxFolderPathLength
        then Some (PlainError (''folder path exceeds '' @ show_nat MaxFolderPathLength @ '' bytes''))
      else if \<not> valid_utf8 path then Some (PlainError ''folder path is not valid UTF-8'')
      else if contains_control path then Some (PlainError ''folder path contains a control character'')
      else if has_prefix path ''/'' then Some (PlainError ''folder path cannot start with /'')
      else if has_suffix path ''/'' then Some (PlainError ''folder path cannot end with /'')
      else if contains_sub path ''//'' then Some (PlainError ''folder path cannot contain //'')
      else None)"

definition NewMailboxAddress :: "peer_id \<Rightarrow> string \<Rightarrow> MailboxType \<Rightarrow> err + MailboxAddress" where
  "NewMailboxAddress ownerID folderPath typ =
     (case validateFolderPath folderPath of
        Some e \<Rightarrow> Inl e
      | None \<Rightarrow> Inr \<lparr>OwnerID = ownerID, addrFolderPath = folderPath, addrType = typ\<rparr>)"

definition NewInbox :: "peer_id \<Rightarrow> MailboxAddress" where
  "NewInbox ownerID = \<lparr>OwnerID = ownerID, addrFolderPath = ''inbox'', addrType = MailboxPrivate\<rparr>"

definition ParseMailboxAddress :: "peer_lib \<Rightarrow> string \<Rightarrow> MailboxType \<Rightarrow> err + MailboxAddress" where
  "ParseMailboxAddress L s typ =
     (case index_char (CHR ''/'') s of
        None \<Rightarrow> Inl (PlainError (''invalid mailbox address: missing folder path separator in '' @ quoted s))
      | Some idx \<Rightarrow>
          (case peer_Decode L (take idx s) of
             None \<Rightarrow> Inl (Wrapped ''invalid peer ID in mailbox address: '' (PlainError (peer_DecodeError L (take idx s))) [])
           | Some ownerID \<Rightarrow> NewMailboxAddress ownerID (drop (idx + 1) s) typ))"

definition FullPath :: "peer_lib \<Rightarrow> MailboxAddress \<Rightarrow> string" where
  "FullPath L a = peer_String L (OwnerID a) @ ''/'' @ addrFolderPath a"


section \<open>What an accepted path looks like\<close>

text \<open>The segments of a path between slashes (\<^verbatim>\<open>strings.Split(path, "/")\<close>).\<close>

fun segments :: "string \<Rightarrow> string list" where
  "segments [] = [[]]"
| "segments (c # cs) =
     (if c = CHR ''/'' then [] # segments cs
      else case segments cs of s # ss \<Rightarrow> (c # s) # ss | [] \<Rightarrow> [[c]])"

lemma segments_nonempty: "segments s \<noteq> []"
  by (induction s) (auto split: list.splits)

text \<open>Every segment but possibly the first is not empty.\<close>

lemma tl_segments_nonempty:
  "list_all (\<lambda>s. s \<noteq> []) (tl (segments p)) \<longleftrightarrow> \<not> has_suffix p ''/'' \<and> \<not> contains_sub p ''//''"
proof (induction p)
  case Nil
  then show ?case by (simp add: has_suffix_def)
next
  case (Cons c cs)
  obtain s ss where seg: "segments cs = s # ss"
    using segments_nonempty [of cs] by (cases "segments cs") auto
  have first: "s = [] \<longleftrightarrow> cs = [] \<or> hd cs = CHR ''/''"
    using seg by (cases cs) (auto split: if_splits list.splits)
  have suf: "has_suffix (c # cs) ''/'' \<longleftrightarrow> (if cs = [] then c = CHR ''/'' else has_suffix cs ''/'')"
    by (auto simp: has_suffix_def Suc_diff_le neq_Nil_conv)
  have pre: "has_prefix (c # cs) ''//'' \<longleftrightarrow> c = CHR ''/'' \<and> cs \<noteq> [] \<and> hd cs = CHR ''/''"
    by (cases cs) (auto simp: has_prefix_def)
  show ?case
    using Cons.IH seg first suf pre by (auto simp: list_all_iff)
qed

lemma hd_segments_empty: "hd (segments p) = [] \<longleftrightarrow> p = [] \<or> has_prefix p ''/''"
  by (cases p) (auto simp: has_prefix_def split: list.splits)

lemma segments_nonempty_iff:
  assumes "p \<noteq> []"
  shows "list_all (\<lambda>s. s \<noteq> []) (segments p) \<longleftrightarrow>
    \<not> has_prefix p ''/'' \<and> \<not> has_suffix p ''/'' \<and> \<not> contains_sub p ''//''"
proof -
  obtain s ss where seg: "segments p = s # ss"
    using segments_nonempty [of p] by (cases "segments p") auto
  show ?thesis
    using seg assms hd_segments_empty [of p] tl_segments_nonempty [of p] by auto
qed

lemma NewMailboxAddress_OK:
  "NewMailboxAddress p f t = Inr a \<longleftrightarrow>
     validateFolderPath f = None \<and> a = \<lparr>OwnerID = p, addrFolderPath = f, addrType = t\<rparr>"
  by (auto simp: NewMailboxAddress_def split: option.splits)

lemma index_FullPath:
  assumes "peer_lib_ok L"
  shows "index_char (CHR ''/'') (FullPath L a) = Some (length (peer_String L (OwnerID a)))"
  using assms by (simp add: FullPath_def peer_lib_ok_def index_char_append)

lemma FullPath_inj:
  assumes "peer_lib_ok L" "FullPath L a = FullPath L b"
  shows "OwnerID a = OwnerID b \<and> addrFolderPath a = addrFolderPath b"
proof -
  have "length (peer_String L (OwnerID a)) = length (peer_String L (OwnerID b))"
    using index_FullPath [OF assms(1), of a] index_FullPath [OF assms(1), of b] assms(2) by simp
  with assms show ?thesis by (simp add: FullPath_def peer_String_inj)
qed


section \<open>A concrete peer library\<close>

text \<open>
  Identities written in hexadecimal: an instance of the two facts, on which statements that
  assume them are evaluated.
\<close>

definition hex_char :: "char \<Rightarrow> string" where
  "hex_char c = (let n = of_char c in [digit_char (n div 16), digit_char (n mod 16)])"

definition hex_digit :: "char \<Rightarrow> nat option" where
  "hex_digit c = index_char c ''0123456789ABCDEF''"

fun hex_decode :: "string \<Rightarrow> string option" where
  "hex_decode [] = Some []"
| "hex_decode (a # b # cs) =
     (case (hex_digit a, hex_digit b, hex_decode cs) of
        (Some x, Some y, Some s) \<Rightarrow> Some (char_of (x * 16 + y) # s)
      | _ \<Rightarrow> None)"
| "hex_decode [_] = None"

definition hex_peers :: peer_lib where
  "hex_peers = \<lparr>
     peer_String = (\<lambda>p. case p of PeerID s \<Rightarrow> concat (map hex_char s)),
     peer_Decode = (\<lambda>s. map_option PeerID (hex_decode s)),
     peer_DecodeError = (\<lambda>s. ''failed to parse peer ID'')\<rparr>"

lemma hex_digit_digit_char_all:
  "list_all (\<lambda>n. hex_digit (digit_char n) = Some n \<and> digit_char n \<noteq> CHR ''/'') [0..<16]"
  by code_simp

lemma hex_digit_digit_char: "n < 16 \<Longrightarrow> hex_digit (digit_char n) = Some n \<and> digit_char n \<noteq> CHR ''/''"
  using hex_digit_digit_char_all by (auto simp: list_all_iff)

lemma hex_char_digits:
  "of_char c div 16 < (16 :: nat)" "of_char c mod 16 < (16 :: nat)"
proof -
  have "of_char c < (256 :: nat)" by simp
  then show "of_char c div 16 < (16 :: nat)" by (simp only: div_less_iff_less_mult)
  show "of_char c mod 16 < (16 :: nat)" by simp
qed

lemma hex_decode_encode: "hex_decode (concat (map hex_char s)) = Some s"
  by (induction s) (simp_all add: hex_char_def Let_def hex_digit_digit_char hex_char_digits)

lemma hex_char_no_slash: "CHR ''/'' \<notin> set (hex_char c)"
  using hex_digit_digit_char [OF hex_char_digits(1) [of c]] hex_digit_digit_char [OF hex_char_digits(2) [of c]]
  unfolding hex_char_def Let_def by auto

lemma hex_no_slash: "CHR ''/'' \<notin> set (concat (map hex_char s))"
  using hex_char_no_slash by simp

lemma hex_peers_ok: "peer_lib_ok hex_peers"
  unfolding peer_lib_ok_def
proof
  fix p show "peer_Decode hex_peers (peer_String hex_peers p) = Some p
      \<and> CHR ''/'' \<notin> set (peer_String hex_peers p)"
    using hex_no_slash by (cases p) (simp add: hex_peers_def hex_decode_encode)
qed


section \<open>Properties\<close>

text \<open>
  A folder path is accepted exactly when it is not empty, at most 256 bytes, valid UTF-8
  without control characters, and no segment between slashes is empty.
\<close>

theorem validateFolderPath_spec:
  "validateFolderPath p = None \<longleftrightarrow>
     p \<noteq> [] \<and> length p \<le> 256 \<and> valid_utf8 p \<and> \<not> contains_control p
     \<and> list_all (\<lambda>s. s \<noteq> []) (segments p)"
  using segments_nonempty_iff [of p]
  by (cases "p = []") (auto simp: validateFolderPath_def MaxFolderPathLength_def)

text \<open>
  The full path of an accepted address parses back to that address, and two addresses with
  the same full path name the same owner and folder: the full path is a sound cache key.
\<close>

theorem FullPath_parse_roundtrip:
  assumes "peer_lib_ok L" "NewMailboxAddress p f t = Inr a"
  shows "ParseMailboxAddress L (FullPath L a) t = Inr a
    \<and> (FullPath L b = FullPath L a \<longrightarrow> OwnerID b = p \<and> addrFolderPath b = f)"
proof
  have a: "validateFolderPath f = None" "a = \<lparr>OwnerID = p, addrFolderPath = f, addrType = t\<rparr>"
    using assms(2) by (simp_all add: NewMailboxAddress_OK)
  have "take (length (peer_String L p)) (FullPath L a) = peer_String L p"
    and "drop (length (peer_String L p) + 1) (FullPath L a) = f"
    by (simp_all add: a(2) FullPath_def)
  then show "ParseMailboxAddress L (FullPath L a) t = Inr a"
    using assms index_FullPath [OF assms(1), of a] peer_Decode_String [OF assms(1), of p]
    by (simp add: ParseMailboxAddress_def a(2))
  show "FullPath L b = FullPath L a \<longrightarrow> OwnerID b = p \<and> addrFolderPath b = f"
    using FullPath_inj [OF assms(1), of b a] by (simp add: a(2))
qed

theorem FullPath_parse_roundtrip_witness:
  "ParseMailboxAddress hex_peers ''416C/work/todo'' MailboxShared
     = Inr \<lparr>OwnerID = PeerID ''Al'', addrFolderPath = ''work/todo'', addrType = MailboxShared\<rparr>"
proof -
  let ?a = "\<lparr>OwnerID = PeerID ''Al'', addrFolderPath = ''work/todo'', addrType = MailboxShared\<rparr>"
  have a: "NewMailboxAddress (PeerID ''Al'') ''work/todo'' MailboxShared = Inr ?a"
    by (simp add: NewMailboxAddress_OK validateFolderPath_spec valid_utf8_def contains_control_def)
  have "FullPath hex_peers ?a = ''416C/work/todo''"
    by code_simp
  then show ?thesis
    using FullPath_parse_roundtrip [OF hex_peers_ok a, of ?a] by simp
qed

end
