(* ===== verification/Store.thy ===== *)
theory Store
  imports Address
begin

text \<open>
  The message store (\<^verbatim>\<open>src/internal/storage/models.go\<close> and the mailbox, message, flag, ACL,
  cursor and cleanup operations of \<^verbatim>\<open>src/internal/storage/postgres/postgres.go\<close>). The tables of
  \<^verbatim>\<open>src/schema.sql\<close> are lists of rows; every SQL statement is the function on those rows that it
  denotes, constraints, cascades and the delete trigger included, and a transaction is one atomic
  step. A list of operations is a sequence of such statements and transactions, in the order in
  which the database commits them.

  The database is outside the program: \<open>clock\<close> is the time it reports, \<open>row_locks\<close> the message
  rows that claims still in flight hold locked, and \<open>faults\<close> the fate of the next statements: one
  may fail without effect, or take effect and lose its reply.
\<close>

datatype fault = Works | Fails | ReplyLost

record env =
  clock :: millis
  faults :: "fault list"

text \<open>One statement or transaction: it consumes one entry of the schedule; past its end all work.\<close>

definition stmt :: "('a env_scheme \<Rightarrow> (err + 'b) \<times> 'a env_scheme) \<Rightarrow> 'a env_scheme \<Rightarrow> (err + 'b) \<times> 'a env_scheme" where
  "stmt f db =
     (case faults db of
        [] \<Rightarrow> f db
      | Works # fs \<Rightarrow> f (db\<lparr>faults := fs\<rparr>)
      | Fails # fs \<Rightarrow> (Inl (DbError ''statement failed''), db\<lparr>faults := fs\<rparr>)
      | ReplyLost # fs \<Rightarrow> (Inl (DbError ''connection lost''), snd (f (db\<lparr>faults := fs\<rparr>))))"

text \<open>The tables. \<open>mailbox_row\<close> has the columns of \<^verbatim>\<open>mailboxes\<close> that a record does not carry.\<close>

record MailboxRecord =
  mbID :: int
  OwnerPeerID :: string
  mbFolderPath :: string
  mbType :: MailboxType
  CreatedAt :: millis
  LastAccessAt :: millis
  MaxMessages :: int
  RetentionDays :: int
  RetentionCount :: "int option"
  MessageCount :: int

record mailbox_row = MailboxRecord +
  current_sequence :: int
  message_bytes :: int

record StoredMessageRecord =
  smID :: int
  smMailboxID :: int
  smSequenceNumber :: int
  smMessageID :: string
  smRecipientPeerID :: string
  smSenderPeerID :: string
  smPayload :: bytes
  smPriority :: MessagePriority
  smCreatedAt :: millis
  smExpiresAt :: millis
  smHopCount :: int
  smFlagsBitmap :: MessageFlags
  smSfFlags :: SFMessageFlags
  smPersistent :: bool
  smFolderPath :: string

record AclRecord =
  aclID :: int
  aclMailboxID :: int
  aclPeerID :: string
  aclAccessMode :: AccessMode
  aclGrantedAt :: millis

record ReaderCursorRecord =
  curMailboxID :: int
  curReaderPeerID :: string
  curLastSequenceRead :: int
  curLastAccessAt :: millis

record db = env +
  mailboxes :: "mailbox_row list"
  stored_messages :: "StoredMessageRecord list"
  mailbox_acls :: "AclRecord list"
  reader_cursors :: "ReaderCursorRecord list"
  row_locks :: "int list"
  next_id :: int

type_synonym 'a dbm = "db \<Rightarrow> (err + 'a) \<times> db"

definition MailboxRecord_FullPath :: "'a MailboxRecord_scheme \<Rightarrow> string" where
  "MailboxRecord_FullPath r = OwnerPeerID r @ ''/'' @ mbFolderPath r"

definition record_of :: "mailbox_row \<Rightarrow> MailboxRecord" where
  "record_of r = MailboxRecord.truncate r"

definition scanMessage :: "StoredMessageRecord \<Rightarrow> Message" where
  "scanMessage r =
     \<lparr>MessageID = smMessageID r, RecipientPeerID = smRecipientPeerID r,
      SenderPeerID = smSenderPeerID r, Payload = smPayload r, Priority = smPriority r,
      ExpiryTimestamp = smExpiresAt r, HopCount = smHopCount r, Flags = smSfFlags r,
      CreatedTimestamp = smCreatedAt r, FolderPath = smFolderPath r,
      SequenceNumber = word_of_int (smSequenceNumber r), MsgFlags = smFlagsBitmap r,
      Persistent = smPersistent r\<rparr>"

definition messages_of :: "int \<Rightarrow> db \<Rightarrow> StoredMessageRecord list" where
  "messages_of mid db = filter (\<lambda>m. smMailboxID m = mid) (stored_messages db)"

definition find_mailbox :: "int \<Rightarrow> db \<Rightarrow> mailbox_row option" where
  "find_mailbox mid db = find (\<lambda>r. mbID r = mid) (mailboxes db)"

definition owned_by :: "string \<Rightarrow> db \<Rightarrow> StoredMessageRecord \<Rightarrow> bool" where
  "owned_by owner db m \<longleftrightarrow>
     smMailboxID m \<in> set (map mbID (filter (\<lambda>r. OwnerPeerID r = owner) (mailboxes db)))"

definition update_mailbox_rows :: "(mailbox_row \<Rightarrow> mailbox_row) \<Rightarrow> int \<Rightarrow> db \<Rightarrow> db" where
  "update_mailbox_rows f mid db =
     db\<lparr>mailboxes := map (\<lambda>r. if mbID r = mid then f r else r) (mailboxes db)\<rparr>"

text \<open>
  \<^verbatim>\<open>DELETE FROM stored_messages WHERE P\<close>, with the statement trigger \<^verbatim>\<open>stored_messages_deleted\<close>
  that lowers the counters of the mailboxes the rows came from, never below zero.
\<close>

definition deleted_trigger :: "StoredMessageRecord list \<Rightarrow> mailbox_row \<Rightarrow> mailbox_row" where
  "deleted_trigger deleted r =
     (let d = filter (\<lambda>m. smMailboxID m = mbID r) deleted in
      if d = [] then r
      else r\<lparr>MessageCount := max (MessageCount r - int (length d)) 0,
             message_bytes := max (message_bytes r - sum_list (map (\<lambda>m. int (length (smPayload m))) d)) 0\<rparr>)"

definition delete_where :: "(StoredMessageRecord \<Rightarrow> bool) \<Rightarrow> db \<Rightarrow> int \<times> db" where
  "delete_where P db =
     (let deleted = filter P (stored_messages db) in
      (int (length deleted),
       db\<lparr>stored_messages := filter (\<lambda>m. \<not> P m) (stored_messages db),
          mailboxes := map (deleted_trigger deleted) (mailboxes db)\<rparr>))"

definition delete_stmt :: "(db \<Rightarrow> StoredMessageRecord \<Rightarrow> bool) \<Rightarrow> int dbm" where
  "delete_stmt P = stmt (\<lambda>db. let (n, db') = delete_where (P db) db in (Inr n, db'))"


section \<open>Mailbox operations\<close>

definition insert_mailbox :: "mailbox_row \<Rightarrow> db \<Rightarrow> db" where
  "insert_mailbox r db = db\<lparr>mailboxes := mailboxes db @ [r], next_id := next_id db + 1\<rparr>"

definition pg_GetOrCreateMailbox :: "peer_lib \<Rightarrow> MailboxAddress \<Rightarrow> int \<Rightarrow> int \<Rightarrow> int option \<Rightarrow> MailboxRecord dbm" where
  "pg_GetOrCreateMailbox L addr maxMessages retentionDays retentionCount = stmt (\<lambda>db.
     case find (\<lambda>r. OwnerPeerID r = peer_String L (OwnerID addr) \<and> mbFolderPath r = addrFolderPath addr) (mailboxes db) of
       Some r \<Rightarrow> (Inr (record_of r), db)
     | None \<Rightarrow>
         (let r = \<lparr>mbID = next_id db, OwnerPeerID = peer_String L (OwnerID addr),
                   mbFolderPath = addrFolderPath addr, mbType = addrType addr,
                   CreatedAt = clock db, LastAccessAt = clock db, MaxMessages = maxMessages,
                   RetentionDays = retentionDays, RetentionCount = retentionCount,
                   MessageCount = 0, current_sequence = 0, message_bytes = 0\<rparr>
          in (Inr (record_of r), insert_mailbox r db)))"

definition pg_FindMailbox :: "peer_lib \<Rightarrow> peer_id \<Rightarrow> string \<Rightarrow> MailboxRecord option dbm" where
  "pg_FindMailbox L ownerID folderPath = stmt (\<lambda>db.
     (Inr (map_option record_of
        (find (\<lambda>r. OwnerPeerID r = peer_String L ownerID \<and> mbFolderPath r = folderPath) (mailboxes db))), db))"

definition pg_CountMailboxes :: "peer_lib \<Rightarrow> peer_id \<Rightarrow> (int \<times> int) dbm" where
  "pg_CountMailboxes L ownerID = stmt (\<lambda>db.
     (Inr (int (length (filter (\<lambda>r. OwnerPeerID r = peer_String L ownerID) (mailboxes db))),
           int (length (mailboxes db))), db))"

definition pg_ListMailboxes :: "peer_lib \<Rightarrow> peer_id \<Rightarrow> MailboxRecord list dbm" where
  "pg_ListMailboxes L ownerID = stmt (\<lambda>db.
     (Inr (map record_of (filter (\<lambda>r. OwnerPeerID r = peer_String L ownerID) (mailboxes db))), db))"

definition pg_UpdateMailbox :: "MailboxRecord \<Rightarrow> unit dbm" where
  "pg_UpdateMailbox mb = stmt (\<lambda>db.
     (Inr (), update_mailbox_rows
        (\<lambda>r. r\<lparr>MaxMessages := MaxMessages mb, RetentionDays := RetentionDays mb,
               RetentionCount := RetentionCount mb, LastAccessAt := LastAccessAt mb\<rparr>) (mbID mb) db))"

text \<open>\<^verbatim>\<open>DELETE FROM mailboxes\<close> cascades to the rows that reference the mailbox.\<close>

definition pg_DeleteMailbox :: "int \<Rightarrow> unit dbm" where
  "pg_DeleteMailbox mid = stmt (\<lambda>db.
     (Inr (), db\<lparr>mailboxes := filter (\<lambda>r. mbID r \<noteq> mid) (mailboxes db),
                 stored_messages := filter (\<lambda>m. smMailboxID m \<noteq> mid) (stored_messages db),
                 mailbox_acls := filter (\<lambda>a. aclMailboxID a \<noteq> mid) (mailbox_acls db),
                 reader_cursors := filter (\<lambda>c. curMailboxID c \<noteq> mid) (reader_cursors db)\<rparr>))"

definition pg_UpdateMailboxAccess :: "int \<Rightarrow> unit dbm" where
  "pg_UpdateMailboxAccess mid = stmt (\<lambda>db.
     (Inr (), update_mailbox_rows (\<lambda>r. r\<lparr>LastAccessAt := clock db\<rparr>) mid db))"


section \<open>Message operations\<close>

definition message_row :: "int \<Rightarrow> int \<Rightarrow> int \<Rightarrow> Message \<Rightarrow> StoredMessageRecord" where
  "message_row i mid seq msg =
     \<lparr>smID = i, smMailboxID = mid, smSequenceNumber = seq, smMessageID = MessageID msg,
      smRecipientPeerID = RecipientPeerID msg, smSenderPeerID = SenderPeerID msg,
      smPayload = Payload msg, smPriority = Priority msg, smCreatedAt = CreatedTimestamp msg,
      smExpiresAt = ExpiryTimestamp msg, smHopCount = HopCount msg, smFlagsBitmap = MsgFlags msg,
      smSfFlags = Flags msg, smPersistent = Persistent msg, smFolderPath = FolderPath msg\<rparr>"

definition count_in :: "int \<Rightarrow> millis \<Rightarrow> mailbox_row \<Rightarrow> mailbox_row" where
  "count_in n now r = r\<lparr>current_sequence := current_sequence r + 1, MessageCount := MessageCount r + 1,
     message_bytes := message_bytes r + n, LastAccessAt := now\<rparr>"

definition insert_message :: "StoredMessageRecord \<Rightarrow> db \<Rightarrow> db" where
  "insert_message m db = db\<lparr>stored_messages := stored_messages db @ [m], next_id := next_id db + 1\<rparr>"

definition storeRefused :: "int \<Rightarrow> db \<Rightarrow> err" where
  "storeRefused mid db =
     (case find_mailbox mid db of
        None \<Rightarrow> ErrMailboxNotFound
      | Some r \<Rightarrow> MailboxFullError (MessageCount r) (MaxMessages r))"

text \<open>
  The transaction of \<^verbatim>\<open>StoreMessage\<close>: the guarded counter update, then the insert, which the
  unique constraint on \<^verbatim>\<open>message_id\<close> refuses for an identifier that is stored already; the
  transaction then rolls back.
\<close>

definition pg_StoreMessage :: "int \<Rightarrow> Message \<Rightarrow> int dbm" where
  "pg_StoreMessage mid msg = stmt (\<lambda>db.
     case find (\<lambda>r. mbID r = mid \<and> (MaxMessages r \<le> 0 \<or> MessageCount r < MaxMessages r)) (mailboxes db) of
       None \<Rightarrow> (Inl (storeRefused mid db), db)
     | Some r \<Rightarrow>
         (let seq = current_sequence r + 1 in
          if MessageID msg \<in> set (map smMessageID (stored_messages db))
          then (Inl (DbError ''store message''), db)
          else (Inr seq,
                insert_message (message_row (next_id db) mid seq msg)
                  (update_mailbox_rows (count_in (int (length (Payload msg))) (clock db)) mid db))))"

definition priority_key :: "StoredMessageRecord \<Rightarrow> int \<times> int" where
  "priority_key m = (- uint (smPriority m), smSequenceNumber m)"

definition retrieve_rows :: "int \<Rightarrow> int option \<Rightarrow> MessagePriority option \<Rightarrow> db \<Rightarrow> StoredMessageRecord list" where
  "retrieve_rows mid fromSequence minPriority db =
     sort_key priority_key (filter (\<lambda>m. smMailboxID m = mid \<and> clock db < smExpiresAt m
        \<and> (case fromSequence of None \<Rightarrow> True | Some s \<Rightarrow> s \<le> smSequenceNumber m)
        \<and> (case minPriority of None \<Rightarrow> True | Some p \<Rightarrow> p < smPriority m)) (stored_messages db))"

text \<open>PostgreSQL refuses a negative \<^verbatim>\<open>LIMIT\<close>.\<close>

definition limit_rows :: "int option \<Rightarrow> 'a list \<Rightarrow> err + 'a list" where
  "limit_rows n xs =
     (case n of
        None \<Rightarrow> Inr xs
      | Some k \<Rightarrow> if k < 0 then Inl (DbError ''LIMIT must not be negative'') else Inr (take (nat k) xs))"

definition pg_RetrieveMessages :: "int \<Rightarrow> int option \<Rightarrow> int option \<Rightarrow> MessagePriority option \<Rightarrow> Message list dbm" where
  "pg_RetrieveMessages mid fromSequence maxMessages minPriority = stmt (\<lambda>db.
     (map_sum id (map scanMessage) (limit_rows maxMessages (retrieve_rows mid fromSequence minPriority db)), db))"

definition pg_DeleteMessage :: "string \<Rightarrow> int dbm" where
  "pg_DeleteMessage messageID = delete_stmt (\<lambda>_ m. smMessageID m = messageID)"

definition pg_DeleteMessages :: "string list \<Rightarrow> int dbm" where
  "pg_DeleteMessages messageIDs =
     (if messageIDs = [] then (\<lambda>db. (Inr 0, db))
      else delete_stmt (\<lambda>_ m. smMessageID m \<in> set messageIDs))"

definition pg_DeleteOwnedMessages :: "peer_lib \<Rightarrow> peer_id \<Rightarrow> string list \<Rightarrow> int dbm" where
  "pg_DeleteOwnedMessages L ownerID messageIDs =
     (if messageIDs = [] then (\<lambda>db. (Inr 0, db))
      else delete_stmt (\<lambda>db m. smMessageID m \<in> set messageIDs \<and> owned_by (peer_String L ownerID) db m))"

text \<open>The rows a claim may take, oldest first; rows other claims hold locked are skipped.\<close>

definition claimable :: "int \<Rightarrow> db \<Rightarrow> StoredMessageRecord list" where
  "claimable mid db = sort_key smSequenceNumber
     (filter (\<lambda>m. smMailboxID m = mid \<and> clock db < smExpiresAt m \<and> smID m \<notin> set (row_locks db)) (stored_messages db))"

definition pg_ClaimMessage :: "int \<Rightarrow> Message option dbm" where
  "pg_ClaimMessage mid = stmt (\<lambda>db.
     case claimable mid db of
       [] \<Rightarrow> (Inr None, db)
     | m # _ \<Rightarrow> (Inr (Some (scanMessage m)), snd (delete_where (\<lambda>x. smID x = smID m) db)))"

definition pg_GetMessageCount :: "int \<Rightarrow> int dbm" where
  "pg_GetMessageCount mid = stmt (\<lambda>db.
     (case find_mailbox mid db of None \<Rightarrow> Inl ErrMailboxNotFound | Some r \<Rightarrow> Inr (MessageCount r), db))"


section \<open>Flag operations\<close>

definition update_message_rows :: "(StoredMessageRecord \<Rightarrow> bool) \<Rightarrow> (MessageFlags \<Rightarrow> MessageFlags) \<Rightarrow> db \<Rightarrow> int \<times> db" where
  "update_message_rows P f db =
     (int (length (filter P (stored_messages db))),
      db\<lparr>stored_messages := map (\<lambda>m. if P m then m\<lparr>smFlagsBitmap := f (smFlagsBitmap m)\<rparr> else m) (stored_messages db)\<rparr>)"

definition pg_UpdateMessageFlags :: "peer_lib \<Rightarrow> peer_id \<Rightarrow> string \<Rightarrow> MessageFlags \<Rightarrow> MessageFlags \<Rightarrow> MessageFlags option dbm" where
  "pg_UpdateMessageFlags L ownerID messageID addFlags removeFlags = stmt (\<lambda>db.
     let P = (\<lambda>m. smMessageID m = messageID \<and> owned_by (peer_String L ownerID) db m);
         f = (\<lambda>b. WithoutFlag (WithFlag b addFlags) removeFlags)
     in (Inr (map_option (\<lambda>m. f (smFlagsBitmap m)) (find P (stored_messages db))),
         snd (update_message_rows P f db)))"

definition pg_ExpungeMailbox :: "int \<Rightarrow> int dbm" where
  "pg_ExpungeMailbox mid = delete_stmt (\<lambda>_ m. smMailboxID m = mid \<and> HasFlag (smFlagsBitmap m) MsgFlagDeleted)"

definition pg_ExpungeAllMailboxes :: "peer_lib \<Rightarrow> peer_id \<Rightarrow> int dbm" where
  "pg_ExpungeAllMailboxes L ownerID =
     delete_stmt (\<lambda>db m. owned_by (peer_String L ownerID) db m \<and> HasFlag (smFlagsBitmap m) MsgFlagDeleted)"

definition pg_MarkMessagesDelivered :: "peer_lib \<Rightarrow> peer_id \<Rightarrow> string list \<Rightarrow> int dbm" where
  "pg_MarkMessagesDelivered L ownerID messageIDs =
     (if messageIDs = [] then (\<lambda>db. (Inr 0, db))
      else stmt (\<lambda>db.
        let mine = (\<lambda>db m. smMessageID m \<in> set messageIDs \<and> owned_by (peer_String L ownerID) db m);
            (deleted, db1) = delete_where (\<lambda>m. mine db m \<and> \<not> smPersistent m) db;
            (seen, db2) = update_message_rows (\<lambda>m. mine db1 m \<and> smPersistent m) (\<lambda>b. WithFlag b MsgFlagSeen) db1
        in (Inr (deleted + seen), db2)))"


section \<open>ACL and cursor operations\<close>

definition mailbox_exists :: "int \<Rightarrow> db \<Rightarrow> bool" where
  "mailbox_exists mid db \<longleftrightarrow> mid \<in> set (map mbID (mailboxes db))"

definition pg_GrantAccess :: "peer_lib \<Rightarrow> int \<Rightarrow> peer_id \<Rightarrow> AccessMode \<Rightarrow> unit dbm" where
  "pg_GrantAccess L mid peerID mode = stmt (\<lambda>db.
     if \<not> mailbox_exists mid db then (Inl (DbError ''foreign key violation''), db)
     else if (mid, peer_String L peerID) \<in> set (map (\<lambda>a. (aclMailboxID a, aclPeerID a)) (mailbox_acls db))
     then (Inr (), db\<lparr>mailbox_acls := map (\<lambda>a. if aclMailboxID a = mid \<and> aclPeerID a = peer_String L peerID
              then a\<lparr>aclAccessMode := mode, aclGrantedAt := clock db\<rparr> else a) (mailbox_acls db)\<rparr>)
     else (Inr (), db\<lparr>mailbox_acls := mailbox_acls db @ [\<lparr>aclID = next_id db, aclMailboxID = mid,
              aclPeerID = peer_String L peerID, aclAccessMode = mode, aclGrantedAt = clock db\<rparr>],
              next_id := next_id db + 1\<rparr>))"

definition pg_RevokeAccess :: "peer_lib \<Rightarrow> int \<Rightarrow> peer_id \<Rightarrow> unit dbm" where
  "pg_RevokeAccess L mid peerID = stmt (\<lambda>db.
     (Inr (), db\<lparr>mailbox_acls := filter (\<lambda>a. \<not> (aclMailboxID a = mid \<and> aclPeerID a = peer_String L peerID))
                  (mailbox_acls db)\<rparr>))"

definition mode_allows :: "AccessMode \<Rightarrow> AccessMode \<Rightarrow> bool" where
  "mode_allows granted required =
     (if required = AccessReadOnly then granted = AccessReadOnly \<or> granted = AccessReadWrite
      else if required = AccessWriteOnly then granted = AccessWriteOnly \<or> granted = AccessReadWrite
      else if required = AccessReadWrite then granted = AccessReadWrite
      else False)"

definition acl_lookup :: "int \<Rightarrow> string \<Rightarrow> db \<Rightarrow> AccessMode option" where
  "acl_lookup mid p db =
     map_option aclAccessMode (find (\<lambda>a. aclMailboxID a = mid \<and> aclPeerID a = p) (mailbox_acls db))"

definition pg_CheckAccess :: "peer_lib \<Rightarrow> int \<Rightarrow> peer_id \<Rightarrow> AccessMode \<Rightarrow> bool dbm" where
  "pg_CheckAccess L mid peerID required = stmt (\<lambda>db.
     (Inr (case acl_lookup mid (peer_String L peerID) db of
             None \<Rightarrow> False | Some granted \<Rightarrow> mode_allows granted required), db))"

definition pg_ListACL :: "int \<Rightarrow> AclRecord list dbm" where
  "pg_ListACL mid = stmt (\<lambda>db. (Inr (filter (\<lambda>a. aclMailboxID a = mid) (mailbox_acls db)), db))"

definition cursor_of :: "int \<Rightarrow> string \<Rightarrow> db \<Rightarrow> int" where
  "cursor_of mid p db =
     (case find (\<lambda>c. curMailboxID c = mid \<and> curReaderPeerID c = p) (reader_cursors db) of
        None \<Rightarrow> 0 | Some c \<Rightarrow> curLastSequenceRead c)"

definition pg_GetCursor :: "peer_lib \<Rightarrow> int \<Rightarrow> peer_id \<Rightarrow> int dbm" where
  "pg_GetCursor L mid readerID = stmt (\<lambda>db. (Inr (cursor_of mid (peer_String L readerID) db), db))"

definition pg_UpdateCursor :: "peer_lib \<Rightarrow> int \<Rightarrow> peer_id \<Rightarrow> int \<Rightarrow> unit dbm" where
  "pg_UpdateCursor L mid readerID sequence = stmt (\<lambda>db.
     if \<not> mailbox_exists mid db then (Inl (DbError ''foreign key violation''), db)
     else if (mid, peer_String L readerID) \<in> set (map (\<lambda>c. (curMailboxID c, curReaderPeerID c)) (reader_cursors db))
     then (Inr (), db\<lparr>reader_cursors := map (\<lambda>c. if curMailboxID c = mid \<and> curReaderPeerID c = peer_String L readerID
              then c\<lparr>curLastSequenceRead := sequence, curLastAccessAt := clock db\<rparr> else c) (reader_cursors db)\<rparr>)
     else (Inr (), db\<lparr>reader_cursors := reader_cursors db @ [\<lparr>curMailboxID = mid,
              curReaderPeerID = peer_String L readerID, curLastSequenceRead = sequence,
              curLastAccessAt = clock db\<rparr>]\<rparr>))"


section \<open>Cleanup operations\<close>

definition expiryDeleteBatchSize :: nat where "expiryDeleteBatchSize = 5000"
definition maxExpiryDeleteBatches :: nat where "maxExpiryDeleteBatches = 200"

text \<open>
  The sweep, given the batch size and the batches left. \<^verbatim>\<open>LIMIT\<close> without \<^verbatim>\<open>ORDER BY\<close> may pick any
  expired rows; the model picks the first of the table. The result carries the count with an
  error too, as the code returns both.
\<close>

definition expired_batch :: "nat \<Rightarrow> db \<Rightarrow> int list" where
  "expired_batch batch db = map smID (take batch (filter (\<lambda>m. smExpiresAt m < clock db) (stored_messages db)))"

fun expiry_sweep :: "nat \<Rightarrow> nat \<Rightarrow> int \<Rightarrow> db \<Rightarrow> (int \<times> err option) \<times> db" where
  "expiry_sweep batch 0 acc db = ((acc, None), db)"
| "expiry_sweep batch (Suc n) acc db =
     (case delete_stmt (\<lambda>d m. smID m \<in> set (expired_batch batch d)) db of
        (Inl e, db') \<Rightarrow> ((acc, Some e), db')
      | (Inr deleted, db') \<Rightarrow>
          if deleted < int batch then ((acc + deleted, None), db')
          else expiry_sweep batch n (acc + deleted) db')"

definition pg_DeleteExpiredMessages :: "db \<Rightarrow> (int \<times> err option) \<times> db" where
  "pg_DeleteExpiredMessages db = expiry_sweep expiryDeleteBatchSize maxExpiryDeleteBatches 0 db"

definition newest_first :: "int \<Rightarrow> db \<Rightarrow> StoredMessageRecord list" where
  "newest_first mid db = sort_key (\<lambda>m. - smSequenceNumber m) (messages_of mid db)"

text \<open>
  \<^verbatim>\<open>EnforceRetentionPolicy\<close>: the time rule, then the count rule when the record has one; a
  negative \<^verbatim>\<open>OFFSET\<close> is refused by PostgreSQL.
\<close>

definition pg_EnforceRetentionPolicy :: "'a MailboxRecord_scheme \<Rightarrow> unit dbm" where
  "pg_EnforceRetentionPolicy mb db =
     (case delete_stmt (\<lambda>d m. smMailboxID m = mbID mb \<and> smCreatedAt m < clock d - day_ms * RetentionDays mb) db of
        (Inl e, db1) \<Rightarrow> (Inl e, db1)
      | (Inr _, db1) \<Rightarrow>
          (case RetentionCount mb of
             None \<Rightarrow> (Inr (), db1)
           | Some k \<Rightarrow>
               if k < 0 then stmt (\<lambda>d. (Inl (DbError ''OFFSET must not be negative''), d)) db1
               else (case delete_stmt (\<lambda>d m. smID m \<in> set (map smID (drop (nat k) (newest_first (mbID mb) d)))) db1 of
                       (Inl e, db2) \<Rightarrow> (Inl e, db2)
                     | (Inr _, db2) \<Rightarrow> (Inr (), db2))))"

definition time_retired :: "db \<Rightarrow> StoredMessageRecord \<Rightarrow> bool" where
  "time_retired db m \<longleftrightarrow> list_ex (\<lambda>r. mbID r = smMailboxID m \<and> 0 < RetentionDays r
     \<and> smCreatedAt m < clock db - day_ms * RetentionDays r) (mailboxes db)"

text \<open>The correlated subquery is null, and the row kept, where the offset passes the last row.\<close>

definition count_retired :: "db \<Rightarrow> StoredMessageRecord \<Rightarrow> bool" where
  "count_retired db m \<longleftrightarrow> list_ex (\<lambda>r. mbID r = smMailboxID m \<and>
     (case RetentionCount r of
        None \<Rightarrow> False
      | Some k \<Rightarrow> (case drop (nat k) (newest_first (mbID r) db) of
                    [] \<Rightarrow> False
                  | x # _ \<Rightarrow> smSequenceNumber m \<le> smSequenceNumber x))) (mailboxes db)"

definition negative_offset :: "db \<Rightarrow> bool" where
  "negative_offset db \<longleftrightarrow> list_ex (\<lambda>r. messages_of (mbID r) db \<noteq> []
     \<and> (case RetentionCount r of None \<Rightarrow> False | Some k \<Rightarrow> k < 0)) (mailboxes db)"

definition pg_EnforceAllRetention :: "db \<Rightarrow> (int \<times> err option) \<times> db" where
  "pg_EnforceAllRetention db =
     (case delete_stmt time_retired db of
        (Inl e, db1) \<Rightarrow> ((0, Some e), db1)
      | (Inr n, db1) \<Rightarrow>
          (case stmt (\<lambda>d. if negative_offset d then (Inl (DbError ''OFFSET must not be negative''), d)
                          else let (k, d') = delete_where (count_retired d) d in (Inr k, d')) db1 of
             (Inl e, db2) \<Rightarrow> ((n, Some e), db2)
           | (Inr k, db2) \<Rightarrow> ((n + k, None), db2)))"

text \<open>
  \<^verbatim>\<open>ReconcileMessageCounts\<close>: two statements, the first for mailboxes with messages, the second
  for empty ones; each corrects the rows whose counters differ.
\<close>

definition true_count :: "int \<Rightarrow> db \<Rightarrow> int" where
  "true_count mid db = int (length (messages_of mid db))"

definition true_bytes :: "int \<Rightarrow> db \<Rightarrow> int" where
  "true_bytes mid db = sum_list (map (\<lambda>m. int (length (smPayload m))) (messages_of mid db))"

definition drifted :: "bool \<Rightarrow> db \<Rightarrow> mailbox_row \<Rightarrow> bool" where
  "drifted nonempty db r \<longleftrightarrow> (messages_of (mbID r) db \<noteq> []) = nonempty
     \<and> (MessageCount r \<noteq> true_count (mbID r) db \<or> message_bytes r \<noteq> true_bytes (mbID r) db)"

definition reconcile_stmt :: "bool \<Rightarrow> int dbm" where
  "reconcile_stmt nonempty = stmt (\<lambda>db.
     (Inr (int (length (filter (drifted nonempty db) (mailboxes db)))),
      db\<lparr>mailboxes := map (\<lambda>r. if drifted nonempty db r
            then r\<lparr>MessageCount := true_count (mbID r) db, message_bytes := true_bytes (mbID r) db\<rparr>
            else r) (mailboxes db)\<rparr>))"

definition pg_ReconcileMessageCounts :: "db \<Rightarrow> (int \<times> err option) \<times> db" where
  "pg_ReconcileMessageCounts db =
     (case reconcile_stmt True db of
        (Inl e, db1) \<Rightarrow> ((0, Some e), db1)
      | (Inr n, db1) \<Rightarrow>
          (case reconcile_stmt False db1 of
             (Inl e, db2) \<Rightarrow> ((n, Some e), db2)
           | (Inr k, db2) \<Rightarrow> ((n + k, None), db2)))"

end
