(* ===== verification/Store_Inv.thy ===== *)
theory Store_Inv
  imports Store
begin

text \<open>
  The invariant of the message store and its preservation by every operation: identifiers are
  unique and never reused, a message belongs to a mailbox that exists, the maintained counters are
  the true ones, and the sequence numbers of a mailbox are distinct and at most its counter.
\<close>

definition ids_ok :: "db \<Rightarrow> bool" where
  "ids_ok db \<longleftrightarrow> distinct (map mbID (mailboxes db)) \<and> (\<forall>r \<in> set (mailboxes db). mbID r < next_id db)
     \<and> distinct (map (\<lambda>r. (OwnerPeerID r, mbFolderPath r)) (mailboxes db))"

definition msgs_ok :: "db \<Rightarrow> bool" where
  "msgs_ok db \<longleftrightarrow> distinct (map smID (stored_messages db)) \<and> (\<forall>m \<in> set (stored_messages db). smID m < next_id db)
     \<and> distinct (map smMessageID (stored_messages db))
     \<and> (\<forall>m \<in> set (stored_messages db). smMailboxID m \<in> set (map mbID (mailboxes db)))"

definition counters_ok :: "db \<Rightarrow> bool" where
  "counters_ok db \<longleftrightarrow> (\<forall>r \<in> set (mailboxes db).
     MessageCount r = true_count (mbID r) db \<and> message_bytes r = true_bytes (mbID r) db)"

definition seqs_ok :: "db \<Rightarrow> bool" where
  "seqs_ok db \<longleftrightarrow> distinct (map (\<lambda>m. (smMailboxID m, smSequenceNumber m)) (stored_messages db))
     \<and> (\<forall>r \<in> set (mailboxes db). 0 \<le> current_sequence r)
     \<and> (\<forall>m \<in> set (stored_messages db). \<forall>r \<in> set (mailboxes db). mbID r = smMailboxID m \<longrightarrow>
          1 \<le> smSequenceNumber m \<and> smSequenceNumber m \<le> current_sequence r)"

definition grants_ok :: "db \<Rightarrow> bool" where
  "grants_ok db \<longleftrightarrow> distinct (map (\<lambda>a. (aclMailboxID a, aclPeerID a)) (mailbox_acls db))
     \<and> distinct (map (\<lambda>c. (curMailboxID c, curReaderPeerID c)) (reader_cursors db))
     \<and> (\<forall>a \<in> set (mailbox_acls db). mailbox_exists (aclMailboxID a) db)
     \<and> (\<forall>c \<in> set (reader_cursors db). mailbox_exists (curMailboxID c) db)"

definition db_inv :: "db \<Rightarrow> bool" where
  "db_inv db \<longleftrightarrow> ids_ok db \<and> msgs_ok db \<and> counters_ok db \<and> seqs_ok db \<and> grants_ok db"

lemmas inv_defs = db_inv_def ids_ok_def msgs_ok_def counters_ok_def seqs_ok_def grants_ok_def
  true_count_def true_bytes_def messages_of_def mailbox_exists_def

text \<open>The environment fields do not matter to the invariant.\<close>

lemma db_inv_env [simp]:
  "db_inv (db\<lparr>faults := fs\<rparr>) = db_inv db"
  "db_inv (db\<lparr>clock := t\<rparr>) = db_inv db"
  "db_inv (db\<lparr>row_locks := ls\<rparr>) = db_inv db"
  by (simp_all add: inv_defs)


section \<open>Statements\<close>

lemma stmt_no_faults [simp]: "faults db = [] \<Longrightarrow> stmt f db = f db"
  by (simp add: stmt_def)

text \<open>
  What a statement can do: work on the database it finds, fail without effect, or take effect and
  report an error. \<open>next_faults\<close> is the database with the schedule advanced.
\<close>

definition next_faults :: "'a env_scheme \<Rightarrow> 'a env_scheme" where
  "next_faults db = db\<lparr>faults := tl (faults db)\<rparr>"

lemma next_faults_no_faults [simp]: "faults db = [] \<Longrightarrow> next_faults db = db"
  by (simp add: next_faults_def)

lemma stmt_cases:
  obtains (works) "stmt f db = f (next_faults db)"
  | (fails) "stmt f db = (Inl (DbError ''statement failed''), next_faults db)"
  | (lost) "stmt f db = (Inl (DbError ''connection lost''), snd (f (next_faults db)))"
proof (cases "faults db")
  case Nil
  then have "db = next_faults db" by (simp add: next_faults_def)
  with Nil works show ?thesis by (metis stmt_no_faults)
next
  case (Cons x fs)
  then have "next_faults db = db\<lparr>faults := fs\<rparr>" by (simp add: next_faults_def)
  with Cons works fails lost show ?thesis by (cases x) (auto simp: stmt_def)
qed

lemma stmt_InrD: "stmt f db = (Inr x, db') \<Longrightarrow> f (next_faults db) = (Inr x, db')"
  by (cases rule: stmt_cases [of f db]) auto

lemma stmt_typed_errorD:
  "stmt f db = (Inl e, db') \<Longrightarrow> (\<And>s. e \<noteq> DbError s) \<Longrightarrow> f (next_faults db) = (Inl e, db')"
  by (cases rule: stmt_cases [of f db]) auto

text \<open>A property of databases that the schedule does not affect and the body keeps, the statement keeps.\<close>

lemma stmt_keeps:
  assumes "I (next_faults db)" and "\<And>d. I d \<Longrightarrow> I (snd (f d))"
  shows "I (snd (stmt f db))"
  using assms by (cases rule: stmt_cases [of f db]) auto

text \<open>When no reply is lost, a statement works or fails without effect.\<close>

lemma stmt_no_loss:
  assumes "ReplyLost \<notin> set (faults db)"
  shows "stmt f db = f (next_faults db) \<or> (\<exists>e. stmt f db = (Inl e, next_faults db))"
proof (cases "faults db")
  case (Cons x fs)
  then show ?thesis using assms by (cases x) (auto simp: stmt_def next_faults_def)
qed simp

lemma stmt_failed_noop:
  assumes "ReplyLost \<notin> set (faults db)" "\<And>d. \<exists>x. fst (f d) = Inr x" "stmt f db = (Inl e, d')"
  shows "d' = next_faults db"
  using stmt_no_loss [OF assms(1), of f] assms(2) [of "next_faults db"] assms(3)
  by (cases "f (next_faults db)") auto

lemma next_faults_simps [simp]:
  "clock (next_faults db) = clock db"
  "mailboxes (next_faults d) = mailboxes d" "stored_messages (next_faults d) = stored_messages d"
  "mailbox_acls (next_faults d) = mailbox_acls d" "reader_cursors (next_faults d) = reader_cursors d"
  "row_locks (next_faults d) = row_locks d" "next_id (next_faults d) = next_id d"
  by (simp_all add: next_faults_def)

lemma db_inv_next_faults [simp]: "db_inv (next_faults db) = db_inv db"
  by (simp add: next_faults_def)

lemma stmt_inv:
  assumes "db_inv db" and "\<And>d. db_inv d \<Longrightarrow> db_inv (snd (f d))"
  shows "db_inv (snd (stmt f db))"
  using assms by (intro stmt_keeps [of db_inv]) auto

lemma if_keeps: "(c \<Longrightarrow> I (snd a)) \<Longrightarrow> (\<not> c \<Longrightarrow> I (snd b)) \<Longrightarrow> I (snd (if c then a else b))"
  by simp

text \<open>A statement that only reads leaves everything but the schedule as it is.\<close>

lemma stmt_read:
  assumes "\<And>d. snd (f d) = d"
  shows "snd (stmt f db) = next_faults db"
  using assms by (cases rule: stmt_cases [of f db]) auto


text \<open>An update that keeps the keys of the rows keeps their distinctness.\<close>

lemma map_if_keys:
  assumes "\<And>x. k (f x) = k x"
  shows "map k (map (\<lambda>x. if P x then f x else x) xs) = map k xs"
  by (simp add: assms)


section \<open>The primitive updates keep the invariant\<close>

lemma deleted_trigger_keys [simp]:
  "mbID (deleted_trigger d r) = mbID r" "OwnerPeerID (deleted_trigger d r) = OwnerPeerID r"
  "mbFolderPath (deleted_trigger d r) = mbFolderPath r" "mbType (deleted_trigger d r) = mbType r"
  "current_sequence (deleted_trigger d r) = current_sequence r"
  "MaxMessages (deleted_trigger d r) = MaxMessages r" "RetentionDays (deleted_trigger d r) = RetentionDays r"
  "RetentionCount (deleted_trigger d r) = RetentionCount r"
  "LastAccessAt (deleted_trigger d r) = LastAccessAt r" "CreatedAt (deleted_trigger d r) = CreatedAt r"
  by (simp_all add: deleted_trigger_def Let_def)

lemma delete_where_simps [simp]:
  "stored_messages (snd (delete_where P db)) = filter (\<lambda>m. \<not> P m) (stored_messages db)"
  "mailboxes (snd (delete_where P db)) = map (deleted_trigger (filter P (stored_messages db))) (mailboxes db)"
  "mailbox_acls (snd (delete_where P db)) = mailbox_acls db"
  "reader_cursors (snd (delete_where P db)) = reader_cursors db"
  "next_id (snd (delete_where P db)) = next_id db"
  "clock (snd (delete_where P db)) = clock db"
  "faults (snd (delete_where P db)) = faults db"
  "row_locks (snd (delete_where P db)) = row_locks db"
  "fst (delete_where P db) = int (length (filter P (stored_messages db)))"
  by (simp_all add: delete_where_def Let_def)

text \<open>Where the counter is true, the trigger leaves it true: the clipping at zero never acts.\<close>

lemma count_after_trigger:
  assumes "MessageCount r = true_count (mbID r) db"
  shows "MessageCount (deleted_trigger (filter P (stored_messages db)) r)
       = int (length (filter (\<lambda>m. smMailboxID m = mbID r \<and> \<not> P m) (stored_messages db)))"
  using assms length_filter_partition [of "\<lambda>m. smMailboxID m = mbID r" "stored_messages db" P]
  by (auto simp: deleted_trigger_def Let_def true_count_def messages_of_def conj_commute)

lemma payload_sum_nonneg: "0 \<le> sum_list (map (\<lambda>m. int (length (smPayload m))) ms)"
  by (induction ms) auto

lemma bytes_after_trigger:
  assumes "message_bytes r = true_bytes (mbID r) db"
  shows "message_bytes (deleted_trigger (filter P (stored_messages db)) r)
       = sum_list (map (\<lambda>m. int (length (smPayload m)))
           (filter (\<lambda>m. smMailboxID m = mbID r \<and> \<not> P m) (stored_messages db)))"
  using assms
    sum_list_filter_partition [of "\<lambda>m. int (length (smPayload m))" "\<lambda>m. smMailboxID m = mbID r" "stored_messages db" P]
  by (auto simp: deleted_trigger_def Let_def true_bytes_def messages_of_def conj_commute
      max_absorb1 payload_sum_nonneg)

lemma delete_where_counters:
  assumes "counters_ok db"
  shows "counters_ok (snd (delete_where P db))"
  using assms count_after_trigger [of _ db P] bytes_after_trigger [of _ db P]
  by (simp add: counters_ok_def true_count_def true_bytes_def messages_of_def conj_commute)

lemma map_deleted_trigger [simp]:
  "map mbID (map (deleted_trigger d) rs) = map mbID rs"
  "map (\<lambda>r. (OwnerPeerID r, mbFolderPath r)) (map (deleted_trigger d) rs) = map (\<lambda>r. (OwnerPeerID r, mbFolderPath r)) rs"
  by simp_all

lemma delete_where_inv:
  assumes "db_inv db"
  shows "db_inv (snd (delete_where P db))"
proof -
  have "ids_ok (snd (delete_where P db))" "msgs_ok (snd (delete_where P db))"
    and "seqs_ok (snd (delete_where P db))" "grants_ok (snd (delete_where P db))"
    using assms
    by (auto simp: db_inv_def ids_ok_def msgs_ok_def seqs_ok_def grants_ok_def mailbox_exists_def
        distinct_map_filterI comp_def image_image)
  with assms delete_where_counters [of db P] show ?thesis by (simp add: db_inv_def)
qed

lemma delete_stmt_inv: "db_inv db \<Longrightarrow> db_inv (snd (delete_stmt P db))"
  unfolding delete_stmt_def
  by (rule stmt_inv) (auto simp: Let_def case_prod_unfold intro: delete_where_inv)

text \<open>An update of flags keeps every key.\<close>

lemma update_message_rows_simps [simp]:
  "mailboxes (snd (update_message_rows P f db)) = mailboxes db"
  "mailbox_acls (snd (update_message_rows P f db)) = mailbox_acls db"
  "reader_cursors (snd (update_message_rows P f db)) = reader_cursors db"
  "next_id (snd (update_message_rows P f db)) = next_id db"
  "clock (snd (update_message_rows P f db)) = clock db"
  "row_locks (snd (update_message_rows P f db)) = row_locks db"
  "faults (snd (update_message_rows P f db)) = faults db"
  "stored_messages (snd (update_message_rows P f db)) =
     map (\<lambda>m. if P m then m\<lparr>smFlagsBitmap := f (smFlagsBitmap m)\<rparr> else m) (stored_messages db)"
  "fst (update_message_rows P f db) = int (length (filter P (stored_messages db)))"
  by (simp_all add: update_message_rows_def)

lemma map_flag_update:
  assumes "\<And>m b. g (m\<lparr>smFlagsBitmap := b\<rparr>) = g m"
  shows "map g (map (\<lambda>m. if P m then m\<lparr>smFlagsBitmap := f (smFlagsBitmap m)\<rparr> else m) ms) = map g ms"
  by (simp add: assms)

lemma messages_of_flag_update:
  "messages_of mid (snd (update_message_rows P f db)) =
     map (\<lambda>m. if P m then m\<lparr>smFlagsBitmap := f (smFlagsBitmap m)\<rparr> else m) (messages_of mid db)"
  unfolding messages_of_def update_message_rows_simps by (rule filter_map_id) simp

lemma update_message_rows_inv:
  assumes "db_inv db"
  shows "db_inv (snd (update_message_rows P f db))"
proof -
  let ?d = "snd (update_message_rows P f db)"
  have "true_count mid ?d = true_count mid db" "true_bytes mid ?d = true_bytes mid db" for mid
    unfolding true_count_def true_bytes_def messages_of_flag_update
    by (simp_all add: comp_def if_distrib cong: if_cong)
  then have "counters_ok ?d" using assms by (simp add: db_inv_def counters_ok_def)
  moreover have "msgs_ok ?d" "seqs_ok ?d" "ids_ok ?d" "grants_ok ?d"
    using assms by (auto simp: db_inv_def ids_ok_def msgs_ok_def seqs_ok_def grants_ok_def mailbox_exists_def
        comp_def if_distrib cong: if_cong)
  ultimately show ?thesis by (simp add: db_inv_def)
qed

text \<open>An update of a mailbox row that keeps its keys and counters.\<close>

lemma update_mailbox_rows_simps [simp]:
  "stored_messages (update_mailbox_rows f mid db) = stored_messages db"
  "mailbox_acls (update_mailbox_rows f mid db) = mailbox_acls db"
  "reader_cursors (update_mailbox_rows f mid db) = reader_cursors db"
  "next_id (update_mailbox_rows f mid db) = next_id db"
  "clock (update_mailbox_rows f mid db) = clock db"
  "row_locks (update_mailbox_rows f mid db) = row_locks db"
  "faults (update_mailbox_rows f mid db) = faults db"
  "mailboxes (update_mailbox_rows f mid db) = map (\<lambda>r. if mbID r = mid then f r else r) (mailboxes db)"
  by (simp_all add: update_mailbox_rows_def)

definition keeps_counters :: "(mailbox_row \<Rightarrow> mailbox_row) \<Rightarrow> bool" where
  "keeps_counters f \<longleftrightarrow> (\<forall>r. mbID (f r) = mbID r \<and> OwnerPeerID (f r) = OwnerPeerID r
     \<and> mbFolderPath (f r) = mbFolderPath r \<and> MessageCount (f r) = MessageCount r
     \<and> message_bytes (f r) = message_bytes r \<and> current_sequence (f r) = current_sequence r)"

lemma update_mailbox_rows_inv:
  assumes "db_inv db" "keeps_counters f"
  shows "db_inv (update_mailbox_rows f mid db)"
  using assms by (auto simp: inv_defs keeps_counters_def comp_def if_distrib cong: if_cong)


section \<open>The operations keep the invariant\<close>

lemma insert_mailbox_simps [simp]:
  "mailboxes (insert_mailbox r db) = mailboxes db @ [r]" "next_id (insert_mailbox r db) = next_id db + 1"
  "stored_messages (insert_mailbox r db) = stored_messages db"
  "mailbox_acls (insert_mailbox r db) = mailbox_acls db" "reader_cursors (insert_mailbox r db) = reader_cursors db"
  "clock (insert_mailbox r db) = clock db" "faults (insert_mailbox r db) = faults db"
  "row_locks (insert_mailbox r db) = row_locks db"
  by (simp_all add: insert_mailbox_def)

lemma insert_message_simps [simp]:
  "stored_messages (insert_message m db) = stored_messages db @ [m]" "next_id (insert_message m db) = next_id db + 1"
  "mailboxes (insert_message m db) = mailboxes db"
  "mailbox_acls (insert_message m db) = mailbox_acls db" "reader_cursors (insert_message m db) = reader_cursors db"
  "clock (insert_message m db) = clock db" "faults (insert_message m db) = faults db"
  "row_locks (insert_message m db) = row_locks db"
  by (simp_all add: insert_message_def)

lemma message_row_simps [simp]:
  "smID (message_row i mid s msg) = i" "smMailboxID (message_row i mid s msg) = mid"
  "smSequenceNumber (message_row i mid s msg) = s" "smMessageID (message_row i mid s msg) = MessageID msg"
  "smPayload (message_row i mid s msg) = Payload msg" "smPersistent (message_row i mid s msg) = Persistent msg"
  "smExpiresAt (message_row i mid s msg) = ExpiryTimestamp msg" "smPriority (message_row i mid s msg) = Priority msg"
  "smCreatedAt (message_row i mid s msg) = CreatedTimestamp msg" "smFlagsBitmap (message_row i mid s msg) = MsgFlags msg"
  by (simp_all add: message_row_def)

lemma count_in_simps [simp]:
  "mbID (count_in n t r) = mbID r" "OwnerPeerID (count_in n t r) = OwnerPeerID r"
  "mbFolderPath (count_in n t r) = mbFolderPath r" "mbType (count_in n t r) = mbType r"
  "MessageCount (count_in n t r) = MessageCount r + 1"
  "message_bytes (count_in n t r) = message_bytes r + n" "current_sequence (count_in n t r) = current_sequence r + 1"
  "MaxMessages (count_in n t r) = MaxMessages r" "RetentionDays (count_in n t r) = RetentionDays r"
  "RetentionCount (count_in n t r) = RetentionCount r"
  by (simp_all add: count_in_def)

text \<open>A mailbox with a fresh identifier has no messages.\<close>

lemma fresh_mailbox_empty:
  assumes "db_inv db" "next_id db \<le> mid"
  shows "messages_of mid db = []" "mid \<notin> set (map mbID (mailboxes db))"
proof -
  show "mid \<notin> set (map mbID (mailboxes db))"
    using assms by (auto simp: db_inv_def ids_ok_def)
  with assms show "messages_of mid db = []"
    by (auto simp: db_inv_def msgs_ok_def messages_of_def filter_empty_conv)
qed

lemma insert_mailbox_inv:
  assumes inv: "db_inv db" and r: "mbID r = next_id db" "MessageCount r = 0" "message_bytes r = 0" "current_sequence r = 0"
    and new: "\<forall>x \<in> set (mailboxes db). (OwnerPeerID x, mbFolderPath x) \<noteq> (OwnerPeerID r, mbFolderPath r)"
  shows "db_inv (insert_mailbox r db)"
proof -
  let ?d = "insert_mailbox r db"
  have fresh: "messages_of (next_id db) db = []" "next_id db \<notin> set (map mbID (mailboxes db))"
    using fresh_mailbox_empty [OF inv] by auto
  have "ids_ok ?d" using inv fresh new r by (auto simp: db_inv_def ids_ok_def)
  moreover have "msgs_ok ?d" "grants_ok ?d"
    using inv by (auto simp: db_inv_def msgs_ok_def grants_ok_def mailbox_exists_def)
  moreover have "counters_ok ?d" "seqs_ok ?d"
    using inv fresh r by (auto simp: db_inv_def counters_ok_def seqs_ok_def true_count_def true_bytes_def
        messages_of_def filter_empty_conv msgs_ok_def)
  ultimately show ?thesis by (simp add: db_inv_def)
qed

lemma pg_GetOrCreateMailbox_inv:
  assumes "db_inv db"
  shows "db_inv (snd (pg_GetOrCreateMailbox L a m d c db))"
  unfolding pg_GetOrCreateMailbox_def
proof (rule stmt_inv [OF assms], split option.split, intro conjI allI impI)
  fix db
  assume inv: "db_inv db"
    and none: "find (\<lambda>r. OwnerPeerID r = peer_String L (OwnerID a) \<and> mbFolderPath r = addrFolderPath a) (mailboxes db) = None"
  then have "\<forall>x \<in> set (mailboxes db). (OwnerPeerID x, mbFolderPath x) \<noteq> (peer_String L (OwnerID a), addrFolderPath a)"
    by (auto simp: find_None_iff)
  then show "db_inv (snd (let r = \<lparr>mbID = next_id db, OwnerPeerID = peer_String L (OwnerID a),
      mbFolderPath = addrFolderPath a, mbType = addrType a, CreatedAt = clock db, LastAccessAt = clock db,
      MaxMessages = m, RetentionDays = d, RetentionCount = c, MessageCount = 0, current_sequence = 0,
      message_bytes = 0\<rparr> in (Inr (record_of r), insert_mailbox r db)))"
    using inv by (simp add: Let_def insert_mailbox_inv)
qed simp

text \<open>The two halves of \<^verbatim>\<open>StoreMessage\<close> together keep counters and sequence numbers right.\<close>

lemma true_count_insert:
  "true_count k (insert_message m d) = true_count k d + (if smMailboxID m = k then 1 else 0)"
  "true_bytes k (insert_message m d) = true_bytes k d + (if smMailboxID m = k then int (length (smPayload m)) else 0)"
  by (simp_all add: true_count_def true_bytes_def messages_of_def)

lemma true_count_update_mailbox [simp]:
  "true_count k (update_mailbox_rows f mid d) = true_count k d"
  "true_bytes k (update_mailbox_rows f mid d) = true_bytes k d"
  by (simp_all add: true_count_def true_bytes_def messages_of_def)

lemma seqs_ok_boundD:
  "seqs_ok db \<Longrightarrow> m \<in> set (stored_messages db) \<Longrightarrow> r \<in> set (mailboxes db) \<Longrightarrow> mbID r = smMailboxID m
     \<Longrightarrow> 1 \<le> smSequenceNumber m \<and> smSequenceNumber m \<le> current_sequence r"
  by (auto simp: seqs_ok_def)

lemma seqs_ok_nonneg: "seqs_ok db \<Longrightarrow> r \<in> set (mailboxes db) \<Longrightarrow> 0 \<le> current_sequence r"
  by (auto simp: seqs_ok_def)

lemma store_inv:
  assumes inv: "db_inv db" and r: "r \<in> set (mailboxes db)" "mbID r = mid"
    and new: "MessageID msg \<notin> set (map smMessageID (stored_messages db))"
  shows "db_inv (insert_message (message_row (next_id db) mid (current_sequence r + 1) msg)
           (update_mailbox_rows (count_in (int (length (Payload msg))) t) mid db))"
    (is "db_inv ?d")
proof -
  have parts: "ids_ok db" "msgs_ok db" "counters_ok db" "seqs_ok db" "grants_ok db"
    using inv by (simp_all add: db_inv_def)
  have uniq: "x = r" if "x \<in> set (mailboxes db)" "mbID x = mid" for x
    using parts r that distinct_key_unique [of mbID "mailboxes db" x r] by (simp add: ids_ok_def)
  have seq_new: "(smMailboxID m, smSequenceNumber m) \<noteq> (mid, current_sequence r + 1)" if "m \<in> set (stored_messages db)" for m
    using r seqs_ok_boundD [OF parts(4) that r(1)] by auto
  have ids: "map mbID (mailboxes ?d) = map mbID (mailboxes db)"
    and keys: "map (\<lambda>r. (OwnerPeerID r, mbFolderPath r)) (mailboxes ?d) = map (\<lambda>r. (OwnerPeerID r, mbFolderPath r)) (mailboxes db)"
    unfolding insert_message_simps update_mailbox_rows_simps by (rule map_if_keys, simp)+
  have "ids_ok ?d"
    unfolding ids_ok_def ids keys using parts(1) by (auto simp: ids_ok_def)
  moreover have "msgs_ok ?d"
    unfolding msgs_ok_def ids using parts(2) new r by (auto simp: msgs_ok_def)
  moreover have "counters_ok ?d"
    unfolding counters_ok_def
  proof
    fix x assume "x \<in> set (mailboxes ?d)"
    then obtain y where y: "y \<in> set (mailboxes db)" "x = (if mbID y = mid then count_in (int (length (Payload msg))) t y else y)"
      by auto
    then show "MessageCount x = true_count (mbID x) ?d \<and> message_bytes x = true_bytes (mbID x) ?d"
      using parts(3) by (cases "mbID y = mid") (simp_all add: counters_ok_def true_count_insert)
  qed
  moreover have "seqs_ok ?d"
    unfolding seqs_ok_def
  proof (intro conjI ballI impI)
    show "distinct (map (\<lambda>m. (smMailboxID m, smSequenceNumber m)) (stored_messages ?d))"
      using parts(4) seq_new by (fastforce simp: seqs_ok_def)
  next
    fix x assume "x \<in> set (mailboxes ?d)"
    then show "0 \<le> current_sequence x" using parts(4) by (auto simp: seqs_ok_def)
  next
    fix m x assume m: "m \<in> set (stored_messages ?d)" and x: "x \<in> set (mailboxes ?d)" "mbID x = smMailboxID m"
    obtain y where y: "y \<in> set (mailboxes db)" "x = (if mbID y = mid then count_in (int (length (Payload msg))) t y else y)"
      using x(1) by auto
    have id: "mbID y = smMailboxID m" and cur: "current_sequence y \<le> current_sequence x"
      using y x(2) by (auto split: if_splits)
    have cases: "m \<in> set (stored_messages db) \<or> m = message_row (next_id db) mid (current_sequence r + 1) msg"
      using m by auto
    show "1 \<le> smSequenceNumber m" "smSequenceNumber m \<le> current_sequence x"
      using cases id cur y uniq [of y] seqs_ok_boundD [OF parts(4) _ y(1) id] seqs_ok_nonneg [OF parts(4) y(1)] by auto
  qed
  moreover have "grants_ok ?d"
    unfolding grants_ok_def mailbox_exists_def ids using parts(5) by (simp add: grants_ok_def mailbox_exists_def)
  ultimately show ?thesis by (simp add: db_inv_def)
qed

lemma pg_StoreMessage_inv:
  assumes "db_inv db"
  shows "db_inv (snd (pg_StoreMessage mid msg db))"
  unfolding pg_StoreMessage_def
  by (rule stmt_inv [OF assms])
    (auto simp: Let_def dest!: find_SomeD intro: store_inv split: option.splits)

lemma true_count_other_fields:
  "stored_messages d = stored_messages db \<Longrightarrow> true_count k d = true_count k db"
  "stored_messages d = stored_messages db \<Longrightarrow> true_bytes k d = true_bytes k db"
  by (simp_all add: true_count_def true_bytes_def messages_of_def)

lemma pg_DeleteMailbox_inv:
  assumes "db_inv db"
  shows "db_inv (snd (pg_DeleteMailbox mid db))"
  unfolding pg_DeleteMailbox_def
proof (rule stmt_inv [OF assms])
  fix db assume inv: "db_inv db"
  let ?d = "db\<lparr>mailboxes := filter (\<lambda>r. mbID r \<noteq> mid) (mailboxes db),
    stored_messages := filter (\<lambda>m. smMailboxID m \<noteq> mid) (stored_messages db),
    mailbox_acls := filter (\<lambda>a. aclMailboxID a \<noteq> mid) (mailbox_acls db),
    reader_cursors := filter (\<lambda>c. curMailboxID c \<noteq> mid) (reader_cursors db)\<rparr>"
  have "messages_of k ?d = messages_of k db" if "k \<noteq> mid" for k
    using that by (auto simp: messages_of_def intro!: filter_cong)
  then have "counters_ok ?d"
    using inv by (auto simp: db_inv_def counters_ok_def true_count_def true_bytes_def)
  moreover have "ids_ok ?d" "msgs_ok ?d" "seqs_ok ?d" "grants_ok ?d"
    using inv by (auto simp: db_inv_def ids_ok_def msgs_ok_def seqs_ok_def grants_ok_def mailbox_exists_def
        distinct_map_filterI)
  ultimately show "db_inv (snd (Inr (), ?d))" by (simp add: db_inv_def)
qed

lemma pg_UpdateMailbox_inv: "db_inv db \<Longrightarrow> db_inv (snd (pg_UpdateMailbox mb db))"
  unfolding pg_UpdateMailbox_def by (rule stmt_inv) (auto intro!: update_mailbox_rows_inv simp: keeps_counters_def)

lemma pg_UpdateMailboxAccess_inv: "db_inv db \<Longrightarrow> db_inv (snd (pg_UpdateMailboxAccess mid db))"
  unfolding pg_UpdateMailboxAccess_def by (rule stmt_inv) (auto intro!: update_mailbox_rows_inv simp: keeps_counters_def)

lemma pg_deletes_inv:
  assumes "db_inv db"
  shows "db_inv (snd (pg_DeleteMessage i db))" "db_inv (snd (pg_DeleteMessages is db))"
    "db_inv (snd (pg_DeleteOwnedMessages L p is db))" "db_inv (snd (pg_ExpungeMailbox mid db))"
    "db_inv (snd (pg_ExpungeAllMailboxes L p db))"
  using assms delete_stmt_inv
  by (simp_all add: pg_DeleteMessage_def pg_DeleteMessages_def pg_DeleteOwnedMessages_def pg_ExpungeMailbox_def
      pg_ExpungeAllMailboxes_def)

lemma pg_ClaimMessage_inv: "db_inv db \<Longrightarrow> db_inv (snd (pg_ClaimMessage mid db))"
  unfolding pg_ClaimMessage_def by (rule stmt_inv) (auto intro: delete_where_inv split: list.splits)

lemma pg_UpdateMessageFlags_inv: "db_inv db \<Longrightarrow> db_inv (snd (pg_UpdateMessageFlags L p i a b db))"
  unfolding pg_UpdateMessageFlags_def by (rule stmt_inv) (auto simp: Let_def intro: update_message_rows_inv)

lemma pg_MarkMessagesDelivered_inv: "db_inv db \<Longrightarrow> db_inv (snd (pg_MarkMessagesDelivered L p is db))"
  unfolding pg_MarkMessagesDelivered_def
  by (cases "is = []") (auto intro!: stmt_inv update_message_rows_inv delete_where_inv simp: Let_def case_prod_unfold)

lemma acls_insert_inv:
  assumes "db_inv db" "distinct (map (\<lambda>a. (aclMailboxID a, aclPeerID a)) as)"
    and "\<forall>a \<in> set as. mailbox_exists (aclMailboxID a) db" "next_id db \<le> n"
  shows "db_inv (db\<lparr>mailbox_acls := as, next_id := n\<rparr>)"
  using assms by (auto simp: inv_defs)

lemma acls_update_inv:
  assumes "db_inv db" "distinct (map (\<lambda>a. (aclMailboxID a, aclPeerID a)) as)"
    and "\<forall>a \<in> set as. mailbox_exists (aclMailboxID a) db"
  shows "db_inv (db\<lparr>mailbox_acls := as\<rparr>)"
  using assms by (simp add: inv_defs)

lemma cursors_update_inv:
  assumes "db_inv db" "distinct (map (\<lambda>c. (curMailboxID c, curReaderPeerID c)) cs)"
    and "\<forall>c \<in> set cs. mailbox_exists (curMailboxID c) db"
  shows "db_inv (db\<lparr>reader_cursors := cs\<rparr>)"
  using assms by (simp add: inv_defs)

lemma db_inv_grantsD:
  assumes "db_inv db"
  shows "distinct (map (\<lambda>a. (aclMailboxID a, aclPeerID a)) (mailbox_acls db))"
    "distinct (map (\<lambda>c. (curMailboxID c, curReaderPeerID c)) (reader_cursors db))"
    "\<forall>a \<in> set (mailbox_acls db). mailbox_exists (aclMailboxID a) db"
    "\<forall>c \<in> set (reader_cursors db). mailbox_exists (curMailboxID c) db"
  using assms by (simp_all add: db_inv_def grants_ok_def)

lemma pg_GrantAccess_inv:
  assumes "db_inv db"
  shows "db_inv (snd (pg_GrantAccess L mid p mode db))"
  unfolding pg_GrantAccess_def
proof (rule stmt_inv [OF assms])
  fix db assume inv: "db_inv db"
  note grants = db_inv_grantsD [OF inv]
  have upd: "db_inv (db\<lparr>mailbox_acls := map (\<lambda>a. if aclMailboxID a = mid \<and> aclPeerID a = peer_String L p
      then a\<lparr>aclAccessMode := mode, aclGrantedAt := clock db\<rparr> else a) (mailbox_acls db)\<rparr>)"
    by (rule acls_update_inv [OF inv], subst map_if_keys) (use grants in auto)
  have ins: "db_inv (db\<lparr>mailbox_acls := mailbox_acls db @ [\<lparr>aclID = next_id db, aclMailboxID = mid,
      aclPeerID = peer_String L p, aclAccessMode = mode, aclGrantedAt = clock db\<rparr>], next_id := next_id db + 1\<rparr>)"
    if "mailbox_exists mid db"
      "(mid, peer_String L p) \<notin> set (map (\<lambda>a. (aclMailboxID a, aclPeerID a)) (mailbox_acls db))"
    by (rule acls_insert_inv [OF inv]) (use grants that in auto)
  show "db_inv (snd (if \<not> mailbox_exists mid db then (Inl (DbError ''foreign key violation''), db)
     else if (mid, peer_String L p) \<in> set (map (\<lambda>a. (aclMailboxID a, aclPeerID a)) (mailbox_acls db))
     then (Inr (), db\<lparr>mailbox_acls := map (\<lambda>a. if aclMailboxID a = mid \<and> aclPeerID a = peer_String L p
              then a\<lparr>aclAccessMode := mode, aclGrantedAt := clock db\<rparr> else a) (mailbox_acls db)\<rparr>)
     else (Inr (), db\<lparr>mailbox_acls := mailbox_acls db @ [\<lparr>aclID = next_id db, aclMailboxID = mid,
              aclPeerID = peer_String L p, aclAccessMode = mode, aclGrantedAt = clock db\<rparr>],
              next_id := next_id db + 1\<rparr>)))"
    by (intro if_keeps [where I = db_inv]) (simp_all only: snd_conv not_not inv upd ins not_False_eq_True)
qed

lemma pg_RevokeAccess_inv: "db_inv db \<Longrightarrow> db_inv (snd (pg_RevokeAccess L mid p db))"
  unfolding pg_RevokeAccess_def
  by (rule stmt_inv) (auto intro!: acls_update_inv simp: db_inv_grantsD distinct_map_filterI)

lemma pg_UpdateCursor_inv:
  assumes "db_inv db"
  shows "db_inv (snd (pg_UpdateCursor L mid p s db))"
  unfolding pg_UpdateCursor_def
proof (rule stmt_inv [OF assms])
  fix db assume inv: "db_inv db"
  note grants = db_inv_grantsD [OF inv]
  have upd: "db_inv (db\<lparr>reader_cursors := map (\<lambda>c. if curMailboxID c = mid \<and> curReaderPeerID c = peer_String L p
      then c\<lparr>curLastSequenceRead := s, curLastAccessAt := clock db\<rparr> else c) (reader_cursors db)\<rparr>)"
    by (rule cursors_update_inv [OF inv], subst map_if_keys) (use grants in auto)
  have ins: "db_inv (db\<lparr>reader_cursors := reader_cursors db @ [\<lparr>curMailboxID = mid,
      curReaderPeerID = peer_String L p, curLastSequenceRead = s, curLastAccessAt = clock db\<rparr>]\<rparr>)"
    if "mailbox_exists mid db"
      "(mid, peer_String L p) \<notin> set (map (\<lambda>c. (curMailboxID c, curReaderPeerID c)) (reader_cursors db))"
    by (rule cursors_update_inv [OF inv]) (use grants that in auto)
  show "db_inv (snd (if \<not> mailbox_exists mid db then (Inl (DbError ''foreign key violation''), db)
     else if (mid, peer_String L p) \<in> set (map (\<lambda>c. (curMailboxID c, curReaderPeerID c)) (reader_cursors db))
     then (Inr (), db\<lparr>reader_cursors := map (\<lambda>c. if curMailboxID c = mid \<and> curReaderPeerID c = peer_String L p
              then c\<lparr>curLastSequenceRead := s, curLastAccessAt := clock db\<rparr> else c) (reader_cursors db)\<rparr>)
     else (Inr (), db\<lparr>reader_cursors := reader_cursors db @ [\<lparr>curMailboxID = mid,
              curReaderPeerID = peer_String L p, curLastSequenceRead = s, curLastAccessAt = clock db\<rparr>]\<rparr>)))"
    by (intro if_keeps [where I = db_inv]) (simp_all only: snd_conv not_not inv upd ins not_False_eq_True)
qed

lemma expiry_sweep_inv: "db_inv db \<Longrightarrow> db_inv (snd (expiry_sweep b n acc db))"
proof (induction b n acc db rule: expiry_sweep.induct)
  case (1 b acc db)
  then show ?case by simp
next
  case (2 b n acc db)
  have "db_inv (snd (delete_stmt (\<lambda>d m. smID m \<in> set (expired_batch b d)) db))"
    using 2 by (intro delete_stmt_inv)
  with 2 show ?case by (auto split: prod.splits sum.splits)
qed

lemma pg_EnforceRetentionPolicy_inv:
  assumes "db_inv db"
  shows "db_inv (snd (pg_EnforceRetentionPolicy mb db))"
proof -
  have d: "db_inv d \<Longrightarrow> delete_stmt P d = (r, d') \<Longrightarrow> db_inv d'" for P d r d'
    using delete_stmt_inv [of d P] by simp
  have "db_inv d \<Longrightarrow> db_inv (snd (stmt (\<lambda>d. (Inl (DbError ''OFFSET must not be negative''), d)) d))" for d
    by (rule stmt_inv) simp_all
  then show ?thesis
    using assms unfolding pg_EnforceRetentionPolicy_def
    by (auto split: prod.splits sum.splits option.splits dest: d)
qed

lemma pg_EnforceAllRetention_inv:
  assumes "db_inv db"
  shows "db_inv (snd (pg_EnforceAllRetention db))"
proof -
  let ?f = "\<lambda>d. if negative_offset d then (Inl (DbError ''OFFSET must not be negative''), d)
    else let (k, d') = delete_where (count_retired d) d in (Inr k, d')"
  have f: "db_inv (snd (?f d))" if "db_inv d" for d
    using that by (simp add: case_prod_unfold Let_def delete_where_inv)
  have s: "db_inv d \<Longrightarrow> stmt ?f d = (r, d') \<Longrightarrow> db_inv d'" for d r d'
    using stmt_inv [of d ?f, OF _ f] by simp
  have "db_inv (snd (delete_stmt time_retired db))"
    using assms by (rule delete_stmt_inv)
  then show ?thesis
    unfolding pg_EnforceAllRetention_def by (auto split: prod.splits sum.splits dest: s)
qed

lemma no_drift: "db_inv db \<Longrightarrow> r \<in> set (mailboxes db) \<Longrightarrow> \<not> drifted b db r"
  by (auto simp: db_inv_def counters_ok_def drifted_def)

lemma counters_update_inv:
  assumes "db_inv db"
  shows "db_inv (snd (reconcile_stmt b db))"
  unfolding reconcile_stmt_def
proof (rule stmt_keeps [where I = "\<lambda>d. db_inv d"])
  fix d assume inv: "db_inv d"
  then have "map (\<lambda>r. if drifted b d r then r\<lparr>MessageCount := true_count (mbID r) d,
      message_bytes := true_bytes (mbID r) d\<rparr> else r) (mailboxes d) = mailboxes d"
    using no_drift by (intro map_idI) auto
  with inv show "db_inv (snd (Inr (int (length (filter (drifted b d) (mailboxes d)))),
     d\<lparr>mailboxes := map (\<lambda>r. if drifted b d r
            then r\<lparr>MessageCount := true_count (mbID r) d, message_bytes := true_bytes (mbID r) d\<rparr>
            else r) (mailboxes d)\<rparr>))"
    by simp
qed (use assms in simp)

lemma pg_ReconcileMessageCounts_inv:
  assumes "db_inv db"
  shows "db_inv (snd (pg_ReconcileMessageCounts db))"
proof -
  have r: "db_inv d \<Longrightarrow> reconcile_stmt b d = (x, d') \<Longrightarrow> db_inv d'" for b d x d'
    using counters_update_inv [of d b] by simp
  then show ?thesis
    using assms unfolding pg_ReconcileMessageCounts_def by (auto split: prod.splits sum.splits dest: r)
qed

lemmas store_reads =
  pg_FindMailbox_def pg_CountMailboxes_def pg_ListMailboxes_def pg_RetrieveMessages_def pg_GetMessageCount_def
  pg_CheckAccess_def pg_ListACL_def pg_GetCursor_def

text \<open>The reading operations change nothing but the schedule.\<close>

lemma store_reads_pure [simp]:
  "snd (pg_FindMailbox L p f db) = next_faults db"
  "snd (pg_CountMailboxes L p db) = next_faults db"
  "snd (pg_ListMailboxes L p db) = next_faults db"
  "snd (pg_RetrieveMessages mid s n pr db) = next_faults db"
  "snd (pg_GetMessageCount mid db) = next_faults db"
  "snd (pg_CheckAccess L mid p a db) = next_faults db"
  "snd (pg_ListACL mid db) = next_faults db"
  "snd (pg_GetCursor L mid p db) = next_faults db"
  unfolding store_reads by (simp_all add: stmt_read)

end
