(* ===== verification/Store_Props.thy ===== *)
theory Store_Props
  imports Store_Inv
begin

text \<open>
  The message store as a system of operations, run in any order by any number of callers, and what
  its operations do: numbering, the message cap, claims, retrieval order, ownership,
  acknowledgement, retention, the expiry sweep and the repair of the counters.
\<close>

datatype store_op =
    OpGetOrCreateMailbox MailboxAddress int int "int option"
  | OpUpdateMailbox MailboxRecord
  | OpDeleteMailbox int
  | OpUpdateMailboxAccess int
  | OpStoreMessage int Message
  | OpDeleteMessage string
  | OpDeleteMessages "string list"
  | OpDeleteOwnedMessages peer_id "string list"
  | OpClaimMessage int
  | OpUpdateMessageFlags peer_id string MessageFlags MessageFlags
  | OpExpungeMailbox int
  | OpExpungeAllMailboxes peer_id
  | OpMarkMessagesDelivered peer_id "string list"
  | OpGrantAccess int peer_id AccessMode
  | OpRevokeAccess int peer_id
  | OpUpdateCursor int peer_id int
  | OpDeleteExpiredMessages
  | OpEnforceRetentionPolicy MailboxRecord
  | OpEnforceAllRetention
  | OpReconcileMessageCounts
  | OpRead
  | OpEnvironment millis "fault list" "int list"

text \<open>
  \<open>OpRead\<close> stands for each operation that only reads; \<open>OpEnvironment\<close> for the world outside: time
  passes, statements will fail, claims in flight hold rows.
\<close>

fun store_exec :: "peer_lib \<Rightarrow> store_op \<Rightarrow> db \<Rightarrow> db" where
  "store_exec L (OpGetOrCreateMailbox a m d c) db = snd (pg_GetOrCreateMailbox L a m d c db)"
| "store_exec L (OpUpdateMailbox mb) db = snd (pg_UpdateMailbox mb db)"
| "store_exec L (OpDeleteMailbox mid) db = snd (pg_DeleteMailbox mid db)"
| "store_exec L (OpUpdateMailboxAccess mid) db = snd (pg_UpdateMailboxAccess mid db)"
| "store_exec L (OpStoreMessage mid msg) db = snd (pg_StoreMessage mid msg db)"
| "store_exec L (OpDeleteMessage i) db = snd (pg_DeleteMessage i db)"
| "store_exec L (OpDeleteMessages is) db = snd (pg_DeleteMessages is db)"
| "store_exec L (OpDeleteOwnedMessages p is) db = snd (pg_DeleteOwnedMessages L p is db)"
| "store_exec L (OpClaimMessage mid) db = snd (pg_ClaimMessage mid db)"
| "store_exec L (OpUpdateMessageFlags p i a r) db = snd (pg_UpdateMessageFlags L p i a r db)"
| "store_exec L (OpExpungeMailbox mid) db = snd (pg_ExpungeMailbox mid db)"
| "store_exec L (OpExpungeAllMailboxes p) db = snd (pg_ExpungeAllMailboxes L p db)"
| "store_exec L (OpMarkMessagesDelivered p is) db = snd (pg_MarkMessagesDelivered L p is db)"
| "store_exec L (OpGrantAccess mid p m) db = snd (pg_GrantAccess L mid p m db)"
| "store_exec L (OpRevokeAccess mid p) db = snd (pg_RevokeAccess L mid p db)"
| "store_exec L (OpUpdateCursor mid p s) db = snd (pg_UpdateCursor L mid p s db)"
| "store_exec L OpDeleteExpiredMessages db = snd (pg_DeleteExpiredMessages db)"
| "store_exec L (OpEnforceRetentionPolicy mb) db = snd (pg_EnforceRetentionPolicy mb db)"
| "store_exec L OpEnforceAllRetention db = snd (pg_EnforceAllRetention db)"
| "store_exec L OpReconcileMessageCounts db = snd (pg_ReconcileMessageCounts db)"
| "store_exec L OpRead db = next_faults db"
| "store_exec L (OpEnvironment t fs ls) db = db\<lparr>clock := t, faults := fs, row_locks := ls\<rparr>"

definition empty_db :: "millis \<Rightarrow> db" where
  "empty_db t = \<lparr>clock = t, faults = [], mailboxes = [], stored_messages = [], mailbox_acls = [],
     reader_cursors = [], row_locks = [], next_id = 1\<rparr>"

lemma empty_db_inv: "db_inv (empty_db t)"
  by (simp add: inv_defs empty_db_def)

lemma store_exec_inv: "db_inv db \<Longrightarrow> db_inv (store_exec L op db)"
  by (cases op)
    (simp_all add: pg_GetOrCreateMailbox_inv pg_UpdateMailbox_inv pg_DeleteMailbox_inv
      pg_UpdateMailboxAccess_inv pg_StoreMessage_inv pg_deletes_inv pg_ClaimMessage_inv
      pg_UpdateMessageFlags_inv pg_MarkMessagesDelivered_inv pg_GrantAccess_inv pg_RevokeAccess_inv
      pg_UpdateCursor_inv pg_DeleteExpiredMessages_def expiry_sweep_inv pg_EnforceRetentionPolicy_inv
      pg_EnforceAllRetention_inv pg_ReconcileMessageCounts_inv)

interpretation store_run: inv_system "store_exec L" db_inv for L
  by unfold_locales (rule store_exec_inv)


section \<open>Nothing is reused\<close>

text \<open>
  Along a run identifiers only grow: a message or mailbox row of a later state is one of an earlier
  state or has a fresh identifier, and the counter of a mailbox never goes back.
\<close>

definition grows :: "db \<Rightarrow> db \<Rightarrow> bool" where
  "grows d d' \<longleftrightarrow> next_id d \<le> next_id d'
     \<and> (\<forall>r' \<in> set (mailboxes d'). next_id d \<le> mbID r'
          \<or> (\<exists>r \<in> set (mailboxes d). mbID r = mbID r' \<and> current_sequence r \<le> current_sequence r'))
     \<and> (\<forall>m' \<in> set (stored_messages d'). next_id d \<le> smID m' \<or> smID m' \<in> smID ` set (stored_messages d))"

lemma grows_refl [simp]: "grows d d"
  by (auto simp: grows_def)

lemma grows_trans:
  assumes "grows a b" "grows b c"
  shows "grows a c"
  unfolding grows_def
proof (intro conjI ballI)
  show "next_id a \<le> next_id c" using assms by (auto simp: grows_def)
next
  fix r assume r: "r \<in> set (mailboxes c)"
  then consider "next_id b \<le> mbID r"
    | y where "y \<in> set (mailboxes b)" "mbID y = mbID r" "current_sequence y \<le> current_sequence r"
    using assms(2) by (auto simp: grows_def)
  then show "next_id a \<le> mbID r \<or> (\<exists>x \<in> set (mailboxes a). mbID x = mbID r \<and> current_sequence x \<le> current_sequence r)"
    using assms(1) by cases (fastforce simp: grows_def)+
next
  fix m assume "m \<in> set (stored_messages c)"
  then show "next_id a \<le> smID m \<or> smID m \<in> smID ` set (stored_messages a)"
    using assms by (force simp: grows_def)
qed

lemma grows_next_faults [simp]: "grows d (next_faults d)"
  by (auto simp: grows_def)

lemma stmt_grows:
  assumes "\<And>d. grows d (snd (f d))"
  shows "grows db (snd (stmt f db))"
proof -
  have "grows (next_faults db) (snd (f (next_faults db)))" by (rule assms)
  then have "grows db (snd (f (next_faults db)))" by (rule grows_trans [OF grows_next_faults])
  then show ?thesis by (cases rule: stmt_cases [of f db]) auto
qed

lemma delete_where_grows [simp]: "grows d (snd (delete_where P d))"
  by (auto simp: grows_def)

lemma delete_stmt_grows [simp]: "grows d (snd (delete_stmt P d))"
  unfolding delete_stmt_def by (rule stmt_grows) (simp add: Let_def case_prod_unfold)

lemma delete_stmt_growsD: "delete_stmt P d = (r, d') \<Longrightarrow> grows d d'"
  using delete_stmt_grows [of d P] by simp

lemma update_message_rows_grows [simp]: "grows d (snd (update_message_rows P f d))"
  by (auto simp: grows_def)

lemma update_mailbox_rows_grows:
  "(\<And>r. mbID (f r) = mbID r \<and> current_sequence r \<le> current_sequence (f r)) \<Longrightarrow> grows d (update_mailbox_rows f mid d)"
  by (auto simp: grows_def)

lemma insert_mailbox_grows: "mbID r = next_id d \<Longrightarrow> grows d (insert_mailbox r d)"
  by (auto simp: grows_def)

lemma insert_message_grows: "smID m = next_id d \<Longrightarrow> grows d (insert_message m d)"
  by (auto simp: grows_def)

lemma same_rows_grows:
  "mailboxes d' = mailboxes d \<Longrightarrow> stored_messages d' = stored_messages d \<Longrightarrow> next_id d \<le> next_id d' \<Longrightarrow> grows d d'"
  by (auto simp: grows_def)

lemma pg_GetOrCreateMailbox_grows: "grows d (snd (pg_GetOrCreateMailbox L a m n c d))"
  unfolding pg_GetOrCreateMailbox_def
  by (rule stmt_grows) (auto simp: Let_def insert_mailbox_grows split: option.splits)

lemma pg_StoreMessage_grows: "grows d (snd (pg_StoreMessage mid msg d))"
  unfolding pg_StoreMessage_def
  by (rule stmt_grows)
    (auto simp: Let_def intro: grows_trans [OF update_mailbox_rows_grows insert_message_grows] split: option.splits)

lemma pg_mailbox_updates_grow:
  "grows d (snd (pg_UpdateMailbox mb d))" "grows d (snd (pg_UpdateMailboxAccess mid d))" "grows d (snd (pg_DeleteMailbox mid d))"
  unfolding pg_UpdateMailbox_def pg_UpdateMailboxAccess_def pg_DeleteMailbox_def
  by ((rule stmt_grows; simp add: update_mailbox_rows_grows), (rule stmt_grows; simp add: update_mailbox_rows_grows),
      (rule stmt_grows; auto simp: grows_def))

lemma pg_grants_grow:
  "grows d (snd (pg_GrantAccess L mid p m d))" "grows d (snd (pg_RevokeAccess L mid p d))"
  "grows d (snd (pg_UpdateCursor L mid p s d))"
  unfolding pg_GrantAccess_def pg_RevokeAccess_def pg_UpdateCursor_def
  by (rule stmt_grows; simp add: same_rows_grows)+

lemma pg_message_updates_grow:
  "grows d (snd (pg_ClaimMessage mid d))" "grows d (snd (pg_UpdateMessageFlags L p i a b d))"
  "grows d (snd (pg_MarkMessagesDelivered L p is d))"
  unfolding pg_ClaimMessage_def pg_UpdateMessageFlags_def pg_MarkMessagesDelivered_def
  by (auto intro!: stmt_grows grows_trans [OF delete_where_grows update_message_rows_grows]
      simp: Let_def case_prod_unfold split: list.splits)

lemma expiry_sweep_grows: "grows d (snd (expiry_sweep b n acc d))"
proof (induction b n acc d rule: expiry_sweep.induct)
  case (2 b n acc d)
  then show ?case
    by (auto split: prod.splits sum.splits intro: delete_stmt_growsD grows_trans [OF delete_stmt_growsD])
qed simp

lemma reconcile_stmt_grows [simp]: "grows d (snd (reconcile_stmt b d))"
  unfolding reconcile_stmt_def by (rule stmt_grows) (auto simp: grows_def)

lemma pg_cleanup_grows:
  "grows d (snd (pg_EnforceRetentionPolicy mb d))" "grows d (snd (pg_EnforceAllRetention d))"
  "grows d (snd (pg_ReconcileMessageCounts d))"
proof -
  have rec: "reconcile_stmt b d = (r, d') \<Longrightarrow> grows d d'" for b d r d'
    using reconcile_stmt_grows [of d b] by simp
  have neg: "grows d (snd (stmt (\<lambda>d. (Inl e, d)) d))" for d and e :: err
    by (rule stmt_grows) simp
  let ?f = "\<lambda>d. if negative_offset d then (Inl (DbError ''OFFSET must not be negative''), d)
    else let (k, d') = delete_where (count_retired d) d in (Inr k, d')"
  have s: "stmt ?f d = (r, d') \<Longrightarrow> grows d d'" for d r d'
    using stmt_grows [of ?f d] by (simp add: case_prod_unfold Let_def)
  show "grows d (snd (pg_EnforceRetentionPolicy mb d))" for mb :: "'a MailboxRecord_scheme"
    unfolding pg_EnforceRetentionPolicy_def
    by (auto split: prod.splits sum.splits option.splits dest!: delete_stmt_growsD intro: grows_trans neg)
  show "grows d (snd (pg_EnforceAllRetention d))"
    unfolding pg_EnforceAllRetention_def
    by (auto split: prod.splits sum.splits dest!: delete_stmt_growsD s intro: grows_trans)
  show "grows d (snd (pg_ReconcileMessageCounts d))"
    unfolding pg_ReconcileMessageCounts_def
    by (auto split: prod.splits sum.splits dest!: rec intro: grows_trans)
qed

lemma pg_deletes_grow:
  "grows d (snd (pg_DeleteMessage i d))" "grows d (snd (pg_DeleteMessages is d))"
  "grows d (snd (pg_DeleteOwnedMessages L p is d))" "grows d (snd (pg_ExpungeMailbox mid d))"
  "grows d (snd (pg_ExpungeAllMailboxes L p d))"
  by (simp_all add: pg_DeleteMessage_def pg_DeleteMessages_def pg_DeleteOwnedMessages_def pg_ExpungeMailbox_def
      pg_ExpungeAllMailboxes_def)

lemma store_exec_grows: "grows d (store_exec L op d)"
  by (cases op)
    (simp_all add: pg_GetOrCreateMailbox_grows pg_StoreMessage_grows pg_mailbox_updates_grow pg_grants_grow
      pg_message_updates_grow pg_deletes_grow pg_DeleteExpiredMessages_def expiry_sweep_grows pg_cleanup_grows
      same_rows_grows)

interpretation store_growth: inv_system "store_exec L" "grows d0" for L d0
  by unfold_locales (rule grows_trans [OF _ store_exec_grows])

lemma store_run_grows: "grows db (fold (store_exec L) ops db)"
  by (rule store_growth.run_inv) simp


section \<open>A small store, on which the properties are evaluated\<close>

definition demo_msg :: "string \<Rightarrow> MessagePriority \<Rightarrow> Message" where
  "demo_msg i p = (NewMessage i 500 ''41'' ''42'' [1, 2, 3])\<lparr>Priority := p, ExpiryTimestamp := 9000\<rparr>"

definition demo_db :: db where
  "demo_db = fold (store_exec hex_peers)
     [OpGetOrCreateMailbox (NewInbox (PeerID ''B'')) 2 30 (Some 1),
      OpGetOrCreateMailbox (NewInbox (PeerID ''C'')) 0 0 None,
      OpStoreMessage 1 (demo_msg ''m1'' 0)] (empty_db 1000)"

lemma demo_db_inv: "db_inv demo_db"
  unfolding demo_db_def by (rule store_run.run_inv [OF empty_db_inv])

lemma result_eq: "fst x = r \<Longrightarrow> x = (r, snd x)"
  by (cases x) simp


section \<open>Properties: the invariant, numbering and the cap\<close>

text \<open>
  C2. Whatever operations run, in whatever order and whichever of their statements fail or lose
  their reply, the store keeps its invariant: identifiers are unique, every message is in a mailbox
  that exists, the maintained message and byte counters of every mailbox are the true ones, and the
  sequence numbers in a mailbox are distinct and at most its counter.
\<close>

theorem store_run_keeps_invariant: "db_inv (fold (store_exec L) ops (empty_db t))"
  by (rule store_run.run_inv [OF empty_db_inv])

lemma pg_StoreMessage_InrD:
  assumes "pg_StoreMessage mid msg db = (Inr s, db')"
  obtains r where "r \<in> set (mailboxes db)" "mbID r = mid" "MaxMessages r \<le> 0 \<or> MessageCount r < MaxMessages r"
    "s = current_sequence r + 1" "MessageID msg \<notin> smMessageID ` set (stored_messages db)"
    "db' = insert_message (message_row (next_id db) mid s msg)
       (update_mailbox_rows (count_in (int (length (Payload msg))) (clock db)) mid (next_faults db))"
  using stmt_InrD [OF assms [unfolded pg_StoreMessage_def]] that
  by (auto simp: Let_def dest!: find_SomeD split: option.splits if_splits)

lemma pg_StoreMessage_result_inv: "db_inv db \<Longrightarrow> pg_StoreMessage mid msg db = (x, db') \<Longrightarrow> db_inv db'"
  using pg_StoreMessage_inv [of db mid msg] by simp

text \<open>
  Sequence numbers go up: of two messages stored in one mailbox, the later has the larger
  number, whatever any callers did in between.
\<close>

theorem sequence_numbers_increase:
  assumes "db_inv db" and s1: "pg_StoreMessage mid m1 db = (Inr s1, db1)"
    and s2: "pg_StoreMessage mid m2 (fold (store_exec L) ops db1) = (Inr s2, db2)"
  shows "s1 < s2"
proof -
  obtain r1 where r1: "r1 \<in> set (mailboxes db)" "mbID r1 = mid" "s1 = current_sequence r1 + 1"
      "db1 = insert_message (message_row (next_id db) mid s1 m1)
       (update_mailbox_rows (count_in (int (length (Payload m1))) (clock db)) mid (next_faults db))"
    using s1 by (rule pg_StoreMessage_InrD)
  have inv1: "db_inv db1" using assms(1) s1 by (rule pg_StoreMessage_result_inv)
  obtain r2 where r2: "r2 \<in> set (mailboxes (fold (store_exec L) ops db1))" "mbID r2 = mid" "s2 = current_sequence r2 + 1"
    using s2 by (rule pg_StoreMessage_InrD)
  let ?r = "count_in (int (length (Payload m1))) (clock db) r1"
  have in1: "?r \<in> set (mailboxes db1)" using r1 by auto
  have "mid < next_id db1" using inv1 in1 r1(2) by (auto simp: db_inv_def ids_ok_def)
  then obtain y where y: "y \<in> set (mailboxes db1)" "mbID y = mid" "current_sequence y \<le> current_sequence r2"
    using store_run_grows [of db1 L ops] r2 by (auto simp: grows_def)
  have "y = ?r"
    using inv1 y in1 r1(2) distinct_key_unique [of mbID "mailboxes db1" y ?r] by (simp add: db_inv_def ids_ok_def)
  then show ?thesis using y r1(3) r2(3) by simp
qed

theorem sequence_numbers_increase_witness:
  "fst (pg_StoreMessage 1 (demo_msg ''m2'' 0) demo_db) = Inr 2
   \<and> fst (pg_StoreMessage 1 (demo_msg ''m4'' 0) (fold (store_exec hex_peers) [OpClaimMessage 1, OpStoreMessage 1 (demo_msg ''m3'' 1), OpClaimMessage 1]
       (snd (pg_StoreMessage 1 (demo_msg ''m2'' 0) demo_db)))) = Inr 4
   \<and> (2 :: int) < 4"
proof -
  let ?d = "snd (pg_StoreMessage 1 (demo_msg ''m2'' 0) demo_db)"
  let ?ops = "[OpClaimMessage 1, OpStoreMessage 1 (demo_msg ''m3'' 1), OpClaimMessage 1]"
  have a: "fst (pg_StoreMessage 1 (demo_msg ''m2'' 0) demo_db) = Inr 2" by code_simp
  have b: "fst (pg_StoreMessage 1 (demo_msg ''m4'' 0) (fold (store_exec hex_peers) ?ops ?d)) = Inr 4" by code_simp
  show ?thesis
    using a b sequence_numbers_increase [OF demo_db_inv result_eq [OF a] result_eq [OF b]] by blast
qed

lemma find_mailbox_unique:
  assumes "db_inv db" "r \<in> set (mailboxes db)" "mbID r = mid"
  shows "find_mailbox mid db = Some r"
proof (cases "find_mailbox mid db")
  case None
  then show ?thesis using assms by (auto simp: find_mailbox_def find_None_iff)
next
  case (Some x)
  then have "x \<in> set (mailboxes db) \<and> mbID x = mid" by (auto simp: find_mailbox_def dest: find_SomeD)
  then show ?thesis using Some assms distinct_key_unique [of mbID "mailboxes db" x r] by (simp add: db_inv_def ids_ok_def)
qed

lemma messages_of_insert:
  "messages_of k (insert_message m db) = messages_of k db @ (if smMailboxID m = k then [m] else [])"
  "messages_of k (update_mailbox_rows f mid db) = messages_of k db"
  "messages_of k (next_faults db) = messages_of k db"
  by (simp_all add: messages_of_def)

text \<open>
  C20. A successful store appends exactly that message to exactly that mailbox, numbered one past
  the counter, and leaves a capped mailbox with at most its cap; a store refused as full found the
  cap reached by messages really stored, and changed no table.
\<close>

theorem store_respects_cap:
  assumes inv: "db_inv db" and st: "pg_StoreMessage mid msg db = (res, db')"
  shows "case res of
     Inr s \<Rightarrow> (\<exists>r. find_mailbox mid db = Some r \<and> s = current_sequence r + 1
        \<and> messages_of mid db' = messages_of mid db @ [message_row (next_id db) mid s msg]
        \<and> (\<forall>k. k \<noteq> mid \<longrightarrow> messages_of k db' = messages_of k db)
        \<and> (0 < MaxMessages r \<longrightarrow> int (length (messages_of mid db')) \<le> MaxMessages r))
   | Inl (MailboxFullError cnt mx) \<Rightarrow>
        0 < mx \<and> mx \<le> cnt \<and> cnt = int (length (messages_of mid db)) \<and> db' = next_faults db
   | Inl _ \<Rightarrow> True"
proof (cases res)
  case (Inr s)
  with st have "pg_StoreMessage mid msg db = (Inr s, db')" by simp
  then obtain r where r: "r \<in> set (mailboxes db)" "mbID r = mid" "MaxMessages r \<le> 0 \<or> MessageCount r < MaxMessages r"
    "s = current_sequence r + 1"
    "db' = insert_message (message_row (next_id db) mid s msg)
       (update_mailbox_rows (count_in (int (length (Payload msg))) (clock db)) mid (next_faults db))"
    by (rule pg_StoreMessage_InrD)
  have "MessageCount r = int (length (messages_of mid db))"
    using inv r by (auto simp: db_inv_def counters_ok_def true_count_def)
  then show ?thesis
    using Inr r find_mailbox_unique [OF inv r(1,2)] by (auto simp: messages_of_insert)
next
  case (Inl e)
  show ?thesis
  proof (cases "\<exists>c m. e = MailboxFullError c m")
    case True
    then obtain c m where e: "e = MailboxFullError c m" by blast
    have same: "storeRefused mid (next_faults db) = storeRefused mid db"
      by (simp add: storeRefused_def find_mailbox_def)
    from stmt_typed_errorD [OF st [unfolded pg_StoreMessage_def Inl e]]
    have full: "\<not> (\<exists>r \<in> set (mailboxes db). mbID r = mid \<and> (MaxMessages r \<le> 0 \<or> MessageCount r < MaxMessages r))"
      and ref: "storeRefused mid db = MailboxFullError c m" and d: "db' = next_faults db"
      by (auto simp: Let_def find_None_iff same split: option.splits if_splits)
    from ref obtain r where r: "find_mailbox mid db = Some r" "c = MessageCount r" "m = MaxMessages r"
      by (auto simp: storeRefused_def split: option.splits)
    then have "r \<in> set (mailboxes db)" "mbID r = mid" by (auto simp: find_mailbox_def dest: find_SomeD)
    moreover from this have "MessageCount r = int (length (messages_of mid db))"
      using inv by (auto simp: db_inv_def counters_ok_def true_count_def)
    ultimately show ?thesis using Inl e r d full by auto
  next
    case False
    then show ?thesis using Inl by (auto split: err.splits)
  qed
qed

theorem store_respects_cap_witness:
  "length (messages_of 1 (snd (pg_StoreMessage 1 (demo_msg ''m2'' 0) demo_db))) = 2
   \<and> (case fst (pg_StoreMessage 1 (demo_msg ''m2'' 0) demo_db) of Inr s \<Rightarrow> s = 2 | Inl _ \<Rightarrow> False)"
proof -
  have a: "fst (pg_StoreMessage 1 (demo_msg ''m2'' 0) demo_db) = Inr 2" by code_simp
  have b: "length (messages_of 1 demo_db) = 1" by code_simp
  show ?thesis
    using store_respects_cap [OF demo_db_inv result_eq [OF a]] a b by auto
qed

end
