(* ===== verification/Store_Behaviour.thy ===== *)
theory Store_Behaviour
  imports Store_Props
begin

text \<open>
  What the operations of the message store promise their callers: exclusive claims, ordered
  retrieval, isolation of owners, consumption on acknowledgement, retention, the expiry sweep and
  the repair of drifted counters.
\<close>

section \<open>Claims\<close>

lemma hd_sort_key_min:
  fixes f :: "'a \<Rightarrow> 'b :: linorder"
  assumes "sort_key f xs = y # ys"
  shows "y \<in> set xs \<and> (\<forall>x \<in> set xs. f y \<le> f x)"
proof -
  have "sorted (map f (y # ys))" using assms sorted_sort_key [of f xs] by simp
  moreover have "set xs = set (y # ys)" using assms set_sort [of f xs] by simp
  ultimately show ?thesis by auto
qed

definition claim_open :: "int \<Rightarrow> db \<Rightarrow> StoredMessageRecord \<Rightarrow> bool" where
  "claim_open mid db m \<longleftrightarrow> smMailboxID m = mid \<and> clock db < smExpiresAt m \<and> smID m \<notin> set (row_locks db)"

lemma claimable_alt: "claimable mid db = sort_key smSequenceNumber (filter (claim_open mid db) (stored_messages db))"
  by (simp add: claimable_def claim_open_def [abs_def])

lemma claimable_next_faults [simp]: "claimable mid (next_faults db) = claimable mid db"
  by (simp add: claimable_def)

lemma delete_by_id:
  assumes "db_inv db" "m \<in> set (stored_messages db)"
  shows "filter (\<lambda>x. smID x \<noteq> smID m) (stored_messages db) = remove1 m (stored_messages db)"
proof -
  have dist: "distinct (map smID (stored_messages db))"
    using assms by (simp add: db_inv_def msgs_ok_def)
  then have "smID x \<noteq> smID m \<longleftrightarrow> x \<noteq> m" if "x \<in> set (stored_messages db)" for x
    using that assms(2) distinct_key_unique [OF dist] by blast
  then have "filter (\<lambda>x. smID x \<noteq> smID m) (stored_messages db) = filter (\<lambda>x. x \<noteq> m) (stored_messages db)"
    by (auto intro: filter_cong)
  moreover have "distinct (stored_messages db)" using dist by (simp add: distinct_map)
  then have "remove1 m (stored_messages db) = filter (\<lambda>x. x \<noteq> m) (stored_messages db)"
    by (simp add: distinct_remove1_removeAll removeAll_filter_not_eq eq_commute)
  ultimately show ?thesis by simp
qed

text \<open>
  A claim takes the oldest message of the mailbox that has not expired and that no other claim
  holds, returns it whole and removes it and nothing else; it finds none only when there is none.
\<close>

theorem claim_takes_oldest:
  assumes inv: "db_inv db" and cl: "pg_ClaimMessage mid db = (Inr res, db')"
  shows "case res of
     None \<Rightarrow> (\<forall>m \<in> set (stored_messages db). \<not> claim_open mid db m) \<and> stored_messages db' = stored_messages db
   | Some msg \<Rightarrow> (\<exists>m \<in> set (stored_messages db). claim_open mid db m \<and> msg = scanMessage m
        \<and> (\<forall>x \<in> set (stored_messages db). claim_open mid db x \<longrightarrow> smSequenceNumber m \<le> smSequenceNumber x)
        \<and> stored_messages db' = remove1 m (stored_messages db))"
proof (cases "claimable mid db")
  case Nil
  then have "filter (claim_open mid db) (stored_messages db) = []"
    by (metis claimable_alt set_empty set_sort)
  then show ?thesis
    using stmt_InrD [OF cl [unfolded pg_ClaimMessage_def]] Nil by (auto simp: filter_empty_conv)
next
  case (Cons m ms)
  then have m: "m \<in> set (stored_messages db)" "claim_open mid db m"
      "\<forall>x \<in> set (stored_messages db). claim_open mid db x \<longrightarrow> smSequenceNumber m \<le> smSequenceNumber x"
    using hd_sort_key_min [OF Cons [unfolded claimable_alt]] by auto
  have "res = Some (scanMessage m)" "stored_messages db' = filter (\<lambda>x. smID x \<noteq> smID m) (stored_messages db)"
    using stmt_InrD [OF cl [unfolded pg_ClaimMessage_def]] Cons by auto
  with m delete_by_id [OF inv m(1)] show ?thesis by auto
qed

text \<open>The claims of a run that returned a message, each with the row it took.\<close>

fun claimed_by :: "store_op \<Rightarrow> db \<Rightarrow> (int \<times> Message) list" where
  "claimed_by (OpClaimMessage mid) db =
     (case fst (pg_ClaimMessage mid db) of
        Inr (Some msg) \<Rightarrow> map (\<lambda>m. (smID m, msg)) (take 1 (claimable mid db))
      | _ \<Rightarrow> [])"
| "claimed_by _ db = []"

fun claim_trace :: "peer_lib \<Rightarrow> store_op list \<Rightarrow> db \<Rightarrow> (int \<times> Message) list" where
  "claim_trace L [] db = []"
| "claim_trace L (op # ops) db = claimed_by op db @ claim_trace L ops (store_exec L op db)"

definition gone :: "int \<Rightarrow> db \<Rightarrow> bool" where
  "gone i db \<longleftrightarrow> i < next_id db \<and> i \<notin> smID ` set (stored_messages db)"

lemma gone_grows: "gone i d \<Longrightarrow> grows d d' \<Longrightarrow> gone i d'"
  by (force simp: gone_def grows_def)

lemma claimed_by_row:
  assumes "(i, msg) \<in> set (claimed_by op db)"
  shows "\<exists>m \<in> set (stored_messages db). smID m = i"
  using assms by (cases op) (auto simp: claimable_alt split: sum.splits option.splits dest!: in_set_takeD)

lemma claimed_by_gone:
  assumes "db_inv db" "(i, msg) \<in> set (claimed_by op db)"
  shows "gone i (store_exec L op db)"
proof -
  obtain mid where op: "op = OpClaimMessage mid" using assms(2) by (cases op) auto
  have res: "fst (pg_ClaimMessage mid db) = Inr (Some msg)"
    using assms(2) op by (auto split: sum.splits option.splits)
  then obtain m ms where m: "claimable mid db = m # ms" "smID m = i"
    using assms(2) op by (cases "claimable mid db") auto
  have st: "pg_ClaimMessage mid db = (Inr (Some msg), snd (pg_ClaimMessage mid db))" using res by (rule result_eq)
  have "snd (pg_ClaimMessage mid db) = snd (delete_where (\<lambda>x. smID x = i) (next_faults db))"
    using stmt_InrD [OF st [unfolded pg_ClaimMessage_def]] m by (simp add: pg_ClaimMessage_def)
  moreover have "i < next_id db"
    using claimed_by_row [OF assms(2)] assms(1) by (auto simp: db_inv_def msgs_ok_def)
  ultimately show ?thesis by (auto simp: op gone_def)
qed

lemma gone_not_claimed: "gone i db \<Longrightarrow> i \<notin> fst ` set (claim_trace L ops db)"
proof (induction ops arbitrary: db)
  case (Cons op ops)
  have "gone i (store_exec L op db)" using Cons.prems store_exec_grows by (rule gone_grows)
  moreover have "i \<notin> fst ` set (claimed_by op db)"
    using Cons.prems claimed_by_row by (force simp: gone_def)
  ultimately show ?case using Cons.IH by auto
qed simp

lemma claimed_by_single: "length (claimed_by op db) \<le> 1"
  by (cases op) (auto split: sum.splits option.splits)

text \<open>
  C16. No message is handed out twice: over any run, whatever operations are interleaved with them,
  all successful claims took different stored messages.
\<close>

theorem claims_are_exclusive:
  assumes "db_inv db"
  shows "distinct (map fst (claim_trace L ops db))"
  using assms
proof (induction ops arbitrary: db)
  case (Cons op ops)
  have IH: "distinct (map fst (claim_trace L ops (store_exec L op db)))"
    using Cons store_exec_inv by blast
  show ?case
  proof (cases "claimed_by op db")
    case Nil
    with IH show ?thesis by simp
  next
    case (Cons p ps)
    then have "claimed_by op db = [p]" using claimed_by_single [of op db] by (cases ps) auto
    moreover from this have "gone (fst p) (store_exec L op db)"
      using claimed_by_gone [OF \<open>db_inv db\<close>, of "fst p" "snd p"] by simp
    ultimately show ?thesis using IH gone_not_claimed by auto
  qed
qed simp

theorem claim_takes_oldest_witness:
  "fst (pg_ClaimMessage 1 (snd (pg_StoreMessage 1 (demo_msg ''m2'' 3) demo_db)))
     = Inr (Some ((demo_msg ''m1'' 0)\<lparr>SequenceNumber := 1\<rparr>))
   \<and> (\<exists>m \<in> set (stored_messages (snd (pg_StoreMessage 1 (demo_msg ''m2'' 3) demo_db))).
        (demo_msg ''m1'' 0)\<lparr>SequenceNumber := 1\<rparr> = scanMessage m \<and>
        stored_messages (snd (pg_ClaimMessage 1 (snd (pg_StoreMessage 1 (demo_msg ''m2'' 3) demo_db))))
          = remove1 m (stored_messages (snd (pg_StoreMessage 1 (demo_msg ''m2'' 3) demo_db))))"
proof -
  let ?d = "snd (pg_StoreMessage 1 (demo_msg ''m2'' 3) demo_db)"
  have inv: "db_inv ?d" by (rule pg_StoreMessage_inv [OF demo_db_inv])
  have a: "fst (pg_ClaimMessage 1 ?d) = Inr (Some ((demo_msg ''m1'' 0)\<lparr>SequenceNumber := 1\<rparr>))" by code_simp
  show ?thesis using claim_takes_oldest [OF inv result_eq [OF a]] a by auto
qed

theorem claims_are_exclusive_witness:
  "distinct (map fst (claim_trace hex_peers [OpStoreMessage 1 (demo_msg ''m2'' 3), OpClaimMessage 1, OpClaimMessage 1, OpClaimMessage 1] demo_db))
   \<and> map (\<lambda>(i, m). (i, MessageID m)) (claim_trace hex_peers [OpStoreMessage 1 (demo_msg ''m2'' 3), OpClaimMessage 1, OpClaimMessage 1, OpClaimMessage 1] demo_db)
     = [(3, ''m1''), (4, ''m2'')]"
proof
  show "map (\<lambda>(i, m). (i, MessageID m)) (claim_trace hex_peers [OpStoreMessage 1 (demo_msg ''m2'' 3), OpClaimMessage 1, OpClaimMessage 1, OpClaimMessage 1] demo_db)
     = [(3, ''m1''), (4, ''m2'')]" by code_simp
qed (rule claims_are_exclusive [OF demo_db_inv])


section \<open>Retrieval\<close>

definition wanted :: "int \<Rightarrow> int option \<Rightarrow> MessagePriority option \<Rightarrow> db \<Rightarrow> StoredMessageRecord \<Rightarrow> bool" where
  "wanted mid fromSequence minPriority db m \<longleftrightarrow> smMailboxID m = mid \<and> clock db < smExpiresAt m
     \<and> (\<forall>s. fromSequence = Some s \<longrightarrow> s \<le> smSequenceNumber m)
     \<and> (\<forall>p. minPriority = Some p \<longrightarrow> p < smPriority m)"

lemma retrieve_rows_alt:
  "retrieve_rows mid fs mp db = sort_key priority_key (filter (wanted mid fs mp db) (stored_messages db))"
  unfolding retrieve_rows_def wanted_def
  by (rule arg_cong [where f = "sort_key priority_key"], rule filter_cong) (auto split: option.splits)

lemma retrieve_rows_next_faults [simp]: "retrieve_rows mid fs mp (next_faults db) = retrieve_rows mid fs mp db"
  by (simp add: retrieve_rows_def)

lemma limit_rows_InrD: "limit_rows n xs = Inr ys \<Longrightarrow> \<exists>k. ys = take k xs \<and> (n = None \<longrightarrow> ys = xs)
    \<and> (\<forall>i. n = Some i \<longrightarrow> k = nat i)"
  by (auto simp: limit_rows_def split: option.splits if_splits intro: exI [of _ "length xs"])

lemma sorted_take_drop:
  fixes f :: "'a \<Rightarrow> 'b :: linorder"
  assumes "sorted (map f xs)" "x \<in> set (take k xs)" "y \<in> set (drop k xs)"
  shows "f x \<le> f y"
proof -
  have "sorted (map f (take k xs) @ map f (drop k xs))"
    using assms(1) by (simp flip: map_append)
  then show ?thesis using assms(2,3) by (auto simp: sorted_append)
qed

text \<open>
  Retrieval returns stored messages of that mailbox only, unexpired, from the sequence asked for
  and above the priority asked for, urgent first and oldest first within a priority; a limit cuts
  off the least urgent and newest, without one nothing that qualifies is missing; reading changes
  no table.
\<close>

theorem retrieval_spec:
  assumes inv: "db_inv db" and rt: "pg_RetrieveMessages mid fromSequence maxMessages minPriority db = (Inr ms, db')"
  shows "\<exists>rows. ms = map scanMessage rows \<and> distinct rows \<and> sorted (map priority_key rows)
     \<and> set rows \<subseteq> {m \<in> set (stored_messages db). wanted mid fromSequence minPriority db m}
     \<and> (\<forall>x \<in> {m \<in> set (stored_messages db). wanted mid fromSequence minPriority db m} - set rows.
          maxMessages \<noteq> None \<and> (\<forall>y \<in> set rows. priority_key y \<le> priority_key x))
     \<and> (\<forall>k. maxMessages = Some k \<longrightarrow> length rows = min (nat k) (card {m \<in> set (stored_messages db). wanted mid fromSequence minPriority db m}))
     \<and> db' = next_faults db"
proof -
  let ?W = "{m \<in> set (stored_messages db). wanted mid fromSequence minPriority db m}"
  let ?all = "retrieve_rows mid fromSequence minPriority db"
  have all: "set ?all = ?W" "sorted (map priority_key ?all)" by (auto simp: retrieve_rows_alt)
  have dist: "distinct ?all"
    using inv by (simp add: retrieve_rows_alt db_inv_def msgs_ok_def distinct_map)
  from stmt_InrD [OF rt [unfolded pg_RetrieveMessages_def]]
  obtain rows where rows: "limit_rows maxMessages ?all = Inr rows" "ms = map scanMessage rows" "db' = next_faults db"
    by (cases "limit_rows maxMessages ?all") auto
  then obtain k where k: "rows = take k ?all" "maxMessages = None \<longrightarrow> rows = ?all" "\<forall>i. maxMessages = Some i \<longrightarrow> k = nat i"
    using limit_rows_InrD [OF rows(1)] by blast
  have "set ?all - set rows \<subseteq> set (drop k ?all)"
    by (subst append_take_drop_id [of k ?all, symmetric]) (auto simp only: k(1) set_append)
  moreover have "priority_key y \<le> priority_key x" if "y \<in> set rows" "x \<in> set (drop k ?all)" for x y
    using sorted_take_drop [OF all(2)] that k(1) by blast
  ultimately have "\<forall>x \<in> ?W - set rows. maxMessages \<noteq> None \<and> (\<forall>y \<in> set rows. priority_key y \<le> priority_key x)"
    using k(2) all(1) by blast
  moreover have "set rows \<subseteq> ?W" using k(1) all(1) set_take_subset [of k ?all] by simp
  moreover have "length ?all = card ?W" using dist all(1) by (metis distinct_card)
  ultimately show ?thesis
    using rows k dist all(2) by (intro exI [of _ rows]) (auto simp: sorted_wrt_take simp flip: take_map)
qed

theorem retrieval_spec_witness:
  "map (\<lambda>m. (MessageID m, Priority m)) (projr (fst (pg_RetrieveMessages 1 None (Some 5) None (snd (pg_StoreMessage 1 (demo_msg ''m2'' 3) demo_db)))))
     = [(''m2'', 3), (''m1'', 0)]
   \<and> snd (pg_RetrieveMessages 1 None (Some 5) None (snd (pg_StoreMessage 1 (demo_msg ''m2'' 3) demo_db)))
     = next_faults (snd (pg_StoreMessage 1 (demo_msg ''m2'' 3) demo_db))"
proof -
  let ?d = "snd (pg_StoreMessage 1 (demo_msg ''m2'' 3) demo_db)"
  have inv: "db_inv ?d" by (rule pg_StoreMessage_inv [OF demo_db_inv])
  have a: "fst (pg_RetrieveMessages 1 None (Some 5) None ?d) = Inr [(demo_msg ''m2'' 3)\<lparr>SequenceNumber := 2\<rparr>, (demo_msg ''m1'' 0)\<lparr>SequenceNumber := 1\<rparr>]"
    by code_simp
  have b: "map (\<lambda>m. (MessageID m, Priority m)) [(demo_msg ''m2'' 3)\<lparr>SequenceNumber := 2\<rparr>, (demo_msg ''m1'' 0)\<lparr>SequenceNumber := 1\<rparr>] = [(''m2'', 3), (''m1'', 0)]"
    by code_simp
  show ?thesis using retrieval_spec [OF inv result_eq [OF a]] a b by auto
qed


section \<open>Ownership and acknowledgement\<close>

lemma owned_by_iff:
  "owned_by p db m \<longleftrightarrow> (\<exists>r \<in> set (mailboxes db). OwnerPeerID r = p \<and> mbID r = smMailboxID m)"
  by (force simp: owned_by_def)

lemma owned_by_same [simp]:
  "owned_by p (next_faults db) = owned_by p db"
  "owned_by p (snd (delete_where P db)) = owned_by p db"
  by (auto simp: owned_by_iff fun_eq_iff)

text \<open>Deleting only messages of one owner leaves the rows of every other owner as they are.\<close>

definition others_kept :: "string \<Rightarrow> db \<Rightarrow> db \<Rightarrow> bool" where
  "others_kept p db db' \<longleftrightarrow>
     filter (\<lambda>m. \<not> owned_by p db m) (stored_messages db') = filter (\<lambda>m. \<not> owned_by p db m) (stored_messages db)
     \<and> filter (\<lambda>r. OwnerPeerID r \<noteq> p) (mailboxes db') = filter (\<lambda>r. OwnerPeerID r \<noteq> p) (mailboxes db)
     \<and> mailbox_acls db' = mailbox_acls db \<and> reader_cursors db' = reader_cursors db"

lemma others_kept_faults [simp]: "others_kept p (next_faults db) d \<longleftrightarrow> others_kept p db d"
  by (simp add: others_kept_def)

lemma others_kept_refl [simp]: "others_kept p db db" "others_kept p db (next_faults db)"
  by (simp_all add: others_kept_def)

lemma trigger_other_owner:
  assumes "db_inv db" "\<forall>m \<in> set ms. owned_by p db m" "r \<in> set (mailboxes db)" "OwnerPeerID r \<noteq> p"
  shows "deleted_trigger ms r = r"
proof -
  have "smMailboxID m \<noteq> mbID r" if "m \<in> set ms" for m
    using that assms distinct_key_unique [of mbID "mailboxes db" _ r]
    by (metis db_inv_def ids_ok_def owned_by_iff)
  then have "filter (\<lambda>m. smMailboxID m = mbID r) ms = []" by (auto simp: filter_empty_conv)
  then show ?thesis by (simp add: deleted_trigger_def)
qed

lemma delete_where_others:
  assumes "db_inv db" "\<And>m. P m \<Longrightarrow> owned_by p db m"
  shows "others_kept p db (snd (delete_where P db))"
proof -
  let ?del = "filter P (stored_messages db)"
  have "filter (\<lambda>r. OwnerPeerID r \<noteq> p) (map (deleted_trigger ?del) (mailboxes db))
      = map (deleted_trigger ?del) (filter (\<lambda>r. OwnerPeerID r \<noteq> p) (mailboxes db))"
    by (rule filter_map_id) simp
  also have "\<dots> = filter (\<lambda>r. OwnerPeerID r \<noteq> p) (mailboxes db)"
    using assms by (intro map_idI) (auto intro!: trigger_other_owner)
  finally show ?thesis
    using assms(2) by (auto simp: others_kept_def intro!: filter_cong)
qed

lemma update_message_rows_others:
  assumes "\<And>m. P m \<Longrightarrow> owned_by p db m"
  shows "others_kept p db (snd (update_message_rows P f db))"
proof -
  have flag: "owned_by p db (m\<lparr>smFlagsBitmap := b\<rparr>) = owned_by p db m" for m b by (simp add: owned_by_def)
  have "filter (\<lambda>m. \<not> owned_by p db m) (stored_messages (snd (update_message_rows P f db)))
      = map (\<lambda>m. if P m then m\<lparr>smFlagsBitmap := f (smFlagsBitmap m)\<rparr> else m) (filter (\<lambda>m. \<not> owned_by p db m) (stored_messages db))"
    unfolding update_message_rows_simps by (rule filter_map_id) (simp add: flag)
  also have "\<dots> = filter (\<lambda>m. \<not> owned_by p db m) (stored_messages db)"
    using assms by (intro map_idI) auto
  finally show ?thesis by (simp add: others_kept_def)
qed

lemma stmt_others:
  assumes "db_inv db" and "\<And>d. db_inv d \<Longrightarrow> others_kept p d (snd (f d))"
  shows "others_kept p db (snd (stmt f db))"
  using assms(1) assms(2) [of "next_faults db"] by (cases rule: stmt_cases [of f db]) auto

lemma delete_stmt_others:
  assumes "db_inv db" and "\<And>d m. P d m \<Longrightarrow> owned_by p d m"
  shows "others_kept p db (snd (delete_stmt P db))"
  unfolding delete_stmt_def
  by (rule stmt_others [OF assms(1)]) (auto simp: Let_def case_prod_unfold intro: delete_where_others assms(2))

lemma others_kept_trans:
  assumes "others_kept p a b" "others_kept p b c" "owned_by p b = owned_by p a"
  shows "others_kept p a c"
  using assms by (simp add: others_kept_def)

text \<open>The operations a caller performs on message identifiers it names, and the caller.\<close>

fun acting_owner :: "store_op \<Rightarrow> peer_id option" where
  "acting_owner (OpDeleteOwnedMessages p is) = Some p"
| "acting_owner (OpUpdateMessageFlags p i a r) = Some p"
| "acting_owner (OpExpungeAllMailboxes p) = Some p"
| "acting_owner (OpMarkMessagesDelivered p is) = Some p"
| "acting_owner _ = None"

lemma mark_others:
  assumes "db_inv db"
  shows "others_kept (peer_String L p) db (snd (pg_MarkMessagesDelivered L p is db))"
proof (cases "is = []")
  case False
  let ?mine = "\<lambda>db m. smMessageID m \<in> set is \<and> owned_by (peer_String L p) db m"
  have "others_kept (peer_String L p) d (snd (update_message_rows (\<lambda>m. ?mine (snd (delete_where (\<lambda>m. ?mine d m \<and> \<not> smPersistent m) d)) m \<and> smPersistent m)
      (\<lambda>b. WithFlag b MsgFlagSeen) (snd (delete_where (\<lambda>m. ?mine d m \<and> \<not> smPersistent m) d))))" if "db_inv d" for d
    by (rule others_kept_trans [OF delete_where_others update_message_rows_others]) (use that in auto)
  with False show ?thesis
    unfolding pg_MarkMessagesDelivered_def
    by (auto intro!: stmt_others [OF assms] simp: Let_def case_prod_unfold)
qed (simp add: pg_MarkMessagesDelivered_def)

text \<open>
  Owners are isolated: deleting, flagging, expunging or acknowledging by message identifier
  touches nothing of another owner, neither its messages nor its mailboxes with their counters,
  even when the identifiers named belong to that owner; grants and cursors stay too.
\<close>

theorem owner_isolation:
  assumes "db_inv db" "acting_owner op = Some p"
  shows "others_kept (peer_String L p) db (store_exec L op db)"
  using assms
proof (cases op)
  case (OpUpdateMessageFlags q i a r)
  with assms show ?thesis
    by (auto simp: pg_UpdateMessageFlags_def Let_def intro!: stmt_others update_message_rows_others)
qed (auto simp: pg_DeleteOwnedMessages_def pg_ExpungeAllMailboxes_def mark_others intro!: delete_stmt_others)

theorem owner_isolation_witness:
  "others_kept (peer_String hex_peers (PeerID ''C'')) demo_db (store_exec hex_peers (OpMarkMessagesDelivered (PeerID ''C'') [''m1'']) demo_db)
   \<and> map smMessageID (stored_messages (store_exec hex_peers (OpMarkMessagesDelivered (PeerID ''C'') [''m1'']) demo_db)) = [''m1'']
   \<and> map smMessageID (stored_messages (store_exec hex_peers (OpMarkMessagesDelivered (PeerID ''B'') [''m1'']) demo_db)) = []"
proof (intro conjI)
  show "others_kept (peer_String hex_peers (PeerID ''C'')) demo_db (store_exec hex_peers (OpMarkMessagesDelivered (PeerID ''C'') [''m1'']) demo_db)"
    by (rule owner_isolation [OF demo_db_inv]) simp
  show "map smMessageID (stored_messages (store_exec hex_peers (OpMarkMessagesDelivered (PeerID ''C'') [''m1'']) demo_db)) = [''m1'']"
    by code_simp
  show "map smMessageID (stored_messages (store_exec hex_peers (OpMarkMessagesDelivered (PeerID ''B'') [''m1'']) demo_db)) = []"
    by code_simp
qed

lemma filter_update_flags:
  assumes "\<And>m b. P (m\<lparr>smFlagsBitmap := b\<rparr>) = P m"
  shows "filter P (map (\<lambda>m. if Q m then m\<lparr>smFlagsBitmap := f (smFlagsBitmap m)\<rparr> else m) ms)
       = map (\<lambda>m. if Q m then m\<lparr>smFlagsBitmap := f (smFlagsBitmap m)\<rparr> else m) (filter P ms)"
  by (rule filter_map_id) (simp add: assms)

text \<open>
  Acknowledging messages consumes the queue entries and marks the persistent ones seen: of the
  caller's own messages among those named, the non-persistent rows are gone, the persistent ones
  stay with the seen flag set, every other row is as it was, and the reply counts exactly the
  caller's messages named.
\<close>

theorem mark_delivered_consumes:
  assumes st: "pg_MarkMessagesDelivered L p ids db = (Inr n, db')"
  defines "mine \<equiv> \<lambda>m. smMessageID m \<in> set ids \<and> owned_by (peer_String L p) db m"
  shows "stored_messages db' =
      map (\<lambda>m. if mine m then m\<lparr>smFlagsBitmap := WithFlag (smFlagsBitmap m) MsgFlagSeen\<rparr> else m)
        (filter (\<lambda>m. \<not> (mine m \<and> \<not> smPersistent m)) (stored_messages db))
    \<and> n = int (length (filter mine (stored_messages db)))"
proof (cases "ids = []")
  case True
  then show ?thesis using st by (simp add: pg_MarkMessagesDelivered_def mine_def)
next
  case False
  have body: "n = int (length (filter (\<lambda>m. mine m \<and> \<not> smPersistent m) (stored_messages db)))
        + int (length (filter (\<lambda>m. mine m \<and> smPersistent m) (filter (\<lambda>m. \<not> (mine m \<and> \<not> smPersistent m)) (stored_messages db))))
      \<and> stored_messages db' = map (\<lambda>m. if mine m \<and> smPersistent m then m\<lparr>smFlagsBitmap := WithFlag (smFlagsBitmap m) MsgFlagSeen\<rparr> else m)
        (filter (\<lambda>m. \<not> (mine m \<and> \<not> smPersistent m)) (stored_messages db))"
    using st [unfolded pg_MarkMessagesDelivered_def] False unfolding mine_def
    by (auto simp: Let_def case_prod_unfold simp del: filter_filter dest!: stmt_InrD
        intro!: arg_cong [where f = length] filter_cong)
  moreover have "length (filter (\<lambda>m. mine m \<and> smPersistent m) (filter (\<lambda>m. \<not> (mine m \<and> \<not> smPersistent m)) (stored_messages db)))
      = length (filter (\<lambda>m. mine m \<and> smPersistent m) (stored_messages db))"
    by (simp add: filter_filter) (rule arg_cong [where f = length], rule filter_cong, auto)
  ultimately show ?thesis
    using length_filter_partition [of mine "stored_messages db" smPersistent] by auto
qed

theorem mark_delivered_consumes_witness:
  "fst (pg_MarkMessagesDelivered hex_peers (PeerID ''B'') [''m1'', ''zz''] demo_db) = Inr 1
   \<and> stored_messages (snd (pg_MarkMessagesDelivered hex_peers (PeerID ''B'') [''m1'', ''zz''] demo_db)) = []"
proof -
  have a: "fst (pg_MarkMessagesDelivered hex_peers (PeerID ''B'') [''m1'', ''zz''] demo_db) = Inr 1" by code_simp
  have b: "filter (\<lambda>m. \<not> ((smMessageID m \<in> set [''m1'', ''zz''] \<and> owned_by (peer_String hex_peers (PeerID ''B'')) demo_db m) \<and> \<not> smPersistent m)) (stored_messages demo_db) = []"
    by code_simp
  show ?thesis using mark_delivered_consumes [OF result_eq [OF a]] a by (simp only: b list.map)
qed

end
