(* ===== verification/Store_Cleanup.thy ===== *)
theory Store_Cleanup
  imports Store_Behaviour
begin

text \<open>
  The cleanup operations of the message store: the expiry sweep, the retention sweep and the repair
  of drifted counters.
\<close>

section \<open>The expiry sweep\<close>

definition expired_row :: "millis \<Rightarrow> StoredMessageRecord \<Rightarrow> bool" where
  "expired_row now m \<longleftrightarrow> smExpiresAt m < now"

lemma filter_take_ids:
  assumes "distinct (map k xs)"
  shows "filter (\<lambda>x. k x \<in> set (map k (take n (filter P xs)))) xs = take n (filter P xs)"
    and "filter (\<lambda>x. k x \<notin> set (map k (take n (filter P xs)))) (filter P xs) = drop n (filter P xs)"
    and "filter (\<lambda>x. k x \<notin> set (map k (take n (filter P xs)))) (filter (\<lambda>x. \<not> P x) xs) = filter (\<lambda>x. \<not> P x) xs"
proof -
  have inj: "k x = k y \<longleftrightarrow> x = y" if "x \<in> set xs" "y \<in> set xs" for x y
    using that distinct_key_unique [OF assms, of x y] by auto
  have sub: "set (take n (filter P xs)) \<subseteq> set xs" using set_take_subset [of n "filter P xs"] by auto
  have mem: "k x \<in> set (map k (take n (filter P xs))) \<longleftrightarrow> x \<in> set (take n (filter P xs))" if "x \<in> set xs" for x
    using inj that sub by auto
  have dist: "distinct (filter P xs)" using assms by (simp add: distinct_map)
  have split: "filter (\<lambda>x. x \<in> set (take n ys)) ys = take n ys \<and> filter (\<lambda>x. x \<notin> set (take n ys)) ys = drop n ys" if "distinct ys" for ys
  proof -
    have "set (take n ys) \<inter> set (drop n ys) = {}" using that by (rule set_take_disj_set_drop_if_distinct) simp
    moreover have "filter Q ys = filter Q (take n ys) @ filter Q (drop n ys)" for Q
      by (simp flip: filter_append)
    ultimately show ?thesis by (auto simp: filter_empty_conv filter_id_conv)
  qed
  have "filter (\<lambda>x. k x \<in> set (map k (take n (filter P xs)))) xs = filter (\<lambda>x. x \<in> set (take n (filter P xs))) xs"
    using mem by (rule filter_cong [OF refl])
  also have "\<dots> = filter (\<lambda>x. x \<in> set (take n (filter P xs))) (filter P xs)"
    using set_take_subset [of n "filter P xs"] by (auto intro!: filter_cong)
  finally show "filter (\<lambda>x. k x \<in> set (map k (take n (filter P xs)))) xs = take n (filter P xs)"
    using split [OF dist] by simp
  have "filter (\<lambda>x. k x \<notin> set (map k (take n (filter P xs)))) (filter P xs) = filter (\<lambda>x. x \<notin> set (take n (filter P xs))) (filter P xs)"
    using mem by (intro filter_cong) auto
  then show "filter (\<lambda>x. k x \<notin> set (map k (take n (filter P xs)))) (filter P xs) = drop n (filter P xs)"
    using split [OF dist] by simp
  show "filter (\<lambda>x. k x \<notin> set (map k (take n (filter P xs)))) (filter (\<lambda>x. \<not> P x) xs) = filter (\<lambda>x. \<not> P x) xs"
    unfolding filter_id_conv using mem set_take_subset [of n "filter P xs"] by fastforce
qed

lemma sweep_step:
  assumes "db_inv db" "faults db = []"
  defines "ex \<equiv> filter (expired_row (clock db)) (stored_messages db)"
  shows "\<exists>db'. delete_stmt (\<lambda>d m. smID m \<in> set (expired_batch b d)) db = (Inr (int (length (take b ex))), db')
     \<and> faults db' = [] \<and> clock db' = clock db \<and> db_inv db'
     \<and> filter (expired_row (clock db)) (stored_messages db') = drop b ex
     \<and> filter (\<lambda>m. \<not> expired_row (clock db) m) (stored_messages db') = filter (\<lambda>m. \<not> expired_row (clock db) m) (stored_messages db)"
proof -
  let ?P = "\<lambda>m. smID m \<in> set (expired_batch b db)"
  have dist: "distinct (map smID (stored_messages db))" using assms(1) by (simp add: db_inv_def msgs_ok_def)
  have batch: "expired_batch b db = map smID (take b (filter (expired_row (clock db)) (stored_messages db)))"
    by (simp add: expired_batch_def expired_row_def [abs_def])
  note parts = filter_take_ids [OF dist, of b "expired_row (clock db)", folded batch]
  have swap: "filter P (filter Q xs) = filter Q (filter P xs)" for P Q and xs :: "StoredMessageRecord list"
    by (simp add: conj_commute)
  have "delete_stmt (\<lambda>d m. smID m \<in> set (expired_batch b d)) db = (Inr (int (length (take b ex))), snd (delete_where ?P db))"
    using assms(2) parts(1) by (simp add: delete_stmt_def Let_def case_prod_unfold ex_def)
  moreover have "filter (expired_row (clock db)) (stored_messages (snd (delete_where ?P db))) = drop b ex"
    and "filter (\<lambda>m. \<not> expired_row (clock db) m) (stored_messages (snd (delete_where ?P db))) = filter (\<lambda>m. \<not> expired_row (clock db) m) (stored_messages db)"
    unfolding delete_where_simps by (subst swap, simp only: parts ex_def)+
  ultimately show ?thesis using assms(1,2) by (auto intro: delete_where_inv)
qed

lemma expiry_sweep_result:
  assumes "db_inv db" "faults db = []"
  defines "ex \<equiv> filter (expired_row (clock db)) (stored_messages db)"
  shows "\<exists>db'. expiry_sweep b n acc db = ((acc + int (length (take (n * b) ex)), None), db')
     \<and> filter (expired_row (clock db)) (stored_messages db') = drop (n * b) ex
     \<and> filter (\<lambda>m. \<not> expired_row (clock db) m) (stored_messages db') = filter (\<lambda>m. \<not> expired_row (clock db) m) (stored_messages db)
     \<and> db_inv db'"
  unfolding ex_def using assms(1,2)
proof (induction n arbitrary: acc db)
  case 0
  then show ?case by simp
next
  case (Suc n)
  let ?ex = "filter (expired_row (clock db)) (stored_messages db)"
  obtain d1 where d1: "delete_stmt (\<lambda>d m. smID m \<in> set (expired_batch b d)) db = (Inr (int (length (take b ?ex))), d1)"
      "faults d1 = []" "clock d1 = clock db" "db_inv d1" "filter (expired_row (clock db)) (stored_messages d1) = drop b ?ex"
      "filter (\<lambda>m. \<not> expired_row (clock db) m) (stored_messages d1) = filter (\<lambda>m. \<not> expired_row (clock db) m) (stored_messages db)"
    using sweep_step [OF Suc.prems, of b] by blast
  show ?case
  proof (cases "length ?ex < b")
    case True
    then have "length ?ex \<le> Suc n * b" by (simp add: trans_le_add1)
    with True d1 show ?thesis by simp
  next
    case False
    have len: "int (length (take b ?ex)) = int b" using False by simp
    have tk: "length (take (n * b) (drop b ?ex)) + b = length (take (Suc n * b) ?ex)"
      using False by (cases "length ?ex \<le> b + n * b") (simp_all add: min_absorb1 min_absorb2)
    obtain d2 where d2: "expiry_sweep b n (acc + int b) d1 = ((acc + int b + int (length (take (n * b) (drop b ?ex))), None), d2)"
        "filter (expired_row (clock db)) (stored_messages d2) = drop (n * b) (drop b ?ex)"
        "filter (\<lambda>m. \<not> expired_row (clock db) m) (stored_messages d2) = filter (\<lambda>m. \<not> expired_row (clock db) m) (stored_messages d1)"
        "db_inv d2"
      using Suc.IH [OF d1(4,2), of "acc + int b"] d1(3,5) by auto
    have "expiry_sweep b (Suc n) acc db = ((acc + int (length (take (Suc n * b) ?ex)), None), d2)"
      using d1(1) d2(1) tk unfolding expiry_sweep.simps len by (simp del: length_take mult_Suc)
    then show ?thesis using d1(6) d2(2-4) by (simp add: add.commute)
  qed
qed

text \<open>
  The expiry sweep removes expired messages only: every unexpired message stays; up to a
  million expired rows all go and the count is exact, beyond that a million go and the rest waits.
\<close>

theorem expiry_sweep_removes_expired:
  assumes "db_inv db" "faults db = []"
  shows "\<exists>db'. pg_DeleteExpiredMessages db
       = ((int (min 1000000 (length (filter (expired_row (clock db)) (stored_messages db)))), None), db')
     \<and> filter (expired_row (clock db)) (stored_messages db') = drop 1000000 (filter (expired_row (clock db)) (stored_messages db))
     \<and> filter (\<lambda>m. \<not> expired_row (clock db) m) (stored_messages db') = filter (\<lambda>m. \<not> expired_row (clock db) m) (stored_messages db)"
  using expiry_sweep_result [OF assms, of expiryDeleteBatchSize maxExpiryDeleteBatches 0]
  unfolding pg_DeleteExpiredMessages_def expiryDeleteBatchSize_def maxExpiryDeleteBatches_def
  by (auto simp: min.commute)

text \<open>An expired message and one that has not expired.\<close>

theorem expiry_sweep_removes_expired_witness:
  "filter (expired_row 9500) (stored_messages (demo_db\<lparr>clock := 9500\<rparr>)) = stored_messages demo_db
   \<and> fst (pg_DeleteExpiredMessages (demo_db\<lparr>clock := 9500\<rparr>)) = (1, None)"
proof
  show ex: "filter (expired_row 9500) (stored_messages (demo_db\<lparr>clock := 9500\<rparr>)) = stored_messages demo_db"
    by code_simp
  have "db_inv (demo_db\<lparr>clock := 9500\<rparr>)" using demo_db_inv by simp
  moreover have "faults (demo_db\<lparr>clock := 9500\<rparr>) = []" by code_simp
  moreover have "length (stored_messages demo_db) = 1" by code_simp
  ultimately show "fst (pg_DeleteExpiredMessages (demo_db\<lparr>clock := 9500\<rparr>)) = (1, None)"
    using expiry_sweep_removes_expired [of "demo_db\<lparr>clock := 9500\<rparr>"] ex by auto
qed


section \<open>The retention sweep\<close>

lemma sorted_wrt_drop_filter:
  fixes f :: "'a \<Rightarrow> int"
  assumes "sorted_wrt (\<lambda>a b. f b < f a) xs" "drop k xs = x # ys"
  shows "filter (\<lambda>m. f x < f m) xs = take k xs"
proof -
  have xs: "xs = take k xs @ x # ys" using assms(2) by (metis append_take_drop_id)
  then have "sorted_wrt (\<lambda>a b. f b < f a) (take k xs @ x # ys)" using assms(1) by simp
  then have "\<forall>m \<in> set (take k xs). f x < f m" "\<forall>m \<in> set (x # ys). \<not> f x < f m"
    by (auto simp: sorted_wrt_append)
  then show ?thesis by (subst xs) (simp add: filter_id_conv filter_empty_conv)
qed

lemma newest_first_sorted:
  assumes "db_inv db"
  shows "sorted_wrt (\<lambda>a b. smSequenceNumber b < smSequenceNumber a) (newest_first mid db)"
proof -
  let ?k = "\<lambda>m. - smSequenceNumber m"
  have "distinct (map (\<lambda>m. (smMailboxID m, smSequenceNumber m)) (messages_of mid db))"
    using assms by (auto simp: db_inv_def seqs_ok_def messages_of_def intro: distinct_map_filterI)
  then have "inj_on smSequenceNumber (set (messages_of mid db))" "distinct (messages_of mid db)"
    by (auto simp: distinct_map inj_on_def messages_of_def)
  then have "distinct (map ?k (newest_first mid db))"
    by (auto simp: distinct_map newest_first_def inj_on_def)
  moreover have "sorted (map ?k (newest_first mid db))" by (simp add: newest_first_def)
  ultimately have "sorted_wrt (<) (map ?k (newest_first mid db))" by (simp add: strict_sorted_iff)
  then show ?thesis by (simp add: sorted_wrt_map)
qed

lemma count_retired_iff:
  assumes inv: "db_inv db" and m: "m \<in> set (stored_messages db)" and r: "r \<in> set (mailboxes db)" "mbID r = smMailboxID m"
  shows "count_retired db m \<longleftrightarrow> (\<exists>k. RetentionCount r = Some k \<and> m \<in> set (drop (nat k) (newest_first (mbID r) db)))"
proof -
  have only: "x = r" if "x \<in> set (mailboxes db)" "mbID x = smMailboxID m" for x
    using inv r that distinct_key_unique [of mbID "mailboxes db" x r] by (simp add: db_inv_def ids_ok_def)
  have ex: "(\<exists>x \<in> set (mailboxes db). mbID x = smMailboxID m \<and> Q x) \<longleftrightarrow> Q r" for Q
    using only r by blast
  have one: "count_retired db m \<longleftrightarrow> (\<exists>k. RetentionCount r = Some k \<and>
     (case drop (nat k) (newest_first (mbID r) db) of [] \<Rightarrow> False | x # _ \<Rightarrow> smSequenceNumber m \<le> smSequenceNumber x))"
    unfolding count_retired_def list_ex_iff ex by (cases "RetentionCount r") simp_all
  have mem: "m \<in> set (newest_first (mbID r) db)" using m r by (simp add: newest_first_def messages_of_def)
  have "(case drop (nat k) (newest_first (mbID r) db) of [] \<Rightarrow> False | x # _ \<Rightarrow> smSequenceNumber m \<le> smSequenceNumber x)
      \<longleftrightarrow> m \<in> set (drop (nat k) (newest_first (mbID r) db))" for k
  proof (cases "drop (nat k) (newest_first (mbID r) db)")
    case (Cons x ys)
    let ?nf = "newest_first (mbID r) db"
    have keep: "filter (\<lambda>a. smSequenceNumber x < smSequenceNumber a) ?nf = take (nat k) ?nf"
      by (rule sorted_wrt_drop_filter [OF newest_first_sorted [OF inv] Cons])
    have "distinct ?nf" using inv by (simp add: newest_first_def messages_of_def db_inv_def msgs_ok_def distinct_map)
    then have disj: "set (take (nat k) ?nf) \<inter> set (drop (nat k) ?nf) = {}" by (rule set_take_disj_set_drop_if_distinct) simp
    have "set ?nf = set (take (nat k) ?nf) \<union> set (drop (nat k) ?nf)" by (metis append_take_drop_id set_append)
    moreover have "smSequenceNumber x < smSequenceNumber m \<longleftrightarrow> m \<in> set (take (nat k) ?nf)"
      using mem by (subst keep [symmetric]) auto
    moreover have "(case drop (nat k) ?nf of [] \<Rightarrow> False | x # _ \<Rightarrow> smSequenceNumber m \<le> smSequenceNumber x) \<longleftrightarrow> \<not> smSequenceNumber x < smSequenceNumber m"
      by (simp add: Cons not_less)
    ultimately show ?thesis using mem disj by blast
  qed simp
  with one show ?thesis by simp
qed

lemma count_sweep_messages:
  assumes inv: "db_inv db" and r: "r \<in> set (mailboxes db)"
  shows "set (messages_of (mbID r) (snd (delete_where (count_retired db) db))) =
    (case RetentionCount r of None \<Rightarrow> set (messages_of (mbID r) db) | Some k \<Rightarrow> set (take (nat k) (newest_first (mbID r) db)))"
proof -
  let ?nf = "newest_first (mbID r) db"
  have nf: "set ?nf = set (messages_of (mbID r) db)" by (simp add: newest_first_def)
  have "distinct ?nf" using inv by (simp add: newest_first_def messages_of_def db_inv_def msgs_ok_def distinct_map)
  then have "set (take n ?nf) \<inter> set (drop n ?nf) = {}" for n by (rule set_take_disj_set_drop_if_distinct) simp
  moreover have "set ?nf = set (take n ?nf) \<union> set (drop n ?nf)" for n by (metis append_take_drop_id set_append)
  ultimately have "set ?nf - set (drop n ?nf) = set (take n ?nf)" for n by blast
  moreover have "set (messages_of (mbID r) (snd (delete_where (count_retired db) db)))
      = {m \<in> set ?nf. \<not> (\<exists>k. RetentionCount r = Some k \<and> m \<in> set (drop (nat k) ?nf))}"
  proof -
    have "count_retired db m \<longleftrightarrow> (\<exists>k. RetentionCount r = Some k \<and> m \<in> set (drop (nat k) ?nf))"
      if "m \<in> set (messages_of (mbID r) db)" for m
      using that by (intro count_retired_iff [OF inv _ r]) (auto simp: messages_of_def)
    moreover have "set (messages_of (mbID r) (snd (delete_where (count_retired db) db)))
        = {m \<in> set (messages_of (mbID r) db). \<not> count_retired db m}"
      by (auto simp: messages_of_def)
    ultimately show ?thesis unfolding nf by blast
  qed
  ultimately show ?thesis using nf by (cases "RetentionCount r") (simp_all add: set_diff_eq)
qed

text \<open>
  After a retention sweep a mailbox holds exactly what its rules allow: no message older than
  its retention days where those are positive, and of the rest, where it has a retention count,
  the newest that many by sequence number and no other; a mailbox without a count loses nothing to
  the count rule.
\<close>

theorem retention_sweep_result:
  assumes inv: "db_inv db" and ok: "faults db = []" and sweep: "pg_EnforceAllRetention db = ((n, None), db')"
    and r: "r \<in> set (mailboxes db)"
  defines "fresh \<equiv> filter (\<lambda>m. \<not> (0 < RetentionDays r \<and> smCreatedAt m < clock db - day_ms * RetentionDays r)) (messages_of (mbID r) db)"
  shows "set (messages_of (mbID r) db') =
     (case RetentionCount r of None \<Rightarrow> set fresh
      | Some k \<Rightarrow> set (take (nat k) (sort_key (\<lambda>m. - smSequenceNumber m) fresh)))"
proof -
  let ?d1 = "snd (delete_where (time_retired db) db)"
  have first: "delete_stmt time_retired db = (Inr (fst (delete_where (time_retired db) db)), ?d1)"
    using ok by (simp add: delete_stmt_def Let_def case_prod_unfold)
  have inv1: "db_inv ?d1" using inv by (rule delete_where_inv)
  have f1: "faults ?d1 = []" using ok by simp
  have second: "\<not> negative_offset ?d1" "db' = snd (delete_where (count_retired ?d1) ?d1)"
    using sweep first f1 by (auto simp: pg_EnforceAllRetention_def Let_def case_prod_unfold split: if_splits)
  let ?r = "deleted_trigger (filter (time_retired db) (stored_messages db)) r"
  have r1: "?r \<in> set (mailboxes ?d1)" using r by simp
  have "time_retired db m \<longleftrightarrow> 0 < RetentionDays r \<and> smCreatedAt m < clock db - day_ms * RetentionDays r"
    if "smMailboxID m = mbID r" for m
    using that r inv distinct_key_unique [of mbID "mailboxes db" _ r]
    unfolding time_retired_def list_ex_iff db_inv_def ids_ok_def by metis
  then have "messages_of (mbID r) ?d1 = fresh"
    by (auto simp: messages_of_def fresh_def intro!: filter_cong)
  then show ?thesis
    using count_sweep_messages [OF inv1 r1] second(2) by (simp add: newest_first_def split: option.splits)
qed

theorem retention_sweep_result_witness:
  "map smMessageID (stored_messages (snd (pg_EnforceAllRetention (snd (pg_StoreMessage 1 (demo_msg ''m2'' 3) demo_db))))) = [''m2'']
   \<and> map smMessageID (take (nat 1) (sort_key (\<lambda>m. - smSequenceNumber m) (messages_of 1 (snd (pg_StoreMessage 1 (demo_msg ''m2'' 3) demo_db))))) = [''m2'']
   \<and> set (messages_of 1 (snd (pg_EnforceAllRetention (snd (pg_StoreMessage 1 (demo_msg ''m2'' 3) demo_db)))))
     = set (take (nat 1) (sort_key (\<lambda>m. - smSequenceNumber m) (messages_of 1 (snd (pg_StoreMessage 1 (demo_msg ''m2'' 3) demo_db)))))"
proof (intro conjI)
  let ?d = "snd (pg_StoreMessage 1 (demo_msg ''m2'' 3) demo_db)"
  let ?r = "hd (mailboxes ?d)"
  show "map smMessageID (stored_messages (snd (pg_EnforceAllRetention ?d))) = [''m2'']" by code_simp
  show "map smMessageID (take (nat 1) (sort_key (\<lambda>m. - smSequenceNumber m) (messages_of 1 ?d))) = [''m2'']" by code_simp
  have inv: "db_inv ?d" by (rule pg_StoreMessage_inv [OF demo_db_inv])
  have ok: "faults ?d = []" by code_simp
  have "fst (pg_EnforceAllRetention ?d) = (1, None)" by code_simp
  then have sweep: "pg_EnforceAllRetention ?d = ((1, None), snd (pg_EnforceAllRetention ?d))" by (rule result_eq)
  have ne: "mailboxes ?d \<noteq> []" by code_simp
  then have r: "?r \<in> set (mailboxes ?d)" by simp
  have vals: "mbID ?r = 1" "RetentionCount ?r = Some 1" by code_simp+
  have "filter (\<lambda>m. \<not> (0 < RetentionDays ?r \<and> smCreatedAt m < clock ?d - day_ms * RetentionDays ?r)) (messages_of 1 ?d) = messages_of 1 ?d"
    by code_simp
  then show "set (messages_of 1 (snd (pg_EnforceAllRetention ?d))) = set (take (nat 1) (sort_key (\<lambda>m. - smSequenceNumber m) (messages_of 1 ?d)))"
    using retention_sweep_result [OF inv ok sweep r] unfolding vals by (simp del: nat_1 One_nat_def)
qed


section \<open>Repair of drifted counters\<close>

text \<open>
  The reconciliation repairs the counters of any database, drifted or not: afterwards every
  mailbox's message and byte counters are the true ones, the reply is the number of mailboxes that
  were wrong, and messages are untouched.
\<close>

theorem reconcile_repairs:
  assumes ok: "faults db = []"
  shows "\<exists>db'. pg_ReconcileMessageCounts db = ((int (length (filter (\<lambda>r.
        MessageCount r \<noteq> true_count (mbID r) db \<or> message_bytes r \<noteq> true_bytes (mbID r) db) (mailboxes db))), None), db')
     \<and> counters_ok db' \<and> stored_messages db' = stored_messages db"
proof -
  let ?bad = "\<lambda>r. MessageCount r \<noteq> true_count (mbID r) db \<or> message_bytes r \<noteq> true_bytes (mbID r) db"
  let ?fix = "\<lambda>b r. if drifted b db r then r\<lparr>MessageCount := true_count (mbID r) db, message_bytes := true_bytes (mbID r) db\<rparr> else r"
  let ?d1 = "db\<lparr>mailboxes := map (?fix True) (mailboxes db)\<rparr>"
  let ?d2 = "db\<lparr>mailboxes := map (?fix False) (map (?fix True) (mailboxes db))\<rparr>"
  have same: "true_count k (db\<lparr>mailboxes := x\<rparr>) = true_count k db" "true_bytes k (db\<lparr>mailboxes := x\<rparr>) = true_bytes k db"
      "messages_of k (db\<lparr>mailboxes := x\<rparr>) = messages_of k db" "drifted b (db\<lparr>mailboxes := x\<rparr>) = drifted b db" for k b x
    by (simp_all add: true_count_def true_bytes_def messages_of_def drifted_def fun_eq_iff)
  have after: "drifted False db (?fix True r) = drifted False db r" for r by (auto simp: drifted_def)
  have r1: "reconcile_stmt True db = (Inr (int (length (filter (drifted True db) (mailboxes db)))), ?d1)"
    using ok by (simp add: reconcile_stmt_def)
  have r2: "reconcile_stmt False ?d1 = (Inr (int (length (filter (drifted False db) (mailboxes db)))), ?d2)"
    using ok by (simp add: reconcile_stmt_def same filter_map comp_def after)
  have "length (filter ?bad rs) = length (filter (drifted True db) rs) + length (filter (drifted False db) rs)" for rs
    by (induction rs) (auto simp: drifted_def)
  moreover have "counters_ok ?d2" by (auto simp: counters_ok_def same drifted_def)
  ultimately show ?thesis using r1 r2 by (simp add: pg_ReconcileMessageCounts_def)
qed

theorem reconcile_repairs_witness:
  "fst (pg_ReconcileMessageCounts (update_mailbox_rows (\<lambda>r. r\<lparr>MessageCount := 7\<rparr>) 2 demo_db)) = (1, None)
   \<and> counters_ok (snd (pg_ReconcileMessageCounts (update_mailbox_rows (\<lambda>r. r\<lparr>MessageCount := 7\<rparr>) 2 demo_db)))"
proof
  let ?d = "update_mailbox_rows (\<lambda>r. r\<lparr>MessageCount := 7\<rparr>) 2 demo_db"
  show "fst (pg_ReconcileMessageCounts ?d) = (1, None)" by code_simp
  have "faults ?d = []" by code_simp
  then show "counters_ok (snd (pg_ReconcileMessageCounts ?d))"
    using reconcile_repairs [of ?d] by auto
qed

end
