(* ===== verification/Json.thy ===== *)
theory Json
  imports Wire "HOL-Library.Monad_Syntax"
begin

text \<open>
  The JSON form of a message (\<^verbatim>\<open>src/pkg/wire/message.go\<close>, \<^verbatim>\<open>ToJSON\<close> and \<^verbatim>\<open>MessageFromJSON\<close>) with
  the two standard encoders it rests on: base64 (\<^verbatim>\<open>encoding/base64\<close>, \<^verbatim>\<open>StdEncoding\<close>), written
  out in full, and \<^verbatim>\<open>encoding/json\<close>, of which the mapping between a struct and a JSON value is
  written out (tags, \<^verbatim>\<open>omitempty\<close>, case-insensitive keys, last key wins, null keeps the zero
  value, ranges of the integer kinds) and the text of a JSON value is a parameter, a pair of an
  encoder and a decoder that agree on values whose strings are valid UTF-8.
\<close>

section \<open>Base64\<close>

definition b64_alphabet :: string where
  "b64_alphabet = ''ABCDEFGHIJKLMNOPQRSTUVWXYZabcdefghijklmnopqrstuvwxyz0123456789+/''"

definition b64_char :: "nat \<Rightarrow> char" where
  "b64_char n = b64_alphabet ! (n mod 64)"

definition b64_val :: "char \<Rightarrow> nat option" where
  "b64_val c = index_char c b64_alphabet"

definition pad :: char where
  "pad = CHR ''=''"

fun EncodeToString :: "bytes \<Rightarrow> string" where
  "EncodeToString [] = []"
| "EncodeToString [a] =
     (let n = unat a * 65536 in [b64_char (n div 262144), b64_char (n div 4096), pad, pad])"
| "EncodeToString [a, b] =
     (let n = unat a * 65536 + unat b * 256 in
      [b64_char (n div 262144), b64_char (n div 4096), b64_char (n div 64), pad])"
| "EncodeToString (a # b # c # xs) =
     (let n = unat a * 65536 + unat b * 256 + unat c in
      [b64_char (n div 262144), b64_char (n div 4096), b64_char (n div 64), b64_char n]
      @ EncodeToString xs)"

definition b64_group :: "nat \<Rightarrow> nat \<Rightarrow> nat \<Rightarrow> nat \<Rightarrow> bytes" where
  "b64_group p q r s =
     (let v = ((p * 64 + q) * 64 + r) * 64 + s in
      [word_of_nat (v div 65536), word_of_nat (v div 256), word_of_nat v])"

fun b64_quads :: "string \<Rightarrow> bytes option" where
  "b64_quads [] = Some []"
| "b64_quads (a # b # c # d # xs) =
     (if c = pad \<and> d = pad then
        (if xs = [] then do { p \<leftarrow> b64_val a; q \<leftarrow> b64_val b; Some (take 1 (b64_group p q 0 0)) }
         else None)
      else if d = pad then
        (if xs = [] then
           do { p \<leftarrow> b64_val a; q \<leftarrow> b64_val b; r \<leftarrow> b64_val c; Some (take 2 (b64_group p q r 0)) }
         else None)
      else
        do { p \<leftarrow> b64_val a; q \<leftarrow> b64_val b; r \<leftarrow> b64_val c; s \<leftarrow> b64_val d;
             rest \<leftarrow> b64_quads xs; Some (b64_group p q r s @ rest) })"
| "b64_quads _ = None"

text \<open>The decoder skips carriage returns and newlines wherever they stand.\<close>

definition DecodeString :: "string \<Rightarrow> bytes option" where
  "DecodeString s = b64_quads (filter (\<lambda>c. c \<noteq> CHR 0x0A \<and> c \<noteq> CHR 0x0D) s)"

lemma b64_val_char_all: "list_all (\<lambda>n. b64_val (b64_char n) = Some n) [0..<64]"
  by code_simp

lemma b64_chars_plain: "list_all (\<lambda>c. c \<noteq> pad \<and> c \<noteq> CHR 0x0A \<and> c \<noteq> CHR 0x0D) b64_alphabet"
  by code_simp

lemma b64_val_char [simp]: "b64_val (b64_char n) = Some (n mod 64)"
proof -
  have "b64_val (b64_char (n mod 64)) = Some (n mod 64)"
    using b64_val_char_all by (auto simp: list_all_iff)
  then show ?thesis by (simp add: b64_char_def)
qed

lemma b64_char_in: "b64_char n \<in> set b64_alphabet"
proof -
  have "n mod 64 < length b64_alphabet" by (simp add: b64_alphabet_def)
  then show ?thesis unfolding b64_char_def by (rule nth_mem)
qed

lemma b64_char_plain [simp]:
  "b64_char n \<noteq> pad" "b64_char n \<noteq> CHR 0x0A" "b64_char n \<noteq> CHR 0x0D"
  using b64_chars_plain b64_char_in [of n] by (auto simp: list_all_iff)

lemma pad_not_newline [simp]: "pad \<noteq> CHR 0x0A" "pad \<noteq> CHR 0x0D"
  by (simp_all add: pad_def)

lemma EncodeToString_no_newline:
  "filter (\<lambda>c. c \<noteq> CHR 0x0A \<and> c \<noteq> CHR 0x0D) (EncodeToString xs) = EncodeToString xs"
  by (induction xs rule: EncodeToString.induct) (simp_all add: Let_def)

lemma base64_digits:
  assumes "(n :: nat) < 16777216"
  shows "((n div 262144 mod 64 * 64 + n div 4096 mod 64) * 64 + n div 64 mod 64) * 64 + n mod 64 = n"
proof -
  have d1: "n div 4096 = n div 64 div 64" and d2: "n div 262144 = n div 64 div 64 div 64"
    by (simp_all add: div_mult2_eq [symmetric])
  have "n div 262144 < 64" using assms by (simp add: div_less_iff_less_mult)
  then have "n div 64 div 64 div 64 mod 64 = n div 64 div 64 div 64" by (simp add: d2)
  then show ?thesis unfolding d1 d2 by (simp only: div_mult_mod_eq)
qed

lemma byte_split:
  fixes a b c :: byte
  shows "(unat a * 65536 + unat b * 256 + unat c) div 65536 = unat a"
    and "(unat a * 65536 + unat b * 256 + unat c) div 256 mod 256 = unat b"
    and "(unat a * 65536 + unat b * 256 + unat c) mod 256 = unat c"
    and "unat a * 65536 + unat b * 256 + unat c < 16777216"
proof -
  have bnd: "unat a < 256" "unat b < 256" "unat c < 256"
    using unsigned_less [of a] unsigned_less [of b] unsigned_less [of c] by simp_all
  show "(unat a * 65536 + unat b * 256 + unat c) div 65536 = unat a"
    by (rule div_nat_eqI) (use bnd in simp)+
  have "(unat a * 65536 + unat b * 256 + unat c) div 256 = unat a * 256 + unat b"
    by (rule div_nat_eqI) (use bnd in simp)+
  then show "(unat a * 65536 + unat b * 256 + unat c) div 256 mod 256 = unat b"
    using bnd by simp
  have "unat a * 65536 + unat b * 256 + unat c = (unat a * 256 + unat b) * 256 + unat c"
    by simp
  then show "(unat a * 65536 + unat b * 256 + unat c) mod 256 = unat c"
    using bnd by (simp only: mod_mult_self3 mod_less)
  show "unat a * 65536 + unat b * 256 + unat c < 16777216"
    using bnd by linarith
qed

lemma word_of_nat_mod256: "(word_of_nat (n mod 256) :: byte) = word_of_nat n"
  by (simp add: word_of_nat_eq_iff take_bit_eq_mod)

lemma b64_group_digits:
  fixes a b c :: byte
  defines "n \<equiv> unat a * 65536 + unat b * 256 + unat c"
  shows "b64_group (n div 262144 mod 64) (n div 4096 mod 64) (n div 64 mod 64) (n mod 64) = [a, b, c]"
proof -
  have v: "((n div 262144 mod 64 * 64 + n div 4096 mod 64) * 64 + n div 64 mod 64) * 64 + n mod 64 = n"
    unfolding n_def by (rule base64_digits [OF byte_split(4)])
  have "(word_of_nat (n div 256) :: byte) = word_of_nat (n div 256 mod 256)"
    and "(word_of_nat n :: byte) = word_of_nat (n mod 256)"
    by (simp_all only: word_of_nat_mod256)
  then show ?thesis
    unfolding b64_group_def Let_def v using byte_split [of a b c] by (simp add: n_def)
qed

lemma DecodeString_EncodeToString: "DecodeString (EncodeToString xs) = Some xs"
proof -
  have "b64_quads (EncodeToString xs) = Some xs"
  proof (induction xs rule: EncodeToString.induct)
    case 1
    then show ?case by simp
  next
    case (2 a)
    show ?case using b64_group_digits [of a 0 0] by (simp add: Let_def)
  next
    case (3 a b)
    show ?case using b64_group_digits [of a b 0] by (simp add: Let_def)
  next
    case (4 a b c xs)
    then show ?case using b64_group_digits [of a b c] by (simp add: Let_def)
  qed
  then show ?thesis by (simp add: DecodeString_def EncodeToString_no_newline)
qed


section \<open>JSON values and struct fields\<close>

text \<open>A number literal that is an integer is a \<open>JNum\<close>; any other number is a \<open>JFrac\<close> with its text.\<close>

datatype json =
    JNull
  | JBool bool
  | JNum int
  | JFrac string
  | JStr string
  | JArr "json list"
  | JObj "(string \<times> json) list"

text \<open>
  \<^verbatim>\<open>encoding/json\<close> matches an object key with a field name up to Unicode simple folding, under
  which the only non-ASCII characters that equal an ASCII letter are the Kelvin sign
  (E2 84 AA, a k) and the long s (C5 BF, an s).
\<close>

fun fold_name :: "string \<Rightarrow> string" where
  "fold_name [] = []"
| "fold_name (c # cs) =
     (case cs of
        d # ds \<Rightarrow>
          (if c = CHR 0xC5 \<and> d = CHR 0xBF then CHR ''s'' # fold_name ds
           else (case ds of
             e # es \<Rightarrow>
               (if c = CHR 0xE2 \<and> d = CHR 0x84 \<and> e = CHR 0xAA then CHR ''k'' # fold_name es
                else lower_char c # fold_name cs)
           | [] \<Rightarrow> lower_char c # fold_name cs))
      | [] \<Rightarrow> [lower_char c])"

declare fold_name.simps [simp del]

text \<open>
  One struct field: every matching key is decoded in turn, so the last one stands and any of
  the wrong kind is an \<^verbatim>\<open>UnmarshalTypeError\<close> (\<open>None\<close>); null leaves the field as it is.
\<close>

definition field_values :: "string \<Rightarrow> (string \<times> json) list \<Rightarrow> json list" where
  "field_values name kvs =
     map snd (filter (\<lambda>kv. fold_name (fst kv) = fold_name name \<and> snd kv \<noteq> JNull) kvs)"

definition json_field :: "(json \<Rightarrow> 'a option) \<Rightarrow> 'a \<Rightarrow> string \<Rightarrow> (string \<times> json) list \<Rightarrow> 'a option" where
  "json_field dec zero name kvs =
     (let vs = field_values name kvs in
      if list_all (\<lambda>v. dec v \<noteq> None) vs then (if vs = [] then Some zero else dec (last vs))
      else None)"

fun dec_string :: "json \<Rightarrow> string option" where
  "dec_string (JStr s) = Some s"
| "dec_string _ = None"

fun dec_bool :: "json \<Rightarrow> bool option" where
  "dec_bool (JBool b) = Some b"
| "dec_bool _ = None"

fun dec_int64 :: "json \<Rightarrow> int option" where
  "dec_int64 (JNum n) = (if - (2 ^ 63) \<le> n \<and> n < 2 ^ 63 then Some n else None)"
| "dec_int64 _ = None"

fun dec_uint :: "json \<Rightarrow> ('a :: len) word option" where
  "dec_uint (JNum n) = (if 0 \<le> n \<and> n < 2 ^ LENGTH('a) then Some (word_of_int n) else None)"
| "dec_uint _ = None"

lemma dec_uint_uint [simp]: "dec_uint (JNum (uint w)) = Some w"
  using uint_bounded [of w] by simp

declare dec_uint.simps [simp del]


section \<open>Messages as JSON (\<open>message.go\<close>)\<close>

definition omitempty :: "bool \<Rightarrow> string \<Rightarrow> json \<Rightarrow> (string \<times> json) list" where
  "omitempty is_zero name v = (if is_zero then [] else [(name, v)])"

definition message_fields :: "Message \<Rightarrow> (string \<times> json) list" where
  "message_fields m =
     [(''messageId'', JStr (MessageID m)),
      (''recipientPeerId'', JStr (RecipientPeerID m)),
      (''senderPeerId'', JStr (SenderPeerID m)),
      (''priority'', JNum (uint (Priority m))),
      (''expiryTimestamp'', JNum (ExpiryTimestamp m)),
      (''hopCount'', JNum (HopCount m)),
      (''flags'', JNum (uint (Flags m))),
      (''createdTimestamp'', JNum (CreatedTimestamp m))]
     @ omitempty (FolderPath m = []) ''folderPath'' (JStr (FolderPath m))
     @ omitempty (SequenceNumber m = 0) ''sequenceNumber'' (JNum (uint (SequenceNumber m)))
     @ omitempty (MsgFlags m = 0) ''messageFlags'' (JNum (uint (MsgFlags m)))
     @ omitempty (\<not> Persistent m) ''persistent'' (JBool (Persistent m))
     @ [(''payload'', JStr (EncodeToString (Payload m)))]"

definition ToJSON :: "Message \<Rightarrow> json" where
  "ToJSON m = JObj (message_fields m)"

definition unmarshal_message :: "(string \<times> json) list \<Rightarrow> (Message \<times> string) option" where
  "unmarshal_message kvs = do {
     mid \<leftarrow> json_field dec_string [] ''messageId'' kvs;
     rcp \<leftarrow> json_field dec_string [] ''recipientPeerId'' kvs;
     sen \<leftarrow> json_field dec_string [] ''senderPeerId'' kvs;
     pri \<leftarrow> json_field dec_uint 0 ''priority'' kvs;
     expi \<leftarrow> json_field dec_int64 0 ''expiryTimestamp'' kvs;
     hop \<leftarrow> json_field dec_int64 0 ''hopCount'' kvs;
     fl \<leftarrow> json_field dec_uint 0 ''flags'' kvs;
     cre \<leftarrow> json_field dec_int64 0 ''createdTimestamp'' kvs;
     fol \<leftarrow> json_field dec_string [] ''folderPath'' kvs;
     sq \<leftarrow> json_field dec_uint 0 ''sequenceNumber'' kvs;
     mfl \<leftarrow> json_field dec_uint 0 ''messageFlags'' kvs;
     per \<leftarrow> json_field dec_bool False ''persistent'' kvs;
     b64 \<leftarrow> json_field dec_string [] ''payload'' kvs;
     Some (\<lparr>MessageID = mid, RecipientPeerID = rcp, SenderPeerID = sen, Payload = [],
            Priority = pri, ExpiryTimestamp = expi, HopCount = hop, Flags = fl,
            CreatedTimestamp = cre, FolderPath = fol, SequenceNumber = sq, MsgFlags = mfl,
            Persistent = per\<rparr>, b64)
   }"

definition MessageFromJSON :: "json \<Rightarrow> err + Message" where
  "MessageFromJSON j =
     (case (case j of JObj kvs \<Rightarrow> unmarshal_message kvs | JNull \<Rightarrow> unmarshal_message [] | _ \<Rightarrow> None) of
        None \<Rightarrow> Inl (Wrapped ''unmarshal message: '' (JsonUnmarshalTypeError ''message'') [])
      | Some (m, b64) \<Rightarrow>
          (case DecodeString b64 of
             None \<Rightarrow> Inl (Wrapped ''decode payload: '' (PlainError ''illegal base64 data'') [])
           | Some payload \<Rightarrow> Inr (m\<lparr>Payload := payload\<rparr>)))"

text \<open>Go's \<^verbatim>\<open>int\<close> fields hold 64-bit values; a \<open>Message\<close> of the program satisfies this.\<close>

definition int64_ok :: "int \<Rightarrow> bool" where
  "int64_ok n \<longleftrightarrow> - (2 ^ 63) \<le> n \<and> n < 2 ^ 63"

definition message_int64 :: "Message \<Rightarrow> bool" where
  "message_int64 m \<longleftrightarrow> int64_ok (ExpiryTimestamp m) \<and> int64_ok (HopCount m) \<and> int64_ok (CreatedTimestamp m)"

definition message_keys :: "string list" where
  "message_keys = [''messageId'', ''recipientPeerId'', ''senderPeerId'', ''priority'',
     ''expiryTimestamp'', ''hopCount'', ''flags'', ''createdTimestamp'', ''folderPath'',
     ''sequenceNumber'', ''messageFlags'', ''persistent'', ''payload'']"

lemma message_keys_fold:
  "fold_name ''messageId'' = ''messageid''"
  "fold_name ''recipientPeerId'' = ''recipientpeerid''"
  "fold_name ''senderPeerId'' = ''senderpeerid''"
  "fold_name ''priority'' = ''priority''"
  "fold_name ''expiryTimestamp'' = ''expirytimestamp''"
  "fold_name ''hopCount'' = ''hopcount''"
  "fold_name ''flags'' = ''flags''"
  "fold_name ''createdTimestamp'' = ''createdtimestamp''"
  "fold_name ''folderPath'' = ''folderpath''"
  "fold_name ''sequenceNumber'' = ''sequencenumber''"
  "fold_name ''messageFlags'' = ''messageflags''"
  "fold_name ''persistent'' = ''persistent''"
  "fold_name ''payload'' = ''payload''"
  by code_simp+

lemma field_values_Nil: "field_values n [] = []"
  by (simp add: field_values_def)

lemma field_values_Cons:
  "field_values n ((k, v) # kvs) =
     (if fold_name k = fold_name n \<and> v \<noteq> JNull then v # field_values n kvs else field_values n kvs)"
  by (simp add: field_values_def)

lemma field_values_append: "field_values n (xs @ ys) = field_values n xs @ field_values n ys"
  by (simp add: field_values_def)

lemma field_values_omitempty:
  "field_values n (omitempty z k v) =
     (if fold_name k = fold_name n \<and> v \<noteq> JNull then (if z then [] else [v]) else [])"
  by (simp add: omitempty_def field_values_def)

lemmas field_values_simps = field_values_Nil field_values_Cons field_values_append
  field_values_omitempty message_keys_fold

lemma field_values_message:
  "field_values ''messageId'' (message_fields m) = [JStr (MessageID m)]"
  "field_values ''recipientPeerId'' (message_fields m) = [JStr (RecipientPeerID m)]"
  "field_values ''senderPeerId'' (message_fields m) = [JStr (SenderPeerID m)]"
  "field_values ''priority'' (message_fields m) = [JNum (uint (Priority m))]"
  "field_values ''expiryTimestamp'' (message_fields m) = [JNum (ExpiryTimestamp m)]"
  "field_values ''hopCount'' (message_fields m) = [JNum (HopCount m)]"
  "field_values ''flags'' (message_fields m) = [JNum (uint (Flags m))]"
  "field_values ''createdTimestamp'' (message_fields m) = [JNum (CreatedTimestamp m)]"
  "field_values ''folderPath'' (message_fields m) = (if FolderPath m = [] then [] else [JStr (FolderPath m)])"
  "field_values ''sequenceNumber'' (message_fields m) = (if SequenceNumber m = 0 then [] else [JNum (uint (SequenceNumber m))])"
  "field_values ''messageFlags'' (message_fields m) = (if MsgFlags m = 0 then [] else [JNum (uint (MsgFlags m))])"
  "field_values ''persistent'' (message_fields m) = (if \<not> Persistent m then [] else [JBool (Persistent m)])"
  "field_values ''payload'' (message_fields m) = [JStr (EncodeToString (Payload m))]"
  unfolding message_fields_def by (simp_all add: field_values_simps split del: if_split)

lemma json_field_single: "field_values n kvs = [v] \<Longrightarrow> json_field dec z n kvs = dec v"
  by (auto simp: json_field_def Let_def)

lemma json_field_omit:
  "field_values n kvs = (if c then [] else [v]) \<Longrightarrow> json_field dec z n kvs = (if c then Some z else dec v)"
  by (auto simp: json_field_def Let_def)

lemma unmarshal_message_fields:
  assumes "message_int64 m"
  shows "unmarshal_message (message_fields m) = Some (m\<lparr>Payload := []\<rparr>, EncodeToString (Payload m))"
  using assms unfolding unmarshal_message_def
  by (simp add: field_values_message(1-8,13) [THEN json_field_single]
      field_values_message(9-12) [THEN json_field_omit] message_int64_def int64_ok_def)

lemma MessageFromJSON_ToJSON:
  assumes "message_int64 m"
  shows "MessageFromJSON (ToJSON m) = Inr m"
  using unmarshal_message_fields [OF assms]
  by (simp add: MessageFromJSON_def ToJSON_def DecodeString_EncodeToString)


section \<open>JSON text\<close>

text \<open>
  The text of a JSON value. \<^verbatim>\<open>json.Marshal\<close> replaces bytes of a string that are not UTF-8, so the
  two agree on values whose strings (keys included) are valid UTF-8; \<open>json_text_ok\<close> says so of the
  values a statement is about.
\<close>

record json_text =
  json_enc :: "json \<Rightarrow> bytes"
  json_dec :: "bytes \<Rightarrow> err + json"

fun json_utf8 :: "json \<Rightarrow> bool" where
  "json_utf8 (JStr s) = valid_utf8 s"
| "json_utf8 (JArr xs) = list_all json_utf8 xs"
| "json_utf8 (JObj kvs) = list_all (\<lambda>kv. valid_utf8 (fst kv) \<and> json_utf8 (snd kv)) kvs"
| "json_utf8 _ = True"

definition json_text_ok :: "json_text \<Rightarrow> json list \<Rightarrow> bool" where
  "json_text_ok T js \<longleftrightarrow> list_all (\<lambda>j. json_utf8 j \<longrightarrow> json_dec T (json_enc T j) = Inr j) js"

definition message_utf8 :: "Message \<Rightarrow> bool" where
  "message_utf8 m \<longleftrightarrow> valid_utf8 (MessageID m) \<and> valid_utf8 (RecipientPeerID m)
     \<and> valid_utf8 (SenderPeerID m) \<and> valid_utf8 (FolderPath m)"

definition ToJSON_bytes :: "json_text \<Rightarrow> Message \<Rightarrow> bytes" where
  "ToJSON_bytes T m = json_enc T (ToJSON m)"

definition MessageFromJSON_bytes :: "json_text \<Rightarrow> bytes \<Rightarrow> err + Message" where
  "MessageFromJSON_bytes T data =
     (case json_dec T data of
        Inl e \<Rightarrow> Inl (Wrapped ''unmarshal message: '' e [])
      | Inr j \<Rightarrow> MessageFromJSON j)"

lemma utf8_ok_ascii: "list_all (\<lambda>n. n < 128) xs \<Longrightarrow> utf8_ok xs"
  by (induction xs) auto

lemma message_keys_utf8: "list_all valid_utf8 message_keys"
  by code_simp

lemma b64_alphabet_ascii: "list_all (\<lambda>c. (of_char c :: nat) < 128) b64_alphabet"
  by code_simp

lemma EncodeToString_ascii: "list_all (\<lambda>c. (of_char c :: nat) < 128) (EncodeToString xs)"
proof (induction xs rule: EncodeToString.induct)
qed (use b64_alphabet_ascii b64_char_in in \<open>auto simp: Let_def list_all_iff pad_def\<close>)

lemma EncodeToString_utf8: "valid_utf8 (EncodeToString xs)"
  unfolding valid_utf8_def
  by (rule utf8_ok_ascii) (use EncodeToString_ascii [of xs] in \<open>simp add: list_all_iff\<close>)

lemma json_utf8_ToJSON: "message_utf8 m \<Longrightarrow> json_utf8 (ToJSON m)"
  using message_keys_utf8
  by (simp add: ToJSON_def message_fields_def omitempty_def message_keys_def message_utf8_def EncodeToString_utf8)

lemma MessageFromJSON_bytes_ToJSON:
  assumes "json_text_ok T [ToJSON m]" "message_utf8 m" "message_int64 m"
  shows "MessageFromJSON_bytes T (ToJSON_bytes T m) = Inr m"
  using assms json_utf8_ToJSON [OF assms(2)] MessageFromJSON_ToJSON [OF assms(3)]
  by (simp add: json_text_ok_def MessageFromJSON_bytes_def ToJSON_bytes_def)


section \<open>Properties\<close>

text \<open>
  Decoding the JSON form of a message gives the message back, every field of it and the
  payload byte for byte, including the fields \<^verbatim>\<open>omitempty\<close> leaves out.
\<close>

theorem message_json_roundtrip:
  assumes "message_int64 m"
  shows "MessageFromJSON (ToJSON m) = Inr m"
  by (rule MessageFromJSON_ToJSON [OF assms])

theorem message_json_roundtrip_witness:
  "MessageFromJSON (ToJSON (NewMessageWithDefaultExpiry ''m1'' 5 ''alice'' ''bob'' [0, 255, 16, 3]))
     = Inr (NewMessageWithDefaultExpiry ''m1'' 5 ''alice'' ''bob'' [0, 255, 16, 3])"
  by (rule message_json_roundtrip)
    (simp add: message_int64_def int64_ok_def NewMessageWithDefaultExpiry_def NewMessage_def day_ms_def)

end
