(* ===== verification/Mailboxes.thy ===== *)
theory Mailboxes
  imports Store_Cleanup Json
begin

text \<open>
  The mailbox types (\<^verbatim>\<open>src/internal/mda/mailboxes\<close>): who may store into and read a private, shared,
  public or claim mailbox, the page a read returns, and the rolling window of a capped mailbox.
  The contract of the Go interface \<^verbatim>\<open>Mailbox\<close> is the locale \<open>mailbox_contract\<close>, which each of the
  four types interprets.
\<close>

text \<open>A call that may fail, then what follows it with its result.\<close>

definition and_then :: "'a dbm \<Rightarrow> ('a \<Rightarrow> 'b dbm) \<Rightarrow> 'b dbm" where
  "and_then m k db = (case m db of (Inl e, db') \<Rightarrow> (Inl e, db') | (Inr x, db') \<Rightarrow> k x db')"

definition fail :: "err \<Rightarrow> 'a dbm" where
  "fail e db = (Inl e, db)"

definition DefaultPageSize :: int where "DefaultPageSize = 100"
definition MaxPageSize :: int where "MaxPageSize = 1000"

record RetrieveOpts =
  optFromSequence :: "int option"
  optMaxMessages :: "int option"
  optMinPriority :: "MessagePriority option"
  optMaxBytes :: int

datatype Mailbox =
    PrivateMailbox MailboxRecord
  | SharedMailbox MailboxRecord
  | PublicMailbox MailboxRecord
  | ClaimMailbox MailboxRecord

fun Record :: "Mailbox \<Rightarrow> MailboxRecord" where
  "Record (PrivateMailbox r) = r"
| "Record (SharedMailbox r) = r"
| "Record (PublicMailbox r) = r"
| "Record (ClaimMailbox r) = r"

fun is_MailboxFullError :: "err \<Rightarrow> bool" where
  "is_MailboxFullError (MailboxFullError c m) = True"
| "is_MailboxFullError _ = False"

definition storeMessage :: "MailboxRecord \<Rightarrow> Message \<Rightarrow> unit dbm" where
  "storeMessage record msg db =
     (case pg_StoreMessage (mbID record) msg db of
        (Inr _, db1) \<Rightarrow> (Inr (), db1)
      | (Inl e, db1) \<Rightarrow>
          if errors_as is_MailboxFullError e = None \<or> RetentionCount record = None then (Inl e, db1)
          else (case pg_EnforceRetentionPolicy record db1 of
                  (Inl perr, db2) \<Rightarrow> (Inl (Wrapped ''prune full mailbox: '' perr []), db2)
                | (Inr _, db2) \<Rightarrow>
                    (case pg_StoreMessage (mbID record) msg db2 of
                       (Inl e', db3) \<Rightarrow> (Inl e', db3)
                     | (Inr _, db3) \<Rightarrow> (Inr (), db3))))"

text \<open>\<^verbatim>\<open>trimToBytes\<close>: the loop, with the messages before the current one and their size so far.\<close>

fun trim_loop :: "json_text \<Rightarrow> int \<Rightarrow> nat \<Rightarrow> int \<Rightarrow> Message list \<Rightarrow> nat \<times> bool" where
  "trim_loop T maxBytes i acc [] = (i, False)"
| "trim_loop T maxBytes i acc (m # ms) =
     (let acc' = acc + 4 + int (length (ToJSON_bytes T m)) in
      if maxBytes < acc' \<and> 0 < i then (i, True) else trim_loop T maxBytes (i + 1) acc' ms)"

definition trimToBytes :: "json_text \<Rightarrow> Message list \<Rightarrow> int \<Rightarrow> Message list \<times> bool" where
  "trimToBytes T messages maxBytes =
     (let (n, truncated) = trim_loop T maxBytes 0 0 messages in (take n messages, truncated))"

definition page_limit :: "RetrieveOpts \<Rightarrow> int" where
  "page_limit opts =
     (let limit = (case optMaxMessages opts of Some n \<Rightarrow> if 0 < n then n else DefaultPageSize | None \<Rightarrow> DefaultPageSize)
      in if MaxPageSize < limit then MaxPageSize else limit)"

definition cut_page :: "json_text \<Rightarrow> RetrieveOpts \<Rightarrow> Message list \<Rightarrow> Message list \<times> bool" where
  "cut_page T opts messages =
     (let limit = page_limit opts;
          hasMore = (limit < int (length messages));
          messages1 = (if hasMore then take (nat limit) messages else messages)
      in if 0 < optMaxBytes opts
         then (let (kept, truncated) = trimToBytes T messages1 (optMaxBytes opts) in (kept, hasMore \<or> truncated))
         else (messages1, hasMore))"

definition fetchPage :: "json_text \<Rightarrow> MailboxRecord \<Rightarrow> int option \<Rightarrow> RetrieveOpts \<Rightarrow> (Message list \<times> bool) dbm" where
  "fetchPage T record from opts =
     and_then (pg_RetrieveMessages (mbID record) from (Some (page_limit opts + 1)) (optMinPriority opts))
       (\<lambda>messages db. (Inr (cut_page T opts messages), db))"


section \<open>The four types\<close>

definition private_StoreMessage :: "MailboxRecord \<Rightarrow> Message \<Rightarrow> unit dbm" where
  "private_StoreMessage record msg =
     (if RecipientPeerID msg \<noteq> OwnerPeerID record then fail (UnauthorizedError ''not mailbox owner'')
      else storeMessage record msg)"

definition private_RetrieveMessages :: "peer_lib \<Rightarrow> json_text \<Rightarrow> MailboxRecord \<Rightarrow> peer_id option \<Rightarrow> RetrieveOpts \<Rightarrow> (Message list \<times> bool) dbm" where
  "private_RetrieveMessages L T record readerID opts =
     (if (case readerID of Some p \<Rightarrow> peer_String L p \<noteq> OwnerPeerID record | None \<Rightarrow> False)
      then fail (UnauthorizedError ''not mailbox owner'')
      else fetchPage T record (optFromSequence opts) opts)"

definition write_checked :: "peer_lib \<Rightarrow> string \<Rightarrow> MailboxRecord \<Rightarrow> Message \<Rightarrow> unit dbm" where
  "write_checked L refusal record msg =
     (if SenderPeerID msg = OwnerPeerID record then storeMessage record msg
      else case peer_Decode L (SenderPeerID msg) of
        None \<Rightarrow> fail (Wrapped ''decode sender peer ID: '' (PlainError (peer_DecodeError L (SenderPeerID msg))) [])
      | Some senderID \<Rightarrow>
          and_then (pg_CheckAccess L (mbID record) senderID AccessWriteOnly)
            (\<lambda>canWrite. if \<not> canWrite then fail (UnauthorizedError refusal) else storeMessage record msg))"

definition shared_StoreMessage :: "peer_lib \<Rightarrow> MailboxRecord \<Rightarrow> Message \<Rightarrow> unit dbm" where
  "shared_StoreMessage L = write_checked L ''no write access to shared mailbox''"

definition public_StoreMessage :: "peer_lib \<Rightarrow> MailboxRecord \<Rightarrow> Message \<Rightarrow> unit dbm" where
  "public_StoreMessage L = write_checked L ''not authorized to publish to public mailbox''"

text \<open>
  A read through a cursor: the page, then the cursor moved to the sequence number of the last
  message of the page; a failure to move it is only logged.
\<close>

definition cursor_start :: "int \<Rightarrow> int option" where
  "cursor_start cursor = Some (if 0 < cursor then cursor + 1 else 1)"

definition start_sequence :: "peer_lib \<Rightarrow> MailboxRecord \<Rightarrow> peer_id \<Rightarrow> RetrieveOpts \<Rightarrow> int option dbm" where
  "start_sequence L record readerID opts =
     (case optFromSequence opts of
        Some s \<Rightarrow> (\<lambda>db. (Inr (Some s), db))
      | None \<Rightarrow> and_then (pg_GetCursor L (mbID record) readerID) (\<lambda>cursor db. (Inr (cursor_start cursor), db)))"

definition advance_cursor :: "peer_lib \<Rightarrow> MailboxRecord \<Rightarrow> peer_id \<Rightarrow> Message list \<times> bool \<Rightarrow> (Message list \<times> bool) dbm" where
  "advance_cursor L record readerID page db =
     (let messages = fst page in
      if messages \<noteq> [] \<and> 0 < SequenceNumber (last messages)
      then (Inr page, snd (pg_UpdateCursor L (mbID record) readerID (sint (SequenceNumber (last messages))) db))
      else (Inr page, db))"

definition shared_RetrieveMessages :: "peer_lib \<Rightarrow> json_text \<Rightarrow> MailboxRecord \<Rightarrow> peer_id option \<Rightarrow> RetrieveOpts \<Rightarrow> (Message list \<times> bool) dbm" where
  "shared_RetrieveMessages L T record reader opts =
     (case reader of
        None \<Rightarrow> fail (PlainError ''readerId required for shared mailbox'')
      | Some readerID \<Rightarrow>
          (let page = and_then (start_sequence L record readerID opts) (\<lambda>start.
                 and_then (fetchPage T record start opts) (advance_cursor L record readerID))
           in if peer_String L readerID = OwnerPeerID record then page
              else and_then (pg_CheckAccess L (mbID record) readerID AccessReadOnly)
                (\<lambda>canRead. if \<not> canRead then fail (UnauthorizedError ''no read access to shared mailbox'') else page)))"

definition public_RetrieveMessages :: "peer_lib \<Rightarrow> json_text \<Rightarrow> MailboxRecord \<Rightarrow> peer_id option \<Rightarrow> RetrieveOpts \<Rightarrow> (Message list \<times> bool) dbm" where
  "public_RetrieveMessages L T record reader opts =
     (case reader of
        None \<Rightarrow> fetchPage T record (case optFromSequence opts of Some s \<Rightarrow> Some s | None \<Rightarrow> Some 1) opts
      | Some readerID \<Rightarrow>
          and_then (start_sequence L record readerID opts) (\<lambda>start.
            and_then (fetchPage T record start opts) (advance_cursor L record readerID)))"

definition claim_StoreMessage :: "MailboxRecord \<Rightarrow> Message \<Rightarrow> unit dbm" where
  "claim_StoreMessage record msg =
     (if SenderPeerID msg \<noteq> OwnerPeerID record \<or> RecipientPeerID msg \<noteq> OwnerPeerID record
      then fail (UnauthorizedError ''only the owner stores into a claim mailbox'')
      else storeMessage record msg)"

definition claim_RetrieveMessages :: "peer_lib \<Rightarrow> json_text \<Rightarrow> MailboxRecord \<Rightarrow> peer_id option \<Rightarrow> RetrieveOpts \<Rightarrow> (Message list \<times> bool) dbm" where
  "claim_RetrieveMessages L T record readerID opts =
     (if (case readerID of Some p \<Rightarrow> peer_String L p \<noteq> OwnerPeerID record | None \<Rightarrow> False)
      then fail (UnauthorizedError ''a claim mailbox is listed by its owner only'')
      else fetchPage T record (optFromSequence opts) opts)"

fun mb_StoreMessage :: "peer_lib \<Rightarrow> Mailbox \<Rightarrow> Message \<Rightarrow> unit dbm" where
  "mb_StoreMessage L (PrivateMailbox r) = private_StoreMessage r"
| "mb_StoreMessage L (SharedMailbox r) = shared_StoreMessage L r"
| "mb_StoreMessage L (PublicMailbox r) = public_StoreMessage L r"
| "mb_StoreMessage L (ClaimMailbox r) = claim_StoreMessage r"

fun mb_RetrieveMessages :: "peer_lib \<Rightarrow> json_text \<Rightarrow> Mailbox \<Rightarrow> peer_id option \<Rightarrow> RetrieveOpts \<Rightarrow> (Message list \<times> bool) dbm" where
  "mb_RetrieveMessages L T (PrivateMailbox r) = private_RetrieveMessages L T r"
| "mb_RetrieveMessages L T (SharedMailbox r) = shared_RetrieveMessages L T r"
| "mb_RetrieveMessages L T (PublicMailbox r) = public_RetrieveMessages L T r"
| "mb_RetrieveMessages L T (ClaimMailbox r) = claim_RetrieveMessages L T r"

end
