(* ===== verification/Mailbox_Props.thy ===== *)
theory Mailbox_Props
  imports Mailboxes
begin

text \<open>
  Properties of the mailbox types: the contract of the interface and its four interpretations,
  access control, the page a read returns, the rolling window, and what a reader's cursor misses.
\<close>

section \<open>Sequencing\<close>

lemma and_then_InrD:
  assumes "and_then m k db = (Inr y, db')"
  obtains x d where "m db = (Inr x, d)" "k x d = (Inr y, db')"
  using assms by (auto simp: and_then_def split: prod.splits sum.splits)

lemma and_then_keeps:
  assumes "I (snd (m db))" and "\<And>x d. m db = (Inr x, d) \<Longrightarrow> I d \<Longrightarrow> I (snd (k x d))"
  shows "I (snd (and_then m k db))"
  using assms by (cases "m db") (auto simp: and_then_def split: sum.splits)

lemma fail_simps [simp]: "snd (fail e db) = db" "fst (fail e db) = Inl e" "fail e db \<noteq> (Inr x, d)"
  by (simp_all add: fail_def)

definition same_tables :: "db \<Rightarrow> db \<Rightarrow> bool" where
  "same_tables d d' \<longleftrightarrow> mailboxes d' = mailboxes d \<and> stored_messages d' = stored_messages d
     \<and> mailbox_acls d' = mailbox_acls d"

lemma same_tables_simps [simp]:
  "same_tables d d" "same_tables d (next_faults d)"
  by (simp_all add: same_tables_def)

lemma same_tables_trans: "same_tables a b \<Longrightarrow> same_tables b c \<Longrightarrow> same_tables a c"
  by (simp add: same_tables_def)

lemma pg_UpdateCursor_same: "same_tables d (snd (pg_UpdateCursor L mid p s d))"
proof -
  have "same_tables d (snd (pg_UpdateCursor L mid p s d))"
    unfolding pg_UpdateCursor_def by (rule stmt_keeps [where I = "same_tables d"]) (auto simp: same_tables_def)
  then show ?thesis .
qed

lemma read_results:
  "pg_RetrieveMessages mid s n mp db = (x, d) \<Longrightarrow> d = next_faults db"
  "pg_GetCursor L mid p db = (y, d) \<Longrightarrow> d = next_faults db"
  using store_reads_pure(4) [of mid s n mp db] store_reads_pure(8) [of L mid p db] by simp_all

lemma fetchPage_snd [simp]: "snd (fetchPage T r from opts db) = next_faults db"
  unfolding fetchPage_def and_then_def by (auto split: prod.splits sum.splits dest!: read_results)


section \<open>The contract of a mailbox\<close>

text \<open>
  What the delivery agent relies on of the Go interface \<^verbatim>\<open>Mailbox\<close>: a read removes and changes no
  message, both keep the store's invariant, and both succeed only for those the type admits.
\<close>

locale mailbox_contract =
  fixes store :: "Message \<Rightarrow> unit dbm"
    and retrieve :: "peer_id option \<Rightarrow> RetrieveOpts \<Rightarrow> (Message list \<times> bool) dbm"
    and admits_store :: "Message \<Rightarrow> db \<Rightarrow> bool"
    and admits_read :: "peer_id option \<Rightarrow> db \<Rightarrow> bool"
  assumes store_inv: "db_inv db \<Longrightarrow> db_inv (snd (store msg db))"
    and retrieve_inv: "db_inv db \<Longrightarrow> db_inv (snd (retrieve p opts db))"
    and retrieve_same: "same_tables db (snd (retrieve p opts db))"
    and store_admitted: "store msg db = (Inr u, db') \<Longrightarrow> admits_store msg db"
    and store_refused: "\<not> admits_store msg db \<Longrightarrow> same_tables db (snd (store msg db))"
    and retrieve_admitted: "retrieve p opts db = (Inr page, db') \<Longrightarrow> admits_read p db"
begin

lemma refused_store_fails: "\<not> admits_store msg db \<Longrightarrow> \<exists>e. fst (store msg db) = Inl e"
  using store_admitted [of msg db "()" "snd (store msg db)"]
  by (cases "store msg db"; cases "fst (store msg db)") auto

lemma refused_read_fails: "\<not> admits_read p db \<Longrightarrow> \<exists>e. fst (retrieve p opts db) = Inl e"
  using retrieve_admitted [of p opts db _ "snd (retrieve p opts db)"]
  by (cases "retrieve p opts db"; cases "fst (retrieve p opts db)") auto

text \<open>Any number of reads leaves every message where it is.\<close>

lemma reads_same: "same_tables db (fold (\<lambda>(p, opts) d. snd (retrieve p opts d)) reads db)"
proof (induction reads arbitrary: db)
  case (Cons x xs)
  show ?case
    using same_tables_trans [OF retrieve_same Cons.IH] by (cases x) simp
qed simp

end

lemma storeMessage_inv:
  assumes "db_inv db"
  shows "db_inv (snd (storeMessage r msg db))"
proof -
  have s: "pg_StoreMessage mid m d = (x, d') \<Longrightarrow> db_inv d \<Longrightarrow> db_inv d'" for d mid m x d'
    by (rule pg_StoreMessage_result_inv)
  have e: "pg_EnforceRetentionPolicy r d = (x, d') \<Longrightarrow> db_inv d \<Longrightarrow> db_inv d'" for d x d'
    using pg_EnforceRetentionPolicy_inv [of d r] by simp
  show ?thesis
    using assms unfolding storeMessage_def
    by (auto split: prod.splits sum.splits) (blast intro: s e)+
qed

definition write_admitted :: "peer_lib \<Rightarrow> MailboxRecord \<Rightarrow> Message \<Rightarrow> db \<Rightarrow> bool" where
  "write_admitted L r msg db \<longleftrightarrow> SenderPeerID msg = OwnerPeerID r
     \<or> (\<exists>p mode. peer_Decode L (SenderPeerID msg) = Some p \<and> acl_lookup (mbID r) (peer_String L p) db = Some mode
          \<and> mode \<in> {AccessWriteOnly, AccessReadWrite})"

definition owner_reads :: "peer_lib \<Rightarrow> MailboxRecord \<Rightarrow> peer_id option \<Rightarrow> db \<Rightarrow> bool" where
  "owner_reads L r reader db \<longleftrightarrow> (\<forall>p. reader = Some p \<longrightarrow> peer_String L p = OwnerPeerID r)"

definition shared_reads :: "peer_lib \<Rightarrow> MailboxRecord \<Rightarrow> peer_id option \<Rightarrow> db \<Rightarrow> bool" where
  "shared_reads L r reader db \<longleftrightarrow> (\<exists>p. reader = Some p \<and> (peer_String L p = OwnerPeerID r
     \<or> (\<exists>mode. acl_lookup (mbID r) (peer_String L p) db = Some mode \<and> mode \<in> {AccessReadOnly, AccessReadWrite})))"

lemma acl_lookup_next_faults [simp]: "acl_lookup mid p (next_faults db) = acl_lookup mid p db"
  by (simp add: acl_lookup_def)

lemma pg_CheckAccess_InrD:
  assumes "pg_CheckAccess L mid p a db = (Inr b, d)"
  shows "d = next_faults db \<and> (b \<longleftrightarrow> (\<exists>g. acl_lookup mid (peer_String L p) db = Some g \<and> mode_allows g a))"
  using stmt_InrD [OF assms [unfolded pg_CheckAccess_def]] by (auto split: option.splits)

lemma pg_CheckAccess_snd: "pg_CheckAccess L mid p a db = (x, d) \<Longrightarrow> d = next_faults db"
  using store_reads_pure(6) [of L mid p a db] by simp

lemma mode_allows_write: "mode_allows g AccessWriteOnly \<longleftrightarrow> g \<in> {AccessWriteOnly, AccessReadWrite}"
  by (auto simp: mode_allows_def AccessWriteOnly_def AccessReadOnly_def)

lemma mode_allows_read: "mode_allows g AccessReadOnly \<longleftrightarrow> g \<in> {AccessReadOnly, AccessReadWrite}"
  by (auto simp: mode_allows_def)

lemma write_checked_inv: "db_inv db \<Longrightarrow> db_inv (snd (write_checked L s r msg db))"
  unfolding write_checked_def
  by (auto split: option.splits intro!: and_then_keeps [where I = db_inv] storeMessage_inv)

lemma write_checked_admitted: "write_checked L s r msg db = (Inr u, db') \<Longrightarrow> write_admitted L r msg db"
  unfolding write_checked_def write_admitted_def
  by (auto split: option.splits if_splits elim!: and_then_InrD dest!: pg_CheckAccess_InrD
      simp: mode_allows_write)

lemma write_checked_refused:
  assumes "\<not> write_admitted L r msg db"
  shows "same_tables db (snd (write_checked L s r msg db))"
  using assms unfolding write_checked_def write_admitted_def
  by (auto split: option.splits intro!: and_then_keeps [where I = "same_tables db"] simp: mode_allows_write
      dest!: pg_CheckAccess_InrD)

lemma start_sequence_snd: "snd (start_sequence L r p opts db) \<in> {db, next_faults db}"
  by (auto simp: start_sequence_def and_then_def split: option.splits prod.splits sum.splits dest: read_results)

lemma advance_cursor_same: "same_tables d (snd (advance_cursor L r p page d))"
  using pg_UpdateCursor_same by (simp add: advance_cursor_def Let_def)

lemma advance_cursor_inv: "db_inv d \<Longrightarrow> db_inv (snd (advance_cursor L r p page d))"
  using pg_UpdateCursor_inv by (simp add: advance_cursor_def Let_def)

definition cursor_page :: "peer_lib \<Rightarrow> json_text \<Rightarrow> MailboxRecord \<Rightarrow> peer_id \<Rightarrow> RetrieveOpts \<Rightarrow> (Message list \<times> bool) dbm" where
  "cursor_page L T r p opts = and_then (start_sequence L r p opts) (\<lambda>start.
     and_then (fetchPage T r start opts) (advance_cursor L r p))"

lemma cursor_page_same: "same_tables db (snd (cursor_page L T r p opts db))"
  unfolding cursor_page_def
proof (intro and_then_keeps [where I = "same_tables db"])
  show "same_tables db (snd (start_sequence L r p opts db))"
    using start_sequence_snd [of L r p opts db] by auto
  fix x d assume "same_tables db d"
  then show "same_tables db (snd (fetchPage T r x opts d))"
    using same_tables_trans [of db d "next_faults d"] by simp
next
  fix y e assume "same_tables db e"
  then show "same_tables db (snd (advance_cursor L r p y e))"
    using advance_cursor_same same_tables_trans by blast
qed

lemma cursor_page_inv: "db_inv db \<Longrightarrow> db_inv (snd (cursor_page L T r p opts db))"
  unfolding cursor_page_def
proof (intro and_then_keeps [where I = db_inv])
  assume "db_inv db"
  then show "db_inv (snd (start_sequence L r p opts db))"
    using start_sequence_snd [of L r p opts db] by auto
qed (simp_all add: advance_cursor_inv)

lemma shared_RetrieveMessages_alt:
  "shared_RetrieveMessages L T r reader opts =
     (case reader of None \<Rightarrow> fail (PlainError ''readerId required for shared mailbox'')
      | Some p \<Rightarrow> if peer_String L p = OwnerPeerID r then cursor_page L T r p opts
          else and_then (pg_CheckAccess L (mbID r) p AccessReadOnly)
            (\<lambda>canRead. if \<not> canRead then fail (UnauthorizedError ''no read access to shared mailbox'') else cursor_page L T r p opts))"
  unfolding shared_RetrieveMessages_def cursor_page_def Let_def by (rule refl)

lemma public_RetrieveMessages_alt:
  "public_RetrieveMessages L T r reader opts =
     (case reader of None \<Rightarrow> fetchPage T r (case optFromSequence opts of Some s \<Rightarrow> Some s | None \<Rightarrow> Some 1) opts
      | Some p \<Rightarrow> cursor_page L T r p opts)"
  unfolding public_RetrieveMessages_def cursor_page_def by (rule refl)

interpretation private_mb: mailbox_contract "private_StoreMessage r" "private_RetrieveMessages L T r"
  "\<lambda>msg db. RecipientPeerID msg = OwnerPeerID r" "owner_reads L r" for L T r
  by unfold_locales
    (auto simp: private_StoreMessage_def private_RetrieveMessages_def owner_reads_def fail_def storeMessage_inv
      split: option.splits if_splits)

interpretation claim_mb: mailbox_contract "claim_StoreMessage r" "claim_RetrieveMessages L T r"
  "\<lambda>msg db. SenderPeerID msg = OwnerPeerID r \<and> RecipientPeerID msg = OwnerPeerID r" "owner_reads L r" for L T r
  by unfold_locales
    (auto simp: claim_StoreMessage_def claim_RetrieveMessages_def owner_reads_def fail_def storeMessage_inv
      split: option.splits if_splits)

interpretation public_mb: mailbox_contract "public_StoreMessage L r" "public_RetrieveMessages L T r"
  "write_admitted L r" "\<lambda>p db. True" for L T r
  by unfold_locales
    (auto simp: public_StoreMessage_def public_RetrieveMessages_alt write_checked_inv write_checked_refused
      cursor_page_same cursor_page_inv split: option.splits intro: write_checked_admitted)

lemma shared_retrieve_admitted:
  assumes "shared_RetrieveMessages L T r p opts db = (Inr page, db')"
  shows "shared_reads L r p db"
  using assms unfolding shared_RetrieveMessages_alt shared_reads_def
  by (auto split: option.splits if_splits elim!: and_then_InrD dest!: pg_CheckAccess_InrD simp: mode_allows_read)

interpretation shared_mb: mailbox_contract "shared_StoreMessage L r" "shared_RetrieveMessages L T r"
  "write_admitted L r" "shared_reads L r" for L T r
proof
  fix db p opts
  show "same_tables db (snd (shared_RetrieveMessages L T r p opts db))"
    unfolding shared_RetrieveMessages_alt
    by (auto split: option.splits intro!: and_then_keeps [where I = "same_tables db"] cursor_page_same
        dest!: pg_CheckAccess_snd intro: same_tables_trans [OF same_tables_simps(2) cursor_page_same])
  show "db_inv (snd (shared_RetrieveMessages L T r p opts db))" if "db_inv db"
    using that unfolding shared_RetrieveMessages_alt
    by (auto split: option.splits intro!: and_then_keeps [where I = db_inv] cursor_page_inv)
qed (auto simp: shared_StoreMessage_def write_checked_inv write_checked_refused
    intro: write_checked_admitted shared_retrieve_admitted)


section \<open>Access control\<close>

fun may_store :: "peer_lib \<Rightarrow> Mailbox \<Rightarrow> Message \<Rightarrow> db \<Rightarrow> bool" where
  "may_store L (PrivateMailbox r) msg db \<longleftrightarrow> RecipientPeerID msg = OwnerPeerID r"
| "may_store L (SharedMailbox r) msg db \<longleftrightarrow> write_admitted L r msg db"
| "may_store L (PublicMailbox r) msg db \<longleftrightarrow> write_admitted L r msg db"
| "may_store L (ClaimMailbox r) msg db \<longleftrightarrow> SenderPeerID msg = OwnerPeerID r \<and> RecipientPeerID msg = OwnerPeerID r"

fun may_read :: "peer_lib \<Rightarrow> Mailbox \<Rightarrow> peer_id option \<Rightarrow> db \<Rightarrow> bool" where
  "may_read L (PrivateMailbox r) p db \<longleftrightarrow> owner_reads L r p db"
| "may_read L (SharedMailbox r) p db \<longleftrightarrow> shared_reads L r p db"
| "may_read L (PublicMailbox r) p db \<longleftrightarrow> True"
| "may_read L (ClaimMailbox r) p db \<longleftrightarrow> owner_reads L r p db"

text \<open>
  C21. Access control of the four mailbox types. A private mailbox takes messages addressed to its
  owner, shared and public ones those of the owner or of a peer granted write access, a claim
  mailbox the owner's own only; private and claim mailboxes are listed by the owner alone, a shared
  one by the owner or a peer granted read access, a public one by anyone. Whoever else tries gets
  an error, no message is stored for them and none is shown; and no read, admitted or not, removes
  or changes a message.
\<close>

theorem mailbox_access_control:
  "(\<not> may_store L mb msg db \<longrightarrow> (\<exists>e. fst (mb_StoreMessage L mb msg db) = Inl e)
      \<and> stored_messages (snd (mb_StoreMessage L mb msg db)) = stored_messages db)
   \<and> (\<not> may_read L mb reader db \<longrightarrow> (\<exists>e. fst (mb_RetrieveMessages L T mb reader opts db) = Inl e))
   \<and> stored_messages (snd (mb_RetrieveMessages L T mb reader opts db)) = stored_messages db"
proof (cases mb)
  case (PrivateMailbox r)
  then show ?thesis
    using private_mb.refused_store_fails private_mb.refused_read_fails private_mb.store_refused private_mb.retrieve_same
    by (simp add: same_tables_def)
next
  case (SharedMailbox r)
  then show ?thesis
    using shared_mb.refused_store_fails shared_mb.refused_read_fails shared_mb.store_refused shared_mb.retrieve_same
    by (simp add: same_tables_def)
next
  case (PublicMailbox r)
  then show ?thesis
    using public_mb.refused_store_fails public_mb.store_refused public_mb.retrieve_same
    by (simp add: same_tables_def)
next
  case (ClaimMailbox r)
  then show ?thesis
    using claim_mb.refused_store_fails claim_mb.refused_read_fails claim_mb.store_refused claim_mb.retrieve_same
    by (simp add: same_tables_def)
qed

definition demo_record :: MailboxRecord where
  "demo_record = record_of (hd (mailboxes demo_db))"

definition demo_opts :: RetrieveOpts where
  "demo_opts = \<lparr>optFromSequence = None, optMaxMessages = Some 1, optMinPriority = None, optMaxBytes = 0\<rparr>"

text \<open>Without a byte budget the encoding is never asked for its sizes.\<close>

definition no_text :: json_text where
  "no_text = \<lparr>json_enc = (\<lambda>_. []), json_dec = (\<lambda>_. Inl (JsonSyntaxError []))\<rparr>"

theorem mailbox_access_control_witness:
  "\<not> may_read hex_peers (PrivateMailbox demo_record) (Some (PeerID ''C'')) demo_db
   \<and> (\<exists>e. fst (mb_RetrieveMessages hex_peers no_text (PrivateMailbox demo_record) (Some (PeerID ''C'')) demo_opts demo_db) = Inl e)
   \<and> may_store hex_peers (PrivateMailbox demo_record) (demo_msg ''m2'' 0) demo_db
   \<and> fst (mb_StoreMessage hex_peers (PrivateMailbox demo_record) (demo_msg ''m2'' 0) demo_db) = Inr ()"
proof -
  have a: "peer_String hex_peers (PeerID ''C'') \<noteq> OwnerPeerID demo_record" by code_simp
  have b: "fst (mb_StoreMessage hex_peers (PrivateMailbox demo_record) (demo_msg ''m2'' 0) demo_db) = Inr ()" by code_simp
  have c: "RecipientPeerID (demo_msg ''m2'' 0) = OwnerPeerID demo_record" by code_simp
  have "\<not> may_read hex_peers (PrivateMailbox demo_record) (Some (PeerID ''C'')) demo_db"
    using a by (simp add: owner_reads_def)
  then show ?thesis
    using mailbox_access_control [of hex_peers "PrivateMailbox demo_record" "demo_msg ''m2'' 0" demo_db "Some (PeerID ''C'')" no_text demo_opts] b c
    by simp
qed


section \<open>Pages\<close>

definition encoded_size :: "json_text \<Rightarrow> Message list \<Rightarrow> int" where
  "encoded_size T ms = sum_list (map (\<lambda>m. 4 + int (length (ToJSON_bytes T m))) ms)"

lemma encoded_size_simps [simp]:
  "encoded_size T [] = 0" "encoded_size T (m # ms) = 4 + int (length (ToJSON_bytes T m)) + encoded_size T ms"
  by (simp_all add: encoded_size_def)

lemma trim_loop_spec:
  assumes "trim_loop T mb i acc ms = (n, tr)"
  shows "i \<le> n \<and> n \<le> i + length ms \<and> (tr \<longleftrightarrow> n < i + length ms)
    \<and> (i = 0 \<and> ms \<noteq> [] \<longrightarrow> 0 < n)
    \<and> (i < n \<and> 1 < n \<longrightarrow> acc + encoded_size T (take (n - i) ms) \<le> mb)
    \<and> (tr \<longrightarrow> mb < acc + encoded_size T (take (Suc (n - i)) ms))"
  using assms
proof (induction T mb i acc ms rule: trim_loop.induct)
  case (1 T mb i acc)
  then show ?case by simp
next
  case (2 T mb i acc m ms)
  let ?acc = "acc + 4 + int (length (ToJSON_bytes T m))"
  show ?case
  proof (cases "mb < ?acc \<and> 0 < i")
    case True
    with 2 show ?thesis by (auto simp: Let_def)
  next
    case False
    with 2 have IH: "i + 1 \<le> n \<and> n \<le> i + 1 + length ms \<and> (tr \<longleftrightarrow> n < i + 1 + length ms)
        \<and> (i + 1 < n \<and> 1 < n \<longrightarrow> ?acc + encoded_size T (take (n - (i + 1)) ms) \<le> mb)
        \<and> (tr \<longrightarrow> mb < ?acc + encoded_size T (take (Suc (n - (i + 1))) ms))"
      by (simp add: Let_def)
    then have n: "n - i = Suc (n - (i + 1))" by linarith
    then show ?thesis using IH False by (cases "n = i + 1") (auto simp: n)
  qed
qed

lemma trimToBytes_spec:
  assumes "trimToBytes T ms mb = (kept, tr)"
  shows "kept = take (length kept) ms \<and> (tr \<longleftrightarrow> length kept < length ms) \<and> (ms \<noteq> [] \<longrightarrow> kept \<noteq> [])
    \<and> (1 < length kept \<longrightarrow> encoded_size T kept \<le> mb)
    \<and> (tr \<longrightarrow> mb < encoded_size T (take (Suc (length kept)) ms))"
proof -
  obtain n where n: "trim_loop T mb 0 0 ms = (n, tr)" "kept = take n ms"
    using assms by (auto simp: trimToBytes_def split: prod.splits)
  then have "n \<le> length ms" using trim_loop_spec [OF n(1)] by simp
  then show ?thesis using trim_loop_spec [OF n(1)] n(2) by (auto simp: min_absorb2)
qed

lemma page_limit_bounds: "1 \<le> page_limit opts" "page_limit opts \<le> 1000"
  by (auto simp: page_limit_def MaxPageSize_def DefaultPageSize_def Let_def split: option.splits)

text \<open>
  One page of a mailbox: it is a prefix of everything that qualifies, in retrieval order, at
  most the size asked for and never more than a thousand; with a byte budget it fits the budget
  unless it is a single message; it is empty only when nothing qualifies, and the flag that more
  remain is set exactly when something that qualifies is not on the page.
\<close>

theorem fetchPage_spec:
  assumes "fetchPage T record from opts db = (Inr (page, hasMore), db')"
  defines "all \<equiv> map scanMessage (retrieve_rows (mbID record) from (optMinPriority opts) db)"
  shows "page = take (length page) all \<and> int (length page) \<le> page_limit opts \<and> page_limit opts \<le> 1000
    \<and> (page = [] \<longleftrightarrow> all = []) \<and> (hasMore \<longleftrightarrow> length page < length all)
    \<and> (0 < optMaxBytes opts \<and> 1 < length page \<longrightarrow> encoded_size T page \<le> optMaxBytes opts)
    \<and> (0 < optMaxBytes opts \<and> hasMore \<and> int (length page) < page_limit opts \<longrightarrow>
         optMaxBytes opts < encoded_size T (take (Suc (length page)) all))"
proof -
  let ?l = "page_limit opts"
  note l = page_limit_bounds [of opts]
  obtain ms d where ms: "pg_RetrieveMessages (mbID record) from (Some (?l + 1)) (optMinPriority opts) db = (Inr ms, d)"
      "cut_page T opts ms = (page, hasMore)"
    using assms(1) unfolding fetchPage_def by (rule and_then_InrD) simp
  have probe: "ms = take (Suc (nat ?l)) all"
    using stmt_InrD [OF ms(1) [unfolded pg_RetrieveMessages_def]] l
    by (auto simp: limit_rows_def all_def take_map nat_add_distrib)
  define cut where "cut = take (nat ?l) all"
  have more: "?l < int (length ms) \<longleftrightarrow> nat ?l < length all" using probe l by auto
  have cut: "(if nat ?l < length all then take (nat ?l) ms else ms) = cut"
    using probe l by (auto simp: cut_def min_def)
  have res: "if 0 < optMaxBytes opts then \<exists>tr. trimToBytes T cut (optMaxBytes opts) = (page, tr) \<and> hasMore = (nat ?l < length all \<or> tr)
      else page = cut \<and> hasMore = (nat ?l < length all)"
    using ms(2) unfolding cut_page_def Let_def more cut by (auto split: prod.splits if_splits)
  have len: "length cut = min (nat ?l) (length all)" by (simp add: cut_def)
  show ?thesis
  proof (cases "0 < optMaxBytes opts")
    case False
    then show ?thesis using res l len by (auto simp: cut_def)
  next
    case True
    then obtain tr where tr: "trimToBytes T cut (optMaxBytes opts) = (page, tr)" "hasMore = (nat ?l < length all \<or> tr)"
      using res by auto
    note sp = trimToBytes_spec [OF tr(1)]
    have le: "length page \<le> length cut" using sp by (metis length_take min.cobounded2 min.commute)
    have pre: "take k all = take k cut" if "k \<le> nat ?l" for k using that by (simp add: cut_def min_absorb1)
    have "page = take (length page) all" using sp pre [of "length page"] le len by simp
    moreover have "page = [] \<longleftrightarrow> all = []" using sp l len le by (cases "all = []") (auto simp: cut_def)
    moreover have "hasMore \<longleftrightarrow> length page < length all" using sp tr(2) le len by auto
    moreover have "optMaxBytes opts < encoded_size T (take (Suc (length page)) all)"
      if "hasMore" "int (length page) < ?l"
    proof -
      have "length page < nat ?l" using that l by simp
      then have "tr" using sp that tr(2) le len by auto
      then show ?thesis using sp pre [of "Suc (length page)"] \<open>length page < nat ?l\<close> by simp
    qed
    ultimately show ?thesis using sp le len l by auto
  qed
qed

theorem fetchPage_spec_witness:
  "fst (fetchPage no_text demo_record None demo_opts (snd (pg_StoreMessage 1 (demo_msg ''m2'' 3) demo_db)))
     = Inr ([(demo_msg ''m2'' 3)\<lparr>SequenceNumber := 2\<rparr>], True)
   \<and> 1 < length (retrieve_rows 1 None None (snd (pg_StoreMessage 1 (demo_msg ''m2'' 3) demo_db)))"
proof -
  let ?d = "snd (pg_StoreMessage 1 (demo_msg ''m2'' 3) demo_db)"
  have a: "fst (fetchPage no_text demo_record None demo_opts ?d) = Inr ([(demo_msg ''m2'' 3)\<lparr>SequenceNumber := 2\<rparr>], True)"
    by code_simp
  have b: "mbID demo_record = 1" "optMinPriority demo_opts = None" by code_simp+
  show ?thesis using fetchPage_spec [OF result_eq [OF a]] a b by simp
qed


section \<open>The rolling window\<close>

lemma delete_stmt_no_faults:
  "faults db = [] \<Longrightarrow> delete_stmt P db = (Inr (int (length (filter (P db) (stored_messages db)))), snd (delete_where (P db) db))"
  by (simp add: delete_stmt_def Let_def case_prod_unfold)

lemma count_rule_bound:
  assumes "db_inv d"
  shows "length (messages_of mid (snd (delete_where (\<lambda>m. smID m \<in> set (map smID (drop k (newest_first mid d)))) d))) \<le> k"
    (is "length ?kept \<le> k")
proof -
  let ?nf = "newest_first mid d"
  have "distinct (stored_messages d)" using assms by (simp add: db_inv_def msgs_ok_def distinct_map)
  then have dist: "distinct ?kept" by (simp add: messages_of_def)
  have "set ?kept \<subseteq> set (take k ?nf)"
  proof
    fix m assume m: "m \<in> set ?kept"
    then have "m \<in> set ?nf" "m \<notin> set (drop k ?nf)" by (auto simp: messages_of_def newest_first_def)
    then show "m \<in> set (take k ?nf)" by (metis Un_iff append_take_drop_id set_append)
  qed
  then have "card (set ?kept) \<le> card (set (take k ?nf))" by (intro card_mono) auto
  also have "\<dots> \<le> k" by (rule order_trans [OF card_length]) simp
  finally show ?thesis using dist by (simp add: distinct_card)
qed

lemma enforce_policy_window:
  assumes inv: "db_inv db" and ok: "faults db = []" and k: "RetentionCount mb = Some k" "0 \<le> k"
  obtains db' where "pg_EnforceRetentionPolicy mb db = (Inr (), db')" "db_inv db'" "faults db' = []"
    "length (messages_of (mbID mb) db') \<le> nat k"
    "set (stored_messages db') \<subseteq> set (stored_messages db)"
    "\<And>r. r \<in> set (mailboxes db) \<Longrightarrow> \<exists>r' \<in> set (mailboxes db'). mbID r' = mbID r \<and> MaxMessages r' = MaxMessages r"
proof -
  let ?P = "\<lambda>m. smMailboxID m = mbID mb \<and> smCreatedAt m < clock db - day_ms * RetentionDays mb"
  let ?d1 = "snd (delete_where ?P db)"
  let ?Q = "\<lambda>m. smID m \<in> set (map smID (drop (nat k) (newest_first (mbID mb) ?d1)))"
  let ?d2 = "snd (delete_where ?Q ?d1)"
  have inv1: "db_inv ?d1" using inv by (rule delete_where_inv)
  have "pg_EnforceRetentionPolicy mb db = (Inr (), ?d2)"
    using ok k by (simp add: pg_EnforceRetentionPolicy_def delete_stmt_no_faults)
  moreover have "length (messages_of (mbID mb) ?d2) \<le> nat k" using inv1 by (rule count_rule_bound)
  moreover have "db_inv ?d2" using inv1 by (rule delete_where_inv)
  ultimately show ?thesis using ok by (intro that [of ?d2]) auto
qed

lemma pg_StoreMessage_room:
  assumes inv: "db_inv db" and ok: "faults db = []" and r: "r \<in> set (mailboxes db)" "mbID r = mid"
    and fresh: "MessageID msg \<notin> smMessageID ` set (stored_messages db)"
  shows "pg_StoreMessage mid msg db =
    (if MaxMessages r \<le> 0 \<or> MessageCount r < MaxMessages r
     then (Inr (current_sequence r + 1), insert_message (message_row (next_id db) mid (current_sequence r + 1) msg)
             (update_mailbox_rows (count_in (int (length (Payload msg))) (clock db)) mid db))
     else (Inl (MailboxFullError (MessageCount r) (MaxMessages r)), db))"
proof -
  let ?room = "\<lambda>x. mbID x = mid \<and> (MaxMessages x \<le> 0 \<or> MessageCount x < MaxMessages x)"
  have "find ?room (mailboxes db) = (if ?room r then Some r else None)"
  proof (cases "find ?room (mailboxes db)")
    case None
    then show ?thesis using r by (auto simp: find_None_iff)
  next
    case (Some x)
    then have "x = r" using find_SomeD [OF Some] inv r distinct_key_unique [of mbID "mailboxes db" x r]
      by (simp add: db_inv_def ids_ok_def)
    then show ?thesis using Some find_SomeD [OF Some] by auto
  qed
  then show ?thesis
    using ok r fresh find_mailbox_unique [OF inv r] by (simp add: pg_StoreMessage_def storeRefused_def Let_def)
qed

text \<open>
  A mailbox with a retention count below its cap is a rolling window: as long as the database
  answers, a delivery of a new message to it is never refused for being full. What makes room is
  the pruning, after which at most the retention count and the new message are stored.
\<close>

theorem rolling_window_accepts:
  assumes inv: "db_inv db" and ok: "faults db = []" and r: "r \<in> set (mailboxes db)" "mbID r = mbID record"
    and k: "RetentionCount record = Some k" "0 \<le> k" "k < MaxMessages r"
    and fresh: "MessageID msg \<notin> smMessageID ` set (stored_messages db)"
  shows "\<exists>db'. storeMessage record msg db = (Inr (), db')
     \<and> MessageID msg \<in> smMessageID ` set (messages_of (mbID record) db')
     \<and> int (length (messages_of (mbID record) db')) \<le> MaxMessages r
     \<and> (MaxMessages r \<le> MessageCount r \<longrightarrow> length (messages_of (mbID record) db') \<le> nat k + 1)"
proof (cases "MaxMessages r \<le> 0 \<or> MessageCount r < MaxMessages r")
  case True
  have "MessageCount r = int (length (messages_of (mbID record) db))"
    using inv r by (auto simp: db_inv_def counters_ok_def true_count_def)
  with True k show ?thesis
    using pg_StoreMessage_room [OF inv ok r fresh] by (simp add: storeMessage_def messages_of_insert)
next
  case False
  obtain d1 where d1: "pg_EnforceRetentionPolicy record db = (Inr (), d1)" "db_inv d1" "faults d1 = []"
      "length (messages_of (mbID record) d1) \<le> nat k" "set (stored_messages d1) \<subseteq> set (stored_messages db)"
      "\<And>r. r \<in> set (mailboxes db) \<Longrightarrow> \<exists>r' \<in> set (mailboxes d1). mbID r' = mbID r \<and> MaxMessages r' = MaxMessages r"
    using enforce_policy_window [OF inv ok k(1,2)] by metis
  obtain r1 where r1: "r1 \<in> set (mailboxes d1)" "mbID r1 = mbID record" "MaxMessages r1 = MaxMessages r"
    using d1(6) [OF r(1)] r(2) by auto
  have "MessageCount r1 = int (length (messages_of (mbID record) d1))"
    using d1(2) r1 by (auto simp: db_inv_def counters_ok_def true_count_def)
  then have room: "MessageCount r1 < MaxMessages r1" using d1(4) k r1(3) by linarith
  have fresh1: "MessageID msg \<notin> smMessageID ` set (stored_messages d1)" using fresh d1(5) by auto
  have st: "pg_StoreMessage (mbID record) msg db = (Inl (MailboxFullError (MessageCount r) (MaxMessages r)), db)"
    using pg_StoreMessage_room [OF inv ok r fresh] False by simp
  have "storeMessage record msg db = (Inr (), snd (pg_StoreMessage (mbID record) msg d1))"
    using st d1(1) k(1) pg_StoreMessage_room [OF d1(2,3) r1(1,2) fresh1] room
    by (simp add: storeMessage_def errors_as_def)
  then show ?thesis
    using pg_StoreMessage_room [OF d1(2,3) r1(1,2) fresh1] room d1(4) k by (simp add: messages_of_insert)
qed

theorem rolling_window_accepts_witness:
  "fst (pg_StoreMessage 1 (demo_msg ''m3'' 0) (snd (pg_StoreMessage 1 (demo_msg ''m2'' 0) demo_db))) = Inl (MailboxFullError 2 2)
   \<and> fst (storeMessage demo_record (demo_msg ''m3'' 0) (snd (pg_StoreMessage 1 (demo_msg ''m2'' 0) demo_db))) = Inr ()"
proof -
  let ?d = "snd (pg_StoreMessage 1 (demo_msg ''m2'' 0) demo_db)"
  let ?r = "hd (mailboxes ?d)"
  have inv: "db_inv ?d" by (rule pg_StoreMessage_inv [OF demo_db_inv])
  have ok: "faults ?d = []" by code_simp
  have "mailboxes ?d \<noteq> []" by code_simp
  then have r: "?r \<in> set (mailboxes ?d)" by simp
  have id: "mbID ?r = mbID demo_record" by code_simp
  have k: "RetentionCount demo_record = Some 1" by code_simp
  have mx: "(1 :: int) < MaxMessages ?r" by code_simp
  have fresh: "MessageID (demo_msg ''m3'' 0) \<notin> smMessageID ` set (stored_messages ?d)" by code_simp
  have full: "fst (pg_StoreMessage 1 (demo_msg ''m3'' 0) ?d) = Inl (MailboxFullError 2 2)" by code_simp
  show ?thesis using rolling_window_accepts [OF inv ok r id k _ mx fresh] full by auto
qed


section \<open>What a reader's cursor misses\<close>

text \<open>A shared mailbox of \<^verbatim>\<open>B\<close> that \<^verbatim>\<open>C\<close> may read, with an ordinary message and, after it, an urgent one.\<close>

definition shared_db :: db where
  "shared_db = fold (store_exec hex_peers)
     [OpGetOrCreateMailbox \<lparr>OwnerID = PeerID ''B'', addrFolderPath = ''team'', addrType = MailboxShared\<rparr> 10 30 None,
      OpGrantAccess 1 (PeerID ''C'') AccessReadOnly,
      OpStoreMessage 1 (demo_msg ''m1'' PriorityLow),
      OpStoreMessage 1 (demo_msg ''m2'' PriorityUrgent)] (empty_db 1000)"

definition shared_mailbox :: Mailbox where
  "shared_mailbox = SharedMailbox (record_of (hd (mailboxes shared_db)))"

definition read_shared :: "db \<Rightarrow> (err + Message list \<times> bool) \<times> db" where
  "read_shared = mb_RetrieveMessages hex_peers no_text shared_mailbox (Some (PeerID ''C'')) demo_opts"

text \<open>A read through the cursor of a reader, as both the shared and the public mailbox make it.\<close>

definition read_page :: "peer_lib \<Rightarrow> json_text \<Rightarrow> MailboxRecord \<Rightarrow> peer_id \<Rightarrow> RetrieveOpts \<Rightarrow> (Message list \<times> bool) dbm" where
  "read_page L T record reader opts =
     and_then (start_sequence L record reader opts) (\<lambda>start. and_then (fetchPage T record start opts) (advance_cursor L record reader))"

lemma read_page_shared:
  assumes "faults db = []" "shared_RetrieveMessages L T record (Some reader) opts db = (Inr x, db')"
  shows "read_page L T record reader opts db = (Inr x, db')"
  using assms
  by (auto simp: shared_RetrieveMessages_def read_page_def pg_CheckAccess_def and_then_def fail_def Let_def split: if_splits)

lemma read_page_public:
  assumes "public_RetrieveMessages L T record (Some reader) opts db = (Inr x, db')"
  shows "read_page L T record reader opts db = (Inr x, db')"
  using assms by (simp add: public_RetrieveMessages_def read_page_def)

lemma fetchPage_same: "faults db = [] \<Longrightarrow> fetchPage T record start opts db = (x, d) \<Longrightarrow> d = db"
  by (auto simp: fetchPage_def and_then_def pg_RetrieveMessages_def split: sum.splits)

lemma read_page_result:
  assumes nf: "faults db = []" and opts: "optFromSequence opts = None"
    and r: "read_page L T record reader opts db = (Inr (page, hm), db')"
  shows "fetchPage T record (cursor_start (cursor_of (mbID record) (peer_String L reader) db)) opts db = (Inr (page, hm), db)
    \<and> advance_cursor L record reader (page, hm) db = (Inr (page, hm), db')"
proof -
  let ?start = "cursor_start (cursor_of (mbID record) (peer_String L reader) db)"
  have "read_page L T record reader opts db = and_then (fetchPage T record ?start opts) (advance_cursor L record reader) db"
    using nf opts by (simp add: read_page_def start_sequence_def and_then_def pg_GetCursor_def)
  then obtain pg d where f: "fetchPage T record ?start opts db = (Inr pg, d)" "advance_cursor L record reader pg d = (Inr (page, hm), db')"
    using r by (auto simp: and_then_def split: prod.splits sum.splits)
  have "d = db" by (rule fetchPage_same [OF nf f(1)])
  moreover have "pg = (page, hm)" using f(2) by (auto simp: advance_cursor_def Let_def split: if_splits)
  ultimately show ?thesis using f by simp
qed

lemma cursor_of_update:
  assumes "faults db = []" "mailbox_exists mid db"
  shows "cursor_of mid (peer_String L reader) (snd (pg_UpdateCursor L mid reader sq db)) = sq"
    "stored_messages (snd (pg_UpdateCursor L mid reader sq db)) = stored_messages db" "clock (snd (pg_UpdateCursor L mid reader sq db)) = clock db"
proof -
  let ?p = "peer_String L reader" and ?f = "\<lambda>c. if curMailboxID c = mid \<and> curReaderPeerID c = peer_String L reader
      then c\<lparr>curLastSequenceRead := sq, curLastAccessAt := clock db\<rparr> else c"
  have "(mid, ?p) \<in> set (map (\<lambda>c. (curMailboxID c, curReaderPeerID c)) cs) \<Longrightarrow>
      \<exists>c. find (\<lambda>c. curMailboxID c = mid \<and> curReaderPeerID c = ?p) (map ?f cs) = Some c \<and> curLastSequenceRead c = sq" for cs
    by (induction cs) auto
  moreover have "(mid, ?p) \<notin> set (map (\<lambda>c. (curMailboxID c, curReaderPeerID c)) cs) \<Longrightarrow>
      find (\<lambda>c. curMailboxID c = mid \<and> curReaderPeerID c = ?p) cs = None" for cs
    by (induction cs) auto
  ultimately show "cursor_of mid ?p (snd (pg_UpdateCursor L mid reader sq db)) = sq"
    using assms by (fastforce simp: pg_UpdateCursor_def cursor_of_def find_snoc)
  show "stored_messages (snd (pg_UpdateCursor L mid reader sq db)) = stored_messages db" "clock (snd (pg_UpdateCursor L mid reader sq db)) = clock db"
    using assms by (simp_all add: pg_UpdateCursor_def)
qed

lemma sorted_prefix_rest:
  assumes "sorted (map f xs)" "x \<in> set xs" "x \<notin> set (take k xs)" "0 < k" "xs \<noteq> []"
  shows "f (last (take k xs)) \<le> f x"
proof -
  have "sorted (map f (take k xs) @ map f (drop k xs))" using assms(1) by (metis append_take_drop_id map_append)
  moreover have "x \<in> set (drop k xs)" using assms(2,3) by (metis UnE append_take_drop_id set_append)
  moreover have "last (take k xs) \<in> set (take k xs)" using assms(4,5) by (intro last_in_set) simp
  ultimately show ?thesis by (auto simp: sorted_append)
qed

text \<open>
  C22. A page is ordered by priority, but the cursor of a shared or public mailbox is moved to the
  sequence number of the last message of the page. So of the messages that the reader could have got
  and did not, the next read through the cursor can return exactly those stored after that last
  message. The others are passed over for good, although they are still stored, unexpired and
  readable; each has a lower priority than the last message of the page.
\<close>

theorem cursor_skips_lower_priority:
  assumes inv: "db_inv db" and nf: "faults db = []" and opts: "optFromSequence opts = None"
    and seqs: "\<forall>r \<in> set (mailboxes db). current_sequence r < 2 ^ 63"
    and box: "mb \<in> {SharedMailbox record, PublicMailbox record}"
    and read: "mb_RetrieveMessages L T mb (Some reader) opts db = (Inr (page, hm), db')" and some: "page \<noteq> []"
    and m: "m \<in> set (stored_messages db)" "scanMessage m \<notin> set page"
      "wanted (mbID record) (cursor_start (cursor_of (mbID record) (peer_String L reader) db)) (optMinPriority opts) db m"
  shows "m \<in> set (stored_messages db')
    \<and> (m \<in> set (retrieve_rows (mbID record) (cursor_start (cursor_of (mbID record) (peer_String L reader) db')) (optMinPriority opts) db')
         \<longleftrightarrow> SequenceNumber (last page) < SequenceNumber (scanMessage m))
    \<and> (\<not> SequenceNumber (last page) < SequenceNumber (scanMessage m) \<longrightarrow> smPriority m < Priority (last page))"
proof -
  let ?mid = "mbID record" and ?start = "cursor_start (cursor_of (mbID record) (peer_String L reader) db)"
  let ?all = "retrieve_rows ?mid ?start (optMinPriority opts) db"
  have "read_page L T record reader opts db = (Inr (page, hm), db')"
    using box read read_page_shared [OF nf] read_page_public by auto
  note rp = read_page_result [OF nf opts this]
  note page = fetchPage_spec [OF conjunct1 [OF rp]]
  have all: "set ?all = {m \<in> set (stored_messages db). wanted ?mid ?start (optMinPriority opts) db m}" "sorted (map priority_key ?all)"
    by (auto simp: retrieve_rows_alt)
  have pg: "page = map scanMessage (take (length page) ?all)" using page by (simp add: take_map)
  define l where "l = last (take (length page) ?all)"
  have ne: "?all \<noteq> []" using page some by auto
  then have tk: "take (length page) ?all \<noteq> []" using some by simp
  have "l \<in> set ?all" unfolding l_def by (rule in_set_takeD [OF last_in_set [OF tk]])
  moreover have "last page = scanMessage l" using arg_cong [OF pg, of last] tk by (simp add: l_def last_map)
  ultimately have l: "l \<in> set ?all" "last page = scanMessage l" by simp_all
  have "scanMessage m \<in> set (map scanMessage (take (length page) ?all))" if "m \<in> set (take (length page) ?all)"
    unfolding set_map using that by (rule imageI)
  then have ml: "m \<in> set ?all" "m \<notin> set (take (length page) ?all)" using m all(1) pg by auto
  have key: "priority_key l \<le> priority_key m" unfolding l_def by (rule sorted_prefix_rest [OF all(2) ml]) (use some ne in auto)
  have range: "1 \<le> smSequenceNumber x \<and> smSequenceNumber x < 2 ^ 63 \<and> mailbox_exists ?mid db" if x: "x \<in> set ?all" for x
  proof -
    have x: "x \<in> set (stored_messages db)" "smMailboxID x = ?mid" using x all(1) by (auto simp: wanted_def)
    then obtain r where r: "r \<in> set (mailboxes db)" "mbID r = ?mid" using inv by (auto simp: db_inv_def msgs_ok_def)
    then have "1 \<le> smSequenceNumber x \<and> smSequenceNumber x \<le> current_sequence r"
      using inv x unfolding db_inv_def seqs_ok_def by metis
    moreover have "current_sequence r < 2 ^ 63" using seqs r(1) by blast
    moreover have "mailbox_exists ?mid db" using r by (force simp: mailbox_exists_def)
    ultimately show ?thesis by linarith
  qed
  have seq: "uint (SequenceNumber (scanMessage x)) = smSequenceNumber x" "sint (SequenceNumber (scanMessage x)) = smSequenceNumber x"
    if "x \<in> set ?all" for x
    using range [OF that] by (simp_all add: scanMessage_def unsigned_of_int take_bit_int_eq_self signed_of_int signed_take_bit_int_eq_self)
  have db': "db' = snd (pg_UpdateCursor L ?mid reader (smSequenceNumber l) db)"
    using rp some range [OF l(1)] seq [OF l(1)] by (auto simp: advance_cursor_def Let_def l(2) word_less_def split: if_splits)
  note up = cursor_of_update [OF nf, of ?mid L reader "smSequenceNumber l", folded db']
  have start: "cursor_start (cursor_of ?mid (peer_String L reader) db') = Some (smSequenceNumber l + 1)"
    using up(1) range [OF l(1)] by (simp add: cursor_start_def)
  have less: "SequenceNumber (last page) < SequenceNumber (scanMessage m) \<longleftrightarrow> smSequenceNumber l < smSequenceNumber m"
    by (simp add: word_less_def l(2) seq [OF l(1)] seq [OF ml(1)])
  have "m \<in> set (retrieve_rows ?mid (Some (smSequenceNumber l + 1)) (optMinPriority opts) db') \<longleftrightarrow> smSequenceNumber l < smSequenceNumber m"
    using m up(2,3) range [OF l(1)] by (auto simp: retrieve_rows_alt wanted_def)
  moreover have "smPriority m < Priority (last page)" if "\<not> smSequenceNumber l < smSequenceNumber m"
  proof -
    have "m \<noteq> l" using ml(2) last_in_set [OF tk] l_def by auto
    then have "smSequenceNumber m \<noteq> smSequenceNumber l" using inv m(1) l(1) all(1) m(3) by (auto simp: inv_defs wanted_def distinct_map inj_on_def)
    then show ?thesis using that key by (auto simp: priority_key_def l(2) scanMessage_def word_less_def less_eq_prod_def)
  qed
  moreover have "m \<in> set (stored_messages db')" using m(1) up(2) range [OF l(1)] by simp
  ultimately show ?thesis unfolding less start by blast
qed

lemma shared_db_inv: "db_inv shared_db"
  unfolding shared_db_def by (rule store_run.run_inv [OF empty_db_inv])

theorem cursor_skips_lower_priority_witness:
  "fst (read_shared shared_db) = Inr ([(demo_msg ''m2'' PriorityUrgent)\<lparr>SequenceNumber := 2\<rparr>], True)
   \<and> fst (read_shared (snd (read_shared shared_db))) = Inr ([], False)
   \<and> (\<exists>m \<in> set (stored_messages (snd (read_shared shared_db))). smMessageID m = ''m1'' \<and> smPriority m < PriorityUrgent
        \<and> m \<notin> set (retrieve_rows 1 (cursor_start (cursor_of 1 ''43'' (snd (read_shared shared_db)))) None (snd (read_shared shared_db))))"
proof -
  let ?m = "hd (stored_messages shared_db)" and ?page = "[(demo_msg ''m2'' PriorityUrgent)\<lparr>SequenceNumber := 2\<rparr>]"
  define rc where "rc = record_of (hd (mailboxes shared_db))"
  have r: "fst (read_shared shared_db) = Inr (?page, True)" "fst (read_shared (snd (read_shared shared_db))) = Inr ([], False)" by code_simp+
  have id: "mbID rc = 1" unfolding rc_def by code_simp
  have p: "peer_String hex_peers (PeerID ''C'') = ''43''" "optFromSequence demo_opts = None" "optMinPriority demo_opts = None" "faults shared_db = []" by code_simp+
  have seqs: "\<forall>r \<in> set (mailboxes shared_db). current_sequence r < 2 ^ 63" by code_simp
  have m: "stored_messages shared_db \<noteq> []" "scanMessage ?m \<notin> set ?page" "smMessageID ?m = ''m1''"
    "\<not> SequenceNumber (last ?page) < SequenceNumber (scanMessage ?m)" "Priority (last ?page) = PriorityUrgent" by code_simp+
  have "smMailboxID ?m = 1 \<and> clock shared_db < smExpiresAt ?m \<and> 1 \<le> smSequenceNumber ?m
      \<and> cursor_start (cursor_of 1 ''43'' shared_db) = Some 1" by code_simp
  then have w: "wanted (mbID rc) (cursor_start (cursor_of (mbID rc) (peer_String hex_peers (PeerID ''C'')) shared_db)) (optMinPriority demo_opts) shared_db ?m"
    by (simp add: wanted_def id p)
  have "mb_RetrieveMessages hex_peers no_text shared_mailbox (Some (PeerID ''C'')) demo_opts shared_db = (Inr (?page, True), snd (read_shared shared_db))"
    using r(1) by (metis prod.collapse read_shared_def)
  from cursor_skips_lower_priority [OF shared_db_inv p(4,2) seqs _ this _ _ m(2) w] m id p r
  show ?thesis by (auto simp: shared_mailbox_def rc_def [symmetric])
qed

end
