(* ===== verification/Mda.thy ===== *)
theory Mda
  imports Mailbox_Props
begin

text \<open>
  The mail delivery agent (\<^verbatim>\<open>src/internal/mda/delivery.go\<close>, \<^verbatim>\<open>claim.go\<close>): delivery into mailboxes that
  it finds or creates, retrieval, claims, acknowledgement and maintenance, over the message store
  and a bounded cache of loaded mailboxes.

  The cache and the token buckets are third-party packages. They are parameters: an operation of
  \<open>cache_lib\<close> or \<open>rate_lib\<close> for each one the code calls, with the documented behaviour of the cache
  stated by the locale \<open>lru_laws\<close>.
\<close>

section \<open>Libraries the agent calls\<close>

record ('k, 'v, 'c) cache_lib =
  ckGet :: "'k \<Rightarrow> 'c \<Rightarrow> 'v option \<times> 'c"
  ckAdd :: "'k \<Rightarrow> 'v \<Rightarrow> 'c \<Rightarrow> 'c"
  ckRemove :: "'k \<Rightarrow> 'c \<Rightarrow> 'c"

record 'l rate_lib =
  rlNewLimiter :: "int \<Rightarrow> 'l"
  rlAllow :: "millis \<Rightarrow> 'l \<Rightarrow> bool \<times> 'l"

text \<open>
  What the documentation of the LRU cache promises, through the entries it holds: a lookup returns
  the entry and keeps all, an insertion holds the new entry and may evict others, a removal drops
  that entry only.
\<close>

locale lru_laws =
  fixes K :: "('k, 'v, 'c) cache_lib" and view :: "'c \<Rightarrow> 'k \<Rightarrow> 'v option"
  assumes get_result: "fst (ckGet K k c) = view c k"
    and get_keeps: "view (snd (ckGet K k c)) = view c"
    and add_same: "view (ckAdd K k v c) k = Some v"
    and add_other: "k' \<noteq> k \<Longrightarrow> view (ckAdd K k v c) k' = Some w \<Longrightarrow> view c k' = Some w"
    and remove: "view (ckRemove K k c) = (view c)(k := None)"
begin

lemma get_eq: "ckGet K k c = (x, c') \<Longrightarrow> x = view c k \<and> view c' = view c"
  using get_result [of k c] get_keeps [of k c] by simp

text \<open>A property of entries that holds of the new entry holds of all after an insertion.\<close>

lemma add_all:
  assumes "\<And>k v. view c k = Some v \<Longrightarrow> P k v" "P k0 v0"
  shows "view (ckAdd K k0 v0 c) k = Some v \<Longrightarrow> P k v"
  using assms add_same [of k0 v0 c] add_other [of k k0 v0 c] by (cases "k = k0") auto

end

text \<open>An instance: a list of entries, most recently used first, cut at its capacity.\<close>

definition lru_list :: "nat \<Rightarrow> ('k, 'v, ('k \<times> 'v) list) cache_lib" where
  "lru_list n = \<lparr>
     ckGet = (\<lambda>k c. case map_of c k of None \<Rightarrow> (None, c) | Some v \<Rightarrow> (Some v, (k, v) # filter (\<lambda>e. fst e \<noteq> k) c)),
     ckAdd = (\<lambda>k v c. take (Suc n) ((k, v) # filter (\<lambda>e. fst e \<noteq> k) c)),
     ckRemove = (\<lambda>k c. filter (\<lambda>e. fst e \<noteq> k) c)\<rparr>"

lemma map_of_filter_key: "map_of (filter (\<lambda>e. fst e \<noteq> k) c) = (map_of c)(k := None)"
  by (induction c) (auto simp: fun_eq_iff)

lemma map_of_take_prefix: "map_of (take n c) k = Some v \<Longrightarrow> map_of c k = Some v"
proof (induction c arbitrary: n)
  case (Cons e c)
  then show ?case by (cases n) (auto split: if_splits)
qed simp

interpretation lru_list_laws: lru_laws "lru_list n" map_of for n
proof
  fix k :: 'a and c :: "('a \<times> 'b) list" and v w :: 'b and k'
  show "fst (ckGet (lru_list n) k c) = map_of c k" by (simp add: lru_list_def split: option.splits)
  show "map_of (snd (ckGet (lru_list n) k c)) = map_of c"
    by (auto simp: lru_list_def map_of_filter_key fun_eq_iff split: option.splits)
  show "map_of (ckAdd (lru_list n) k v c) k = Some v" by (simp add: lru_list_def)
  show "map_of (ckRemove (lru_list n) k c) = (map_of c)(k := None)" by (simp add: lru_list_def map_of_filter_key)
  show "map_of c k' = Some w" if "k' \<noteq> k" "map_of (ckAdd (lru_list n) k v c) k' = Some w"
    using that map_of_take_prefix [of "Suc n" "(k, v) # filter (\<lambda>e. fst e \<noteq> k) c" k' w]
    by (simp add: lru_list_def map_of_filter_key)
qed


section \<open>State\<close>

record MailboxDefaults =
  dfMaxMessages :: int
  dfRetentionDays :: int
  dfMaxMailboxesPerOwner :: int
  dfMaxMailboxes :: int

definition fallbackMaxMessages :: int where "fallbackMaxMessages = 1000"
definition fallbackRetentionDays :: int where "fallbackRetentionDays = 30"
definition DefaultClaimsPerHour :: int where "DefaultClaimsPerHour = 30"

text \<open>\<^verbatim>\<open>retentionDays\<close> rounds a positive duration up to whole days; durations are in milliseconds.\<close>

definition retentionDays :: "int \<Rightarrow> int" where
  "retentionDays policy =
     (if policy \<le> 0 then 0
      else let days = policy div day_ms in if policy mod day_ms \<noteq> 0 then days + 1 else days)"

definition orFallbacks :: "MailboxDefaults \<Rightarrow> MailboxDefaults" where
  "orFallbacks d =
     (let d1 = (if dfMaxMessages d \<le> 0 then d\<lparr>dfMaxMessages := fallbackMaxMessages\<rparr> else d)
      in if dfRetentionDays d1 \<le> 0 then d1\<lparr>dfRetentionDays := fallbackRetentionDays\<rparr> else d1)"

text \<open>\<^verbatim>\<open>DefaultsFromConfig\<close>, given the four settings it reads of the configuration, if there is one.\<close>

record mailbox_config =
  cfgMaxMessagesPerMailbox :: int
  cfgRetentionPolicy :: int
  cfgMaxMailboxesPerOwner :: int
  cfgMaxMailboxes :: int

definition DefaultsFromConfig :: "mailbox_config option \<Rightarrow> MailboxDefaults" where
  "DefaultsFromConfig cfg =
     (case cfg of
        None \<Rightarrow> orFallbacks \<lparr>dfMaxMessages = 0, dfRetentionDays = 0, dfMaxMailboxesPerOwner = 0, dfMaxMailboxes = 0\<rparr>
      | Some c \<Rightarrow> orFallbacks \<lparr>dfMaxMessages = cfgMaxMessagesPerMailbox c,
          dfRetentionDays = retentionDays (cfgRetentionPolicy c),
          dfMaxMailboxesPerOwner = cfgMaxMailboxesPerOwner c, dfMaxMailboxes = cfgMaxMailboxes c\<rparr>)"

datatype notifier_event = NotifyNewMessage MailboxAddress Message | MailboxDeleted MailboxAddress

record ('c, 'm) MailboxServer =
  Storage :: db
  mailboxCache :: 'c
  claimCache :: 'm
  claimsPerHour :: int
  defaults :: MailboxDefaults
  hasNotifier :: bool
  notified :: "notifier_event list"

record ('c, 'm, 'l) libs =
  libPeer :: peer_lib
  libText :: json_text
  libCache :: "(string, Mailbox, 'c) cache_lib"
  libClaims :: "(int, 'l, 'm) cache_lib"
  libRate :: "'l rate_lib"

type_synonym ('c, 'm, 'a) srvm = "('c, 'm) MailboxServer \<Rightarrow> (err + 'a) \<times> ('c, 'm) MailboxServer"

definition with_db :: "'a dbm \<Rightarrow> ('c, 'm, 'a) srvm" where
  "with_db f s = (let (r, d) = f (Storage s) in (r, s\<lparr>Storage := d\<rparr>))"


section \<open>Finding and creating mailboxes\<close>

definition wrapRecord :: "MailboxRecord \<Rightarrow> err + Mailbox" where
  "wrapRecord r =
     (if mbType r = MailboxPrivate then Inr (PrivateMailbox r)
      else if mbType r = MailboxShared then Inr (SharedMailbox r)
      else if mbType r = MailboxPublic then Inr (PublicMailbox r)
      else if mbType r = MailboxClaim then Inr (ClaimMailbox r)
      else Inl (PlainError (''unknown mailbox type: '' @ show_nat (unat (mbType r)))))"

definition checkMailboxQuota :: "('c, 'm, 'l) libs \<Rightarrow> peer_id \<Rightarrow> ('c, 'm, unit) srvm" where
  "checkMailboxQuota E ownerID s =
     (let perOwner = dfMaxMailboxesPerOwner (defaults s); total_max = dfMaxMailboxes (defaults s) in
      if perOwner \<le> 0 \<and> total_max \<le> 0 then (Inr (), s)
      else case with_db (pg_CountMailboxes (libPeer E) ownerID) s of
          (Inl e, s1) \<Rightarrow> (Inl (Wrapped ''count mailboxes: '' e []), s1)
        | (Inr (owned, all), s1) \<Rightarrow>
            if 0 < perOwner \<and> perOwner \<le> owned then (Inl (QuotaExceededError ''mailboxes per owner'' owned perOwner), s1)
            else if 0 < total_max \<and> total_max \<le> all then (Inl (QuotaExceededError ''mailboxes'' all total_max), s1)
            else (Inr (), s1))"

definition cache_mailbox :: "('c, 'm, 'l) libs \<Rightarrow> string \<Rightarrow> MailboxRecord \<Rightarrow> ('c, 'm, Mailbox) srvm" where
  "cache_mailbox E key record s =
     (case wrapRecord record of
        Inl e \<Rightarrow> (Inl e, s)
      | Inr mb \<Rightarrow> (Inr mb, s\<lparr>mailboxCache := ckAdd (libCache E) key mb (mailboxCache s)\<rparr>))"

definition getOrCreateMailbox ::
    "('c, 'm, 'l) libs \<Rightarrow> MailboxAddress \<Rightarrow> int \<Rightarrow> int \<Rightarrow> int option \<Rightarrow> ('c, 'm, Mailbox) srvm" where
  "getOrCreateMailbox E addr maxMessages days retentionCount s =
     (let key = FullPath (libPeer E) addr;
          (hit, c) = ckGet (libCache E) key (mailboxCache s);
          s0 = s\<lparr>mailboxCache := c\<rparr>
      in case hit of
           Some mb \<Rightarrow> (Inr mb, s0)
         | None \<Rightarrow>
             (case with_db (pg_FindMailbox (libPeer E) (OwnerID addr) (addrFolderPath addr)) s0 of
                (Inl e, s1) \<Rightarrow> (Inl (Wrapped ''find mailbox: '' e []), s1)
              | (Inr existing, s1) \<Rightarrow>
                  (case (if existing = None then checkMailboxQuota E (OwnerID addr) s1 else (Inr (), s1)) of
                     (Inl e, s2) \<Rightarrow> (Inl e, s2)
                   | (Inr _, s2) \<Rightarrow>
                       (case with_db (pg_GetOrCreateMailbox (libPeer E) addr maxMessages days retentionCount) s2 of
                          (Inl e, s3) \<Rightarrow> (Inl (Wrapped ''get or create mailbox: '' e []), s3)
                        | (Inr record, s3) \<Rightarrow> cache_mailbox E key record s3))))"

definition getMailbox :: "('c, 'm, 'l) libs \<Rightarrow> MailboxAddress \<Rightarrow> ('c, 'm, Mailbox) srvm" where
  "getMailbox E addr s =
     getOrCreateMailbox E addr (dfMaxMessages (defaults s)) (dfRetentionDays (defaults s)) None s"

definition findMailbox :: "('c, 'm, 'l) libs \<Rightarrow> MailboxAddress \<Rightarrow> ('c, 'm, Mailbox option) srvm" where
  "findMailbox E addr s =
     (let key = FullPath (libPeer E) addr;
          (hit, c) = ckGet (libCache E) key (mailboxCache s);
          s0 = s\<lparr>mailboxCache := c\<rparr>
      in case hit of
           Some mb \<Rightarrow> (Inr (Some mb), s0)
         | None \<Rightarrow>
             (case with_db (pg_FindMailbox (libPeer E) (OwnerID addr) (addrFolderPath addr)) s0 of
                (Inl e, s1) \<Rightarrow> (Inl (Wrapped ''find mailbox: '' e []), s1)
              | (Inr None, s1) \<Rightarrow> (Inr None, s1)
              | (Inr (Some record), s1) \<Rightarrow>
                  (case cache_mailbox E key record s1 of
                     (Inl e, s2) \<Rightarrow> (Inl e, s2)
                   | (Inr mb, s2) \<Rightarrow> (Inr (Some mb), s2))))"


section \<open>Delivery, retrieval and claims\<close>

text \<open>
  \<^verbatim>\<open>time.Duration(days) * 24 * time.Hour\<close> is a count of nanoseconds in 64 bits, which wraps for more than
  106751 days.
\<close>

definition days_duration :: "int \<Rightarrow> int" where
  "days_duration days = sint (word_of_int (days * 24 * 3600000000000) :: 64 word)"

definition clampExpiry :: "Message \<Rightarrow> MailboxRecord \<Rightarrow> millis \<Rightarrow> Message" where
  "clampExpiry msg record now =
     (if RetentionDays record \<le> 0 then msg
      else let limit = now + days_duration (RetentionDays record) div 1000000 in
        if ExpiryTimestamp msg \<le> 0 \<or> limit < ExpiryTimestamp msg then msg\<lparr>ExpiryTimestamp := limit\<rparr> else msg)"

definition emit :: "notifier_event \<Rightarrow> ('c, 'm) MailboxServer \<Rightarrow> ('c, 'm) MailboxServer" where
  "emit ev s = (if hasNotifier s then s\<lparr>notified := notified s @ [ev]\<rparr> else s)"

definition DeliverLocal :: "('c, 'm, 'l) libs \<Rightarrow> Message \<Rightarrow> ('c, 'm, int) srvm" where
  "DeliverLocal E msg s =
     (let folderPath = (if FolderPath msg = [] then ''inbox'' else FolderPath msg) in
      case peer_Decode (libPeer E) (RecipientPeerID msg) of
        None \<Rightarrow> (Inl (Wrapped ''decode recipient peer ID: '' (PlainError (peer_DecodeError (libPeer E) (RecipientPeerID msg))) []), s)
      | Some recipientID \<Rightarrow>
          (case NewMailboxAddress recipientID folderPath MailboxPrivate of
             Inl e \<Rightarrow> (Inl (InvalidPathError folderPath e), s)
           | Inr addr \<Rightarrow>
               (case getMailbox E addr s of
                  (Inl e, s1) \<Rightarrow> (Inl e, s1)
                | (Inr mb, s1) \<Rightarrow>
                    (let msg1 = clampExpiry msg (Record mb) (clock (Storage s1)) in
                     case with_db (mb_StoreMessage (libPeer E) mb msg1) s1 of
                       (Inl e, s2) \<Rightarrow> (Inl e, s2)
                     | (Inr _, s2) \<Rightarrow>
                         (Inr (sint (SequenceNumber msg1)),
                          emit (NotifyNewMessage (addr\<lparr>addrType := mbType (Record mb)\<rparr>) msg1) s2)))))"

definition Retrieve :: "('c, 'm, 'l) libs \<Rightarrow> MailboxAddress \<Rightarrow> peer_id \<Rightarrow> RetrieveOpts \<Rightarrow> ('c, 'm, Message list \<times> bool) srvm" where
  "Retrieve E addr callerID opts s =
     (case findMailbox E addr s of
        (Inl e, s1) \<Rightarrow> (Inl e, s1)
      | (Inr None, s1) \<Rightarrow>
          if callerID = OwnerID addr then (Inr ([], False), s1)
          else (Inl (NotFoundError (FullPath (libPeer E) addr)), s1)
      | (Inr (Some mb), s1) \<Rightarrow> with_db (mb_RetrieveMessages (libPeer E) (libText E) mb (Some callerID) opts) s1)"

text \<open>
  \<^verbatim>\<open>claimLimiters.allow\<close>. The cache holds pointers to limiters; the limiter that \<^verbatim>\<open>Allow\<close> changed is
  put back under its key.
\<close>

definition claims_allow :: "('c, 'm, 'l) libs \<Rightarrow> int \<Rightarrow> ('c, 'm) MailboxServer \<Rightarrow> bool \<times> ('c, 'm) MailboxServer" where
  "claims_allow E mid s =
     (let perHour = (if claimsPerHour s \<le> 0 then DefaultClaimsPerHour else claimsPerHour s);
          (hit, c) = ckGet (libClaims E) mid (claimCache s);
          lim = (case hit of Some l \<Rightarrow> l | None \<Rightarrow> rlNewLimiter (libRate E) perHour);
          (ok, lim') = rlAllow (libRate E) (clock (Storage s)) lim
      in (ok, s\<lparr>claimsPerHour := perHour, claimCache := ckAdd (libClaims E) mid lim' c\<rparr>))"

definition Claim :: "('c, 'm, 'l) libs \<Rightarrow> MailboxAddress \<Rightarrow> peer_id \<Rightarrow> ('c, 'm, Message option) srvm" where
  "Claim E addr callerID s =
     (case findMailbox E addr s of
        (Inl e, s1) \<Rightarrow> (Inl e, s1)
      | (Inr None, s1) \<Rightarrow> (Inl (NotFoundError (FullPath (libPeer E) addr)), s1)
      | (Inr (Some mb), s1) \<Rightarrow>
          if mbType (Record mb) \<noteq> MailboxClaim then (Inl (UnauthorizedError ''not a claim mailbox''), s1)
          else (let (ok, s2) = claims_allow E (mbID (Record mb)) s1 in
            if \<not> ok then (Inr None, s2) else with_db (pg_ClaimMessage (mbID (Record mb))) s2))"

definition MarkDelivered :: "('c, 'm, 'l) libs \<Rightarrow> peer_id \<Rightarrow> string list \<Rightarrow> ('c, 'm, int) srvm" where
  "MarkDelivered E callerID ids = with_db (pg_MarkMessagesDelivered (libPeer E) callerID ids)"

definition UpdateFlags :: "('c, 'm, 'l) libs \<Rightarrow> peer_id \<Rightarrow> string \<Rightarrow> MessageFlags \<Rightarrow> MessageFlags \<Rightarrow> ('c, 'm, MessageFlags option) srvm" where
  "UpdateFlags E callerID i addFlags removeFlags = with_db (pg_UpdateMessageFlags (libPeer E) callerID i addFlags removeFlags)"

definition DeleteMessages :: "('c, 'm, 'l) libs \<Rightarrow> peer_id \<Rightarrow> string list \<Rightarrow> ('c, 'm, int) srvm" where
  "DeleteMessages E callerID ids = with_db (pg_DeleteOwnedMessages (libPeer E) callerID ids)"


section \<open>Mailbox management and maintenance\<close>

definition CreateMailbox :: "('c, 'm, 'l) libs \<Rightarrow> MailboxAddress \<Rightarrow> int \<Rightarrow> int \<Rightarrow> int option \<Rightarrow> ('c, 'm, unit) srvm" where
  "CreateMailbox E addr maxMessages days retentionCount s =
     (case getOrCreateMailbox E addr maxMessages days retentionCount s of
        (Inl e, s1) \<Rightarrow> (Inl e, s1) | (Inr _, s1) \<Rightarrow> (Inr (), s1))"

definition DeleteMailbox :: "('c, 'm, 'l) libs \<Rightarrow> MailboxAddress \<Rightarrow> ('c, 'm, unit) srvm" where
  "DeleteMailbox E addr s =
     (case with_db (pg_FindMailbox (libPeer E) (OwnerID addr) (addrFolderPath addr)) s of
        (Inl e, s1) \<Rightarrow> (Inl e, s1)
      | (Inr None, s1) \<Rightarrow> (Inl (PlainError (''mailbox not found: '' @ FullPath (libPeer E) addr)), s1)
      | (Inr (Some record), s1) \<Rightarrow>
          (case with_db (pg_DeleteMailbox (mbID record)) s1 of
             (Inl e, s2) \<Rightarrow> (Inl e, s2)
           | (Inr _, s2) \<Rightarrow>
               (Inr (), emit (MailboxDeleted addr)
                  (s2\<lparr>mailboxCache := ckRemove (libCache E) (FullPath (libPeer E) addr) (mailboxCache s2)\<rparr>))))"

definition UpdateMailbox :: "('c, 'm, 'l) libs \<Rightarrow> MailboxRecord \<Rightarrow> ('c, 'm, unit) srvm" where
  "UpdateMailbox E record s =
     (case with_db (pg_UpdateMailbox record) s of
        (Inl e, s1) \<Rightarrow> (Inl e, s1)
      | (Inr _, s1) \<Rightarrow>
          (Inr (), s1\<lparr>mailboxCache := ckRemove (libCache E) (MailboxRecord_FullPath record) (mailboxCache s1)\<rparr>))"

definition ListMailboxes :: "('c, 'm, 'l) libs \<Rightarrow> peer_id \<Rightarrow> ('c, 'm, MailboxRecord list) srvm" where
  "ListMailboxes E ownerID = with_db (pg_ListMailboxes (libPeer E) ownerID)"

text \<open>
  \<^verbatim>\<open>PerformMaintenance\<close> on the message store: a failed expiry sweep ends it, failures of the other
  two sweeps are logged. The sweep of feed entries that follows acts on other tables.
\<close>

definition PerformMaintenance :: "('c, 'm, unit) srvm" where
  "PerformMaintenance s =
     (let ((_, e), d1) = pg_DeleteExpiredMessages (Storage s) in
      case e of
        Some err \<Rightarrow> (Inl err, s\<lparr>Storage := d1\<rparr>)
      | None \<Rightarrow>
          (let d2 = snd (pg_EnforceAllRetention d1); d3 = snd (pg_ReconcileMessageCounts d2)
           in (Inr (), s\<lparr>Storage := d3\<rparr>)))"

end
