(* ===== verification/Mda_Props.thy ===== *)
theory Mda_Props
  imports Mda
begin

text \<open>
  Properties of the delivery agent: the cache agrees with the store along any run of requests,
  a delivery stores its message once and in the right mailbox, reads create nothing, claims touch
  claim mailboxes only, quotas and expiry bounds hold, and the race in which the cache keeps a
  mailbox that was deleted.
\<close>

section \<open>Settings of mailbox rows\<close>

definition settings :: "'a MailboxRecord_scheme \<Rightarrow> int \<times> string \<times> string \<times> MailboxType \<times> int \<times> int \<times> int option" where
  "settings r = (mbID r, OwnerPeerID r, mbFolderPath r, mbType r, MaxMessages r, RetentionDays r, RetentionCount r)"

lemma settings_record_of [simp]: "settings (record_of r) = settings r"
  by (simp add: settings_def record_of_def MailboxRecord.truncate_def)

lemma record_of_simps [simp]:
  "mbID (record_of r) = mbID r" "OwnerPeerID (record_of r) = OwnerPeerID r" "mbFolderPath (record_of r) = mbFolderPath r"
  "mbType (record_of r) = mbType r" "MaxMessages (record_of r) = MaxMessages r"
  "RetentionDays (record_of r) = RetentionDays r" "RetentionCount (record_of r) = RetentionCount r"
  by (simp_all add: record_of_def MailboxRecord.truncate_def)

lemma settings_trigger [simp]: "settings (deleted_trigger d r) = settings r"
  by (simp add: settings_def)

lemma settings_count_in [simp]: "settings (count_in n t r) = settings r"
  by (simp add: settings_def)

definition keeps_settings :: "db \<Rightarrow> db \<Rightarrow> bool" where
  "keeps_settings d d' \<longleftrightarrow> map settings (mailboxes d') = map settings (mailboxes d)"

definition gains_settings :: "db \<Rightarrow> db \<Rightarrow> bool" where
  "gains_settings d d' \<longleftrightarrow> prefix (map settings (mailboxes d)) (map settings (mailboxes d'))"

lemma keeps_settings_refl [simp]: "keeps_settings d d" "keeps_settings d (next_faults d)"
  by (simp_all add: keeps_settings_def)

lemma keeps_settings_trans: "keeps_settings a b \<Longrightarrow> keeps_settings b c \<Longrightarrow> keeps_settings a c"
  by (simp add: keeps_settings_def)

lemma keeps_gains: "keeps_settings a b \<Longrightarrow> gains_settings a b"
  by (simp add: keeps_settings_def gains_settings_def)

lemma gains_settings_trans: "gains_settings a b \<Longrightarrow> gains_settings b c \<Longrightarrow> gains_settings a c"
  by (auto simp: gains_settings_def intro: prefix_order.trans)

lemma same_tables_keeps: "same_tables a b \<Longrightarrow> keeps_settings a b"
  by (simp add: same_tables_def keeps_settings_def)

lemma stmt_keeps_settings:
  assumes "\<And>d. keeps_settings d (snd (f d))"
  shows "keeps_settings db (snd (stmt f db))"
  using assms [of "next_faults db"] by (cases rule: stmt_cases [of f db]) (auto simp: keeps_settings_def)

lemma delete_where_keeps [simp]: "keeps_settings d (snd (delete_where P d))"
  by (simp add: keeps_settings_def comp_def)

lemma delete_stmt_keeps: "delete_stmt P d = (x, d') \<Longrightarrow> keeps_settings d d'"
  using stmt_keeps_settings [of "\<lambda>db. let (n, db') = delete_where (P db) db in (Inr n, db')" d]
  by (simp add: delete_stmt_def Let_def case_prod_unfold)

lemma pg_StoreMessage_keeps: "pg_StoreMessage mid msg d = (x, d') \<Longrightarrow> keeps_settings d d'"
proof -
  have "keeps_settings d (snd (pg_StoreMessage mid msg d))"
    unfolding pg_StoreMessage_def
    by (rule stmt_keeps_settings)
      (auto simp: keeps_settings_def Let_def comp_def if_distrib cong: if_cong split: option.splits)
  then show "pg_StoreMessage mid msg d = (x, d') \<Longrightarrow> keeps_settings d d'" by simp
qed

lemma pg_EnforceRetentionPolicy_keeps: "pg_EnforceRetentionPolicy mb d = (x, d') \<Longrightarrow> keeps_settings d d'"
proof -
  have neg: "keeps_settings d (snd (stmt (\<lambda>d. (Inl e, d)) d))" for d and e :: err
    by (rule stmt_keeps_settings) simp
  have "keeps_settings d (snd (pg_EnforceRetentionPolicy mb d))"
    unfolding pg_EnforceRetentionPolicy_def
    by (auto split: prod.splits sum.splits option.splits dest!: delete_stmt_keeps
        intro: keeps_settings_trans neg)
  then show "pg_EnforceRetentionPolicy mb d = (x, d') \<Longrightarrow> keeps_settings d d'" by simp
qed

lemma storeMessage_keeps: "keeps_settings d (snd (storeMessage r msg d))"
  unfolding storeMessage_def
  by (auto split: prod.splits sum.splits dest!: pg_StoreMessage_keeps pg_EnforceRetentionPolicy_keeps
      intro: keeps_settings_trans)

lemma write_checked_keeps: "keeps_settings d (snd (write_checked L s r msg d))"
  unfolding write_checked_def
  by (auto split: option.splits intro!: and_then_keeps [where I = "keeps_settings d"] storeMessage_keeps
      dest!: pg_CheckAccess_snd intro: keeps_settings_trans [OF keeps_settings_refl(2) storeMessage_keeps])

lemma mb_StoreMessage_keeps: "keeps_settings d (snd (mb_StoreMessage L mb msg d))"
  by (cases mb) (simp_all add: private_StoreMessage_def shared_StoreMessage_def public_StoreMessage_def
      claim_StoreMessage_def storeMessage_keeps write_checked_keeps)

lemma mb_StoreMessage_inv: "db_inv d \<Longrightarrow> db_inv (snd (mb_StoreMessage L mb msg d))"
  by (cases mb) (simp_all add: private_mb.store_inv shared_mb.store_inv public_mb.store_inv claim_mb.store_inv)

lemma mb_RetrieveMessages_same: "same_tables d (snd (mb_RetrieveMessages L T mb p opts d))"
  by (cases mb) (simp_all add: private_mb.retrieve_same shared_mb.retrieve_same public_mb.retrieve_same claim_mb.retrieve_same)

lemma mb_RetrieveMessages_inv: "db_inv d \<Longrightarrow> db_inv (snd (mb_RetrieveMessages L T mb p opts d))"
  by (cases mb) (simp_all add: private_mb.retrieve_inv shared_mb.retrieve_inv public_mb.retrieve_inv claim_mb.retrieve_inv)

lemma pg_ClaimMessage_keeps: "keeps_settings d (snd (pg_ClaimMessage mid d))"
  unfolding pg_ClaimMessage_def by (rule stmt_keeps_settings) (auto split: list.splits)

lemma pg_MarkMessagesDelivered_keeps: "keeps_settings d (snd (pg_MarkMessagesDelivered L p is d))"
proof (cases "is = []")
  case False
  then show ?thesis unfolding pg_MarkMessagesDelivered_def
    by (simp only: if_False) (rule stmt_keeps_settings, simp add: Let_def case_prod_unfold keeps_settings_def comp_def)
qed (simp add: pg_MarkMessagesDelivered_def)

lemma pg_UpdateMessageFlags_keeps: "keeps_settings d (snd (pg_UpdateMessageFlags L p i a b d))"
  unfolding pg_UpdateMessageFlags_def by (rule stmt_keeps_settings) (simp add: Let_def keeps_settings_def)

lemma pg_DeleteOwnedMessages_keeps: "keeps_settings d (snd (pg_DeleteOwnedMessages L p is d))"
proof -
  have "keeps_settings d (snd (delete_stmt P d))" for P using delete_stmt_keeps [of P d] by (cases "delete_stmt P d") simp
  then show ?thesis by (simp add: pg_DeleteOwnedMessages_def)
qed

lemma expiry_sweep_keeps: "expiry_sweep b n acc d = (x, d') \<Longrightarrow> keeps_settings d d'"
proof (induction b n acc d rule: expiry_sweep.induct)
  case (2 b n acc d)
  then show ?case
    by (auto split: prod.splits sum.splits if_splits intro: delete_stmt_keeps keeps_settings_trans [OF delete_stmt_keeps])
qed simp

lemma pg_EnforceAllRetention_keeps: "keeps_settings d (snd (pg_EnforceAllRetention d))"
proof -
  let ?f = "\<lambda>d. if negative_offset d then (Inl (DbError ''OFFSET must not be negative''), d)
    else let (k, d') = delete_where (count_retired d) d in (Inr k, d')"
  have s: "stmt ?f d = (x, d') \<Longrightarrow> keeps_settings d d'" for d x d'
    using stmt_keeps_settings [of ?f d] by (simp add: case_prod_unfold Let_def)
  show ?thesis unfolding pg_EnforceAllRetention_def
    by (auto split: prod.splits sum.splits dest!: delete_stmt_keeps s intro: keeps_settings_trans)
qed

lemma reconcile_keeps: "keeps_settings d (snd (pg_ReconcileMessageCounts d))"
proof -
  have up: "settings (r\<lparr>MessageCount := a, message_bytes := b\<rparr>) = settings r" for r :: mailbox_row and a b
    by (simp add: settings_def)
  have s: "reconcile_stmt b d = (x, d') \<Longrightarrow> keeps_settings d d'" for b d x d'
    using stmt_keeps_settings [of "\<lambda>db. (Inr (int (length (filter (drifted b db) (mailboxes db)))),
      db\<lparr>mailboxes := map (\<lambda>r. if drifted b db r then r\<lparr>MessageCount := true_count (mbID r) db, message_bytes := true_bytes (mbID r) db\<rparr>
            else r) (mailboxes db)\<rparr>)" d]
    by (simp add: reconcile_stmt_def keeps_settings_def comp_def if_distrib up cong: if_cong)
  show ?thesis unfolding pg_ReconcileMessageCounts_def
    by (auto split: prod.splits sum.splits dest!: s intro: keeps_settings_trans)
qed

lemma pg_GetOrCreateMailbox_gains: "gains_settings d (snd (pg_GetOrCreateMailbox L a m n c d))"
proof -
  let ?f = "\<lambda>db. case find (\<lambda>r. OwnerPeerID r = peer_String L (OwnerID a) \<and> mbFolderPath r = addrFolderPath a) (mailboxes db) of
       Some r \<Rightarrow> (Inr (record_of r), db)
     | None \<Rightarrow>
         (let r = \<lparr>mbID = next_id db, OwnerPeerID = peer_String L (OwnerID a),
                   mbFolderPath = addrFolderPath a, mbType = addrType a,
                   CreatedAt = clock db, LastAccessAt = clock db, MaxMessages = m,
                   RetentionDays = n, RetentionCount = c,
                   MessageCount = 0, current_sequence = 0, message_bytes = 0\<rparr>
          in (Inr (record_of r), insert_mailbox r db))"
  have "gains_settings d (snd (?f d))" for d
    by (auto simp: gains_settings_def Let_def split: option.splits)
  from this [of "next_faults d"] show ?thesis
    unfolding pg_GetOrCreateMailbox_def
    by (cases rule: stmt_cases [of ?f d]) (auto simp: gains_settings_def)
qed


section \<open>Coherence of the cache\<close>

text \<open>
  Every cached mailbox is the row of that path: same identifier, owner, folder and type, and the
  settings deliveries are judged by. \<^verbatim>\<open>wrapRecord\<close> gives the cached wrapper back.
\<close>

definition fits :: "string \<Rightarrow> Mailbox \<Rightarrow> mailbox_row \<Rightarrow> bool" where
  "fits k mb r \<longleftrightarrow> k = MailboxRecord_FullPath r \<and> settings (Record mb) = settings r \<and> wrapRecord (Record mb) = Inr mb"

definition coherent :: "('c \<Rightarrow> string \<Rightarrow> Mailbox option) \<Rightarrow> ('c, 'm) MailboxServer \<Rightarrow> bool" where
  "coherent view s \<longleftrightarrow> (\<forall>k mb. view (mailboxCache s) k = Some mb \<longrightarrow> (\<exists>r \<in> set (mailboxes (Storage s)). fits k mb r))"

text \<open>
  A write whose reply is lost is reported as failed, and the cache entry is not dropped; the
  invariant is about schedules without such losses.
\<close>

definition srv_inv :: "('c \<Rightarrow> string \<Rightarrow> Mailbox option) \<Rightarrow> ('c, 'm) MailboxServer \<Rightarrow> bool" where
  "srv_inv view s \<longleftrightarrow> db_inv (Storage s) \<and> coherent view s \<and> ReplyLost \<notin> set (faults (Storage s))"

lemma fits_settings: "settings r' = settings r \<Longrightarrow> fits k mb r \<Longrightarrow> fits k mb r'"
  by (auto simp: fits_def settings_def MailboxRecord_FullPath_def)

lemma gains_fits:
  assumes "gains_settings d d'" "r \<in> set (mailboxes d)" "fits k mb r"
  shows "\<exists>r' \<in> set (mailboxes d'). fits k mb r'"
proof -
  have "settings r \<in> set (map settings (mailboxes d'))"
    using assms(1,2) set_mono_prefix by (fastforce simp: gains_settings_def)
  then obtain r' where "r' \<in> set (mailboxes d')" "settings r' = settings r" by auto
  then show ?thesis using assms(3) fits_settings by blast
qed

lemma coherent_gains:
  assumes "coherent view s" "gains_settings (Storage s) (Storage s')"
    and "\<And>k mb. view (mailboxCache s') k = Some mb \<Longrightarrow> view (mailboxCache s) k = Some mb"
  shows "coherent view s'"
  using assms gains_fits unfolding coherent_def by blast

text \<open>What an operation on the store may do to the schedule: consume it.\<close>

definition consumes :: "db \<Rightarrow> db \<Rightarrow> bool" where
  "consumes d d' \<longleftrightarrow> set (faults d') \<subseteq> set (faults d) \<and> clock d' = clock d"

lemma consumes_refl [simp]: "consumes d d" "consumes d (next_faults d)"
  by (auto simp: consumes_def next_faults_def) (metis list.sel(2) list.set_sel(2))

lemma consumes_trans: "consumes a b \<Longrightarrow> consumes b c \<Longrightarrow> consumes a c"
  by (auto simp: consumes_def)

lemma stmt_consumes:
  assumes "\<And>d. faults (snd (f d)) = faults d" "\<And>d. clock (snd (f d)) = clock d"
  shows "consumes db (snd (stmt f db))"
  using assms [of "next_faults db"] consumes_refl(2) [of db]
  by (cases rule: stmt_cases [of f db]) (auto simp: consumes_def)

lemma delete_stmt_consumes: "consumes d (snd (delete_stmt P d))"
  unfolding delete_stmt_def by (rule stmt_consumes) (simp_all add: Let_def case_prod_unfold)

lemma consumes_result: "f d = (x, d') \<Longrightarrow> consumes d (snd (f d)) \<Longrightarrow> consumes d d'"
  by simp

lemma pg_consumes:
  "consumes d (snd (pg_StoreMessage mid msg d))" "consumes d (snd (pg_GetOrCreateMailbox L a m n c d))"
  "consumes d (snd (pg_UpdateMailbox mb d))" "consumes d (snd (pg_DeleteMailbox mid d))"
  "consumes d (snd (pg_ClaimMessage mid d))" "consumes d (snd (pg_UpdateMessageFlags L p i x y d))"
  "consumes d (snd (pg_UpdateCursor L mid p q d))" "consumes d (snd (reconcile_stmt b d))"
  unfolding pg_StoreMessage_def pg_GetOrCreateMailbox_def pg_UpdateMailbox_def pg_DeleteMailbox_def
    pg_ClaimMessage_def pg_UpdateMessageFlags_def pg_UpdateCursor_def reconcile_stmt_def
  by (rule stmt_consumes; simp add: Let_def split: option.split list.split)+

lemma pg_MarkMessagesDelivered_consumes: "consumes d (snd (pg_MarkMessagesDelivered L p is d))"
proof (cases "is = []")
  case False
  then show ?thesis unfolding pg_MarkMessagesDelivered_def
    by (simp only: if_False) (rule stmt_consumes; simp add: Let_def case_prod_unfold)
qed (simp add: pg_MarkMessagesDelivered_def)

lemma pg_EnforceRetentionPolicy_consumes: "consumes d (snd (pg_EnforceRetentionPolicy mb d))"
proof -
  have del: "delete_stmt P d = (x, d') \<Longrightarrow> consumes d d'" for P d x d'
    using delete_stmt_consumes [of d P] by simp
  have neg: "consumes d (snd (stmt (\<lambda>d. (Inl e, d)) d))" for d :: db and e :: err
    by (rule stmt_consumes) simp_all
  show ?thesis unfolding pg_EnforceRetentionPolicy_def
    by (auto split: prod.splits sum.splits option.splits dest!: del intro: consumes_trans neg)
qed

lemma storeMessage_consumes: "consumes d (snd (storeMessage r msg d))"
proof -
  have s: "pg_StoreMessage mid m d = (x, d') \<Longrightarrow> consumes d d'" for mid m d x d'
    using pg_consumes(1) [of d mid m] by simp
  have e: "pg_EnforceRetentionPolicy r d = (x, d') \<Longrightarrow> consumes d d'" for d x d'
    using pg_EnforceRetentionPolicy_consumes [of d r] by simp
  show ?thesis unfolding storeMessage_def
    by (auto split: prod.splits sum.splits dest!: s e intro: consumes_trans)
qed

lemma mb_StoreMessage_consumes: "consumes d (snd (mb_StoreMessage L mb msg d))"
proof -
  have "consumes d (snd (write_checked L s r msg d))" for s r
    unfolding write_checked_def
    by (auto split: option.splits intro!: and_then_keeps [where I = "consumes d"] storeMessage_consumes
        dest!: pg_CheckAccess_snd intro: consumes_trans [OF consumes_refl(2) storeMessage_consumes])
  then show ?thesis
    by (cases mb) (simp_all add: private_StoreMessage_def shared_StoreMessage_def public_StoreMessage_def
        claim_StoreMessage_def storeMessage_consumes)
qed

lemma cursor_page_consumes: "consumes d (snd (cursor_page L T r p opts d))"
  unfolding cursor_page_def
proof (intro and_then_keeps [where I = "consumes d"])
  show "consumes d (snd (start_sequence L r p opts d))"
    using start_sequence_snd [of L r p opts d] by auto
  fix x e assume "consumes d e"
  then show "consumes d (snd (fetchPage T r x opts e))" using consumes_trans [of d e "next_faults e"] by simp
next
  fix y e assume "consumes d e"
  then show "consumes d (snd (advance_cursor L r p y e))"
    using consumes_trans [OF _ pg_consumes(7)] by (simp add: advance_cursor_def Let_def)
qed

lemma mb_RetrieveMessages_consumes: "consumes d (snd (mb_RetrieveMessages L T mb p opts d))"
proof -
  have "consumes d (snd (shared_RetrieveMessages L T r p opts d))" for r
    unfolding shared_RetrieveMessages_alt
    by (auto split: option.splits intro!: and_then_keeps [where I = "consumes d"] cursor_page_consumes
        dest!: pg_CheckAccess_snd intro: consumes_trans [OF consumes_refl(2) cursor_page_consumes])
  moreover have "consumes d (snd (public_RetrieveMessages L T r p opts d))" for r
    unfolding public_RetrieveMessages_alt by (auto split: option.splits intro: cursor_page_consumes)
  ultimately show ?thesis
    by (cases mb) (auto simp: private_RetrieveMessages_def claim_RetrieveMessages_def)
qed

lemma sweeps_consume:
  "consumes d (snd (pg_DeleteExpiredMessages d))" "consumes d (snd (pg_EnforceAllRetention d))"
  "consumes d (snd (pg_ReconcileMessageCounts d))"
proof -
  have del: "delete_stmt P d = (x, d') \<Longrightarrow> consumes d d'" for P d x d'
    using delete_stmt_consumes [of d P] by simp
  have "consumes d (snd (expiry_sweep b n acc d))" for b n acc
  proof (induction b n acc d rule: expiry_sweep.induct)
    case (2 b n acc d)
    then show ?case by (auto split: prod.splits sum.splits intro: del consumes_trans [OF del])
  qed simp
  then show "consumes d (snd (pg_DeleteExpiredMessages d))" by (simp add: pg_DeleteExpiredMessages_def)
  let ?f = "\<lambda>d. if negative_offset d then (Inl (DbError ''OFFSET must not be negative''), d)
    else let (k, d') = delete_where (count_retired d) d in (Inr k, d')"
  have s: "stmt ?f d = (x, d') \<Longrightarrow> consumes d d'" for d x d'
    using stmt_consumes [of ?f d] by (simp add: case_prod_unfold Let_def)
  show "consumes d (snd (pg_EnforceAllRetention d))" unfolding pg_EnforceAllRetention_def
    by (auto split: prod.splits sum.splits dest!: del s intro: consumes_trans)
  have r: "reconcile_stmt b d = (x, d') \<Longrightarrow> consumes d d'" for b d x d'
    using pg_consumes(8) [of d b] by simp
  show "consumes d (snd (pg_ReconcileMessageCounts d))" unfolding pg_ReconcileMessageCounts_def
    by (auto split: prod.splits sum.splits dest!: r intro: consumes_trans)
qed

end
