(* ===== verification/Mda_Cache.thy ===== *)
theory Mda_Cache
  imports Mda_Props
begin

text \<open>
  The cache of the delivery agent agrees with the store along every run of requests, each running
  to its end before the next. The laws of the cache are those of \<open>lru_laws\<close>; the proofs are made
  once under them, in the locale \<open>mda_cache\<close>, which is interpreted on a concrete cache.
\<close>

section \<open>Requests to the delivery agent\<close>

datatype srv_op =
    SrvDeliver Message
  | SrvRetrieve MailboxAddress peer_id RetrieveOpts
  | SrvClaim MailboxAddress peer_id
  | SrvMarkDelivered peer_id "string list"
  | SrvUpdateFlags peer_id string MessageFlags MessageFlags
  | SrvDeleteMessages peer_id "string list"
  | SrvCreateMailbox MailboxAddress int int "int option"
  | SrvDeleteMailbox MailboxAddress
  | SrvUpdateMailbox MailboxAddress int int "int option"
  | SrvMaintenance
  | SrvEnvironment millis "bool list" "int list"

text \<open>
  The settings of a mailbox are changed as the management protocol does it: the record is read, its
  settings replaced, and the result written. The environment may make statements fail.
\<close>

fun srv_exec :: "('c, 'm, 'l) libs \<Rightarrow> srv_op \<Rightarrow> ('c, 'm) MailboxServer \<Rightarrow> ('c, 'm) MailboxServer" where
  "srv_exec E (SrvDeliver msg) s = snd (DeliverLocal E msg s)"
| "srv_exec E (SrvRetrieve a p opts) s = snd (Retrieve E a p opts s)"
| "srv_exec E (SrvClaim a p) s = snd (Claim E a p s)"
| "srv_exec E (SrvMarkDelivered p is) s = snd (MarkDelivered E p is s)"
| "srv_exec E (SrvUpdateFlags p i x y) s = snd (UpdateFlags E p i x y s)"
| "srv_exec E (SrvDeleteMessages p is) s = snd (DeleteMessages E p is s)"
| "srv_exec E (SrvCreateMailbox a m d c) s = snd (CreateMailbox E a m d c s)"
| "srv_exec E (SrvDeleteMailbox a) s = snd (DeleteMailbox E a s)"
| "srv_exec E (SrvUpdateMailbox a m d c) s =
     (case with_db (pg_FindMailbox (libPeer E) (OwnerID a) (addrFolderPath a)) s of
        (Inr (Some r), s1) \<Rightarrow> snd (UpdateMailbox E (r\<lparr>MaxMessages := m, RetentionDays := d, RetentionCount := c\<rparr>) s1)
      | (_, s1) \<Rightarrow> s1)"
| "srv_exec E SrvMaintenance s = snd (PerformMaintenance s)"
| "srv_exec E (SrvEnvironment t fs ls) s =
     s\<lparr>Storage := (Storage s)\<lparr>clock := t, faults := map (\<lambda>b. if b then Fails else Works) fs, row_locks := ls\<rparr>\<rparr>"


section \<open>Statements without lost replies\<close>

lemma wrapRecord_Record: "wrapRecord r = Inr mb \<Longrightarrow> Record mb = r"
  by (auto simp: wrapRecord_def split: if_splits)

lemma pg_FindMailbox_InrD:
  assumes "pg_FindMailbox L p f db = (Inr x, d)"
  shows "d = next_faults db \<and> (case x of
      None \<Rightarrow> (\<forall>r \<in> set (mailboxes db). \<not> (OwnerPeerID r = peer_String L p \<and> mbFolderPath r = f))
    | Some rec \<Rightarrow> (\<exists>r \<in> set (mailboxes db). rec = record_of r \<and> OwnerPeerID r = peer_String L p \<and> mbFolderPath r = f))"
  using stmt_InrD [OF assms [unfolded pg_FindMailbox_def]]
  by (auto simp: find_None_iff split: option.splits dest!: find_SomeD)

lemma pg_FindMailbox_snd: "pg_FindMailbox L p f db = (x, d) \<Longrightarrow> d = next_faults db"
  using store_reads_pure(1) [of L p f db] by simp

lemma pg_GetOrCreateMailbox_InrD:
  assumes "pg_GetOrCreateMailbox L a m n c db = (Inr rec, d)"
  shows "\<exists>r \<in> set (mailboxes d). rec = record_of r \<and> OwnerPeerID r = peer_String L (OwnerID a) \<and> mbFolderPath r = addrFolderPath a"
  using stmt_InrD [OF assms [unfolded pg_GetOrCreateMailbox_def]]
  by (auto simp: Let_def split: option.splits dest!: find_SomeD)

lemma path_record_of [simp]: "MailboxRecord_FullPath (record_of r) = MailboxRecord_FullPath r"
  by (simp add: MailboxRecord_FullPath_def)

lemma path_of_address:
  "OwnerPeerID r = peer_String L (OwnerID a) \<Longrightarrow> mbFolderPath r = addrFolderPath a
     \<Longrightarrow> MailboxRecord_FullPath r = FullPath L a"
  by (simp add: MailboxRecord_FullPath_def FullPath_def)

lemma with_db_simps [simp]:
  "Storage (snd (with_db f s)) = snd (f (Storage s))" "mailboxCache (snd (with_db f s)) = mailboxCache s"
  "claimCache (snd (with_db f s)) = claimCache s" "defaults (snd (with_db f s)) = defaults s"
  "fst (with_db f s) = fst (f (Storage s))" "notified (snd (with_db f s)) = notified s"
  "hasNotifier (snd (with_db f s)) = hasNotifier s"
  by (simp_all add: with_db_def case_prod_unfold Let_def)

lemma with_db_eq: "with_db f s = (x, s') \<longleftrightarrow> (\<exists>d. f (Storage s) = (x, d) \<and> s' = s\<lparr>Storage := d\<rparr>)"
  by (cases "f (Storage s)") (auto simp: with_db_def)

lemma with_db_inv:
  assumes "srv_inv view s" "db_inv (snd (f (Storage s)))" "gains_settings (Storage s) (snd (f (Storage s)))"
    and "consumes (Storage s) (snd (f (Storage s)))"
  shows "srv_inv view (snd (with_db f s))"
  using assms coherent_gains [of view s "snd (with_db f s)"] by (auto simp: srv_inv_def consumes_def)

lemma srv_inv_next_faults:
  assumes "srv_inv view s"
  shows "srv_inv view (s\<lparr>Storage := next_faults (Storage s)\<rparr>)"
proof -
  have "ReplyLost \<notin> set (faults (next_faults (Storage s)))"
    using assms consumes_refl(2) [of "Storage s"] by (auto simp: srv_inv_def consumes_def)
  with assms show ?thesis by (simp add: srv_inv_def coherent_def)
qed

lemma srv_inv_simps [simp]:
  "srv_inv view (emit ev s) = srv_inv view s"
  "srv_inv view (s\<lparr>claimsPerHour := n, claimCache := c\<rparr>) = srv_inv view s"
  by (simp_all add: srv_inv_def coherent_def emit_def)


section \<open>Every request keeps the cache coherent\<close>

lemma quota_result: "checkMailboxQuota E p s = (x, s') \<Longrightarrow> s' = s \<or> s' = s\<lparr>Storage := next_faults (Storage s)\<rparr>"
proof -
  have "pg_CountMailboxes L q d = (y, d') \<Longrightarrow> d' = next_faults d" for L q d y d'
    using store_reads_pure(2) [of L q d] by simp
  then show "checkMailboxQuota E p s = (x, s') \<Longrightarrow> s' = s \<or> s' = s\<lparr>Storage := next_faults (Storage s)\<rparr>"
    by (fastforce simp: checkMailboxQuota_def Let_def with_db_eq split: prod.splits sum.splits if_splits)
qed

locale mda_cache = lru_laws "libCache E" view
  for E :: "('c, 'm, 'l) libs" and view :: "'c \<Rightarrow> string \<Rightarrow> Mailbox option"
begin

lemma get_inv:
  assumes "srv_inv view s" "ckGet (libCache E) k (mailboxCache s) = (x, c)"
  shows "srv_inv view (s\<lparr>mailboxCache := c\<rparr>)"
  using assms get_eq [OF assms(2)] by (simp add: srv_inv_def coherent_def)

lemma cache_mailbox_inv:
  assumes "srv_inv view s" "r \<in> set (mailboxes (Storage s))" "key = MailboxRecord_FullPath r"
  shows "srv_inv view (snd (cache_mailbox E key (record_of r) s))"
proof (cases "wrapRecord (record_of r)")
  case (Inl e)
  then show ?thesis using assms(1) by (simp add: cache_mailbox_def)
next
  case (Inr mb)
  have "fits key mb r" using Inr assms(3) wrapRecord_Record [OF Inr] by (simp add: fits_def)
  then have "\<exists>r \<in> set (mailboxes (Storage s)). fits key mb r" using assms(2) by blast
  then have "\<exists>r \<in> set (mailboxes (Storage s)). fits k m r"
    if "view (ckAdd (libCache E) key mb (mailboxCache s)) k = Some m" for k m
    using add_all [where P = "\<lambda>k m. \<exists>r \<in> set (mailboxes (Storage s)). fits k m r", OF _ _ that] assms(1)
    by (auto simp: srv_inv_def coherent_def)
  then show ?thesis using assms(1) Inr by (simp add: cache_mailbox_def srv_inv_def coherent_def)
qed

lemma find_db_inv:
  assumes "srv_inv view s" "with_db (pg_FindMailbox L p f) s = (x, s')"
  shows "srv_inv view s'" "mailboxes (Storage s') = mailboxes (Storage s)"
  using assms srv_inv_next_faults [OF assms(1)] by (auto simp: with_db_eq dest!: pg_FindMailbox_snd)

lemma create_db_inv:
  assumes "srv_inv view s" "with_db (pg_GetOrCreateMailbox L a m n c) s = (x, s')"
  shows "srv_inv view s'"
proof -
  have "srv_inv view (snd (with_db (pg_GetOrCreateMailbox L a m n c) s))"
    using assms(1) by (intro with_db_inv)
      (auto simp: srv_inv_def pg_GetOrCreateMailbox_inv pg_GetOrCreateMailbox_gains pg_consumes(2))
  then show ?thesis using assms(2) by simp
qed

lemma getOrCreateMailbox_inv:
  assumes "srv_inv view s"
  shows "srv_inv view (snd (getOrCreateMailbox E a m n c s))"
proof -
  obtain hit c0 where get: "ckGet (libCache E) (FullPath (libPeer E) a) (mailboxCache s) = (hit, c0)" by fastforce
  let ?s0 = "s\<lparr>mailboxCache := c0\<rparr>"
  have i0: "srv_inv view ?s0" using assms get by (rule get_inv)
  obtain x s1 where f: "with_db (pg_FindMailbox (libPeer E) (OwnerID a) (addrFolderPath a)) ?s0 = (x, s1)" by fastforce
  have i1: "srv_inv view s1" using i0 f by (rule find_db_inv)
  obtain y s2 where q: "(if x = Inr None then checkMailboxQuota E (OwnerID a) s1 else (Inr (), s1)) = (y, s2)" by fastforce
  have i2: "srv_inv view s2"
    using q i1 srv_inv_next_faults [OF i1] quota_result [of E "OwnerID a" s1 y s2] by (auto split: if_splits)
  obtain z s3 where g: "with_db (pg_GetOrCreateMailbox (libPeer E) a m n c) s2 = (z, s3)" by fastforce
  have i3: "srv_inv view s3" using i2 g by (rule create_db_inv)
  have i4: "srv_inv view (snd (cache_mailbox E (FullPath (libPeer E) a) rec s3))" if "z = Inr rec" for rec
  proof -
    have "pg_GetOrCreateMailbox (libPeer E) a m n c (Storage s2) = (Inr rec, Storage s3)"
      using g that by (auto simp: with_db_eq)
    from pg_GetOrCreateMailbox_InrD [OF this]
    obtain r where "r \<in> set (mailboxes (Storage s3))" "rec = record_of r"
        "OwnerPeerID r = peer_String (libPeer E) (OwnerID a)" "mbFolderPath r = addrFolderPath a"
      by blast
    then show ?thesis using cache_mailbox_inv [OF i3] path_of_address by metis
  qed
  show ?thesis
  proof (cases hit)
    case None
    note hit = None
    show ?thesis
    proof (cases x)
      case (Inl e)
      then show ?thesis using hit get f i1 by (simp add: getOrCreateMailbox_def)
    next
      case (Inr ex)
      have q': "(if ex = None then checkMailboxQuota E (OwnerID a) s1 else (Inr (), s1)) = (y, s2)"
        using q Inr by simp
      show ?thesis
        by (cases y; cases z) (use hit get f g q' i2 i3 i4 Inr in \<open>simp_all add: getOrCreateMailbox_def\<close>)
    qed
  qed (use get i0 in \<open>simp add: getOrCreateMailbox_def\<close>)
qed

lemma findMailbox_inv:
  assumes "srv_inv view s"
  shows "srv_inv view (snd (findMailbox E a s))"
proof -
  obtain hit c0 where get: "ckGet (libCache E) (FullPath (libPeer E) a) (mailboxCache s) = (hit, c0)" by fastforce
  let ?s0 = "s\<lparr>mailboxCache := c0\<rparr>"
  have i0: "srv_inv view ?s0" using assms get by (rule get_inv)
  obtain x s1 where f: "with_db (pg_FindMailbox (libPeer E) (OwnerID a) (addrFolderPath a)) ?s0 = (x, s1)" by fastforce
  have i1: "srv_inv view s1" using i0 f by (rule find_db_inv)
  have i2: "srv_inv view (snd (cache_mailbox E (FullPath (libPeer E) a) rec s1))" if rec: "x = Inr (Some rec)" for rec
  proof -
    have "pg_FindMailbox (libPeer E) (OwnerID a) (addrFolderPath a) (Storage ?s0) = (Inr (Some rec), Storage s1)"
      using f rec by (auto simp: with_db_eq)
    then obtain r where "r \<in> set (mailboxes (Storage s))" "rec = record_of r"
        "OwnerPeerID r = peer_String (libPeer E) (OwnerID a)" "mbFolderPath r = addrFolderPath a"
      by (auto dest!: pg_FindMailbox_InrD)
    moreover have "mailboxes (Storage s1) = mailboxes (Storage s)" using find_db_inv(2) [OF i0 f] by simp
    ultimately show ?thesis using cache_mailbox_inv [OF i1] path_of_address by metis
  qed
  show ?thesis
  proof (cases hit)
    case None
    note hit = None
    show ?thesis
    proof (cases x)
      case (Inl e)
      then show ?thesis using hit get f i1 by (simp add: findMailbox_def)
    next
      case (Inr ex)
      show ?thesis
      proof (cases ex)
        case None
        then show ?thesis using hit get f i1 Inr by (simp add: findMailbox_def)
      next
        case (Some rec)
        obtain w s2 where c: "cache_mailbox E (FullPath (libPeer E) a) rec s1 = (w, s2)" by fastforce
        have "srv_inv view s2" using i2 Inr Some c by (metis snd_conv)
        then show ?thesis by (cases w) (use hit get f c Inr Some in \<open>simp_all add: findMailbox_def\<close>)
      qed
    qed
  qed (use get i0 in \<open>simp add: findMailbox_def\<close>)
qed

lemma DeliverLocal_inv:
  assumes "srv_inv view s"
  shows "srv_inv view (snd (DeliverLocal E msg s))"
proof -
  have store: "srv_inv view s2" if "srv_inv view s1" "with_db (mb_StoreMessage L mb m) s1 = (x, s2)" for L mb m s1 x s2
  proof -
    have "srv_inv view (snd (with_db (mb_StoreMessage L mb m) s1))"
      using that(1) by (intro with_db_inv)
        (auto simp: srv_inv_def mb_StoreMessage_inv keeps_gains mb_StoreMessage_keeps mb_StoreMessage_consumes)
    then show ?thesis using that(2) by simp
  qed
  have get: "srv_inv view s1" if "getMailbox E a s = (x, s1)" for a x s1
    using getOrCreateMailbox_inv [OF assms] that by (metis getMailbox_def snd_conv)
  let ?f = "if FolderPath msg = [] then ''inbox'' else FolderPath msg"
  show ?thesis
  proof (cases "peer_Decode (libPeer E) (RecipientPeerID msg)")
    case (Some q)
    note q = Some
    show ?thesis
    proof (cases "NewMailboxAddress q ?f MailboxPrivate")
      case (Inr a)
      obtain x s1 where g: "getMailbox E a s = (x, s1)" by fastforce
      show ?thesis
      proof (cases x)
        case (Inr mb)
        note mb = Inr
        obtain y s2 where st: "with_db (mb_StoreMessage (libPeer E) mb (clampExpiry msg (Record mb) (clock (Storage s1)))) s1 = (y, s2)" by fastforce
        have "srv_inv view s2" using get [OF g] st by (rule store)
        then show ?thesis
          by (cases y) (use q \<open>NewMailboxAddress q ?f MailboxPrivate = Inr a\<close> g mb st in \<open>simp_all add: DeliverLocal_def Let_def\<close>)
      qed (use q Inr g get [OF g] in \<open>simp add: DeliverLocal_def Let_def\<close>)
    qed (use q assms in \<open>simp add: DeliverLocal_def Let_def\<close>)
  qed (use assms in \<open>simp add: DeliverLocal_def Let_def\<close>)
qed

lemma Retrieve_inv:
  assumes "srv_inv view s"
  shows "srv_inv view (snd (Retrieve E a p opts s))"
proof -
  have find: "srv_inv view s1" if "findMailbox E a s = (x, s1)" for x s1
    using findMailbox_inv [OF assms, of a] that by simp
  have "srv_inv view (snd (with_db (mb_RetrieveMessages L T mb q opts) s1))" if "srv_inv view s1" for L T mb q s1
    using that by (intro with_db_inv)
      (auto simp: srv_inv_def mb_RetrieveMessages_inv same_tables_keeps mb_RetrieveMessages_same mb_RetrieveMessages_consumes
        intro: keeps_gains)
  then show ?thesis unfolding Retrieve_def
    by (auto split: prod.splits sum.splits option.splits dest!: find)
qed

lemma Claim_inv:
  assumes "srv_inv view s"
  shows "srv_inv view (snd (Claim E a p s))"
proof -
  have find: "srv_inv view s1" if "findMailbox E a s = (x, s1)" for x s1
    using findMailbox_inv [OF assms, of a] that by simp
  have claim: "srv_inv view (snd (with_db (pg_ClaimMessage mid) s1))" if "srv_inv view s1" for mid s1
    using that by (intro with_db_inv)
      (auto simp: srv_inv_def pg_ClaimMessage_inv pg_ClaimMessage_keeps pg_consumes intro: keeps_gains)
  have allow: "srv_inv view s2" if "srv_inv view s1" "claims_allow E mid s1 = (b, s2)" for mid s1 b s2
    using that by (auto simp: claims_allow_def Let_def split: prod.splits)
  show ?thesis unfolding Claim_def
    by (auto simp: Let_def split: prod.splits sum.splits option.splits dest!: find intro: allow claim)
qed

text \<open>
  Replacing or deleting the row with the identifier of a record leaves the rows of the other paths,
  and the entry of the record's own path is dropped.
\<close>

lemma drop_entry_inv:
  assumes inv: "srv_inv view s" and r: "r \<in> set (mailboxes (Storage s))" "mbID r = i" "MailboxRecord_FullPath r = k"
    and d: "db_inv d" "ReplyLost \<notin> set (faults d)"
    and kept: "\<And>x. x \<in> set (mailboxes (Storage s)) \<Longrightarrow> mbID x \<noteq> i \<Longrightarrow> x \<in> set (mailboxes d)"
  shows "srv_inv view (s\<lparr>Storage := d, mailboxCache := ckRemove (libCache E) k (mailboxCache s)\<rparr>)"
proof -
  have "\<exists>x \<in> set (mailboxes d). fits k' mb x" if v: "view (ckRemove (libCache E) k (mailboxCache s)) k' = Some mb" for k' mb
  proof -
    have k': "k' \<noteq> k" and old: "view (mailboxCache s) k' = Some mb"
      using v by (auto simp: remove split: if_splits)
    obtain x where x: "x \<in> set (mailboxes (Storage s))" "fits k' mb x"
      using inv old by (auto simp: srv_inv_def coherent_def)
    have "mbID x \<noteq> i"
    proof
      assume "mbID x = i"
      then have "x = r" using inv x(1) r(1,2) distinct_key_unique [of mbID "mailboxes (Storage s)" x r]
        by (simp add: srv_inv_def db_inv_def ids_ok_def)
      then show False using x(2) r(3) k' by (simp add: fits_def)
    qed
    then show ?thesis using kept x by blast
  qed
  with d show ?thesis by (simp add: srv_inv_def coherent_def)
qed

lemma found_row:
  assumes "with_db (pg_FindMailbox (libPeer E) (OwnerID a) (addrFolderPath a)) s = (Inr (Some rec), s1)"
  obtains r where "r \<in> set (mailboxes (Storage s1))" "rec = record_of r" "MailboxRecord_FullPath r = FullPath (libPeer E) a"
proof -
  have "pg_FindMailbox (libPeer E) (OwnerID a) (addrFolderPath a) (Storage s) = (Inr (Some rec), Storage s1)"
    using assms by (auto simp: with_db_eq)
  from pg_FindMailbox_InrD [OF this] obtain r where "r \<in> set (mailboxes (Storage s1))" "rec = record_of r"
      "OwnerPeerID r = peer_String (libPeer E) (OwnerID a)" "mbFolderPath r = addrFolderPath a"
    by auto
  then show ?thesis using that path_of_address by metis
qed

lemma DeleteMailbox_inv:
  assumes "srv_inv view s"
  shows "srv_inv view (snd (DeleteMailbox E a s))"
proof -
  obtain x s1 where f: "with_db (pg_FindMailbox (libPeer E) (OwnerID a) (addrFolderPath a)) s = (x, s1)" by fastforce
  have i1: "srv_inv view s1" using assms f by (rule find_db_inv)
  show ?thesis
  proof (cases "\<exists>rec. x = Inr (Some rec)")
    case False
    then show ?thesis using f i1 by (auto simp: DeleteMailbox_def split: sum.splits option.splits)
  next
    case True
    then obtain rec where x: "x = Inr (Some rec)" by blast
    obtain r where r: "r \<in> set (mailboxes (Storage s1))" "rec = record_of r" "MailboxRecord_FullPath r = FullPath (libPeer E) a"
      using f unfolding x by (rule found_row)
    have lost: "ReplyLost \<notin> set (faults (Storage s1))" using i1 by (simp add: srv_inv_def)
    obtain y d where del: "pg_DeleteMailbox (mbID rec) (Storage s1) = (y, d)" by fastforce
    have dinv: "db_inv d" "ReplyLost \<notin> set (faults d)"
      using del i1 pg_DeleteMailbox_inv [of "Storage s1" "mbID rec"] pg_consumes(4) [of "Storage s1" "mbID rec"]
      by (auto simp: srv_inv_def consumes_def)
    show ?thesis
    proof (cases y)
      case (Inl e)
      then have "d = next_faults (Storage s1)"
        using stmt_failed_noop [OF lost _ del [unfolded Inl pg_DeleteMailbox_def]] by simp
      then show ?thesis
        using f x del Inl srv_inv_next_faults [OF i1] by (simp add: DeleteMailbox_def with_db_def)
    next
      case (Inr u)
      have "y \<in> set (mailboxes d)" if "y \<in> set (mailboxes (Storage s1))" "mbID y \<noteq> mbID r" for y
        using that stmt_InrD [OF del [unfolded Inr pg_DeleteMailbox_def]] r(2) by auto
      then have "srv_inv view (s1\<lparr>Storage := d, mailboxCache := ckRemove (libCache E) (FullPath (libPeer E) a) (mailboxCache s1)\<rparr>)"
        using drop_entry_inv [OF i1 r(1) refl r(3) dinv] by blast
      then show ?thesis using f x del Inr by (simp add: DeleteMailbox_def with_db_def)
    qed
  qed
qed

lemma UpdateMailbox_inv:
  assumes inv: "srv_inv view s" and r: "r \<in> set (mailboxes (Storage s))" "mbID rec = mbID r"
    "MailboxRecord_FullPath rec = MailboxRecord_FullPath r"
  shows "srv_inv view (snd (UpdateMailbox E rec s))"
proof -
  have lost: "ReplyLost \<notin> set (faults (Storage s))" using inv by (simp add: srv_inv_def)
  obtain y d where upd: "pg_UpdateMailbox rec (Storage s) = (y, d)" by fastforce
  have dinv: "db_inv d" "ReplyLost \<notin> set (faults d)"
    using upd inv pg_UpdateMailbox_inv [of "Storage s" rec] pg_consumes(3) [of "Storage s" rec]
    by (auto simp: srv_inv_def consumes_def)
  show ?thesis
  proof (cases y)
    case (Inl e)
    then have "d = next_faults (Storage s)"
      using stmt_failed_noop [OF lost _ upd [unfolded Inl pg_UpdateMailbox_def]] by simp
    then show ?thesis using upd Inl srv_inv_next_faults [OF inv] by (simp add: UpdateMailbox_def with_db_def)
  next
    case (Inr u)
    have "y \<in> set (mailboxes d)" if "y \<in> set (mailboxes (Storage s))" "mbID y \<noteq> mbID r" for y
      using that stmt_InrD [OF upd [unfolded Inr pg_UpdateMailbox_def]] r(2) by auto
    then have "srv_inv view (s\<lparr>Storage := d, mailboxCache := ckRemove (libCache E) (MailboxRecord_FullPath rec) (mailboxCache s)\<rparr>)"
      using drop_entry_inv [OF inv r(1) refl r(3) [symmetric] dinv] by blast
    then show ?thesis using upd Inr by (simp add: UpdateMailbox_def with_db_def)
  qed
qed

lemma PerformMaintenance_inv:
  assumes "srv_inv view s"
  shows "srv_inv view (snd (PerformMaintenance s))"
proof -
  have mono: "srv_inv view (t\<lparr>Storage := d\<rparr>)" if "srv_inv view t" "db_inv d" "keeps_settings (Storage t) d" "consumes (Storage t) d" for t d
    using that with_db_inv [of view t "\<lambda>_. (Inr (), d)"] by (simp add: keeps_gains with_db_def)
  obtain res d1 where e: "pg_DeleteExpiredMessages (Storage s) = (res, d1)" by fastforce
  have d1: "db_inv d1" "keeps_settings (Storage s) d1" "consumes (Storage s) d1"
    using e assms expiry_sweep_inv [of "Storage s"] expiry_sweep_keeps sweeps_consume(1) [of "Storage s"]
    by (auto simp: srv_inv_def pg_DeleteExpiredMessages_def) (metis snd_conv)+
  let ?d2 = "snd (pg_EnforceAllRetention d1)"
  let ?d3 = "snd (pg_ReconcileMessageCounts ?d2)"
  have "db_inv ?d3" using d1 by (simp add: pg_EnforceAllRetention_inv pg_ReconcileMessageCounts_inv)
  moreover have "keeps_settings (Storage s) ?d3"
    using d1(2) pg_EnforceAllRetention_keeps reconcile_keeps keeps_settings_trans by blast
  moreover have "consumes (Storage s) ?d3" using d1(3) sweeps_consume consumes_trans by blast
  ultimately show ?thesis
    using e d1 assms by (auto simp: PerformMaintenance_def Let_def intro: mono split: prod.splits option.splits)
qed

lemma srv_exec_inv:
  assumes "srv_inv view s"
  shows "srv_inv view (srv_exec E op s)"
proof (cases op)
  case (SrvMarkDelivered p "is")
  have "srv_inv view (snd (with_db (pg_MarkMessagesDelivered (libPeer E) p is) s))"
    using assms by (intro with_db_inv) (auto simp: srv_inv_def pg_MarkMessagesDelivered_inv
        pg_MarkMessagesDelivered_consumes pg_MarkMessagesDelivered_keeps keeps_gains)
  then show ?thesis by (simp add: SrvMarkDelivered MarkDelivered_def)
next
  case (SrvUpdateFlags p i x y)
  have "srv_inv view (snd (with_db (pg_UpdateMessageFlags (libPeer E) p i x y) s))"
    using assms by (intro with_db_inv) (auto simp: srv_inv_def pg_UpdateMessageFlags_inv pg_consumes
        pg_UpdateMessageFlags_keeps keeps_gains)
  then show ?thesis by (simp add: SrvUpdateFlags UpdateFlags_def)
next
  case (SrvDeleteMessages p "is")
  have "consumes d (snd (pg_DeleteOwnedMessages (libPeer E) p is d))" for d
    by (simp add: pg_DeleteOwnedMessages_def delete_stmt_consumes)
  then have "srv_inv view (snd (with_db (pg_DeleteOwnedMessages (libPeer E) p is) s))"
    using assms by (intro with_db_inv) (auto simp: srv_inv_def pg_deletes_inv
        pg_DeleteOwnedMessages_keeps keeps_gains)
  then show ?thesis by (simp add: SrvDeleteMessages DeleteMessages_def)
next
  case (SrvCreateMailbox a m d c)
  have "srv_inv view (snd (getOrCreateMailbox E a m d c s))" using assms by (rule getOrCreateMailbox_inv)
  then show ?thesis by (auto simp: SrvCreateMailbox CreateMailbox_def split: prod.splits sum.splits)
next
  case (SrvUpdateMailbox a m d c)
  obtain x s1 where f: "with_db (pg_FindMailbox (libPeer E) (OwnerID a) (addrFolderPath a)) s = (x, s1)" by fastforce
  have i1: "srv_inv view s1" using assms f by (rule find_db_inv)
  show ?thesis
  proof (cases "\<exists>rec. x = Inr (Some rec)")
    case True
    then obtain rec where x: "x = Inr (Some rec)" by blast
    obtain r where r: "r \<in> set (mailboxes (Storage s1))" "rec = record_of r" "MailboxRecord_FullPath r = FullPath (libPeer E) a"
      using f unfolding x by (rule found_row)
    then have "srv_inv view (snd (UpdateMailbox E (rec\<lparr>MaxMessages := m, RetentionDays := d, RetentionCount := c\<rparr>) s1))"
      by (intro UpdateMailbox_inv [OF i1 r(1)]) (simp_all add: MailboxRecord_FullPath_def)
    then show ?thesis using f x by (simp add: SrvUpdateMailbox)
  qed (use f i1 in \<open>auto simp: SrvUpdateMailbox split: sum.splits option.splits\<close>)
next
  case (SrvEnvironment t fs ls)
  then show ?thesis using assms by (auto simp: srv_inv_def coherent_def)
qed (simp_all add: assms DeliverLocal_inv Retrieve_inv Claim_inv DeleteMailbox_inv PerformMaintenance_inv)

end

sublocale mda_cache \<subseteq> srv_run: inv_system "srv_exec E" "srv_inv view"
  by unfold_locales (rule srv_exec_inv)

end
