(* ===== verification/Mda_Delivery.thy ===== *)
theory Mda_Delivery
  imports Mda_Cache
begin

text \<open>
  The properties of the delivery agent, stated for any cache that keeps the laws of \<open>lru_laws\<close>.
\<close>

section \<open>A concrete server\<close>

definition demo_rate :: "int rate_lib" where
  "demo_rate = \<lparr>rlNewLimiter = (\<lambda>n. n), rlAllow = (\<lambda>_ n. if 0 < n then (True, n - 1) else (False, n))\<rparr>"

definition demo_libs :: "((string \<times> Mailbox) list, (int \<times> int) list, int) libs" where
  "demo_libs = \<lparr>libPeer = hex_peers, libText = no_text, libCache = lru_list 3, libClaims = lru_list 3, libRate = demo_rate\<rparr>"

definition demo_srv :: "((string \<times> Mailbox) list, (int \<times> int) list) MailboxServer" where
  "demo_srv = \<lparr>Storage = demo_db, mailboxCache = [], claimCache = [], claimsPerHour = 0,
     defaults = DefaultsFromConfig None, hasNotifier = True, notified = []\<rparr>"

interpretation demo_cache: mda_cache demo_libs map_of
  by (simp add: mda_cache_def demo_libs_def lru_list_laws.lru_laws_axioms)

lemma demo_lru: "lru_laws (libCache demo_libs) map_of"
  by (simp add: demo_libs_def lru_list_laws.lru_laws_axioms)

lemma demo_srv_inv: "srv_inv map_of demo_srv"
proof -
  have "faults demo_db = []" by code_simp
  then show ?thesis by (simp add: srv_inv_def coherent_def demo_srv_def demo_db_inv)
qed


section \<open>Properties\<close>

text \<open>
  Where requests are served one after the other, the cache never lies: after any sequence of
  deliveries, retrievals, claims, acknowledgements, mailbox creations, updates and deletions and
  maintenance, in any order and with statements failing at will (but none that takes effect and
  loses its reply), every cached mailbox is the stored one of that path with its current type, cap
  and retention, and the store keeps its invariant. Requests that overlap are not covered: a load
  that a deletion overtakes leaves a stale entry, as \<open>Mda_Access\<close> shows.
\<close>

theorem cache_stays_coherent:
  assumes "lru_laws (libCache E) view" "srv_inv view s"
  shows "srv_inv view (fold (srv_exec E) ops s)"
proof -
  have "inv_system (srv_exec E) (srv_inv view)"
    by (rule inv_system.intro) (rule mda_cache.srv_exec_inv [OF mda_cache.intro [OF assms(1)]])
  then show ?thesis using assms(2) by (rule inv_system.run_inv)
qed

theorem cache_stays_coherent_witness:
  "srv_inv map_of (fold (srv_exec demo_libs) [SrvDeliver (demo_msg ''m2'' 0), SrvUpdateMailbox (NewInbox (PeerID ''B'')) 5 7 None] demo_srv)
   \<and> map fst (mailboxCache (srv_exec demo_libs (SrvDeliver (demo_msg ''m2'' 0)) demo_srv)) = [''42/inbox'']
   \<and> mailboxCache (fold (srv_exec demo_libs) [SrvDeliver (demo_msg ''m2'' 0), SrvUpdateMailbox (NewInbox (PeerID ''B'')) 5 7 None] demo_srv) = []"
proof (intro conjI)
  show "map fst (mailboxCache (srv_exec demo_libs (SrvDeliver (demo_msg ''m2'' 0)) demo_srv)) = [''42/inbox'']" by code_simp
  show "mailboxCache (fold (srv_exec demo_libs) [SrvDeliver (demo_msg ''m2'' 0), SrvUpdateMailbox (NewInbox (PeerID ''B'')) 5 7 None] demo_srv) = []"
    by code_simp
qed (rule cache_stays_coherent [OF demo_lru demo_srv_inv])


subsection \<open>Delivery\<close>

lemma typed_full_error:
  assumes "pg_StoreMessage mid msg d = (Inl e, d')" "errors_as is_MailboxFullError e \<noteq> None"
  shows "d' = next_faults d"
proof -
  have "e \<noteq> DbError x" for x using assms(2) by (auto simp: errors_as_def)
  then show ?thesis
    using stmt_typed_errorD [OF assms(1) [unfolded pg_StoreMessage_def]]
    by (auto simp: Let_def split: option.splits if_splits)
qed

lemma newest_first_mailbox: "m \<in> set (newest_first mid d) \<Longrightarrow> smMailboxID m = mid \<and> m \<in> set (stored_messages d)"
  by (auto simp: newest_first_def messages_of_def)

lemma delete_stmt_InrD: "delete_stmt P d = (Inr n, d') \<Longrightarrow> d' = snd (delete_where (P (next_faults d)) (next_faults d))"
  unfolding delete_stmt_def by (auto simp: Let_def case_prod_unfold dest!: stmt_InrD)

lemma enforce_policy_steps:
  assumes e: "pg_EnforceRetentionPolicy mb d = (Inr u, d')"
  obtains n d1 where
    "delete_stmt (\<lambda>d m. smMailboxID m = mbID mb \<and> smCreatedAt m < clock d - day_ms * RetentionDays mb) d = (Inr n, d1)"
    "case RetentionCount mb of None \<Rightarrow> d' = d1
       | Some j \<Rightarrow> \<exists>i. delete_stmt (\<lambda>d m. smID m \<in> set (map smID (drop (nat j) (newest_first (mbID mb) d)))) d1 = (Inr i, d')"
proof (cases "delete_stmt (\<lambda>d m. smMailboxID m = mbID mb \<and> smCreatedAt m < clock d - day_ms * RetentionDays mb) d")
  case (Pair x d1)
  then obtain n where x: "x = Inr n" using e by (cases x) (simp_all add: pg_EnforceRetentionPolicy_def)
  show ?thesis
  proof (cases "RetentionCount mb")
    case None
    then show ?thesis using that e Pair x by (simp add: pg_EnforceRetentionPolicy_def)
  next
    case (Some j)
    have "\<not> j < 0" using e Pair x Some by (auto simp: pg_EnforceRetentionPolicy_def dest!: stmt_InrD)
    then show ?thesis
      using that e Pair x Some by (auto simp: pg_EnforceRetentionPolicy_def split: prod.splits sum.splits)
  qed
qed

text \<open>
  What the policy of a mailbox keeps of its messages, in their order: those young enough, and of
  them, where the mailbox has a count, no more than that many with the highest numbers.
\<close>

definition policy_keeps :: "'a MailboxRecord_scheme \<Rightarrow> millis \<Rightarrow> StoredMessageRecord list \<Rightarrow> StoredMessageRecord list" where
  "policy_keeps mb now ms =
     (let young = filter (\<lambda>m. now - day_ms * RetentionDays mb \<le> smCreatedAt m) ms in
      case RetentionCount mb of
        None \<Rightarrow> young
      | Some k \<Rightarrow> filter (\<lambda>m. m \<notin> set (drop (nat k) (sort_key (\<lambda>m. - smSequenceNumber m) young))) young)"

lemma messages_of_delete:
  "messages_of k (snd (delete_where P d)) = filter (\<lambda>m. \<not> P m) (messages_of k d)"
  by (simp add: messages_of_def conj_commute)

text \<open>The count rule names rows by identifier; it deletes the old rows of its mailbox and no other.\<close>

lemma count_rule:
  assumes inv: "db_inv d" and m: "m \<in> set (stored_messages d)"
  shows "smID m \<in> set (map smID (drop j (newest_first mid d))) \<longleftrightarrow> m \<in> set (drop j (newest_first mid d))"
proof -
  have dist: "distinct (map smID (stored_messages d))" using inv by (simp add: db_inv_def msgs_ok_def)
  have "x = m" if "x \<in> set (drop j (newest_first mid d))" "smID x = smID m" for x
    using that newest_first_mailbox [of x mid d] m distinct_key_unique [OF dist] by (blast dest: in_set_dropD)
  then show ?thesis by force
qed

lemma enforce_policy_messages:
  assumes inv: "db_inv d" and e: "pg_EnforceRetentionPolicy mb d = (Inr u, d')"
  shows "messages_of (mbID mb) d' = policy_keeps mb (clock d) (messages_of (mbID mb) d)"
    and "k \<noteq> mbID mb \<Longrightarrow> messages_of k d' = messages_of k d"
proof -
  let ?P = "\<lambda>m. smMailboxID m = mbID mb \<and> smCreatedAt m < clock d - day_ms * RetentionDays mb"
  obtain n d1 where d1: "delete_stmt (\<lambda>d m. smMailboxID m = mbID mb \<and> smCreatedAt m < clock d - day_ms * RetentionDays mb) d = (Inr n, d1)"
    and rest: "case RetentionCount mb of None \<Rightarrow> d' = d1
       | Some j \<Rightarrow> \<exists>i. delete_stmt (\<lambda>d m. smID m \<in> set (map smID (drop (nat j) (newest_first (mbID mb) d)))) d1 = (Inr i, d')"
    using e by (rule enforce_policy_steps)
  have inv1: "db_inv d1" using delete_stmt_inv [OF inv] d1 by (metis snd_conv)
  have one: "messages_of k d1 = filter (\<lambda>m. \<not> ?P m) (messages_of k d)" for k
    unfolding delete_stmt_InrD [OF d1] messages_of_delete by (simp add: messages_of_insert)
  have young: "messages_of (mbID mb) d1 = filter (\<lambda>m. clock d - day_ms * RetentionDays mb \<le> smCreatedAt m) (messages_of (mbID mb) d)"
    unfolding one by (rule filter_cong) (auto simp: messages_of_def)
  have old: "messages_of k d1 = messages_of k d" if "k \<noteq> mbID mb" for k
    unfolding one using that by (auto simp: messages_of_def intro!: filter_cong)
  let ?drop = "\<lambda>j. drop (nat j) (newest_first (mbID mb) d1)"
  have two: "messages_of k d' = filter (\<lambda>m. m \<notin> set (?drop j)) (messages_of k d1)" if cnt: "RetentionCount mb = Some j" for j k
  proof -
    obtain i where d2: "delete_stmt (\<lambda>d m. smID m \<in> set (map smID (drop (nat j) (newest_first (mbID mb) d)))) d1 = (Inr i, d')"
      using rest cnt by auto
    have nf: "newest_first (mbID mb) (next_faults d1) = newest_first (mbID mb) d1" by (simp add: newest_first_def messages_of_insert)
    show ?thesis
      unfolding delete_stmt_InrD [OF d2] messages_of_delete nf messages_of_insert
      using count_rule [OF inv1] by (intro filter_cong) (auto simp: messages_of_def)
  qed
  show "messages_of (mbID mb) d' = policy_keeps mb (clock d) (messages_of (mbID mb) d)"
    using two [of _ "mbID mb"] rest young by (cases "RetentionCount mb") (auto simp: policy_keeps_def newest_first_def)
  show "messages_of k d' = messages_of k d" if k: "k \<noteq> mbID mb"
  proof (cases "RetentionCount mb")
    case (Some j)
    have "m \<notin> set (?drop j)" if "m \<in> set (messages_of k d1)" for m
      using that k newest_first_mailbox [of m "mbID mb" d1] by (auto simp: messages_of_def dest: in_set_dropD)
    then show ?thesis using two [OF Some] old [OF k] by (simp add: filter_id_conv)
  qed (use rest old [OF k] in auto)
qed

text \<open>
  What a store leaves: the message appended, numbered by the mailbox, to the messages there were,
  or, where the mailbox was full and has a retention count, to those its policy keeps.
\<close>

definition full_mailbox :: "int \<Rightarrow> db \<Rightarrow> bool" where
  "full_mailbox mid d \<longleftrightarrow> list_ex (\<lambda>r. mbID r = mid \<and> 0 < MaxMessages r \<and> MaxMessages r \<le> int (length (messages_of mid d))) (mailboxes d)"

definition kept_before :: "MailboxRecord \<Rightarrow> db \<Rightarrow> StoredMessageRecord list \<Rightarrow> bool" where
  "kept_before rec d ms \<longleftrightarrow> ms = messages_of (mbID rec) d
     \<or> RetentionCount rec \<noteq> None \<and> full_mailbox (mbID rec) d \<and> ms = policy_keeps rec (clock d) (messages_of (mbID rec) d)"

definition appended :: "MailboxRecord \<Rightarrow> Message \<Rightarrow> db \<Rightarrow> db \<Rightarrow> bool" where
  "appended rec msg d d' \<longleftrightarrow>
     (\<exists>kept row. messages_of (mbID rec) d' = kept @ [row] \<and> kept_before rec d kept
        \<and> scanMessage row = msg\<lparr>SequenceNumber := word_of_int (smSequenceNumber row)\<rparr>)
     \<and> (\<forall>k. k \<noteq> mbID rec \<longrightarrow> messages_of k d' = messages_of k d)"

lemma kept_before_next_faults [simp]: "kept_before rec (next_faults d) = kept_before rec d"
  by (simp add: kept_before_def full_mailbox_def messages_of_insert fun_eq_iff)

lemma pg_StoreMessage_stored:
  assumes "pg_StoreMessage mid msg d = (Inr q, d')"
  shows "\<exists>row. messages_of mid d' = messages_of mid d @ [row] \<and> scanMessage row = msg\<lparr>SequenceNumber := word_of_int (smSequenceNumber row)\<rparr>"
    and "k \<noteq> mid \<Longrightarrow> messages_of k d' = messages_of k d"
  using assms
  by (rule pg_StoreMessage_InrD; simp add: messages_of_insert message_row_def scanMessage_def)+

lemma refused_full:
  assumes "db_inv d" "pg_StoreMessage mid msg d = (Inl e, d')" "errors_as is_MailboxFullError e \<noteq> None"
  shows "full_mailbox mid d"
proof -
  have ne: "\<not> (\<exists>x. e = DbError x)" using assms(3) by (auto simp: errors_as_def)
  have body: "(case find (\<lambda>r. mbID r = mid \<and> (MaxMessages r \<le> 0 \<or> MessageCount r < MaxMessages r)) (mailboxes d) of
      None \<Rightarrow> e = storeRefused mid (next_faults d) | Some r \<Rightarrow> False)"
    using stmt_typed_errorD [OF assms(2) [unfolded pg_StoreMessage_def]] ne by (auto simp: Let_def split: option.splits if_splits)
  then have none: "find (\<lambda>r. mbID r = mid \<and> (MaxMessages r \<le> 0 \<or> MessageCount r < MaxMessages r)) (mailboxes d) = None"
    and e: "e = storeRefused mid (next_faults d)" by (auto split: option.splits)
  obtain r where r: "find_mailbox mid (next_faults d) = Some r"
    using assms(3) e by (cases "find_mailbox mid (next_faults d)") (auto simp: storeRefused_def errors_as_def)
  then have mem: "r \<in> set (mailboxes d)" "mbID r = mid" by (auto simp: find_mailbox_def dest: find_SomeD)
  moreover have "MessageCount r = int (length (messages_of mid d))"
    using assms(1) mem by (auto simp: db_inv_def counters_ok_def true_count_def)
  moreover have "0 < MaxMessages r" "MaxMessages r \<le> MessageCount r" using none mem by (auto simp: find_None_iff)
  ultimately show ?thesis by (auto simp: full_mailbox_def list_ex_iff)
qed

lemma storeMessage_stored:
  assumes inv: "db_inv d" and st: "storeMessage rec msg d = (Inr u, d')"
  shows "appended rec msg d d'"
proof (cases "pg_StoreMessage (mbID rec) msg d")
  case (Pair x d1)
  show ?thesis
  proof (cases x)
    case (Inr q)
    then have "pg_StoreMessage (mbID rec) msg d = (Inr q, d')" using st Pair by (simp add: storeMessage_def)
    from pg_StoreMessage_stored [OF this] show ?thesis unfolding appended_def kept_before_def by blast
  next
    case (Inl e)
    then have full: "errors_as is_MailboxFullError e \<noteq> None" and cnt: "RetentionCount rec \<noteq> None"
      using st Pair by (auto simp: storeMessage_def split: if_splits)
    have d1: "d1 = next_faults d" using typed_full_error Pair Inl full by blast
    obtain d2 q where d2: "pg_EnforceRetentionPolicy rec d1 = (Inr (), d2)" "pg_StoreMessage (mbID rec) msg d2 = (Inr q, d')"
      using st Pair Inl full cnt by (auto simp: storeMessage_def split: prod.splits sum.splits if_splits)
    have "db_inv d1" using inv d1 by simp
    note policy = enforce_policy_messages [OF this d2(1)]
    show ?thesis
      using pg_StoreMessage_stored [OF d2(2)] policy refused_full [OF inv Pair [unfolded Inl] full] cnt d1
      by (auto simp: appended_def kept_before_def messages_of_insert)
  qed
qed

lemma mb_StoreMessage_stored:
  assumes inv: "db_inv d" and st: "mb_StoreMessage L mb msg d = (Inr u, d')"
  shows "appended (Record mb) msg d d'"
proof -
  have "storeMessage (Record mb) msg d = (Inr u, d') \<or> storeMessage (Record mb) msg (next_faults d) = (Inr u, d')"
    using st
    by (cases mb) (auto simp: private_StoreMessage_def claim_StoreMessage_def shared_StoreMessage_def public_StoreMessage_def
        write_checked_def split: if_splits option.splits elim!: and_then_InrD dest!: pg_CheckAccess_snd)
  then show ?thesis
    using storeMessage_stored [OF inv] storeMessage_stored [of "next_faults d"] inv
    by (auto simp: appended_def messages_of_insert)
qed

context mda_cache
begin

lemma cached_fits:
  assumes "srv_inv view s" "ckGet (libCache E) k (mailboxCache s) = (Some mb, c)"
  obtains r where "r \<in> set (mailboxes (Storage s))" "fits k mb r"
proof -
  have "view (mailboxCache s) k = Some mb" using get_eq [OF assms(2)] by simp
  then show ?thesis using assms(1) that unfolding srv_inv_def coherent_def by blast
qed

lemma cache_mailbox_result:
  assumes "cache_mailbox E k (record_of r) s = (Inr mb, s')" "k = MailboxRecord_FullPath r"
  shows "fits k mb r" "Storage s' = Storage s"
  using assms wrapRecord_Record [of "record_of r" mb]
  by (auto simp: cache_mailbox_def fits_def split: sum.splits)

lemma getOrCreateMailbox_fits:
  assumes inv: "srv_inv view s" and get: "getOrCreateMailbox E a m n c s = (Inr mb, s')"
  shows "\<exists>r \<in> set (mailboxes (Storage s')). fits (FullPath (libPeer E) a) mb r"
proof -
  obtain hit c0 where ck: "ckGet (libCache E) (FullPath (libPeer E) a) (mailboxCache s) = (hit, c0)" by fastforce
  show ?thesis
  proof (cases hit)
    case (Some mb')
    then obtain r where "r \<in> set (mailboxes (Storage s))" "fits (FullPath (libPeer E) a) mb' r"
      using cached_fits [OF inv] ck by blast
    then show ?thesis using get ck Some by (auto simp: getOrCreateMailbox_def)
  next
    case None
    obtain rec s2 s3 where g: "with_db (pg_GetOrCreateMailbox (libPeer E) a m n c) s2 = (Inr rec, s3)"
        "cache_mailbox E (FullPath (libPeer E) a) rec s3 = (Inr mb, s')"
      using get ck None by (auto simp: getOrCreateMailbox_def Let_def split: prod.splits sum.splits)
    have "pg_GetOrCreateMailbox (libPeer E) a m n c (Storage s2) = (Inr rec, Storage s3)"
      using g(1) by (auto simp: with_db_eq)
    from pg_GetOrCreateMailbox_InrD [OF this] obtain r where r: "r \<in> set (mailboxes (Storage s3))" "rec = record_of r"
        "OwnerPeerID r = peer_String (libPeer E) (OwnerID a)" "mbFolderPath r = addrFolderPath a" by blast
    then show ?thesis
      using cache_mailbox_result [OF g(2) [unfolded r(2)]] path_of_address [OF r(3,4)] by auto
  qed
qed

end

lemma checkMailboxQuota_same:
  assumes "checkMailboxQuota E p s = (x, s')"
  shows "stored_messages (Storage s') = stored_messages (Storage s)" "mailboxes (Storage s') = mailboxes (Storage s)"
    "clock (Storage s') = clock (Storage s)" "notified s' = notified s" "hasNotifier s' = hasNotifier s"
  using quota_result [OF assms] by auto

lemma pg_GetOrCreateMailbox_messages: "pg_GetOrCreateMailbox L a m n c d = (x, d') \<Longrightarrow> stored_messages d' = stored_messages d \<and> clock d' = clock d"
proof -
  have "stored_messages (snd (pg_GetOrCreateMailbox L a m n c d)) = stored_messages d
      \<and> clock (snd (pg_GetOrCreateMailbox L a m n c d)) = clock d"
    unfolding pg_GetOrCreateMailbox_def
    by (rule stmt_keeps [where I = "\<lambda>x. stored_messages x = stored_messages d \<and> clock x = clock d"])
      (auto simp: Let_def split: option.split)
  then show "pg_GetOrCreateMailbox L a m n c d = (x, d') \<Longrightarrow> stored_messages d' = stored_messages d \<and> clock d' = clock d" by simp
qed

lemma getOrCreateMailbox_same:
  assumes "getOrCreateMailbox E a m n c s = (x, s')"
  shows "stored_messages (Storage s') = stored_messages (Storage s) \<and> clock (Storage s') = clock (Storage s)
    \<and> notified s' = notified s \<and> hasNotifier s' = hasNotifier s"
proof -
  have cache: "cache_mailbox E k rec t = (y, t') \<Longrightarrow> Storage t' = Storage t \<and> notified t' = notified t \<and> hasNotifier t' = hasNotifier t" for k rec t y t'
    by (auto simp: cache_mailbox_def split: sum.splits)
  obtain hit c0 where ck: "ckGet (libCache E) (FullPath (libPeer E) a) (mailboxCache s) = (hit, c0)" by fastforce
  let ?s0 = "s\<lparr>mailboxCache := c0\<rparr>"
  let ?same = "\<lambda>t. stored_messages (Storage t) = stored_messages (Storage s) \<and> clock (Storage t) = clock (Storage s)
    \<and> notified t = notified s \<and> hasNotifier t = hasNotifier s"
  obtain w s1 where f: "with_db (pg_FindMailbox (libPeer E) (OwnerID a) (addrFolderPath a)) ?s0 = (w, s1)" by fastforce
  have i1: "?same s1" using f by (auto simp: with_db_eq dest!: pg_FindMailbox_snd)
  obtain y s2 where q: "(if w = Inr None then checkMailboxQuota E (OwnerID a) s1 else (Inr (), s1)) = (y, s2)" by fastforce
  have i2: "?same s2" using q i1 checkMailboxQuota_same [of E "OwnerID a" s1 y s2] by (auto split: if_splits)
  obtain z s3 where g: "with_db (pg_GetOrCreateMailbox (libPeer E) a m n c) s2 = (z, s3)" by fastforce
  have i3: "?same s3" using g i2 by (auto simp: with_db_eq dest!: pg_GetOrCreateMailbox_messages)
  show ?thesis
  proof (cases hit)
    case None
    show ?thesis
    proof (cases w)
      case (Inl e)
      then show ?thesis using assms ck None f i1 by (auto simp: getOrCreateMailbox_def)
    next
      case (Inr ex)
      have q': "(if ex = None then checkMailboxQuota E (OwnerID a) s1 else (Inr (), s1)) = (y, s2)" using q Inr by simp
      show ?thesis
      proof (cases y)
        case (Inl e)
        then show ?thesis using assms ck None f q' Inr i2 by (auto simp: getOrCreateMailbox_def)
      next
        case (Inr u)
        show ?thesis
          by (cases z) (use assms ck None f q' \<open>w = Inr ex\<close> Inr g i3 in \<open>auto simp: getOrCreateMailbox_def dest!: cache\<close>)
      qed
    qed
  qed (use assms ck in \<open>auto simp: getOrCreateMailbox_def\<close>)
qed

lemma kept_before_row:
  assumes inv: "db_inv d" and r: "r \<in> set (mailboxes d)" and eq: "settings rec = settings r" "settings rec = settings (record_of r')"
    and kept: "kept_before rec d kept"
  shows "kept = messages_of (mbID r') d
     \<or> RetentionCount r' \<noteq> None \<and> 0 < MaxMessages r' \<and> MaxMessages r' \<le> int (length (messages_of (mbID r') d))
       \<and> kept = policy_keeps r' (clock d) (messages_of (mbID r') d)"
proof -
  have same: "mbID rec = mbID r'" "mbID r = mbID r'" "MaxMessages r = MaxMessages r'" "RetentionCount rec = RetentionCount r'"
      "RetentionDays rec = RetentionDays r'"
    using eq by (simp_all add: settings_def)
  have "x = r" if "x \<in> set (mailboxes d)" "mbID x = mbID r'" for x
    using that r same(2) inv distinct_key_unique [of mbID "mailboxes d" x r] by (simp add: db_inv_def ids_ok_def)
  then have "full_mailbox (mbID r') d \<Longrightarrow> 0 < MaxMessages r' \<and> MaxMessages r' \<le> int (length (messages_of (mbID r') d))"
    using same(3) by (auto simp: full_mailbox_def list_ex_iff)
  moreover have "policy_keeps rec = policy_keeps r'" using same by (simp add: policy_keeps_def fun_eq_iff)
  ultimately show ?thesis using kept by (auto simp: kept_before_def same)
qed

lemma clampExpiry_settings:
  "settings r = settings r' \<Longrightarrow> clampExpiry msg r now = clampExpiry msg r' now"
  by (simp add: clampExpiry_def settings_def)

text \<open>
  C23. A delivery that reports success has appended exactly one message to the mailbox of the
  recipient's folder (the inbox when none is named): that mailbox then holds the messages it held
  before, in their order, and after them one row, which has every field of the message submitted,
  its life cut to the mailbox's retention and its number that of the mailbox. Earlier messages go
  only where the mailbox was full and has a retention count, and then exactly those the policy
  retires. No other mailbox gains or loses a message, and the owner is notified by the mailbox's
  own type. The number returned is the one the sender wrote, not the one assigned.
\<close>

theorem delivery_stores_message:
  assumes lru: "lru_laws (libCache E) view" and inv: "srv_inv view s" and del: "DeliverLocal E msg s = (Inr n, s')"
  shows "\<exists>q r kept row. peer_Decode (libPeer E) (RecipientPeerID msg) = Some q \<and> r \<in> set (mailboxes (Storage s'))
     \<and> MailboxRecord_FullPath r = peer_String (libPeer E) q @ ''/'' @ (if FolderPath msg = [] then ''inbox'' else FolderPath msg)
     \<and> messages_of (mbID r) (Storage s') = kept @ [row]
     \<and> scanMessage row = (clampExpiry msg (record_of r) (clock (Storage s)))\<lparr>SequenceNumber := word_of_int (smSequenceNumber row)\<rparr>
     \<and> (kept = messages_of (mbID r) (Storage s)
         \<or> RetentionCount r \<noteq> None \<and> 0 < MaxMessages r \<and> MaxMessages r \<le> int (length (messages_of (mbID r) (Storage s)))
           \<and> kept = policy_keeps r (clock (Storage s)) (messages_of (mbID r) (Storage s)))
     \<and> (\<forall>k. k \<noteq> mbID r \<longrightarrow> messages_of k (Storage s') = messages_of k (Storage s))
     \<and> notified s' = notified s @ (if hasNotifier s then [NotifyNewMessage
          \<lparr>OwnerID = q, addrFolderPath = (if FolderPath msg = [] then ''inbox'' else FolderPath msg), addrType = mbType r\<rparr>
          (clampExpiry msg (record_of r) (clock (Storage s)))] else [])
     \<and> n = sint (SequenceNumber msg)"
proof -
  note mc = mda_cache.intro [OF lru]
  let ?f = "if FolderPath msg = [] then ''inbox'' else FolderPath msg"
  obtain q where q: "peer_Decode (libPeer E) (RecipientPeerID msg) = Some q"
    using del by (cases "peer_Decode (libPeer E) (RecipientPeerID msg)") (simp_all add: DeliverLocal_def Let_def)
  obtain a where a: "NewMailboxAddress q ?f MailboxPrivate = Inr a"
    using del q by (cases "NewMailboxAddress q ?f MailboxPrivate") (simp_all add: DeliverLocal_def Let_def)
  obtain mb s1 where g: "getMailbox E a s = (Inr mb, s1)"
    using del q a by (cases "getMailbox E a s"; cases "fst (getMailbox E a s)") (simp_all add: DeliverLocal_def Let_def)
  let ?m = "clampExpiry msg (Record mb) (clock (Storage s1))"
  obtain d2 where st: "mb_StoreMessage (libPeer E) mb ?m (Storage s1) = (Inr (), d2)"
    and s': "s' = emit (NotifyNewMessage (a\<lparr>addrType := mbType (Record mb)\<rparr>) ?m) (s1\<lparr>Storage := d2\<rparr>)" "n = sint (SequenceNumber ?m)"
  proof (cases "mb_StoreMessage (libPeer E) mb ?m (Storage s1)")
    case (Pair x d2)
    then show ?thesis using that del q a g by (cases x) (auto simp: DeliverLocal_def Let_def with_db_def)
  qed
  note get = g [unfolded getMailbox_def]
  obtain r where r: "r \<in> set (mailboxes (Storage s1))" "fits (FullPath (libPeer E) a) mb r"
    using mda_cache.getOrCreateMailbox_fits [OF mc inv get] by blast
  note same = getOrCreateMailbox_same [OF get]
  have inv1: "db_inv (Storage s1)"
    using mda_cache.getOrCreateMailbox_inv [OF mc inv] get by (metis snd_conv srv_inv_def)
  have keep: "keeps_settings (Storage s1) d2" using mb_StoreMessage_keeps [of "Storage s1" "libPeer E" mb ?m] st by simp
  obtain r' where r': "r' \<in> set (mailboxes d2)" "fits (FullPath (libPeer E) a) mb r'"
    using gains_fits [OF keeps_gains [OF keep] r] by blast
  have addr: "a = \<lparr>OwnerID = q, addrFolderPath = ?f, addrType = MailboxPrivate\<rparr>" using a by (simp add: NewMailboxAddress_OK)
  have set_r: "settings (Record mb) = settings (record_of r')" using r'(2) by (simp add: fits_def)
  have set_r1: "settings (Record mb) = settings r" using r(2) by (simp add: fits_def)
  have ids: "mbID (Record mb) = mbID r'" "mbType (Record mb) = mbType r'" using set_r by (simp_all add: settings_def)
  have m: "?m = clampExpiry msg (record_of r') (clock (Storage s))"
    using clampExpiry_settings [OF set_r] same by simp
  have app: "appended (Record mb) ?m (Storage s1) d2" using mb_StoreMessage_stored [OF inv1 st] .
  have n: "n = sint (SequenceNumber msg)" using s'(2) by (simp add: clampExpiry_def Let_def split: if_splits)
  have "MailboxRecord_FullPath r' = peer_String (libPeer E) q @ ''/'' @ ?f"
    using r'(2) by (simp add: fits_def addr FullPath_def)
  moreover have "messages_of k d2 = messages_of k (Storage s)" if "k \<noteq> mbID r'" for k
    using app that same ids(1) by (simp add: appended_def messages_of_def)
  moreover obtain kept row where "messages_of (mbID r') d2 = kept @ [row]" "scanMessage row = ?m\<lparr>SequenceNumber := word_of_int (smSequenceNumber row)\<rparr>"
      "kept_before (Record mb) (Storage s1) kept"
    using app ids(1) by (auto simp: appended_def)
  moreover have "kept = messages_of (mbID r') (Storage s)
      \<or> RetentionCount r' \<noteq> None \<and> 0 < MaxMessages r' \<and> MaxMessages r' \<le> int (length (messages_of (mbID r') (Storage s)))
        \<and> kept = policy_keeps r' (clock (Storage s)) (messages_of (mbID r') (Storage s))"
    if "kept_before (Record mb) (Storage s1) kept"
    using that same kept_before_row [OF inv1 r(1), of "Record mb" r' kept] set_r set_r1 by (simp add: messages_of_def)
  moreover have "notified s' = notified s @ (if hasNotifier s then [NotifyNewMessage
      \<lparr>OwnerID = q, addrFolderPath = ?f, addrType = mbType r'\<rparr> ?m] else [])"
    using same ids(2) unfolding s'(1) emit_def by (simp add: addr)
  moreover have "Storage s' = d2" unfolding s'(1) by (simp add: emit_def)
  ultimately show ?thesis using q r'(1) n unfolding m by (intro exI [of _ q] exI [of _ r'] exI [of _ kept] exI [of _ row]) auto
qed

theorem delivery_stores_message_witness:
  "fst (DeliverLocal demo_libs (demo_msg ''m2'' 3) demo_srv) = Inr 0
   \<and> messages_of 2 (Storage (snd (DeliverLocal demo_libs (demo_msg ''m2'' 3) demo_srv))) = messages_of 2 (Storage demo_srv)
   \<and> map smMessageID (messages_of 1 (Storage (snd (DeliverLocal demo_libs (demo_msg ''m2'' 3) demo_srv)))) = [''m1'', ''m2'']"
proof -
  have a: "fst (DeliverLocal demo_libs (demo_msg ''m2'' 3) demo_srv) = Inr 0" by code_simp
  have q: "peer_Decode (libPeer demo_libs) (RecipientPeerID (demo_msg ''m2'' 3)) = Some (PeerID ''B'')" by code_simp
  have p: "peer_String (libPeer demo_libs) (PeerID ''B'') @ ''/'' @ (if FolderPath (demo_msg ''m2'' 3) = [] then ''inbox'' else FolderPath (demo_msg ''m2'' 3)) = ''42/inbox''"
    by code_simp
  have ids: "list_all (\<lambda>r. MailboxRecord_FullPath r = ''42/inbox'' \<longrightarrow> mbID r = 1) (mailboxes (Storage (snd (DeliverLocal demo_libs (demo_msg ''m2'' 3) demo_srv))))"
    by code_simp
  have m: "map smMessageID (messages_of 1 (Storage (snd (DeliverLocal demo_libs (demo_msg ''m2'' 3) demo_srv)))) = [''m1'', ''m2'']" by code_simp
  obtain r where "r \<in> set (mailboxes (Storage (snd (DeliverLocal demo_libs (demo_msg ''m2'' 3) demo_srv))))"
      "MailboxRecord_FullPath r = ''42/inbox''"
      "\<forall>k. k \<noteq> mbID r \<longrightarrow> messages_of k (Storage (snd (DeliverLocal demo_libs (demo_msg ''m2'' 3) demo_srv))) = messages_of k (Storage demo_srv)"
    using delivery_stores_message [OF demo_lru demo_srv_inv result_eq [OF a]] q p by auto
  then show ?thesis using a m ids by (auto simp: list_all_iff)
qed

end
