(* ===== verification/Mda_Access.thy ===== *)
theory Mda_Access
  imports Mda_Delivery
begin

text \<open>
  Further properties of the delivery agent: reads and claims, quotas, the bounds on a message's
  life, and the race between loading a mailbox and deleting it.
\<close>

section \<open>Reads and claims\<close>

lemma findMailbox_storage: "Storage (snd (findMailbox E a s)) \<in> {Storage s, next_faults (Storage s)}"
proof -
  have c: "cache_mailbox E k rec t = (y, t') \<Longrightarrow> Storage t' = Storage t" for k rec t y t'
    by (auto simp: cache_mailbox_def split: sum.splits)
  have f: "pg_FindMailbox L p f d = (x, d') \<Longrightarrow> d' = next_faults d" for L p f d x d'
    by (rule pg_FindMailbox_snd)
  show ?thesis unfolding findMailbox_def
    by (auto simp: Let_def with_db_def split: prod.splits option.splits sum.splits dest!: c f)
qed

lemma stmt_snd_case: "Q (snd (f (next_faults db))) \<Longrightarrow> Q (next_faults db) \<Longrightarrow> Q (snd (stmt f db))"
  by (cases rule: stmt_cases [of f db]) auto

lemma keeps_settings_messages:
  "d \<in> {d0, next_faults d0} \<Longrightarrow> keeps_settings d0 d \<and> stored_messages d = stored_messages d0 \<and> mailboxes d = mailboxes d0"
  by auto

text \<open>
  Reading never brings a mailbox into existence: whatever mailbox a retrieval or a claim names,
  and whoever asks, the mailboxes afterwards are those before, with the same owners, folders, types
  and settings; and a retrieval leaves every message in place.
\<close>

theorem reads_create_nothing:
  "map settings (mailboxes (Storage (snd (Retrieve E a p opts s)))) = map settings (mailboxes (Storage s))
   \<and> stored_messages (Storage (snd (Retrieve E a p opts s))) = stored_messages (Storage s)
   \<and> map settings (mailboxes (Storage (snd (Claim E a p s)))) = map settings (mailboxes (Storage s))"
proof -
  obtain x s1 where f: "findMailbox E a s = (x, s1)" by fastforce
  have "Storage s1 \<in> {Storage s, next_faults (Storage s)}" using findMailbox_storage [of E a s] f by simp
  then have s1: "keeps_settings (Storage s) (Storage s1)" "stored_messages (Storage s1) = stored_messages (Storage s)"
    "mailboxes (Storage s1) = mailboxes (Storage s)"
    using keeps_settings_messages by blast+
  have retr: "same_tables (Storage s1) (snd (mb_RetrieveMessages L T mb q opts (Storage s1)))" for L T mb q
    by (rule mb_RetrieveMessages_same)
  have allow: "Storage (snd (claims_allow E mid t)) = Storage t" for mid t
    by (simp add: claims_allow_def Let_def case_prod_unfold)
  have claim: "keeps_settings (Storage s) (snd (pg_ClaimMessage mid (Storage s1)))" for mid
    using s1(1) pg_ClaimMessage_keeps keeps_settings_trans by blast
  consider (err) e where "x = Inl e" | (none) "x = Inr None" | (some) mb where "x = Inr (Some mb)"
    by (cases x; cases "projr x") auto
  then have "mailboxes (Storage (snd (Retrieve E a p opts s))) = mailboxes (Storage s)
      \<and> stored_messages (Storage (snd (Retrieve E a p opts s))) = stored_messages (Storage s)
      \<and> keeps_settings (Storage s) (Storage (snd (Claim E a p s)))"
  proof cases
    case (some mb)
    then show ?thesis
      using f s1 retr claim allow [of "mbID (Record mb)" s1]
      by (simp add: Retrieve_def Claim_def same_tables_def case_prod_unfold Let_def)
  qed (use f s1 in \<open>simp_all add: Retrieve_def Claim_def\<close>)
  then show ?thesis by (simp add: keeps_settings_def)
qed

context mda_cache
begin

lemma findMailbox_fits:
  assumes inv: "srv_inv view s" and f: "findMailbox E a s = (Inr (Some mb), s')"
  shows "\<exists>r \<in> set (mailboxes (Storage s)). fits (FullPath (libPeer E) a) mb r"
proof -
  obtain hit c0 where ck: "ckGet (libCache E) (FullPath (libPeer E) a) (mailboxCache s) = (hit, c0)" by fastforce
  show ?thesis
  proof (cases hit)
    case (Some mb')
    then obtain r where "r \<in> set (mailboxes (Storage s))" "fits (FullPath (libPeer E) a) mb' r"
      using cached_fits [OF inv] ck by blast
    then show ?thesis using f ck Some by (auto simp: findMailbox_def)
  next
    case None
    obtain rec s1 where g: "with_db (pg_FindMailbox (libPeer E) (OwnerID a) (addrFolderPath a)) (s\<lparr>mailboxCache := c0\<rparr>) = (Inr (Some rec), s1)"
        "cache_mailbox E (FullPath (libPeer E) a) rec s1 = (Inr mb, s')"
      using f ck None by (auto simp: findMailbox_def Let_def split: prod.splits sum.splits option.splits)
    obtain r where r: "r \<in> set (mailboxes (Storage s1))" "rec = record_of r" "MailboxRecord_FullPath r = FullPath (libPeer E) a"
      using g(1) by (rule found_row)
    have "mailboxes (Storage s1) = mailboxes (Storage s)"
      using g(1) by (auto simp: with_db_eq dest!: pg_FindMailbox_snd)
    then show ?thesis using r cache_mailbox_result(1) [OF g(2) [unfolded r(2)]] by auto
  qed
qed

end

text \<open>
  A claim takes messages from claim mailboxes only: what it returns was the oldest claimable
  message of the mailbox it named, which is stored as a claim mailbox, and that message alone is
  gone; a claim that returns an error or nothing has removed nothing, unless a reply was lost.
\<close>

theorem claim_only_from_claim_mailboxes:
  assumes lru: "lru_laws (libCache E) view" and inv: "srv_inv view s" and cl: "Claim E a p s = (res, s')"
  shows "case res of
      Inr (Some msg) \<Rightarrow> (\<exists>r m. r \<in> set (mailboxes (Storage s)) \<and> MailboxRecord_FullPath r = FullPath (libPeer E) a
         \<and> mbType r = MailboxClaim \<and> m \<in> set (stored_messages (Storage s)) \<and> claim_open (mbID r) (Storage s) m
         \<and> msg = scanMessage m \<and> stored_messages (Storage s') = remove1 m (stored_messages (Storage s)))
    | _ \<Rightarrow> stored_messages (Storage s') = stored_messages (Storage s)"
proof -
  note mc = mda_cache.intro [OF lru]
  obtain x s1 where f: "findMailbox E a s = (x, s1)" by fastforce
  have st: "Storage s1 \<in> {Storage s, next_faults (Storage s)}" using findMailbox_storage [of E a s] f by simp
  have same: "stored_messages (Storage s1) = stored_messages (Storage s)" "row_locks (Storage s1) = row_locks (Storage s)"
    "clock (Storage s1) = clock (Storage s)" "db_inv (Storage s1)" "ReplyLost \<notin> set (faults (Storage s1))"
    using st inv srv_inv_next_faults [OF inv] by (auto simp: srv_inv_def)
  show ?thesis
  proof (cases "\<exists>mb s2. x = Inr (Some mb) \<and> mbType (Record mb) = MailboxClaim \<and> claims_allow E (mbID (Record mb)) s1 = (True, s2)")
    case False
    then have "Storage s' = Storage s1 \<and> (\<forall>m. res \<noteq> Inr (Some m))"
      using cl f by (auto simp: Claim_def Let_def claims_allow_def split: sum.splits option.splits prod.splits if_splits)
    then show ?thesis using same by (auto split: sum.splits option.splits)
  next
    case True
    then obtain mb s2 where mb: "x = Inr (Some mb)" "mbType (Record mb) = MailboxClaim" "claims_allow E (mbID (Record mb)) s1 = (True, s2)"
      by blast
    have s2: "Storage s2 = Storage s1" using mb(3) by (auto simp: claims_allow_def Let_def split: prod.splits)
    have res: "pg_ClaimMessage (mbID (Record mb)) (Storage s1) = (res, Storage s')"
      using cl f mb s2 by (auto simp: Claim_def with_db_eq)
    obtain r where r: "r \<in> set (mailboxes (Storage s))" "fits (FullPath (libPeer E) a) mb r"
      using mda_cache.findMailbox_fits [OF mc inv] f mb(1) by blast
    have ids: "mbID (Record mb) = mbID r" "mbType r = MailboxClaim" "MailboxRecord_FullPath r = FullPath (libPeer E) a"
      using r(2) mb(2) by (simp_all add: fits_def settings_def)
    show ?thesis
    proof (cases res)
      case (Inl e)
      then have "Storage s' = next_faults (Storage s1)"
        using stmt_failed_noop [OF same(5) _ res [unfolded Inl pg_ClaimMessage_def]] by (auto split: list.splits)
      then show ?thesis using Inl same by simp
    next
      case (Inr ans)
      have spec: "pg_ClaimMessage (mbID r) (Storage s1) = (Inr ans, Storage s')" using res Inr ids by simp
      have open_eq: "claim_open (mbID r) (Storage s1) = claim_open (mbID r) (Storage s)"
        using same by (auto simp: claim_open_def fun_eq_iff)
      show ?thesis
        using claim_takes_oldest [OF same(4) spec] Inr r(1) ids same open_eq by (cases ans) auto
    qed
  qed
qed


definition claim_addr :: MailboxAddress where
  "claim_addr = \<lparr>OwnerID = PeerID ''B'', addrFolderPath = ''keys'', addrType = MailboxClaim\<rparr>"

definition claim_db :: db where
  "claim_db = fold (store_exec hex_peers)
     [OpGetOrCreateMailbox claim_addr 10 30 None, OpStoreMessage 1 (demo_msg ''k1'' 0), OpStoreMessage 1 (demo_msg ''k2'' 0)] (empty_db 1000)"

definition claim_srv :: "((string \<times> Mailbox) list, (int \<times> int) list) MailboxServer" where
  "claim_srv = demo_srv\<lparr>Storage := claim_db\<rparr>"

lemma claim_srv_inv: "srv_inv map_of claim_srv"
proof -
  have "db_inv claim_db" unfolding claim_db_def by (rule store_run.run_inv [OF empty_db_inv])
  then have "db_inv (Storage claim_srv)" by (simp add: claim_srv_def)
  moreover have "faults (Storage claim_srv) = []" "mailboxCache claim_srv = []" by code_simp+
  ultimately show ?thesis by (simp add: srv_inv_def coherent_def)
qed

theorem claim_only_from_claim_mailboxes_witness:
  "fst (Claim demo_libs claim_addr (PeerID ''Z'') claim_srv) = Inr (Some ((demo_msg ''k1'' 0)\<lparr>SequenceNumber := 1\<rparr>))
   \<and> (\<exists>m. m \<in> set (stored_messages (Storage claim_srv)) \<and>
        stored_messages (Storage (snd (Claim demo_libs claim_addr (PeerID ''Z'') claim_srv))) = remove1 m (stored_messages (Storage claim_srv)))
   \<and> fst (Claim demo_libs (NewInbox (PeerID ''B'')) (PeerID ''Z'') demo_srv) = Inl (UnauthorizedError ''not a claim mailbox'')"
proof -
  have a: "fst (Claim demo_libs claim_addr (PeerID ''Z'') claim_srv) = Inr (Some ((demo_msg ''k1'' 0)\<lparr>SequenceNumber := 1\<rparr>))" by code_simp
  have b: "fst (Claim demo_libs (NewInbox (PeerID ''B'')) (PeerID ''Z'') demo_srv) = Inl (UnauthorizedError ''not a claim mailbox'')" by code_simp
  show ?thesis using claim_only_from_claim_mailboxes [OF demo_lru claim_srv_inv result_eq [OF a]] a b by auto
qed


section \<open>Quotas and bounds\<close>

definition owned_count :: "peer_lib \<Rightarrow> peer_id \<Rightarrow> db \<Rightarrow> int" where
  "owned_count L p d = int (length (filter (\<lambda>r. OwnerPeerID r = peer_String L p) (mailboxes d)))"

lemma pg_CountMailboxes_InrD:
  "pg_CountMailboxes L p d = (Inr (a, b), d') \<Longrightarrow> a = owned_count L p d \<and> b = int (length (mailboxes d)) \<and> d' = next_faults d"
  unfolding pg_CountMailboxes_def by (auto simp: owned_count_def dest!: stmt_InrD)

lemma pg_GetOrCreateMailbox_rows:
  assumes "pg_GetOrCreateMailbox L a m n c d = (x, d')"
  shows "mailboxes d' = mailboxes d \<or> (\<exists>r. mailboxes d' = mailboxes d @ [r] \<and> OwnerPeerID r = peer_String L (OwnerID a)
     \<and> (\<forall>y \<in> set (mailboxes d). \<not> (OwnerPeerID y = peer_String L (OwnerID a) \<and> mbFolderPath y = addrFolderPath a)))"
proof -
  let ?I = "\<lambda>e. mailboxes e = mailboxes d \<or> (\<exists>r. mailboxes e = mailboxes d @ [r] \<and> OwnerPeerID r = peer_String L (OwnerID a)
     \<and> (\<forall>y \<in> set (mailboxes d). \<not> (OwnerPeerID y = peer_String L (OwnerID a) \<and> mbFolderPath y = addrFolderPath a)))"
  have "?I (snd (pg_GetOrCreateMailbox L a m n c d))"
    unfolding pg_GetOrCreateMailbox_def
    by (rule stmt_snd_case [where Q = ?I]) (auto simp: Let_def find_None_iff split: option.splits)
  then show ?thesis using assms by simp
qed

lemma quota_passed:
  assumes "checkMailboxQuota E p s = (x, s')"
  shows "mailboxes (Storage s') = mailboxes (Storage s)
    \<and> (x = Inr () \<longrightarrow> (0 < dfMaxMailboxesPerOwner (defaults s) \<longrightarrow> owned_count (libPeer E) p (Storage s) < dfMaxMailboxesPerOwner (defaults s))
         \<and> (0 < dfMaxMailboxes (defaults s) \<longrightarrow> int (length (mailboxes (Storage s))) < dfMaxMailboxes (defaults s)))"
proof (cases "pg_CountMailboxes (libPeer E) p (Storage s)")
  case (Pair y d)
  have d: "d = next_faults (Storage s)" using store_reads_pure(2) [of "libPeer E" p "Storage s"] Pair by simp
  show ?thesis
  proof (cases y)
    case (Inl e)
    then show ?thesis using assms Pair d by (auto simp: checkMailboxQuota_def Let_def with_db_def split: if_splits)
  next
    case (Inr ab)
    obtain own tot where ab: "ab = (own, tot)" by fastforce
    have v: "own = owned_count (libPeer E) p (Storage s)" "tot = int (length (mailboxes (Storage s)))"
      using pg_CountMailboxes_InrD Pair Inr ab by blast+
    have "x = Inr () \<Longrightarrow> \<not> (0 < dfMaxMailboxesPerOwner (defaults s) \<and> dfMaxMailboxesPerOwner (defaults s) \<le> own)
        \<and> \<not> (0 < dfMaxMailboxes (defaults s) \<and> dfMaxMailboxes (defaults s) \<le> tot)"
      using assms Pair Inr ab by (auto simp: checkMailboxQuota_def Let_def with_db_def split: if_splits)
    moreover have "Storage s' \<in> {Storage s, d}"
      using assms Pair Inr ab by (auto simp: checkMailboxQuota_def Let_def with_db_def split: if_splits)
    ultimately show ?thesis using v d by auto
  qed
qed

text \<open>
  Quotas: a request that finds or creates a mailbox never takes its owner past the owner's quota
  nor the server past its own; requests that run one after the other never exceed them.
\<close>

theorem quotas_respected:
  "(0 < dfMaxMailboxesPerOwner (defaults s) \<longrightarrow>
      owned_count (libPeer E) (OwnerID a) (Storage (snd (getOrCreateMailbox E a m n c s)))
        \<le> max (owned_count (libPeer E) (OwnerID a) (Storage s)) (dfMaxMailboxesPerOwner (defaults s)))
   \<and> (0 < dfMaxMailboxes (defaults s) \<longrightarrow>
      int (length (mailboxes (Storage (snd (getOrCreateMailbox E a m n c s)))))
        \<le> max (int (length (mailboxes (Storage s)))) (dfMaxMailboxes (defaults s)))"
proof -
  let ?L = "libPeer E" let ?p = "OwnerID a"
  let ?ok = "\<lambda>t. (0 < dfMaxMailboxesPerOwner (defaults s) \<longrightarrow> owned_count ?L ?p (Storage t)
        \<le> max (owned_count ?L ?p (Storage s)) (dfMaxMailboxesPerOwner (defaults s)))
     \<and> (0 < dfMaxMailboxes (defaults s) \<longrightarrow> int (length (mailboxes (Storage t)))
        \<le> max (int (length (mailboxes (Storage s)))) (dfMaxMailboxes (defaults s)))"
  have same: "?ok t" if "mailboxes (Storage t) = mailboxes (Storage s)" for t
    using that by (simp add: owned_count_def)
  obtain hit c0 where ck: "ckGet (libCache E) (FullPath ?L a) (mailboxCache s) = (hit, c0)" by fastforce
  let ?s0 = "s\<lparr>mailboxCache := c0\<rparr>"
  obtain w s1 where f: "with_db (pg_FindMailbox ?L ?p (addrFolderPath a)) ?s0 = (w, s1)" by fastforce
  have s1: "mailboxes (Storage s1) = mailboxes (Storage s)" "defaults s1 = defaults s"
    using f by (auto simp: with_db_eq dest!: pg_FindMailbox_snd)
  show ?thesis
  proof (cases "hit = None \<and> (\<exists>ex. w = Inr ex)")
    case False
    then have "mailboxes (Storage (snd (getOrCreateMailbox E a m n c s))) = mailboxes (Storage s)"
      using ck f s1 by (cases hit; cases w) (auto simp: getOrCreateMailbox_def)
    then show ?thesis using same [of "snd (getOrCreateMailbox E a m n c s)"] by simp
  next
    case True
    then obtain ex where ex: "hit = None" "w = Inr ex" by blast
    obtain y s2 where q: "(if ex = None then checkMailboxQuota E ?p s1 else (Inr (), s1)) = (y, s2)" by fastforce
    have s2: "mailboxes (Storage s2) = mailboxes (Storage s)"
      using q s1 quota_passed [of E ?p s1 y s2] by (auto split: if_splits)
    show ?thesis
    proof (cases y)
      case (Inl e)
      then have "Storage (snd (getOrCreateMailbox E a m n c s)) = Storage s2"
        using ck ex f q by (simp add: getOrCreateMailbox_def)
      then show ?thesis using same [of "snd (getOrCreateMailbox E a m n c s)"] s2 by simp
    next
      case (Inr u)
      obtain z d3 where g: "pg_GetOrCreateMailbox ?L a m n c (Storage s2) = (z, d3)" by fastforce
      have st: "Storage (snd (getOrCreateMailbox E a m n c s)) = d3"
        using ck ex f q Inr g by (cases z) (auto simp: getOrCreateMailbox_def with_db_def cache_mailbox_def split: sum.splits)
      show ?thesis
      proof (cases "mailboxes d3 = mailboxes (Storage s)")
        case True
        then show ?thesis using same [of "snd (getOrCreateMailbox E a m n c s)"] st by simp
      next
        case False
        then obtain r where r: "mailboxes d3 = mailboxes (Storage s) @ [r]" "OwnerPeerID r = peer_String ?L ?p"
            "\<forall>y \<in> set (mailboxes (Storage s)). \<not> (OwnerPeerID y = peer_String ?L ?p \<and> mbFolderPath y = addrFolderPath a)"
          using pg_GetOrCreateMailbox_rows [OF g] s2 by auto
        have "pg_FindMailbox ?L ?p (addrFolderPath a) (Storage s) = (Inr ex, Storage s1)"
          using f ex by (auto simp: with_db_eq)
        then have "ex = None" using pg_FindMailbox_InrD r(3) by (cases ex) fastforce+
        then have "checkMailboxQuota E ?p s1 = (Inr (), s2)" using q Inr by simp
        from quota_passed [OF this] show ?thesis
          using st r s1 by (auto simp: owned_count_def)
      qed
    qed
  qed
qed

theorem quotas_respected_witness:
  "fst (getOrCreateMailbox demo_libs claim_addr 5 5 None (demo_srv\<lparr>defaults := (defaults demo_srv)\<lparr>dfMaxMailboxesPerOwner := 1\<rparr>\<rparr>))
     = Inl (QuotaExceededError ''mailboxes per owner'' 1 1)
   \<and> owned_count hex_peers (PeerID ''B'')
       (Storage (snd (getOrCreateMailbox demo_libs claim_addr 5 5 None (demo_srv\<lparr>defaults := (defaults demo_srv)\<lparr>dfMaxMailboxesPerOwner := 1\<rparr>\<rparr>)))) \<le> 1"
proof -
  let ?s = "demo_srv\<lparr>defaults := (defaults demo_srv)\<lparr>dfMaxMailboxesPerOwner := 1\<rparr>\<rparr>"
  have a: "fst (getOrCreateMailbox demo_libs claim_addr 5 5 None ?s) = Inl (QuotaExceededError ''mailboxes per owner'' 1 1)" by code_simp
  have b: "owned_count hex_peers (PeerID ''B'') (Storage ?s) = 1" "OwnerID claim_addr = PeerID ''B''" by code_simp+
  have "libPeer demo_libs = hex_peers" by (simp add: demo_libs_def)
  note b = b this
  show ?thesis using quotas_respected [of ?s demo_libs claim_addr 5 5 None] a b by simp
qed

lemma orFallbacks_positive: "0 < dfMaxMessages (orFallbacks d)" "0 < dfRetentionDays (orFallbacks d)"
  by (simp_all add: orFallbacks_def fallbackMaxMessages_def fallbackRetentionDays_def Let_def)

lemma retentionDays_ceiling:
  assumes "0 < policy"
  shows "policy \<le> retentionDays policy * day_ms \<and> retentionDays policy * day_ms < policy + day_ms"
proof -
  define q m where qm: "q = policy div day_ms" "m = policy mod day_ms"
  have "retentionDays policy = (if m \<noteq> 0 then q + 1 else q)" using assms qm by (simp add: retentionDays_def Let_def)
  moreover have "policy = q * day_ms + m" unfolding qm by simp
  moreover have "0 \<le> m" "m < day_ms" unfolding qm by (simp_all add: day_ms_def)
  ultimately show ?thesis by (auto simp: distrib_right)
qed

lemma days_duration_ms: "0 \<le> days \<Longrightarrow> days \<le> 106751 \<Longrightarrow> days_duration days div 1000000 = days * day_ms"
proof -
  assume d: "0 \<le> days" "days \<le> 106751"
  have "signed_take_bit 63 (days * 24 * 3600000000000) = days * 24 * 3600000000000"
    by (rule signed_take_bit_int_eq_self) (use d in auto)
  then have "days_duration days = days * 24 * 3600000000000" unfolding days_duration_def signed_of_int by simp
  then show ?thesis by (simp add: day_ms_def)
qed

text \<open>
  Whatever the configuration, a mailbox that a delivery creates has a positive cap and retention,
  the retention being the configured duration rounded up to whole days; and in a mailbox with a
  positive retention, of up to 106751 days, no message outlives it: an expiry beyond it, or none, becomes the retention
  limit, and a nearer one is kept.
\<close>

theorem message_life_bounded:
  "0 < dfMaxMessages (DefaultsFromConfig cfg) \<and> 0 < dfRetentionDays (DefaultsFromConfig cfg)
   \<and> (\<forall>c. cfg = Some c \<and> 0 < cfgRetentionPolicy c \<longrightarrow>
        cfgRetentionPolicy c \<le> dfRetentionDays (DefaultsFromConfig cfg) * day_ms
        \<and> dfRetentionDays (DefaultsFromConfig cfg) * day_ms < cfgRetentionPolicy c + day_ms)
   \<and> (0 < RetentionDays r \<and> RetentionDays r \<le> 106751 \<and> 0 \<le> now \<longrightarrow>
        0 < ExpiryTimestamp (clampExpiry msg r now) \<and> ExpiryTimestamp (clampExpiry msg r now) \<le> now + RetentionDays r * day_ms
        \<and> (0 < ExpiryTimestamp msg \<and> ExpiryTimestamp msg \<le> now + RetentionDays r * day_ms \<longrightarrow> clampExpiry msg r now = msg))"
proof (intro conjI allI impI)
  show "0 < dfMaxMessages (DefaultsFromConfig cfg)" "0 < dfRetentionDays (DefaultsFromConfig cfg)"
    by (auto simp: DefaultsFromConfig_def orFallbacks_positive split: option.splits)
next
  fix c assume c: "cfg = Some c \<and> 0 < cfgRetentionPolicy c"
  have "0 < retentionDays (cfgRetentionPolicy c)"
    using retentionDays_ceiling [of "cfgRetentionPolicy c"] c by (simp add: day_ms_def)
  then have days: "dfRetentionDays (DefaultsFromConfig cfg) = retentionDays (cfgRetentionPolicy c)"
    using c by (simp add: DefaultsFromConfig_def orFallbacks_def Let_def)
  show "cfgRetentionPolicy c \<le> dfRetentionDays (DefaultsFromConfig cfg) * day_ms"
    and "dfRetentionDays (DefaultsFromConfig cfg) * day_ms < cfgRetentionPolicy c + day_ms"
    using retentionDays_ceiling [of "cfgRetentionPolicy c"] c unfolding days by simp_all
next
  assume r: "0 < RetentionDays r \<and> RetentionDays r \<le> 106751 \<and> 0 \<le> now"
  then have "0 < now + RetentionDays r * day_ms" by (simp add: day_ms_def)
  then show "0 < ExpiryTimestamp (clampExpiry msg r now)" "ExpiryTimestamp (clampExpiry msg r now) \<le> now + RetentionDays r * day_ms"
    using r by (auto simp: clampExpiry_def Let_def days_duration_ms)
  show "clampExpiry msg r now = msg" if "0 < ExpiryTimestamp msg \<and> ExpiryTimestamp msg \<le> now + RetentionDays r * day_ms"
    using r that by (simp add: clampExpiry_def Let_def days_duration_ms)
qed

theorem message_life_bounded_witness:
  "dfRetentionDays (DefaultsFromConfig (Some \<lparr>cfgMaxMessagesPerMailbox = 0, cfgRetentionPolicy = 1000, cfgMaxMailboxesPerOwner = 0, cfgMaxMailboxes = 0\<rparr>)) = 1
   \<and> ExpiryTimestamp (clampExpiry (NewMessage ''m'' 0 [] [] []) demo_record 1000) \<le> 1000 + 30 * day_ms
   \<and> 0 < ExpiryTimestamp (clampExpiry (NewMessage ''m'' 0 [] [] []) demo_record 1000)"
proof -
  have a: "RetentionDays demo_record = 30" by code_simp
  have b: "dfRetentionDays (DefaultsFromConfig (Some \<lparr>cfgMaxMessagesPerMailbox = 0, cfgRetentionPolicy = 1000, cfgMaxMailboxesPerOwner = 0, cfgMaxMailboxes = 0\<rparr>)) = 1" by code_simp
  show ?thesis using message_life_bounded [of None demo_record 1000 "NewMessage ''m'' 0 [] [] []"] a b by simp
qed


section \<open>The race between loading and deleting a mailbox\<close>

text \<open>
  Between the read of the record and the insertion into the cache, \<^verbatim>\<open>findMailbox\<close> and
  \<^verbatim>\<open>getOrCreateMailbox\<close> hold no lock: on a miss \<^verbatim>\<open>findMailbox\<close> is the read followed by the insertion,
  and another request may run in between.
\<close>

lemma findMailbox_two_steps:
  assumes "ckGet (libCache E) (FullPath (libPeer E) a) (mailboxCache s) = (None, mailboxCache s)"
    and "with_db (pg_FindMailbox (libPeer E) (OwnerID a) (addrFolderPath a)) s = (Inr (Some rec), s1)"
  shows "snd (findMailbox E a s) = snd (cache_mailbox E (FullPath (libPeer E) a) rec s1)"
  using assms by (auto simp: findMailbox_def split: prod.splits sum.splits)

definition race_loaded :: "((string \<times> Mailbox) list, (int \<times> int) list) MailboxServer" where
  "race_loaded = snd (with_db (pg_FindMailbox hex_peers (PeerID ''B'') ''inbox'') demo_srv)"

definition race_deleted :: "((string \<times> Mailbox) list, (int \<times> int) list) MailboxServer" where
  "race_deleted = snd (DeleteMailbox demo_libs (NewInbox (PeerID ''B'')) race_loaded)"

definition race_cached :: "((string \<times> Mailbox) list, (int \<times> int) list) MailboxServer" where
  "race_cached = snd (cache_mailbox demo_libs ''42/inbox'' demo_record race_deleted)"

text \<open>
  A stale entry: the cache has a mailbox under a key that is no longer stored. A delivery to its
  folder takes the entry, is refused by the store and leaves the entry where it is.
\<close>

definition stale_entry :: "('c \<Rightarrow> string \<Rightarrow> Mailbox option) \<Rightarrow> peer_lib \<Rightarrow> MailboxAddress \<Rightarrow> MailboxRecord \<Rightarrow> ('c, 'm) MailboxServer \<Rightarrow> bool" where
  "stale_entry view L a rec s \<longleftrightarrow> view (mailboxCache s) (FullPath L a) = Some (PrivateMailbox rec)
     \<and> OwnerPeerID rec = peer_String L (OwnerID a)
     \<and> \<not> mailbox_exists (mbID rec) (Storage s) \<and> faults (Storage s) = []"

definition sent_to :: "('c, 'm, 'l) libs \<Rightarrow> MailboxAddress \<Rightarrow> Message \<Rightarrow> bool" where
  "sent_to E a msg \<longleftrightarrow> RecipientPeerID msg = peer_String (libPeer E) (OwnerID a)
     \<and> (if FolderPath msg = [] then ''inbox'' else FolderPath msg) = addrFolderPath a"

definition deliver_all :: "('c, 'm, 'l) libs \<Rightarrow> Message list \<Rightarrow> ('c, 'm) MailboxServer \<Rightarrow> ('c, 'm) MailboxServer" where
  "deliver_all E msgs s = fold (\<lambda>m s. snd (DeliverLocal E m s)) msgs s"

lemma stale_store:
  assumes "\<not> mailbox_exists mid d" "faults d = []"
  shows "pg_StoreMessage mid msg d = (Inl ErrMailboxNotFound, d)"
proof -
  have "find (\<lambda>r. mbID r = mid \<and> Q r) (mailboxes d) = None" for Q
    using assms(1) by (auto simp: mailbox_exists_def find_None_iff)
  moreover from this [of "\<lambda>_. True"] have "find_mailbox mid d = None" by (simp add: find_mailbox_def)
  ultimately show ?thesis using assms(2) by (simp add: pg_StoreMessage_def storeRefused_def stmt_def)
qed

lemma cached_delivery:
  assumes lru: "lru_laws (libCache E) view" and L: "peer_lib_ok (libPeer E)"
    and addr: "NewMailboxAddress p f MailboxPrivate = Inr a" and msg: "sent_to E a msg"
    and hit: "view (mailboxCache s) (FullPath (libPeer E) a) = Some (PrivateMailbox rec)"
    and own: "OwnerPeerID rec = peer_String (libPeer E) (OwnerID a)"
    and refused: "\<And>m. pg_StoreMessage (mbID rec) m (Storage s) = (Inl ErrMailboxNotFound, Storage s)"
  shows "DeliverLocal E msg s = (Inl ErrMailboxNotFound,
    s\<lparr>mailboxCache := snd (ckGet (libCache E) (FullPath (libPeer E) a) (mailboxCache s))\<rparr>)"
proof -
  obtain x c where ck: "ckGet (libCache E) (FullPath (libPeer E) a) (mailboxCache s) = (x, c)" by fastforce
  then have x: "x = Some (PrivateMailbox rec)" using lru_laws.get_eq [OF lru ck] hit by simp
  have "validateFolderPath (addrFolderPath a) = None" "addrType a = MailboxPrivate"
    using addr by (auto simp: NewMailboxAddress_OK)
  then have new: "NewMailboxAddress (OwnerID a) (addrFolderPath a) MailboxPrivate = Inr a"
    using addr by (auto simp: NewMailboxAddress_OK)
  have dec: "peer_Decode (libPeer E) (RecipientPeerID msg) = Some (OwnerID a)"
    using msg L by (simp add: sent_to_def peer_Decode_String)
  have fold: "(if FolderPath msg = [] then ''inbox'' else FolderPath msg) = addrFolderPath a" using msg by (simp add: sent_to_def)
  have "storeMessage rec m (Storage s) = (Inl ErrMailboxNotFound, Storage s)" for m
    by (simp add: storeMessage_def refused errors_as_def)
  moreover have "RecipientPeerID (clampExpiry msg rec now) = OwnerPeerID rec" for now
    using msg own by (simp add: clampExpiry_def Let_def sent_to_def)
  ultimately show ?thesis
    unfolding DeliverLocal_def fold Let_def
    by (simp add: dec new getMailbox_def getOrCreateMailbox_def ck x with_db_def private_StoreMessage_def)
qed

lemma stale_delivery:
  assumes "lru_laws (libCache E) view" "peer_lib_ok (libPeer E)" "NewMailboxAddress p f MailboxPrivate = Inr a"
    and "sent_to E a msg" "stale_entry view (libPeer E) a rec s"
  shows "fst (DeliverLocal E msg s) = Inl ErrMailboxNotFound
    \<and> stale_entry view (libPeer E) a rec (snd (DeliverLocal E msg s))
    \<and> Storage (snd (DeliverLocal E msg s)) = Storage s"
proof -
  have ref: "pg_StoreMessage (mbID rec) m (Storage s) = (Inl ErrMailboxNotFound, Storage s)" for m
    using assms(5) by (simp add: stale_entry_def stale_store)
  have hit: "view (mailboxCache s) (FullPath (libPeer E) a) = Some (PrivateMailbox rec)"
    and own: "OwnerPeerID rec = peer_String (libPeer E) (OwnerID a)"
    using assms(5) by (simp_all add: stale_entry_def)
  show ?thesis
    using assms(5) lru_laws.get_keeps [OF assms(1)]
    by (simp add: cached_delivery [OF assms(1-4) hit own ref] stale_entry_def)
qed

text \<open>Deliveries to the folder, one after the other: all are refused and the database stays.\<close>

lemma stale_deliveries:
  assumes "lru_laws (libCache E) view" "peer_lib_ok (libPeer E)" "NewMailboxAddress p f MailboxPrivate = Inr a"
    and "\<forall>m \<in> set msgs. sent_to E a m" "stale_entry view (libPeer E) a rec s"
  shows "stale_entry view (libPeer E) a rec (deliver_all E msgs s)
    \<and> Storage (deliver_all E msgs s) = Storage s"
  using assms(4,5)
proof (induction msgs arbitrary: s)
  case (Cons m ms)
  then have "sent_to E a m" by simp
  from stale_delivery [OF assms(1-3) this Cons.prems(2)] Cons show ?case by (simp add: deliver_all_def)
qed (simp add: deliver_all_def)

text \<open>A record that was loaded before the deletion of its mailbox and cached after it is such an entry.\<close>

lemma load_delete_cache_stale:
  assumes lru: "lru_laws (libCache E) view" and nf: "faults (Storage s) = []" and inv: "db_inv (Storage s)"
    and load: "with_db (pg_FindMailbox (libPeer E) (OwnerID a) (addrFolderPath a)) s = (Inr (Some rec), s1)"
    and priv: "mbType rec = MailboxPrivate" and del: "DeleteMailbox E a s1 = (Inr (), s2)"
    and cached: "cache_mailbox E (FullPath (libPeer E) a) rec s2 = (Inr mb, s3)"
  shows "stale_entry view (libPeer E) a rec s3
    \<and> (\<forall>r \<in> set (mailboxes (Storage s3)). \<not> (OwnerPeerID r = peer_String (libPeer E) (OwnerID a) \<and> mbFolderPath r = addrFolderPath a))"
proof -
  have s1: "s1 = s" using load nf by (auto simp: with_db_eq pg_FindMailbox_def stmt_def)
  obtain r0 where r0: "r0 \<in> set (mailboxes (Storage s))" "rec = record_of r0"
      "OwnerPeerID r0 = peer_String (libPeer E) (OwnerID a)" "mbFolderPath r0 = addrFolderPath a"
    using load pg_FindMailbox_InrD [of "libPeer E" "OwnerID a" "addrFolderPath a" "Storage s" "Some rec"] by (auto simp: with_db_eq)
  have st2: "Storage s2 = snd (pg_DeleteMailbox (mbID rec) (Storage s))"
    using del load unfolding s1 by (auto simp: DeleteMailbox_def with_db_eq emit_def split: prod.splits sum.splits)
  have rows: "mailboxes (Storage s2) = filter (\<lambda>r. mbID r \<noteq> mbID rec) (mailboxes (Storage s))" "faults (Storage s2) = []"
    using nf by (simp_all add: st2 pg_DeleteMailbox_def stmt_def)
  have s3: "Storage s3 = Storage s2" "mailboxCache s3 = ckAdd (libCache E) (FullPath (libPeer E) a) (PrivateMailbox rec) (mailboxCache s2)"
    using cached priv by (auto simp: cache_mailbox_def wrapRecord_def)
  have "r = r0" if "r \<in> set (mailboxes (Storage s))" "OwnerPeerID r = peer_String (libPeer E) (OwnerID a)" "mbFolderPath r = addrFolderPath a" for r
    using that r0 inv distinct_key_unique [of "\<lambda>r. (OwnerPeerID r, mbFolderPath r)" "mailboxes (Storage s)" r r0]
    by (simp add: db_inv_def ids_ok_def)
  then show ?thesis
    using rows r0(2,3) lru_laws.add_same [OF lru] by (auto simp: stale_entry_def s3 mailbox_exists_def)
qed

text \<open>
  C24. A private mailbox that a request has loaded and its owner then deletes goes back into the
  cache when the request goes on: the load and the insertion of \<open>findMailbox_two_steps\<close>, with the
  deletion, which drops the entry that is not there yet, between them. Whatever
  the server, the owner, the folder and the messages: after any deliveries to that folder the next
  one is refused as "mailbox not found", nothing is stored and the mailbox is not created again,
  for as long as the entry stays cached.
\<close>

theorem stale_entry_after_delete:
  assumes "lru_laws (libCache E) view" "peer_lib_ok (libPeer E)" "faults (Storage s) = []" "db_inv (Storage s)"
    and "NewMailboxAddress p f MailboxPrivate = Inr a"
    and "with_db (pg_FindMailbox (libPeer E) (OwnerID a) (addrFolderPath a)) s = (Inr (Some rec), s1)"
    and "mbType rec = MailboxPrivate" "DeleteMailbox E a s1 = (Inr (), s2)"
    and "cache_mailbox E (FullPath (libPeer E) a) rec s2 = (Inr mb, s3)"
    and "\<forall>m \<in> set (msg # msgs). sent_to E a m"
  shows "fst (DeliverLocal E msg (deliver_all E msgs s3)) = Inl ErrMailboxNotFound
    \<and> Storage (snd (DeliverLocal E msg (deliver_all E msgs s3))) = Storage s2
    \<and> (\<forall>r \<in> set (mailboxes (Storage s2)). \<not> (OwnerPeerID r = peer_String (libPeer E) p \<and> mbFolderPath r = f))"
proof -
  have a: "OwnerID a = p" "addrFolderPath a = f" using assms(5) by (auto simp: NewMailboxAddress_OK)
  have s3: "Storage s3 = Storage s2" using assms(9) by (auto simp: cache_mailbox_def split: sum.splits)
  note stale = load_delete_cache_stale [OF assms(1,3,4,6-9)]
  have "stale_entry view (libPeer E) a rec (deliver_all E msgs s3)" "Storage (deliver_all E msgs s3) = Storage s3"
    using stale_deliveries [OF assms(1,2,5) _ conjunct1 [OF stale]] assms(10) by auto
  then show ?thesis
    using stale_delivery [OF assms(1,2,5), of msg rec "deliver_all E msgs s3"] assms(10) stale s3 a by simp
qed

text \<open>At a server with one mailbox; without the stale entry the same delivery succeeds.\<close>

theorem stale_entry_after_delete_witness:
  "fst (DeliverLocal demo_libs (demo_msg ''m9'' 0) race_deleted) = Inr 0
   \<and> fst (DeliverLocal demo_libs (demo_msg ''m9'' 0) (deliver_all demo_libs [demo_msg ''m7'' 0, demo_msg ''m8'' 3] race_cached))
       = Inl ErrMailboxNotFound"
proof -
  have load: "fst (with_db (pg_FindMailbox hex_peers (PeerID ''B'') ''inbox'') demo_srv) = Inr (Some demo_record)" by code_simp
  have del: "fst (DeleteMailbox demo_libs (NewInbox (PeerID ''B'')) race_loaded) = Inr ()" by code_simp
  have mb: "fst (cache_mailbox demo_libs ''42/inbox'' demo_record race_deleted) = Inr (PrivateMailbox demo_record)" by code_simp
  have free: "fst (DeliverLocal demo_libs (demo_msg ''m9'' 0) race_deleted) = Inr 0" by code_simp
  have sent: "list_all (sent_to demo_libs (NewInbox (PeerID ''B''))) [demo_msg ''m9'' 0, demo_msg ''m7'' 0, demo_msg ''m8'' 3]" by code_simp
  have misc: "faults (Storage demo_srv) = []" "mbType demo_record = MailboxPrivate" by code_simp+
  have path: "FullPath (libPeer demo_libs) (NewInbox (PeerID ''B'')) = ''42/inbox''" by code_simp
  have new: "NewMailboxAddress (PeerID ''B'') ''inbox'' MailboxPrivate = Inr (NewInbox (PeerID ''B''))" by code_simp
  have lib: "libPeer demo_libs = hex_peers" by (simp add: demo_libs_def)
  have "fst (DeliverLocal demo_libs (demo_msg ''m9'' 0) (deliver_all demo_libs [demo_msg ''m7'' 0, demo_msg ''m8'' 3] race_cached)) = Inl ErrMailboxNotFound"
    using stale_entry_after_delete [OF demo_lru _ _ _ new, of demo_srv demo_record race_loaded race_deleted "PrivateMailbox demo_record" race_cached
        "demo_msg ''m9'' 0" "[demo_msg ''m7'' 0, demo_msg ''m8'' 3]"]
      result_eq [OF load] result_eq [OF del] result_eq [OF mb] sent path misc hex_peers_ok demo_srv_inv
    by (simp add: lib race_loaded_def race_deleted_def race_cached_def NewInbox_def srv_inv_def)
  with free show ?thesis by simp
qed

end
