(* ===== verification/Status.thy ===== *)
theory Status
  imports Address
begin

text \<open>
  What a client is told of an error (\<^verbatim>\<open>src/internal/protocol/wire\<close>): the text of each error type,
  the one table that classifies errors (\<^verbatim>\<open>status.go\<close>), the authorization and field checks
  (\<^verbatim>\<open>authz.go\<close>, \<^verbatim>\<open>fields.go\<close>) and the gate for banned peers (\<^verbatim>\<open>ban.go\<close>).
\<close>

section \<open>Texts of errors\<close>

text \<open>\<^verbatim>\<open>time.Duration.String\<close>: the largest fitting unit below a second, hours, minutes and seconds above.\<close>

fun frac_digits :: "nat \<Rightarrow> int \<Rightarrow> string" where
  "frac_digits 0 v = []"
| "frac_digits (Suc n) v = frac_digits n (v div 10) @ [digit_char (nat (v mod 10))]"

definition fmt_frac :: "nat \<Rightarrow> int \<Rightarrow> string" where
  "fmt_frac prec v =
     (let ds = rev (dropWhile (\<lambda>c. c = CHR ''0'') (rev (frac_digits prec (v mod 10 ^ prec))))
      in show_int (v div 10 ^ prec) @ (if ds = [] then [] else CHR ''.'' # ds))"

definition duration_abs :: "int \<Rightarrow> string" where
  "duration_abs u =
     (if u < 1000 then show_int u @ ''ns''
      else if u < 1000000 then fmt_frac 3 u @ [CHR 0xC2, CHR 0xB5, CHR ''s'']
      else if u < 1000000000 then fmt_frac 6 u @ ''ms''
      else (let secs = u div 1000000000; mins = secs div 60; hours = mins div 60;
                rest = fmt_frac 9 (u mod 60000000000) @ ''s''
            in if mins = 0 then rest
               else if hours = 0 then show_int mins @ ''m'' @ rest
               else show_int hours @ ''h'' @ show_int (mins mod 60) @ ''m'' @ rest))"

definition duration_text :: "int \<Rightarrow> string" where
  "duration_text d =
     (if d = 0 then ''0s'' else if d < 0 then CHR ''-'' # duration_abs (- d) else duration_abs d)"

fun error_text :: "err \<Rightarrow> string" where
  "error_text (RateLimitedError d t) = t"
| "error_text (ErrRateLimited t) = t"
| "error_text (RateLimitError p) = ''rate limit exceeded for peer '' @ p"
| "error_text (OverloadedError d r) =
     ''server at capacity'' @ (if r = [] then [] else '': '' @ r)
       @ (if 0 < d then '', retry after '' @ duration_text d else [])"
| "error_text ErrOverloaded = ''server at capacity''"
| "error_text ErrDraining = ''server shutting down''"
| "error_text (MailboxFullError c m) = ''mailbox full: '' @ show_int c @ ''/'' @ show_int m @ '' messages''"
| "error_text (QuotaExceededError w c m) = ''quota exceeded: '' @ w @ '' '' @ show_int c @ ''/'' @ show_int m"
| "error_text ErrStorageFull = ''server storage is full''"
| "error_text (InvalidPathError p e) = ''invalid folder path '' @ quoted p @ '': '' @ error_text e"
| "error_text (FieldError f r) = f @ '' '' @ r"
| "error_text (ValidationError m) = ''validation error: '' @ m"
| "error_text (DocumentSizeExceededError a m) =
     ''document size '' @ show_int a @ '' exceeds maximum '' @ show_int m"
| "error_text ErrInvalidCursor = ''invalid pagination cursor''"
| "error_text ErrInvalidFilter = ''invalid collection filter''"
| "error_text ErrInvalidContent = ''invalid collection content''"
| "error_text ErrDirectoryQueryTooLong = ''directory query too long''"
| "error_text (JsonSyntaxError t) = t"
| "error_text (JsonUnmarshalTypeError t) = t"
| "error_text (UnauthorizedError m) = ''unauthorized: '' @ m"
| "error_text (ForwardingRefusedError r) = ''forwarding refused: '' @ r"
| "error_text (NotFoundError p) = ''mailbox not found: '' @ p"
| "error_text ErrMailboxNotFound = ''mailbox not found''"
| "error_text ErrDocumentNotFound = ''document not found''"
| "error_text ErrDirectoryEntryNotFound = ''directory entry not found''"
| "error_text ErrFeedNotFound = ''feed not found''"
| "error_text ErrCollectionNotFound = ''collection not found''"
| "error_text (DocumentConflictError e a) = ''document conflict: expected hash '' @ e @ '', got '' @ a"
| "error_text (CollectionItemConflictError e a) = ''collection item conflict: expected hash '' @ e @ '', got '' @ a"
| "error_text (ErrUnknownOperation t) = t"
| "error_text (ErrMissingOperation t) = t"
| "error_text ErrNotSampled = ''capacity has not been sampled yet''"
| "error_text (DbError t) = t"
| "error_text (PlainError t) = t"
| "error_text (Wrapped pre e post) = pre @ error_text e @ post"


section \<open>Classification (\<open>status.go\<close>)\<close>

text \<open>
  \<^verbatim>\<open>classify\<close> as the table it is: in order, what \<^verbatim>\<open>errors.As\<close> or \<^verbatim>\<open>errors.Is\<close> looks for, and the status,
  the retry hint and the message of the error found.
\<close>

fun rule_of :: "err \<Rightarrow> nat option" where
  "rule_of (RateLimitedError d t) = Some 0"
| "rule_of (ErrRateLimited t) = Some 1"
| "rule_of (RateLimitError p) = Some 2"
| "rule_of (OverloadedError d r) = Some 3"
| "rule_of ErrOverloaded = Some 4"
| "rule_of ErrDraining = Some 5"
| "rule_of (MailboxFullError c m) = Some 6"
| "rule_of (QuotaExceededError w c m) = Some 7"
| "rule_of ErrStorageFull = Some 8"
| "rule_of (InvalidPathError p e) = Some 9"
| "rule_of (FieldError f r) = Some 10"
| "rule_of (ValidationError m) = Some 11"
| "rule_of (DocumentSizeExceededError a m) = Some 12"
| "rule_of ErrInvalidCursor = Some 13"
| "rule_of ErrInvalidFilter = Some 14"
| "rule_of ErrInvalidContent = Some 14"
| "rule_of ErrDirectoryQueryTooLong = Some 15"
| "rule_of (JsonSyntaxError t) = Some 16"
| "rule_of (JsonUnmarshalTypeError t) = Some 17"
| "rule_of (UnauthorizedError m) = Some 18"
| "rule_of (ForwardingRefusedError r) = Some 19"
| "rule_of (NotFoundError p) = Some 20"
| "rule_of ErrMailboxNotFound = Some 21"
| "rule_of ErrDocumentNotFound = Some 22"
| "rule_of ErrDirectoryEntryNotFound = Some 23"
| "rule_of ErrFeedNotFound = Some 24"
| "rule_of ErrCollectionNotFound = Some 25"
| "rule_of (DocumentConflictError e a) = Some 26"
| "rule_of (CollectionItemConflictError e a) = Some 27"
| "rule_of (ErrUnknownOperation t) = Some 28"
| "rule_of (ErrMissingOperation t) = Some 29"
| "rule_of ErrNotSampled = Some 30"
| "rule_of _ = None"

definition rule_status :: "nat \<Rightarrow> int" where
  "rule_status i =
     (if i < 3 then StatusTooManyRequests
      else if i < 6 then StatusServiceUnavailable
      else if i < 9 then StatusInsufficientStorage
      else if i < 18 then StatusBadRequest
      else if i < 20 then StatusForbidden
      else if i < 26 then StatusNotFound
      else if i < 28 then StatusConflict
      else if i < 30 then StatusBadRequest
      else StatusServiceUnavailable)"

fun retry_after :: "err \<Rightarrow> int" where
  "retry_after (RateLimitedError d t) = d"
| "retry_after (OverloadedError d r) = d"
| "retry_after _ = 0"

text \<open>Rule \<open>i\<close> matches: the first error of the chain that it looks for.\<close>

definition match_rule :: "err \<Rightarrow> nat \<Rightarrow> err option" where
  "match_rule e i = errors_as (\<lambda>x. rule_of x = Some i) e"

fun first_match :: "err \<Rightarrow> nat list \<Rightarrow> (nat \<times> err) option" where
  "first_match e [] = None"
| "first_match e (i # is) = (case match_rule e i of Some x \<Rightarrow> Some (i, x) | None \<Rightarrow> first_match e is)"

definition classify :: "err option \<Rightarrow> int \<times> int \<times> string" where
  "classify eo =
     (case eo of
        None \<Rightarrow> (StatusOK, 0, [])
      | Some e \<Rightarrow>
          (case first_match e [0..<31] of
             None \<Rightarrow> (StatusInternalError, 0, [])
           | Some (i, x) \<Rightarrow>
               (rule_status i, retry_after x,
                if i < 2 then ''rate limit exceeded'' else if i = 14 then error_text e else error_text x)))"

definition Classify :: "err option \<Rightarrow> int \<times> int" where
  "Classify eo = (let (st, ra, _) = classify eo in (st, ra))"

definition status_phrase :: "int \<Rightarrow> string" where
  "status_phrase st =
     (if st = StatusOK then []
      else if st = StatusBadRequest then ''bad request''
      else if st = StatusForbidden then ''forbidden''
      else if st = StatusNotFound then ''not found''
      else if st = StatusConflict then ''conflict''
      else if st = StatusTooManyRequests then ''rate limited''
      else if st = StatusServiceUnavailable then ''server overloaded''
      else if st = StatusInsufficientStorage then ''insufficient storage''
      else ''internal error'')"

definition ClientMessage :: "err option \<Rightarrow> string" where
  "ClientMessage eo = (let (st, _, msg) = classify eo in if msg \<noteq> [] then msg else status_phrase st)"

text \<open>A hint in milliseconds, from a duration in nanoseconds; \<^verbatim>\<open>Milliseconds\<close> truncates.\<close>

definition RetryAfterMs :: "int \<Rightarrow> int" where
  "RetryAfterMs d = (if d \<le> 0 then 0 else let ms = d div 1000000 in if ms < 1 then 1 else ms)"


section \<open>Authorization and fields\<close>

definition Forbidden :: "string \<Rightarrow> err" where
  "Forbidden reason = UnauthorizedError reason"

definition RequireOwner :: "peer_id \<Rightarrow> peer_id \<Rightarrow> string \<Rightarrow> err option" where
  "RequireOwner caller owner action =
     (if caller = owner then None else Some (Forbidden (action @ '' require owner access'')))"

definition RequireSelf :: "peer_lib \<Rightarrow> peer_id \<Rightarrow> string \<Rightarrow> string \<Rightarrow> err option" where
  "RequireSelf L caller claimed field =
     (if claimed = [] \<or> claimed = peer_String L caller then None
      else Some (Forbidden (field @ '' must be the connected peer'')))"

definition CheckString :: "string \<Rightarrow> string \<Rightarrow> int \<Rightarrow> err option" where
  "CheckString field v max_len =
     (if max_len < int (length v) then Some (FieldError field (''exceeds '' @ show_int max_len @ '' bytes''))
      else if \<not> valid_utf8 v then Some (FieldError field ''is not valid UTF-8'')
      else None)"

text \<open>\<^verbatim>\<open>CheckJSONSize\<close>, given the encoding of the value: \<open>None\<close> when it cannot be encoded.\<close>

definition CheckJSONSize :: "string \<Rightarrow> bytes option option \<Rightarrow> int \<Rightarrow> err option" where
  "CheckJSONSize field v max_len =
     (case v of
        None \<Rightarrow> None
      | Some None \<Rightarrow> Some (FieldError field ''cannot be encoded as JSON'')
      | Some (Some data) \<Rightarrow>
          if max_len < int (length data)
          then Some (FieldError field (''exceeds '' @ show_int max_len @ '' bytes as JSON''))
          else None)"


section \<open>Nothing of an internal error reaches a client\<close>

text \<open>An error with the texts of its database, untyped and wrapping parts rewritten, at any depth.\<close>

fun rewrite :: "(string \<Rightarrow> string) \<Rightarrow> err \<Rightarrow> err" where
  "rewrite f (Wrapped pre e post) = Wrapped (f pre) (rewrite f e) (f post)"
| "rewrite f (InvalidPathError p e) = InvalidPathError p (rewrite f e)"
| "rewrite f (DbError t) = DbError (f t)"
| "rewrite f (PlainError t) = PlainError (f t)"
| "rewrite f e = e"

text \<open>The two have the same rule, and are the same where the rule is not that of a refused path.\<close>

definition same_rule :: "err \<Rightarrow> err \<Rightarrow> bool" where
  "same_rule x y \<longleftrightarrow> rule_of x = rule_of y \<and> retry_after x = retry_after y \<and> (rule_of x = None \<or> rule_of x = Some 9 \<or> x = y)"

lemma same_rule_refl [simp]: "same_rule x x"
  by (simp add: same_rule_def)

lemma chain_rewrite: "list_all2 same_rule (chain e) (chain (rewrite f e))"
  by (induction e) (simp_all add: same_rule_def list_all2_refl)

lemma find_same_rule:
  "list_all2 same_rule xs ys \<Longrightarrow> rel_option same_rule (find (\<lambda>x. rule_of x = Some i) xs) (find (\<lambda>x. rule_of x = Some i) ys)"
  by (induction rule: list_all2_induct) (auto simp: same_rule_def)

lemma match_rule_rewrite: "rel_option same_rule (match_rule e i) (match_rule (rewrite f e) i)"
  unfolding match_rule_def errors_as_def by (rule find_same_rule [OF chain_rewrite])

lemma first_match_rewrite:
  "rel_option (rel_prod (=) same_rule) (first_match e is) (first_match (rewrite f e) is)"
proof (induction "is")
  case (Cons i "is")
  then show ?case using match_rule_rewrite [of e i f] by (cases "match_rule e i"; cases "match_rule (rewrite f e) i") auto
qed simp

lemma match_ruleD: "match_rule e i = Some x \<Longrightarrow> x \<in> set (chain e) \<and> rule_of x = Some i"
  by (auto simp: match_rule_def errors_as_def dest: find_SomeD)

lemma first_matchD: "first_match e is = Some (i, x) \<Longrightarrow> i \<in> set is \<and> x \<in> set (chain e) \<and> rule_of x = Some i"
  by (induction "is") (auto split: option.splits dest: match_ruleD)

lemma rule_14: "rule_of x = Some 14 \<Longrightarrow> x = ErrInvalidFilter \<or> x = ErrInvalidContent"
  by (cases x) auto

lemma rule_9: "rule_of x = Some 9 \<Longrightarrow> \<exists>p r. x = InvalidPathError p r"
  by (cases x) auto

lemma retry_after_rule: "rule_of x = Some i \<Longrightarrow> retry_after x \<noteq> 0 \<Longrightarrow> i = 0 \<or> i = 3"
  by (cases x) auto

text \<open>
  C25. What \<^verbatim>\<open>Classify\<close> and \<^verbatim>\<open>ClientMessage\<close> make of an error does not depend on the texts of database errors,
  of untyped errors or of the context wrapped around them, at any depth: rewriting all of these texts
  in any way changes neither the status nor the retry hint, and it changes the message only in the
  three cases whose message quotes the error, an invalid filter, invalid content and a refused
  folder path. An error that holds nothing recognised is answered with status 500 and a fixed
  phrase. A retry hint is given only with a 429 or a 503. (This is about the two functions:
  handlers that answer with the text of an error do not use them, \<^verbatim>\<open>BATCH_GET\<close> for storage errors too.)
\<close>

theorem client_sees_no_internal_text:
  "Classify (Some (rewrite f e)) = Classify (Some e)
   \<and> (\<not> errors_is e ErrInvalidFilter \<and> \<not> errors_is e ErrInvalidContent \<and> (\<forall>p r. \<not> errors_is e (InvalidPathError p r)) \<longrightarrow>
        ClientMessage (Some (rewrite f e)) = ClientMessage (Some e))
   \<and> ((\<forall>x \<in> set (chain e). rule_of x = None) \<longrightarrow>
        Classify (Some e) = (StatusInternalError, 0) \<and> ClientMessage (Some e) = ''internal error'')
   \<and> (snd (Classify (Some e)) \<noteq> 0 \<longrightarrow> fst (Classify (Some e)) \<in> {StatusTooManyRequests, StatusServiceUnavailable})"
proof (intro conjI impI)
  note cl = Classify_def ClientMessage_def classify_def
  note fm = first_match_rewrite [of e "[0..<31]" f]
  show "Classify (Some (rewrite f e)) = Classify (Some e)"
    using fm by (cases "first_match e [0..<31]"; cases "first_match (rewrite f e) [0..<31]") (auto simp: cl same_rule_def)
  show "ClientMessage (Some (rewrite f e)) = ClientMessage (Some e)"
    if n: "\<not> errors_is e ErrInvalidFilter \<and> \<not> errors_is e ErrInvalidContent \<and> (\<forall>p r. \<not> errors_is e (InvalidPathError p r))"
  proof -
    have "i \<noteq> 14 \<and> rule_of x \<noteq> Some 9 \<and> rule_of x \<noteq> None" if "first_match e [0..<31] = Some (i, x)" for i x
      using first_matchD [OF that] rule_14 [of x] rule_9 [of x] n by (auto simp: errors_is_def)
    then show ?thesis
      using fm by (cases "first_match e [0..<31]"; cases "first_match (rewrite f e) [0..<31]") (fastforce simp: cl same_rule_def)+
  qed
  show "Classify (Some e) = (StatusInternalError, 0)" and "ClientMessage (Some e) = ''internal error''"
    if "\<forall>x \<in> set (chain e). rule_of x = None"
  proof -
    have "first_match e [0..<31] = None"
      using that first_matchD [of e "[0..<31]"] by (cases "first_match e [0..<31]") fastforce+
    then show "Classify (Some e) = (StatusInternalError, 0)" "ClientMessage (Some e) = ''internal error''"
      by (simp_all add: cl status_phrase_def status_defs)
  qed
  show "fst (Classify (Some e)) \<in> {StatusTooManyRequests, StatusServiceUnavailable}" if "snd (Classify (Some e)) \<noteq> 0"
  proof (cases "first_match e [0..<31]")
    case None
    then show ?thesis using that by (simp add: cl)
  next
    case (Some a)
    obtain i x where a: "a = (i, x)" by fastforce
    then have "i = 0 \<or> i = 3"
      using that Some first_matchD [of e "[0..<31]" i x] retry_after_rule [of x i] by (simp add: cl)
    then show ?thesis using Some a by (auto simp: cl rule_status_def)
  qed
qed

theorem client_sees_no_internal_text_witness:
  "ClientMessage (Some (Wrapped ''store: '' (DbError ''duplicate key value violates mailboxes_pkey'') [])) = ''internal error''
   \<and> ClientMessage (Some (rewrite (\<lambda>_. []) (Wrapped ''deliver message: '' (MailboxFullError 3 3) []))) = ''mailbox full: 3/3 messages''
   \<and> fst (Classify (Some (OverloadedError 50000000 []))) \<in> {StatusTooManyRequests, StatusServiceUnavailable}"
proof -
  let ?f = "\<lambda>_. []" and ?d = "Wrapped ''store: '' (DbError ''duplicate key value violates mailboxes_pkey'') []"
  let ?m = "Wrapped ''deliver message: '' (MailboxFullError 3 3) []"
  have "\<forall>x \<in> set (chain ?d). rule_of x = None" by simp
  then have a: "ClientMessage (Some ?d) = ''internal error''" using client_sees_no_internal_text [of ?f ?d] by blast
  have "\<not> errors_is ?m ErrInvalidFilter \<and> \<not> errors_is ?m ErrInvalidContent \<and> (\<forall>p r. \<not> errors_is ?m (InvalidPathError p r))"
    by (simp add: errors_is_def)
  moreover have "ClientMessage (Some ?m) = ''mailbox full: 3/3 messages''" by code_simp
  ultimately have b: "ClientMessage (Some (rewrite ?f ?m)) = ''mailbox full: 3/3 messages''"
    using client_sees_no_internal_text [of ?f ?m] by simp
  have "snd (Classify (Some (OverloadedError 50000000 []))) \<noteq> 0" by code_simp
  then show ?thesis using a b client_sees_no_internal_text [of ?f "OverloadedError 50000000 []"] by blast
qed

end
