(* ===== verification/Mta.thy ===== *)
theory Mta
  imports Mda_Access Status
begin

text \<open>
  The mail transfer agent (\<^verbatim>\<open>src/internal/mta/router.go\<close>) and the set of trusted peers it consults
  (\<^verbatim>\<open>src/internal/trust/trust.go\<close>): which submissions are accepted, from whom, and what is then
  delivered. The rate limiter is a third-party interface: its \<^verbatim>\<open>Allow\<close> is a parameter over a state of
  its own.
\<close>

section \<open>Trusted peers\<close>

text \<open>A nil set is \<open>None\<close>.\<close>

type_synonym Peers = "peer_id set option"

fun Parse_loop :: "peer_lib \<Rightarrow> string list \<Rightarrow> peer_id set \<Rightarrow> err + Peers" where
  "Parse_loop L [] acc = Inr (Some acc)"
| "Parse_loop L (s # ss) acc =
     (case peer_Decode L s of
        None \<Rightarrow> Inl (Wrapped (''trusted_peers entry '' @ quoted s @ '': '') (PlainError (peer_DecodeError L s)) [])
      | Some p \<Rightarrow> Parse_loop L ss (insert p acc))"

definition Parse :: "peer_lib \<Rightarrow> string list \<Rightarrow> err + Peers" where
  "Parse L ids = Parse_loop L ids {}"

definition Contains :: "Peers \<Rightarrow> peer_id \<Rightarrow> bool" where
  "Contains p i = (case p of None \<Rightarrow> False | Some S \<Rightarrow> i \<in> S)"

definition Len :: "Peers \<Rightarrow> nat" where
  "Len p = (case p of None \<Rightarrow> 0 | Some S \<Rightarrow> card S)"

datatype direction = DirUnknown | DirInbound | DirOutbound

definition InterceptSecured :: "Peers \<Rightarrow> direction \<Rightarrow> peer_id \<Rightarrow> bool" where
  "InterceptSecured peers dir i \<longleftrightarrow> dir \<noteq> DirInbound \<or> Contains peers i"


section \<open>The router\<close>

record 'r limiter_lib =
  lmAllow :: "millis \<Rightarrow> peer_id \<Rightarrow> 'r \<Rightarrow> bool \<times> 'r"

record ('c, 'm, 'r) Router =
  rtMda :: "('c, 'm) MailboxServer"
  rtLimiter :: "'r option"
  forwarding :: bool
  forwarders :: Peers

type_synonym ('c, 'm, 'r, 'a) rtm = "('c, 'm, 'r) Router \<Rightarrow> (err + 'a) \<times> ('c, 'm, 'r) Router"

definition NewRouter :: "('c, 'm) MailboxServer \<Rightarrow> 'r option \<Rightarrow> ('c, 'm, 'r) Router" where
  "NewRouter mailboxServer limiter =
     \<lparr>rtMda = mailboxServer, rtLimiter = limiter, forwarding = False, forwarders = None\<rparr>"

definition WithForwarding :: "bool \<Rightarrow> Peers \<Rightarrow> ('c, 'm, 'r) Router \<Rightarrow> ('c, 'm, 'r) Router" where
  "WithForwarding enabled fs rt = rt\<lparr>forwarding := enabled, forwarders := fs\<rparr>"

definition rt_now :: "('c, 'm, 'r) Router \<Rightarrow> millis" where
  "rt_now rt = clock (Storage (rtMda rt))"

definition validateForwarded :: "millis \<Rightarrow> Message \<Rightarrow> err option" where
  "validateForwarded now msg =
     (if IsExpired now msg then Some (ValidationError (''message already expired: '' @ MessageID msg))
      else if MaxHopCount < HopCount msg
      then Some (ValidationError (''hop count exceeded: '' @ show_int (HopCount msg) @ '' > '' @ show_int MaxHopCount))
      else if MaxPayloadSize < int (length (Payload msg))
      then Some (ValidationError (''payload too large: '' @ show_nat (length (Payload msg)) @ '' bytes''))
      else None)"

definition validateMessage :: "peer_lib \<Rightarrow> millis \<Rightarrow> Message \<Rightarrow> peer_id \<Rightarrow> err option" where
  "validateMessage L now msg senderID =
     (if SenderPeerID msg \<noteq> peer_String L senderID
      then Some (ValidationError (''sender mismatch: expected '' @ peer_String L senderID @ '', got '' @ SenderPeerID msg))
      else if IsExpired now msg then Some (ValidationError (''message already expired: '' @ MessageID msg))
      else if MaxHopCount < HopCount msg
      then Some (ValidationError (''hop count exceeded: '' @ show_int (HopCount msg) @ '' > '' @ show_int MaxHopCount))
      else if MaxPayloadSize < int (length (Payload msg))
      then Some (ValidationError (''payload too large: '' @ show_nat (length (Payload msg)) @ '' bytes''))
      else None)"

definition checkRateLimit :: "'r limiter_lib \<Rightarrow> peer_id \<Rightarrow> ('c, 'm, 'r) Router \<Rightarrow> bool \<times> ('c, 'm, 'r) Router" where
  "checkRateLimit M p rt =
     (case rtLimiter rt of
        None \<Rightarrow> (True, rt)
      | Some l \<Rightarrow> (let (ok, l') = lmAllow M (rt_now rt) p l in (ok, rt\<lparr>rtLimiter := Some l'\<rparr>)))"

definition deliver :: "('c, 'm, 'l) libs \<Rightarrow> string \<Rightarrow> Message \<Rightarrow> ('c, 'm, 'r, string) rtm" where
  "deliver E ctx msg rt =
     (case DeliverLocal E msg (rtMda rt) of
        (Inl e, s) \<Rightarrow> (Inl (Wrapped ctx e []), rt\<lparr>rtMda := s\<rparr>)
      | (Inr _, s) \<Rightarrow> (Inr (MessageID msg), rt\<lparr>rtMda := s\<rparr>))"

definition AcceptMessage :: "('c, 'm, 'l) libs \<Rightarrow> 'r limiter_lib \<Rightarrow> Message \<Rightarrow> peer_id \<Rightarrow> ('c, 'm, 'r, string) rtm" where
  "AcceptMessage E M msg senderID rt =
     (case validateMessage (libPeer E) (rt_now rt) msg senderID of
        Some e \<Rightarrow> (Inl e, rt)
      | None \<Rightarrow>
          (let (ok, rt1) = checkRateLimit M senderID rt in
           if \<not> ok then (Inl (RateLimitError (peer_String (libPeer E) senderID)), rt1)
           else deliver E ''deliver message: '' msg rt1))"

definition AcceptForwarded :: "('c, 'm, 'l) libs \<Rightarrow> 'r limiter_lib \<Rightarrow> Message \<Rightarrow> peer_id \<Rightarrow> ('c, 'm, 'r, string) rtm" where
  "AcceptForwarded E M msg forwarderID rt =
     (if \<not> forwarding rt then (Inl (ForwardingRefusedError ''forwarding is not enabled on this server''), rt)
      else if \<not> Contains (forwarders rt) forwarderID
      then (Inl (ForwardingRefusedError ''forwarder is not a trusted peer''), rt)
      else case peer_Decode (libPeer E) (SenderPeerID msg) of
        None \<Rightarrow> (Inl (ValidationError (''invalid sender peer ID: '' @ peer_DecodeError (libPeer E) (SenderPeerID msg))), rt)
      | Some _ \<Rightarrow>
          (case WithIncrementedHopCount msg of
             Inl e \<Rightarrow> (Inl (ValidationError (error_text e)), rt)
           | Inr fwd \<Rightarrow>
               (let forwarded = fwd\<lparr>Flags := Flags fwd OR FlagForwarded\<rparr>;
                    (ok, rt1) = checkRateLimit M forwarderID rt
                in if \<not> ok then (Inl (RateLimitError (peer_String (libPeer E) forwarderID)), rt1)
                   else case validateForwarded (rt_now rt1) forwarded of
                     Some e \<Rightarrow> (Inl e, rt1)
                   | None \<Rightarrow> deliver E ''deliver forwarded message: '' forwarded rt1)))"


section \<open>What a submission may leave in the store\<close>

text \<open>Every row of the later database is one of the earlier or satisfies \<open>P\<close>.\<close>

definition adds_only :: "(StoredMessageRecord \<Rightarrow> bool) \<Rightarrow> db \<Rightarrow> db \<Rightarrow> bool" where
  "adds_only P d d' \<longleftrightarrow> (\<forall>row \<in> set (stored_messages d'). row \<in> set (stored_messages d) \<or> P row)"

text \<open>The row carries the message: its identifier, sender, recipient, content, hops and flags.\<close>

definition row_of :: "Message \<Rightarrow> StoredMessageRecord \<Rightarrow> bool" where
  "row_of msg row \<longleftrightarrow> smMessageID row = MessageID msg \<and> smSenderPeerID row = SenderPeerID msg
     \<and> smRecipientPeerID row = RecipientPeerID msg \<and> smPayload row = Payload msg
     \<and> smHopCount row = HopCount msg \<and> smSfFlags row = Flags msg"

lemma adds_only_same: "stored_messages d' = stored_messages d \<Longrightarrow> adds_only P d d'"
  by (simp add: adds_only_def)

lemma adds_only_refl [simp]: "adds_only P d d" "adds_only P d (next_faults d)"
  by (simp_all add: adds_only_def)

lemma adds_only_trans: "adds_only P a b \<Longrightarrow> adds_only P b c \<Longrightarrow> adds_only P a c"
  by (auto simp: adds_only_def)

lemma adds_only_mono: "adds_only P a b \<Longrightarrow> (\<And>r. P r \<Longrightarrow> Q r) \<Longrightarrow> adds_only Q a b"
  by (auto simp: adds_only_def)

lemma stmt_adds_only:
  assumes "\<And>d. adds_only P d (snd (f d))"
  shows "adds_only P db (snd (stmt f db))"
  by (rule stmt_snd_case [where Q = "adds_only P db"])
    (rule adds_only_trans [OF adds_only_refl(2) assms], rule adds_only_refl)

lemma pg_StoreMessage_adds: "adds_only (row_of msg) d (snd (pg_StoreMessage mid msg d))"
  unfolding pg_StoreMessage_def
  by (rule stmt_adds_only) (auto simp: adds_only_def row_of_def Let_def message_row_def split: option.splits)

lemma delete_stmt_adds: "adds_only P d (snd (delete_stmt Q d))"
  unfolding delete_stmt_def
  by (rule stmt_adds_only) (auto simp: adds_only_def Let_def case_prod_unfold)

lemma pg_EnforceRetentionPolicy_adds: "adds_only P d (snd (pg_EnforceRetentionPolicy mb d))"
proof -
  have del: "adds_only P d0 d1" if "delete_stmt Q d0 = (x, d1)" for Q d0 x d1
    using delete_stmt_adds [of P d0 Q] that by simp
  have neg: "adds_only P d0 (snd (stmt (\<lambda>d. (Inl e, d)) d0))" for d0 and e :: err
    by (rule stmt_adds_only) simp
  show ?thesis unfolding pg_EnforceRetentionPolicy_def
    by (auto split: prod.splits sum.splits option.splits dest!: del intro: adds_only_trans neg)
qed

lemma storeMessage_adds: "adds_only (row_of msg) d (snd (storeMessage r msg d))"
proof -
  have st: "adds_only (row_of msg) d0 d1" if "pg_StoreMessage mid msg d0 = (x, d1)" for mid d0 x d1
    using pg_StoreMessage_adds [of msg d0 mid] that by simp
  have en: "adds_only (row_of msg) d0 d1" if "pg_EnforceRetentionPolicy r d0 = (x, d1)" for d0 x d1
    using pg_EnforceRetentionPolicy_adds [of "row_of msg" d0 r] that by simp
  show ?thesis unfolding storeMessage_def
    by (auto split: prod.splits sum.splits dest!: st en intro: adds_only_trans)
qed

lemma write_checked_adds: "adds_only (row_of msg) d (snd (write_checked L s r msg d))"
  unfolding write_checked_def
  by (auto split: option.splits intro!: and_then_keeps [where I = "adds_only (row_of msg) d"] storeMessage_adds
      dest!: pg_CheckAccess_snd intro: adds_only_trans [OF adds_only_refl(2) storeMessage_adds])

lemma mb_StoreMessage_adds: "adds_only (row_of msg) d (snd (mb_StoreMessage L mb msg d))"
  by (cases mb) (simp_all add: private_StoreMessage_def shared_StoreMessage_def public_StoreMessage_def
      claim_StoreMessage_def storeMessage_adds write_checked_adds)

lemma row_of_clampExpiry [simp]: "row_of (clampExpiry msg r now) = row_of msg"
  by (simp add: row_of_def clampExpiry_def Let_def fun_eq_iff)

lemma DeliverLocal_adds: "adds_only (row_of msg) (Storage s) (Storage (snd (DeliverLocal E msg s)))"
proof (cases "peer_Decode (libPeer E) (RecipientPeerID msg)")
  case None
  then show ?thesis by (simp add: DeliverLocal_def)
next
  case (Some q)
  let ?f = "if FolderPath msg = [] then ''inbox'' else FolderPath msg"
  show ?thesis
  proof (cases "NewMailboxAddress q ?f MailboxPrivate")
    case (Inl e)
    then show ?thesis using Some by (simp add: DeliverLocal_def Let_def)
  next
    case (Inr a)
    obtain x s1 where g: "getMailbox E a s = (x, s1)" by fastforce
    have same: "stored_messages (Storage s1) = stored_messages (Storage s)"
      using getOrCreateMailbox_same g unfolding getMailbox_def by blast
    show ?thesis
    proof (cases x)
      case (Inl e)
      then show ?thesis using Some Inr g same by (simp add: DeliverLocal_def Let_def adds_only_same)
    next
      case (Inr mb)
      let ?m = "clampExpiry msg (Record mb) (clock (Storage s1))"
      obtain y d where st: "mb_StoreMessage (libPeer E) mb ?m (Storage s1) = (y, d)" by fastforce
      have "Storage (snd (DeliverLocal E msg s)) = d"
        using Some \<open>NewMailboxAddress q ?f MailboxPrivate = Inr a\<close> g Inr st
        by (cases y) (auto simp: DeliverLocal_def Let_def with_db_def emit_def)
      moreover have "adds_only (row_of msg) (Storage s1) d"
        using mb_StoreMessage_adds [of ?m "Storage s1" "libPeer E" mb] st by simp
      ultimately show ?thesis using same by (simp add: adds_only_def)
    qed
  qed
qed

end
