(* ===== verification/Moderation.thy ===== *)
theory Moderation
  imports Store_Inv Status
begin

text \<open>
  Bans (\<^verbatim>\<open>src/internal/moderation/moderation.go\<close>) over the table \<^verbatim>\<open>peer_bans\<close>
  (\<^verbatim>\<open>src/internal/storage/postgres/moderation.go\<close>): the stored bans, the copy in memory that the gater
  and the protocols consult, and the moderators. The copy is an association list by peer; the ties
  of \<^verbatim>\<open>List\<close>, which sorts by time what it read from a map, are in the order of that list. Calls that
  overlap are threads that take their two sections, the table and the memory, in any order.
\<close>

section \<open>Stored bans\<close>

record PeerBan =
  banPeerID :: string
  banReason :: string
  BannedBy :: string
  BannedAt :: millis

record ban_db = env +
  peer_bans :: "PeerBan list"

text \<open>\<^verbatim>\<open>INSERT ... ON CONFLICT (peer_id) DO UPDATE\<close>.\<close>

definition upsert_ban :: "PeerBan \<Rightarrow> PeerBan list \<Rightarrow> PeerBan list" where
  "upsert_ban ban rows =
     (if banPeerID ban \<in> set (map banPeerID rows)
      then map (\<lambda>b. if banPeerID b = banPeerID ban then ban else b) rows
      else rows @ [ban])"

definition pg_PutPeerBan :: "PeerBan \<Rightarrow> ban_db \<Rightarrow> (err + unit) \<times> ban_db" where
  "pg_PutPeerBan ban db =
     (case stmt (\<lambda>db. (Inr (), db\<lparr>peer_bans := upsert_ban ban (peer_bans db)\<rparr>)) db of
        (Inl e, d) \<Rightarrow> (Inl (Wrapped ''put peer ban: '' e []), d)
      | (Inr u, d) \<Rightarrow> (Inr u, d))"

definition pg_DeletePeerBan :: "string \<Rightarrow> ban_db \<Rightarrow> (err + bool) \<times> ban_db" where
  "pg_DeletePeerBan p db =
     (case stmt (\<lambda>db. (Inr (p \<in> set (map banPeerID (peer_bans db))),
            db\<lparr>peer_bans := filter (\<lambda>b. banPeerID b \<noteq> p) (peer_bans db)\<rparr>)) db of
        (Inl e, d) \<Rightarrow> (Inl (Wrapped ''delete peer ban: '' e []), d)
      | (Inr found, d) \<Rightarrow> (Inr found, d))"

definition pg_ListPeerBans :: "ban_db \<Rightarrow> (err + PeerBan list) \<times> ban_db" where
  "pg_ListPeerBans db =
     (case stmt (\<lambda>db. (Inr (sort_key BannedAt (peer_bans db)), db)) db of
        (Inl e, d) \<Rightarrow> (Inl (Wrapped ''list peer bans: '' e []), d)
      | (Inr bs, d) \<Rightarrow> (Inr bs, d))"


section \<open>Moderators and bans in memory\<close>

type_synonym Moderators = "peer_id set option"

fun ParseModerators_loop :: "peer_lib \<Rightarrow> string list \<Rightarrow> peer_id set \<Rightarrow> err + Moderators" where
  "ParseModerators_loop L [] acc = Inr (Some acc)"
| "ParseModerators_loop L (s # ss) acc =
     (case peer_Decode L s of
        None \<Rightarrow> Inl (Wrapped (''moderators entry '' @ quoted s @ '': '') (PlainError (peer_DecodeError L s)) [])
      | Some p \<Rightarrow> ParseModerators_loop L ss (insert p acc))"

definition ParseModerators :: "peer_lib \<Rightarrow> string list \<Rightarrow> err + Moderators" where
  "ParseModerators L ids = ParseModerators_loop L ids {}"

definition Moderators_Contains :: "Moderators \<Rightarrow> peer_id \<Rightarrow> bool" where
  "Moderators_Contains m i = (case m of None \<Rightarrow> False | Some S \<Rightarrow> i \<in> S)"

record Bans =
  banStore :: ban_db
  banSet :: "(peer_id \<times> PeerBan) list"

definition NewBans :: "ban_db \<Rightarrow> Bans" where
  "NewBans store = \<lparr>banStore = store, banSet = []\<rparr>"

definition put_ban :: "peer_id \<Rightarrow> PeerBan \<Rightarrow> (peer_id \<times> PeerBan) list \<Rightarrow> (peer_id \<times> PeerBan) list" where
  "put_ban p b m = filter (\<lambda>e. fst e \<noteq> p) m @ [(p, b)]"

fun load_rows :: "peer_lib \<Rightarrow> PeerBan list \<Rightarrow> (peer_id \<times> PeerBan) list \<Rightarrow> string list \<Rightarrow> (peer_id \<times> PeerBan) list \<times> string list" where
  "load_rows L [] m sk = (m, sk)"
| "load_rows L (r # rs) m sk =
     (case peer_Decode L (banPeerID r) of
        None \<Rightarrow> load_rows L rs m (sk @ [banPeerID r])
      | Some p \<Rightarrow> load_rows L rs (put_ban p r m) sk)"

definition Load :: "peer_lib \<Rightarrow> Bans \<Rightarrow> (err + string list) \<times> Bans" where
  "Load L b =
     (case pg_ListPeerBans (banStore b) of
        (Inl e, d) \<Rightarrow> (Inl e, b\<lparr>banStore := d\<rparr>)
      | (Inr rows, d) \<Rightarrow>
          (let (m, sk) = load_rows L rows [] [] in (Inr sk, b\<lparr>banStore := d, banSet := m\<rparr>)))"

definition IsBanned :: "Bans option \<Rightarrow> peer_id \<Rightarrow> bool" where
  "IsBanned bo p = (case bo of None \<Rightarrow> False | Some b \<Rightarrow> map_of (banSet b) p \<noteq> None)"

definition IsBannedString :: "peer_lib \<Rightarrow> Bans option \<Rightarrow> string \<Rightarrow> bool" where
  "IsBannedString L bo s =
     (case bo of
        None \<Rightarrow> False
      | Some b \<Rightarrow> (case peer_Decode L s of None \<Rightarrow> False | Some p \<Rightarrow> IsBanned (Some b) p))"

definition Bans_Get :: "Bans option \<Rightarrow> peer_id \<Rightarrow> PeerBan option" where
  "Bans_Get bo p = (case bo of None \<Rightarrow> None | Some b \<Rightarrow> map_of (banSet b) p)"

definition Bans_List :: "Bans \<Rightarrow> PeerBan list" where
  "Bans_List b = sort_key BannedAt (map snd (banSet b))"

text \<open>
  \<^verbatim>\<open>Ban\<close> and \<^verbatim>\<open>Unban\<close> write the table first, without the lock, and the memory after it, under the lock:
  each is two sections, and other calls may run between them.
\<close>

definition Ban_store :: "peer_lib \<Rightarrow> peer_id \<Rightarrow> peer_id \<Rightarrow> string \<Rightarrow> millis \<Rightarrow> Bans \<Rightarrow> (err + PeerBan) \<times> Bans" where
  "Ban_store L p by_peer reason at b =
     (let ban = \<lparr>banPeerID = peer_String L p, banReason = reason, BannedBy = peer_String L by_peer, BannedAt = at\<rparr> in
      case pg_PutPeerBan ban (banStore b) of
        (Inl e, d) \<Rightarrow> (Inl e, b\<lparr>banStore := d\<rparr>)
      | (Inr _, d) \<Rightarrow> (Inr ban, b\<lparr>banStore := d\<rparr>))"

definition Ban_memory :: "peer_id \<Rightarrow> PeerBan \<Rightarrow> Bans \<Rightarrow> Bans" where
  "Ban_memory p ban b = b\<lparr>banSet := put_ban p ban (banSet b)\<rparr>"

definition Ban :: "peer_lib \<Rightarrow> peer_id \<Rightarrow> peer_id \<Rightarrow> string \<Rightarrow> millis \<Rightarrow> Bans \<Rightarrow> (err + PeerBan) \<times> Bans" where
  "Ban L p by_peer reason at b =
     (case Ban_store L p by_peer reason at b of
        (Inl e, b1) \<Rightarrow> (Inl e, b1)
      | (Inr ban, b1) \<Rightarrow> (Inr ban, Ban_memory p ban b1))"

definition Unban_store :: "peer_lib \<Rightarrow> peer_id \<Rightarrow> Bans \<Rightarrow> (err + bool) \<times> Bans" where
  "Unban_store L p b =
     (case pg_DeletePeerBan (peer_String L p) (banStore b) of (found, d) \<Rightarrow> (found, b\<lparr>banStore := d\<rparr>))"

definition Unban_memory :: "peer_id \<Rightarrow> Bans \<Rightarrow> bool \<times> Bans" where
  "Unban_memory p b = (map_of (banSet b) p \<noteq> None, b\<lparr>banSet := filter (\<lambda>e. fst e \<noteq> p) (banSet b)\<rparr>)"

definition Unban :: "peer_lib \<Rightarrow> peer_id \<Rightarrow> Bans \<Rightarrow> (err + bool) \<times> Bans" where
  "Unban L p b =
     (case Unban_store L p b of
        (Inl e, b1) \<Rightarrow> (Inl e, b1)
      | (Inr found, b1) \<Rightarrow> (let (inMemory, b2) = Unban_memory p b1 in (Inr (found \<or> inMemory), b2)))"

lemmas ban_sections = Ban_def Ban_store_def Ban_memory_def Unban_def Unban_store_def Unban_memory_def

text \<open>The gater: outbound to a banned peer never, everything else as the inner gater says.\<close>

definition Gater_InterceptPeerDial :: "Bans option \<Rightarrow> (peer_id \<Rightarrow> bool) option \<Rightarrow> peer_id \<Rightarrow> bool" where
  "Gater_InterceptPeerDial bans inner p =
     (if IsBanned bans p then False else case inner of None \<Rightarrow> True | Some g \<Rightarrow> g p)"


section \<open>The copy in memory is the stored table\<close>

text \<open>
  The bans a peer has in the table; memory and table agree on every peer. Rows are written by \<^verbatim>\<open>Ban\<close>
  only, so each names a peer by its printed form, once.
\<close>

definition stored_ban :: "peer_lib \<Rightarrow> Bans \<Rightarrow> peer_id \<Rightarrow> PeerBan option" where
  "stored_ban L b p = find (\<lambda>r. banPeerID r = peer_String L p) (peer_bans (banStore b))"

definition bans_inv :: "peer_lib \<Rightarrow> Bans \<Rightarrow> bool" where
  "bans_inv L b \<longleftrightarrow> distinct (map banPeerID (peer_bans (banStore b)))
     \<and> (\<forall>r \<in> set (peer_bans (banStore b)). \<exists>p. banPeerID r = peer_String L p)
     \<and> (\<forall>p. map_of (banSet b) p = stored_ban L b p)"

lemma map_of_unban: "map_of (filter (\<lambda>e. fst e \<noteq> p) m) = (map_of m)(p := None)"
  by (induction m) (auto simp: fun_eq_iff)

lemma map_of_put_ban [simp]: "map_of (put_ban p b m) = (map_of m)(p \<mapsto> b)"
  by (auto simp: put_ban_def map_of_unban fun_eq_iff map_add_def split: option.splits)

lemma find_filter_other:
  "q \<noteq> k \<Longrightarrow> find (\<lambda>r. f r = q) (filter (\<lambda>r. f r \<noteq> k) rs) = find (\<lambda>r. f r = q) rs"
  by (induction rs) auto

lemma find_filter_same: "find (\<lambda>r. f r = k) (filter (\<lambda>r. f r \<noteq> k) rs) = None"
  by (induction rs) auto

lemma find_replace_row:
  "find (\<lambda>r. f r = q) (map (\<lambda>b. if f b = f v then v else b) rs)
     = (if q = f v \<and> f v \<in> set (map f rs) then Some v else find (\<lambda>r. f r = q) rs)"
  by (induction rs) auto

lemma find_absent: "k \<notin> set (map f rs) \<Longrightarrow> find (\<lambda>r. f r = k) rs = None"
  by (induction rs) auto

lemma map_replace_keys: "map (\<lambda>b. f (if f b = f v then v else b)) rs = map f rs"
  by (induction rs) auto

lemma upsert_ban_distinct: "distinct (map banPeerID rows) \<Longrightarrow> distinct (map banPeerID (upsert_ban v rows))"
  by (simp add: upsert_ban_def comp_def map_replace_keys)

lemma find_upsert_ban:
  "find (\<lambda>r. banPeerID r = q) (upsert_ban v rows) = (if q = banPeerID v then Some v else find (\<lambda>r. banPeerID r = q) rows)"
  using find_absent [of q banPeerID rows]
  by (auto simp: upsert_ban_def find_replace_row find_snoc split: option.splits)

lemma set_upsert_ban: "set (upsert_ban v rows) \<subseteq> insert v (set rows)"
  by (auto simp: upsert_ban_def)

lemma ban_db_next_faults [simp]: "peer_bans (next_faults d) = peer_bans d"
  by (simp add: next_faults_def)

text \<open>The table after one of its two writes, and what memory holds then.\<close>

lemma bans_inv_put:
  assumes L: "peer_lib_ok L" and inv: "bans_inv L b" and v: "banPeerID v = peer_String L p"
    and d: "peer_bans d = upsert_ban v (peer_bans (banStore b))"
  shows "bans_inv L (b\<lparr>banStore := d, banSet := put_ban p v (banSet b)\<rparr>)"
  using inv v set_upsert_ban [of v "peer_bans (banStore b)"] peer_String_inj [OF L, of _ p]
  unfolding bans_inv_def stored_ban_def by (auto simp: d upsert_ban_distinct find_upsert_ban)

lemma bans_inv_remove:
  assumes L: "peer_lib_ok L" and inv: "bans_inv L b"
    and d: "peer_bans d = filter (\<lambda>r. banPeerID r \<noteq> peer_String L p) (peer_bans (banStore b))"
  shows "bans_inv L (b\<lparr>banStore := d, banSet := filter (\<lambda>e. fst e \<noteq> p) (banSet b)\<rparr>)"
  using inv peer_String_inj [OF L, of _ p] find_filter_other [of _ "peer_String L p" banPeerID "peer_bans (banStore b)"]
    find_filter_same [of banPeerID "peer_String L p" "peer_bans (banStore b)"]
  unfolding bans_inv_def stored_ban_def by (auto simp: d distinct_map_filterI map_of_unban)

lemma bans_inv_faults: "peer_bans d = peer_bans (banStore b) \<Longrightarrow> bans_inv L b \<Longrightarrow> bans_inv L (b\<lparr>banStore := d\<rparr>)"
  by (simp add: bans_inv_def stored_ban_def)

lemma next_faults_no_loss: "ReplyLost \<notin> set (faults d) \<Longrightarrow> ReplyLost \<notin> set (faults (next_faults d))"
  by (cases "faults d") (simp_all add: next_faults_def)

lemma Ban_result:
  assumes L: "peer_lib_ok L" and inv: "bans_inv L b" and nl: "ReplyLost \<notin> set (faults (banStore b))"
    and r: "Ban L p m why at b = (x, b')"
  shows "bans_inv L b' \<and> ReplyLost \<notin> set (faults (banStore b'))
    \<and> (case x of Inr ban \<Rightarrow> map_of (banSet b') = (map_of (banSet b))(p \<mapsto> ban) | Inl e \<Rightarrow> banSet b' = banSet b)"
proof -
  let ?v = "\<lparr>banPeerID = peer_String L p, banReason = why, BannedBy = peer_String L m, BannedAt = at\<rparr>"
  let ?f = "\<lambda>db. (Inr (), db\<lparr>peer_bans := upsert_ban ?v (peer_bans db)\<rparr>)"
  from stmt_no_loss [OF nl, of ?f] show ?thesis
  proof (elim disjE exE)
    assume "stmt ?f (banStore b) = ?f (next_faults (banStore b))"
    then show ?thesis
      using r next_faults_no_loss [OF nl] bans_inv_put [OF L inv, of ?v p]
      by (auto simp: ban_sections pg_PutPeerBan_def Let_def)
  next
    fix e assume "stmt ?f (banStore b) = (Inl e, next_faults (banStore b))"
    then show ?thesis
      using r next_faults_no_loss [OF nl] bans_inv_faults [OF _ inv]
      by (auto simp: ban_sections pg_PutPeerBan_def Let_def)
  qed
qed

lemma Unban_result:
  assumes L: "peer_lib_ok L" and inv: "bans_inv L b" and nl: "ReplyLost \<notin> set (faults (banStore b))"
    and r: "Unban L p b = (x, b')"
  shows "bans_inv L b' \<and> ReplyLost \<notin> set (faults (banStore b'))
    \<and> (case x of Inr was \<Rightarrow> map_of (banSet b') = (map_of (banSet b))(p := None) \<and> was = IsBanned (Some b) p
        | Inl e \<Rightarrow> banSet b' = banSet b)"
proof -
  let ?f = "\<lambda>db. (Inr (peer_String L p \<in> set (map banPeerID (peer_bans db))),
      db\<lparr>peer_bans := filter (\<lambda>r. banPeerID r \<noteq> peer_String L p) (peer_bans db)\<rparr>)"
  have agree: "peer_String L p \<in> set (map banPeerID (peer_bans (banStore b))) \<longleftrightarrow> IsBanned (Some b) p"
    using inv by (force simp: bans_inv_def stored_ban_def IsBanned_def find_None_iff image_iff)
  from stmt_no_loss [OF nl, of ?f] show ?thesis
  proof (elim disjE exE)
    assume "stmt ?f (banStore b) = ?f (next_faults (banStore b))"
    then show ?thesis
      using r next_faults_no_loss [OF nl] bans_inv_remove [OF L inv, of _ p] agree
      by (auto simp: ban_sections pg_DeletePeerBan_def map_of_unban IsBanned_def)
  next
    fix e assume "stmt ?f (banStore b) = (Inl e, next_faults (banStore b))"
    then show ?thesis
      using r next_faults_no_loss [OF nl] bans_inv_faults [OF _ inv]
      by (auto simp: ban_sections pg_DeletePeerBan_def)
  qed
qed

text \<open>Loading after a restart rebuilds the copy from the table alone.\<close>

lemma load_rows_map:
  assumes L: "peer_lib_ok L" and d: "distinct (map banPeerID rows)" and n: "\<forall>r \<in> set rows. \<exists>p. banPeerID r = peer_String L p"
  shows "map_of (fst (load_rows L rows m sk)) p
    = (case find (\<lambda>r. banPeerID r = peer_String L p) rows of Some r \<Rightarrow> Some r | None \<Rightarrow> map_of m p)
    \<and> snd (load_rows L rows m sk) = sk"
  using d n
proof (induction rows arbitrary: m)
  case (Cons r rows)
  then obtain q where q: "banPeerID r = peer_String L q" by auto
  then have dec: "peer_Decode L (banPeerID r) = Some q" by (simp add: peer_Decode_String [OF L])
  have "find (\<lambda>r. banPeerID r = peer_String L q) rows = None" using Cons.prems(1) q find_absent [of "peer_String L q" banPeerID rows] by simp
  then show ?case using Cons q dec peer_String_inj [OF L, of q p] by (auto split: option.splits)
qed simp

lemma find_sort_key:
  assumes "distinct (map f rows)"
  shows "find (\<lambda>r. f r = k) (sort_key g rows) = find (\<lambda>r. f r = k) rows"
proof (cases "find (\<lambda>r. f r = k) rows")
  case None
  then have "find (\<lambda>r. f r = k) (sort_key g rows) = None" by (simp add: find_None_iff)
  then show ?thesis using None by simp
next
  case (Some r)
  then have r: "r \<in> set rows" "f r = k" using find_SomeD by fastforce+
  have "find (\<lambda>r. f r = k) (sort_key g rows) \<noteq> None" using r by (auto simp: find_None_iff)
  then obtain r' where r': "find (\<lambda>r. f r = k) (sort_key g rows) = Some r'" by blast
  then have "r' \<in> set rows" "f r' = k" using find_SomeD by fastforce+
  then show ?thesis using r' r Some distinct_key_unique [OF assms] by metis
qed

definition bans_ok :: "peer_lib \<Rightarrow> Bans \<Rightarrow> bool" where
  "bans_ok L b \<longleftrightarrow> bans_inv L b \<and> ReplyLost \<notin> set (faults (banStore b))"


section \<open>Calls that overlap\<close>

text \<open>
  A call of \<^verbatim>\<open>Ban\<close> or \<^verbatim>\<open>Unban\<close> as a thread, at one of its points: before the statement, between the
  statement and the lock, and returned. \<open>owed\<close> is the update of the memory that a thread between the
  two still has to make.
\<close>

datatype ban_thread =
    BanCalled peer_id peer_id string millis | BanStored peer_id PeerBan | BanReturned "err + PeerBan"
  | UnbanCalled peer_id | UnbanStored peer_id bool | UnbanReturned "err + bool"

fun thread_step :: "peer_lib \<Rightarrow> ban_thread \<Rightarrow> Bans \<Rightarrow> ban_thread \<times> Bans" where
  "thread_step L (BanCalled p m why at) b =
     (case Ban_store L p m why at b of (Inl e, b1) \<Rightarrow> (BanReturned (Inl e), b1) | (Inr ban, b1) \<Rightarrow> (BanStored p ban, b1))"
| "thread_step L (BanStored p ban) b = (BanReturned (Inr ban), Ban_memory p ban b)"
| "thread_step L (UnbanCalled p) b =
     (case Unban_store L p b of (Inl e, b1) \<Rightarrow> (UnbanReturned (Inl e), b1) | (Inr found, b1) \<Rightarrow> (UnbanStored p found, b1))"
| "thread_step L (UnbanStored p found) b =
     (case Unban_memory p b of (inMemory, b1) \<Rightarrow> (UnbanReturned (Inr (found \<or> inMemory)), b1))"
| "thread_step L t b = (t, b)"

fun owed :: "ban_thread \<Rightarrow> (peer_id \<times> PeerBan option) option" where
  "owed (BanStored p ban) = Some (p, Some ban)"
| "owed (UnbanStored p found) = Some (p, None)"
| "owed t = None"

fun calls :: "ban_thread \<Rightarrow> peer_id option" where
  "calls (BanCalled p m why at) = Some p"
| "calls (UnbanCalled p) = Some p"
| "calls t = None"

fun returned :: "ban_thread \<Rightarrow> bool" where
  "returned (BanReturned r) = True"
| "returned (UnbanReturned r) = True"
| "returned t = False"

definition unsettled :: "ban_thread list \<Rightarrow> peer_id \<Rightarrow> bool" where
  "unsettled ts p \<longleftrightarrow> list_ex (\<lambda>t. case owed t of None \<Rightarrow> False | Some (q, v) \<Rightarrow> q = p) ts"

text \<open>
  Threads take their steps in any order; \<open>orderly_step\<close> is the same but for the statement of a call,
  which waits while another call on the same peer is between its two sections.
\<close>

inductive ban_step :: "peer_lib \<Rightarrow> ban_thread list \<times> Bans \<Rightarrow> ban_thread list \<times> Bans \<Rightarrow> bool" for L where
  "i < length ts \<Longrightarrow> thread_step L (ts ! i) b = (t, b') \<Longrightarrow> ban_step L (ts, b) (ts[i := t], b')"

inductive orderly_step :: "peer_lib \<Rightarrow> ban_thread list \<times> Bans \<Rightarrow> ban_thread list \<times> Bans \<Rightarrow> bool" for L where
  "i < length ts \<Longrightarrow> (\<And>p. calls (ts ! i) = Some p \<Longrightarrow> \<not> unsettled ts p) \<Longrightarrow> thread_step L (ts ! i) b = (t, b')
     \<Longrightarrow> orderly_step L (ts, b) (ts[i := t], b')"

inductive_cases orderly_stepE: "orderly_step L (ts, b) s'"

text \<open>
  Table and memory while calls are under way: what each thread still owes the memory is what the table
  has, no two owe for the same peer, and on every other peer the two agree.
\<close>

definition rows_ok :: "peer_lib \<Rightarrow> Bans \<Rightarrow> bool" where
  "rows_ok L b \<longleftrightarrow> distinct (map banPeerID (peer_bans (banStore b)))
     \<and> (\<forall>r \<in> set (peer_bans (banStore b)). \<exists>p. banPeerID r = peer_String L p) \<and> ReplyLost \<notin> set (faults (banStore b))"

definition owed_ok :: "peer_lib \<Rightarrow> ban_thread list \<Rightarrow> Bans \<Rightarrow> bool" where
  "owed_ok L ts b \<longleftrightarrow> (\<forall>i < length ts. \<forall>p v. owed (ts ! i) = Some (p, v) \<longrightarrow> stored_ban L b p = v
     \<and> (\<forall>j < length ts. \<forall>w. owed (ts ! j) = Some (p, w) \<longrightarrow> j = i))"

definition overlap_inv :: "peer_lib \<Rightarrow> ban_thread list \<times> Bans \<Rightarrow> bool" where
  "overlap_inv L s \<longleftrightarrow> rows_ok L (snd s) \<and> owed_ok L (fst s) (snd s)
     \<and> (\<forall>p. \<not> unsettled (fst s) p \<longrightarrow> map_of (banSet (snd s)) p = stored_ban L (snd s) p)"

lemma unsettled_iff: "unsettled ts p \<longleftrightarrow> (\<exists>i < length ts. \<exists>v. owed (ts ! i) = Some (p, v))"
  by (force simp: unsettled_def list_ex_iff in_set_conv_nth split: option.splits)

lemma unsettled_step: "unsettled ts q \<Longrightarrow> unsettled (ts[i := t]) q \<or> (\<exists>v. owed (ts ! i) = Some (q, v))"
  unfolding unsettled_iff by (metis length_list_update nth_list_update_neq)

text \<open>What the first section of either call does to the table.\<close>

lemma Ban_store_result:
  assumes L: "peer_lib_ok L" and ok: "rows_ok L b" and r: "Ban_store L p m why at b = (x, b')"
  shows "rows_ok L b' \<and> banSet b' = banSet b
    \<and> stored_ban L b' = (case x of Inl e \<Rightarrow> stored_ban L b | Inr ban \<Rightarrow> (stored_ban L b)(p \<mapsto> ban))"
proof -
  let ?v = "\<lparr>banPeerID = peer_String L p, banReason = why, BannedBy = peer_String L m, BannedAt = at\<rparr>"
  let ?f = "\<lambda>db. (Inr (), db\<lparr>peer_bans := upsert_ban ?v (peer_bans db)\<rparr>)"
  have nl: "ReplyLost \<notin> set (faults (banStore b))" using ok by (simp add: rows_ok_def)
  have named: "\<forall>r \<in> set (upsert_ban ?v (peer_bans (banStore b))). \<exists>p. banPeerID r = peer_String L p"
    using ok set_upsert_ban [of ?v "peer_bans (banStore b)"] by (fastforce simp: rows_ok_def)
  from stmt_no_loss [OF nl, of ?f] show ?thesis
  proof (elim disjE exE)
    assume "stmt ?f (banStore b) = ?f (next_faults (banStore b))"
    then show ?thesis
      using r ok next_faults_no_loss [OF nl] named peer_String_inj [OF L, of _ p]
      by (auto simp: Ban_store_def pg_PutPeerBan_def Let_def rows_ok_def stored_ban_def find_upsert_ban upsert_ban_distinct fun_eq_iff)
  next
    fix e assume "stmt ?f (banStore b) = (Inl e, next_faults (banStore b))"
    then show ?thesis
      using r ok next_faults_no_loss [OF nl] by (auto simp: Ban_store_def pg_PutPeerBan_def Let_def rows_ok_def stored_ban_def)
  qed
qed

lemma Unban_store_result:
  assumes L: "peer_lib_ok L" and ok: "rows_ok L b" and r: "Unban_store L p b = (x, b')"
  shows "rows_ok L b' \<and> banSet b' = banSet b
    \<and> stored_ban L b' = (case x of Inl e \<Rightarrow> stored_ban L b | Inr found \<Rightarrow> (stored_ban L b)(p := None))"
proof -
  let ?f = "\<lambda>db. (Inr (peer_String L p \<in> set (map banPeerID (peer_bans db))),
      db\<lparr>peer_bans := filter (\<lambda>r. banPeerID r \<noteq> peer_String L p) (peer_bans db)\<rparr>)"
  have nl: "ReplyLost \<notin> set (faults (banStore b))" using ok by (simp add: rows_ok_def)
  from stmt_no_loss [OF nl, of ?f] show ?thesis
  proof (elim disjE exE)
    assume "stmt ?f (banStore b) = ?f (next_faults (banStore b))"
    then show ?thesis
      using r ok next_faults_no_loss [OF nl] peer_String_inj [OF L, of _ p]
        find_filter_other [of _ "peer_String L p" banPeerID "peer_bans (banStore b)"] find_filter_same [of banPeerID "peer_String L p" "peer_bans (banStore b)"]
      by (auto simp: Unban_store_def pg_DeletePeerBan_def rows_ok_def stored_ban_def distinct_map_filterI fun_eq_iff)
  next
    fix e assume "stmt ?f (banStore b) = (Inl e, next_faults (banStore b))"
    then show ?thesis
      using r ok next_faults_no_loss [OF nl] by (auto simp: Unban_store_def pg_DeletePeerBan_def rows_ok_def stored_ban_def)
  qed
qed

text \<open>The steps of a thread, by what it owes before and after.\<close>

lemma overlap_idle:
  assumes "overlap_inv L (ts, b)" "i < length ts" "owed (ts ! i) = None" "owed t = None"
    and "rows_ok L b'" "banSet b' = banSet b" "stored_ban L b' = stored_ban L b"
  shows "overlap_inv L (ts[i := t], b')"
proof -
  have "owed_ok L (ts[i := t]) b'" using assms by (auto simp: overlap_inv_def owed_ok_def nth_list_update split: if_splits)
  then show ?thesis using assms unsettled_step [of ts _ i t] by (auto simp: overlap_inv_def)
qed

lemma overlap_owe:
  assumes inv: "overlap_inv L (ts, b)" and i: "i < length ts" "owed (ts ! i) = None" "owed t = Some (p, v)" and free: "\<not> unsettled ts p"
    and b': "rows_ok L b'" "banSet b' = banSet b" "stored_ban L b' = (stored_ban L b)(p := v)"
  shows "overlap_inv L (ts[i := t], b')"
proof -
  have other: "q \<noteq> p" if "j < length ts" "owed (ts ! j) = Some (q, w)" for j q w
    using free that by (auto simp: unsettled_iff)
  have "owed_ok L (ts[i := t]) b'"
    unfolding owed_ok_def length_list_update
  proof (intro allI impI)
    fix j q w assume j: "j < length ts" "owed (ts[i := t] ! j) = Some (q, w)"
    show "stored_ban L b' q = w \<and> (\<forall>k < length ts. \<forall>u. owed (ts[i := t] ! k) = Some (q, u) \<longrightarrow> k = j)"
    proof (cases "j = i")
      case True
      then show ?thesis using j i b'(3) other by (auto simp: nth_list_update split: if_splits)
    next
      case False
      then have "owed (ts ! j) = Some (q, w)" using j by simp
      then show ?thesis using inv j i False other [OF j(1)] b'(3) by (auto simp: overlap_inv_def owed_ok_def nth_list_update split: if_splits)
    qed
  qed
  moreover have "map_of (banSet b') q = stored_ban L b' q" if q: "\<not> unsettled (ts[i := t]) q" for q
  proof -
    have "q \<noteq> p" using q i by (force simp: unsettled_iff nth_list_update)
    moreover have "\<not> unsettled ts q" using q i(2) unsettled_step [of ts q i t] by auto
    ultimately show ?thesis using inv b' by (simp add: overlap_inv_def)
  qed
  ultimately show ?thesis using b'(1) by (simp add: overlap_inv_def)
qed

lemma overlap_pay:
  assumes inv: "overlap_inv L (ts, b)" and i: "i < length ts" "owed (ts ! i) = Some (p, v)" "owed t = None"
    and b': "banStore b' = banStore b" "map_of (banSet b') = (map_of (banSet b))(p := v)"
  shows "overlap_inv L (ts[i := t], b')"
proof -
  have same: "stored_ban L b' = stored_ban L b" "rows_ok L b' = rows_ok L b" using b'(1) by (simp_all add: stored_ban_def rows_ok_def fun_eq_iff)
  have "owed_ok L (ts[i := t]) b'"
    using inv i same by (auto simp: overlap_inv_def owed_ok_def nth_list_update split: if_splits)
  moreover have "map_of (banSet b') q = stored_ban L b' q" if q: "\<not> unsettled (ts[i := t]) q" for q
  proof (cases "q = p")
    case True
    then show ?thesis using inv i b'(2) same by (simp add: overlap_inv_def owed_ok_def)
  next
    case False
    then have "\<not> unsettled ts q" using q i unsettled_step [of ts q i t] by auto
    then show ?thesis using inv False b'(2) same by (simp add: overlap_inv_def)
  qed
  ultimately show ?thesis using inv same by (simp add: overlap_inv_def)
qed

lemma orderly_step_inv:
  assumes L: "peer_lib_ok L" and "orderly_step L s s'" "overlap_inv L s"
  shows "overlap_inv L s'"
  using assms(2,3)
proof (induction rule: orderly_step.induct)
  case (1 i ts b t b')
  have rows: "rows_ok L b" using 1 by (simp add: overlap_inv_def)
  show ?case
  proof (cases "ts ! i")
    case (BanCalled p m why at)
    obtain x b1 where st: "Ban_store L p m why at b = (x, b1)" by fastforce
    note res = Ban_store_result [OF L rows st]
    show ?thesis
    proof (cases x)
      case (Inl e)
      then show ?thesis using 1 BanCalled st res by (intro overlap_idle [of L ts b]) auto
    next
      case (Inr ban)
      then show ?thesis using 1 BanCalled st res by (intro overlap_owe [of L ts b i _ p "Some ban"]) auto
    qed
  next
    case (UnbanCalled p)
    obtain x b1 where st: "Unban_store L p b = (x, b1)" by fastforce
    note res = Unban_store_result [OF L rows st]
    show ?thesis
    proof (cases x)
      case (Inl e)
      then show ?thesis using 1 UnbanCalled st res by (intro overlap_idle [of L ts b]) auto
    next
      case (Inr found)
      then show ?thesis using 1 UnbanCalled st res by (intro overlap_owe [of L ts b i _ p None]) auto
    qed
  next
    case (BanStored p ban)
    then show ?thesis using 1 by (intro overlap_pay [of L ts b i p "Some ban"]) (auto simp: Ban_memory_def)
  next
    case (UnbanStored p found)
    then show ?thesis using 1 by (intro overlap_pay [of L ts b i p None]) (auto simp: Unban_memory_def map_of_unban)
  qed (use 1 in auto)
qed

lemma orderly_run_inv:
  assumes "peer_lib_ok L" "(orderly_step L)\<^sup>*\<^sup>* s s'" "overlap_inv L s"
  shows "overlap_inv L s'"
  using assms(2,3) by (induction rule: rtranclp_induct) (auto intro: orderly_step_inv [OF assms(1)])

lemma overlap_inv_start:
  assumes "bans_ok L b" "list_all (\<lambda>t. owed t = None) ts"
  shows "overlap_inv L (ts, b)"
  using assms by (auto simp: bans_ok_def bans_inv_def overlap_inv_def rows_ok_def owed_ok_def list_all_length)

lemma overlap_inv_settled:
  assumes "overlap_inv L (ts, b)" "list_all (\<lambda>t. owed t = None) ts"
  shows "bans_ok L b"
  using assms by (auto simp: bans_ok_def bans_inv_def overlap_inv_def rows_ok_def unsettled_iff list_all_length)

lemma Load_rows:
  assumes L: "peer_lib_ok L" and ok: "rows_ok L b" and r: "Load L b = (Inr sk, b')"
  shows "map_of (banSet b') = stored_ban L b \<and> sk = []"
proof -
  obtain d where d: "pg_ListPeerBans (banStore b) = (Inr (sort_key BannedAt (peer_bans (banStore b))), d)"
    using r by (auto simp: Load_def pg_ListPeerBans_def split: prod.splits sum.splits dest!: stmt_InrD)
  have rows: "distinct (map banPeerID (sort_key BannedAt (peer_bans (banStore b))))"
      "\<forall>r \<in> set (sort_key BannedAt (peer_bans (banStore b))). \<exists>p. banPeerID r = peer_String L p"
    using ok by (simp_all add: rows_ok_def distinct_map)
  have "map_of (banSet b') p = stored_ban L b p \<and> sk = []" for p
    using r d load_rows_map [OF L rows, of "[]" "[]" p] ok find_sort_key [of banPeerID "peer_bans (banStore b)" "peer_String L p" BannedAt]
    by (auto simp: Load_def stored_ban_def rows_ok_def split: prod.splits option.splits)
  then show ?thesis by auto
qed

text \<open>
  C27. As long as no reply of the database is lost and no two calls about the same peer overlap, the bans
  the server acts on are exactly those it has kept: at every moment of any run of calls of \<^verbatim>\<open>Ban\<close> and
  \<^verbatim>\<open>Unban\<close>, taking their sections in any order, some refused by the database, memory and table agree
  on every peer that no call is between its two sections for; when all calls have returned they agree
  on every peer. A ban or unban that then succeeds takes effect on its peer and on no other, one that
  is refused changes nothing, an unban reports whether there was a ban; and a restart that loads the
  table finds the same bans and skips none.
\<close>

theorem bans_follow_store:
  assumes L: "peer_lib_ok L" and ok: "bans_ok L b0" and start: "list_all (\<lambda>t. calls t \<noteq> None) ts0"
    and run: "(orderly_step L)\<^sup>*\<^sup>* (ts0, b0) (ts, b)"
  shows "(\<forall>q. \<not> unsettled ts q \<longrightarrow> Bans_Get (Some b) q = stored_ban L b q)
    \<and> (list_all returned ts \<longrightarrow>
         bans_ok L b
         \<and> (case Ban L p m why at b of
              (Inr ban, b') \<Rightarrow> (\<forall>q. IsBanned (Some b') q = (q = p \<or> IsBanned (Some b) q)) \<and> bans_ok L b'
            | (Inl e, b') \<Rightarrow> banSet b' = banSet b)
         \<and> (case Unban L p b of
              (Inr was, b') \<Rightarrow> was = IsBanned (Some b) p \<and> (\<forall>q. IsBanned (Some b') q = (q \<noteq> p \<and> IsBanned (Some b) q))
            | (Inl e, b') \<Rightarrow> banSet b' = banSet b)
         \<and> (case Load L b of
              (Inr sk, b') \<Rightarrow> sk = [] \<and> (\<forall>q. Bans_Get (Some b') q = Bans_Get (Some b) q)
            | (Inl e, b') \<Rightarrow> banSet b' = banSet b))"
proof (intro conjI impI)
  have "owed t = None" if "calls t \<noteq> None" for t using that by (cases t) simp_all
  then have "list_all (\<lambda>t. owed t = None) ts0" using start by (auto simp: list_all_iff)
  then have inv: "overlap_inv L (ts, b)" using orderly_run_inv [OF L run overlap_inv_start [OF ok]] by blast
  then show "\<forall>q. \<not> unsettled ts q \<longrightarrow> Bans_Get (Some b) q = stored_ban L b q" by (simp add: overlap_inv_def Bans_Get_def)
  assume fin: "list_all returned ts"
  have "owed t = None" if "returned t" for t using that by (cases t) simp_all
  then have "list_all (\<lambda>t. owed t = None) ts" using fin by (auto simp: list_all_iff)
  with inv show ok: "bans_ok L b" by (rule overlap_inv_settled)
  then have bi: "bans_inv L b" "ReplyLost \<notin> set (faults (banStore b))" by (simp_all add: bans_ok_def)
  obtain x b1 where x: "Ban L p m why at b = (x, b1)" by fastforce
  show "case Ban L p m why at b of
      (Inr ban, b') \<Rightarrow> (\<forall>q. IsBanned (Some b') q = (q = p \<or> IsBanned (Some b) q)) \<and> bans_ok L b'
    | (Inl e, b') \<Rightarrow> banSet b' = banSet b"
    using x Ban_result [OF L bi x] by (auto simp: IsBanned_def bans_ok_def split: sum.splits)
  obtain y b2 where y: "Unban L p b = (y, b2)" by fastforce
  show "case Unban L p b of
      (Inr was, b') \<Rightarrow> was = IsBanned (Some b) p \<and> (\<forall>q. IsBanned (Some b') q = (q \<noteq> p \<and> IsBanned (Some b) q))
    | (Inl e, b') \<Rightarrow> banSet b' = banSet b"
    using y Unban_result [OF L bi y] by (auto simp: IsBanned_def split: sum.splits)
  obtain z b3 where z: "Load L b = (z, b3)" by fastforce
  have "z = Inl e \<Longrightarrow> banSet b3 = banSet b" for e
    using z by (auto simp: Load_def split: prod.splits sum.splits)
  moreover have "z = Inr sk \<Longrightarrow> map_of (banSet b3) = map_of (banSet b) \<and> sk = []" for sk
    using Load_rows [OF L _, of b sk b3] z bi inv by (auto simp: bans_inv_def overlap_inv_def fun_eq_iff)
  ultimately show "case Load L b of
      (Inr sk, b') \<Rightarrow> sk = [] \<and> (\<forall>q. Bans_Get (Some b') q = Bans_Get (Some b) q)
    | (Inl e, b') \<Rightarrow> banSet b' = banSet b"
    using z by (auto simp: Bans_Get_def split: sum.splits)
qed

text \<open>A schedule: the threads that take the next steps.\<close>

fun schedule :: "peer_lib \<Rightarrow> nat list \<Rightarrow> ban_thread list \<times> Bans \<Rightarrow> (ban_thread list \<times> Bans) option" where
  "schedule L [] s = Some s"
| "schedule L (i # is) (ts, b) =
     (if i < length ts then case thread_step L (ts ! i) b of (t, b') \<Rightarrow> schedule L is (ts[i := t], b') else None)"

fun orderly_schedule :: "peer_lib \<Rightarrow> nat list \<Rightarrow> ban_thread list \<times> Bans \<Rightarrow> (ban_thread list \<times> Bans) option" where
  "orderly_schedule L [] s = Some s"
| "orderly_schedule L (i # is) (ts, b) =
     (if i < length ts \<and> (case calls (ts ! i) of None \<Rightarrow> True | Some p \<Rightarrow> \<not> unsettled ts p)
      then case thread_step L (ts ! i) b of (t, b') \<Rightarrow> orderly_schedule L is (ts[i := t], b') else None)"

lemma schedule_steps: "schedule L is s = Some s' \<Longrightarrow> (ban_step L)\<^sup>*\<^sup>* s s'"
  by (induction L "is" s rule: schedule.induct)
    (auto split: if_splits prod.splits intro: converse_rtranclp_into_rtranclp ban_step.intros)

lemma orderly_schedule_steps: "orderly_schedule L is s = Some s' \<Longrightarrow> (orderly_step L)\<^sup>*\<^sup>* s s'"
proof (induction L "is" s rule: orderly_schedule.induct)
  case (2 L i "is" ts b)
  obtain t b' where th: "thread_step L (ts ! i) b = (t, b')" by fastforce
  have i: "i < length ts" "\<And>p. calls (ts ! i) = Some p \<Longrightarrow> \<not> unsettled ts p" "orderly_schedule L is (ts[i := t], b') = Some s'"
    using 2(2) th by (auto split: if_splits option.splits)
  then have "orderly_step L (ts, b) (ts[i := t], b')" using th by (blast intro: orderly_step.intros)
  moreover have "(orderly_step L)\<^sup>*\<^sup>* (ts[i := t], b') s'" using 2(1) i th by (auto split: option.splits)
  ultimately show ?case by (rule converse_rtranclp_into_rtranclp)
qed simp

definition demo_bans :: Bans where
  "demo_bans = NewBans \<lparr>clock = 1000, faults = [Works, Works, Fails], peer_bans = []\<rparr>"

definition demo_calls :: "ban_thread list" where
  "demo_calls = [BanCalled (PeerID ''B'') (PeerID ''M'') ''spam'' 5, BanCalled (PeerID ''C'') (PeerID ''M'') ''spam'' 6, UnbanCalled (PeerID ''B'')]"

text \<open>Two bans that overlap, and an unban that the database refuses.\<close>

definition demo_end :: "ban_thread list \<times> Bans" where
  "demo_end = the (orderly_schedule hex_peers [0, 1, 1, 0, 2] (demo_calls, demo_bans))"

theorem bans_follow_store_witness:
  "list_all returned (fst demo_end) \<and> map fst (banSet (snd demo_end)) = [PeerID ''C'', PeerID ''B'']
   \<and> bans_ok hex_peers (snd demo_end) \<and> Bans_Get (Some (snd demo_end)) (PeerID ''B'') = stored_ban hex_peers (snd demo_end) (PeerID ''B'')"
proof -
  have ok: "bans_ok hex_peers demo_bans" by (simp add: demo_bans_def NewBans_def bans_ok_def bans_inv_def stored_ban_def)
  have st: "list_all (\<lambda>t. calls t \<noteq> None) demo_calls" by (simp add: demo_calls_def)
  have "orderly_schedule hex_peers [0, 1, 1, 0, 2] (demo_calls, demo_bans) \<noteq> None" by code_simp
  then have run: "(orderly_step hex_peers)\<^sup>*\<^sup>* (demo_calls, demo_bans) (fst demo_end, snd demo_end)"
    using orderly_schedule_steps [of hex_peers "[0, 1, 1, 0, 2]"] by (auto simp: demo_end_def)
  have fin: "list_all returned (fst demo_end)" "map fst (banSet (snd demo_end)) = [PeerID ''C'', PeerID ''B'']"
    "\<not> unsettled (fst demo_end) (PeerID ''B'')" by code_simp+
  from bans_follow_store [OF hex_peers_ok ok st run] fin show ?thesis by blast
qed

text \<open>
  C28. A \<^verbatim>\<open>Ban\<close> and an \<^verbatim>\<open>Unban\<close> of the same peer that overlap leave memory and table different, in both
  directions, and both report success. In one order of their sections the peer stays banned in memory
  while its row is gone, until a restart lets it in; in the other it is free while its row is
  stored, and a restart bans it. This holds of every state of the bans, every peer, moderator and reason.
\<close>

theorem ban_race:
  assumes L: "peer_lib_ok L" and ok: "bans_ok L b" and nf: "faults (banStore b) = []"
    and ban: "ban = \<lparr>banPeerID = peer_String L p, banReason = why, BannedBy = peer_String L m, BannedAt = at\<rparr>"
  shows "\<exists>b1 b2. (ban_step L)\<^sup>*\<^sup>* ([BanCalled p m why at, UnbanCalled p], b) ([BanReturned (Inr ban), UnbanReturned (Inr True)], b1)
      \<and> IsBanned (Some b1) p \<and> stored_ban L b1 p = None \<and> \<not> IsBanned (Some (snd (Load L b1))) p
    \<and> (ban_step L)\<^sup>*\<^sup>* ([BanCalled p m why at, UnbanCalled p], b) ([BanReturned (Inr ban), UnbanReturned (Inr True)], b2)
      \<and> \<not> IsBanned (Some b2) p \<and> stored_ban L b2 p = Some ban \<and> IsBanned (Some (snd (Load L b2))) p"
proof -
  let ?s = "([BanCalled p m why at, UnbanCalled p], b)" and ?out = "[BanReturned (Inr ban), UnbanReturned (Inr True)]"
  have rows: "rows_ok L b" using ok by (simp add: bans_ok_def bans_inv_def rows_ok_def)
  let ?put = "\<lambda>d. d\<lparr>peer_bans := upsert_ban ban (peer_bans d)\<rparr>"
    and ?del = "\<lambda>d. d\<lparr>peer_bans := filter (\<lambda>r. banPeerID r \<noteq> peer_String L p) (peer_bans d)\<rparr>"
  have put: "Ban_store L p m why at c = (Inr ban, c\<lparr>banStore := ?put (banStore c)\<rparr>)" if "faults (banStore c) = []" for c
    using that by (simp add: Ban_store_def pg_PutPeerBan_def stmt_def ban Let_def)
  have del: "Unban_store L p c = (Inr (peer_String L p \<in> set (map banPeerID (peer_bans (banStore c)))), c\<lparr>banStore := ?del (banStore c)\<rparr>)"
    if "faults (banStore c) = []" for c
    using that by (simp add: Unban_store_def pg_DeletePeerBan_def stmt_def)
  have found: "peer_String L p \<in> banPeerID ` set (upsert_ban ban rs)" for rs
  proof -
    have "ban \<in> set (upsert_ban ban rs)" by (force simp: upsert_ban_def image_iff)
    from imageI [OF this, of banPeerID] show ?thesis by (simp add: ban)
  qed
  define b1 where "b1 = \<lparr>banStore = ?del (?put (banStore b)), banSet = put_ban p ban (filter (\<lambda>e. fst e \<noteq> p) (banSet b))\<rparr>"
  define b2 where "b2 = \<lparr>banStore = ?put (?del (banStore b)), banSet = filter (\<lambda>e. fst e \<noteq> p) (put_ban p ban (banSet b))\<rparr>"
  have sch: "schedule L [0, 1, 1, 0] ?s = Some (?out, b1)" "schedule L [1, 0, 0, 1] ?s = Some (?out, b2)"
    using nf found by (simp_all add: put del Ban_memory_def Unban_memory_def b1_def b2_def)
  note runs = schedule_steps [OF sch(1)] schedule_steps [OF sch(2)]
  have rows1: "rows_ok L b1" "stored_ban L b1 p = None"
  proof -
    have "rows_ok L (b\<lparr>banStore := ?put (banStore b)\<rparr>)" using Ban_store_result [OF L rows put [OF nf]] by simp
    from Unban_store_result [OF L this del] nf show "rows_ok L b1" "stored_ban L b1 p = None" by (auto simp: b1_def rows_ok_def stored_ban_def fun_eq_iff)
  qed
  have rows2: "rows_ok L b2" "stored_ban L b2 p = Some ban"
  proof -
    have "rows_ok L (b\<lparr>banStore := ?del (banStore b)\<rparr>)" using Unban_store_result [OF L rows del [OF nf]] by simp
    from Ban_store_result [OF L this put] nf show "rows_ok L b2" "stored_ban L b2 p = Some ban" by (auto simp: b2_def rows_ok_def stored_ban_def fun_eq_iff)
  qed
  have "\<exists>sk c'. Load L c = (Inr sk, c')" if "faults (banStore c) = []" for c
    using that by (auto simp: Load_def pg_ListPeerBans_def stmt_def split: prod.splits)
  then have loaded: "IsBanned (Some (snd (Load L c))) p \<longleftrightarrow> stored_ban L c p \<noteq> None" if "faults (banStore c) = []" "rows_ok L c" for c
    using that Load_rows [OF L that(2)] by (fastforce simp: IsBanned_def)
  have fin: "faults (banStore b1) = []" "faults (banStore b2) = []" "IsBanned (Some b1) p" "\<not> IsBanned (Some b2) p"
    using nf by (simp_all add: b1_def b2_def IsBanned_def map_of_unban)
  show ?thesis
    using runs rows1 rows2 fin loaded [OF fin(1) rows1(1)] loaded [OF fin(2) rows2(1)]
    by (intro exI [of _ b1] exI [of _ b2]) simp
qed

theorem ban_race_witness:
  "\<exists>b1 b2. (ban_step hex_peers)\<^sup>*\<^sup>* ([BanCalled (PeerID ''B'') (PeerID ''M'') ''spam'' 5, UnbanCalled (PeerID ''B'')], NewBans \<lparr>clock = 1000, faults = [], peer_bans = []\<rparr>)
       ([BanReturned (Inr \<lparr>banPeerID = ''42'', banReason = ''spam'', BannedBy = ''4D'', BannedAt = 5\<rparr>), UnbanReturned (Inr True)], b1)
     \<and> IsBanned (Some b1) (PeerID ''B'') \<and> stored_ban hex_peers b1 (PeerID ''B'') = None
     \<and> \<not> IsBanned (Some b2) (PeerID ''B'') \<and> stored_ban hex_peers b2 (PeerID ''B'') \<noteq> None"
proof -
  have ok: "bans_ok hex_peers (NewBans \<lparr>clock = 1000, faults = [], peer_bans = []\<rparr>)" by (simp add: NewBans_def bans_ok_def bans_inv_def stored_ban_def)
  have s: "peer_String hex_peers (PeerID ''B'') = ''42''" "peer_String hex_peers (PeerID ''M'') = ''4D''" by code_simp+
  have nf: "faults (banStore (NewBans \<lparr>clock = 1000, faults = [], peer_bans = []\<rparr>)) = []" by (simp add: NewBans_def)
  from ban_race [OF hex_peers_ok ok nf refl, of "PeerID ''B''" "PeerID ''M''" "''spam''" 5] show ?thesis
    unfolding s by blast
qed

end
