(* ===== verification/Gates.thy ===== *)
theory Gates
  imports Moderation Json
begin

text \<open>
  What a request passes before its handler runs: the ban gate (\<^verbatim>\<open>src/internal/protocol/wire/ban.go\<close>),
  the drain switch (\<^verbatim>\<open>src/internal/admission/drain.go\<close>), the storage budget
  (\<^verbatim>\<open>src/internal/capacity\<close>) and, between them, the rate limiter and the admission controller, of
  which a request sees a verdict: an error, or none. The rate limiter is a third-party package; the
  controller is the theory \<^verbatim>\<open>Admission\<close>.
\<close>

section \<open>Banned peers\<close>

definition BannedMessage :: string where
  "BannedMessage = ''banned: a moderator banned this peer; only its trust-safety folder can be read''"

definition NoticesFolder :: string where "NoticesFolder = ''trust-safety''"

definition Banned :: err where "Banned = Forbidden BannedMessage"

definition BanGate :: "Bans option \<Rightarrow> (bytes \<Rightarrow> bool) option \<Rightarrow> peer_id \<Rightarrow> bytes \<Rightarrow> err option" where
  "BanGate bans allow caller raw =
     (if IsBanned bans caller \<and> (case allow of None \<Rightarrow> True | Some f \<Rightarrow> \<not> f raw) then Some Banned else None)"

text \<open>The fields a struct of JSON tags decodes from; null leaves every field as it is.\<close>

definition object_fields :: "json_text \<Rightarrow> bytes \<Rightarrow> (string \<times> json) list option" where
  "object_fields T raw =
     (case json_dec T raw of
        Inl e \<Rightarrow> None
      | Inr j \<Rightarrow> (case j of JObj kvs \<Rightarrow> Some kvs | JNull \<Rightarrow> Some [] | _ \<Rightarrow> None))"

record access_envelope =
  aeOperationType :: string
  aePeerID :: string
  aeFolderPath :: string

definition access_envelope_of :: "json_text \<Rightarrow> bytes \<Rightarrow> access_envelope option" where
  "access_envelope_of T raw = do {
     kvs \<leftarrow> object_fields T raw;
     opn \<leftarrow> json_field dec_string [] ''operationType'' kvs;
     pid \<leftarrow> json_field dec_string [] ''peerId'' kvs;
     fld \<leftarrow> json_field dec_string [] ''folderPath'' kvs;
     Some \<lparr>aeOperationType = opn, aePeerID = pid, aeFolderPath = fld\<rparr> }"

definition BannedMayAccess :: "peer_lib \<Rightarrow> json_text \<Rightarrow> peer_id \<Rightarrow> bytes \<Rightarrow> bool" where
  "BannedMayAccess L T caller raw =
     (case access_envelope_of T raw of
        None \<Rightarrow> False
      | Some req \<Rightarrow>
          if aeOperationType req = [] \<or> aeOperationType req = ''retrieve''
          then aeFolderPath req = NoticesFolder \<and> (aePeerID req = [] \<or> aePeerID req = peer_String L caller)
          else if aeOperationType req = ''markDelivered'' then aeFolderPath req = NoticesFolder
          else aeOperationType req = ''deleteMessages'')"


section \<open>Drain and storage budget\<close>

definition DrainGate :: "bool \<Rightarrow> err option" where
  "DrainGate active = (if active then Some ErrDraining else None)"

record ServerStats =
  SampledAt :: millis
  DatabaseBytes :: int
  statMessages :: int
  statMailboxes :: int

record Sampler =
  maxStorageBytes :: int
  latest :: "ServerStats option"

text \<open>\<^verbatim>\<open>Sample\<close>, given what the aggregate query answered.\<close>

definition Sample :: "err + ServerStats \<Rightarrow> Sampler option \<Rightarrow> (err + ServerStats) \<times> Sampler option" where
  "Sample answer so =
     (case so of
        None \<Rightarrow> (Inl ErrNotSampled, None)
      | Some s \<Rightarrow>
          (case answer of
             Inl e \<Rightarrow> (Inl e, Some s)
           | Inr st \<Rightarrow> (Inr st, Some (s\<lparr>latest := Some st\<rparr>))))"

definition Latest :: "Sampler option \<Rightarrow> ServerStats option" where
  "Latest so = (case so of None \<Rightarrow> None | Some s \<Rightarrow> latest s)"

definition OverBudget :: "Sampler \<Rightarrow> bool" where
  "OverBudget s =
     (case Latest (Some s) of
        None \<Rightarrow> False
      | Some st \<Rightarrow> if maxStorageBytes s \<le> 0 then False else maxStorageBytes s \<le> DatabaseBytes st)"

definition WriteGate :: "Sampler option \<Rightarrow> (bytes \<Rightarrow> bool) option \<Rightarrow> bytes \<Rightarrow> err option" where
  "WriteGate so isWrite raw =
     (case so of
        None \<Rightarrow> None
      | Some s \<Rightarrow>
          if (case isWrite of None \<Rightarrow> True | Some f \<Rightarrow> f raw) \<and> OverBudget s then Some ErrStorageFull else None)"

text \<open>The integer figures of a capacity view; the health score, a floating-point ratio of two of them, is left out.\<close>

record ServerCapacity =
  TotalStorageBytes :: int
  UsedStorageBytes :: int
  AvailableStorageBytes :: int
  capMessageCount :: int
  ActiveMailboxes :: int
  capSampledAt :: millis

definition Capacity :: "Sampler option \<Rightarrow> err + ServerCapacity" where
  "Capacity so =
     (case Latest so of
        None \<Rightarrow> Inl ErrNotSampled
      | Some st \<Rightarrow>
          (let used = DatabaseBytes st; tot = (case so of None \<Rightarrow> 0 | Some s \<Rightarrow> maxStorageBytes s);
               available = (if tot - used < 0 then 0 else tot - used)
           in Inr \<lparr>TotalStorageBytes = tot, UsedStorageBytes = used, AvailableStorageBytes = available,
                   capMessageCount = statMessages st, ActiveMailboxes = statMailboxes st,
                   capSampledAt = SampledAt st\<rparr>))"

text \<open>The gate refuses writes exactly when the capacity view a client may query shows nothing left.\<close>

lemma OverBudget_Capacity:
  assumes "Capacity (Some s) = Inr c" "0 < maxStorageBytes s"
  shows "OverBudget s \<longleftrightarrow> AvailableStorageBytes c = 0"
  using assms by (auto simp: Capacity_def OverBudget_def Latest_def Let_def split: option.splits if_splits)


section \<open>A pipeline's gates\<close>

record gate_env =
  geBans :: "Bans option"
  geRate :: "err option"
  geDrain :: bool
  geAdmit :: "err option"
  geSampler :: "Sampler option"

fun first_refusal :: "err option list \<Rightarrow> err option" where
  "first_refusal [] = None"
| "first_refusal (None # gs) = first_refusal gs"
| "first_refusal (Some e # gs) = Some e"

definition submit_gates :: "gate_env \<Rightarrow> peer_id \<Rightarrow> bytes \<Rightarrow> err option" where
  "submit_gates G caller raw =
     first_refusal [BanGate (geBans G) None caller raw, geRate G, DrainGate (geDrain G), geAdmit G,
                    WriteGate (geSampler G) None raw]"

definition access_gates :: "peer_lib \<Rightarrow> json_text \<Rightarrow> gate_env \<Rightarrow> peer_id \<Rightarrow> bytes \<Rightarrow> err option" where
  "access_gates L T G caller raw =
     first_refusal [BanGate (geBans G) (Some (BannedMayAccess L T caller)) caller raw, geRate G,
                    DrainGate (geDrain G), geAdmit G]"

definition admin_gates :: "gate_env \<Rightarrow> peer_id \<Rightarrow> bytes \<Rightarrow> err option" where
  "admin_gates G caller raw =
     first_refusal [BanGate (geBans G) None caller raw, geRate G, DrainGate (geDrain G), geAdmit G]"

lemma first_refusal_None: "first_refusal gs = None \<longleftrightarrow> (\<forall>g \<in> set gs. g = None)"
  by (induction gs rule: first_refusal.induct) auto

lemma submit_gates_None:
  "submit_gates G p raw = None \<longleftrightarrow> \<not> IsBanned (geBans G) p \<and> geRate G = None \<and> \<not> geDrain G \<and> geAdmit G = None
     \<and> (\<forall>s. geSampler G = Some s \<longrightarrow> \<not> OverBudget s)"
  by (auto simp: submit_gates_def first_refusal_None BanGate_def DrainGate_def WriteGate_def split: option.splits)

lemma access_gates_None:
  "access_gates L T G p raw = None \<longleftrightarrow> (IsBanned (geBans G) p \<longrightarrow> BannedMayAccess L T p raw)
     \<and> geRate G = None \<and> \<not> geDrain G \<and> geAdmit G = None"
  by (auto simp: access_gates_def first_refusal_None BanGate_def DrainGate_def)

lemma admin_gates_None:
  "admin_gates G p raw = None \<longleftrightarrow> \<not> IsBanned (geBans G) p \<and> geRate G = None \<and> \<not> geDrain G \<and> geAdmit G = None"
  by (auto simp: admin_gates_def first_refusal_None BanGate_def DrainGate_def)

text \<open>Gates that let everyone through, for examples.\<close>

definition demo_gates :: gate_env where
  "demo_gates = \<lparr>geBans = Some demo_bans, geRate = None, geDrain = False, geAdmit = None, geSampler = None\<rparr>"

end
