(* ===== verification/Msa.thy ===== *)
theory Msa
  imports Mta Gates
begin

text \<open>
  The mail submission agent (\<^verbatim>\<open>src/internal/protocol/msa/handler.go\<close>): one message or a batch of
  them, each routed by the transfer agent and answered with an ack. A handler returns the response
  it sets or the error it leaves to the response writer; the pipelines compose the gates, the
  decoder, the handler and the writer in the order of the code.
\<close>

definition maxBatchMessages :: nat where "maxBatchMessages = 100"

type_synonym ack = "string StoreAck"

definition failure_ack :: "string \<Rightarrow> ack" where
  "failure_ack msg = \<lparr>ackMessageID = [], ackSuccess = False, ackErrorMessage = msg, ackStatus = 0, ackRetryAfterMs = 0\<rparr>"

definition ack_of :: "err + string \<Rightarrow> ack" where
  "ack_of r =
     (case r of
        Inr i \<Rightarrow> \<lparr>ackMessageID = i, ackSuccess = True, ackErrorMessage = [], ackStatus = 0, ackRetryAfterMs = 0\<rparr>
      | Inl e \<Rightarrow> \<lparr>ackMessageID = [], ackSuccess = False, ackErrorMessage = ClientMessage (Some e),
                  ackStatus = fst (Classify (Some e)), ackRetryAfterMs = 0\<rparr>)"


section \<open>One message\<close>

definition submitHandler :: "('c, 'm, 'l) libs \<Rightarrow> 'r limiter_lib \<Rightarrow> peer_id \<Rightarrow> Message \<Rightarrow> ('c, 'm, 'r) Router \<Rightarrow> ack \<times> ('c, 'm, 'r) Router" where
  "submitHandler E M caller msg rt =
     (let (r, rt') = (if SenderPeerID msg = peer_String (libPeer E) caller then AcceptMessage E M msg caller rt
                      else AcceptForwarded E M msg caller rt)
      in (ack_of r, rt'))"

definition pipeline_ack :: "err \<Rightarrow> ack" where
  "pipeline_ack e =
     (let (status, retryAfter) = Classify (Some e)
      in \<lparr>ackMessageID = [], ackSuccess = False, ackErrorMessage = ClientMessage (Some e), ackStatus = status,
          ackRetryAfterMs = RetryAfterMs retryAfter\<rparr>)"

definition ackResponseWriter :: "err + ack \<Rightarrow> ack" where
  "ackResponseWriter r = (case r of Inl e \<Rightarrow> pipeline_ack e | Inr a \<Rightarrow> a)"

definition deserializeMessage :: "json_text \<Rightarrow> bytes \<Rightarrow> err + Message" where
  "deserializeMessage T raw = MessageFromJSON_bytes T raw"

definition submit :: "('c, 'm, 'l) libs \<Rightarrow> 'r limiter_lib \<Rightarrow> gate_env \<Rightarrow> peer_id \<Rightarrow> bytes \<Rightarrow> ('c, 'm, 'r) Router \<Rightarrow> ack \<times> ('c, 'm, 'r) Router" where
  "submit E M G caller raw rt =
     (case submit_gates G caller raw of
        Some e \<Rightarrow> (ackResponseWriter (Inl e), rt)
      | None \<Rightarrow>
          (case deserializeMessage (libText E) raw of
             Inl e \<Rightarrow> (ackResponseWriter (Inl e), rt)
           | Inr msg \<Rightarrow> (let (a, rt') = submitHandler E M caller msg rt in (ackResponseWriter (Inr a), rt'))))"


section \<open>Batches\<close>

record BatchSubmitResponse =
  Acks :: "ack list"
  Accepted :: int
  Total :: int

definition batch_StatusCode :: "BatchSubmitResponse \<Rightarrow> int" where
  "batch_StatusCode r =
     (if Total r = 0 \<and> length (Acks r) = 1 then StoreAck_StatusCode (hd (Acks r))
      else if Accepted r = Total r then StatusOK
      else StatusMultiStatus)"

fun dec_array :: "json \<Rightarrow> json list option" where
  "dec_array (JArr js) = Some js"
| "dec_array _ = None"

definition BatchSubmitRequest :: "json_text \<Rightarrow> bytes \<Rightarrow> json list option" where
  "BatchSubmitRequest T raw = do { kvs \<leftarrow> object_fields T raw; json_field dec_array [] ''messages'' kvs }"

definition batch_one :: "('c, 'm, 'l) libs \<Rightarrow> 'r limiter_lib \<Rightarrow> peer_id \<Rightarrow> nat \<Rightarrow> json \<Rightarrow> ('c, 'm, 'r) Router \<Rightarrow> ack \<times> ('c, 'm, 'r) Router" where
  "batch_one E M caller i raw rt =
     (case MessageFromJSON raw of
        Inl e \<Rightarrow> (failure_ack (''message '' @ show_nat i @ '': '' @ error_text e), rt)
      | Inr msg \<Rightarrow>
          (case RequireSelf (libPeer E) caller (SenderPeerID msg) ''sender'' of
             Some e \<Rightarrow> ((ack_of (Inl e))\<lparr>ackMessageID := MessageID msg\<rparr>, rt)
           | None \<Rightarrow> (let (r, rt') = AcceptMessage E M msg caller rt in (ack_of r, rt'))))"

fun batch_loop :: "('c, 'm, 'l) libs \<Rightarrow> 'r limiter_lib \<Rightarrow> peer_id \<Rightarrow> nat \<Rightarrow> json list \<Rightarrow> ack list \<Rightarrow> int \<Rightarrow> ('c, 'm, 'r) Router
    \<Rightarrow> (ack list \<times> int) \<times> ('c, 'm, 'r) Router" where
  "batch_loop E M caller i [] acks accepted rt = ((acks, accepted), rt)"
| "batch_loop E M caller i (raw # raws) acks accepted rt =
     (let (a, rt') = batch_one E M caller i raw rt
      in batch_loop E M caller (i + 1) raws (acks @ [a]) (if ackSuccess a then accepted + 1 else accepted) rt')"

definition refused_batch :: "ack \<Rightarrow> BatchSubmitResponse" where
  "refused_batch a = \<lparr>Acks = [a], Accepted = 0, Total = 0\<rparr>"

definition batchSubmitHandler :: "('c, 'm, 'l) libs \<Rightarrow> 'r limiter_lib \<Rightarrow> peer_id \<Rightarrow> bytes \<Rightarrow> ('c, 'm, 'r) Router \<Rightarrow> BatchSubmitResponse \<times> ('c, 'm, 'r) Router" where
  "batchSubmitHandler E M caller raw rt =
     (case BatchSubmitRequest (libText E) raw of
        None \<Rightarrow> (refused_batch (failure_ack ''invalid batch request''), rt)
      | Some msgs \<Rightarrow>
          if msgs = [] then (refused_batch (failure_ack ''messages is required''), rt)
          else if maxBatchMessages < length msgs
          then (refused_batch (failure_ack (''batch holds '' @ show_nat (length msgs) @ '' messages, maximum is ''
                  @ show_nat maxBatchMessages)), rt)
          else (let ((acks, accepted), rt') = batch_loop E M caller 0 msgs [] 0 rt
                in (\<lparr>Acks = acks, Accepted = accepted, Total = int (length msgs)\<rparr>, rt')))"

definition batchResponseWriter :: "err + BatchSubmitResponse \<Rightarrow> BatchSubmitResponse" where
  "batchResponseWriter r = (case r of Inl e \<Rightarrow> refused_batch (pipeline_ack e) | Inr b \<Rightarrow> b)"

definition batch_submit :: "('c, 'm, 'l) libs \<Rightarrow> 'r limiter_lib \<Rightarrow> gate_env \<Rightarrow> peer_id \<Rightarrow> bytes \<Rightarrow> ('c, 'm, 'r) Router \<Rightarrow> BatchSubmitResponse \<times> ('c, 'm, 'r) Router" where
  "batch_submit E M G caller raw rt =
     (case submit_gates G caller raw of
        Some e \<Rightarrow> (batchResponseWriter (Inl e), rt)
      | None \<Rightarrow> (let (b, rt') = batchSubmitHandler E M caller raw rt in (batchResponseWriter (Inr b), rt')))"

end
