(* ===== verification/Msa_Props.thy ===== *)
theory Msa_Props
  imports Msa
begin

text \<open>
  Submission: whose messages can reach the store, how a batch relates to single submissions, and
  that forwarding loops end.
\<close>

section \<open>Routing\<close>

lemma checkRateLimit_same:
  "checkRateLimit M p rt = (ok, rt') \<Longrightarrow> rtMda rt' = rtMda rt \<and> forwarding rt' = forwarding rt \<and> forwarders rt' = forwarders rt"
  by (auto simp: checkRateLimit_def Let_def split: option.splits prod.splits)

lemma deliver_adds: "adds_only (row_of msg) (Storage (rtMda rt)) (Storage (rtMda (snd (deliver E ctx msg rt))))"
  using DeliverLocal_adds [of msg "rtMda rt" E] by (auto simp: deliver_def split: prod.splits sum.splits)

lemma deliver_InrD: "deliver E ctx msg rt = (Inr i, rt') \<Longrightarrow> i = MessageID msg"
  by (auto simp: deliver_def split: prod.splits sum.splits)

lemma AcceptMessage_adds:
  "adds_only (\<lambda>row. row_of msg row \<and> SenderPeerID msg = peer_String (libPeer E) p)
     (Storage (rtMda rt)) (Storage (rtMda (snd (AcceptMessage E M msg p rt))))"
proof (cases "validateMessage (libPeer E) (rt_now rt) msg p")
  case None
  then have sender: "SenderPeerID msg = peer_String (libPeer E) p" by (auto simp: validateMessage_def split: if_splits)
  obtain ok rt1 where c: "checkRateLimit M p rt = (ok, rt1)" by fastforce
  show ?thesis
  proof (cases ok)
    case True
    have "adds_only (row_of msg) (Storage (rtMda rt1)) (Storage (rtMda (snd (deliver E ''deliver message: '' msg rt1))))"
      by (rule deliver_adds)
    then show ?thesis using None c True sender checkRateLimit_same [OF c] by (simp add: AcceptMessage_def)
  qed (use None c checkRateLimit_same [OF c] in \<open>simp add: AcceptMessage_def\<close>)
qed (simp add: AcceptMessage_def)

text \<open>A forwarded message, as it is stored.\<close>

definition forwarded_of :: "Message \<Rightarrow> Message" where
  "forwarded_of msg = msg\<lparr>HopCount := HopCount msg + 1, Flags := SF_WithFlag (Flags msg) FlagForwarded OR FlagForwarded\<rparr>"

lemma forwarded_of_flag: "SF_HasFlag (Flags (forwarded_of msg)) FlagForwarded"
  by (simp add: forwarded_of_def SF_HasFlag_def SF_WithFlag_def FlagForwarded_def bit_flag_iff bit_or_iff bit_push_bit_iff)

lemma AcceptForwarded_cases:
  obtains (refused) e where "fst (AcceptForwarded E M msg p rt) = Inl e"
      "rtMda (snd (AcceptForwarded E M msg p rt)) = rtMda rt"
    | (delivered) rt1 where "forwarding rt" "Contains (forwarders rt) p" "HopCount msg < MaxHopCount" "rtMda rt1 = rtMda rt"
      "AcceptForwarded E M msg p rt = deliver E ''deliver forwarded message: '' (forwarded_of msg) rt1"
proof -
  have refused': thesis if "\<exists>e. AcceptForwarded E M msg p rt = (Inl e, rt')" "rtMda rt' = rtMda rt" for rt'
    using that refused by fastforce
  show thesis
  proof (cases "\<exists>s. forwarding rt \<and> Contains (forwarders rt) p \<and> peer_Decode (libPeer E) (SenderPeerID msg) = Some s \<and> HopCount msg < MaxHopCount")
    case False
    then show thesis
      by (intro refused' [of rt])
        (cases "peer_Decode (libPeer E) (SenderPeerID msg)", auto simp: AcceptForwarded_def WithIncrementedHopCount_def not_less)
  next
    case True
    then obtain s where s: "peer_Decode (libPeer E) (SenderPeerID msg) = Some s" and hop: "\<not> MaxHopCount \<le> HopCount msg" by auto
    obtain ok rt1 where c: "checkRateLimit M p rt = (ok, rt1)" by fastforce
    have eq: "AcceptForwarded E M msg p rt = (if \<not> ok then (Inl (RateLimitError (peer_String (libPeer E) p)), rt1)
        else case validateForwarded (rt_now rt1) (forwarded_of msg) of Some e \<Rightarrow> (Inl e, rt1)
          | None \<Rightarrow> deliver E ''deliver forwarded message: '' (forwarded_of msg) rt1)"
      using True s hop c by (simp add: AcceptForwarded_def WithIncrementedHopCount_def forwarded_of_def Let_def split: option.splits)
    show thesis
    proof (cases "ok \<and> validateForwarded (rt_now rt1) (forwarded_of msg) = None")
      case good: True
      then show thesis using True eq checkRateLimit_same [OF c] by (intro delivered [of rt1]) simp_all
    next
      case bad: False
      then have "\<exists>e. AcceptForwarded E M msg p rt = (Inl e, rt1)" using eq by (auto split: option.splits)
      then show thesis using refused' checkRateLimit_same [OF c] by blast
    qed
  qed
qed

lemma AcceptForwarded_adds:
  "adds_only (\<lambda>row. row_of (forwarded_of msg) row \<and> forwarding rt \<and> Contains (forwarders rt) p \<and> HopCount msg < MaxHopCount)
     (Storage (rtMda rt)) (Storage (rtMda (snd (AcceptForwarded E M msg p rt))))"
proof (cases rule: AcceptForwarded_cases [of E M msg p rt])
  case (delivered rt1)
  have "adds_only (row_of (forwarded_of msg)) (Storage (rtMda rt1))
      (Storage (rtMda (snd (deliver E ''deliver forwarded message: '' (forwarded_of msg) rt1))))" by (rule deliver_adds)
  then show ?thesis using delivered by (simp add: adds_only_def)
qed simp


section \<open>Whose messages reach the store\<close>

definition genuine :: "peer_lib \<Rightarrow> ('c, 'm, 'r) Router \<Rightarrow> peer_id \<Rightarrow> StoredMessageRecord \<Rightarrow> bool" where
  "genuine L rt caller row \<longleftrightarrow> smSenderPeerID row = peer_String L caller
     \<or> forwarding rt \<and> Contains (forwarders rt) caller \<and> smHopCount row \<le> MaxHopCount \<and> SF_HasFlag (smSfFlags row) FlagForwarded"

lemma submitHandler_adds:
  "adds_only (genuine (libPeer E) rt caller) (Storage (rtMda rt)) (Storage (rtMda (snd (submitHandler E M caller msg rt))))"
proof (cases "SenderPeerID msg = peer_String (libPeer E) caller")
  case True
  then show ?thesis using AcceptMessage_adds [of msg E caller rt M]
    by (auto simp: submitHandler_def case_prod_unfold Let_def genuine_def row_of_def elim!: adds_only_mono)
next
  case False
  then show ?thesis using AcceptForwarded_adds [of msg rt caller E M]
    by (auto simp: submitHandler_def case_prod_unfold Let_def genuine_def row_of_def forwarded_of_flag elim!: adds_only_mono)
      (simp_all add: forwarded_of_def)
qed

lemma batch_one_adds:
  "adds_only (\<lambda>row. smSenderPeerID row = peer_String (libPeer E) caller)
     (Storage (rtMda rt)) (Storage (rtMda (snd (batch_one E M caller i raw rt))))"
proof (cases "MessageFromJSON raw")
  case (Inr msg)
  show ?thesis
  proof (cases "RequireSelf (libPeer E) caller (SenderPeerID msg) ''sender''")
    case None
    then show ?thesis using Inr AcceptMessage_adds [of msg E caller rt M]
      by (auto simp: batch_one_def case_prod_unfold Let_def row_of_def elim!: adds_only_mono)
  qed (use Inr in \<open>simp add: batch_one_def\<close>)
qed (simp add: batch_one_def)

lemma batch_loop_adds:
  "adds_only (\<lambda>row. smSenderPeerID row = peer_String (libPeer E) caller)
     (Storage (rtMda rt)) (Storage (rtMda (snd (batch_loop E M caller i raws acks n rt))))"
proof (induction E M caller i raws acks n rt rule: batch_loop.induct)
  case (2 E M caller i raw raws acks accepted rt)
  obtain a rt' where one: "batch_one E M caller i raw rt = (a, rt')" by fastforce
  have "adds_only (\<lambda>row. smSenderPeerID row = peer_String (libPeer E) caller) (Storage (rtMda rt)) (Storage (rtMda rt'))"
    using batch_one_adds [of E caller rt M i raw] one by simp
  then show ?case using 2 [OF one [symmetric] refl] one by (auto intro: adds_only_trans)
qed simp

text \<open>
  C4. Senders are genuine. Whatever bytes a peer submits, singly or in a batch, every message the
  submission adds to the store names that peer as its sender; or else it came through a single
  submission, forwarding is enabled, the peer is a trusted forwarder, and the message is marked as
  forwarded with at most the maximum number of hops. A banned peer's submissions, those that arrive
  while the server drains and those made over the storage budget change nothing at all.
\<close>

theorem senders_are_genuine:
  "adds_only (genuine (libPeer E) rt caller) (Storage (rtMda rt)) (Storage (rtMda (snd (submit E M G caller raw rt))))
   \<and> adds_only (\<lambda>row. smSenderPeerID row = peer_String (libPeer E) caller)
       (Storage (rtMda rt)) (Storage (rtMda (snd (batch_submit E M G caller raw rt))))
   \<and> (IsBanned (geBans G) caller \<or> geDrain G \<or> (\<exists>s. geSampler G = Some s \<and> OverBudget s) \<longrightarrow>
        snd (submit E M G caller raw rt) = rt \<and> snd (batch_submit E M G caller raw rt) = rt)"
proof (intro conjI impI)
  show "adds_only (genuine (libPeer E) rt caller) (Storage (rtMda rt)) (Storage (rtMda (snd (submit E M G caller raw rt))))"
    by (auto simp: submit_def case_prod_unfold Let_def submitHandler_adds split: option.splits sum.splits)
  show "adds_only (\<lambda>row. smSenderPeerID row = peer_String (libPeer E) caller)
      (Storage (rtMda rt)) (Storage (rtMda (snd (batch_submit E M G caller raw rt))))"
    by (auto simp: batch_submit_def batchSubmitHandler_def case_prod_unfold Let_def batch_loop_adds split: option.splits)
  assume "IsBanned (geBans G) caller \<or> geDrain G \<or> (\<exists>s. geSampler G = Some s \<and> OverBudget s)"
  then have "submit_gates G caller raw \<noteq> None" unfolding submit_gates_None by blast
  then show "snd (submit E M G caller raw rt) = rt" "snd (batch_submit E M G caller raw rt) = rt"
    by (auto simp: submit_def batch_submit_def)
qed

definition demo_limit :: "unit limiter_lib" where
  "demo_limit = \<lparr>lmAllow = (\<lambda>_ _ l. (True, l))\<rparr>"

definition demo_router :: "((string \<times> Mailbox) list, (int \<times> int) list, unit) Router" where
  "demo_router = WithForwarding True (Some {PeerID ''F''}) (NewRouter demo_srv None)"

theorem senders_are_genuine_witness:
  "snd (submit demo_libs demo_limit (demo_gates\<lparr>geDrain := True\<rparr>) (PeerID ''B'') [] demo_router) = demo_router
   \<and> ackStatus (fst (submit demo_libs demo_limit (demo_gates\<lparr>geDrain := True\<rparr>) (PeerID ''B'') [] demo_router)) = 503"
proof -
  have "ackStatus (fst (submit demo_libs demo_limit (demo_gates\<lparr>geDrain := True\<rparr>) (PeerID ''B'') [] demo_router)) = 503" by code_simp
  then show ?thesis
    using senders_are_genuine [of demo_libs demo_router "PeerID ''B''" demo_limit "demo_gates\<lparr>geDrain := True\<rparr>" "[]"] by simp
qed


section \<open>A batch is its messages, one after the other\<close>

fun submit_each :: "('c, 'm, 'l) libs \<Rightarrow> 'r limiter_lib \<Rightarrow> peer_id \<Rightarrow> Message list \<Rightarrow> ('c, 'm, 'r) Router \<Rightarrow> ack list \<times> ('c, 'm, 'r) Router" where
  "submit_each E M caller [] rt = ([], rt)"
| "submit_each E M caller (m # ms) rt =
     (let (a, rt1) = submitHandler E M caller m rt; (as, rt2) = submit_each E M caller ms rt1 in (a # as, rt2))"

text \<open>
  The messages of a batch that are judged at all: those that decode and name the caller as their
  sender. The others are refused where they stand.
\<close>

definition own_message :: "peer_lib \<Rightarrow> peer_id \<Rightarrow> json \<Rightarrow> Message option" where
  "own_message L caller j =
     (case MessageFromJSON j of
        Inl e \<Rightarrow> None
      | Inr m \<Rightarrow> if SenderPeerID m = peer_String L caller then Some m else None)"

lemma batch_one_own: "own_message (libPeer E) caller j = Some m \<Longrightarrow> batch_one E M caller i j rt = submitHandler E M caller m rt"
  by (auto simp: own_message_def batch_one_def submitHandler_def RequireSelf_def split: sum.splits if_splits)

lemma batch_one_other: "own_message (libPeer E) caller j = None \<Longrightarrow> batch_one E M caller i j rt = (a, rt') \<Longrightarrow> \<not> ackSuccess a \<and> rt' = rt"
  by (auto simp: own_message_def batch_one_def RequireSelf_def ack_of_def failure_ack_def AcceptMessage_def validateMessage_def
      split: sum.splits if_splits)

lemma batch_loop_acc:
  "batch_loop E M caller i raws acks n rt =
     (let ((as, k), rt') = batch_loop E M caller i raws [] 0 rt in ((acks @ as, n + k), rt'))"
proof (induction raws arbitrary: i acks n rt)
  case (Cons raw raws)
  obtain a rt1 where one: "batch_one E M caller i raw rt = (a, rt1)" by fastforce
  obtain as k rt2 where rest: "batch_loop E M caller (i + 1) raws [] 0 rt1 = ((as, k), rt2)" by (metis prod.exhaust)
  have r: "batch_loop E M caller (i + 1) raws acks' n' rt1 = ((acks' @ as, n' + k), rt2)" for acks' n'
    using Cons.IH [of "i + 1" acks' n' rt1] rest by simp
  show ?case using one r by (simp del: batch_loop.simps(1) add: Let_def)
qed simp

lemma batch_loop_counts:
  assumes "batch_loop E M caller i raws [] 0 rt = ((as, k), rt')"
  shows "length as = length raws \<and> k = int (length (filter ackSuccess as))"
  using assms
proof (induction raws arbitrary: i as k rt rt')
  case (Cons raw raws)
  obtain a rt1 where one: "batch_one E M caller i raw rt = (a, rt1)" by fastforce
  obtain bs l rt2 where rest: "batch_loop E M caller (i + 1) raws [] 0 rt1 = ((bs, l), rt2)" by (metis prod.exhaust)
  have "as = a # bs \<and> k = (if ackSuccess a then 1 else 0) + l"
    using Cons.prems one rest batch_loop_acc [of E M caller "i + 1" raws "[a]" "if ackSuccess a then 1 else 0" rt1]
    by (auto simp: Let_def)
  then show ?case using Cons.IH [OF rest] by auto
qed simp

lemma batch_loop_own:
  assumes "batch_loop E M caller i js [] 0 rt = ((as, k), rt')"
  shows "submit_each E M caller (List.map_filter (own_message (libPeer E) caller) js) rt
      = (map snd (filter (\<lambda>(j, a). own_message (libPeer E) caller j \<noteq> None) (zip js as)), rt')
    \<and> (\<forall>(j, a) \<in> set (zip js as). own_message (libPeer E) caller j = None \<longrightarrow> \<not> ackSuccess a)"
  using assms
proof (induction js arbitrary: i rt as k rt')
  case (Cons j js)
  obtain a rt1 where one: "batch_one E M caller i j rt = (a, rt1)" by fastforce
  obtain bs l rt2 where rest: "batch_loop E M caller (i + 1) js [] 0 rt1 = ((bs, l), rt2)" by (metis prod.exhaust)
  have "as = a # bs \<and> rt2 = rt'"
    using Cons.prems one rest batch_loop_acc [of E M caller "i + 1" js "[a]" "if ackSuccess a then 1 else 0" rt1]
    by (cases "ackSuccess a") (simp_all add: Let_def)
  note as = this Cons.IH [OF rest]
  show ?case
  proof (cases "own_message (libPeer E) caller j")
    case None
    then show ?thesis using as batch_one_other [OF None one] by (simp add: map_filter_simps)
  next
    case (Some m)
    then show ?thesis using as one batch_one_own [OF Some, of M i rt] by (simp add: map_filter_simps)
  qed
qed (simp add: map_filter_simps)

text \<open>
  C29. A batch answers with one ack for each message, in the order of the request, and counts the
  accepted ones; the messages are judged separately. What the batch leaves behind, and the acks of
  the messages that decode and name the caller as their sender, are those of submitting
  these messages one after the other; every other message is refused and has no effect, that of a
  trusted forwarder, which a submission of its own would accept, too.
\<close>

theorem batch_is_singles:
  assumes req: "BatchSubmitRequest (libText E) raw = Some js" and n: "0 < length js" "length js \<le> maxBatchMessages"
    and run: "batchSubmitHandler E M caller raw rt = (resp, rt')"
  shows "length (Acks resp) = length js \<and> Total resp = int (length js) \<and> Accepted resp = int (length (filter ackSuccess (Acks resp)))
    \<and> submit_each E M caller (List.map_filter (own_message (libPeer E) caller) js) rt
        = (map snd (filter (\<lambda>(j, a). own_message (libPeer E) caller j \<noteq> None) (zip js (Acks resp))), rt')
    \<and> (\<forall>(j, a) \<in> set (zip js (Acks resp)). own_message (libPeer E) caller j = None \<longrightarrow> \<not> ackSuccess a)"
proof -
  obtain as k rt2 where l: "batch_loop E M caller 0 js [] 0 rt = ((as, k), rt2)" by (metis prod.exhaust)
  have "js \<noteq> []" using n by auto
  then have r: "resp = \<lparr>Acks = as, Accepted = k, Total = int (length js)\<rparr>" "rt' = rt2"
    using req n run l by (auto simp: batchSubmitHandler_def)
  show ?thesis using r batch_loop_counts [OF l] batch_loop_own [OF l] by simp
qed

text \<open>A codec that knows one batch of two messages, one of which does not decode, for the witness.\<close>

definition two_messages :: "json list" where
  "two_messages =
     [JObj [(''messageId'', JStr ''m7''), (''senderPeerId'', JStr ''43''), (''recipientPeerId'', JStr ''42'')],
      JObj [(''messageId'', JStr ''m8''), (''senderPeerId'', JNum 44), (''recipientPeerId'', JStr ''42'')]]"

definition short_message :: "string \<Rightarrow> Message" where
  "short_message i =
     \<lparr>MessageID = i, RecipientPeerID = ''42'', SenderPeerID = ''43'', Payload = [], Priority = 0, ExpiryTimestamp = 0,
      HopCount = 0, Flags = 0, CreatedTimestamp = 0, FolderPath = [], SequenceNumber = 0, MsgFlags = 0, Persistent = False\<rparr>"

definition batch_text :: json_text where
  "batch_text = \<lparr>json_enc = (\<lambda>_. []), json_dec = (\<lambda>_. Inr (JObj [(''messages'', JArr two_messages)]))\<rparr>"

definition batch_libs :: "((string \<times> Mailbox) list, (int \<times> int) list, int) libs" where
  "batch_libs = demo_libs\<lparr>libText := batch_text\<rparr>"

theorem batch_is_singles_witness:
  "map ackSuccess (Acks (fst (batchSubmitHandler batch_libs demo_limit (PeerID ''C'') [] demo_router))) = [True, False]
   \<and> snd (batchSubmitHandler batch_libs demo_limit (PeerID ''C'') [] demo_router)
      = snd (submit_each batch_libs demo_limit (PeerID ''C'') [short_message ''m7''] demo_router)"
proof -
  let ?ms = "[short_message ''m7'']"
  let ?r = "batchSubmitHandler batch_libs demo_limit (PeerID ''C'') [] demo_router"
  have a: "map ackSuccess (Acks (fst ?r)) = [True, False]" by code_simp
  have req: "BatchSubmitRequest (libText batch_libs) [] = Some two_messages" by code_simp
  have n: "0 < length two_messages" "length two_messages \<le> maxBatchMessages" by (simp_all add: two_messages_def maxBatchMessages_def)
  have own: "List.map_filter (own_message (libPeer batch_libs) (PeerID ''C'')) two_messages = ?ms" by code_simp
  show ?thesis
    using batch_is_singles [OF req n, of demo_limit "PeerID ''C''" demo_router "fst ?r" "snd ?r"] a unfolding own by simp
qed


section \<open>Forwarding ends\<close>

text \<open>
  A message on its way through forwarders: each entry is the peer that forwards it next and the
  server it forwards to; every server hands on what it stored.
\<close>

fun relay :: "('c, 'm, 'l) libs \<Rightarrow> 'r limiter_lib \<Rightarrow> Message \<Rightarrow> (peer_id \<times> ('c, 'm, 'r) Router) list \<Rightarrow> Message option" where
  "relay E M msg [] = Some msg"
| "relay E M msg ((p, rt) # hs) =
     (case AcceptForwarded E M msg p rt of
        (Inl _, _) \<Rightarrow> None
      | (Inr _, _) \<Rightarrow> relay E M (forwarded_of msg) hs)"

lemma relay_hops:
  "relay E M msg hs = Some m \<Longrightarrow> HopCount m = HopCount msg + int (length hs) \<and> (hs \<noteq> [] \<longrightarrow> HopCount m \<le> MaxHopCount)"
proof (induction E M msg hs rule: relay.induct)
  case (2 E M msg p rt hs)
  show ?case
  proof (cases rule: AcceptForwarded_cases [of E M msg p rt])
    case (refused e)
    then show ?thesis using "2.prems" by (cases "AcceptForwarded E M msg p rt") simp
  next
    case (delivered rt1)
    obtain x rt' where x: "AcceptForwarded E M msg p rt = (x, rt')" by fastforce
    then obtain i where "x = Inr i" "relay E M (forwarded_of msg) hs = Some m" using "2.prems" by (cases x) auto
    then show ?thesis using "2.IH" x delivered(3) by (cases hs) (auto simp: forwarded_of_def)
  qed
qed simp

text \<open>
  A message cannot circle between forwarders for ever: from a message whose hop count is not
  negative at most ten forwarders in a row get it accepted, whoever they are and whichever servers
  they use. In general the number of hops is at most ten less the hop count the sender wrote, and
  since the routers accept a negative count, a sender can raise it.
\<close>

theorem forwarding_runs_out:
  "(relay E M msg hs \<noteq> None \<longrightarrow> int (length hs) \<le> max 0 (MaxHopCount - HopCount msg))
   \<and> (0 \<le> HopCount msg \<and> relay E M msg hs \<noteq> None \<longrightarrow> length hs \<le> 10)
   \<and> (\<exists>m. HopCount m < 0 \<and> fst (AcceptForwarded demo_libs demo_limit m (PeerID ''F'') demo_router) = Inr (MessageID m))"
proof (intro conjI impI)
  show b: "int (length hs) \<le> max 0 (MaxHopCount - HopCount msg)" if "relay E M msg hs \<noteq> None"
    using that relay_hops [of E M msg hs] by (cases "hs = []") auto
  show "length hs \<le> 10" if "0 \<le> HopCount msg \<and> relay E M msg hs \<noteq> None"
    using that b by (auto simp: MaxHopCount_def max_def split: if_splits)
  let ?m = "(short_message ''m7'')\<lparr>HopCount := -2\<rparr>"
  have "HopCount ?m < 0" by simp
  moreover have "fst (AcceptForwarded demo_libs demo_limit ?m (PeerID ''F'') demo_router) = Inr (MessageID ?m)" by code_simp
  ultimately show "\<exists>m. HopCount m < 0 \<and> fst (AcceptForwarded demo_libs demo_limit m (PeerID ''F'') demo_router) = Inr (MessageID m)" by blast
qed

theorem forwarding_runs_out_witness:
  "relay demo_libs demo_limit (demo_msg ''m7'' 0) (replicate 2 (PeerID ''F'', demo_router)) \<noteq> None
   \<and> int (length (replicate 2 (PeerID ''F'', demo_router))) \<le> max 0 (MaxHopCount - HopCount (demo_msg ''m7'' 0))"
proof -
  have "relay demo_libs demo_limit (demo_msg ''m7'' 0) (replicate 2 (PeerID ''F'', demo_router)) \<noteq> None" by code_simp
  then show ?thesis
    using forwarding_runs_out [of demo_libs demo_limit "demo_msg ''m7'' 0" "replicate 2 (PeerID ''F'', demo_router)"] by blast
qed

end
