(* ===== verification/Frame.thy ===== *)
theory Frame
  imports Json
begin

text \<open>
  Length-prefixed frames and the compound retrieve response
  (\<^verbatim>\<open>src/internal/protocol/frame/frame.go\<close>; the server's own encoder of the same format is in
  \<^verbatim>\<open>src/internal/protocol/maa/handler.go\<close>). Lengths are \<^verbatim>\<open>uint32\<close>s and their sums wrap, as in the
  code. A slice expression out of range is a panic, a value of its own beside errors; the
  capacity of a slice is its length, as for the buffer \<^verbatim>\<open>ReadFrame\<close> allocates.
\<close>

unbundle bit_operations_syntax

section \<open>Big-endian 32-bit lengths (\<open>encoding/binary\<close>)\<close>

definition PutUint32 :: "u32 \<Rightarrow> bytes" where
  "PutUint32 v = [ucast (drop_bit 24 v), ucast (drop_bit 16 v), ucast (drop_bit 8 v), ucast v]"

fun Uint32 :: "bytes \<Rightarrow> u32" where
  "Uint32 (a # b # c # d # _) =
     ucast d OR push_bit 8 (ucast c) OR push_bit 16 (ucast b) OR push_bit 24 (ucast a)"
| "Uint32 _ = 0"

lemma Uint32_PutUint32: "Uint32 (PutUint32 v @ rest) = v"
proof -
  have "Uint32 (PutUint32 v @ rest) =
      ucast (ucast v :: byte) OR push_bit 8 (ucast (ucast (drop_bit 8 v) :: byte)) OR
      push_bit 16 (ucast (ucast (drop_bit 16 v) :: byte)) OR push_bit 24 (ucast (ucast (drop_bit 24 v) :: byte))"
    by (simp add: PutUint32_def)
  also have "\<dots> = v"
  proof (rule bit_word_eqI)
    fix n assume "n < LENGTH(32)"
    then consider "n < 8" | "8 \<le> n" "n < 16" | "16 \<le> n" "n < 24" | "24 \<le> n" "n < 32"
      by fastforce
    then show "bit ((ucast (ucast v :: byte) :: u32) OR push_bit 8 (ucast (ucast (drop_bit 8 v) :: byte)) OR
        push_bit 16 (ucast (ucast (drop_bit 16 v) :: byte)) OR
        push_bit 24 (ucast (ucast (drop_bit 24 v) :: byte))) n = bit v n"
      by cases (auto simp: bit_simps)
  qed
  finally show ?thesis .
qed

lemma length_PutUint32 [simp]: "length (PutUint32 v) = 4"
  by (simp add: PutUint32_def)


section \<open>Frames\<close>

definition MaxFrameSize :: nat where "MaxFrameSize = 10 * 1024 * 1024"
definition LengthPrefixSize :: nat where "LengthPrefixSize = 4"

text \<open>
  An \<^verbatim>\<open>io.Writer\<close> is a state and a \<^verbatim>\<open>Write\<close> that takes all the bytes or fails; an \<^verbatim>\<open>io.Reader\<close> is the
  bytes still to come, and \<^verbatim>\<open>io.ReadFull\<close> takes exactly \<open>n\<close> of them or fails.
\<close>

definition WriteFrame :: "('s \<Rightarrow> bytes \<Rightarrow> err + 's) \<Rightarrow> 's \<Rightarrow> bytes \<Rightarrow> err + 's" where
  "WriteFrame write w data =
     (if length data > MaxFrameSize
      then Inl (PlainError (''frame too large: '' @ show_nat (length data) @ '' > '' @ show_nat MaxFrameSize))
      else case write w (PutUint32 (word_of_nat (length data))) of
        Inl e \<Rightarrow> Inl (Wrapped ''write frame length: '' e [])
      | Inr w' \<Rightarrow>
          (case write w' data of
             Inl e \<Rightarrow> Inl (Wrapped ''write frame data: '' e [])
           | Inr w'' \<Rightarrow> Inr w''))"

definition ReadFull :: "nat \<Rightarrow> bytes \<Rightarrow> err + (bytes \<times> bytes)" where
  "ReadFull n r =
     (if n \<le> length r then Inr (take n r, drop n r)
      else if r = [] then Inl (PlainError ''EOF'')
      else Inl (PlainError ''unexpected EOF''))"

definition ReadFrame :: "bytes \<Rightarrow> err + (bytes \<times> bytes)" where
  "ReadFrame r =
     (case ReadFull LengthPrefixSize r of
        Inl e \<Rightarrow> Inl (Wrapped ''read frame length: '' e [])
      | Inr (lenBuf, r') \<Rightarrow>
          (let len = unat (Uint32 lenBuf) in
           if len > MaxFrameSize
           then Inl (PlainError (''frame too large: '' @ show_nat len @ '' > '' @ show_nat MaxFrameSize))
           else case ReadFull len r' of
             Inl e \<Rightarrow> Inl (Wrapped ''read frame data: '' e [])
           | Inr (data, r'') \<Rightarrow> Inr (data, r'')))"

text \<open>A writer over a byte buffer, which never fails, and the bytes one frame puts on it.\<close>

definition buffer_write :: "bytes \<Rightarrow> bytes \<Rightarrow> err + bytes" where
  "buffer_write w p = Inr (w @ p)"

definition frame_bytes :: "bytes \<Rightarrow> bytes" where
  "frame_bytes data = PutUint32 (word_of_nat (length data)) @ data"

lemma WriteFrame_buffer:
  "length data \<le> MaxFrameSize \<Longrightarrow> WriteFrame buffer_write w data = Inr (w @ frame_bytes data)"
  by (simp add: WriteFrame_def buffer_write_def frame_bytes_def)

lemma unat_length_u32:
  assumes "n < 2 ^ 32"
  shows "unat (word_of_nat n :: u32) = n"
  using assms by (simp add: unat_of_nat)

lemma MaxFrameSize_u32: "n \<le> MaxFrameSize \<Longrightarrow> n < 2 ^ 32"
  by (simp add: MaxFrameSize_def)

lemma ReadFrame_frame_bytes:
  assumes "length data \<le> MaxFrameSize"
  shows "ReadFrame (frame_bytes data @ rest) = Inr (data, rest)"
proof -
  have "ReadFull LengthPrefixSize (frame_bytes data @ rest)
      = Inr (PutUint32 (word_of_nat (length data)), data @ rest)"
    by (simp add: ReadFull_def frame_bytes_def LengthPrefixSize_def)
  moreover have "unat (Uint32 (PutUint32 (word_of_nat (length data)))) = length data"
    using Uint32_PutUint32 [of _ "[]"] unat_length_u32 [OF MaxFrameSize_u32 [OF assms]] by simp
  ultimately show ?thesis
    using assms by (simp add: ReadFrame_def ReadFull_def)
qed

lemma ReadFrame_bound: "ReadFrame r = Inr (data, rest) \<Longrightarrow> length data \<le> MaxFrameSize"
  by (auto simp: ReadFrame_def ReadFull_def Let_def split: if_splits sum.splits prod.splits)


section \<open>Streams of encoded values\<close>

text \<open>
  The contract of a self-delimiting encoding: decoding takes back exactly the value that was
  written and leaves what follows. Any number of values written one after another is then read
  back in order.
\<close>

fun read_many :: "(bytes \<Rightarrow> err + ('a \<times> bytes)) \<Rightarrow> nat \<Rightarrow> bytes \<Rightarrow> err + ('a list \<times> bytes)" where
  "read_many dec 0 r = Inr ([], r)"
| "read_many dec (Suc n) r =
     (case dec r of
        Inl e \<Rightarrow> Inl e
      | Inr (x, r') \<Rightarrow>
          (case read_many dec n r' of Inl e \<Rightarrow> Inl e | Inr (xs, r'') \<Rightarrow> Inr (x # xs, r'')))"

locale stream_codec =
  fixes enc :: "'a \<Rightarrow> bytes"
    and dec :: "bytes \<Rightarrow> err + ('a \<times> bytes)"
    and ok :: "'a \<Rightarrow> bool"
  assumes dec_enc: "ok x \<Longrightarrow> dec (enc x @ rest) = Inr (x, rest)"
begin

lemma read_many_concat:
  "list_all ok xs \<Longrightarrow> read_many dec (length xs) (concat (map enc xs) @ rest) = Inr (xs, rest)"
  by (induction xs) (simp_all add: dec_enc)

lemma enc_prefix_free:
  assumes "ok x" "ok y" "enc x @ r = enc y @ s"
  shows "x = y \<and> r = s"
proof -
  have "Inr (x, r) = dec (enc x @ r)" using assms(1) by (simp only: dec_enc)
  also have "\<dots> = dec (enc y @ s)" by (simp only: assms(3))
  also have "\<dots> = Inr (y, s)" using assms(2) by (simp only: dec_enc)
  finally show ?thesis by simp
qed

end

interpretation frames: stream_codec frame_bytes ReadFrame "\<lambda>data. length data \<le> MaxFrameSize"
  by unfold_locales (rule ReadFrame_frame_bytes)

text \<open>All the frames of a session, as the writer leaves them.\<close>

fun write_frames :: "bytes list \<Rightarrow> bytes \<Rightarrow> err + bytes" where
  "write_frames [] w = Inr w"
| "write_frames (d # ds) w =
     (case WriteFrame buffer_write w d of Inl e \<Rightarrow> Inl e | Inr w' \<Rightarrow> write_frames ds w')"

lemma write_frames_concat:
  assumes "write_frames ds w = Inr w'"
  shows "list_all (\<lambda>d. length d \<le> MaxFrameSize) ds \<and> w' = w @ concat (map frame_bytes ds)"
  using assms
proof (induction ds arbitrary: w)
  case Nil
  then show ?case by simp
next
  case (Cons d ds)
  show ?case
  proof (cases "length d \<le> MaxFrameSize")
    case True
    with Cons.prems Cons.IH [of "w @ frame_bytes d"] show ?thesis
      by (simp add: WriteFrame_buffer)
  next
    case False
    with Cons.prems show ?thesis by (simp add: WriteFrame_def)
  qed
qed


section \<open>The compound retrieve response\<close>

datatype 'a go = Return 'a | Error err | Panic

record RetrieveResponse =
  Messages :: "Message list"
  HasMore :: bool

definition response_meta :: "RetrieveResponse \<Rightarrow> json" where
  "response_meta resp =
     JObj [(''hasMore'', JBool (HasMore resp)), (''messageCount'', JNum (int (length (Messages resp))))]"

definition EncodeRetrieveResponse :: "json_text \<Rightarrow> RetrieveResponse \<Rightarrow> bytes" where
  "EncodeRetrieveResponse T resp =
     (let metaBytes = json_enc T (response_meta resp);
          encodedMsgs = map (ToJSON_bytes T) (Messages resp) in
      PutUint32 (word_of_nat (length metaBytes)) @ metaBytes
      @ concat (map (\<lambda>msgBytes. PutUint32 (word_of_nat (length msgBytes)) @ msgBytes) encodedMsgs))"

text \<open>\<^verbatim>\<open>data[lo:hi]\<close>: a panic unless the bounds are in order and within the slice.\<close>

definition slice :: "bytes \<Rightarrow> nat \<Rightarrow> nat \<Rightarrow> bytes go" where
  "slice data lo hi = (if lo \<le> hi \<and> hi \<le> length data then Return (take (hi - lo) (drop lo data)) else Panic)"

definition dec_meta :: "json \<Rightarrow> (int \<times> bool) option" where
  "dec_meta j =
     (case (case j of JObj kvs \<Rightarrow> Some kvs | JNull \<Rightarrow> Some [] | _ \<Rightarrow> None) of
        None \<Rightarrow> None
      | Some kvs \<Rightarrow>
          do { n \<leftarrow> json_field dec_int64 0 ''messageCount'' kvs;
               hasMore \<leftarrow> json_field dec_bool False ''hasMore'' kvs;
               Some (n, hasMore) })"

text \<open>
  The message loop, \<open>n\<close> messages to go. The bound is compared in \<^verbatim>\<open>uint32\<close> arithmetic and the
  slice taken in \<^verbatim>\<open>int\<close> arithmetic, as written.
\<close>

fun decode_messages :: "json_text \<Rightarrow> bytes \<Rightarrow> nat \<Rightarrow> nat \<Rightarrow> Message list go" where
  "decode_messages T data offset 0 = Return []"
| "decode_messages T data offset (Suc n) =
     (if length data < offset + LengthPrefixSize
      then Error (PlainError ''retrieve response truncated at message length'')
      else
        let msgLen = Uint32 (take LengthPrefixSize (drop offset data));
            off = offset + LengthPrefixSize in
        if (word_of_nat (length data) :: u32) < word_of_nat off + msgLen
        then Error (PlainError ''retrieve response truncated at message data'')
        else case slice data off (off + unat msgLen) of
          Panic \<Rightarrow> Panic
        | Error e \<Rightarrow> Error e
        | Return msgData \<Rightarrow>
            (case MessageFromJSON_bytes T msgData of
               Inl e \<Rightarrow> Error (Wrapped ''decode message: '' e [])
             | Inr msg \<Rightarrow>
                 (case decode_messages T data (off + unat msgLen) n of
                    Return msgs \<Rightarrow> Return (msg # msgs)
                  | r \<Rightarrow> r)))"

definition DecodeRetrieveResponse :: "json_text \<Rightarrow> bytes \<Rightarrow> RetrieveResponse go" where
  "DecodeRetrieveResponse T data =
     (if length data < LengthPrefixSize then Error (PlainError ''retrieve response too short'')
      else
        let metaLen = Uint32 (take LengthPrefixSize data);
            offset = LengthPrefixSize in
        if (word_of_nat (length data) :: u32) < word_of_nat offset + metaLen
        then Error (PlainError ''retrieve response truncated at metadata'')
        else case slice data offset (offset + unat metaLen) of
          Panic \<Rightarrow> Panic
        | Error e \<Rightarrow> Error e
        | Return metaData \<Rightarrow>
            (case json_dec T metaData of
               Inl e \<Rightarrow> Error (Wrapped ''decode response metadata: '' e [])
             | Inr j \<Rightarrow>
                 (case dec_meta j of
                    None \<Rightarrow> Error (Wrapped ''decode response metadata: '' (JsonUnmarshalTypeError ''metadata'') [])
                  | Some (count, hasMore) \<Rightarrow>
                      (case decode_messages T data (offset + unat metaLen) (nat count) of
                         Return msgs \<Rightarrow> Return \<lparr>Messages = msgs, HasMore = hasMore\<rparr>
                       | Error e \<Rightarrow> Error e
                       | Panic \<Rightarrow> Panic))))"

definition message_ok :: "Message \<Rightarrow> bool" where
  "message_ok m \<longleftrightarrow> message_utf8 m \<and> message_int64 m"

lemma slice_middle: "slice (xs @ ys @ zs) (length xs) (length xs + length ys) = Return ys"
  by (simp add: slice_def)

lemma u32_no_wrap:
  assumes "off + n \<le> len" "len < 2 ^ 32"
  shows "\<not> (word_of_nat len :: u32) < word_of_nat off + word_of_nat n"
proof -
  have "unat (word_of_nat off + word_of_nat n :: u32) = off + n"
    using assms unat_length_u32 [of "off + n"] by (simp del: unsigned_of_nat)
  moreover have "unat (word_of_nat len :: u32) = len"
    using assms(2) by (rule unat_length_u32)
  ultimately show ?thesis using assms(1) by (simp add: word_less_nat_alt del: unsigned_of_nat)
qed

text \<open>A length-prefixed block at an offset is read back, whatever precedes and follows it.\<close>

lemma length_prefix_at:
  assumes "data = pre @ (PutUint32 (word_of_nat (length b)) @ b) @ post" "length data < 2 ^ 32"
  shows "Uint32 (take LengthPrefixSize (drop (length pre) data)) = word_of_nat (length b)"
    and "\<not> length data < length pre + LengthPrefixSize"
    and "\<not> (word_of_nat (length data) :: u32) < word_of_nat (length pre + LengthPrefixSize) + word_of_nat (length b)"
    and "slice data (length pre + LengthPrefixSize)
           (length pre + LengthPrefixSize + unat (word_of_nat (length b) :: u32)) = Return b"
proof -
  have len: "length data = length pre + 4 + length b + length post"
    using assms(1) by simp
  show "Uint32 (take LengthPrefixSize (drop (length pre) data)) = word_of_nat (length b)"
    using assms(1) Uint32_PutUint32 [of _ "[]"] by (simp add: LengthPrefixSize_def)
  show "\<not> length data < length pre + LengthPrefixSize"
    using len by (simp add: LengthPrefixSize_def)
  show "\<not> (word_of_nat (length data) :: u32) < word_of_nat (length pre + LengthPrefixSize) + word_of_nat (length b)"
    by (rule u32_no_wrap) (use len assms(2) in \<open>simp_all add: LengthPrefixSize_def\<close>)
  have "unat (word_of_nat (length b) :: u32) = length b"
    by (rule unat_length_u32) (use len assms(2) in simp)
  then show "slice data (length pre + LengthPrefixSize)
      (length pre + LengthPrefixSize + unat (word_of_nat (length b) :: u32)) = Return b"
    using slice_middle [of "pre @ PutUint32 (word_of_nat (length b))" b post] assms(1)
    by (simp add: LengthPrefixSize_def)
qed

abbreviation msg_block :: "json_text \<Rightarrow> Message \<Rightarrow> bytes" where
  "msg_block T m \<equiv> PutUint32 (word_of_nat (length (ToJSON_bytes T m))) @ ToJSON_bytes T m"

lemma decode_messages_blocks:
  assumes "json_text_ok T (map ToJSON ms)" "list_all message_ok ms"
    and "data = pre @ concat (map (msg_block T) ms)" "length data < 2 ^ 32"
  shows "decode_messages T data (length pre) (length ms) = Return ms"
  using assms(1,2,3)
proof (induction ms arbitrary: pre)
  case Nil
  then show ?case by simp
next
  case (Cons m ms)
  have d: "data = pre @ msg_block T m @ concat (map (msg_block T) ms)"
    using Cons.prems(3) by simp
  have m: "MessageFromJSON_bytes T (ToJSON_bytes T m) = Inr m"
    using Cons.prems(1,2) by (simp add: message_ok_def MessageFromJSON_bytes_ToJSON json_text_ok_def)
  have ulen: "unat (word_of_nat (length (ToJSON_bytes T m)) :: u32) = length (ToJSON_bytes T m)"
    by (rule unat_length_u32) (use d assms(4) in auto)
  have "decode_messages T data (length (pre @ msg_block T m)) (length ms) = Return ms"
    by (rule Cons.IH) (use Cons.prems in \<open>simp_all add: json_text_ok_def\<close>)
  then show ?case
    using length_prefix_at [OF d assms(4)] m ulen
    by (simp add: Let_def LengthPrefixSize_def add.assoc del: unsigned_of_nat)
qed

lemma meta_fold: "fold_name ''hasMore'' = ''hasmore''" "fold_name ''messageCount'' = ''messagecount''"
  by code_simp+

lemma response_meta_utf8: "json_utf8 (response_meta resp)"
proof -
  have "valid_utf8 ''hasMore''" "valid_utf8 ''messageCount''" by code_simp+
  then show ?thesis by (simp add: response_meta_def)
qed

lemma dec_meta_response:
  assumes "length (Messages resp) < 2 ^ 63"
  shows "dec_meta (response_meta resp) = Some (int (length (Messages resp)), HasMore resp)"
  using assms
  by (simp add: dec_meta_def response_meta_def json_field_def field_values_def meta_fold Let_def
      order.trans [OF _ of_nat_0_le_iff])


lemma EncodeRetrieveResponse_blocks:
  "EncodeRetrieveResponse T resp =
     PutUint32 (word_of_nat (length (json_enc T (response_meta resp)))) @ json_enc T (response_meta resp)
     @ concat (map (msg_block T) (Messages resp))"
  by (simp add: EncodeRetrieveResponse_def Let_def comp_def)

lemma length_blocks_ge: "4 * length ms \<le> length (concat (map (msg_block T) ms))"
  by (induction ms) simp_all

lemma DecodeRetrieveResponse_Encode:
  assumes "json_text_ok T (response_meta resp # map ToJSON (Messages resp))"
    and "list_all message_ok (Messages resp)"
    and "length (EncodeRetrieveResponse T resp) < 2 ^ 32"
  shows "DecodeRetrieveResponse T (EncodeRetrieveResponse T resp) = Return resp"
proof -
  let ?meta = "json_enc T (response_meta resp)" and ?blocks = "concat (map (msg_block T) (Messages resp))"
  let ?data = "EncodeRetrieveResponse T resp"
  have d: "?data = [] @ (PutUint32 (word_of_nat (length ?meta)) @ ?meta) @ ?blocks"
    by (simp add: EncodeRetrieveResponse_blocks)
  have bound: "length ?meta + length ?blocks + 4 < 2 ^ 32"
    using assms(3) unfolding d by simp
  have ulen: "unat (word_of_nat (length ?meta) :: u32) = length ?meta"
    by (rule unat_length_u32) (use bound in simp)
  have cnt: "length (Messages resp) < 2 ^ 63"
    using bound length_blocks_ge [of "Messages resp" T] by simp
  have meta: "json_dec T ?meta = Inr (response_meta resp)"
    using assms(1) response_meta_utf8 by (simp add: json_text_ok_def)
  have "decode_messages T ?data (length (PutUint32 (word_of_nat (length ?meta)) @ ?meta))
      (length (Messages resp)) = Return (Messages resp)"
    by (rule decode_messages_blocks)
      (use assms in \<open>simp_all add: json_text_ok_def EncodeRetrieveResponse_blocks\<close>)
  then show ?thesis
    using length_prefix_at [OF d assms(3)] ulen meta dec_meta_response [OF cnt]
    by (simp add: DecodeRetrieveResponse_def Let_def LengthPrefixSize_def del: unsigned_of_nat)
qed


section \<open>Properties\<close>

text \<open>
  Frames written one after another are read back in order, whole, and nothing of the stream
  is left: whatever was on the writer before, reading as many frames as were written from where
  they start returns exactly the data written.
\<close>

theorem frame_stream_roundtrip:
  assumes "write_frames ds w = Inr w'"
  shows "read_many ReadFrame (length ds) (drop (length w) w') = Inr (ds, [])"
  using write_frames_concat [OF assms] frames.read_many_concat [of ds "[]"] by simp

theorem frame_stream_roundtrip_witness:
  "write_frames [[1, 2, 3], []] [9] = Inr [9, 0, 0, 0, 3, 1, 2, 3, 0, 0, 0, 0]
   \<and> read_many ReadFrame 2 [0, 0, 0, 3, 1, 2, 3, 0, 0, 0, 0] = Inr ([[1, 2, 3], []], [])"
proof -
  have w: "write_frames [[1, 2, 3], []] [9] = Inr [9, 0, 0, 0, 3, 1, 2, 3, 0, 0, 0, 0]"
    by (simp add: WriteFrame_def buffer_write_def PutUint32_def MaxFrameSize_def)
  show ?thesis using w frame_stream_roundtrip [OF w] by (simp add: numeral_2_eq_2)
qed

text \<open>
  C18. A retrieve response survives the wire: decoding the compound frame the server builds gives
  back the messages, in order, and the has-more flag, for every page of messages whose strings
  are UTF-8 and whose frame is below 4 GiB (a frame is at most 10 MiB).
\<close>

theorem compound_response_roundtrip:
  assumes "json_text_ok T (response_meta resp # map ToJSON (Messages resp))"
    and "list_all message_ok (Messages resp)"
    and "length (EncodeRetrieveResponse T resp) < 2 ^ 32"
  shows "DecodeRetrieveResponse T (EncodeRetrieveResponse T resp) = Return resp"
  by (rule DecodeRetrieveResponse_Encode [OF assms])

definition example_message :: Message where
  "example_message = NewMessage ''m1'' 5 ''alice'' ''bob'' [104, 105]"

definition example_response :: RetrieveResponse where
  "example_response = \<lparr>Messages = [example_message], HasMore = True\<rparr>"

text \<open>A JSON text codec that knows the two values of the example and nothing else.\<close>

definition example_text :: json_text where
  "example_text = \<lparr>
     json_enc = (\<lambda>j. if j = ToJSON example_message then [7, 7] else [1]),
     json_dec = (\<lambda>b. if b = [7, 7] then Inr (ToJSON example_message)
                     else Inr (response_meta example_response))\<rparr>"

lemma example_text_ok:
  "json_text_ok example_text (response_meta example_response # map ToJSON (Messages example_response))"
  by (simp add: json_text_ok_def example_text_def example_response_def response_meta_def ToJSON_def
      message_fields_def)

lemma example_message_ok: "message_ok example_message"
  unfolding message_ok_def message_utf8_def message_int64_def int64_ok_def example_message_def NewMessage_def
  by (simp add: valid_utf8_def)

theorem compound_response_roundtrip_witness:
  "DecodeRetrieveResponse example_text (EncodeRetrieveResponse example_text example_response)
     = Return example_response"
proof (rule compound_response_roundtrip [OF example_text_ok])
  show "list_all message_ok (Messages example_response)"
    using example_message_ok by (simp add: example_response_def)
  show "length (EncodeRetrieveResponse example_text example_response) < 2 ^ 32"
    by (simp add: EncodeRetrieveResponse_blocks example_response_def ToJSON_bytes_def example_text_def)
qed

text \<open>
  A length at an offset wraps when the sum of the two passes 32 bits and what is left of it is within
  the data. The first \<open>k\<close> messages from an offset end at \<open>skip_messages\<close>, if each of them is complete
  and decodes.
\<close>

definition length_wraps :: "bytes \<Rightarrow> nat \<Rightarrow> u32 \<Rightarrow> bool" where
  "length_wraps data off n \<longleftrightarrow> 2 ^ 32 \<le> off + unat n \<and> off + unat n - 2 ^ 32 \<le> length data"

fun skip_messages :: "json_text \<Rightarrow> bytes \<Rightarrow> nat \<Rightarrow> nat \<Rightarrow> nat option" where
  "skip_messages T data offset 0 = Some offset"
| "skip_messages T data offset (Suc k) =
     (let off = offset + LengthPrefixSize; end = off + unat (Uint32 (take LengthPrefixSize (drop offset data)))
      in if end \<le> length data \<and> \<not> isl (MessageFromJSON_bytes T (take (end - off) (drop off data)))
         then skip_messages T data end k else None)"

definition message_wraps :: "json_text \<Rightarrow> bytes \<Rightarrow> nat \<Rightarrow> nat \<Rightarrow> bool" where
  "message_wraps T data offset n \<longleftrightarrow> (\<exists>k < n. \<exists>at. skip_messages T data offset k = Some at \<and> at + LengthPrefixSize \<le> length data
     \<and> length_wraps data (at + LengthPrefixSize) (Uint32 (take LengthPrefixSize (drop at data))))"

lemma checked_sum:
  assumes "length data < 2 ^ 32" "off \<le> length data"
  shows "(word_of_nat (length data) :: u32) < word_of_nat off + n \<longleftrightarrow> \<not> (off + unat n \<le> length data \<or> length_wraps data off n)"
proof -
  have n: "unat n < 2 ^ 32" using unsigned_less [of n, where 'a = nat] by simp
  have "unat (word_of_nat off + n :: u32) = (off + unat n) mod 2 ^ 32" by (simp add: unat_word_ariths unat_of_nat mod_simps)
  also have "\<dots> = (if off + unat n < 2 ^ 32 then off + unat n else off + unat n - 2 ^ 32)" using assms n by (simp add: mod_if)
  finally show ?thesis using assms by (auto simp: word_less_nat_alt unat_of_nat length_wraps_def)
qed

lemma message_wraps_Suc:
  "message_wraps T data offset (Suc n) \<longleftrightarrow>
     offset + LengthPrefixSize \<le> length data \<and> length_wraps data (offset + LengthPrefixSize) (Uint32 (take LengthPrefixSize (drop offset data)))
     \<or> (\<exists>off. skip_messages T data offset 1 = Some off \<and> message_wraps T data off n)"
proof -
  have step: "skip_messages T data offset (Suc k) = Option.bind (skip_messages T data offset 1) (\<lambda>off. skip_messages T data off k)" for k
    by (simp add: Let_def)
  have "(\<exists>k < Suc n. Q k) \<longleftrightarrow> Q 0 \<or> (\<exists>k < n. Q (Suc k))" for Q by (auto simp: less_Suc_eq_0_disj)
  then show ?thesis unfolding message_wraps_def by (simp only: step) (auto simp: bind_eq_Some_conv simp del: skip_messages.simps(2))
qed

lemma decode_messages_panics:
  assumes "length data < 2 ^ 32"
  shows "decode_messages T data offset n = Panic \<longleftrightarrow> message_wraps T data offset n"
proof (induction n arbitrary: offset)
  case 0
  then show ?case by (simp add: message_wraps_def)
next
  case (Suc n)
  let ?off = "offset + LengthPrefixSize" and ?len = "Uint32 (take LengthPrefixSize (drop offset data))"
  consider "length data < ?off" | "?off \<le> length data" "?off + unat ?len \<le> length data"
    | "?off \<le> length data" "length data < ?off + unat ?len" by linarith
  then show ?case
  proof cases
    case 2
    then have "\<not> length_wraps data ?off ?len" using assms by (auto simp: length_wraps_def)
    then show ?thesis
      using 2 Suc.IH [of "?off + unat ?len"] checked_sum [OF assms 2(1), of ?len]
      by (auto simp: message_wraps_Suc Let_def slice_def split: sum.splits go.splits)
  next
    case 3
    then show ?thesis using checked_sum [OF assms 3(1), of ?len] by (auto simp: message_wraps_Suc Let_def slice_def)
  qed (auto simp: message_wraps_Suc Let_def)
qed

text \<open>
  C19. The bound checks of the decoder are made in \<^verbatim>\<open>uint32\<close> arithmetic, where they wrap. Decoding a response of less
  than 4 GiB panics exactly when a length does so: the length of the metadata, or that of a message
  that is reached through complete messages that decode. Every other response is decoded or refused.
  A peer that answers a retrieve with such a length stops the client that decodes it.
\<close>

theorem DecodeRetrieveResponse_panics_iff:
  assumes "length data < 2 ^ 32"
  shows "DecodeRetrieveResponse T data = Panic \<longleftrightarrow>
    LengthPrefixSize \<le> length data
    \<and> (let metaLen = Uint32 (take LengthPrefixSize data); end = LengthPrefixSize + unat metaLen in
       length_wraps data LengthPrefixSize metaLen
       \<or> end \<le> length data \<and> (\<exists>j count hasMore. json_dec T (take (unat metaLen) (drop LengthPrefixSize data)) = Inr j
            \<and> dec_meta j = Some (count, hasMore) \<and> message_wraps T data end (nat count)))"
proof (cases "LengthPrefixSize \<le> length data")
  case True
  let ?len = "Uint32 (take LengthPrefixSize data)"
  have "LengthPrefixSize + unat ?len \<le> length data \<Longrightarrow> \<not> length_wraps data LengthPrefixSize ?len" using assms by (auto simp: length_wraps_def)
  then show ?thesis
    using True checked_sum [OF assms True, of ?len]
    by (auto simp: DecodeRetrieveResponse_def Let_def slice_def decode_messages_panics [OF assms, symmetric] split: sum.splits go.splits option.splits)
qed (simp add: DecodeRetrieveResponse_def)

definition refused_text :: json_text where
  "refused_text = \<lparr>json_enc = (\<lambda>_. []), json_dec = (\<lambda>_. Inl (PlainError []))\<rparr>"

theorem DecodeRetrieveResponse_panics_iff_witness:
  "DecodeRetrieveResponse refused_text [0xFF, 0xFF, 0xFF, 0xFC] = Panic
   \<and> DecodeRetrieveResponse refused_text [0xFF, 0xFF, 0xFF, 0xFB] \<noteq> Panic
   \<and> DecodeRetrieveResponse refused_text [0, 0, 0, 1, 0x7B] \<noteq> Panic"
  using DecodeRetrieveResponse_panics_iff [of "[0xFF, 0xFF, 0xFF, 0xFC]" refused_text]
    DecodeRetrieveResponse_panics_iff [of "[0xFF, 0xFF, 0xFF, 0xFB]" refused_text]
    DecodeRetrieveResponse_panics_iff [of "[0, 0, 0, 1, 0x7B]" refused_text]
  by (simp add: LengthPrefixSize_def length_wraps_def refused_text_def)

end
