(* ===== verification/Maa.thy ===== *)
theory Maa
  imports Mda_Access Gates Frame "HOL-Library.List_Lexorder" "HOL-Library.Char_ord"
begin

text \<open>
  The mail access agent (\<^verbatim>\<open>src/internal/protocol/maa/handler.go\<close>) with the requests and acks of
  \<^verbatim>\<open>src/pkg/wire/message.go\<close>: retrieving, acknowledging, flagging, expunging, deleting and claiming
  messages. A handler returns the response it sets (\<open>Inr\<close>) or the error it leaves to the response
  writer (\<open>Inl\<close>). Which operation a request names and how its decoder wraps an error is up to
  forge's router and deserialiser, which are parameters (\<open>forge_lib\<close>).
\<close>

section \<open>Requests\<close>

text \<open>Struct fields that are slices or pointers: null makes them nil.\<close>

definition json_ref :: "(json \<Rightarrow> 'a option) \<Rightarrow> 'a \<Rightarrow> string \<Rightarrow> (string \<times> json) list \<Rightarrow> 'a option" where
  "json_ref dec zero name kvs =
     (let vs = map snd (filter (\<lambda>kv. fold_name (fst kv) = fold_name name) kvs) in
      if list_all (\<lambda>v. v = JNull \<or> dec v \<noteq> None) vs
      then (if vs = [] \<or> last vs = JNull then Some zero else dec (last vs))
      else None)"

definition dec_ptr :: "(json \<Rightarrow> 'a option) \<Rightarrow> json \<Rightarrow> 'a option option" where
  "dec_ptr dec j = (case dec j of None \<Rightarrow> None | Some x \<Rightarrow> Some (Some x))"

fun dec_strings :: "json \<Rightarrow> string list option" where
  "dec_strings (JArr js) =
     (if list_all (\<lambda>j. j = JNull \<or> dec_string j \<noteq> None) js
      then Some (map (\<lambda>j. case dec_string j of Some s \<Rightarrow> s | None \<Rightarrow> []) js) else None)"
| "dec_strings _ = None"

record RetrieveRequest =
  rqPeerID :: string
  rqFolderPath :: string
  rqFromSequence :: "u64 option"
  rqMaxMessages :: "int option"
  rqMinPriority :: "MessagePriority option"

record UpdateFlagsRequest =
  ufMessageID :: string
  ufAddFlags :: u32
  ufRemoveFlags :: u32

datatype maa_request =
    RetrieveReq RetrieveRequest
  | MarkDeliveredReq "string list"
  | UpdateFlagsReq UpdateFlagsRequest
  | ExpungeReq string string
  | DeleteMessagesReq "string list"
  | ClaimReq string string

definition dec_RetrieveRequest :: "(string \<times> json) list \<Rightarrow> RetrieveRequest option" where
  "dec_RetrieveRequest kvs = do {
     pid \<leftarrow> json_field dec_string [] ''peerId'' kvs;
     fld \<leftarrow> json_field dec_string [] ''folderPath'' kvs;
     frm \<leftarrow> json_ref (dec_ptr dec_uint) None ''fromSequence'' kvs;
     mx \<leftarrow> json_ref (dec_ptr dec_int64) None ''maxMessages'' kvs;
     mp \<leftarrow> json_ref (dec_ptr dec_uint) None ''minPriority'' kvs;
     Some \<lparr>rqPeerID = pid, rqFolderPath = fld, rqFromSequence = frm, rqMaxMessages = mx, rqMinPriority = mp\<rparr> }"

definition dec_MarkDeliveredRequest :: "(string \<times> json) list \<Rightarrow> string list option" where
  "dec_MarkDeliveredRequest kvs = do {
     opn \<leftarrow> json_field dec_string [] ''operationType'' kvs;
     ids \<leftarrow> json_ref dec_strings [] ''messageIds'' kvs;
     fld \<leftarrow> json_field dec_string [] ''folderPath'' kvs;
     Some ids }"

definition dec_UpdateFlagsRequest :: "(string \<times> json) list \<Rightarrow> UpdateFlagsRequest option" where
  "dec_UpdateFlagsRequest kvs = do {
     opn \<leftarrow> json_field dec_string [] ''operationType'' kvs;
     mid \<leftarrow> json_field dec_string [] ''messageId'' kvs;
     a \<leftarrow> json_field dec_uint 0 ''addFlags'' kvs;
     r \<leftarrow> json_field dec_uint 0 ''removeFlags'' kvs;
     Some \<lparr>ufMessageID = mid, ufAddFlags = a, ufRemoveFlags = r\<rparr> }"

definition dec_ExpungeRequest :: "(string \<times> json) list \<Rightarrow> (string \<times> string) option" where
  "dec_ExpungeRequest kvs = do {
     opn \<leftarrow> json_field dec_string [] ''operationType'' kvs;
     pid \<leftarrow> json_field dec_string [] ''peerId'' kvs;
     fld \<leftarrow> json_field dec_string [] ''folderPath'' kvs;
     Some (pid, fld) }"

definition dec_DeleteMessagesRequest :: "(string \<times> json) list \<Rightarrow> string list option" where
  "dec_DeleteMessagesRequest kvs = do {
     opn \<leftarrow> json_field dec_string [] ''operationType'' kvs;
     json_ref dec_strings [] ''messageIds'' kvs }"

definition dec_ClaimRequest :: "(string \<times> json) list \<Rightarrow> (string \<times> string) option" where
  "dec_ClaimRequest kvs = do {
     opn \<leftarrow> json_field dec_string [] ''operationType'' kvs;
     pid \<leftarrow> json_field dec_string [] ''peerId'' kvs;
     fld \<leftarrow> json_field dec_string [] ''folderPath'' kvs;
     Some (pid, fld) }"

text \<open>
  \<^verbatim>\<open>defaultOperationType\<close>. A Go map keeps the last value of a key and is encoded in the order of its
  keys. A body of \<^verbatim>\<open>null\<close> leaves the map nil, and assigning to a nil map panics.
\<close>

definition map_fields :: "(string \<times> json) list \<Rightarrow> (string \<times> json) list" where
  "map_fields kvs = map (\<lambda>k. (k, the (map_of (rev kvs) k))) (sorted_list_of_set (set (map fst kvs)))"

definition defaultOperationType :: "json_text \<Rightarrow> bytes \<Rightarrow> bytes go" where
  "defaultOperationType T raw =
     (case object_fields T raw of
        None \<Rightarrow> Return raw
      | Some kvs \<Rightarrow>
          if json_field dec_string [] ''operationType'' kvs \<noteq> Some [] then Return raw
          else if json_dec T raw = Inr JNull then Panic
          else Return (json_enc T (JObj (map_fields (kvs @ [(''operationType'', JStr ''retrieve'')])))))"

record forge_lib =
  fgOperation :: "string \<Rightarrow> bytes \<Rightarrow> err + string"
  fgDecodeError :: "bytes \<Rightarrow> err"


section \<open>Responses\<close>

datatype maa_response =
    RawResponse bytes
  | ErrorResponse string int int
  | BareError string
  | MarkDeliveredAck bool int
  | UpdateFlagsAck bool "MessageFlags option" string
  | ExpungeAck bool int
  | DeleteMessagesAck bool int string

fun maa_StatusCode :: "maa_response \<Rightarrow> int option" where
  "maa_StatusCode (ErrorResponse e st r) = Some st"
| "maa_StatusCode _ = None"

definition error_response :: "err \<Rightarrow> maa_response" where
  "error_response e =
     (let (status, retryAfter) = Classify (Some e)
      in ErrorResponse (ClientMessage (Some e)) status (RetryAfterMs retryAfter))"

definition maaResponseWriter :: "err + maa_response \<Rightarrow> maa_response" where
  "maaResponseWriter r = (case r of Inl e \<Rightarrow> error_response e | Inr x \<Rightarrow> x)"

definition retrievePageBudget :: int where
  "retrievePageBudget = 10 * 1024 * 1024 - 64 * 1024"

definition encodeCompoundRetrieveResponse :: "json_text \<Rightarrow> Message list \<Rightarrow> bool \<Rightarrow> bytes" where
  "encodeCompoundRetrieveResponse T messages hasMore =
     (let metaBytes = json_enc T (JObj [(''hasMore'', JBool hasMore), (''messageCount'', JNum (int (length messages)))]);
          encodedMsgs = map (ToJSON_bytes T) messages;
          buf0 = PutUint32 (word_of_nat (length metaBytes)) @ metaBytes
      in fold (\<lambda>msgBytes buf. buf @ PutUint32 (word_of_nat (length msgBytes)) @ msgBytes) encodedMsgs buf0)"


section \<open>Handlers\<close>

type_synonym ('c, 'm) maa_handler = "('c, 'm) MailboxServer \<Rightarrow> (err + maa_response) \<times> ('c, 'm) MailboxServer"

definition retrieve_opts :: "RetrieveRequest \<Rightarrow> RetrieveOpts" where
  "retrieve_opts req =
     \<lparr>optFromSequence = map_option sint (rqFromSequence req), optMaxMessages = rqMaxMessages req,
      optMinPriority = rqMinPriority req, optMaxBytes = retrievePageBudget\<rparr>"

definition handleRetrieve :: "('c, 'm, 'l) libs \<Rightarrow> peer_id \<Rightarrow> RetrieveRequest \<Rightarrow> ('c, 'm) maa_handler" where
  "handleRetrieve E caller req s =
     (let folderPath = (if rqFolderPath req \<noteq> [] then rqFolderPath req else ''inbox'') in
      case peer_Decode (libPeer E) (rqPeerID req) of
        None \<Rightarrow> (Inr (BareError ''invalid peer ID''), s)
      | Some owner \<Rightarrow>
          (case Retrieve E \<lparr>OwnerID = owner, addrFolderPath = folderPath, addrType = 0\<rparr> caller (retrieve_opts req) s of
             (Inl e, s1) \<Rightarrow> (Inl e, s1)
           | (Inr (messages, hasMore), s1) \<Rightarrow>
               (Inr (RawResponse (encodeCompoundRetrieveResponse (libText E) messages hasMore)), s1)))"

definition handleMarkDelivered :: "('c, 'm, 'l) libs \<Rightarrow> peer_id \<Rightarrow> string list \<Rightarrow> ('c, 'm) maa_handler" where
  "handleMarkDelivered E caller ids s =
     (case MarkDelivered E caller ids s of
        (Inl e, s1) \<Rightarrow> (Inr (MarkDeliveredAck False 0), s1)
      | (Inr n, s1) \<Rightarrow> (Inr (MarkDeliveredAck True n), s1))"

definition handleUpdateFlags :: "('c, 'm, 'l) libs \<Rightarrow> peer_id \<Rightarrow> UpdateFlagsRequest \<Rightarrow> ('c, 'm) maa_handler" where
  "handleUpdateFlags E caller req s =
     (case UpdateFlags E caller (ufMessageID req) (ufAddFlags req) (ufRemoveFlags req) s of
        (Inl e, s1) \<Rightarrow> (Inr (UpdateFlagsAck False None ''failed to update flags''), s1)
      | (Inr None, s1) \<Rightarrow> (Inr (UpdateFlagsAck False None ''message not found''), s1)
      | (Inr (Some fl), s1) \<Rightarrow> (Inr (UpdateFlagsAck True (Some fl) []), s1))"

definition count_or_zero :: "err + int \<Rightarrow> int" where
  "count_or_zero r = (case r of Inl _ \<Rightarrow> 0 | Inr n \<Rightarrow> n)"

definition handleExpunge :: "('c, 'm, 'l) libs \<Rightarrow> peer_id \<Rightarrow> string \<Rightarrow> string \<Rightarrow> ('c, 'm) maa_handler" where
  "handleExpunge E caller peerID folderPath s =
     (case RequireSelf (libPeer E) caller peerID ''peerId'' of
        Some e \<Rightarrow> (Inl e, s)
      | None \<Rightarrow>
          if folderPath \<noteq> []
          then (case with_db (pg_FindMailbox (libPeer E) caller folderPath) s of
                  (Inr (Some record), s1) \<Rightarrow>
                    (let (r, s2) = with_db (pg_ExpungeMailbox (mbID record)) s1 in (Inr (ExpungeAck True (count_or_zero r)), s2))
                | (_, s1) \<Rightarrow> (Inr (ExpungeAck True 0), s1))
          else (let (r, s1) = with_db (pg_ExpungeAllMailboxes (libPeer E) caller) s in (Inr (ExpungeAck True (count_or_zero r)), s1)))"

definition handleDeleteMessages :: "('c, 'm, 'l) libs \<Rightarrow> peer_id \<Rightarrow> string list \<Rightarrow> ('c, 'm) maa_handler" where
  "handleDeleteMessages E caller ids s =
     (case DeleteMessages E caller ids s of
        (Inl e, s1) \<Rightarrow> (Inr (DeleteMessagesAck False 0 ''failed to delete messages''), s1)
      | (Inr n, s1) \<Rightarrow> (Inr (DeleteMessagesAck True n []), s1))"

definition handleClaim :: "('c, 'm, 'l) libs \<Rightarrow> peer_id \<Rightarrow> string \<Rightarrow> string \<Rightarrow> ('c, 'm) maa_handler" where
  "handleClaim E caller peerID folderPath s =
     (case peer_Decode (libPeer E) peerID of
        None \<Rightarrow> (Inr (ErrorResponse ''invalid peer ID'' StatusBadRequest 0), s)
      | Some owner \<Rightarrow>
          (case NewMailboxAddress owner folderPath MailboxClaim of
             Inl e \<Rightarrow> (Inr (ErrorResponse ''invalid folder path'' StatusBadRequest 0), s)
           | Inr addr \<Rightarrow>
               (case Claim E addr caller s of
                  (Inl e, s1) \<Rightarrow> (Inl e, s1)
                | (Inr m, s1) \<Rightarrow>
                    (Inr (RawResponse (encodeCompoundRetrieveResponse (libText E) (case m of None \<Rightarrow> [] | Some x \<Rightarrow> [x]) False)), s1))))"

fun maa_handle :: "('c, 'm, 'l) libs \<Rightarrow> peer_id \<Rightarrow> maa_request \<Rightarrow> ('c, 'm) maa_handler" where
  "maa_handle E caller (RetrieveReq r) = handleRetrieve E caller r"
| "maa_handle E caller (MarkDeliveredReq ids) = handleMarkDelivered E caller ids"
| "maa_handle E caller (UpdateFlagsReq r) = handleUpdateFlags E caller r"
| "maa_handle E caller (ExpungeReq p f) = handleExpunge E caller p f"
| "maa_handle E caller (DeleteMessagesReq ids) = handleDeleteMessages E caller ids"
| "maa_handle E caller (ClaimReq p f) = handleClaim E caller p f"

text \<open>
  The routes: the decoder of each operation. An operation the table does not name is the router's
  error to report; the decoder of a retrieve wraps the error of the JSON package itself.
\<close>

definition maa_decode :: "json_text \<Rightarrow> forge_lib \<Rightarrow> string \<Rightarrow> bytes \<Rightarrow> err + maa_request" where
  "maa_decode T F opn raw =
     (let decoded = (\<lambda>dec. case Option.bind (object_fields T raw) dec of None \<Rightarrow> Inl (fgDecodeError F raw) | Some r \<Rightarrow> Inr r) in
      if opn = ''retrieve''
      then (case Option.bind (object_fields T raw) dec_RetrieveRequest of
              None \<Rightarrow> Inl (Wrapped ''invalid retrieve request: ''
                 (case json_dec T raw of Inl e \<Rightarrow> e | Inr _ \<Rightarrow> JsonUnmarshalTypeError ''retrieve request'') [])
            | Some r \<Rightarrow> Inr (RetrieveReq r))
      else if opn = ''markDelivered'' then decoded (\<lambda>kvs. map_option MarkDeliveredReq (dec_MarkDeliveredRequest kvs))
      else if opn = ''updateFlags'' then decoded (\<lambda>kvs. map_option UpdateFlagsReq (dec_UpdateFlagsRequest kvs))
      else if opn = ''expunge'' then decoded (\<lambda>kvs. map_option (\<lambda>(p, f). ExpungeReq p f) (dec_ExpungeRequest kvs))
      else if opn = ''deleteMessages'' then decoded (\<lambda>kvs. map_option DeleteMessagesReq (dec_DeleteMessagesRequest kvs))
      else if opn = ''claim'' then decoded (\<lambda>kvs. map_option (\<lambda>(p, f). ClaimReq p f) (dec_ClaimRequest kvs))
      else Inl (ErrUnknownOperation opn))"

definition maa_access :: "('c, 'm, 'l) libs \<Rightarrow> forge_lib \<Rightarrow> gate_env \<Rightarrow> peer_id \<Rightarrow> bytes \<Rightarrow> ('c, 'm) MailboxServer \<Rightarrow> maa_response go \<times> ('c, 'm) MailboxServer" where
  "maa_access E F G caller raw s =
     (case access_gates (libPeer E) (libText E) G caller raw of
        Some e \<Rightarrow> (Return (maaResponseWriter (Inl e)), s)
      | None \<Rightarrow>
          (case defaultOperationType (libText E) raw of
             Return raw' \<Rightarrow>
               (case fgOperation F ''operationType'' raw' of
                  Inl e \<Rightarrow> (Return (maaResponseWriter (Inl e)), s)
                | Inr opn \<Rightarrow>
                    (case maa_decode (libText E) F opn raw' of
                       Inl e \<Rightarrow> (Return (maaResponseWriter (Inl e)), s)
                     | Inr req \<Rightarrow> (let (r, s1) = maa_handle E caller req s in (Return (maaResponseWriter r), s1))))
           | _ \<Rightarrow> (Panic, s)))"

end
