(* ===== verification/Mma.thy ===== *)
theory Mma
  imports Maa
begin

text \<open>
  The mailbox management agent (\<^verbatim>\<open>src/internal/protocol/mma/handler.go\<close>): creating, configuring and
  deleting mailboxes, granting and revoking access to them, and the views of mailboxes, grants and
  server capacity. As in \<^verbatim>\<open>Maa\<close>, a handler returns the response it sets (\<open>Inr\<close>) or the error it leaves
  to the response writer (\<open>Inl\<close>), and the operation a request names is read by forge's router.
\<close>

section \<open>Requests\<close>

record AdminRequest =
  arOperationType :: string
  arOwnerPeerID :: string
  arFolderPath :: string
  arAddress :: string
  arType :: string
  arMailboxType :: string
  arMaxMessages :: "int option"
  arRetentionDays :: "int option"
  arRetentionCount :: "int option"
  arGranteePeerID :: string
  arTargetPeerID :: string
  arAccessMode :: string

definition dec_AdminRequest :: "(string \<times> json) list \<Rightarrow> AdminRequest option" where
  "dec_AdminRequest kvs = do {
     opn \<leftarrow> json_field dec_string [] ''operationType'' kvs;
     own \<leftarrow> json_field dec_string [] ''ownerPeerId'' kvs;
     fld \<leftarrow> json_field dec_string [] ''folderPath'' kvs;
     adr \<leftarrow> json_field dec_string [] ''address'' kvs;
     typ \<leftarrow> json_field dec_string [] ''type'' kvs;
     mbt \<leftarrow> json_field dec_string [] ''mailboxType'' kvs;
     mx \<leftarrow> json_ref (dec_ptr dec_int64) None ''maxMessages'' kvs;
     rd \<leftarrow> json_ref (dec_ptr dec_int64) None ''retentionDays'' kvs;
     rc \<leftarrow> json_ref (dec_ptr dec_int64) None ''retentionCount'' kvs;
     grt \<leftarrow> json_field dec_string [] ''granteePeerId'' kvs;
     tgt \<leftarrow> json_field dec_string [] ''targetPeerId'' kvs;
     acc \<leftarrow> json_field dec_string [] ''accessMode'' kvs;
     Some \<lparr>arOperationType = opn, arOwnerPeerID = own, arFolderPath = fld, arAddress = adr, arType = typ,
           arMailboxType = mbt, arMaxMessages = mx, arRetentionDays = rd, arRetentionCount = rc,
           arGranteePeerID = grt, arTargetPeerID = tgt, arAccessMode = acc\<rparr> }"

definition omit_string :: "string \<Rightarrow> string \<Rightarrow> (string \<times> json) list" where
  "omit_string name s = omitempty (s = []) name (JStr s)"

definition omit_int :: "string \<Rightarrow> int option \<Rightarrow> (string \<times> json) list" where
  "omit_int name v = (case v of None \<Rightarrow> [] | Some i \<Rightarrow> [(name, JNum i)])"

definition admin_json :: "AdminRequest \<Rightarrow> (string \<times> json) list" where
  "admin_json r =
     [(''operationType'', JStr (arOperationType r))]
     @ omit_string ''ownerPeerId'' (arOwnerPeerID r) @ omit_string ''folderPath'' (arFolderPath r)
     @ omit_string ''address'' (arAddress r) @ omit_string ''type'' (arType r)
     @ omit_string ''mailboxType'' (arMailboxType r) @ omit_int ''maxMessages'' (arMaxMessages r)
     @ omit_int ''retentionDays'' (arRetentionDays r) @ omit_int ''retentionCount'' (arRetentionCount r)
     @ omit_string ''granteePeerId'' (arGranteePeerID r) @ omit_string ''targetPeerId'' (arTargetPeerID r)
     @ omit_string ''accessMode'' (arAccessMode r)"

definition normalize :: "AdminRequest \<Rightarrow> AdminRequest" where
  "normalize r =
     (let r1 = (if arFolderPath r = [] \<and> arAddress r \<noteq> []
                then (case index_char (CHR ''/'') (arAddress r) of
                        None \<Rightarrow> r | Some i \<Rightarrow> r\<lparr>arFolderPath := drop (Suc i) (arAddress r)\<rparr>)
                else r);
          r2 = (if arMailboxType r1 = [] \<and> arType r1 \<noteq> [] then r1\<lparr>arMailboxType := arType r1\<rparr> else r1)
      in if arGranteePeerID r2 = [] \<and> arTargetPeerID r2 \<noteq> [] then r2\<lparr>arGranteePeerID := arTargetPeerID r2\<rparr> else r2)"

definition dartNormalize :: "json_text \<Rightarrow> bytes \<Rightarrow> err + bytes" where
  "dartNormalize T raw =
     (case Option.bind (object_fields T raw) dec_AdminRequest of
        None \<Rightarrow> Inl (Wrapped ''invalid request format: ''
                 (case json_dec T raw of Inl e \<Rightarrow> e | Inr _ \<Rightarrow> JsonUnmarshalTypeError ''admin request'') [])
      | Some req \<Rightarrow> Inr (json_enc T (JObj (admin_json (normalize req)))))"


section \<open>Responses\<close>

record MailboxInfo =
  miFolderPath :: string
  miType :: string
  miMaxMessages :: int
  miRetentionDays :: int
  miCreatedAt :: millis

record ACLEntry =
  aePeer :: string
  aeAccessMode :: string
  aeGrantedAt :: millis

record AdminResponse =
  adSuccess :: bool
  adErrorMessage :: string
  adStatus :: int
  adRetryAfterMs :: int
  adMailboxes :: "MailboxInfo list"
  adACL :: "ACLEntry list"
  adCapacity :: "ServerCapacity option"

text \<open>The view of one mailbox is a map of its own shape, with the fields of the record and its count.\<close>

datatype admin_reply = AdminReply AdminResponse | InfoReply MailboxRecord int

definition admin_ok :: AdminResponse where
  "admin_ok = \<lparr>adSuccess = True, adErrorMessage = [], adStatus = 0, adRetryAfterMs = 0, adMailboxes = [], adACL = [], adCapacity = None\<rparr>"

definition admin_StatusCode :: "AdminResponse \<Rightarrow> int" where
  "admin_StatusCode r =
     (if adStatus r \<noteq> 0 then adStatus r else if adSuccess r then StatusOK else StatusBadRequest)"

definition admin_error :: "string \<Rightarrow> err \<Rightarrow> AdminResponse" where
  "admin_error message e =
     (let (status, retryAfter) = Classify (Some e)
      in admin_ok\<lparr>adSuccess := False, adErrorMessage := message, adStatus := status, adRetryAfterMs := RetryAfterMs retryAfter\<rparr>)"

definition adminResponseWriter :: "err + admin_reply \<Rightarrow> admin_reply" where
  "adminResponseWriter r = (case r of Inl e \<Rightarrow> AdminReply (admin_error (ClientMessage (Some e)) e) | Inr x \<Rightarrow> x)"

definition failed :: "string \<Rightarrow> err \<Rightarrow> err + admin_reply" where
  "failed pre e = Inr (AdminReply (admin_error (pre @ '': '' @ ClientMessage (Some e)) e))"

definition refusal :: "int \<Rightarrow> string \<Rightarrow> err + admin_reply" where
  "refusal status message = Inr (AdminReply (admin_ok\<lparr>adSuccess := False, adErrorMessage := message, adStatus := status\<rparr>))"


section \<open>Handlers\<close>

type_synonym ('c, 'm) mma_handler = "('c, 'm) MailboxServer \<Rightarrow> (err + admin_reply) \<times> ('c, 'm) MailboxServer"

definition clamp_setting :: "string \<Rightarrow> int option \<Rightarrow> int \<Rightarrow> 'a \<Rightarrow> (int \<Rightarrow> 'a) \<Rightarrow> err + 'a" where
  "clamp_setting name asked ceiling cur wrap =
     (case asked of
        None \<Rightarrow> Inr cur
      | Some v \<Rightarrow> if v \<le> 0 then Inl (PlainError (name @ '' must be positive'')) else Inr (wrap (min v ceiling)))"

definition clampMailboxSettings :: "MailboxDefaults \<Rightarrow> int option \<Rightarrow> int option \<Rightarrow> int option \<Rightarrow> int \<Rightarrow> int \<Rightarrow> int option
    \<Rightarrow> err + (int \<times> int \<times> int option)" where
  "clampMailboxSettings df maxMessages days retentionCount curMax curRetention curCount =
     (case clamp_setting ''maxMessages'' maxMessages (dfMaxMessages df) curMax id of
        Inl e \<Rightarrow> Inl e
      | Inr outMax \<Rightarrow>
          (case clamp_setting ''retentionDays'' days (dfRetentionDays df) curRetention id of
             Inl e \<Rightarrow> Inl e
           | Inr outRetention \<Rightarrow>
               (case clamp_setting ''retentionCount'' retentionCount (dfMaxMessages df) curCount Some of
                  Inl e \<Rightarrow> Inl e
                | Inr outCount \<Rightarrow> Inr (outMax, outRetention, outCount))))"

definition handleCreateMailbox :: "('c, 'm, 'l) libs \<Rightarrow> peer_id \<Rightarrow> AdminRequest \<Rightarrow> ('c, 'm) mma_handler" where
  "handleCreateMailbox E caller req s =
     (case RequireSelf (libPeer E) caller (arOwnerPeerID req) ''ownerPeerId'' of
        Some e \<Rightarrow> (Inl e, s)
      | None \<Rightarrow>
          (case (if arMailboxType req = [] then Inr MailboxPrivate else MailboxTypeFromString (arMailboxType req)) of
             Inl _ \<Rightarrow> (refusal StatusBadRequest (''invalid mailbox type: '' @ arMailboxType req), s)
           | Inr ty \<Rightarrow>
               if arFolderPath req = [] then (refusal StatusBadRequest ''folderPath is required'', s)
               else case NewMailboxAddress caller (arFolderPath req) ty of
                 Inl e \<Rightarrow> (refusal StatusBadRequest (''invalid mailbox address: '' @ error_text e), s)
               | Inr addr \<Rightarrow>
                   (case clampMailboxSettings (defaults s) (arMaxMessages req) (arRetentionDays req) (arRetentionCount req)
                           (dfMaxMessages (defaults s)) (dfRetentionDays (defaults s)) None of
                      Inl e \<Rightarrow> (refusal StatusBadRequest (error_text e), s)
                    | Inr (mx, rd, rc) \<Rightarrow>
                        (case CreateMailbox E addr mx rd rc s of
                           (Inl e, s1) \<Rightarrow> (failed ''failed to create mailbox'' e, s1)
                         | (Inr _, s1) \<Rightarrow> (Inr (AdminReply admin_ok), s1)))))"

definition handleDeleteMailbox :: "('c, 'm, 'l) libs \<Rightarrow> peer_id \<Rightarrow> AdminRequest \<Rightarrow> ('c, 'm) mma_handler" where
  "handleDeleteMailbox E caller req s =
     (case RequireSelf (libPeer E) caller (arOwnerPeerID req) ''ownerPeerId'' of
        Some e \<Rightarrow> (Inl e, s)
      | None \<Rightarrow>
          if arFolderPath req = [] then (refusal StatusBadRequest ''folderPath is required'', s)
          else case DeleteMailbox E \<lparr>OwnerID = caller, addrFolderPath = arFolderPath req, addrType = 0\<rparr> s of
            (Inl e, s1) \<Rightarrow> (failed ''failed to delete mailbox'' e, s1)
          | (Inr _, s1) \<Rightarrow> (Inr (AdminReply admin_ok), s1))"

text \<open>What five of the handlers share: the mailbox of the caller that the request names.\<close>

definition with_mailbox :: "('c, 'm, 'l) libs \<Rightarrow> peer_id \<Rightarrow> string \<Rightarrow> (MailboxRecord \<Rightarrow> ('c, 'm) mma_handler) \<Rightarrow> ('c, 'm) mma_handler" where
  "with_mailbox E caller folderPath k s =
     (case with_db (pg_FindMailbox (libPeer E) caller folderPath) s of
        (Inl e, s1) \<Rightarrow> (failed ''failed to find mailbox'' e, s1)
      | (Inr None, s1) \<Rightarrow> (refusal StatusNotFound ''mailbox not found'', s1)
      | (Inr (Some record), s1) \<Rightarrow> k record s1)"

definition handleGrantAccess :: "('c, 'm, 'l) libs \<Rightarrow> peer_id \<Rightarrow> AdminRequest \<Rightarrow> ('c, 'm) mma_handler" where
  "handleGrantAccess E caller req s =
     (case RequireSelf (libPeer E) caller (arOwnerPeerID req) ''ownerPeerId'' of
        Some e \<Rightarrow> (Inl e, s)
      | None \<Rightarrow>
          if arFolderPath req = [] then (refusal StatusBadRequest ''folderPath is required'', s)
          else if arGranteePeerID req = [] then (refusal StatusBadRequest ''granteePeerId is required'', s)
          else case peer_Decode (libPeer E) (arGranteePeerID req) of
            None \<Rightarrow> (refusal StatusBadRequest (''invalid grantee peer ID: '' @ peer_DecodeError (libPeer E) (arGranteePeerID req)), s)
          | Some grantee \<Rightarrow>
              (case (if arAccessMode req = [] then Inr AccessReadOnly else AccessModeFromString (arAccessMode req)) of
                 Inl e \<Rightarrow> (refusal StatusBadRequest (''invalid access mode: '' @ error_text e), s)
               | Inr mode \<Rightarrow>
                   with_mailbox E caller (arFolderPath req) (\<lambda>record s1.
                     case with_db (pg_GrantAccess (libPeer E) (mbID record) grantee mode) s1 of
                       (Inl e, s2) \<Rightarrow> (failed ''failed to grant access'' e, s2)
                     | (Inr _, s2) \<Rightarrow> (Inr (AdminReply admin_ok), s2)) s))"

definition handleRevokeAccess :: "('c, 'm, 'l) libs \<Rightarrow> peer_id \<Rightarrow> AdminRequest \<Rightarrow> ('c, 'm) mma_handler" where
  "handleRevokeAccess E caller req s =
     (case RequireSelf (libPeer E) caller (arOwnerPeerID req) ''ownerPeerId'' of
        Some e \<Rightarrow> (Inl e, s)
      | None \<Rightarrow>
          if arFolderPath req = [] then (refusal StatusBadRequest ''folderPath is required'', s)
          else if arGranteePeerID req = [] then (refusal StatusBadRequest ''granteePeerId is required'', s)
          else case peer_Decode (libPeer E) (arGranteePeerID req) of
            None \<Rightarrow> (refusal StatusBadRequest (''invalid grantee peer ID: '' @ peer_DecodeError (libPeer E) (arGranteePeerID req)), s)
          | Some grantee \<Rightarrow>
              with_mailbox E caller (arFolderPath req) (\<lambda>record s1.
                case with_db (pg_RevokeAccess (libPeer E) (mbID record) grantee) s1 of
                  (Inl e, s2) \<Rightarrow> (failed ''failed to revoke access'' e, s2)
                | (Inr _, s2) \<Rightarrow> (Inr (AdminReply admin_ok), s2)) s)"

definition acl_entry :: "AclRecord \<Rightarrow> ACLEntry" where
  "acl_entry a = \<lparr>aePeer = aclPeerID a, aeAccessMode = AccessMode_String (aclAccessMode a), aeGrantedAt = aclGrantedAt a\<rparr>"

definition handleListACL :: "('c, 'm, 'l) libs \<Rightarrow> peer_id \<Rightarrow> AdminRequest \<Rightarrow> ('c, 'm) mma_handler" where
  "handleListACL E caller req s =
     (case RequireSelf (libPeer E) caller (arOwnerPeerID req) ''ownerPeerId'' of
        Some e \<Rightarrow> (Inl e, s)
      | None \<Rightarrow>
          if arFolderPath req = [] then (refusal StatusBadRequest ''folderPath is required'', s)
          else with_mailbox E caller (arFolderPath req) (\<lambda>record s1.
            case with_db (pg_ListACL (mbID record)) s1 of
              (Inl e, s2) \<Rightarrow> (failed ''failed to list ACL'' e, s2)
            | (Inr acl, s2) \<Rightarrow> (Inr (AdminReply (admin_ok\<lparr>adACL := map acl_entry acl\<rparr>)), s2)) s)"

definition mailbox_info :: "MailboxRecord \<Rightarrow> MailboxInfo" where
  "mailbox_info r = \<lparr>miFolderPath = mbFolderPath r, miType = MailboxType_String (mbType r), miMaxMessages = MaxMessages r,
     miRetentionDays = RetentionDays r, miCreatedAt = CreatedAt r\<rparr>"

definition handleListMailboxes :: "('c, 'm, 'l) libs \<Rightarrow> peer_id \<Rightarrow> AdminRequest \<Rightarrow> ('c, 'm) mma_handler" where
  "handleListMailboxes E caller req s =
     (case RequireSelf (libPeer E) caller (arOwnerPeerID req) ''ownerPeerId'' of
        Some e \<Rightarrow> (Inl e, s)
      | None \<Rightarrow>
          (case ListMailboxes E caller s of
             (Inl e, s1) \<Rightarrow> (failed ''failed to list mailboxes'' e, s1)
           | (Inr records, s1) \<Rightarrow> (Inr (AdminReply (admin_ok\<lparr>adMailboxes := map mailbox_info records\<rparr>)), s1)))"

definition handleUpdateConfig :: "('c, 'm, 'l) libs \<Rightarrow> peer_id \<Rightarrow> AdminRequest \<Rightarrow> ('c, 'm) mma_handler" where
  "handleUpdateConfig E caller req s =
     (if arFolderPath req = [] then (refusal StatusBadRequest ''folderPath is required'', s)
      else with_mailbox E caller (arFolderPath req) (\<lambda>record s1.
        case clampMailboxSettings (defaults s1) (arMaxMessages req) (arRetentionDays req) (arRetentionCount req)
               (MaxMessages record) (RetentionDays record) (RetentionCount record) of
          Inl e \<Rightarrow> (refusal StatusBadRequest (error_text e), s1)
        | Inr (mx, rd, rc) \<Rightarrow>
            (case UpdateMailbox E (record\<lparr>MaxMessages := mx, RetentionDays := rd, RetentionCount := rc\<rparr>) s1 of
               (Inl e, s2) \<Rightarrow> (failed ''failed to update mailbox'' e, s2)
             | (Inr _, s2) \<Rightarrow> (Inr (AdminReply admin_ok), s2))) s)"

definition handleGetMailboxInfo :: "('c, 'm, 'l) libs \<Rightarrow> peer_id \<Rightarrow> AdminRequest \<Rightarrow> ('c, 'm) mma_handler" where
  "handleGetMailboxInfo E caller req s =
     (if arFolderPath req = [] then (refusal StatusBadRequest ''folderPath is required'', s)
      else with_mailbox E caller (arFolderPath req) (\<lambda>record s1.
        case with_db (pg_GetMessageCount (mbID record)) s1 of
          (Inl e, s2) \<Rightarrow> (failed ''failed to get message count'' e, s2)
        | (Inr n, s2) \<Rightarrow> (Inr (InfoReply record n), s2)) s)"

definition handleQueryCapacity :: "Sampler option \<Rightarrow> ('c, 'm) mma_handler" where
  "handleQueryCapacity so s =
     (case Capacity so of
        Inl e \<Rightarrow> (Inl e, s)
      | Inr view \<Rightarrow> (Inr (AdminReply (admin_ok\<lparr>adCapacity := Some view\<rparr>)), s))"


section \<open>The pipeline\<close>

definition mma_handle :: "('c, 'm, 'l) libs \<Rightarrow> Sampler option \<Rightarrow> peer_id \<Rightarrow> string \<Rightarrow> AdminRequest \<Rightarrow> ('c, 'm) mma_handler" where
  "mma_handle E so caller opn req =
     (if opn = ''createMailbox'' then handleCreateMailbox E caller req
      else if opn = ''deleteMailbox'' then handleDeleteMailbox E caller req
      else if opn = ''grantAccess'' then handleGrantAccess E caller req
      else if opn = ''revokeAccess'' then handleRevokeAccess E caller req
      else if opn = ''listACL'' then handleListACL E caller req
      else if opn = ''listMailboxes'' then handleListMailboxes E caller req
      else if opn = ''updateConfig'' then handleUpdateConfig E caller req
      else if opn = ''queryCapacity'' then handleQueryCapacity so
      else handleGetMailboxInfo E caller req)"

definition mma_operations :: "string list" where
  "mma_operations = [''createMailbox'', ''deleteMailbox'', ''grantAccess'', ''revokeAccess'', ''listACL'', ''listMailboxes'',
     ''updateConfig'', ''queryCapacity'', ''getMailboxInfo'']"

definition mma_admin :: "('c, 'm, 'l) libs \<Rightarrow> forge_lib \<Rightarrow> gate_env \<Rightarrow> peer_id \<Rightarrow> bytes \<Rightarrow> ('c, 'm) MailboxServer \<Rightarrow> admin_reply \<times> ('c, 'm) MailboxServer" where
  "mma_admin E F G caller raw s =
     (case admin_gates G caller raw of
        Some e \<Rightarrow> (adminResponseWriter (Inl e), s)
      | None \<Rightarrow>
          (case dartNormalize (libText E) raw of
             Inl e \<Rightarrow> (adminResponseWriter (Inl e), s)
           | Inr raw' \<Rightarrow>
               (case fgOperation F ''operationType'' raw' of
                  Inl e \<Rightarrow> (adminResponseWriter (Inl e), s)
                | Inr opn \<Rightarrow>
                    if opn \<notin> set mma_operations then (adminResponseWriter (Inl (ErrUnknownOperation opn)), s)
                    else case Option.bind (object_fields (libText E) raw') dec_AdminRequest of
                      None \<Rightarrow> (adminResponseWriter (Inl (fgDecodeError F raw')), s)
                    | Some req \<Rightarrow>
                        (let (r, s1) = mma_handle E (geSampler G) caller opn req s in (adminResponseWriter r, s1)))))"

end
