(* ===== verification/Maa_Props.thy ===== *)
theory Maa_Props
  imports Maa
begin

text \<open>
  Access to mailboxes over the wire: the size and content of a retrieve response, what a request can
  touch, and what a banned peer can still do.
\<close>

section \<open>Responses\<close>

lemma fold_append: "fold (\<lambda>x buf. buf @ g x) xs b = b @ concat (map g xs)"
  by (induction xs arbitrary: b) auto

lemma compound_is_frame_response:
  "encodeCompoundRetrieveResponse T ms h = EncodeRetrieveResponse T \<lparr>Messages = ms, HasMore = h\<rparr>"
  by (simp add: encodeCompoundRetrieveResponse_def EncodeRetrieveResponse_def response_meta_def Let_def fold_append)

definition meta_size :: "json_text \<Rightarrow> Message list \<Rightarrow> bool \<Rightarrow> int" where
  "meta_size T ms h = int (length (json_enc T (response_meta \<lparr>Messages = ms, HasMore = h\<rparr>)))"

lemma compound_size: "int (length (encodeCompoundRetrieveResponse T ms h)) = 4 + meta_size T ms h + encoded_size T ms"
proof -
  have "int (length (concat (map (\<lambda>b. PutUint32 (word_of_nat (length b)) @ b) (map (ToJSON_bytes T) ms)))) = encoded_size T ms"
    by (induction ms) simp_all
  then show ?thesis
    by (simp add: compound_is_frame_response EncodeRetrieveResponse_def meta_size_def Let_def)
qed

lemma fetchPage_cut: "fetchPage T r frm opts d = (Inr pg, d') \<Longrightarrow> \<exists>ms. pg = cut_page T opts ms"
  unfolding fetchPage_def by (auto elim!: and_then_InrD)

lemma cursor_page_cut: "cursor_page L T r p opts d = (Inr pg, d') \<Longrightarrow> \<exists>ms. pg = cut_page T opts ms"
  unfolding cursor_page_def
  by (erule and_then_InrD, erule and_then_InrD) (auto simp: advance_cursor_def Let_def dest!: fetchPage_cut split: if_splits)

lemma mb_RetrieveMessages_cut:
  assumes "mb_RetrieveMessages L T mb p opts d = (Inr pg, d')"
  shows "\<exists>ms. pg = cut_page T opts ms"
proof (cases mb)
  case (PrivateMailbox r)
  then show ?thesis using assms by (auto simp: private_RetrieveMessages_def dest!: fetchPage_cut split: if_splits option.splits)
next
  case (SharedMailbox r)
  then show ?thesis using assms
    by (auto simp: shared_RetrieveMessages_alt dest!: cursor_page_cut elim!: and_then_InrD split: if_splits option.splits)
next
  case (PublicMailbox r)
  then show ?thesis using assms
    by (auto simp: public_RetrieveMessages_alt dest!: cursor_page_cut fetchPage_cut split: option.splits)
next
  case (ClaimMailbox r)
  then show ?thesis using assms by (auto simp: claim_RetrieveMessages_def dest!: fetchPage_cut split: if_splits option.splits)
qed

lemma cut_page_fits:
  assumes "cut_page T opts ms = (page, hm)" "0 < optMaxBytes opts"
  shows "length page \<le> 1000 \<and> (1 < length page \<longrightarrow> encoded_size T page \<le> optMaxBytes opts)"
proof -
  let ?ms = "if page_limit opts < int (length ms) then take (nat (page_limit opts)) ms else ms"
  obtain tr where tr: "trimToBytes T ?ms (optMaxBytes opts) = (page, tr)"
    using assms by (auto simp: cut_page_def Let_def split: prod.splits)
  note sp = trimToBytes_spec [OF tr]
  have "length page \<le> length ?ms" using sp by (metis length_take min.cobounded2 min.commute)
  also have "\<dots> \<le> 1000" using page_limit_bounds [of opts] by auto
  finally show ?thesis using sp by simp
qed

lemma Retrieve_page:
  assumes "Retrieve E a p opts s = (Inr (page, hm), s')" "0 < optMaxBytes opts"
  shows "length page \<le> 1000 \<and> (1 < length page \<longrightarrow> encoded_size (libText E) page \<le> optMaxBytes opts)"
proof -
  obtain x s1 where f: "findMailbox E a s = (x, s1)" by fastforce
  consider (none) "page = []" | (some) mb d where "mb_RetrieveMessages (libPeer E) (libText E) mb (Some p) opts (Storage s1) = (Inr (page, hm), d)"
    using assms(1) f by (auto simp: Retrieve_def with_db_def split: sum.splits option.splits if_splits prod.splits)
  then show ?thesis
  proof cases
    case (some mb d)
    then obtain ms where "cut_page (libText E) opts ms = (page, hm)" using mb_RetrieveMessages_cut by metis
    then show ?thesis by (rule cut_page_fits [OF _ assms(2)])
  qed simp
qed

text \<open>What is known of \<^verbatim>\<open>{"hasMore":true,"messageCount":1000}\<close>: with at most a thousand messages it is short.\<close>

definition meta_short :: "json_text \<Rightarrow> bool" where
  "meta_short T \<longleftrightarrow> (\<forall>ms h. length ms \<le> 1000 \<longrightarrow> meta_size T ms h \<le> 65532)"

text \<open>
  C30. A retrieve response is the encoding the client's decoder reads, and it fits one frame of ten
  megabytes: unless the page is a single message whose own encoding is over the page budget, the
  metadata, the length prefixes and the messages stay within the limit. In the exceptional case the
  response is larger than the message by the metadata and two prefixes, so a message that just
  fitted a frame when it was submitted no longer does when it is retrieved.
\<close>

theorem retrieve_fits_frame:
  assumes short: "meta_short (libText E)" and run: "handleRetrieve E caller req s = (Inr (RawResponse b), s')"
  shows "\<exists>page hm. b = EncodeRetrieveResponse (libText E) \<lparr>Messages = page, HasMore = hm\<rparr> \<and> length page \<le> 1000
    \<and> (length b \<le> MaxFrameSize \<or> (\<exists>m. page = [m] \<and> retrievePageBudget < 4 + int (length (ToJSON_bytes (libText E) m))))
    \<and> (\<forall>m. page = [m] \<longrightarrow> int (length b) = int (length (ToJSON_bytes (libText E) m)) + meta_size (libText E) [m] hm + 8)"
proof -
  obtain owner where o: "peer_Decode (libPeer E) (rqPeerID req) = Some owner"
    using run by (auto simp: handleRetrieve_def Let_def split: option.splits)
  let ?a = "\<lparr>OwnerID = owner, addrFolderPath = (if rqFolderPath req \<noteq> [] then rqFolderPath req else ''inbox''), addrType = 0\<rparr>"
  obtain page hm s1 where r: "Retrieve E ?a caller (retrieve_opts req) s = (Inr (page, hm), s1)"
    and b: "b = encodeCompoundRetrieveResponse (libText E) page hm"
    using run o by (auto simp: handleRetrieve_def Let_def split: prod.splits sum.splits)
  have pos: "0 < optMaxBytes (retrieve_opts req)" "optMaxBytes (retrieve_opts req) = retrievePageBudget"
    by (simp_all add: retrieve_opts_def retrievePageBudget_def)
  note pg = Retrieve_page [OF r pos(1), unfolded pos(2)]
  have meta: "meta_size (libText E) page hm \<le> 65532" using short pg by (simp add: meta_short_def)
  have size: "int (length b) = 4 + meta_size (libText E) page hm + encoded_size (libText E) page" by (simp add: b compound_size)
  have fits: "length b \<le> MaxFrameSize" if "encoded_size (libText E) page \<le> retrievePageBudget"
  proof -
    have "int (length b) \<le> 10485760" using that size meta by (simp add: retrievePageBudget_def)
    then show ?thesis by (simp add: MaxFrameSize_def)
  qed
  show ?thesis
  proof (intro exI [of _ page] exI [of _ hm] conjI allI impI)
    show "b = EncodeRetrieveResponse (libText E) \<lparr>Messages = page, HasMore = hm\<rparr>" by (simp add: b compound_is_frame_response)
    show "length page \<le> 1000" using pg by simp
    show "int (length b) = int (length (ToJSON_bytes (libText E) m)) + meta_size (libText E) [m] hm + 8" if "page = [m]" for m
      using size that by simp
    show "length b \<le> MaxFrameSize \<or> (\<exists>m. page = [m] \<and> retrievePageBudget < 4 + int (length (ToJSON_bytes (libText E) m)))"
    proof (cases "encoded_size (libText E) page \<le> retrievePageBudget")
      case False
      then have "\<not> 1 < length page" "page \<noteq> []" using pg by (auto simp: retrievePageBudget_def)
      then obtain m where "page = [m]" by (cases page) auto
      then show ?thesis using False by auto
    qed (use fits in blast)
  qed
qed

definition demo_retrieve :: RetrieveRequest where
  "demo_retrieve = \<lparr>rqPeerID = ''42'', rqFolderPath = ''work'', rqFromSequence = None, rqMaxMessages = None, rqMinPriority = None\<rparr>"

theorem retrieve_fits_frame_witness:
  "\<exists>b. fst (handleRetrieve demo_libs (PeerID ''B'') demo_retrieve demo_srv) = Inr (RawResponse b)
     \<and> (\<exists>page hm. b = EncodeRetrieveResponse (libText demo_libs) \<lparr>Messages = page, HasMore = hm\<rparr> \<and> length page \<le> 1000)"
proof -
  have "case fst (handleRetrieve demo_libs (PeerID ''B'') demo_retrieve demo_srv) of Inr (RawResponse b) \<Rightarrow> True | _ \<Rightarrow> False" by code_simp
  then have "\<exists>b. fst (handleRetrieve demo_libs (PeerID ''B'') demo_retrieve demo_srv) = Inr (RawResponse b)"
    by (auto split: sum.splits maa_response.splits)
  then obtain b where b: "fst (handleRetrieve demo_libs (PeerID ''B'') demo_retrieve demo_srv) = Inr (RawResponse b)" by blast
  have "meta_short (libText demo_libs)" by (simp add: meta_short_def meta_size_def demo_libs_def no_text_def)
  from retrieve_fits_frame [OF this result_eq [OF b]] show ?thesis using b by blast
qed


section \<open>What a request can touch\<close>

text \<open>Messages, mailboxes and grants of every other owner are as they were.\<close>

definition others_safe :: "string \<Rightarrow> db \<Rightarrow> db \<Rightarrow> bool" where
  "others_safe p d d' \<longleftrightarrow>
     filter (\<lambda>m. \<not> owned_by p d m) (stored_messages d') = filter (\<lambda>m. \<not> owned_by p d m) (stored_messages d)
     \<and> filter (\<lambda>r. OwnerPeerID r \<noteq> p) (mailboxes d') = filter (\<lambda>r. OwnerPeerID r \<noteq> p) (mailboxes d)
     \<and> mailbox_acls d' = mailbox_acls d"

lemma others_keptD: "others_kept p d d' \<Longrightarrow> others_safe p d d'"
  by (simp add: others_kept_def others_safe_def)

lemma others_safe_same: "same_tables d d' \<Longrightarrow> others_safe p d d'"
  by (simp add: same_tables_def others_safe_def)

lemma others_safe_refl [simp]: "others_safe p d d" "others_safe p d (next_faults d)" "others_safe p (next_faults d) d' = others_safe p d d'"
  by (simp_all add: others_safe_def)

lemma others_safe_same_trans: "same_tables d d1 \<Longrightarrow> others_safe p d1 d2 \<Longrightarrow> others_safe p d d2"
  by (simp add: same_tables_def others_safe_def owned_by_def)

lemma with_db_parts [simp]:
  "Storage (snd (with_db f s)) = snd (f (Storage s))" "fst (with_db f s) = fst (f (Storage s))"
  by (simp_all add: with_db_def Let_def case_prod_unfold)

lemma findMailbox_same: "same_tables (Storage s) (Storage (snd (findMailbox E a s)))"
  using findMailbox_storage [of E a s] by auto

lemma Retrieve_same: "same_tables (Storage s) (Storage (snd (Retrieve E a p opts s)))"
proof -
  obtain x s1 where f: "findMailbox E a s = (x, s1)" by fastforce
  have "same_tables (Storage s) (Storage s1)" using findMailbox_same [of s E a] f by simp
  moreover have "same_tables (Storage s1) (snd (mb_RetrieveMessages L T mb q opts (Storage s1)))" for L T mb q
    by (rule mb_RetrieveMessages_same)
  ultimately show ?thesis using f
    by (auto simp: Retrieve_def split: sum.splits option.splits intro: same_tables_trans)
qed

lemma expunge_one_others:
  assumes inv: "db_inv (Storage s)" and f: "with_db (pg_FindMailbox L p fld) s = (Inr (Some rec), s1)"
  shows "others_safe (peer_String L p) (Storage s) (snd (pg_ExpungeMailbox (mbID rec) (Storage s1)))"
proof -
  have "pg_FindMailbox L p fld (Storage s) = (Inr (Some rec), Storage s1)" using f by (auto simp: with_db_eq)
  then obtain r where r: "Storage s1 = next_faults (Storage s)" "r \<in> set (mailboxes (Storage s))" "rec = record_of r" "OwnerPeerID r = peer_String L p"
    using pg_FindMailbox_InrD by fastforce
  have del: "others_kept (peer_String L p) d (snd (delete_where (\<lambda>m. smMailboxID m = mbID r \<and> HasFlag (smFlagsBitmap m) MsgFlagDeleted) d))"
    if "db_inv d" "r \<in> set (mailboxes d)" for d
    using that r(4) by (intro delete_where_others) (auto simp: owned_by_def)
  have "others_kept (peer_String L p) (Storage s) (snd (delete_stmt (\<lambda>d m. smMailboxID m = mbID r \<and> HasFlag (smFlagsBitmap m) MsgFlagDeleted) (Storage s1)))"
    unfolding delete_stmt_def
  proof (rule stmt_snd_case [where Q = "others_kept (peer_String L p) (Storage s)"])
    show "others_kept (peer_String L p) (Storage s) (next_faults (Storage s1))" using r(1) by (simp add: others_kept_def)
  qed (use inv r(1,2) del [of "next_faults (Storage s1)"] in \<open>simp add: Let_def case_prod_unfold\<close>)
  then show ?thesis using r(1,3) others_keptD by (simp add: pg_ExpungeMailbox_def)
qed

lemma maa_handle_others:
  assumes inv: "db_inv (Storage s)" and nc: "\<And>p f. req \<noteq> ClaimReq p f"
  shows "others_safe (peer_String (libPeer E) caller) (Storage s) (Storage (snd (maa_handle E caller req s)))"
proof (cases req)
  case (RetrieveReq r)
  then show ?thesis using Retrieve_same [of s E]
    by (auto simp: handleRetrieve_def Let_def split: option.splits prod.splits sum.splits intro!: others_safe_same) (metis snd_conv)+
next
  case (MarkDeliveredReq ids)
  then show ?thesis using mark_others [OF inv, of "libPeer E" caller ids]
    by (auto simp: handleMarkDelivered_def MarkDelivered_def case_prod_unfold split: sum.splits intro: others_keptD)
next
  case (UpdateFlagsReq r)
  have "others_kept (peer_String (libPeer E) caller) (Storage s) (snd (pg_UpdateMessageFlags (libPeer E) caller i a b (Storage s)))" for i a b
    unfolding pg_UpdateMessageFlags_def by (rule stmt_others [OF inv]) (auto simp: Let_def intro!: update_message_rows_others)
  then show ?thesis using UpdateFlagsReq
    by (auto simp: handleUpdateFlags_def UpdateFlags_def case_prod_unfold split: sum.splits option.splits intro: others_keptD)
next
  case (ExpungeReq p f)
  have all: "others_safe (peer_String (libPeer E) caller) (Storage s) (snd (pg_ExpungeAllMailboxes (libPeer E) caller (Storage s)))"
    unfolding pg_ExpungeAllMailboxes_def by (rule others_keptD, rule delete_stmt_others [OF inv]) simp
  obtain x s1 where x: "with_db (pg_FindMailbox (libPeer E) caller f) s = (x, s1)" by fastforce
  have s1: "Storage s1 = next_faults (Storage s)" using x by (auto simp: with_db_eq dest!: pg_FindMailbox_snd)
  show ?thesis
  proof (cases "\<exists>rec. x = Inr (Some rec)")
    case True
    then obtain rec where "x = Inr (Some rec)" by blast
    then show ?thesis using ExpungeReq x s1 all expunge_one_others [OF inv, of "libPeer E" caller f rec s1]
      by (auto simp: handleExpunge_def case_prod_unfold Let_def split: option.splits)
  next
    case False
    then show ?thesis using ExpungeReq x s1 all
      by (auto simp: handleExpunge_def case_prod_unfold Let_def split: option.splits sum.splits)
  qed
next
  case (DeleteMessagesReq ids)
  have "others_safe (peer_String (libPeer E) caller) (Storage s) (snd (pg_DeleteOwnedMessages (libPeer E) caller ids (Storage s)))"
    by (auto simp: pg_DeleteOwnedMessages_def intro!: others_keptD delete_stmt_others [OF inv])
  then show ?thesis using DeleteMessagesReq
    by (auto simp: handleDeleteMessages_def DeleteMessages_def case_prod_unfold split: sum.splits)
qed (use nc in blast)

text \<open>
  C6. Whatever bytes a peer sends to the access protocol, and whichever faults the database has, a
  request that is not a claim leaves every message, mailbox and grant of every other owner exactly
  as it was: retrieving reads only, and acknowledging, flagging, expunging and deleting act on the
  caller's own messages even when the identifiers named belong to others. A request that a gate
  refuses or that does not decode changes nothing.
\<close>

theorem access_touches_own_only:
  assumes inv: "db_inv (Storage s)" and run: "maa_access E F G caller raw s = (resp, s')"
    and nc: "\<And>raw' opn p f. defaultOperationType (libText E) raw = Return raw' \<Longrightarrow> fgOperation F ''operationType'' raw' = Inr opn
        \<Longrightarrow> maa_decode (libText E) F opn raw' \<noteq> Inr (ClaimReq p f)"
  shows "others_safe (peer_String (libPeer E) caller) (Storage s) (Storage s')
    \<and> (access_gates (libPeer E) (libText E) G caller raw \<noteq> None \<longrightarrow> s' = s)"
proof
  show "access_gates (libPeer E) (libText E) G caller raw \<noteq> None \<longrightarrow> s' = s"
    using run by (auto simp: maa_access_def)
  show "others_safe (peer_String (libPeer E) caller) (Storage s) (Storage s')"
  proof (cases "s' = s")
    case False
    then obtain raw' opn req r where "defaultOperationType (libText E) raw = Return raw'" "fgOperation F ''operationType'' raw' = Inr opn"
        "maa_decode (libText E) F opn raw' = Inr req" "maa_handle E caller req s = (r, s')"
      using run by (auto simp: maa_access_def split: option.splits go.splits sum.splits prod.splits)
    then show ?thesis using maa_handle_others [OF inv, of req E caller] nc by (metis snd_conv)
  qed simp
qed

text \<open>
  Forge's router, as \<^verbatim>\<open>src/doc/audit-2026-09-13/performance.md\<close> (M6) describes it: it unmarshals the body
  into a map of raw messages and takes the operation from the field it is given. The keys of a map are
  compared exactly, and the last of two equal ones counts, whereas the structs of the validations and
  of the handlers take any spelling of a name. \<open>exact_router\<close> is what the statements rely on;
  \<open>one_spelling\<close> says of a body that it does not spell the name in two ways.
\<close>

definition exact_operation :: "json_text \<Rightarrow> string \<Rightarrow> bytes \<Rightarrow> string option" where
  "exact_operation T field raw =
     (case object_fields T raw of
        None \<Rightarrow> None
      | Some kvs \<Rightarrow> (case map_of (rev kvs) field of Some (JStr v) \<Rightarrow> Some v | _ \<Rightarrow> None))"

definition exact_router :: "json_text \<Rightarrow> forge_lib \<Rightarrow> bool" where
  "exact_router T F \<longleftrightarrow> (\<forall>field raw opn. fgOperation F field raw = Inr opn \<longrightarrow> exact_operation T field raw = Some opn)"

definition one_spelling :: "json_text \<Rightarrow> string \<Rightarrow> bytes \<Rightarrow> bool" where
  "one_spelling T field raw =
     (case object_fields T raw of
        None \<Rightarrow> True
      | Some kvs \<Rightarrow> list_all (\<lambda>kv. fold_name (fst kv) = fold_name field \<longrightarrow> fst kv = field) kvs)"

definition field_router :: "json_text \<Rightarrow> forge_lib" where
  "field_router T =
     \<lparr>fgOperation = (\<lambda>field raw. case exact_operation T field raw of
          None \<Rightarrow> Inl (ErrMissingOperation []) | Some v \<Rightarrow> if v = [] then Inl (ErrMissingOperation []) else Inr v),
      fgDecodeError = (\<lambda>_. JsonUnmarshalTypeError [])\<rparr>"

lemma field_router_exact [simp]: "exact_router T (field_router T)"
  by (auto simp: exact_router_def field_router_def split: option.splits if_splits)

lemma last_field_value:
  assumes "list_all (\<lambda>kv. fold_name (fst kv) = fold_name field \<longrightarrow> fst kv = field) kvs"
    and "map_of (rev kvs) field = Some v" "v \<noteq> JNull"
  shows "field_values field kvs \<noteq> [] \<and> last (field_values field kvs) = v"
  using assms
proof (induction kvs rule: rev_induct)
  case (snoc kv kvs)
  then show ?case by (cases "fst kv = field") (auto simp: field_values_def split: if_splits)
qed simp

text \<open>Where a body spells the name in one way, router and validation read the same operation.\<close>

lemma router_agrees:
  assumes F: "exact_router T F" "one_spelling T field raw" "fgOperation F field raw = Inr opn"
    and x: "object_fields T raw = Some kvs" "json_field dec_string [] field kvs = Some x"
  shows "x = opn"
proof -
  have "exact_operation T field raw = Some opn" using F by (simp add: exact_router_def)
  then have "map_of (rev kvs) field = Some (JStr opn)"
    using x(1) by (auto simp: exact_operation_def split: option.splits json.splits)
  then show ?thesis using last_field_value [of field kvs "JStr opn"] F(2) x
    by (auto simp: one_spelling_def json_field_def Let_def split: if_splits)
qed

definition one_request :: "json \<Rightarrow> json_text" where
  "one_request j = \<lparr>json_enc = (\<lambda>_. []), json_dec = (\<lambda>_. Inr j)\<rparr>"

definition delete_text :: json_text where
  "delete_text = one_request (JObj [(''operationType'', JStr ''deleteMessages''), (''messageIds'', JArr [JStr ''m1''])])"

theorem access_touches_own_only_witness:
  "others_safe ''43'' (Storage demo_srv)
     (Storage (snd (maa_access (demo_libs\<lparr>libText := delete_text\<rparr>) (field_router delete_text) demo_gates (PeerID ''C'') [] demo_srv)))
   \<and> fst (maa_access (demo_libs\<lparr>libText := delete_text\<rparr>) (field_router delete_text) demo_gates (PeerID ''C'') [] demo_srv) = Return (DeleteMessagesAck True 0 [])
   \<and> fst (maa_access (demo_libs\<lparr>libText := delete_text\<rparr>) (field_router delete_text) demo_gates (PeerID ''B'') [] demo_srv) = Return (DeleteMessagesAck True 1 [])"
proof -
  let ?E = "demo_libs\<lparr>libText := delete_text\<rparr>" and ?F = "field_router delete_text"
  have a: "fst (maa_access ?E ?F demo_gates (PeerID ''C'') [] demo_srv) = Return (DeleteMessagesAck True 0 [])" by code_simp
  have b: "fst (maa_access ?E ?F demo_gates (PeerID ''B'') [] demo_srv) = Return (DeleteMessagesAck True 1 [])" by code_simp
  have c: "peer_String (libPeer ?E) (PeerID ''C'') = ''43''" by code_simp
  have d: "defaultOperationType (libText ?E) [] = Return []" by code_simp
  have e: "fgOperation ?F ''operationType'' [] = Inr ''deleteMessages''" by code_simp
  have f: "maa_decode (libText ?E) ?F ''deleteMessages'' [] = Inr (DeleteMessagesReq [''m1''])" by code_simp
  have nc: "maa_decode (libText ?E) ?F opn raw' \<noteq> Inr (ClaimReq p f)"
    if "defaultOperationType (libText ?E) [] = Return raw'" "fgOperation ?F ''operationType'' raw' = Inr opn" for raw' opn p f
    using that d e f by simp
  have "db_inv (Storage demo_srv)" using demo_srv_inv by (simp add: srv_inv_def)
  from access_touches_own_only [OF this result_eq [OF a] nc] show ?thesis
    using a b c by simp
qed


section \<open>Banned peers\<close>

text \<open>
  What a banned peer may still ask for: to retrieve from its own trust-safety folder, and to
  acknowledge or delete messages, which name no folder but identifiers.
\<close>

definition banned_request :: "peer_lib \<Rightarrow> peer_id \<Rightarrow> maa_request \<Rightarrow> bool" where
  "banned_request L caller req =
     (case req of
        RetrieveReq r \<Rightarrow> rqFolderPath r = NoticesFolder \<and> (rqPeerID r = [] \<or> rqPeerID r = peer_String L caller)
      | MarkDeliveredReq ids \<Rightarrow> True
      | DeleteMessagesReq ids \<Rightarrow> True
      | _ \<Rightarrow> False)"

lemma banned_retrieve:
  assumes "BannedMayAccess L T caller raw" "object_fields T raw = Some kvs" "json_field dec_string [] ''operationType'' kvs = Some ''retrieve''"
    and "dec_RetrieveRequest kvs = Some r"
  shows "banned_request L caller (RetrieveReq r)"
proof -
  obtain pid fld where f: "json_field dec_string [] ''peerId'' kvs = Some pid" "json_field dec_string [] ''folderPath'' kvs = Some fld"
      "rqPeerID r = pid" "rqFolderPath r = fld"
    using assms(4) by (auto simp: dec_RetrieveRequest_def split: Option.bind_splits)
  then have "access_envelope_of T raw = Some \<lparr>aeOperationType = ''retrieve'', aePeerID = pid, aeFolderPath = fld\<rparr>"
    using assms(2,3) by (simp add: access_envelope_of_def)
  then show ?thesis using assms(1) f(3,4) by (simp add: BannedMayAccess_def banned_request_def)
qed

lemma banned_operation:
  assumes "BannedMayAccess L T caller raw" "object_fields T raw = Some kvs" "json_field dec_string [] ''operationType'' kvs = Some opn" "opn \<noteq> []"
  shows "opn = ''retrieve'' \<or> opn = ''markDelivered'' \<or> opn = ''deleteMessages''"
proof -
  obtain env where e: "access_envelope_of T raw = Some env" using assms(1) by (auto simp: BannedMayAccess_def split: option.splits)
  then have "aeOperationType env = opn" using assms(2,3) by (auto simp: access_envelope_of_def split: Option.bind_splits)
  then show ?thesis using assms(1,4) e by (auto simp: BannedMayAccess_def split: if_splits)
qed

lemma maa_decode_kinds:
  "maa_decode T F ''retrieve'' raw = Inr req \<Longrightarrow> \<exists>kvs r. object_fields T raw = Some kvs \<and> dec_RetrieveRequest kvs = Some r \<and> req = RetrieveReq r"
  "maa_decode T F ''markDelivered'' raw = Inr req \<Longrightarrow> \<exists>ids. req = MarkDeliveredReq ids"
  "maa_decode T F ''deleteMessages'' raw = Inr req \<Longrightarrow> \<exists>ids. req = DeleteMessagesReq ids"
  by (auto simp: maa_decode_def Let_def split: option.splits Option.bind_splits)

lemma error_response_Banned: "error_response Banned = ErrorResponse (''unauthorized: '' @ BannedMessage) StatusForbidden 0"
  by code_simp

text \<open>
  C31. A banned peer whose request names its operation, in one spelling of the key, reaches a handler
  only to retrieve from its own trust-safety folder, or to acknowledge or delete messages by their
  identifiers. The acknowledged or deleted messages may lie in any of its folders, the trust-safety
  one or not, but only in its own: the messages, mailboxes and grants of other owners stay. Every
  other request of it is answered with an error and changes nothing, and the error is a 403 when the
  request is not one of those its gate lets through. The router reads the exact key, as documented.
\<close>

theorem banned_peer_confined:
  assumes ban: "IsBanned (geBans G) caller" and inv: "db_inv (Storage s)"
    and named: "object_fields (libText E) raw = Some kvs" "json_field dec_string [] ''operationType'' kvs = Some opn" "opn \<noteq> []"
    and router: "exact_router (libText E) F" "one_spelling (libText E) ''operationType'' raw"
  shows "if BannedMayAccess (libPeer E) (libText E) caller raw
    then (\<exists>e. maa_access E F G caller raw s = (Return (error_response e), s))
      \<or> (\<exists>req r s1. banned_request (libPeer E) caller req \<and> maa_decode (libText E) F opn raw = Inr req
           \<and> maa_handle E caller req s = (r, s1) \<and> maa_access E F G caller raw s = (Return (maaResponseWriter r), s1)
           \<and> others_safe (peer_String (libPeer E) caller) (Storage s) (Storage s1))
    else maa_access E F G caller raw s = (Return (ErrorResponse (''unauthorized: '' @ BannedMessage) StatusForbidden 0), s)"
proof (cases "BannedMayAccess (libPeer E) (libText E) caller raw")
  case False
  then have "access_gates (libPeer E) (libText E) G caller raw = Some Banned"
    using ban by (simp add: access_gates_def BanGate_def)
  then show ?thesis using False error_response_Banned by (simp add: maa_access_def maaResponseWriter_def)
next
  case ok: True
  have d: "defaultOperationType (libText E) raw = Return raw" using named by (simp add: defaultOperationType_def)
  show ?thesis
  proof (cases "access_gates (libPeer E) (libText E) G caller raw = None \<and> fgOperation F ''operationType'' raw = Inr opn
      \<and> (\<exists>req. maa_decode (libText E) F opn raw = Inr req)")
    case False
    moreover have "fgOperation F ''operationType'' raw = Inr opn \<or> (\<exists>e. fgOperation F ''operationType'' raw = Inl e)"
      using router_agrees [OF router _ named(1,2)] by (cases "fgOperation F ''operationType'' raw") auto
    ultimately show ?thesis using ok d
      by (cases "access_gates (libPeer E) (libText E) G caller raw"; cases "maa_decode (libText E) F opn raw")
        (auto simp: maa_access_def maaResponseWriter_def)
  next
    case True
    then obtain req where req: "maa_decode (libText E) F opn raw = Inr req" by blast
    have br: "banned_request (libPeer E) caller req"
      using banned_operation [OF ok named] maa_decode_kinds [of "libText E" F raw req] banned_retrieve [OF ok named(1)] named(1,2) req
      by (auto simp: banned_request_def)
    obtain r s1 where h: "maa_handle E caller req s = (r, s1)" by fastforce
    have "req \<noteq> ClaimReq p f" for p f using br by (auto simp: banned_request_def)
    then have "others_safe (peer_String (libPeer E) caller) (Storage s) (Storage s1)"
      using maa_handle_others [OF inv, of req E caller] h by simp
    then show ?thesis using br req True ok d h by (auto simp: maa_access_def)
  qed
qed

definition banned_gates :: gate_env where
  "banned_gates = demo_gates\<lparr>geBans := Some (demo_bans\<lparr>banSet :=
     [(PeerID ''B'', \<lparr>banPeerID = ''42'', banReason = ''spam'', BannedBy = ''4d'', BannedAt = 5\<rparr>)]\<rparr>)\<rparr>"

definition expunge_text :: json_text where
  "expunge_text = one_request (JObj [(''operationType'', JStr ''expunge''), (''peerId'', JStr ''42'')])"

theorem banned_peer_confined_witness:
  "maa_access (demo_libs\<lparr>libText := expunge_text\<rparr>) (field_router expunge_text) banned_gates (PeerID ''B'') [] demo_srv
     = (Return (ErrorResponse (''unauthorized: '' @ BannedMessage) StatusForbidden 0), demo_srv)
   \<and> fst (maa_access (demo_libs\<lparr>libText := delete_text\<rparr>) (field_router delete_text) banned_gates (PeerID ''B'') [] demo_srv) = Return (DeleteMessagesAck True 1 [])"
proof -
  let ?E = "demo_libs\<lparr>libText := expunge_text\<rparr>" and ?F = "field_router expunge_text" and ?B = "PeerID ''B''"
  let ?k = "[(''operationType'', JStr ''expunge''), (''peerId'', JStr ''42'')]"
  have a: "IsBanned (geBans banned_gates) ?B" by code_simp
  have b: "object_fields (libText ?E) [] = Some ?k" by code_simp
  have c: "json_field dec_string [] ''operationType'' ?k = Some ''expunge''" by code_simp
  have d: "exact_router (libText ?E) ?F" "one_spelling (libText ?E) ''operationType'' []"
    by (simp, code_simp)
  have inv: "db_inv (Storage demo_srv)" using demo_srv_inv by (simp add: srv_inv_def)
  have e: "\<not> BannedMayAccess (libPeer ?E) (libText ?E) ?B []" by code_simp
  have f: "fst (maa_access (demo_libs\<lparr>libText := delete_text\<rparr>) (field_router delete_text) banned_gates ?B [] demo_srv) = Return (DeleteMessagesAck True 1 [])"
    by code_simp
  from banned_peer_confined [OF a inv b c _ d] e f show ?thesis by simp
qed

text \<open>
  A request that leaves its operation out is decoded twice, and between the two the middleware puts
  the fields in the order of their keys. Of two spellings of a key the later one counts, so what
  the ban gate read is not what the handler reads.
\<close>

definition spelt_twice :: "(string \<times> json) list" where
  "spelt_twice = [(''peerId'', JStr ''42''), (''folderpath'', JStr ''inbox''), (''folderPath'', JStr ''trust-safety'')]"

definition patched :: "(string \<times> json) list" where
  "patched = [(''folderPath'', JStr ''trust-safety''), (''folderpath'', JStr ''inbox''),
     (''operationType'', JStr ''retrieve''), (''peerId'', JStr ''42'')]"

definition bypass_text :: json_text where
  "bypass_text = \<lparr>json_enc = (\<lambda>j. if j = JObj patched then [1] else []), json_dec = (\<lambda>b. Inr (JObj (if b = [1] then patched else spelt_twice)))\<rparr>"

lemma patched_fields: "map_fields (spelt_twice @ [(''operationType'', JStr ''retrieve'')]) = patched"
  by code_simp

text \<open>
  C32. The confinement of a banned peer can be escaped: a request that leaves the operation out and
  spells the folder key twice passes the ban gate as a read of trust-safety and is served as a read
  of the inbox. A body of null, from any peer, panics in the middleware that fills in the operation.
\<close>

theorem banned_peer_bypass:
  "IsBanned (geBans banned_gates) (PeerID ''B'')
   \<and> maa_access (demo_libs\<lparr>libText := bypass_text\<rparr>) (field_router bypass_text) banned_gates (PeerID ''B'') [] s
     = (let (r, s1) = handleRetrieve (demo_libs\<lparr>libText := bypass_text\<rparr>) (PeerID ''B'')
            \<lparr>rqPeerID = ''42'', rqFolderPath = ''inbox'', rqFromSequence = None, rqMaxMessages = None, rqMinPriority = None\<rparr> s
        in (Return (maaResponseWriter r), s1))
   \<and> maa_access (demo_libs\<lparr>libText := one_request JNull\<rparr>) F demo_gates (PeerID ''C'') [] s = (Panic, s)"
proof -
  let ?E = "demo_libs\<lparr>libText := bypass_text\<rparr>" and ?F = "field_router bypass_text" and ?B = "PeerID ''B''"
  let ?N = "demo_libs\<lparr>libText := one_request JNull\<rparr>"
  have g: "access_gates (libPeer ?E) (libText ?E) banned_gates ?B [] = None" by code_simp
  have d: "defaultOperationType (libText ?E) [] = Return [1]" by code_simp
  have o: "fgOperation ?F ''operationType'' [1] = Inr ''retrieve''" by code_simp
  have m: "maa_decode (libText ?E) ?F ''retrieve'' [1] = Inr (RetrieveReq
      \<lparr>rqPeerID = ''42'', rqFolderPath = ''inbox'', rqFromSequence = None, rqMaxMessages = None, rqMinPriority = None\<rparr>)" by code_simp
  have n: "access_gates (libPeer ?N) (libText ?N) demo_gates (PeerID ''C'') [] = None" "defaultOperationType (libText ?N) [] = Panic" by code_simp+
  have "IsBanned (geBans banned_gates) ?B" by code_simp
  then show ?thesis using g d o m n by (simp add: maa_access_def)
qed

end
