(* ===== verification/Mma_Props.thy ===== *)
theory Mma_Props
  imports Mma Maa_Props
begin

text \<open>
  What the management protocol guarantees: a request decoded, normalised, encoded and decoded again
  is the normalised request; it acts on the mailboxes of its caller only; and the settings it
  writes are positive and within the ceilings of the server.
\<close>

section \<open>The normalised request\<close>

definition admin_int64 :: "AdminRequest \<Rightarrow> bool" where
  "admin_int64 r \<longleftrightarrow> list_all (\<lambda>v. case v of None \<Rightarrow> True | Some i \<Rightarrow> int64_ok i) [arMaxMessages r, arRetentionDays r, arRetentionCount r]"

definition key_values :: "string \<Rightarrow> (string \<times> json) list \<Rightarrow> json list" where
  "key_values n kvs = map snd (filter (\<lambda>kv. fold_name (fst kv) = fold_name n) kvs)"

lemma key_values_simps:
  "key_values n [] = []"
  "key_values n ((k, v) # kvs) = (if fold_name k = fold_name n then v # key_values n kvs else key_values n kvs)"
  "key_values n (xs @ ys) = key_values n xs @ key_values n ys"
  "key_values n (omit_string k s) = (if fold_name k = fold_name n then (if s = [] then [] else [JStr s]) else [])"
  "key_values n (omit_int k w) = (if fold_name k = fold_name n then (case w of None \<Rightarrow> [] | Some i \<Rightarrow> [JNum i]) else [])"
  by (auto simp: key_values_def omit_string_def omitempty_def omit_int_def split: option.splits)

lemma admin_keys_fold:
  "fold_name ''operationType'' = ''operationtype''" "fold_name ''ownerPeerId'' = ''ownerpeerid''"
  "fold_name ''folderPath'' = ''folderpath''" "fold_name ''address'' = ''address''" "fold_name ''type'' = ''type''"
  "fold_name ''mailboxType'' = ''mailboxtype''" "fold_name ''maxMessages'' = ''maxmessages''"
  "fold_name ''retentionDays'' = ''retentiondays''" "fold_name ''retentionCount'' = ''retentioncount''"
  "fold_name ''granteePeerId'' = ''granteepeerid''" "fold_name ''targetPeerId'' = ''targetpeerid''"
  "fold_name ''accessMode'' = ''accessmode''"
  by code_simp+

lemma string_field:
  assumes "key_values n kvs = (if s = [] then [] else [JStr s])"
  shows "json_field dec_string [] n kvs = Some s"
proof -
  have "field_values n kvs = filter (\<lambda>v. v \<noteq> JNull) (key_values n kvs)"
    by (induction kvs) (auto simp: field_values_def key_values_def)
  then show ?thesis using assms by (simp add: json_field_def Let_def split: if_splits)
qed

lemma int_field:
  assumes "key_values n kvs = (case v of None \<Rightarrow> [] | Some i \<Rightarrow> [JNum i])" "case v of None \<Rightarrow> True | Some i \<Rightarrow> int64_ok i"
  shows "json_ref (dec_ptr dec_int64) None n kvs = Some v"
  using assms unfolding json_ref_def Let_def key_values_def [symmetric]
  by (cases v) (simp_all add: dec_ptr_def int64_ok_def)

lemma admin_values:
  "key_values ''operationType'' (admin_json r) = [JStr (arOperationType r)]"
  "key_values ''ownerPeerId'' (admin_json r) = (if arOwnerPeerID r = [] then [] else [JStr (arOwnerPeerID r)])"
  "key_values ''folderPath'' (admin_json r) = (if arFolderPath r = [] then [] else [JStr (arFolderPath r)])"
  "key_values ''address'' (admin_json r) = (if arAddress r = [] then [] else [JStr (arAddress r)])"
  "key_values ''type'' (admin_json r) = (if arType r = [] then [] else [JStr (arType r)])"
  "key_values ''mailboxType'' (admin_json r) = (if arMailboxType r = [] then [] else [JStr (arMailboxType r)])"
  "key_values ''maxMessages'' (admin_json r) = (case arMaxMessages r of None \<Rightarrow> [] | Some i \<Rightarrow> [JNum i])"
  "key_values ''retentionDays'' (admin_json r) = (case arRetentionDays r of None \<Rightarrow> [] | Some i \<Rightarrow> [JNum i])"
  "key_values ''retentionCount'' (admin_json r) = (case arRetentionCount r of None \<Rightarrow> [] | Some i \<Rightarrow> [JNum i])"
  "key_values ''granteePeerId'' (admin_json r) = (if arGranteePeerID r = [] then [] else [JStr (arGranteePeerID r)])"
  "key_values ''targetPeerId'' (admin_json r) = (if arTargetPeerID r = [] then [] else [JStr (arTargetPeerID r)])"
  "key_values ''accessMode'' (admin_json r) = (if arAccessMode r = [] then [] else [JStr (arAccessMode r)])"
  unfolding admin_json_def by (simp_all add: key_values_simps admin_keys_fold split del: if_split)

lemma operation_field:
  assumes "key_values n kvs = [JStr s]"
  shows "json_field dec_string [] n kvs = Some s"
proof -
  have "field_values n kvs = filter (\<lambda>v. v \<noteq> JNull) (key_values n kvs)"
    by (induction kvs) (auto simp: field_values_def key_values_def)
  then show ?thesis using assms by (simp add: json_field_def Let_def)
qed

lemma dec_admin_json:
  assumes "admin_int64 r"
  shows "dec_AdminRequest (admin_json r) = Some r"
  using assms unfolding dec_AdminRequest_def
  by (simp add: admin_values(1) [THEN operation_field] admin_values(2-6,10-12) [THEN string_field]
      admin_values(7-9) [THEN int_field] admin_int64_def)

lemma dec_ptr_int64: "dec_ptr dec_int64 j = Some v \<Longrightarrow> (case v of None \<Rightarrow> True | Some i \<Rightarrow> int64_ok i)"
  by (cases j) (auto simp: dec_ptr_def int64_ok_def split: if_splits)

lemma json_ref_int64: "json_ref (dec_ptr dec_int64) None n kvs = Some v \<Longrightarrow> (case v of None \<Rightarrow> True | Some i \<Rightarrow> int64_ok i)"
  by (auto simp: json_ref_def Let_def split: if_splits dest: dec_ptr_int64)

lemma normalize_int64: "admin_int64 (normalize r) = admin_int64 r"
  by (simp add: admin_int64_def normalize_def Let_def split: option.split)

lemma bind_SomeE: "Option.bind m f = Some y \<Longrightarrow> (\<And>x. m = Some x \<Longrightarrow> f x = Some y \<Longrightarrow> P) \<Longrightarrow> P"
  by (cases m) auto

lemma dec_AdminRequest_int64:
  assumes "dec_AdminRequest kvs = Some r"
  shows "admin_int64 r"
  using assms unfolding dec_AdminRequest_def
  apply (elim bind_SomeE)
  apply (drule json_ref_int64)+
  apply (simp only: option.inject)
  apply hypsubst
  apply (simp add: admin_int64_def)
  done

text \<open>A request decoded, normalised, encoded and decoded again is the normalised request.\<close>

lemma normalised_twice:
  assumes "Option.bind (object_fields T raw) dec_AdminRequest = Some req"
    and "json_dec T (json_enc T (JObj (admin_json (normalize req)))) = Inr (JObj (admin_json (normalize req)))"
  shows "\<exists>raw'. dartNormalize T raw = Inr raw' \<and> Option.bind (object_fields T raw') dec_AdminRequest = Some (normalize req)"
proof -
  obtain kvs where "dec_AdminRequest kvs = Some req" using assms(1) by (auto elim!: bind_SomeE)
  then have "admin_int64 (normalize req)" using dec_AdminRequest_int64 normalize_int64 by blast
  then show ?thesis using assms by (simp add: dartNormalize_def object_fields_def dec_admin_json)
qed


section \<open>Whose mailboxes a request touches\<close>

text \<open>
  Messages, mailboxes and grants of every other owner are as they were; a mailbox that was not there
  belongs to the owner named.
\<close>

definition owns_id :: "string \<Rightarrow> db \<Rightarrow> int \<Rightarrow> bool" where
  "owns_id p d i \<longleftrightarrow> i \<in> set (map mbID (filter (\<lambda>r. OwnerPeerID r = p) (mailboxes d)))"

definition others_apart :: "string \<Rightarrow> db \<Rightarrow> db \<Rightarrow> bool" where
  "others_apart p d d' \<longleftrightarrow>
     filter (\<lambda>m. \<not> owned_by p d m) (stored_messages d') = filter (\<lambda>m. \<not> owned_by p d m) (stored_messages d)
     \<and> filter (\<lambda>r. OwnerPeerID r \<noteq> p) (mailboxes d') = filter (\<lambda>r. OwnerPeerID r \<noteq> p) (mailboxes d)
     \<and> filter (\<lambda>a. \<not> owns_id p d (aclMailboxID a)) (mailbox_acls d') = filter (\<lambda>a. \<not> owns_id p d (aclMailboxID a)) (mailbox_acls d)"

lemma others_apart_refl [simp]: "others_apart p d d" "others_apart p d (next_faults d)" "others_apart p (next_faults d) d' = others_apart p d d'"
  by (simp_all add: others_apart_def owns_id_def)

lemma owned_by_id: "owned_by p d m = owns_id p d (smMailboxID m)"
  by (simp add: owned_by_def owns_id_def)

lemma owns_id_env [simp]: "owns_id p (next_faults d) = owns_id p d"
  by (simp add: owns_id_def fun_eq_iff)

lemma stmt_apart:
  assumes "others_apart p d (snd (f (next_faults d)))"
  shows "others_apart p d (snd (stmt f d))"
  using assms by (rule stmt_snd_case) simp

lemma owner_of_id:
  assumes "db_inv d" "owns_id p d i" "r \<in> set (mailboxes d)" "mbID r = i"
  shows "OwnerPeerID r = p"
  using assms distinct_key_unique [of mbID "mailboxes d"] by (auto simp: owns_id_def db_inv_def ids_ok_def)

lemma delete_mailbox_apart:
  assumes "db_inv d" "owns_id p d i"
  shows "others_apart p d (snd (pg_DeleteMailbox i d))"
  unfolding pg_DeleteMailbox_def
  by (rule stmt_apart) (use assms owner_of_id in \<open>auto simp: others_apart_def owned_by_id intro!: filter_cong\<close>)

lemma grant_apart:
  assumes "owns_id p d i"
  shows "others_apart p d (snd (pg_GrantAccess L i q m d))"
proof -
  have "filter (\<lambda>a. \<not> owns_id p d (aclMailboxID a))
      (map (\<lambda>a. if aclMailboxID a = i \<and> aclPeerID a = peer_String L q then a\<lparr>aclAccessMode := m, aclGrantedAt := w\<rparr> else a) acls)
      = filter (\<lambda>a. \<not> owns_id p d (aclMailboxID a)) acls" for acls w
    using assms by (induction acls) auto
  then show ?thesis unfolding pg_GrantAccess_def
    by (intro stmt_apart) (use assms in \<open>auto simp: others_apart_def\<close>)
qed

lemma revoke_apart:
  assumes "owns_id p d i"
  shows "others_apart p d (snd (pg_RevokeAccess L i q d))"
  unfolding pg_RevokeAccess_def
  by (rule stmt_apart) (use assms in \<open>auto simp: others_apart_def intro!: filter_cong\<close>)


section \<open>Settings\<close>

definition within :: "int \<Rightarrow> int \<Rightarrow> bool" where
  "within ceiling v \<longleftrightarrow> 0 < v \<and> v \<le> ceiling"

definition settings_step :: "MailboxDefaults \<Rightarrow> mailbox_row \<Rightarrow> mailbox_row \<Rightarrow> bool" where
  "settings_step df r r' \<longleftrightarrow> mbID r' = mbID r \<and> OwnerPeerID r' = OwnerPeerID r \<and> mbFolderPath r' = mbFolderPath r \<and> mbType r' = mbType r
     \<and> (MaxMessages r' = MaxMessages r \<or> within (dfMaxMessages df) (MaxMessages r'))
     \<and> (RetentionDays r' = RetentionDays r \<or> within (dfRetentionDays df) (RetentionDays r'))
     \<and> (RetentionCount r' = RetentionCount r \<or> (\<exists>c. RetentionCount r' = Some c \<and> within (dfMaxMessages df) c))"

definition new_mailbox :: "MailboxDefaults \<Rightarrow> string \<Rightarrow> mailbox_row \<Rightarrow> bool" where
  "new_mailbox df p r \<longleftrightarrow> OwnerPeerID r = p \<and> mbType r \<le> MailboxClaim
     \<and> within (dfMaxMessages df) (MaxMessages r) \<and> within (dfRetentionDays df) (RetentionDays r)
     \<and> (\<forall>c. RetentionCount r = Some c \<longrightarrow> within (dfMaxMessages df) c)"

text \<open>What an admin request of the owner may do to the store.\<close>

definition admin_effect :: "MailboxDefaults \<Rightarrow> string \<Rightarrow> db \<Rightarrow> db \<Rightarrow> bool" where
  "admin_effect df p d d' \<longleftrightarrow> others_apart p d d'
     \<and> (\<forall>r' \<in> set (mailboxes d'). (\<exists>r \<in> set (mailboxes d). settings_step df r r') \<or> new_mailbox df p r')"

lemma settings_step_refl [simp]: "settings_step df r r"
  by (simp add: settings_step_def)

lemma admin_effect_apart:
  assumes "others_apart p d d'" "set (mailboxes d') \<subseteq> set (mailboxes d)"
  shows "admin_effect df p d d'"
  using assms settings_step_refl unfolding admin_effect_def by blast

lemma admin_effect_env [simp]: "admin_effect df p d d" "admin_effect df p d (next_faults d)"
    "admin_effect df p d (next_faults d') = admin_effect df p d d'" "admin_effect df p (next_faults d) d' = admin_effect df p d d'"
  by (rule admin_effect_apart; simp)+ (simp_all add: admin_effect_def others_apart_def owns_id_def)

text \<open>A change of rows that keeps every row of the store but may add one for the owner.\<close>

lemma create_effect:
  assumes "admin_effect df p d x" "p = peer_String L (OwnerID a)" "addrType a \<le> MailboxClaim"
    and "within (dfMaxMessages df) m" "within (dfRetentionDays df) n" "\<And>k. c = Some k \<Longrightarrow> within (dfMaxMessages df) k"
  shows "admin_effect df p d (snd (pg_GetOrCreateMailbox L a m n c x))"
  unfolding pg_GetOrCreateMailbox_def
proof (rule stmt_snd_case [where Q = "admin_effect df p d"])
  show "admin_effect df p d (next_faults x)" using assms(1) by simp
qed (use assms in \<open>auto simp: Let_def admin_effect_def others_apart_def new_mailbox_def insert_mailbox_def split: option.splits\<close>)

lemma getOrCreateMailbox_keeps:
  assumes Q: "Q (Storage s)" and env: "\<And>x. Q x \<Longrightarrow> Q (next_faults x)"
    and create: "\<And>x. Q x \<Longrightarrow> Q (snd (pg_GetOrCreateMailbox (libPeer E) a m n c x))"
  shows "Q (Storage (snd (getOrCreateMailbox E a m n c s)))"
proof -
  have cache: "Storage (snd (cache_mailbox E k rec t)) = Storage t" for k rec t
    by (simp add: cache_mailbox_def split: sum.splits)
  obtain hit c0 where ck: "ckGet (libCache E) (FullPath (libPeer E) a) (mailboxCache s) = (hit, c0)" by fastforce
  let ?s0 = "s\<lparr>mailboxCache := c0\<rparr>"
  obtain w s1 where f: "with_db (pg_FindMailbox (libPeer E) (OwnerID a) (addrFolderPath a)) ?s0 = (w, s1)" by fastforce
  have q1: "Q (Storage s1)" using f Q env by (auto simp: with_db_eq dest!: pg_FindMailbox_snd)
  obtain v s2 where g: "(if w = Inr None then checkMailboxQuota E (OwnerID a) s1 else (Inr (), s1)) = (v, s2)" by fastforce
  have q2: "Q (Storage s2)" using g q1 env by (auto dest!: quota_result split: if_splits)
  have q3: "Q (snd (pg_GetOrCreateMailbox (libPeer E) a m n c (Storage s2)))" using create q2 .
  show ?thesis
  proof (cases "hit = None")
    case hit: True
    show ?thesis
    proof (cases w)
      case (Inl e)
      then show ?thesis using hit ck f q1 by (simp add: getOrCreateMailbox_def Let_def)
    next
      case (Inr ex)
      then have g': "(if ex = None then checkMailboxQuota E (OwnerID a) s1 else (Inr (), s1)) = (v, s2)" using g by simp
      obtain y s3 where y: "with_db (pg_GetOrCreateMailbox (libPeer E) a m n c) s2 = (y, s3)" by fastforce
      then have "Q (Storage s3)" using q3 by (auto simp: with_db_eq)
      then show ?thesis using hit ck f Inr g' y q2
        by (cases v; cases y) (simp_all add: getOrCreateMailbox_def Let_def cache)
    qed
  qed (use ck Q in \<open>auto simp: getOrCreateMailbox_def Let_def\<close>)
qed

lemma filter_map_kept:
  "(\<And>x. x \<in> set xs \<Longrightarrow> P (f x) = P x \<and> (P x \<longrightarrow> f x = x)) \<Longrightarrow> filter P (map f xs) = filter P xs"
  by (induction xs) auto

lemma map_effect:
  assumes "filter (\<lambda>x. OwnerPeerID x \<noteq> p) (map f (mailboxes d)) = filter (\<lambda>x. OwnerPeerID x \<noteq> p) (mailboxes d)"
    and "\<And>x. x \<in> set (mailboxes d) \<Longrightarrow> settings_step df x (f x)"
  shows "admin_effect df p d ((next_faults d)\<lparr>mailboxes := map f (mailboxes d)\<rparr>)"
  using assms by (auto simp: admin_effect_def others_apart_def)

lemma update_effect:
  assumes inv: "db_inv d" and r: "r \<in> set (mailboxes d)" "OwnerPeerID r = p"
    and new: "mbID rec = mbID r" "MaxMessages rec = MaxMessages r \<or> within (dfMaxMessages df) (MaxMessages rec)"
      "RetentionDays rec = RetentionDays r \<or> within (dfRetentionDays df) (RetentionDays rec)"
      "RetentionCount rec = RetentionCount r \<or> (\<exists>c. RetentionCount rec = Some c \<and> within (dfMaxMessages df) c)"
  shows "admin_effect df p d (snd (pg_UpdateMailbox rec d))"
  unfolding pg_UpdateMailbox_def
proof (rule stmt_snd_case [where Q = "admin_effect df p d"])
  let ?f = "\<lambda>x :: mailbox_row. if mbID x = mbID rec then x\<lparr>MaxMessages := MaxMessages rec, RetentionDays := RetentionDays rec,
      RetentionCount := RetentionCount rec, LastAccessAt := LastAccessAt rec\<rparr> else x"
  have same: "x = r" if "x \<in> set (mailboxes d)" "mbID x = mbID rec" for x
    using that inv r(1) new(1) distinct_key_unique [of mbID "mailboxes d" x r] by (simp add: db_inv_def ids_ok_def)
  have "filter (\<lambda>x. OwnerPeerID x \<noteq> p) (map ?f (mailboxes d)) = filter (\<lambda>x. OwnerPeerID x \<noteq> p) (mailboxes d)"
    by (rule filter_map_kept) (use same r(2) in auto)
  moreover have "settings_step df x (?f x)" if "x \<in> set (mailboxes d)" for x
  proof (cases "mbID x = mbID rec")
    case True
    then have "x = r" using same that by blast
    then show ?thesis using True new(2-4) by (simp add: settings_step_def)
  qed simp
  ultimately have "admin_effect df p d ((next_faults d)\<lparr>mailboxes := map ?f (mailboxes d)\<rparr>)" by (rule map_effect)
  then show "admin_effect df p d (snd (Inr (), update_mailbox_rows (\<lambda>r. r\<lparr>MaxMessages := MaxMessages rec,
      RetentionDays := RetentionDays rec, RetentionCount := RetentionCount rec, LastAccessAt := LastAccessAt rec\<rparr>) (mbID rec) (next_faults d)))"
    by (simp add: update_mailbox_rows_def)
qed simp

text \<open>What the shared settings check lets through.\<close>

lemma clamp_setting_Inr:
  "clamp_setting name asked ceiling cur wrap = Inr v \<Longrightarrow> 0 < ceiling \<Longrightarrow> v = cur \<or> (\<exists>i. v = wrap i \<and> within ceiling i)"
  by (auto simp: clamp_setting_def within_def split: option.splits if_splits)

lemma clampMailboxSettings_Inr:
  assumes "clampMailboxSettings df a b c cm cr cc = Inr (mx, rd, rc)" "0 < dfMaxMessages df" "0 < dfRetentionDays df"
  shows "(mx = cm \<or> within (dfMaxMessages df) mx) \<and> (rd = cr \<or> within (dfRetentionDays df) rd)
    \<and> (rc = cc \<or> (\<exists>i. rc = Some i \<and> within (dfMaxMessages df) i))"
  using assms by (auto simp: clampMailboxSettings_def split: sum.splits dest!: clamp_setting_Inr)

lemma clampMailboxSettings_new:
  assumes "clampMailboxSettings df a b c (dfMaxMessages df) (dfRetentionDays df) None = Inr (mx, rd, rc)"
    "0 < dfMaxMessages df" "0 < dfRetentionDays df"
  shows "within (dfMaxMessages df) mx" "within (dfRetentionDays df) rd" "rc = Some i \<Longrightarrow> within (dfMaxMessages df) i"
  using clampMailboxSettings_Inr [OF assms] assms(2,3) by (auto simp: within_def)

lemma MailboxTypeFromString_named: "MailboxTypeFromString x = Inr t \<Longrightarrow> t \<le> MailboxClaim"
  by (auto simp: MailboxTypeFromString_def Let_def mailbox_type_defs split: if_splits)

lemma NewMailboxAddress_Inr: "NewMailboxAddress q f t = Inr a \<Longrightarrow> OwnerID a = q \<and> addrFolderPath a = f \<and> addrType a = t"
  by (auto simp: NewMailboxAddress_def split: option.splits sum.splits if_splits)

lemma with_mailbox_effect:
  assumes "\<And>r s1. r \<in> set (mailboxes (Storage s)) \<Longrightarrow> OwnerPeerID r = peer_String (libPeer E) caller
      \<Longrightarrow> s1 = s\<lparr>Storage := next_faults (Storage s)\<rparr> \<Longrightarrow> admin_effect df p (Storage s) (Storage (snd (k (record_of r) s1)))"
  shows "admin_effect df p (Storage s) (Storage (snd (with_mailbox E caller f k s)))"
proof -
  obtain x d where x: "pg_FindMailbox (libPeer E) caller f (Storage s) = (x, d)" by fastforce
  then have w: "with_db (pg_FindMailbox (libPeer E) caller f) s = (x, s\<lparr>Storage := d\<rparr>)" by (simp add: with_db_def)
  have d: "d = next_faults (Storage s)" by (rule pg_FindMailbox_snd [OF x])
  show ?thesis
  proof (cases "\<exists>rec. x = Inr (Some rec)")
    case True
    then obtain rec where rec: "x = Inr (Some rec)" by blast
    with pg_FindMailbox_InrD [of "libPeer E" caller f "Storage s" "Some rec" d] x obtain r where
      "r \<in> set (mailboxes (Storage s))" "rec = record_of r" "OwnerPeerID r = peer_String (libPeer E) caller" by auto
    then show ?thesis using assms [of r "s\<lparr>Storage := d\<rparr>"] w d rec by (simp add: with_mailbox_def)
  next
    case False
    then show ?thesis using w d by (auto simp: with_mailbox_def split: sum.splits option.splits)
  qed
qed

text \<open>A creation that reaches the server runs with checked settings on an address of the caller.\<close>

lemma handleCreateMailbox_runs:
  assumes "snd (handleCreateMailbox E caller req s) \<noteq> s"
  obtains addr mx rd rc where "OwnerID addr = caller" "addrType addr \<le> MailboxClaim"
    "clampMailboxSettings (defaults s) (arMaxMessages req) (arRetentionDays req) (arRetentionCount req)
       (dfMaxMessages (defaults s)) (dfRetentionDays (defaults s)) None = Inr (mx, rd, rc)"
    "snd (handleCreateMailbox E caller req s) = snd (getOrCreateMailbox E addr mx rd rc s)"
proof -
  obtain ty addr mx rd rc where ty: "(if arMailboxType req = [] then Inr MailboxPrivate else MailboxTypeFromString (arMailboxType req)) = Inr ty"
    and addr: "NewMailboxAddress caller (arFolderPath req) ty = Inr addr"
    and cl: "clampMailboxSettings (defaults s) (arMaxMessages req) (arRetentionDays req) (arRetentionCount req)
               (dfMaxMessages (defaults s)) (dfRetentionDays (defaults s)) None = Inr (mx, rd, rc)"
    and run: "snd (handleCreateMailbox E caller req s) = snd (CreateMailbox E addr mx rd rc s)"
    using assms by (auto simp: handleCreateMailbox_def split: option.splits sum.splits if_splits prod.splits)
  have "OwnerID addr = caller" "addrType addr \<le> MailboxClaim"
    using NewMailboxAddress_Inr [OF addr] ty MailboxTypeFromString_named by (auto simp: mailbox_type_defs split: if_splits)
  moreover have "snd (CreateMailbox E addr mx rd rc s) = snd (getOrCreateMailbox E addr mx rd rc s)"
    by (simp add: CreateMailbox_def split: prod.splits sum.splits)
  ultimately show ?thesis using that cl run by simp
qed

lemma handleCreateMailbox_effect:
  assumes df: "0 < dfMaxMessages (defaults s)" "0 < dfRetentionDays (defaults s)"
  shows "admin_effect (defaults s) (peer_String (libPeer E) caller) (Storage s) (Storage (snd (handleCreateMailbox E caller req s)))"
proof (cases "snd (handleCreateMailbox E caller req s) = s")
  case False
  then show ?thesis
  proof (rule handleCreateMailbox_runs)
    fix addr mx rd rc
    assume a: "OwnerID addr = caller" "addrType addr \<le> MailboxClaim"
      and cl: "clampMailboxSettings (defaults s) (arMaxMessages req) (arRetentionDays req) (arRetentionCount req)
        (dfMaxMessages (defaults s)) (dfRetentionDays (defaults s)) None = Inr (mx, rd, rc)"
      and run: "snd (handleCreateMailbox E caller req s) = snd (getOrCreateMailbox E addr mx rd rc s)"
    show ?thesis unfolding run
      by (rule getOrCreateMailbox_keeps) (use a clampMailboxSettings_new [OF cl df] in \<open>auto intro!: create_effect\<close>)
  qed
qed simp

lemma handleDeleteMailbox_effect:
  assumes inv: "db_inv (Storage s)"
  shows "admin_effect df (peer_String (libPeer E) caller) (Storage s) (Storage (snd (handleDeleteMailbox E caller req s)))"
proof (cases "snd (handleDeleteMailbox E caller req s) = s")
  case False
  let ?p = "peer_String (libPeer E) caller" and ?a = "\<lparr>OwnerID = caller, addrFolderPath = arFolderPath req, addrType = 0\<rparr>"
  have run: "snd (handleDeleteMailbox E caller req s) = snd (DeleteMailbox E ?a s)"
    using False by (auto simp: handleDeleteMailbox_def split: option.splits sum.splits if_splits prod.splits)
  obtain x d where x: "pg_FindMailbox (libPeer E) caller (arFolderPath req) (Storage s) = (x, d)" by fastforce
  then have w: "with_db (pg_FindMailbox (libPeer E) (OwnerID ?a) (addrFolderPath ?a)) s = (x, s\<lparr>Storage := d\<rparr>)" by (simp add: with_db_def)
  have d: "d = next_faults (Storage s)" by (rule pg_FindMailbox_snd [OF x])
  show ?thesis
  proof (cases "\<exists>rec. x = Inr (Some rec)")
    case True
    then obtain rec where rec: "x = Inr (Some rec)" by blast
    with pg_FindMailbox_InrD [of "libPeer E" caller "arFolderPath req" "Storage s" "Some rec" d] x
    have own: "owns_id ?p d (mbID rec)" by (auto simp: owns_id_def)
    have "others_apart ?p d (snd (pg_DeleteMailbox (mbID rec) d))" by (rule delete_mailbox_apart) (use inv d own in simp_all)
    moreover have "set (mailboxes (snd (pg_DeleteMailbox (mbID rec) d))) \<subseteq> set (mailboxes d)"
      unfolding pg_DeleteMailbox_def by (rule stmt_snd_case [where Q = "\<lambda>e. set (mailboxes e) \<subseteq> set (mailboxes d)"]) auto
    ultimately have eff: "admin_effect df ?p (Storage s) (snd (pg_DeleteMailbox (mbID rec) d))"
      using admin_effect_apart d by fastforce
    have "Storage (snd (DeleteMailbox E ?a s)) = snd (pg_DeleteMailbox (mbID rec) d)"
      using w rec by (auto simp: DeleteMailbox_def emit_def with_db_def Let_def split: prod.splits sum.splits)
    then show ?thesis using eff run by simp
  next
    case False
    then show ?thesis using w d run by (auto simp: DeleteMailbox_def split: sum.splits option.splits)
  qed
qed simp

lemma handleUpdateConfig_effect:
  assumes inv: "db_inv (Storage s)" and df: "0 < dfMaxMessages (defaults s)" "0 < dfRetentionDays (defaults s)"
  shows "admin_effect (defaults s) (peer_String (libPeer E) caller) (Storage s) (Storage (snd (handleUpdateConfig E caller req s)))"
proof (cases "arFolderPath req = []")
  case False
  let ?p = "peer_String (libPeer E) caller"
  show ?thesis unfolding handleUpdateConfig_def if_not_P [OF False]
  proof (rule with_mailbox_effect)
    fix r s1 assume r: "r \<in> set (mailboxes (Storage s))" "OwnerPeerID r = ?p" and s1: "s1 = s\<lparr>Storage := next_faults (Storage s)\<rparr>"
    let ?cl = "clampMailboxSettings (defaults s) (arMaxMessages req) (arRetentionDays req) (arRetentionCount req)
               (MaxMessages r) (RetentionDays r) (RetentionCount r)"
    show "admin_effect (defaults s) ?p (Storage s) (Storage (snd (case clampMailboxSettings (defaults s1) (arMaxMessages req) (arRetentionDays req) (arRetentionCount req)
               (MaxMessages (record_of r)) (RetentionDays (record_of r)) (RetentionCount (record_of r)) of
          Inl e \<Rightarrow> (refusal StatusBadRequest (error_text e), s1)
        | Inr (mx, rd, rc) \<Rightarrow>
            (case UpdateMailbox E ((record_of r)\<lparr>MaxMessages := mx, RetentionDays := rd, RetentionCount := rc\<rparr>) s1 of
               (Inl e, s2) \<Rightarrow> (failed ''failed to update mailbox'' e, s2)
             | (Inr _, s2) \<Rightarrow> (Inr (AdminReply admin_ok), s2)))))"
    proof (cases ?cl)
      case (Inl e)
      then show ?thesis using s1 by simp
    next
      case (Inr v)
      then obtain mx rd rc where cl: "?cl = Inr (mx, rd, rc)" by (cases v) auto
      let ?rec = "(record_of r)\<lparr>MaxMessages := mx, RetentionDays := rd, RetentionCount := rc\<rparr>"
      have "admin_effect (defaults s) ?p (next_faults (Storage s)) (snd (pg_UpdateMailbox ?rec (next_faults (Storage s))))"
        by (rule update_effect [of _ r]) (use inv r clampMailboxSettings_Inr [OF cl df] in auto)
      moreover have "Storage (snd (UpdateMailbox E ?rec s1)) = snd (pg_UpdateMailbox ?rec (Storage s1))"
        by (auto simp: UpdateMailbox_def with_db_def Let_def split: prod.splits sum.splits)
      ultimately show ?thesis using cl s1 by (auto split: prod.splits sum.splits)
    qed
  qed
qed (simp add: handleUpdateConfig_def)

text \<open>The other handlers run one statement on the mailbox they found.\<close>

lemma one_statement_effect:
  assumes "\<And>r. r \<in> set (mailboxes (Storage s)) \<Longrightarrow> OwnerPeerID r = peer_String (libPeer E) caller
      \<Longrightarrow> admin_effect df p (next_faults (Storage s)) (snd (f (mbID r) (next_faults (Storage s))))"
  shows "admin_effect df p (Storage s) (Storage (snd (with_mailbox E caller fld (\<lambda>record s1.
     case with_db (f (mbID record)) s1 of (Inl e, s2) \<Rightarrow> (bad e, s2) | (Inr v, s2) \<Rightarrow> (good record v, s2)) s)))"
proof (rule with_mailbox_effect)
  fix r s1 assume "r \<in> set (mailboxes (Storage s))" "OwnerPeerID r = peer_String (libPeer E) caller" "s1 = s\<lparr>Storage := next_faults (Storage s)\<rparr>"
  then show "admin_effect df p (Storage s) (Storage (snd (case with_db (f (mbID (record_of r))) s1 of
      (Inl e, s2) \<Rightarrow> (bad e, s2) | (Inr v, s2) \<Rightarrow> (good (record_of r) v, s2))))"
    using assms [of r] by (auto simp: with_db_def Let_def split: prod.splits sum.splits)
qed

lemma owns_found: "r \<in> set (mailboxes d) \<Longrightarrow> OwnerPeerID r = p \<Longrightarrow> owns_id p d (mbID r)"
  by (auto simp: owns_id_def)

lemma grants_effect:
  assumes "owns_id p d i"
  shows "admin_effect df p d (snd (pg_GrantAccess L i q m d))" "admin_effect df p d (snd (pg_RevokeAccess L i q d))"
proof -
  have "set (mailboxes (snd (pg_GrantAccess L i q m d))) \<subseteq> set (mailboxes d)"
    unfolding pg_GrantAccess_def by (rule stmt_snd_case [where Q = "\<lambda>e. set (mailboxes e) \<subseteq> set (mailboxes d)"]) auto
  then show "admin_effect df p d (snd (pg_GrantAccess L i q m d))" by (rule admin_effect_apart [OF grant_apart [OF assms]])
  have "set (mailboxes (snd (pg_RevokeAccess L i q d))) \<subseteq> set (mailboxes d)"
    unfolding pg_RevokeAccess_def by (rule stmt_snd_case [where Q = "\<lambda>e. set (mailboxes e) \<subseteq> set (mailboxes d)"]) auto
  then show "admin_effect df p d (snd (pg_RevokeAccess L i q d))" by (rule admin_effect_apart [OF revoke_apart [OF assms]])
qed

lemma read_effect:
  "admin_effect df p d (snd (pg_ListACL i d))" "admin_effect df p d (snd (pg_GetMessageCount i d))"
  "admin_effect df p d (snd (pg_ListMailboxes L q d))"
  unfolding pg_ListACL_def pg_GetMessageCount_def pg_ListMailboxes_def
  by (rule stmt_snd_case [where Q = "admin_effect df p d"]; simp)+

lemma list_result: "pg_ListMailboxes L q d = (x, d') \<Longrightarrow> admin_effect df p d d'"
  using read_effect(3) [of df p d L q] by simp

lemma mma_handle_effect:
  assumes inv: "db_inv (Storage s)" and df: "0 < dfMaxMessages (defaults s)" "0 < dfRetentionDays (defaults s)"
  shows "admin_effect (defaults s) (peer_String (libPeer E) caller) (Storage s) (Storage (snd (mma_handle E so caller opn req s)))"
proof -
  let ?eff = "\<lambda>h :: ('a, 'b) mma_handler. admin_effect (defaults s) (peer_String (libPeer E) caller) (Storage s) (Storage (snd (h s)))"
  have "?eff (handleGrantAccess E caller req)"
    by (auto simp: handleGrantAccess_def owns_found split: option.split sum.split intro!: one_statement_effect grants_effect)
  moreover have "?eff (handleRevokeAccess E caller req)"
    by (auto simp: handleRevokeAccess_def owns_found split: option.split intro!: one_statement_effect grants_effect)
  moreover have "?eff (handleListACL E caller req)"
    by (auto simp: handleListACL_def read_effect split: option.split intro!: one_statement_effect)
  moreover have "?eff (handleListMailboxes E caller req)"
    by (auto simp: handleListMailboxes_def ListMailboxes_def with_db_def Let_def split: option.split sum.split prod.split
        intro: list_result)
  moreover have "?eff (handleGetMailboxInfo E caller req)"
    by (auto simp: handleGetMailboxInfo_def read_effect intro!: one_statement_effect)
  moreover have "?eff (handleQueryCapacity so)"
    by (simp add: handleQueryCapacity_def split: sum.split)
  moreover note handleCreateMailbox_effect [OF df, of E caller req] handleDeleteMailbox_effect [OF inv, of _ E caller req]
    handleUpdateConfig_effect [OF inv df, of E caller req]
  ultimately show ?thesis by (simp add: mma_handle_def)
qed

text \<open>
  C7. Whatever bytes a peer sends to the management protocol, and whichever faults the database has:
  the messages, the mailboxes and the grants of every other owner stay as they were, a mailbox that
  appears is the caller's, and every cap and retention of a mailbox is the one it had or a positive
  one within the ceilings of the server.
\<close>

theorem admin_own_mailboxes_bounded:
  assumes inv: "db_inv (Storage s)" and df: "defaults s = DefaultsFromConfig cfg"
    and run: "mma_admin E F G caller raw s = (resp, s')"
  shows "admin_effect (defaults s) (peer_String (libPeer E) caller) (Storage s) (Storage s')"
proof -
  have pos: "0 < dfMaxMessages (defaults s)" "0 < dfRetentionDays (defaults s)"
    using df by (simp_all add: DefaultsFromConfig_def orFallbacks_positive split: option.splits)
  show ?thesis
  proof (cases "s' = s")
    case False
    then obtain opn req x where "mma_handle E (geSampler G) caller opn req s = (x, s')"
      using run by (auto simp: mma_admin_def split: option.splits sum.splits if_splits prod.splits)
    then show ?thesis using mma_handle_effect [OF inv pos] by (metis snd_conv)
  qed simp
qed

definition admin_text :: "(string \<times> json) list \<Rightarrow> json_text" where
  "admin_text kvs = \<lparr>json_enc = (\<lambda>j. if j = JObj kvs then [1] else []), json_dec = (\<lambda>_. Inr (JObj kvs))\<rparr>"

definition update_text :: json_text where
  "update_text = admin_text [(''operationType'', JStr ''updateConfig''), (''folderPath'', JStr ''inbox''), (''maxMessages'', JNum 5000)]"

theorem admin_own_mailboxes_bounded_witness:
  "admin_effect (defaults demo_srv) ''42'' (Storage demo_srv)
     (Storage (snd (mma_admin (demo_libs\<lparr>libText := update_text\<rparr>) (field_router update_text) demo_gates (PeerID ''B'') [] demo_srv)))
   \<and> map MaxMessages (mailboxes (Storage (snd (mma_admin (demo_libs\<lparr>libText := update_text\<rparr>) (field_router update_text) demo_gates (PeerID ''B'') [] demo_srv)))) = [1000, 0]"
proof -
  let ?E = "demo_libs\<lparr>libText := update_text\<rparr>" and ?F = "field_router update_text"
  have a: "map MaxMessages (mailboxes (Storage (snd (mma_admin ?E ?F demo_gates (PeerID ''B'') [] demo_srv)))) = [1000, 0]" by code_simp
  have c: "peer_String (libPeer ?E) (PeerID ''B'') = ''42''" by code_simp
  have "db_inv (Storage demo_srv)" using demo_srv_inv by (simp add: srv_inv_def)
  moreover have "defaults demo_srv = DefaultsFromConfig None" by (simp add: demo_srv_def)
  ultimately show ?thesis
    using admin_own_mailboxes_bounded [of demo_srv None ?E ?F demo_gates "PeerID ''B''" "[]"] a c by (metis prod.collapse)
qed

end
