(* ===== verification/Server.thy ===== *)
theory Server
  imports Msa_Props Mma_Props
begin

text \<open>
  The mail agents together: the submission, access and management protocols serve their requests
  one after another on the same store and cache, between maintenance runs and whatever the
  environment does (time passing, statements failing, rows locked by others).
\<close>

datatype request =
    SubmitOne gate_env peer_id bytes
  | SubmitBatch gate_env peer_id bytes
  | AccessMail gate_env peer_id bytes
  | AdminMail gate_env peer_id bytes
  | Maintain
  | Environment millis "bool list" "int list"

definition on_mda :: "(('c, 'm) MailboxServer \<Rightarrow> ('c, 'm) MailboxServer) \<Rightarrow> ('c, 'm, 'r) Router \<Rightarrow> ('c, 'm, 'r) Router" where
  "on_mda f rt = rt\<lparr>rtMda := f (rtMda rt)\<rparr>"

fun serve :: "('c, 'm, 'l) libs \<Rightarrow> 'r limiter_lib \<Rightarrow> forge_lib \<Rightarrow> request \<Rightarrow> ('c, 'm, 'r) Router \<Rightarrow> ('c, 'm, 'r) Router" where
  "serve E M F (SubmitOne G p raw) rt = snd (submit E M G p raw rt)"
| "serve E M F (SubmitBatch G p raw) rt = snd (batch_submit E M G p raw rt)"
| "serve E M F (AccessMail G p raw) rt = on_mda (\<lambda>s. snd (maa_access E F G p raw s)) rt"
| "serve E M F (AdminMail G p raw) rt = on_mda (\<lambda>s. snd (mma_admin E F G p raw s)) rt"
| "serve E M F Maintain rt = on_mda (srv_exec E SrvMaintenance) rt"
| "serve E M F (Environment t fs ls) rt = on_mda (srv_exec E (SrvEnvironment t fs ls)) rt"


section \<open>Submissions run deliveries\<close>

text \<open>What every delivery keeps, every submission keeps.\<close>

locale delivery_kept =
  fixes E :: "('c, 'm, 'l) libs" and I :: "('c, 'm) MailboxServer \<Rightarrow> bool"
  assumes deliver_kept: "I s \<Longrightarrow> I (snd (DeliverLocal E msg s))"
begin

lemma deliver_keeps: "I (rtMda rt) \<Longrightarrow> I (rtMda (snd (deliver E ctx msg rt)))"
  using deliver_kept [of "rtMda rt" msg] by (auto simp: deliver_def split: prod.splits sum.splits)

lemma AcceptMessage_keeps:
  assumes "I (rtMda rt)"
  shows "I (rtMda (snd (AcceptMessage E M msg p rt)))"
proof (cases "validateMessage (libPeer E) (rt_now rt) msg p")
  case None
  obtain ok rt1 where c: "checkRateLimit M p rt = (ok, rt1)" by fastforce
  then have "I (rtMda rt1)" using assms checkRateLimit_same [OF c] by simp
  then show ?thesis using None c by (simp add: AcceptMessage_def deliver_keeps)
qed (use assms in \<open>simp add: AcceptMessage_def\<close>)

lemma AcceptForwarded_keeps:
  assumes "I (rtMda rt)"
  shows "I (rtMda (snd (AcceptForwarded E M msg p rt)))"
proof (rule AcceptForwarded_cases [of E M msg p rt])
  show ?thesis if "rtMda (snd (AcceptForwarded E M msg p rt)) = rtMda rt" using that assms by simp
  show ?thesis if "rtMda rt1 = rtMda rt" "AcceptForwarded E M msg p rt = deliver E ''deliver forwarded message: '' (forwarded_of msg) rt1" for rt1
    using that assms deliver_keeps [of rt1] by simp
qed

lemma batch_loop_keeps: "I (rtMda rt) \<Longrightarrow> I (rtMda (snd (batch_loop E M p i raws acks n rt)))"
proof (induction raws arbitrary: i acks n rt)
  case (Cons raw raws)
  obtain a rt1 where one: "batch_one E M p i raw rt = (a, rt1)" by fastforce
  have "I (rtMda rt1)" using one Cons.prems AcceptMessage_keeps [OF Cons.prems, of M _ p]
    by (auto simp: batch_one_def split: sum.splits option.splits prod.splits) (metis snd_conv)
  then show ?case using Cons.IH one by simp
qed simp

lemma submit_keeps:
  assumes "I (rtMda rt)"
  shows "I (rtMda (snd (submit E M G p raw rt)))"
proof -
  have "I (rtMda (snd (submitHandler E M p msg rt)))" for msg
    using AcceptMessage_keeps [OF assms, of M msg p] AcceptForwarded_keeps [OF assms, of M msg p]
    by (simp add: submitHandler_def case_prod_unfold Let_def)
  then show ?thesis using assms by (simp add: submit_def case_prod_unfold Let_def split: option.split sum.split)
qed

lemma batch_submit_keeps:
  assumes "I (rtMda rt)"
  shows "I (rtMda (snd (batch_submit E M G p raw rt)))"
proof -
  have "I (rtMda (snd (batchSubmitHandler E M p raw rt)))"
    using assms batch_loop_keeps [OF assms] by (simp add: batchSubmitHandler_def case_prod_unfold Let_def split: option.split)
  then show ?thesis using assms by (simp add: batch_submit_def case_prod_unfold Let_def split: option.split)
qed

end


section \<open>Types of stored mailboxes\<close>

definition typed :: "db \<Rightarrow> bool" where
  "typed d \<longleftrightarrow> (\<forall>r \<in> set (mailboxes d). mbType r \<le> MailboxClaim)"

lemma typed_wrap: "typed d \<Longrightarrow> r \<in> set (mailboxes d) \<Longrightarrow> \<exists>mb. wrapRecord (record_of r) = Inr mb"
proof -
  assume "typed d" "r \<in> set (mailboxes d)"
  then have "mbType r \<le> 3" by (simp add: typed_def mailbox_type_defs)
  then have "mbType r \<in> {0, 1, 2, 3}" by (auto simp: byte_le_cases)
  then show ?thesis by (auto simp: wrapRecord_def mailbox_type_defs)
qed

lemma typed_settings: "typed d \<longleftrightarrow> (\<forall>x \<in> set (map settings (mailboxes d)). fst (snd (snd (snd x))) \<le> MailboxClaim)"
  by (auto simp: typed_def settings_def)

lemma typed_keeps: "keeps_settings d d' \<Longrightarrow> typed d \<Longrightarrow> typed d'"
  unfolding typed_settings keeps_settings_def by simp

lemma typed_env [simp]: "typed (next_faults d) = typed d"
  by (simp add: typed_def)

lemma typed_stmt: "typed (snd (f (next_faults d))) \<Longrightarrow> typed d \<Longrightarrow> typed (snd (stmt f d))"
  by (rule stmt_snd_case [where Q = typed]) simp_all

lemma typed_create: "typed d \<Longrightarrow> addrType a \<le> MailboxClaim \<Longrightarrow> typed (snd (pg_GetOrCreateMailbox L a m n c d))"
  unfolding pg_GetOrCreateMailbox_def by (rule typed_stmt) (auto simp: typed_def Let_def insert_mailbox_def split: option.split)

lemma typed_getOrCreate:
  "typed (Storage s) \<Longrightarrow> addrType a \<le> MailboxClaim \<Longrightarrow> typed (Storage (snd (getOrCreateMailbox E a m n c s)))"
  by (rule getOrCreateMailbox_keeps) (simp_all add: typed_create)

lemma typed_DeliverLocal:
  assumes "typed (Storage s)"
  shows "typed (Storage (snd (DeliverLocal E msg s)))"
proof -
  have get: "typed (Storage s1)" if "getMailbox E a s = (x, s1)" "addrType a \<le> MailboxClaim" for a x s1
    using typed_getOrCreate [OF assms that(2)] that(1) by (metis getMailbox_def snd_conv)
  have store: "typed (Storage s2)" if "typed (Storage s1)" "with_db (mb_StoreMessage L mb m) s1 = (x, s2)" for L mb m s1 x s2
    using that typed_keeps [OF mb_StoreMessage_keeps] by (metis with_db_parts(1) snd_conv)
  let ?f = "if FolderPath msg = [] then ''inbox'' else FolderPath msg"
  show ?thesis
  proof (cases "peer_Decode (libPeer E) (RecipientPeerID msg)")
    case (Some q)
    note q = Some
    show ?thesis
    proof (cases "NewMailboxAddress q ?f MailboxPrivate")
      case (Inr a)
      obtain x s1 where g: "getMailbox E a s = (x, s1)" by fastforce
      have s1: "typed (Storage s1)" using get [OF g] NewMailboxAddress_Inr [OF Inr] by (simp add: mailbox_type_defs)
      show ?thesis
      proof (cases x)
        case mb: (Inr mb)
        obtain y s2 where st: "with_db (mb_StoreMessage (libPeer E) mb (clampExpiry msg (Record mb) (clock (Storage s1)))) s1 = (y, s2)" by fastforce
        have "typed (Storage s2)" using s1 st by (rule store)
        then show ?thesis by (cases y) (use q Inr g mb st in \<open>simp_all add: DeliverLocal_def Let_def emit_def\<close>)
      qed (use q Inr g s1 in \<open>simp add: DeliverLocal_def Let_def\<close>)
    qed (use q assms in \<open>simp add: DeliverLocal_def Let_def\<close>)
  qed (use assms in \<open>simp add: DeliverLocal_def Let_def\<close>)
qed

interpretation typed_submissions: delivery_kept E "\<lambda>s. typed (Storage s)" for E
  by unfold_locales (rule typed_DeliverLocal)

sublocale mda_cache \<subseteq> cached_submissions: delivery_kept E "srv_inv view"
  by unfold_locales (use srv_exec_inv [where op = "SrvDeliver _"] in auto)

lemma typed_maa:
  assumes "typed (Storage s)"
  shows "typed (Storage (snd (maa_handle E caller req s)))"
proof -
  have keeps: "typed (snd (f (Storage t)))" if "typed (Storage t)" "keeps_settings (Storage t) (snd (f (Storage t)))" for f :: "'x dbm" and t :: "('a, 'b) MailboxServer"
    using that typed_keeps by blast
  show ?thesis
  proof (cases req)
    case (RetrieveReq r)
    have "typed (Storage (snd (Retrieve E a caller opts s)))" for a opts
      by (rule typed_keeps [OF same_tables_keeps [OF Retrieve_same] assms])
    then show ?thesis using RetrieveReq assms
      by (auto simp: handleRetrieve_def Let_def split: option.splits sum.splits prod.splits) (metis snd_conv)+
  next
    case (MarkDeliveredReq ids)
    then show ?thesis using typed_keeps [OF pg_MarkMessagesDelivered_keeps assms]
      by (simp add: handleMarkDelivered_def MarkDelivered_def case_prod_unfold split: sum.split)
  next
    case (UpdateFlagsReq r)
    then show ?thesis using typed_keeps [OF pg_UpdateMessageFlags_keeps assms]
      by (simp add: handleUpdateFlags_def UpdateFlags_def case_prod_unfold split: sum.split option.split)
  next
    case (ExpungeReq p f)
    have exp: "typed (snd (pg_ExpungeMailbox i d))" "typed (snd (pg_ExpungeAllMailboxes L q d))" if "typed d" for i d L q
      unfolding pg_ExpungeMailbox_def pg_ExpungeAllMailboxes_def using that by (metis delete_stmt_keeps prod.collapse typed_keeps)+
    have find: "typed (Storage s1)" if "with_db (pg_FindMailbox (libPeer E) caller f) s = (x, s1)" for x s1
      using that assms by (auto simp: with_db_eq dest!: pg_FindMailbox_snd)
    show ?thesis using ExpungeReq exp assms
      by (auto simp: handleExpunge_def case_prod_unfold Let_def split: option.splits sum.splits dest!: find)
  next
    case (DeleteMessagesReq ids)
    then show ?thesis using typed_keeps [OF pg_DeleteOwnedMessages_keeps assms]
      by (simp add: handleDeleteMessages_def DeleteMessages_def case_prod_unfold split: sum.split)
  next
    case (ClaimReq p f)
    have fnd: "typed (Storage s1)" if "findMailbox E a s = (x, s1)" for a x s1
      using typed_keeps [OF same_tables_keeps [OF findMailbox_same] assms] that by (metis snd_conv)
    have lim: "Storage s2 = Storage s1" if "claims_allow E i s1 = (ok, s2)" for i s1 ok and s2 :: "('a, 'b) MailboxServer"
      using that by (auto simp: claims_allow_def Let_def split: prod.splits)
    have "typed (Storage (snd (Claim E a caller s)))" for a
      unfolding Claim_def
      by (auto simp: Let_def typed_keeps [OF pg_ClaimMessage_keeps] split: prod.splits sum.splits option.splits dest!: fnd lim)
    then show ?thesis using ClaimReq assms
      by (auto simp: handleClaim_def split: option.splits sum.splits prod.splits) (metis snd_conv)+
  qed
qed

lemma typed_statements:
  assumes "typed d"
  shows "typed (snd (pg_GrantAccess L i q m d))" "typed (snd (pg_RevokeAccess L i q d))" "typed (snd (pg_ListACL i d))"
    "typed (snd (pg_GetMessageCount i d))" "typed (snd (pg_ListMailboxes L q d))" "typed (snd (pg_DeleteMailbox i d))"
    "typed (snd (pg_UpdateMailbox rec d))"
  unfolding pg_GrantAccess_def pg_RevokeAccess_def pg_ListACL_def pg_GetMessageCount_def pg_ListMailboxes_def
    pg_DeleteMailbox_def pg_UpdateMailbox_def
  by (rule typed_stmt [OF _ assms]; use assms in \<open>auto simp: typed_def update_mailbox_rows_def split: option.split\<close>)+

lemma typed_mma:
  assumes "typed (Storage s)"
  shows "typed (Storage (snd (mma_handle E so caller opn req s)))"
proof -
  have found: "typed (Storage (snd (with_mailbox E caller f k s)))"
    if "\<And>r s1. s1 = s\<lparr>Storage := next_faults (Storage s)\<rparr> \<Longrightarrow> typed (Storage (snd (k r s1)))" for f k
  proof -
    obtain x d where x: "pg_FindMailbox (libPeer E) caller f (Storage s) = (x, d)" by fastforce
    then have "with_db (pg_FindMailbox (libPeer E) caller f) s = (x, s\<lparr>Storage := next_faults (Storage s)\<rparr>)"
      using pg_FindMailbox_snd [OF x] by (simp add: with_db_def)
    then show ?thesis using that assms by (auto simp: with_mailbox_def split: sum.splits option.splits)
  qed
  have grants: "typed (Storage (snd (handleGrantAccess E caller req s)))" "typed (Storage (snd (handleRevokeAccess E caller req s)))"
    unfolding handleGrantAccess_def handleRevokeAccess_def using assms typed_statements
    by (auto simp: case_prod_unfold split: option.split sum.split intro!: found)
  have lists: "typed (Storage (snd (handleListACL E caller req s)))" "typed (Storage (snd (handleGetMailboxInfo E caller req s)))"
    "typed (Storage (snd (handleListMailboxes E caller req s)))"
    unfolding handleListACL_def handleGetMailboxInfo_def handleListMailboxes_def ListMailboxes_def using assms typed_statements
    by (auto simp: case_prod_unfold split: option.split sum.split intro!: found)
  have upd: "typed (Storage (snd (UpdateMailbox E rec s1)))" if "typed (Storage s1)" for rec s1
    using typed_statements(7) [OF that] by (simp add: UpdateMailbox_def case_prod_unfold split: sum.split)
  have config: "typed (Storage (snd (handleUpdateConfig E caller req s)))"
    unfolding handleUpdateConfig_def using assms upd
    by (auto simp: case_prod_unfold split: sum.split intro!: found)
  have del: "typed (Storage (snd (DeleteMailbox E a s)))" for a
    using assms typed_statements(6) by (auto simp: DeleteMailbox_def with_db_eq emit_def split: prod.splits sum.splits option.splits dest!: pg_FindMailbox_snd)
      (metis snd_conv typed_env)+
  have gone: "typed (Storage (snd (handleDeleteMailbox E caller req s)))"
    unfolding handleDeleteMailbox_def using assms del by (auto simp: case_prod_unfold split: option.split sum.split)
  have made: "typed (Storage (snd (handleCreateMailbox E caller req s)))"
  proof (cases "snd (handleCreateMailbox E caller req s) = s")
    case False
    then show ?thesis by (rule handleCreateMailbox_runs) (use assms typed_getOrCreate in simp)
  qed (use assms in simp)
  show ?thesis using grants lists config gone made assms
    by (simp add: mma_handle_def handleQueryCapacity_def split: sum.split)
qed


section \<open>The cache under the protocols\<close>

lemma grant_keeps: "keeps_settings d (snd (pg_GrantAccess L i q m d))" "keeps_settings d (snd (pg_RevokeAccess L i q d))"
    "keeps_settings d (snd (pg_ListACL i d))" "keeps_settings d (snd (pg_GetMessageCount i d))" "keeps_settings d (snd (pg_ListMailboxes L q d))"
    "keeps_settings d (snd (pg_ExpungeMailbox i d))" "keeps_settings d (snd (pg_ExpungeAllMailboxes L q d))"
proof -
  have same: "keeps_settings d (snd (stmt f d))" if "\<And>d. mailboxes (snd (f d)) = mailboxes d" for f :: "'x dbm"
    using that by (intro stmt_snd_case [where Q = "keeps_settings d"]) (simp_all add: keeps_settings_def)
  show "keeps_settings d (snd (pg_GrantAccess L i q m d))" "keeps_settings d (snd (pg_RevokeAccess L i q d))"
    "keeps_settings d (snd (pg_ListACL i d))" "keeps_settings d (snd (pg_GetMessageCount i d))" "keeps_settings d (snd (pg_ListMailboxes L q d))"
    unfolding pg_GrantAccess_def pg_RevokeAccess_def pg_ListACL_def pg_GetMessageCount_def pg_ListMailboxes_def
    by (auto intro!: same split: option.split)
  show "keeps_settings d (snd (pg_ExpungeMailbox i d))" "keeps_settings d (snd (pg_ExpungeAllMailboxes L q d))"
    unfolding pg_ExpungeMailbox_def pg_ExpungeAllMailboxes_def by (metis delete_stmt_keeps prod.collapse)+
qed

lemma grant_consumes: "consumes d (snd (pg_GrantAccess L i q m d))" "consumes d (snd (pg_RevokeAccess L i q d))"
    "consumes d (snd (pg_ListACL i d))" "consumes d (snd (pg_GetMessageCount i d))" "consumes d (snd (pg_ListMailboxes L q d))"
    "consumes d (snd (pg_ExpungeMailbox i d))" "consumes d (snd (pg_ExpungeAllMailboxes L q d))"
  unfolding pg_GrantAccess_def pg_RevokeAccess_def pg_ListACL_def pg_GetMessageCount_def pg_ListMailboxes_def
    pg_ExpungeMailbox_def pg_ExpungeAllMailboxes_def
  by (auto intro!: stmt_consumes delete_stmt_consumes split: option.split)

lemma grant_inv:
  assumes "db_inv d"
  shows "db_inv (snd (pg_GrantAccess L i q m d))" "db_inv (snd (pg_RevokeAccess L i q d))" "db_inv (snd (pg_ListACL i d))"
    "db_inv (snd (pg_GetMessageCount i d))" "db_inv (snd (pg_ListMailboxes L q d))" "db_inv (snd (pg_ExpungeMailbox i d))"
    "db_inv (snd (pg_ExpungeAllMailboxes L q d))"
proof -
  have read: "db_inv (snd (stmt f d))" if "\<And>d. snd (f d) = d" for f :: "'x dbm"
    using that assms by (intro stmt_snd_case [where Q = db_inv]) simp_all
  show "db_inv (snd (pg_ListACL i d))" "db_inv (snd (pg_GetMessageCount i d))" "db_inv (snd (pg_ListMailboxes L q d))"
    unfolding pg_ListACL_def pg_GetMessageCount_def pg_ListMailboxes_def by (auto intro!: read split: option.split)
qed (use assms in \<open>simp_all add: pg_GrantAccess_inv pg_RevokeAccess_inv pg_deletes_inv\<close>)

context mda_cache
begin

lemma with_db_kept:
  assumes "srv_inv view s" "db_inv (Storage s) \<Longrightarrow> db_inv (snd (f (Storage s)))" "keeps_settings (Storage s) (snd (f (Storage s)))"
    and "consumes (Storage s) (snd (f (Storage s)))"
  shows "srv_inv view (snd (with_db f s))"
  using assms by (intro with_db_inv) (auto simp: srv_inv_def keeps_gains)

lemma maa_handle_inv:
  assumes inv: "srv_inv view s"
  shows "srv_inv view (snd (maa_handle E caller req s))"
proof (cases req)
  case (RetrieveReq r)
  then show ?thesis using inv Retrieve_inv [OF inv]
    by (auto simp: handleRetrieve_def Let_def split: option.splits sum.splits prod.splits) (metis snd_conv)+
next
  case (MarkDeliveredReq ids)
  then show ?thesis using srv_exec_inv [OF inv, of "SrvMarkDelivered caller ids"]
    by (simp add: handleMarkDelivered_def case_prod_unfold split: sum.split)
next
  case (UpdateFlagsReq r)
  then show ?thesis using srv_exec_inv [OF inv, of "SrvUpdateFlags caller (ufMessageID r) (ufAddFlags r) (ufRemoveFlags r)"]
    by (simp add: handleUpdateFlags_def case_prod_unfold split: sum.split option.split)
next
  case (ExpungeReq p f)
  have one: "srv_inv view (snd (with_db (pg_ExpungeMailbox i) t))" if "srv_inv view t" for i t
    by (rule with_db_kept [OF that]) (simp_all add: grant_inv grant_keeps grant_consumes)
  have all: "srv_inv view (snd (with_db (pg_ExpungeAllMailboxes L q) t))" if "srv_inv view t" for L q t
    by (rule with_db_kept [OF that]) (simp_all add: grant_inv grant_keeps grant_consumes)
  obtain x s1 where f: "with_db (pg_FindMailbox (libPeer E) caller f) s = (x, s1)" by fastforce
  show ?thesis using ExpungeReq inv f find_db_inv(1) [OF inv f] one all
    by (auto simp: handleExpunge_def case_prod_unfold Let_def split: option.splits sum.splits)
next
  case (DeleteMessagesReq ids)
  then show ?thesis using srv_exec_inv [OF inv, of "SrvDeleteMessages caller ids"]
    by (simp add: handleDeleteMessages_def case_prod_unfold split: sum.split)
next
  case (ClaimReq p f)
  then show ?thesis using inv Claim_inv [OF inv]
    by (auto simp: handleClaim_def split: option.splits sum.splits prod.splits) (metis snd_conv)+
qed

lemma with_mailbox_inv:
  assumes inv: "srv_inv view s" and k: "\<And>r s1. srv_inv view s1 \<Longrightarrow> r \<in> set (mailboxes (Storage s1)) \<Longrightarrow> srv_inv view (snd (k (record_of r) s1))"
  shows "srv_inv view (snd (with_mailbox E caller f k s))"
proof -
  obtain x s1 where x: "with_db (pg_FindMailbox (libPeer E) caller f) s = (x, s1)" by fastforce
  note i1 = find_db_inv [OF inv x]
  show ?thesis
  proof (cases "\<exists>rec. x = Inr (Some rec)")
    case True
    then obtain rec where rec: "x = Inr (Some rec)" by blast
    have "pg_FindMailbox (libPeer E) caller f (Storage s) = (Inr (Some rec), Storage s1)" using x rec by (auto simp: with_db_eq)
    from pg_FindMailbox_InrD [OF this] obtain r where "r \<in> set (mailboxes (Storage s1))" "rec = record_of r" using i1(2) by auto
    then show ?thesis using x rec k [OF i1(1)] by (simp add: with_mailbox_def)
  qed (use x i1 in \<open>auto simp: with_mailbox_def split: sum.splits option.splits\<close>)
qed

lemma statement_inv:
  assumes inv: "srv_inv view s"
    and f: "\<And>i d. db_inv d \<Longrightarrow> db_inv (snd (f i d))" "\<And>i d. keeps_settings d (snd (f i d))" "\<And>i d. consumes d (snd (f i d))"
  shows "srv_inv view (snd (with_mailbox E caller fld (\<lambda>record s1.
     case with_db (f (mbID record)) s1 of (Inl e, s2) \<Rightarrow> (bad e, s2) | (Inr v, s2) \<Rightarrow> (good record v, s2)) s))"
proof (rule with_mailbox_inv [OF inv])
  fix r s1 assume "srv_inv view s1"
  then have "srv_inv view (snd (with_db (f (mbID (record_of r))) s1))" by (rule with_db_kept) (use f in auto)
  then show "srv_inv view (snd (case with_db (f (mbID (record_of r))) s1 of (Inl e, s2) \<Rightarrow> (bad e, s2) | (Inr v, s2) \<Rightarrow> (good (record_of r) v, s2)))"
    by (auto split: prod.splits sum.splits)
qed

lemma mma_handle_inv:
  assumes inv: "srv_inv view s"
  shows "srv_inv view (snd (mma_handle E so caller opn req s))"
proof -
  note stmts = statement_inv [OF inv] grant_inv grant_keeps grant_consumes
  have grants: "srv_inv view (snd (handleGrantAccess E caller req s))" "srv_inv view (snd (handleRevokeAccess E caller req s))"
    unfolding handleGrantAccess_def handleRevokeAccess_def using inv by (auto split: option.split sum.split intro!: stmts)
  have lists: "srv_inv view (snd (handleListACL E caller req s))" "srv_inv view (snd (handleGetMailboxInfo E caller req s))"
    unfolding handleListACL_def handleGetMailboxInfo_def using inv by (auto split: option.split intro!: stmts)
  have "srv_inv view (snd (ListMailboxes E caller s))" unfolding ListMailboxes_def
    by (rule with_db_kept [OF inv]) (simp_all add: grant_inv grant_keeps grant_consumes)
  then have listed: "srv_inv view (snd (handleListMailboxes E caller req s))"
    unfolding handleListMailboxes_def using inv by (auto simp: case_prod_unfold split: option.split sum.split)
  have config: "srv_inv view (snd (handleUpdateConfig E caller req s))"
    unfolding handleUpdateConfig_def using inv
    by (auto simp: case_prod_unfold split: sum.split intro!: with_mailbox_inv UpdateMailbox_inv) (auto simp: MailboxRecord_FullPath_def)
  have gone: "srv_inv view (snd (handleDeleteMailbox E caller req s))"
    unfolding handleDeleteMailbox_def using inv DeleteMailbox_inv [OF inv] by (auto simp: case_prod_unfold split: option.split sum.split)
  have made: "srv_inv view (snd (handleCreateMailbox E caller req s))"
  proof (cases "snd (handleCreateMailbox E caller req s) = s")
    case False
    then show ?thesis by (rule handleCreateMailbox_runs) (use getOrCreateMailbox_inv [OF inv] in simp)
  qed (use inv in simp)
  show ?thesis using grants lists listed config gone made inv
    by (simp add: mma_handle_def handleQueryCapacity_def split: sum.split)
qed

lemmas submissions_inv = cached_submissions.submit_keeps cached_submissions.batch_submit_keeps

end


section \<open>The invariant of the server\<close>

definition server_inv :: "('c \<Rightarrow> string \<Rightarrow> Mailbox option) \<Rightarrow> ('c, 'm, 'r) Router \<Rightarrow> bool" where
  "server_inv view rt \<longleftrightarrow> srv_inv view (rtMda rt) \<and> typed (Storage (rtMda rt))"

lemma access_inv:
  assumes "\<And>req. I s \<Longrightarrow> I (snd (maa_handle E p req s))" "I s"
  shows "I (snd (maa_access E F G p raw s))"
  using assms by (auto simp: maa_access_def case_prod_unfold Let_def split: option.split go.split sum.split)

lemma admin_inv:
  assumes "\<And>opn req. I s \<Longrightarrow> I (snd (mma_handle E (geSampler G) p opn req s))" "I s"
  shows "I (snd (mma_admin E F G p raw s))"
  using assms by (auto simp: mma_admin_def case_prod_unfold Let_def split: option.split sum.split)

lemma serve_inv:
  assumes lru: "lru_laws (libCache E) view" and inv: "server_inv view rt"
  shows "server_inv view (serve E M F req rt)"
proof -
  let ?I = "\<lambda>s. srv_inv view s \<and> typed (Storage s)"
  have cache: "mda_cache E view" by (rule mda_cache.intro [OF lru])
  note exec = mda_cache.srv_exec_inv [OF cache] and maa = mda_cache.maa_handle_inv [OF cache] and mma = mda_cache.mma_handle_inv [OF cache]
  note submits = mda_cache.submissions_inv(1) [OF cache] typed_submissions.submit_keeps
    and batches = mda_cache.submissions_inv(2) [OF cache] typed_submissions.batch_submit_keeps
  have i: "?I (rtMda rt)" using inv by (simp add: server_inv_def)
  show ?thesis
  proof (cases req)
    case (SubmitOne G p raw)
    then show ?thesis using submits(1) [of rt M G p raw] submits(2) [of rt E M G p raw] i by (simp add: server_inv_def)
  next
    case (SubmitBatch G p raw)
    then show ?thesis using batches(1) [of rt M G p raw] batches(2) [of rt E M G p raw] i by (simp add: server_inv_def)
  next
    case (AccessMail G p raw)
    have "?I (snd (maa_access E F G p raw (rtMda rt)))" by (rule access_inv [where I = ?I]) (use i maa typed_maa in auto)
    then show ?thesis using AccessMail by (simp add: server_inv_def on_mda_def)
  next
    case (AdminMail G p raw)
    have "?I (snd (mma_admin E F G p raw (rtMda rt)))" by (rule admin_inv [where I = ?I]) (use i mma typed_mma in auto)
    then show ?thesis using AdminMail by (simp add: server_inv_def on_mda_def)
  next
    case Maintain
    have "keeps_settings (Storage s) (Storage (snd (PerformMaintenance s)))" for s :: "('a, 'b) MailboxServer"
      by (auto simp: PerformMaintenance_def Let_def pg_DeleteExpiredMessages_def split: prod.splits option.splits
          dest!: expiry_sweep_keeps
          intro: keeps_settings_trans [OF _ keeps_settings_trans [OF pg_EnforceAllRetention_keeps reconcile_keeps]])
    then show ?thesis using Maintain i exec [of "rtMda rt" SrvMaintenance] typed_keeps by (auto simp: server_inv_def on_mda_def)
  next
    case (Environment t fs ls)
    then show ?thesis using i exec [of "rtMda rt" "SrvEnvironment t fs ls"] by (auto simp: server_inv_def on_mda_def typed_def)
  qed
qed

text \<open>
  C1. The mail agents keep the server consistent together: after any sequence of submissions, batches,
  access and management requests, whatever bytes they carry and whoever sends them, with maintenance
  runs, failing statements and passing time in between, every stored mailbox has one of the four named
  types, so that no request fails on an unknown type; every cached mailbox is the stored one; and the
  store keeps unique identifiers, true counters and distinct sequence numbers.
\<close>

theorem server_stays_consistent:
  assumes lru: "lru_laws (libCache E) view" and inv: "server_inv view rt"
  shows "server_inv view (fold (serve E M F) reqs rt)
    \<and> (\<forall>r \<in> set (mailboxes (Storage (rtMda (fold (serve E M F) reqs rt)))). \<exists>mb. wrapRecord (record_of r) = Inr mb)"
proof -
  have "inv_system (serve E M F) (server_inv view)" by (rule inv_system.intro) (rule serve_inv [OF lru])
  then have "server_inv view (fold (serve E M F) reqs rt)" using inv by (rule inv_system.run_inv)
  then show ?thesis using typed_wrap by (auto simp: server_inv_def)
qed

definition server_requests :: "request list" where
  "server_requests = [AdminMail demo_gates (PeerID ''D'') [], Environment 2000 [True] [], AdminMail demo_gates (PeerID ''D'') []]"

definition create_text :: json_text where
  "create_text = admin_text [(''operationType'', JStr ''createMailbox''), (''folderPath'', JStr ''news''), (''mailboxType'', JStr ''Public'')]"

theorem server_stays_consistent_witness:
  "server_inv map_of (fold (serve (demo_libs\<lparr>libText := create_text\<rparr>) demo_limit (field_router create_text)) server_requests demo_router)
   \<and> map (\<lambda>r. (mbFolderPath r, mbType r)) (mailboxes (Storage (rtMda (fold (serve (demo_libs\<lparr>libText := create_text\<rparr>) demo_limit (field_router create_text))
       server_requests demo_router)))) = [(''inbox'', 0), (''inbox'', 0), (''news'', 2)]"
proof -
  let ?E = "demo_libs\<lparr>libText := create_text\<rparr>"
  have a: "map (\<lambda>r. (mbFolderPath r, mbType r)) (mailboxes (Storage (rtMda (fold (serve ?E demo_limit (field_router create_text))
       server_requests demo_router)))) = [(''inbox'', 0), (''inbox'', 0), (''news'', 2)]" by code_simp
  have lru: "lru_laws (libCache ?E) map_of" using demo_lru by simp
  have "list_all (\<lambda>r. mbType r = 0) (mailboxes (Storage demo_srv))" by code_simp
  then have "server_inv map_of demo_router"
    using demo_srv_inv by (auto simp: server_inv_def typed_def demo_router_def WithForwarding_def NewRouter_def list_all_iff)
  from server_stays_consistent [OF lru this] a show ?thesis by blast
qed

end
