(* ===== verification/Admission.thy ===== *)
theory Admission
  imports Status
begin

text \<open>
  The admission controller (\<^verbatim>\<open>src/internal/admission/controller.go\<close>, with the settings it reads from
  \<^verbatim>\<open>src/internal/core/config.go\<close>). Requests run concurrently: each is a thread at one of the points
  of \<^verbatim>\<open>Acquire\<close> and of the release function it returns, and one step of the system is one atomic
  action of one thread: a channel operation, an atomic counter, or a critical section of a shard.
  A buffered channel is the number of values in it; a send waits while it is full and a receive
  while it is empty. Which branch a \<^verbatim>\<open>select\<close> takes when the timer or the context is ready is the
  scheduler's choice.
\<close>

unbundle bit_operations_syntax

section \<open>Configuration\<close>

record AdmissionControl =
  acEnabled :: bool
  acMaxInFlight :: int
  acMaxInFlightPerPeer :: int
  acAcquireTimeout :: int

definition inFlightPerPoolConnection :: int where "inFlightPerPoolConnection = 4"

definition DefaultAdmissionControl :: AdmissionControl where
  "DefaultAdmissionControl =
     \<lparr>acEnabled = True, acMaxInFlight = 0, acMaxInFlightPerPeer = 64, acAcquireTimeout = 5 * 1000000000\<rparr>"

definition EffectiveMaxInFlight :: "AdmissionControl \<Rightarrow> int \<Rightarrow> int" where
  "EffectiveMaxInFlight a poolSize =
     (if 0 < acMaxInFlight a then acMaxInFlight a
      else (if poolSize \<le> 0 then 25 else poolSize) * inFlightPerPoolConnection)"

definition EffectiveAcquireTimeout :: "AdmissionControl \<Rightarrow> int" where
  "EffectiveAcquireTimeout a = (if acAcquireTimeout a \<le> 0 then 5 * 1000000000 else acAcquireTimeout a)"

lemma EffectiveMaxInFlight_positive: "0 < EffectiveMaxInFlight a n"
  by (simp add: EffectiveMaxInFlight_def inFlightPerPoolConnection_def)


section \<open>The table of peers\<close>

definition peerShardCount :: nat where "peerShardCount = 64"

text \<open>\<^verbatim>\<open>fnvHash\<close>: FNV-1a over the bytes of the key, in 64 bits.\<close>

definition fnvHash :: "string \<Rightarrow> u64" where
  "fnvHash s = fold (\<lambda>c h. (h XOR word_of_nat (of_char c)) * 1099511628211) s 14695981039346656037"

definition shard_of :: "string \<Rightarrow> nat" where
  "shard_of key = unat (fnvHash key mod 64)"

type_synonym shards = "(string \<times> nat) list list"

definition shard_get :: "shards \<Rightarrow> string \<Rightarrow> nat option" where
  "shard_get sh key = map_of (sh ! shard_of key) key"

definition shard_put :: "string \<Rightarrow> nat \<Rightarrow> shards \<Rightarrow> shards" where
  "shard_put key a sh = sh[shard_of key := (key, a) # filter (\<lambda>e. fst e \<noteq> key) (sh ! shard_of key)]"

definition shard_delete :: "string \<Rightarrow> shards \<Rightarrow> shards" where
  "shard_delete key sh = sh[shard_of key := filter (\<lambda>e. fst e \<noteq> key) (sh ! shard_of key)]"

text \<open>What the controller relies on: the table is a map, wherever its entries lie.\<close>

locale key_table =
  fixes get :: "'t \<Rightarrow> 'k \<Rightarrow> 'v option" and put :: "'k \<Rightarrow> 'v \<Rightarrow> 't \<Rightarrow> 't" and del :: "'k \<Rightarrow> 't \<Rightarrow> 't" and ok :: "'t \<Rightarrow> bool"
  assumes put_ok: "ok t \<Longrightarrow> ok (put k v t)" and del_ok: "ok t \<Longrightarrow> ok (del k t)"
    and get_put: "ok t \<Longrightarrow> get (put k v t) k' = (if k' = k then Some v else get t k')"
    and get_del: "ok t \<Longrightarrow> get (del k t) k' = (if k' = k then None else get t k')"
begin

lemma del_put: "ok t \<Longrightarrow> get (del k (put k v t)) k' = (if k' = k then None else get t k')"
  by (simp add: get_del get_put put_ok)

end

definition shards_ok :: "shards \<Rightarrow> bool" where
  "shards_ok sh \<longleftrightarrow> length sh = peerShardCount \<and> (\<forall>j < peerShardCount. \<forall>e \<in> set (sh ! j). shard_of (fst e) = j)"

lemma shard_of_less: "shard_of k < peerShardCount"
proof -
  have "fnvHash k mod 64 < 64" by (rule word_mod_less_divisor) simp
  then show ?thesis by (simp add: shard_of_def peerShardCount_def word_less_nat_alt)
qed

lemma map_of_drop_key: "map_of (filter (\<lambda>e. fst e \<noteq> k) xs) k' = (if k' = k then None else map_of xs k')"
  by (induction xs) auto

lemma shards_ok_update:
  assumes "shards_ok sh" "\<And>e. e \<in> set es \<Longrightarrow> fst e = k \<or> e \<in> set (sh ! shard_of k)"
  shows "shards_ok (sh[shard_of k := es])"
proof -
  have "shard_of (fst e) = j" if "j < peerShardCount" "e \<in> set (sh[shard_of k := es] ! j)" for j e
    using that assms(1) assms(2) [of e] shard_of_less [of k] by (cases "j = shard_of k") (auto simp: shards_ok_def)
  then show ?thesis using assms(1) by (simp add: shards_ok_def)
qed

interpretation sharded: key_table shard_get shard_put shard_delete shards_ok
proof
  fix sh k v k'
  assume ok: "shards_ok sh"
  have "shard_of k < length sh" "shard_of k' < length sh" using ok shard_of_less by (simp_all add: shards_ok_def)
  then show "shard_get (shard_put k v sh) k' = (if k' = k then Some v else shard_get sh k')"
    "shard_get (shard_delete k sh) k' = (if k' = k then None else shard_get sh k')"
    by (auto simp: shard_get_def shard_put_def shard_delete_def map_of_drop_key nth_list_update)
qed (auto simp: shard_put_def shard_delete_def intro!: shards_ok_update)

text \<open>A table that answers no key has no entry.\<close>

lemma shards_empty:
  assumes "shards_ok sh" "\<And>k. shard_get sh k = None"
  shows "concat sh = []"
proof -
  have "sh ! j = []" if "j < length sh" for j
  proof (rule ccontr)
    assume "sh ! j \<noteq> []"
    then obtain e where e: "e \<in> set (sh ! j)" by (meson list.set_sel(1))
    then have "shard_of (fst e) = j" using assms(1) that by (simp add: shards_ok_def)
    then show False using assms(2) [of "fst e"] e by (auto simp: shard_get_def map_of_eq_None_iff)
  qed
  then show ?thesis by (auto simp: in_set_conv_nth)
qed


section \<open>The controller\<close>

record peerSlots =
  chLen :: nat
  refs :: int

text \<open>Slots are shared objects: the table and the threads refer to them by address.\<close>

record Controller =
  gCap :: nat
  gLen :: nat
  shards :: shards
  slotHeap :: "peerSlots list"
  maxPerPeer :: int
  timeout :: int
  inFlight :: int
  admitted :: u64
  shed :: u64
  waited :: u64

definition New :: "AdmissionControl \<Rightarrow> int \<Rightarrow> Controller option" where
  "New cfg poolSize =
     (if \<not> acEnabled cfg then None
      else Some \<lparr>gCap = nat (EffectiveMaxInFlight cfg poolSize), gLen = 0, shards = replicate peerShardCount [],
                 slotHeap = [], maxPerPeer = acMaxInFlightPerPeer cfg, timeout = EffectiveAcquireTimeout cfg,
                 inFlight = 0, admitted = 0, shed = 0, waited = 0\<rparr>)"

definition minRetryHint :: int where "minRetryHint = 50 * 1000000"
definition maxRetryHint :: int where "maxRetryHint = 1000000000"

definition retryHint :: "Controller option \<Rightarrow> int" where
  "retryHint co =
     (case co of
        None \<Rightarrow> 0
      | Some c \<Rightarrow>
          (let hint = (if timeout c < 0 then - ((- timeout c) div 4) else timeout c div 4) in
           if hint < minRetryHint then minRetryHint else if maxRetryHint < hint then maxRetryHint else hint))"

definition overloaded_err :: "Controller \<Rightarrow> string \<Rightarrow> err" where
  "overloaded_err c reason = OverloadedError (retryHint (Some c)) reason"

lemma retryHint_bounds: "minRetryHint \<le> retryHint (Some c) \<and> retryHint (Some c) \<le> maxRetryHint"
  by (simp add: retryHint_def minRetryHint_def maxRetryHint_def Let_def)

definition reservePeer :: "string \<Rightarrow> Controller \<Rightarrow> nat \<times> Controller" where
  "reservePeer key c =
     (let (a, c1) = (case shard_get (shards c) key of
            Some a \<Rightarrow> (a, c)
          | None \<Rightarrow> (length (slotHeap c),
                     c\<lparr>slotHeap := slotHeap c @ [\<lparr>chLen = 0, refs = 0\<rparr>], shards := shard_put key (length (slotHeap c)) (shards c)\<rparr>))
      in (a, c1\<lparr>slotHeap := (slotHeap c1)[a := (slotHeap c1 ! a)\<lparr>refs := refs (slotHeap c1 ! a) + 1\<rparr>]\<rparr>))"

definition releasePeer :: "string \<Rightarrow> Controller \<Rightarrow> Controller" where
  "releasePeer key c =
     (case shard_get (shards c) key of
        None \<Rightarrow> c
      | Some a \<Rightarrow>
          (let n = refs (slotHeap c ! a) - 1;
               c1 = c\<lparr>slotHeap := (slotHeap c)[a := (slotHeap c ! a)\<lparr>refs := n\<rparr>]\<rparr>
           in if n \<le> 0 then c1\<lparr>shards := shard_delete key (shards c1)\<rparr> else c1))"

definition TrackedPeers :: "Controller \<Rightarrow> nat" where
  "TrackedPeers c = sum_list (map length (shards c))"


section \<open>Acquire and release\<close>

datatype outcome = Served | Overload err | Cancelled

text \<open>
  The points of a request. An address is that of the peer's slots; \<open>None\<close> when no per-peer bound is
  configured. The last three are the end of a request that was served, shed or cancelled.
\<close>

datatype stage =
    Start
  | AwaitPeer nat
  | TryGlobal "nat option"
  | AwaitGlobal "nat option"
  | Entered "nat option"
  | Counted "nat option"
  | Running "nat option"
  | Uncounted "nat option"
  | LeavePeer "nat option" outcome
  | DropRef nat outcome
  | AddShed err
  | Finished outcome

datatype choice = Go | Timer | Cancel

fun finish :: "outcome \<Rightarrow> stage" where
  "finish (Overload e) = AddShed e"
| "finish out = Finished out"

definition move_slot :: "nat \<Rightarrow> (nat \<Rightarrow> nat) \<Rightarrow> Controller \<Rightarrow> Controller" where
  "move_slot a f c = c\<lparr>slotHeap := (slotHeap c)[a := (slotHeap c ! a)\<lparr>chLen := f (chLen (slotHeap c ! a))\<rparr>]\<rparr>"

fun Acquire :: "choice \<Rightarrow> string \<Rightarrow> stage \<Rightarrow> Controller \<Rightarrow> (Controller \<times> stage) option" where
  "Acquire Go key Start c =
     (if 0 < maxPerPeer c then (let (a, c1) = reservePeer key c in Some (c1, AwaitPeer a)) else Some (c, TryGlobal None))"
| "Acquire Go key (AwaitPeer a) c =
     (if int (chLen (slotHeap c ! a)) < maxPerPeer c then Some (move_slot a Suc c, TryGlobal (Some a)) else None)"
| "Acquire Timer key (AwaitPeer a) c =
     Some (c, DropRef a (Overload (overloaded_err c (''peer already has '' @ show_int (maxPerPeer c) @ '' requests in flight''))))"
| "Acquire Cancel key (AwaitPeer a) c = Some (c, DropRef a Cancelled)"
| "Acquire Go key (TryGlobal po) c =
     (if gLen c < gCap c then Some (c\<lparr>gLen := gLen c + 1\<rparr>, Entered po) else Some (c\<lparr>waited := waited c + 1\<rparr>, AwaitGlobal po))"
| "Acquire Go key (AwaitGlobal po) c = (if gLen c < gCap c then Some (c\<lparr>gLen := gLen c + 1\<rparr>, Entered po) else None)"
| "Acquire Timer key (AwaitGlobal po) c =
     Some (c, LeavePeer po (Overload (overloaded_err c (show_nat (gCap c) @ '' requests in flight''))))"
| "Acquire Cancel key (AwaitGlobal po) c = Some (c, LeavePeer po Cancelled)"
| "Acquire Go key (Entered po) c = Some (c\<lparr>inFlight := inFlight c + 1\<rparr>, Counted po)"
| "Acquire Go key (Counted po) c = Some (c\<lparr>admitted := admitted c + 1\<rparr>, Running po)"
| "Acquire Go key (Running po) c = Some (c\<lparr>inFlight := inFlight c - 1\<rparr>, Uncounted po)"
| "Acquire Go key (Uncounted po) c = (if 0 < gLen c then Some (c\<lparr>gLen := gLen c - 1\<rparr>, LeavePeer po Served) else None)"
| "Acquire Go key (LeavePeer None out) c = Some (c, finish out)"
| "Acquire Go key (LeavePeer (Some a) out) c =
     (if 0 < chLen (slotHeap c ! a) then Some (move_slot a (\<lambda>n. n - 1) c, DropRef a out) else None)"
| "Acquire Go key (DropRef a out) c = Some (releasePeer key c, finish out)"
| "Acquire Go key (AddShed e) c = Some (c\<lparr>shed := shed c + 1\<rparr>, Finished (Overload e))"
| "Acquire _ key _ c = None"


section \<open>The system of requests\<close>

record thread =
  tKey :: string
  tStage :: stage

record system =
  ctl :: Controller
  threads :: "thread list"

text \<open>A request arrives from a peer, or request \<open>i\<close> takes its next atomic action.\<close>

datatype action = Arrive string | Act nat choice

definition act :: "action \<Rightarrow> system \<Rightarrow> system option" where
  "act x s =
     (case x of
        Arrive key \<Rightarrow> Some (s\<lparr>threads := threads s @ [\<lparr>tKey = key, tStage = Start\<rparr>]\<rparr>)
      | Act i ch \<Rightarrow>
          if length (threads s) \<le> i then None
          else (case Acquire ch (tKey (threads s ! i)) (tStage (threads s ! i)) (ctl s) of
                  None \<Rightarrow> None
                | Some (c, st) \<Rightarrow> Some (s\<lparr>ctl := c, threads := (threads s)[i := (threads s ! i)\<lparr>tStage := st\<rparr>]\<rparr>)))"

inductive adm_step :: "system \<Rightarrow> system \<Rightarrow> bool" where
  adm_act: "act x s = Some s' \<Longrightarrow> adm_step s s'"

inductive reachable :: "Controller \<Rightarrow> system \<Rightarrow> bool" for c where
  reach_init: "reachable c \<lparr>ctl = c, threads = []\<rparr>"
| reach_step: "reachable c s \<Longrightarrow> adm_step s s' \<Longrightarrow> reachable c s'"

inductive_cases adm_stepE: "adm_step s s'"

fun run_acts :: "action list \<Rightarrow> system \<Rightarrow> system option" where
  "run_acts [] s = Some s"
| "run_acts (x # xs) s = (case act x s of None \<Rightarrow> None | Some s1 \<Rightarrow> run_acts xs s1)"

lemma run_acts_reachable: "reachable c s \<Longrightarrow> run_acts xs s = Some s' \<Longrightarrow> reachable c s'"
proof (induction xs arbitrary: s)
  case (Cons x xs)
  then obtain s1 where "act x s = Some s1" "run_acts xs s1 = Some s'" by (auto split: option.splits)
  then show ?case using Cons reach_step adm_act by metis
qed simp

end
