(* ===== verification/Admission_Props.thy ===== *)
theory Admission_Props
  imports Admission
begin

text \<open>
  What the admission controller guarantees under every interleaving of the requests: the bounds
  hold, no slot and no table entry leaks, every request ends, and the controller refines a
  counting semaphore with a bound per peer.
\<close>

section \<open>What a request holds\<close>

fun holds_global :: "stage \<Rightarrow> bool" where
  "holds_global (Entered _) = True"
| "holds_global (Counted _) = True"
| "holds_global (Running _) = True"
| "holds_global (Uncounted _) = True"
| "holds_global _ = False"

fun counted :: "stage \<Rightarrow> bool" where
  "counted (Counted _) = True"
| "counted (Running _) = True"
| "counted _ = False"

text \<open>The slots whose channel holds a value of the request, and those it has a reference to.\<close>

fun slot_of :: "stage \<Rightarrow> nat option" where
  "slot_of (TryGlobal po) = po"
| "slot_of (AwaitGlobal po) = po"
| "slot_of (Entered po) = po"
| "slot_of (Counted po) = po"
| "slot_of (Running po) = po"
| "slot_of (Uncounted po) = po"
| "slot_of (LeavePeer po _) = po"
| "slot_of _ = None"

fun uses_of :: "stage \<Rightarrow> nat option" where
  "uses_of (AwaitPeer a) = Some a"
| "uses_of (DropRef a _) = Some a"
| "uses_of st = slot_of st"

text \<open>Past the per-peer bound without a slot of it, as when none is configured.\<close>

fun unbounded :: "stage \<Rightarrow> bool" where
  "unbounded (LeavePeer po _) = (po = None)"
| "unbounded (TryGlobal po) = (po = None)"
| "unbounded (AwaitGlobal po) = (po = None)"
| "unbounded st = (holds_global st \<and> slot_of st = None)"

definition cnt :: "(thread \<Rightarrow> bool) \<Rightarrow> thread list \<Rightarrow> int" where
  "cnt P ts = int (length (filter P ts))"

definition ind :: "bool \<Rightarrow> int" where
  "ind b = (if b then 1 else 0)"

lemma ind_simps [simp]: "ind True = 1" "ind False = 0"
  by (simp_all add: ind_def)

lemma cnt_nonneg [simp]: "0 \<le> cnt P ts"
  by (simp add: cnt_def)

lemma cnt_snoc [simp]: "cnt P (ts @ [t]) = cnt P ts + ind (P t)"
  by (simp add: cnt_def)

lemma cnt_update: "i < length ts \<Longrightarrow> cnt P (ts[i := t]) = cnt P ts - ind (P (ts ! i)) + ind (P t)"
proof (induction ts arbitrary: i)
  case (Cons x ts)
  then show ?case by (cases i) (auto simp: cnt_def)
qed simp

lemma cnt_zero: "cnt P ts = 0 \<longleftrightarrow> (\<forall>t \<in> set ts. \<not> P t)"
  by (auto simp: cnt_def filter_empty_conv)

lemma cnt_mono: "(\<And>t. t \<in> set ts \<Longrightarrow> P t \<Longrightarrow> Q t) \<Longrightarrow> cnt P ts \<le> cnt Q ts"
  by (induction ts) (auto simp: cnt_def)

lemma cnt_positive: "t \<in> set ts \<Longrightarrow> P t \<Longrightarrow> 0 < cnt P ts"
  by (auto simp: cnt_def filter_empty_conv)


section \<open>One action\<close>

definition heap_ch :: "Controller \<Rightarrow> nat \<Rightarrow> int" where
  "heap_ch c a = (if a < length (slotHeap c) then int (chLen (slotHeap c ! a)) else 0)"

definition heap_refs :: "Controller \<Rightarrow> nat \<Rightarrow> int" where
  "heap_refs c a = (if a < length (slotHeap c) then refs (slotHeap c ! a) else 0)"

lemma reservePeer_spec:
  assumes r: "reservePeer key c = (a, c')" and ok: "shards_ok (shards c)"
    and old: "\<forall>x. shard_get (shards c) key = Some x \<longrightarrow> x < length (slotHeap c)"
  shows "shards_ok (shards c')" "shard_get (shards c') = (shard_get (shards c))(key := Some a)"
    "shard_get (shards c) key = Some a \<or> shard_get (shards c) key = None \<and> a = length (slotHeap c)"
    "heap_ch c' = heap_ch c" "heap_refs c' = (heap_refs c)(a := heap_refs c a + 1)"
    "gCap c' = gCap c" "gLen c' = gLen c" "inFlight c' = inFlight c" "maxPerPeer c' = maxPerPeer c"
  using r ok old
  by (auto simp: reservePeer_def Let_def heap_ch_def heap_refs_def fun_eq_iff nth_append nth_list_update
      sharded.get_put sharded.put_ok split: option.splits)

lemma releasePeer_spec:
  assumes g: "shard_get (shards c) key = Some a" and a: "a < length (slotHeap c)" and ok: "shards_ok (shards c)"
  shows "shards_ok (shards (releasePeer key c))"
    "shard_get (shards (releasePeer key c)) = (if heap_refs c a \<le> 1 then (shard_get (shards c))(key := None) else shard_get (shards c))"
    "heap_ch (releasePeer key c) = heap_ch c" "heap_refs (releasePeer key c) = (heap_refs c)(a := heap_refs c a - 1)"
    "gCap (releasePeer key c) = gCap c" "gLen (releasePeer key c) = gLen c" "inFlight (releasePeer key c) = inFlight c"
    "maxPerPeer (releasePeer key c) = maxPerPeer c"
  using assms
  by (auto simp: releasePeer_def Let_def heap_ch_def heap_refs_def fun_eq_iff nth_list_update
      sharded.get_del sharded.del_ok)

lemma move_slot_spec:
  assumes "a < length (slotHeap c)"
  shows "heap_ch (move_slot a f c) = (heap_ch c)(a := int (f (chLen (slotHeap c ! a))))" "heap_refs (move_slot a f c) = heap_refs c"
    "shards (move_slot a f c) = shards c" "gCap (move_slot a f c) = gCap c" "gLen (move_slot a f c) = gLen c"
    "inFlight (move_slot a f c) = inFlight c" "maxPerPeer (move_slot a f c) = maxPerPeer c"
  using assms by (auto simp: move_slot_def heap_ch_def heap_refs_def fun_eq_iff nth_list_update)

lemmas slot_specs = reservePeer_spec releasePeer_spec move_slot_spec

lemma heap_fields [simp]:
  "heap_ch (c\<lparr>gLen := n\<rparr>) = heap_ch c" "heap_ch (c\<lparr>waited := w\<rparr>) = heap_ch c" "heap_ch (c\<lparr>inFlight := k\<rparr>) = heap_ch c"
  "heap_ch (c\<lparr>admitted := w\<rparr>) = heap_ch c" "heap_ch (c\<lparr>shed := w\<rparr>) = heap_ch c"
  "heap_refs (c\<lparr>gLen := n\<rparr>) = heap_refs c" "heap_refs (c\<lparr>waited := w\<rparr>) = heap_refs c" "heap_refs (c\<lparr>inFlight := k\<rparr>) = heap_refs c"
  "heap_refs (c\<lparr>admitted := w\<rparr>) = heap_refs c" "heap_refs (c\<lparr>shed := w\<rparr>) = heap_refs c"
  by (simp_all add: heap_ch_def heap_refs_def fun_eq_iff)

text \<open>What an action changes of the counters is what it changes of the holdings of its request.\<close>

definition balanced :: "Controller \<Rightarrow> stage \<Rightarrow> Controller \<Rightarrow> stage \<Rightarrow> bool" where
  "balanced c st c' st' \<longleftrightarrow>
     int (gLen c') = int (gLen c) - ind (holds_global st) + ind (holds_global st')
     \<and> inFlight c' = inFlight c - ind (counted st) + ind (counted st')
     \<and> (\<forall>a. heap_ch c' a = heap_ch c a - ind (slot_of st = Some a) + ind (slot_of st' = Some a))
     \<and> (\<forall>a. heap_refs c' a = heap_refs c a - ind (uses_of st = Some a) + ind (uses_of st' = Some a))
     \<and> (gLen c \<le> gCap c \<longrightarrow> gLen c' \<le> gCap c') \<and> maxPerPeer c' = maxPerPeer c \<and> gCap c' = gCap c
     \<and> (\<forall>a. heap_ch c' a \<le> max (heap_ch c a) (maxPerPeer c))
     \<and> (0 < maxPerPeer c \<longrightarrow> \<not> unbounded st \<longrightarrow> \<not> unbounded st') \<and> shards_ok (shards c')"

text \<open>The slots a request refers to are those the table has for its peer.\<close>

definition linked :: "Controller \<Rightarrow> string \<Rightarrow> stage \<Rightarrow> bool" where
  "linked c key st \<longleftrightarrow> (\<forall>a. uses_of st = Some a \<longrightarrow> shard_get (shards c) key = Some a)"

definition table_ok :: "Controller \<Rightarrow> bool" where
  "table_ok c \<longleftrightarrow> shards_ok (shards c) \<and> (\<forall>k a. shard_get (shards c) k = Some a \<longrightarrow> 0 < heap_refs c a)
     \<and> (\<forall>k k' a. shard_get (shards c) k = Some a \<longrightarrow> shard_get (shards c) k' = Some a \<longrightarrow> k' = k)"

lemma heap_refs_address: "0 < heap_refs c a \<Longrightarrow> a < length (slotHeap c)"
  by (simp add: heap_refs_def split: if_splits)

lemma linked_address: "table_ok c \<Longrightarrow> linked c key st \<Longrightarrow> uses_of st = Some a \<Longrightarrow> a < length (slotHeap c)"
  using heap_refs_address by (fastforce simp: linked_def table_ok_def)

lemma finish_holds [simp]:
  "\<not> holds_global (finish out)" "\<not> counted (finish out)" "slot_of (finish out) = None" "uses_of (finish out) = None" "\<not> unbounded (finish out)"
  by (cases out; simp)+

lemma Acquire_balanced:
  assumes run: "Acquire ch key st c = Some (c', st')" and tbl: "table_ok c" and lnk: "linked c key st"
  shows "balanced c st c' st'"
proof -
  note addr = linked_address [OF tbl lnk]
  have ok: "shards_ok (shards c)" using tbl by (simp add: table_ok_def)
  show ?thesis
  proof (cases st)
    case Start
    then have ch: "ch = Go" using run by (cases ch) auto
    show ?thesis
    proof (cases "0 < maxPerPeer c")
      case True
      obtain a c1 where r: "reservePeer key c = (a, c1)" by fastforce
      have "\<forall>x. shard_get (shards c) key = Some x \<longrightarrow> x < length (slotHeap c)" using tbl heap_refs_address by (auto simp: table_ok_def)
      note spec = reservePeer_spec [OF r ok this]
      show ?thesis using run Start ch True r spec by (auto simp: balanced_def)
    qed (use run Start ch ok in \<open>auto simp: balanced_def\<close>)
  next
    case (AwaitPeer a)
    then have a: "a < length (slotHeap c)" using addr by simp
    then have h: "int (chLen (slotHeap c ! a)) = heap_ch c a" by (simp add: heap_ch_def)
    show ?thesis using run AwaitPeer move_slot_spec [OF a] ok h
      by (cases ch) (auto simp: balanced_def ind_def split: if_splits)
  next
    case (LeavePeer po out)
    show ?thesis
    proof (cases po)
      case (Some a)
      then have a: "a < length (slotHeap c)" using addr LeavePeer by simp
      then have h: "int (chLen (slotHeap c ! a)) = heap_ch c a" by (simp add: heap_ch_def)
      show ?thesis using run LeavePeer Some move_slot_spec [OF a] ok h
        by (cases ch) (auto simp: balanced_def ind_def split: if_splits)
    qed (use run LeavePeer ok in \<open>cases ch; auto simp: balanced_def\<close>)
  next
    case (DropRef a out)
    then have g: "shard_get (shards c) key = Some a" and a: "a < length (slotHeap c)" using lnk addr by (simp_all add: linked_def)
    show ?thesis using run DropRef releasePeer_spec [OF g a ok] by (cases ch) (auto simp: balanced_def)
  qed (use run ok in \<open>cases ch; auto simp: balanced_def split: if_splits\<close>)+
qed

lemma Acquire_shards:
  assumes "Acquire ch key st c = Some (c', st')" "st \<noteq> Start" "\<And>a out. st \<noteq> DropRef a out"
  shows "shards c' = shards c \<and> uses_of st' = uses_of st"
  using assms by (cases st; cases ch) (auto simp: move_slot_def split: if_splits option.splits elim!: Acquire.elims)

lemma unreserved_shards:
  assumes run: "Acquire ch key st c = Some (c', st')" and "\<not> (st = Start \<and> 0 < maxPerPeer c)" "\<nexists>a out. st = DropRef a out"
  shows "shards c' = shards c" "uses_of st' = uses_of st"
proof -
  have "shards c' = shards c \<and> uses_of st' = uses_of st"
  proof (cases "st = Start")
    case True
    then show ?thesis using run assms(2) by (cases ch) auto
  qed (use Acquire_shards [OF run] assms(3) in blast)
  then show "shards c' = shards c" "uses_of st' = uses_of st" by blast+
qed

lemma drop_links:
  assumes "\<And>k. shard_get (shards c') k = (if heap_refs c a \<le> 1 \<and> k = key then None else shard_get (shards c) k)"
    and "shard_get (shards c) key = Some a" "linked c key2 st2" "uses_of st2 = Some a \<Longrightarrow> 2 \<le> heap_refs c a"
  shows "linked c' key2 st2"
  unfolding linked_def
proof (intro allI impI)
  fix x assume x: "uses_of st2 = Some x"
  have k: "shard_get (shards c) key2 = Some x" using assms(3) x by (simp add: linked_def)
  have "key2 = key \<Longrightarrow> 2 \<le> heap_refs c a" using k assms(2,4) x by simp
  then show "shard_get (shards c') key2 = Some x" using assms(1) [of key2] k by auto
qed

lemma Acquire_links:
  assumes run: "Acquire ch key st c = Some (c', st')" and tbl: "table_ok c" and lnk: "linked c key st"
  shows "table_ok c' \<and> linked c' key st'
    \<and> (\<forall>key2 st2. linked c key2 st2 \<longrightarrow> (\<forall>a. uses_of st = Some a \<longrightarrow> uses_of st2 = Some a \<longrightarrow> 2 \<le> heap_refs c a) \<longrightarrow> linked c' key2 st2)"
proof -
  have bal: "heap_refs c' a = heap_refs c a - ind (uses_of st = Some a) + ind (uses_of st' = Some a)" for a
    using Acquire_balanced [OF run tbl lnk] by (simp add: balanced_def)
  have ok: "shards_ok (shards c)" "shards_ok (shards c')"
    using tbl Acquire_balanced [OF run tbl lnk] by (simp_all add: table_ok_def balanced_def)
  have live: "shard_get (shards c) k = Some a \<Longrightarrow> 0 < heap_refs c a" for k a using tbl by (simp add: table_ok_def)
  have inj: "shard_get (shards c) k = Some a \<Longrightarrow> shard_get (shards c) k' = Some a \<Longrightarrow> k' = k" for k k' a using tbl by (simp add: table_ok_def)
  show ?thesis
  proof (cases "st = Start \<and> 0 < maxPerPeer c")
    case start: True
    obtain a c1 where r: "reservePeer key c = (a, c1)" by fastforce
    have c1: "c' = c1" "st' = AwaitPeer a" using run start r by (cases ch; simp)+
    have "\<forall>x. shard_get (shards c) key = Some x \<longrightarrow> x < length (slotHeap c)" using live heap_refs_address by blast
    note spec = reservePeer_spec [OF r ok(1) this]
    have fresh: "k = key" if "shard_get (shards c) k = Some a" for k
      using spec(3) inj that heap_refs_address [OF live [OF that]] by fastforce
    have pos: "0 < heap_refs c a + 1" using spec(3) live [of key a] by (auto simp: heap_refs_def)
    have same: "shard_get (shards c) key \<in> {None, Some a}" using spec(3) by auto
    have "0 < heap_refs c' x" if "shard_get (shards c') k = Some x" for k x
      using that live [of k x] pos unfolding c1(1) spec(2,5) by (auto split: if_splits)
    moreover have "k' = k" if "shard_get (shards c') k = Some x" "shard_get (shards c') k' = Some x" for k k' x
      using that fresh [of k] fresh [of k'] inj [of k x k'] unfolding c1(1) spec(2) by (auto split: if_splits)
    ultimately have "table_ok c'" using ok(2) unfolding table_ok_def by blast
    moreover have "linked c' key st'" using c1 spec(2) by (simp add: linked_def)
    moreover have "linked c' key2 st2" if "linked c key2 st2" for key2 st2
      using that c1(1) spec(2) same by (auto simp: linked_def)
    ultimately show ?thesis by blast
  next
    case start: False
    show ?thesis
    proof (cases "\<exists>a out. st = DropRef a out")
      case True
      then obtain a out where drop: "st = DropRef a out" by blast
      have g: "shard_get (shards c) key = Some a" using lnk drop by (simp add: linked_def)
      have c1: "c' = releasePeer key c" "st' = finish out" using run drop by (cases ch; simp)+
      note spec = releasePeer_spec [OF g heap_refs_address [OF live [OF g]] ok(1)]
      have get: "shard_get (shards c') k = (if heap_refs c a \<le> 1 \<and> k = key then None else shard_get (shards c) k)" for k
        using c1(1) spec(2) by simp
      have "0 < heap_refs c' x" if "shard_get (shards c') k = Some x" for k x
        using that get [of k] live [of k x] inj [OF g, of k] c1(1) spec(4) by (auto split: if_splits)
      then have "table_ok c'" unfolding table_ok_def using ok(2) inj get by (metis option.distinct(1))
      moreover have "linked c' key st'" using c1(2) by (simp add: linked_def)
      moreover have "linked c' key2 st2" if "linked c key2 st2" "\<And>x. uses_of st = Some x \<Longrightarrow> uses_of st2 = Some x \<Longrightarrow> 2 \<le> heap_refs c x" for key2 st2
        by (rule drop_links [OF get g that(1)]) (use that(2) drop in simp)
      ultimately show ?thesis by blast
    next
      case False
      then have "shards c' = shards c" "uses_of st' = uses_of st"
        using unreserved_shards [OF run] start by blast+
      then show ?thesis using bal tbl lnk ok(2) by (auto simp: table_ok_def linked_def)
    qed
  qed
qed


section \<open>The invariant\<close>

definition adm_inv :: "system \<Rightarrow> bool" where
  "adm_inv s \<longleftrightarrow> table_ok (ctl s)
     \<and> int (gLen (ctl s)) = cnt (\<lambda>t. holds_global (tStage t)) (threads s) \<and> gLen (ctl s) \<le> gCap (ctl s)
     \<and> inFlight (ctl s) = cnt (\<lambda>t. counted (tStage t)) (threads s)
     \<and> (\<forall>a. heap_ch (ctl s) a = cnt (\<lambda>t. slot_of (tStage t) = Some a) (threads s) \<and> heap_ch (ctl s) a \<le> max 0 (maxPerPeer (ctl s)))
     \<and> (\<forall>a. heap_refs (ctl s) a = cnt (\<lambda>t. uses_of (tStage t) = Some a) (threads s))
     \<and> (\<forall>t \<in> set (threads s). linked (ctl s) (tKey t) (tStage t))
     \<and> (0 < maxPerPeer (ctl s) \<longrightarrow> (\<forall>t \<in> set (threads s). \<not> unbounded (tStage t)))"

lemma cnt_two:
  assumes "i < length ts" "j < length ts" "i \<noteq> j" "P (ts ! i)" "P (ts ! j)"
  shows "2 \<le> cnt P ts"
proof -
  have "{i, j} \<subseteq> {k. k < length ts \<and> P (ts ! k)}" using assms by simp
  then have "card {i, j} \<le> card {k. k < length ts \<and> P (ts ! k)}" by (intro card_mono) simp
  then show ?thesis using assms(3) by (simp add: cnt_def length_filter_conv_card)
qed

lemma act_inv:
  assumes inv: "adm_inv s" and step: "act x s = Some s'"
  shows "adm_inv s'"
proof (cases x)
  case (Arrive key)
  then show ?thesis using inv step by (auto simp: act_def adm_inv_def linked_def)
next
  case (Act i ch)
  let ?t = "threads s ! i" and ?c = "ctl s"
  have i: "i < length (threads s)" using step Act by (auto simp: act_def split: if_splits)
  obtain c' st' where run: "Acquire ch (tKey ?t) (tStage ?t) ?c = Some (c', st')"
    and s': "s' = s\<lparr>ctl := c', threads := (threads s)[i := ?t\<lparr>tStage := st'\<rparr>]\<rparr>"
    using step Act i by (auto simp: act_def split: if_splits option.splits)
  have t: "?t \<in> set (threads s)" using i by simp
  have tbl: "table_ok ?c" and lnk: "linked ?c (tKey ?t) (tStage ?t)" using inv t by (auto simp: adm_inv_def)
  note bal = Acquire_balanced [OF run tbl lnk] 
  from Acquire_links [OF run tbl lnk] have tbl': "table_ok c'" and new_link: "linked c' (tKey ?t) st'"
    and old_links: "\<And>key2 st2. linked ?c key2 st2 \<Longrightarrow> (\<And>a. uses_of (tStage ?t) = Some a \<Longrightarrow> uses_of st2 = Some a \<Longrightarrow> 2 \<le> heap_refs ?c a)
      \<Longrightarrow> linked c' key2 st2" by blast+
  have new: "cnt P (threads s') = cnt P (threads s) - ind (P ?t) + ind (P (?t\<lparr>tStage := st'\<rparr>))" for P
    unfolding s' by (simp add: cnt_update [OF i])
  have each: "linked c' (tKey u) (tStage u)" if mem: "u \<in> set (threads s')" for u
  proof -
    have "length (threads s') = length (threads s)" using s' by simp
    then obtain j where j: "j < length (threads s)" "u = threads s' ! j" using mem by (metis in_set_conv_nth)
    show ?thesis
    proof (cases "j = i")
      case True
      then have "u = ?t\<lparr>tStage := st'\<rparr>" using i j s' by simp
      then show ?thesis using new_link by simp
    next
      case False
      then have u: "u = threads s ! j" using j s' by simp
      then have "linked ?c (tKey u) (tStage u)" using inv j by (auto simp: adm_inv_def)
      moreover have "2 \<le> heap_refs ?c a" if "uses_of (tStage ?t) = Some a" "uses_of (tStage u) = Some a" for a
        using cnt_two [of i "threads s" j "\<lambda>t. uses_of (tStage t) = Some a"] that i j u False inv by (simp add: adm_inv_def)
      ultimately show ?thesis using old_links by blast
    qed
  qed
  have unb: "\<not> unbounded (tStage u)" if "0 < maxPerPeer c'" "u \<in> set (threads s')" for u
  proof -
    have "u \<in> set (threads s) \<or> u = ?t\<lparr>tStage := st'\<rparr>" using that(2) s' set_update_subset_insert by fastforce
    then show ?thesis using that(1) inv t bal by (auto simp: adm_inv_def balanced_def)
  qed
  have c: "ctl s' = c'" using s' by simp
  have mx: "heap_ch c' a \<le> max 0 (maxPerPeer c')" for a
  proof -
    have "heap_ch c' a \<le> max (heap_ch ?c a) (maxPerPeer ?c)" "maxPerPeer c' = maxPerPeer ?c" using bal by (auto simp: balanced_def)
    moreover have "heap_ch ?c a \<le> max 0 (maxPerPeer ?c)" using inv unfolding adm_inv_def by blast
    ultimately show ?thesis by linarith
  qed
  have g: "int (gLen c') = cnt (\<lambda>t. holds_global (tStage t)) (threads s')" "gLen c' \<le> gCap c'" "inFlight c' = cnt (\<lambda>t. counted (tStage t)) (threads s')"
    using bal inv unfolding new by (simp_all add: balanced_def adm_inv_def)
  have h: "heap_ch c' a = cnt (\<lambda>t. slot_of (tStage t) = Some a) (threads s')" "heap_refs c' a = cnt (\<lambda>t. uses_of (tStage t) = Some a) (threads s')" for a
    using bal inv unfolding new by (simp_all add: balanced_def adm_inv_def)
  show ?thesis unfolding adm_inv_def c using g h mx tbl' each unb by blast
qed

definition fresh :: "Controller \<Rightarrow> bool" where
  "fresh c \<longleftrightarrow> gLen c = 0 \<and> shards c = replicate peerShardCount [] \<and> slotHeap c = [] \<and> inFlight c = 0"

lemma New_fresh: "New cfg n = Some c \<Longrightarrow> fresh c"
  by (auto simp: New_def fresh_def split: if_splits)

lemma shard_get_empty: "shard_get (replicate peerShardCount []) k = None"
  using shard_of_less by (simp add: shard_get_def)

lemma fresh_inv: "fresh c \<Longrightarrow> adm_inv \<lparr>ctl = c, threads = []\<rparr>"
  by (simp add: fresh_def adm_inv_def table_ok_def shards_ok_def shard_get_empty heap_ch_def heap_refs_def cnt_def)

lemma reachable_inv: "reachable c s \<Longrightarrow> fresh c \<Longrightarrow> adm_inv s"
  by (induction rule: reachable.induct) (auto simp: fresh_inv elim!: adm_stepE intro: act_inv)

text \<open>With a bound per peer, the requests of one peer that hold a slot of it are at most that many.\<close>

lemma peer_bound:
  assumes inv: "adm_inv s" and pos: "0 < maxPerPeer (ctl s)"
  shows "cnt (\<lambda>t. tKey t = key \<and> slot_of (tStage t) \<noteq> None) (threads s) \<le> maxPerPeer (ctl s)"
proof (cases "\<exists>t \<in> set (threads s). tKey t = key \<and> slot_of (tStage t) \<noteq> None")
  case True
  then obtain t a where t: "t \<in> set (threads s)" "tKey t = key" "slot_of (tStage t) = Some a" by blast
  have slot_uses: "slot_of st = Some x \<Longrightarrow> uses_of st = Some x" for st x by (cases st) auto
  have lnk: "u \<in> set (threads s) \<Longrightarrow> slot_of (tStage u) = Some x \<Longrightarrow> shard_get (shards (ctl s)) (tKey u) = Some x" for u x
    using inv slot_uses by (auto simp: adm_inv_def linked_def)
  have "cnt (\<lambda>t. tKey t = key \<and> slot_of (tStage t) \<noteq> None) (threads s) \<le> cnt (\<lambda>t. slot_of (tStage t) = Some a) (threads s)"
    by (rule cnt_mono) (use lnk [OF t(1,3)] lnk t(2) in fastforce)
  also have "\<dots> = heap_ch (ctl s) a" using inv by (simp add: adm_inv_def)
  also have "\<dots> \<le> max 0 (maxPerPeer (ctl s))" using inv unfolding adm_inv_def by blast
  finally show ?thesis using pos by simp
next
  case False
  then have "cnt (\<lambda>t. tKey t = key \<and> slot_of (tStage t) \<noteq> None) (threads s) = 0" by (auto simp: cnt_zero)
  then show ?thesis using pos by simp
qed

lemma inside_slot:
  assumes "adm_inv s" "0 < maxPerPeer (ctl s)" "t \<in> set (threads s)" "holds_global (tStage t)"
  shows "slot_of (tStage t) \<noteq> None"
  using assms by (cases "tStage t") (auto simp: adm_inv_def)


section \<open>The specification: a semaphore with a bound per peer\<close>

text \<open>The peers of the requests inside, in some order.\<close>

definition sem_enter :: "nat \<Rightarrow> int \<Rightarrow> string \<Rightarrow> string list \<Rightarrow> string list \<Rightarrow> bool" where
  "sem_enter cap per key inside inside' \<longleftrightarrow> length inside < cap
     \<and> (0 < per \<longrightarrow> int (length (filter (\<lambda>k. k = key) inside)) < per)
     \<and> (\<exists>xs ys. inside = xs @ ys \<and> inside' = xs @ key # ys)"

definition sem_leave :: "string \<Rightarrow> string list \<Rightarrow> string list \<Rightarrow> bool" where
  "sem_leave key inside inside' \<longleftrightarrow> (\<exists>xs ys. inside = xs @ key # ys \<and> inside' = xs @ ys)"

definition inside :: "system \<Rightarrow> string list" where
  "inside s = map tKey (filter (\<lambda>t. holds_global (tStage t)) (threads s))"

lemma inside_split:
  assumes "i < length ts" "\<And>t. tKey (f t) = tKey t"
  shows "map tKey (filter P (ts[i := f (ts ! i)]))
    = map tKey (filter P (take i ts)) @ (if P (f (ts ! i)) then [tKey (ts ! i)] else []) @ map tKey (filter P (drop (Suc i) ts))"
    "map tKey (filter P ts) = map tKey (filter P (take i ts)) @ (if P (ts ! i) then [tKey (ts ! i)] else []) @ map tKey (filter P (drop (Suc i) ts))"
proof -
  show "map tKey (filter P (ts[i := f (ts ! i)]))
    = map tKey (filter P (take i ts)) @ (if P (f (ts ! i)) then [tKey (ts ! i)] else []) @ map tKey (filter P (drop (Suc i) ts))"
    using assms by (simp add: upd_conv_take_nth_drop)
  have "filter P ts = filter P (take i ts @ ts ! i # drop (Suc i) ts)" using id_take_nth_drop [OF assms(1)] by simp
  then show "map tKey (filter P ts) = map tKey (filter P (take i ts)) @ (if P (ts ! i) then [tKey (ts ! i)] else []) @ map tKey (filter P (drop (Suc i) ts))"
    by simp
qed

lemma cnt_strict:
  assumes "\<And>t. t \<in> set ts \<Longrightarrow> P t \<Longrightarrow> Q t" "u \<in> set ts" "Q u" "\<not> P u"
  shows "cnt P ts < cnt Q ts"
  using assms
proof (induction ts)
  case (Cons x ts)
  have "cnt P ts \<le> cnt Q ts" by (rule cnt_mono) (use Cons.prems(1) in simp)
  then show ?case using Cons by (cases "u = x") (auto simp: cnt_def)
qed simp

lemma inside_count: "int (length (inside s)) = cnt (\<lambda>t. holds_global (tStage t)) (threads s)"
  "int (length (filter (\<lambda>k. k = key) (inside s))) = cnt (\<lambda>t. tKey t = key \<and> holds_global (tStage t)) (threads s)"
  by (simp_all add: inside_def cnt_def filter_map o_def conj_commute)

lemma Acquire_enters:
  assumes "Acquire ch key st c = Some (c', st')" "\<not> holds_global st" "holds_global st'"
  shows "gLen c < gCap c \<and> (\<exists>po. st = TryGlobal po \<or> st = AwaitGlobal po)"
  using assms
proof (cases st)
  case (LeavePeer po out)
  then show ?thesis using assms by (cases po; cases ch; cases out) (auto split: if_splits)
next
  case (DropRef a out)
  then show ?thesis using assms by (cases ch; cases out) auto
qed (cases ch; auto simp: case_prod_unfold Let_def split: if_splits)+

lemma reachable_constants: "reachable c s \<Longrightarrow> fresh c \<Longrightarrow> gCap (ctl s) = gCap c \<and> maxPerPeer (ctl s) = maxPerPeer c"
proof (induction rule: reachable.induct)
  case (reach_step s s')
  then have inv: "adm_inv s" using reachable_inv by blast
  obtain x where x: "act x s = Some s'" using reach_step.hyps(2) by (auto elim: adm_stepE)
  show ?case
  proof (cases x)
    case (Arrive key)
    then show ?thesis using x reach_step by (auto simp: act_def)
  next
    case (Act i ch)
    let ?t = "threads s ! i"
    have i: "i < length (threads s)" using x Act by (auto simp: act_def split: if_splits)
    obtain c' st' where run: "Acquire ch (tKey ?t) (tStage ?t) (ctl s) = Some (c', st')" and s': "ctl s' = c'"
      using x Act i by (auto simp: act_def split: if_splits option.splits)
    have "table_ok (ctl s)" "linked (ctl s) (tKey ?t) (tStage ?t)" using inv i by (auto simp: adm_inv_def)
    then show ?thesis using Acquire_balanced [OF run] s' reach_step by (simp add: balanced_def)
  qed
qed simp

text \<open>
  C5. The controller refines a counting semaphore with a bound per peer: under every interleaving of
  the atomic actions of all requests, also when the slots of a peer are forgotten and made anew,
  each action leaves the requests inside as they are, lets one in while fewer than the capacity are
  inside and fewer than the bound of its own peer, or lets one out; and the reported number of
  requests in flight never exceeds those inside.
\<close>

theorem admission_refines_semaphore:
  assumes new: "New cfg n = Some c" and reach: "reachable c s" and step: "act x s = Some s'"
  shows "(inside s' = inside s
      \<or> (\<exists>key. sem_enter (gCap c) (maxPerPeer c) key (inside s) (inside s'))
      \<or> (\<exists>key. sem_leave key (inside s) (inside s')))
    \<and> 0 \<le> inFlight (ctl s) \<and> inFlight (ctl s) \<le> int (length (inside s)) \<and> length (inside s) \<le> gCap c"
proof -
  have inv: "adm_inv s" and con: "gCap (ctl s) = gCap c" "maxPerPeer (ctl s) = maxPerPeer c"
    using reachable_inv reachable_constants reach New_fresh [OF new] by blast+
  have len: "length (inside s) = gLen (ctl s)" using inside_count(1) [of s] inv by (simp add: adm_inv_def)
  have "counted st \<Longrightarrow> holds_global st" for st by (cases st) auto
  then have "cnt (\<lambda>t. counted (tStage t)) (threads s) \<le> cnt (\<lambda>t. holds_global (tStage t)) (threads s)" by (intro cnt_mono) blast
  then have bounds: "0 \<le> inFlight (ctl s) \<and> inFlight (ctl s) \<le> int (length (inside s)) \<and> length (inside s) \<le> gCap c"
    using inv con inside_count(1) [of s] by (simp add: adm_inv_def)
  have "inside s' = inside s \<or> (\<exists>key. sem_enter (gCap c) (maxPerPeer c) key (inside s) (inside s')) \<or> (\<exists>key. sem_leave key (inside s) (inside s'))"
  proof (cases x)
    case (Arrive key)
    then show ?thesis using step by (auto simp: act_def inside_def)
  next
    case (Act i ch)
    let ?t = "threads s ! i"
    have i: "i < length (threads s)" using step Act by (auto simp: act_def split: if_splits)
    obtain c' st' where run: "Acquire ch (tKey ?t) (tStage ?t) (ctl s) = Some (c', st')"
      and s': "threads s' = (threads s)[i := ?t\<lparr>tStage := st'\<rparr>]"
      using step Act i by (auto simp: act_def split: if_splits option.splits)
    note split = inside_split [OF i, of "\<lambda>t. t\<lparr>tStage := st'\<rparr>" "\<lambda>t. holds_global (tStage t)", simplified]
    show ?thesis
    proof (cases "holds_global (tStage ?t) = holds_global st'")
      case True
      then show ?thesis using split s' by (simp add: inside_def)
    next
      case False
      show ?thesis
      proof (cases "holds_global st'")
        case True
        have room: "gLen (ctl s) < gCap c" and at: "\<exists>po. tStage ?t = TryGlobal po \<or> tStage ?t = AwaitGlobal po"
          using Acquire_enters [OF run _ True] False True con by auto
        have "int (length (filter (\<lambda>k. k = tKey ?t) (inside s))) < maxPerPeer c" if pos: "0 < maxPerPeer c"
        proof -
          have t: "?t \<in> set (threads s)" using i by simp
          then have "slot_of (tStage ?t) \<noteq> None" using at inv pos con by (auto simp: adm_inv_def)
          then have "cnt (\<lambda>u. tKey u = tKey ?t \<and> holds_global (tStage u)) (threads s) < cnt (\<lambda>u. tKey u = tKey ?t \<and> slot_of (tStage u) \<noteq> None) (threads s)"
            by (intro cnt_strict [OF _ t]) (use inside_slot [OF inv] pos con False True in auto)
          then show ?thesis using peer_bound [OF inv, of "tKey ?t"] pos con unfolding inside_count(2) by simp
        qed
        then show ?thesis using split s' True False room len by (auto simp: inside_def sem_enter_def)
      next
        case False2: False
        then show ?thesis using split s' False by (auto simp: inside_def sem_leave_def)
      qed
    qed
  qed
  with bounds show ?thesis by blast
qed

definition demo_admission :: AdmissionControl where
  "demo_admission = \<lparr>acEnabled = True, acMaxInFlight = 2, acMaxInFlightPerPeer = 1, acAcquireTimeout = 0\<rparr>"

definition demo_ctl :: Controller where
  "demo_ctl = the (New demo_admission 0)"

text \<open>The first request of a peer is inside, its second waits for a slot of the peer.\<close>

definition busy :: system where
  "busy = the (run_acts [Arrive ''A'', Act 0 Go, Act 0 Go, Arrive ''A'', Act 1 Go, Act 0 Go] \<lparr>ctl = demo_ctl, threads = []\<rparr>)"

lemma demo_New: "New demo_admission 0 = Some demo_ctl"
  by (simp add: demo_ctl_def New_def demo_admission_def)

lemma busy_reachable: "reachable demo_ctl busy"
proof -
  let ?r = "run_acts [Arrive ''A'', Act 0 Go, Act 0 Go, Arrive ''A'', Act 1 Go, Act 0 Go] \<lparr>ctl = demo_ctl, threads = []\<rparr>"
  have "?r \<noteq> None" by code_simp
  then have "?r = Some busy" unfolding busy_def by (rule option.collapse [symmetric])
  then show ?thesis by (rule run_acts_reachable [OF reach_init])
qed

theorem admission_refines_semaphore_witness:
  "inside busy = [''A''] \<and> act (Act 1 Go) busy = None
   \<and> inFlight (ctl busy) \<le> int (length (inside busy)) \<and> length (inside busy) \<le> gCap demo_ctl"
proof -
  have a: "inside busy = [''A'']" by code_simp
  have b: "act (Act 1 Go) busy = None" by code_simp
  obtain s' where "act (Act 0 Go) busy = Some s'" using that by (cases "act (Act 0 Go) busy") (simp, code_simp)
  from admission_refines_semaphore [OF demo_New busy_reachable this] show ?thesis using a b by blast
qed


section \<open>Every request ends\<close>

fun rank :: "stage \<Rightarrow> nat" where
  "rank Start = 11"
| "rank (AwaitPeer _) = 10"
| "rank (TryGlobal _) = 9"
| "rank (AwaitGlobal _) = 8"
| "rank (Entered _) = 7"
| "rank (Counted _) = 6"
| "rank (Running _) = 5"
| "rank (Uncounted _) = 4"
| "rank (LeavePeer _ _) = 3"
| "rank (DropRef _ _) = 2"
| "rank (AddShed _) = 1"
| "rank (Finished _) = 0"

lemma Acquire_rank: "Acquire ch key st c = Some (c', st') \<Longrightarrow> rank st' < rank st"
proof (induction ch key st c rule: Acquire.induct)
  case (13 key out c)
  then show ?case by (cases out) auto
next
  case (15 key a out c)
  then show ?case by (cases out) auto
qed (auto simp: case_prod_unfold Let_def split: if_splits)

text \<open>
  No request is stuck: what it has to receive is there, and where it may wait for room its timer
  is another way on.
\<close>

lemma Acquire_progress:
  assumes inv: "adm_inv s" and t: "t \<in> set (threads s)" and unfinished: "rank (tStage t) \<noteq> 0"
  shows "\<exists>ch c' st'. Acquire ch (tKey t) (tStage t) (ctl s) = Some (c', st')"
proof (cases "tStage t")
  case (AwaitPeer a)
  then show ?thesis using Acquire.simps(3) by (intro exI [of _ Timer]) simp
next
  case (AwaitGlobal po)
  then show ?thesis by (intro exI [of _ Timer]) simp
next
  case (Uncounted po)
  then have "0 < cnt (\<lambda>t. holds_global (tStage t)) (threads s)" using cnt_positive [OF t] by simp
  then have "0 < gLen (ctl s)" using inv by (simp add: adm_inv_def)
  then show ?thesis using Uncounted by (intro exI [of _ Go]) simp
next
  case (LeavePeer po out)
  show ?thesis
  proof (cases po)
    case (Some a)
    then have "0 < cnt (\<lambda>t. slot_of (tStage t) = Some a) (threads s)" using cnt_positive [OF t] LeavePeer by simp
    then have "0 < heap_ch (ctl s) a" using inv by (simp add: adm_inv_def)
    then have "0 < chLen (slotHeap (ctl s) ! a)" by (simp add: heap_ch_def split: if_splits)
    then show ?thesis using LeavePeer Some by (intro exI [of _ Go]) simp
  qed (use LeavePeer in \<open>intro exI [of _ Go], simp\<close>)
qed (use unfinished in \<open>auto simp: case_prod_unfold Let_def intro!: exI [of _ Go]\<close>)

lemma act_progress:
  assumes "adm_inv s" "i < length (threads s)" "rank (tStage (threads s ! i)) \<noteq> 0"
  shows "\<exists>ch s'. act (Act i ch) s = Some s' \<and> length (threads s') = length (threads s)
    \<and> rank (tStage (threads s' ! i)) < rank (tStage (threads s ! i))"
proof -
  obtain ch c' st' where run: "Acquire ch (tKey (threads s ! i)) (tStage (threads s ! i)) (ctl s) = Some (c', st')"
    using Acquire_progress [OF assms(1) _ assms(3)] assms(2) by auto
  then show ?thesis using assms(2) Acquire_rank [OF run] by (intro exI [of _ ch]) (auto simp: act_def)
qed

lemma completes:
  assumes "adm_inv s" "i < length (threads s)"
  shows "\<exists>chs s'. length chs \<le> rank (tStage (threads s ! i)) \<and> run_acts (map (Act i) chs) s = Some s'
    \<and> rank (tStage (threads s' ! i)) = 0"
  using assms
proof (induction "rank (tStage (threads s ! i))" arbitrary: s rule: less_induct)
  case less
  show ?case
  proof (cases "rank (tStage (threads s ! i)) = 0")
    case True
    then show ?thesis by (intro exI [of _ "[]"]) simp
  next
    case False
    then obtain ch s1 where one: "act (Act i ch) s = Some s1" "length (threads s1) = length (threads s)"
        "rank (tStage (threads s1 ! i)) < rank (tStage (threads s ! i))"
      using act_progress less.prems by blast
    then obtain chs s' where "length chs \<le> rank (tStage (threads s1 ! i))" "run_acts (map (Act i) chs) s1 = Some s'" "rank (tStage (threads s' ! i)) = 0"
      using less.hyps [of s1] less.prems act_inv by fastforce
    then show ?thesis using one by (intro exI [of _ "ch # chs"]) auto
  qed
qed

lemma rank_zero: "rank st = 0 \<longleftrightarrow> (\<exists>out. st = Finished out)"
  by (cases st) auto

text \<open>
  C33. Every request ends, and an idle controller holds nothing: from any reachable state a request
  can run to its end by at most eleven actions of its own, whatever the other requests do not do,
  since no receive of a release ever waits and a wait for room ends with the timer; every action of
  a request brings it nearer to its end; and when all have ended, no slot is taken, nothing is in
  flight and no peer is tracked.
\<close>

theorem admission_requests_end:
  assumes new: "New cfg n = Some c" and reach: "reachable c s"
  shows "(\<forall>i < length (threads s). \<exists>chs s' out. length chs \<le> 11 \<and> run_acts (map (Act i) chs) s = Some s' \<and> tStage (threads s' ! i) = Finished out)
    \<and> (\<forall>i ch s'. act (Act i ch) s = Some s' \<longrightarrow> rank (tStage (threads s' ! i)) < rank (tStage (threads s ! i)))
    \<and> ((\<forall>t \<in> set (threads s). \<exists>out. tStage t = Finished out) \<longrightarrow>
         gLen (ctl s) = 0 \<and> inFlight (ctl s) = 0 \<and> TrackedPeers (ctl s) = 0)"
proof (intro conjI allI impI)
  have inv: "adm_inv s" using reachable_inv reach New_fresh [OF new] by blast
  show "\<exists>chs s' out. length chs \<le> 11 \<and> run_acts (map (Act i) chs) s = Some s' \<and> tStage (threads s' ! i) = Finished out"
    if i: "i < length (threads s)" for i
  proof -
    have "rank st \<le> 11" for st by (cases st) auto
    then show ?thesis using completes [OF inv i] rank_zero by (meson le_trans)
  qed
  show "rank (tStage (threads s' ! i)) < rank (tStage (threads s ! i))" if "act (Act i ch) s = Some s'" for i ch s'
    using that by (auto simp: act_def split: if_splits option.splits dest: Acquire_rank)
  assume idle: "\<forall>t \<in> set (threads s). \<exists>out. tStage t = Finished out"
  have none: "cnt (\<lambda>t. P (tStage t)) (threads s) = 0" if "\<And>out. \<not> P (Finished out)" for P
    unfolding cnt_zero using idle that by fastforce
  show "gLen (ctl s) = 0" "inFlight (ctl s) = 0"
    using inv none [of holds_global] none [of counted] by (simp_all add: adm_inv_def)
  have "heap_refs (ctl s) a = 0" for a using inv none [of "\<lambda>st. uses_of st = Some a"] by (simp add: adm_inv_def)
  then have "shard_get (shards (ctl s)) k = None" for k
    using inv by (cases "shard_get (shards (ctl s)) k") (auto simp: adm_inv_def table_ok_def)
  then have "concat (shards (ctl s)) = []" using inv shards_empty by (auto simp: adm_inv_def table_ok_def)
  then show "TrackedPeers (ctl s) = 0" by (metis TrackedPeers_def length_concat list.size(3))
qed

theorem admission_requests_end_witness:
  "(\<exists>chs s' out. length chs \<le> 11 \<and> run_acts (map (Act 1) chs) busy = Some s' \<and> tStage (threads s' ! 1) = Finished out)
   \<and> TrackedPeers (ctl (the (run_acts (map (Act 1) [Timer, Go, Go] @ map (Act 0) [Go, Go, Go, Go, Go, Go]) busy))) = 0
   \<and> map tStage (threads (the (run_acts (map (Act 1) [Timer, Go, Go]) busy)))
      = [Entered (Some 0), Finished (Overload (OverloadedError 1000000000 ''peer already has 1 requests in flight''))]"
proof -
  have "length (threads busy) = 2" by code_simp
  then have "1 < length (threads busy)" by simp
  moreover have "TrackedPeers (ctl (the (run_acts (map (Act 1) [Timer, Go, Go] @ map (Act 0) [Go, Go, Go, Go, Go, Go]) busy))) = 0" by code_simp
  moreover have "map tStage (threads (the (run_acts (map (Act 1) [Timer, Go, Go]) busy)))
      = [Entered (Some 0), Finished (Overload (OverloadedError 1000000000 ''peer already has 1 requests in flight''))]" by code_simp
  ultimately show ?thesis using admission_requests_end [OF demo_New busy_reachable] by blast
qed

end
