(* ===== verification/Stores.thy ===== *)
theory Stores
  imports Gates "HOL-Library.List_Lexorder"
begin

text \<open>
  What documents, feeds and collections share: the tables of \<^verbatim>\<open>src/schema.sql\<close> that hold them with the
  records of \<^verbatim>\<open>src/internal/storage/models.go\<close>, their reader lists
  (\<^verbatim>\<open>src/internal/storage/postgres/store_access.go\<close>), and who may read them and change that
  (\<^verbatim>\<open>src/internal/protocol/wire/access.go\<close>).

  The columns every store has (identifier, owner, path, visibility) are one record that the rows of
  the three stores extend. Text is compared by the collation of the database, which is outside the
  program: it is a parameter, the sort key of a string. Rows ordered by a number and then by a text
  have the number before the sort key of the text.
\<close>

section \<open>Tables\<close>

record store_row =
  rowID :: int
  rowOwner :: string
  rowPath :: string
  rowVisibility :: Visibility

record document_row = store_row +
  docContent :: bytes
  docContentType :: string
  docContentHash :: string
  docCreatedAt :: millis
  docUpdatedAt :: millis
  docUpdatedByPeerID :: string
  docVersionNumber :: int
  HistoryEnabled :: bool
  MaxHistoryVersions :: "int option"
  VersionVector :: "string option"

record version_row =
  verID :: int
  verDocumentID :: int
  verVersionNumber :: int
  verContent :: bytes
  verContentHash :: string
  verContentType :: string
  verCreatedAt :: millis
  verCreatedByPeerID :: string

record FeedRecord = store_row +
  Title :: string
  Description :: string
  EntryContentType :: string
  feedCreatedAt :: millis
  LastEntryAt :: millis
  CurrentSequence :: int
  MaxEntries :: "int option"
  MaxAgeDays :: "int option"
  CollaborativeMode :: bool

record FeedEntryRecord =
  fentID :: int
  fentFeedID :: int
  fentSequenceNumber :: int
  fentContent :: bytes
  fentContentHash :: string
  fentCreatedAt :: millis
  fentCreatedByPeerID :: string
  fentEntryType :: string

record CollectionRecord = store_row +
  collName :: string
  collCreatedAt :: millis
  LastModifiedAt :: millis
  RecordCount :: int

record CollectionItemRecord =
  itmID :: int
  itmCollectionID :: int
  itmKey :: string
  itmContent :: bytes
  itmContentHash :: string
  itmVersion :: int
  itmCreatedAt :: millis
  itmUpdatedAt :: millis
  itmUpdatedByPeerID :: string

record DirectoryEntry =
  dirID :: int
  dirOwnerPeerID :: string
  DisplayName :: string
  Bio :: string
  AvatarHash :: string
  ListedAt :: millis
  dirUpdatedAt :: millis
  Extras :: "json option"

record reader_row =
  rdRow :: int
  rdPeer :: string
  rdGrantedAt :: millis

record stores = env +
  documents :: "document_row list"
  document_versions :: "version_row list"
  document_acls :: "reader_row list"
  feeds :: "FeedRecord list"
  feed_entries :: "FeedEntryRecord list"
  feed_acls :: "reader_row list"
  collections :: "CollectionRecord list"
  collection_items :: "CollectionItemRecord list"
  collection_acls :: "reader_row list"
  directory_listings :: "DirectoryEntry list"
  store_next :: int

type_synonym 'a storem = "stores \<Rightarrow> (err + 'a) \<times> stores"

text \<open>A collation is deterministic: strings that differ have different sort keys.\<close>

type_synonym collation = "string \<Rightarrow> int list"

definition at_path :: "string \<Rightarrow> string \<Rightarrow> 'a store_row_scheme \<Rightarrow> bool" where
  "at_path owner path r \<longleftrightarrow> rowOwner r = owner \<and> rowPath r = path"


section \<open>Reader lists (\<open>store_access.go\<close>)\<close>

type_synonym StoreKind = string

definition StoreDocument :: StoreKind where "StoreDocument = ''document''"
definition StoreFeed :: StoreKind where "StoreFeed = ''feed''"
definition StoreCollection :: StoreKind where "StoreCollection = ''collection''"

text \<open>
  The table of a store and its reader list: the identifiers of its rows, the statement that sets the
  visibility of the rows at a path, and the rows of the reader list.
\<close>

record storeTables =
  tblIDs :: "stores \<Rightarrow> int list"
  tblSetVisibility :: "string \<Rightarrow> string \<Rightarrow> Visibility \<Rightarrow> stores \<Rightarrow> int \<times> stores"
  tblAcls :: "stores \<Rightarrow> reader_row list"
  tblSetAcls :: "reader_row list \<Rightarrow> stores \<Rightarrow> stores"

definition set_visibility :: "string \<Rightarrow> string \<Rightarrow> Visibility \<Rightarrow> 'a store_row_scheme list \<Rightarrow> 'a store_row_scheme list" where
  "set_visibility owner path v = map (\<lambda>r. if at_path owner path r then r\<lparr>rowVisibility := v\<rparr> else r)"

definition rows_at :: "string \<Rightarrow> string \<Rightarrow> 'a store_row_scheme list \<Rightarrow> int" where
  "rows_at owner path rs = int (length (filter (at_path owner path) rs))"

definition tablesFor :: "StoreKind \<Rightarrow> err + storeTables" where
  "tablesFor kind =
     (if kind = StoreDocument
      then Inr \<lparr>tblIDs = (\<lambda>db. map rowID (documents db)),
                tblSetVisibility = (\<lambda>own p v db. (rows_at own p (documents db), db\<lparr>documents := set_visibility own p v (documents db)\<rparr>)),
                tblAcls = document_acls, tblSetAcls = (\<lambda>as db. db\<lparr>document_acls := as\<rparr>)\<rparr>
      else if kind = StoreFeed
      then Inr \<lparr>tblIDs = (\<lambda>db. map rowID (feeds db)),
                tblSetVisibility = (\<lambda>own p v db. (rows_at own p (feeds db), db\<lparr>feeds := set_visibility own p v (feeds db)\<rparr>)),
                tblAcls = feed_acls, tblSetAcls = (\<lambda>as db. db\<lparr>feed_acls := as\<rparr>)\<rparr>
      else if kind = StoreCollection
      then Inr \<lparr>tblIDs = (\<lambda>db. map rowID (collections db)),
                tblSetVisibility = (\<lambda>own p v db. (rows_at own p (collections db), db\<lparr>collections := set_visibility own p v (collections db)\<rparr>)),
                tblAcls = collection_acls, tblSetAcls = (\<lambda>as db. db\<lparr>collection_acls := as\<rparr>)\<rparr>
      else Inl (PlainError (''unknown store kind '' @ quoted kind)))"

definition acl_reads :: "int \<Rightarrow> string \<Rightarrow> reader_row list \<Rightarrow> bool" where
  "acl_reads i p acls \<longleftrightarrow> list_ex (\<lambda>a. rdRow a = i \<and> rdPeer a = p) acls"

definition acl_grant :: "millis \<Rightarrow> int \<Rightarrow> string \<Rightarrow> reader_row list \<Rightarrow> reader_row list" where
  "acl_grant now i p acls =
     (if acl_reads i p acls then acls else acls @ [\<lparr>rdRow = i, rdPeer = p, rdGrantedAt = now\<rparr>])"

definition acl_revoke :: "int \<Rightarrow> string \<Rightarrow> reader_row list \<Rightarrow> reader_row list" where
  "acl_revoke i p acls = filter (\<lambda>a. \<not> (rdRow a = i \<and> rdPeer a = p)) acls"

definition readableBy :: "reader_row list \<Rightarrow> string \<Rightarrow> 'a store_row_scheme \<Rightarrow> bool" where
  "readableBy acls reader r \<longleftrightarrow>
     rowOwner r = reader \<or> rowVisibility r = VisibilityPublic
     \<or> (rowVisibility r = VisibilityShared \<and> acl_reads (rowID r) reader acls)"

definition pg_SetStoreVisibility :: "peer_lib \<Rightarrow> StoreKind \<Rightarrow> peer_id \<Rightarrow> string \<Rightarrow> Visibility \<Rightarrow> bool storem" where
  "pg_SetStoreVisibility L kind ownerID path v db =
     (case tablesFor kind of
        Inl e \<Rightarrow> (Inl e, db)
      | Inr t \<Rightarrow>
          if \<not> Visibility_Valid v then (Inl (PlainError (''invalid visibility '' @ show_int (uint v))), db)
          else stmt (\<lambda>d. let (n, d') = tblSetVisibility t (peer_String L ownerID) path v d in (Inr (0 < n), d')) db)"

text \<open>The reader list refers to the row: a grant on a row that is gone violates the foreign key.\<close>

definition pg_GrantStoreReader :: "peer_lib \<Rightarrow> StoreKind \<Rightarrow> int \<Rightarrow> peer_id \<Rightarrow> unit storem" where
  "pg_GrantStoreReader L kind i reader db =
     (case tablesFor kind of
        Inl e \<Rightarrow> (Inl e, db)
      | Inr t \<Rightarrow> stmt (\<lambda>d.
          if i \<notin> set (tblIDs t d) then (Inl (DbError ''foreign key violation''), d)
          else (Inr (), tblSetAcls t (acl_grant (clock d) i (peer_String L reader) (tblAcls t d)) d)) db)"

definition pg_RevokeStoreReader :: "peer_lib \<Rightarrow> StoreKind \<Rightarrow> int \<Rightarrow> peer_id \<Rightarrow> unit storem" where
  "pg_RevokeStoreReader L kind i reader db =
     (case tablesFor kind of
        Inl e \<Rightarrow> (Inl e, db)
      | Inr t \<Rightarrow> stmt (\<lambda>d. (Inr (), tblSetAcls t (acl_revoke i (peer_String L reader) (tblAcls t d)) d)) db)"

definition pg_ListStoreReaders :: "collation \<Rightarrow> StoreKind \<Rightarrow> int \<Rightarrow> reader_row list storem" where
  "pg_ListStoreReaders C kind i db =
     (case tablesFor kind of
        Inl e \<Rightarrow> (Inl e, db)
      | Inr t \<Rightarrow> stmt (\<lambda>d.
          (Inr (sort_key (\<lambda>a. rdGrantedAt a # C (rdPeer a)) (filter (\<lambda>a. rdRow a = i) (tblAcls t d))), d)) db)"

definition pg_IsStoreReader :: "peer_lib \<Rightarrow> StoreKind \<Rightarrow> int \<Rightarrow> peer_id \<Rightarrow> bool storem" where
  "pg_IsStoreReader L kind i reader db =
     (case tablesFor kind of
        Inl e \<Rightarrow> (Inl e, db)
      | Inr t \<Rightarrow> stmt (\<lambda>d. (Inr (acl_reads i (peer_String L reader) (tblAcls t d)), d)) db)"


section \<open>Read authorisation (\<open>access.go\<close>)\<close>

definition read_refused :: err where
  "read_refused = Forbidden ''read operations require owner access or a read grant''"

definition RequireReader :: "peer_lib \<Rightarrow> Bans option \<Rightarrow> peer_id \<Rightarrow> StoreKind \<Rightarrow> int \<Rightarrow> string \<Rightarrow> Visibility
    \<Rightarrow> stores \<Rightarrow> err option \<times> stores" where
  "RequireReader L bans caller kind i owner v db =
     (if peer_String L caller = owner then (None, db)
      else if IsBannedString L bans owner then (Some read_refused, db)
      else if v = VisibilityPublic then (None, db)
      else if v = VisibilityShared
      then (case pg_IsStoreReader L kind i caller db of
              (Inl e, db1) \<Rightarrow> (Some (Wrapped (''check '' @ kind @ '' reader: '') e []), db1)
            | (Inr granted, db1) \<Rightarrow> (if granted then None else Some read_refused, db1))
      else (Some read_refused, db))"

definition HiddenOwner :: "Bans option \<Rightarrow> peer_id \<Rightarrow> peer_id \<Rightarrow> bool" where
  "HiddenOwner bans caller owner \<longleftrightarrow> caller \<noteq> owner \<and> IsBanned bans owner"

record AccessRequest =
  acKind :: StoreKind
  acOwnerID :: peer_id
  acPath :: string
  acID :: int
  acCurrent :: Visibility
  acAction :: string
  acVisibility :: string
  acReaderID :: string

record StoreAccessBody =
  sabVisibility :: string
  sabReaders :: "(string \<times> millis) list"

record AccessResult =
  resStatus :: int
  resBody :: "StoreAccessBody option"
  resError :: string

definition access_fail :: "int \<Rightarrow> string \<Rightarrow> AccessResult" where
  "access_fail status msg = \<lparr>resStatus = status, resBody = None, resError = msg\<rparr>"

definition access_list :: "collation \<Rightarrow> AccessRequest \<Rightarrow> Visibility \<Rightarrow> stores \<Rightarrow> AccessResult \<times> stores" where
  "access_list C req cur db =
     (case pg_ListStoreReaders C (acKind req) (acID req) db of
        (Inl e, db1) \<Rightarrow> (access_fail 500 ''failed to list readers'', db1)
      | (Inr readers, db1) \<Rightarrow>
          (\<lparr>resStatus = 200,
            resBody = Some \<lparr>sabVisibility = Visibility_String cur, sabReaders = map (\<lambda>r. (rdPeer r, rdGrantedAt r)) readers\<rparr>,
            resError = []\<rparr>, db1))"

definition StoreAccess :: "peer_lib \<Rightarrow> collation \<Rightarrow> AccessRequest \<Rightarrow> stores \<Rightarrow> AccessResult \<times> stores" where
  "StoreAccess L C req db =
     (if acAction req = ''get'' then access_list C req (acCurrent req) db
      else if acAction req = ''set''
      then (case VisibilityFromString (acVisibility req) of
              Inl e \<Rightarrow> (access_fail 400 (error_text e), db)
            | Inr v \<Rightarrow>
                (case pg_SetStoreVisibility L (acKind req) (acOwnerID req) (acPath req) v db of
                   (Inl e, db1) \<Rightarrow> (access_fail 500 ''failed to set visibility'', db1)
                 | (Inr found, db1) \<Rightarrow>
                     if found then access_list C req v db1 else (access_fail 404 (acKind req @ '' not found''), db1)))
      else if acAction req = ''grant'' \<or> acAction req = ''revoke''
      then (case peer_Decode L (acReaderID req) of
              None \<Rightarrow> (access_fail 400 ''invalid readerPeerId'', db)
            | Some reader \<Rightarrow>
                (case (if acAction req = ''grant'' then pg_GrantStoreReader L (acKind req) (acID req) reader db
                       else pg_RevokeStoreReader L (acKind req) (acID req) reader db) of
                   (Inl e, db1) \<Rightarrow> (access_fail 500 ''failed to update readers'', db1)
                 | (Inr _, db1) \<Rightarrow> access_list C req (acCurrent req) db1))
      else (access_fail 400 (''unknown accessAction: '' @ acAction req @ '' (want get, set, grant or revoke)''), db))"

end
