(* ===== verification/Sha256.thy ===== *)
theory Sha256
  imports Frame
begin

text \<open>
  The hash of the store protocols: \<^verbatim>\<open>crypto/sha256\<close>'s \<^verbatim>\<open>Sum256\<close>, as FIPS 180-4 defines it, and
  \<^verbatim>\<open>computeContentHash\<close> of \<^verbatim>\<open>src/internal/storage/postgres/postgres.go\<close>, whose text is the entity tag
  of a document, a feed entry and a collection item.
\<close>

text \<open>
  The round constants, the first 32 bits after the point of the cube roots of the first 64 primes, and
  the initial state, those of the square roots of the first eight; in decimal.
\<close>

definition sha_K :: "u32 list" where
  "sha_K =
    [1116352408, 1899447441, 3049323471, 3921009573, 961987163, 1508970993, 2453635748,
     2870763221, 3624381080, 310598401, 607225278, 1426881987, 1925078388, 2162078206,
     2614888103, 3248222580, 3835390401, 4022224774, 264347078, 604807628, 770255983,
     1249150122, 1555081692, 1996064986, 2554220882, 2821834349, 2952996808, 3210313671,
     3336571891, 3584528711, 113926993, 338241895, 666307205, 773529912, 1294757372,
     1396182291, 1695183700, 1986661051, 2177026350, 2456956037, 2730485921, 2820302411,
     3259730800, 3345764771, 3516065817, 3600352804, 4094571909, 275423344, 430227734,
     506948616, 659060556, 883997877, 958139571, 1322822218, 1537002063, 1747873779,
     1955562222, 2024104815, 2227730452, 2361852424, 2428436474, 2756734187, 3204031479,
     3329325298]"

definition sha_H0 :: "u32 list" where
  "sha_H0 = [1779033703, 3144134277, 1013904242, 2773480762,
             1359893119, 2600822924, 528734635, 1541459225]"

definition sha_pad :: "bytes \<Rightarrow> bytes" where
  "sha_pad m =
     (let n = length m; bits = (word_of_nat (8 * n) :: u64)
      in m @ [0x80] @ replicate ((119 - n mod 64) mod 64) 0
         @ PutUint32 (ucast (drop_bit 32 bits)) @ PutUint32 (ucast bits))"

fun be_words :: "bytes \<Rightarrow> u32 list" where
  "be_words (a # b # c # d # bs) = Uint32 [a, b, c, d] # be_words bs"
| "be_words _ = []"

definition ssig0 :: "u32 \<Rightarrow> u32" where "ssig0 x = xor (xor (word_rotr 7 x) (word_rotr 18 x)) (drop_bit 3 x)"
definition ssig1 :: "u32 \<Rightarrow> u32" where "ssig1 x = xor (xor (word_rotr 17 x) (word_rotr 19 x)) (drop_bit 10 x)"
definition bsig0 :: "u32 \<Rightarrow> u32" where "bsig0 x = xor (xor (word_rotr 2 x) (word_rotr 13 x)) (word_rotr 22 x)"
definition bsig1 :: "u32 \<Rightarrow> u32" where "bsig1 x = xor (xor (word_rotr 6 x) (word_rotr 11 x)) (word_rotr 25 x)"
definition sha_ch :: "u32 \<Rightarrow> u32 \<Rightarrow> u32 \<Rightarrow> u32" where "sha_ch x y z = xor (and x y) (and (not x) z)"
definition sha_maj :: "u32 \<Rightarrow> u32 \<Rightarrow> u32 \<Rightarrow> u32" where "sha_maj x y z = xor (xor (and x y) (and x z)) (and y z)"

text \<open>The message schedule, newest word first.\<close>

fun sha_extend :: "nat \<Rightarrow> u32 list \<Rightarrow> u32 list" where
  "sha_extend 0 ws = ws"
| "sha_extend (Suc n) ws = sha_extend n ((ssig1 (ws ! 1) + ws ! 6 + ssig0 (ws ! 14) + ws ! 15) # ws)"

fun sha_round :: "u32 list \<Rightarrow> u32 \<times> u32 \<Rightarrow> u32 list" where
  "sha_round [a, b, c, d, e, f, g, h] (k, w) =
     (let t1 = h + bsig1 e + sha_ch e f g + k + w; t2 = bsig0 a + sha_maj a b c
      in [t1 + t2, a, b, c, d + t1, e, f, g])"
| "sha_round st _ = st"

definition sha_block :: "u32 list \<Rightarrow> u32 list \<Rightarrow> u32 list" where
  "sha_block st ws = map2 (+) st (foldl sha_round st (zip sha_K (rev (sha_extend 48 (rev ws)))))"

function sha_blocks :: "u32 list \<Rightarrow> u32 list \<Rightarrow> u32 list" where
  "sha_blocks st ws = (if ws = [] then st else sha_blocks (sha_block st (take 16 ws)) (drop 16 ws))"
  by pat_completeness auto
termination by (relation "measure (\<lambda>(st, ws). length ws)") auto

definition Sum256 :: "bytes \<Rightarrow> bytes" where
  "Sum256 m = concat (map PutUint32 (sha_blocks sha_H0 (be_words (sha_pad m))))"

definition computeContentHash :: "bytes \<Rightarrow> string" where
  "computeContentHash content = ''sha256:'' @ concat (map (\<lambda>b. to_lower (hex2 b)) (Sum256 content))"

text \<open>The test vector of FIPS 180-4, appendix B.1.\<close>

lemma Sum256_abc:
  "Sum256 [0x61, 0x62, 0x63] =
     [0xba, 0x78, 0x16, 0xbf, 0x8f, 0x01, 0xcf, 0xea, 0x41, 0x41, 0x40, 0xde, 0x5d, 0xae, 0x22, 0x23,
      0xb0, 0x03, 0x61, 0xa3, 0x96, 0x17, 0x7a, 0x9c, 0xb4, 0x10, 0xff, 0x61, 0xf2, 0x00, 0x15, 0xad]"
  by code_simp

end
