(* ===== verification/Documents.thy ===== *)
theory Documents
  imports Stores Sha256 Maa
begin

text \<open>
  Versioned documents: the document operations of \<^verbatim>\<open>src/internal/storage/postgres/postgres.go\<close> with the
  write options of \<^verbatim>\<open>src/internal/storage/storage.go\<close>. A write locks the row, compares the entity tag
  a client expects, keeps the replaced version when history is on, and stores the new content under
  the next version number.

  A transaction is one statement of the store. The lock of \<^verbatim>\<open>putDocumentLocked\<close> holds a row, so it
  holds nothing while the document does not exist: \<open>put_write\<close> is what follows the lock query, given
  the row the query saw, and the race of two first writes is stated with it.

  Content that a patch reads is decoded into Go's \<^verbatim>\<open>any\<close>, in which a number is a float64: what becomes
  of a number literal that is decoded and encoded again is a parameter.
\<close>

section \<open>Records and options\<close>

record DocumentRecord = document_row +
  docContentLength :: int

record DocumentVersionRecord = version_row +
  verContentLength :: int

record DocumentSummary =
  sumPath :: string
  sumContentType :: string
  sumContentHash :: string
  sumSize :: int
  sumUpdatedAt :: millis
  sumVersionNumber :: int
  sumVisibility :: Visibility

record DocumentPutResult =
  prContentHash :: string
  prCreated :: bool
  prUpdatedAt :: millis
  prVersionNumber :: int

record DocumentWriteOptions =
  woVisibility :: "Visibility option"
  woHistory :: "int option"
  woMaxHistory :: int

definition MaxDocumentSize :: int where "MaxDocumentSize = 10 * 1024 * 1024"
definition DefaultDocumentListLimit :: int where "DefaultDocumentListLimit = 1000"
definition MaxDocumentListLimit :: int where "MaxDocumentListLimit = 5000"
definition DefaultMaxDocumentHistory :: int where "DefaultMaxDocumentHistory = 10"

definition HistoryCeiling :: "DocumentWriteOptions \<Rightarrow> int" where
  "HistoryCeiling opts = (if 0 < woMaxHistory opts then woMaxHistory opts else DefaultMaxDocumentHistory)"


section \<open>Reads\<close>

definition find_document :: "string \<Rightarrow> string \<Rightarrow> stores \<Rightarrow> document_row option" where
  "find_document owner path db = find (at_path owner path) (documents db)"

definition versions_of :: "int \<Rightarrow> stores \<Rightarrow> version_row list" where
  "versions_of i db = filter (\<lambda>v. verDocumentID v = i) (document_versions db)"

definition pg_GetDocument :: "peer_lib \<Rightarrow> peer_id \<Rightarrow> string \<Rightarrow> DocumentRecord option storem" where
  "pg_GetDocument L ownerID path = stmt (\<lambda>db.
     (Inr (map_option (\<lambda>r. document_row.extend r \<lparr>docContentLength = int (length (docContent r))\<rparr>)
             (find_document (peer_String L ownerID) path db)), db))"

definition pg_HeadDocument :: "peer_lib \<Rightarrow> peer_id \<Rightarrow> string \<Rightarrow> DocumentRecord option storem" where
  "pg_HeadDocument L ownerID path = stmt (\<lambda>db.
     (Inr (map_option (\<lambda>r. document_row.extend (r\<lparr>docContent := []\<rparr>) \<lparr>docContentLength = int (length (docContent r))\<rparr>)
             (find_document (peer_String L ownerID) path db)), db))"

definition document_summary :: "document_row \<Rightarrow> DocumentSummary" where
  "document_summary r =
     \<lparr>sumPath = rowPath r, sumContentType = docContentType r, sumContentHash = docContentHash r,
      sumSize = int (length (docContent r)), sumUpdatedAt = docUpdatedAt r,
      sumVersionNumber = docVersionNumber r, sumVisibility = rowVisibility r\<rparr>"

definition list_limit :: "int \<Rightarrow> int" where
  "list_limit limit =
     (let l = (if limit \<le> 0 then DefaultDocumentListLimit else limit)
      in if MaxDocumentListLimit < l then MaxDocumentListLimit else l)"

definition list_rows :: "collation \<Rightarrow> string \<Rightarrow> string \<Rightarrow> string \<Rightarrow> stores \<Rightarrow> document_row list" where
  "list_rows C owner reader afterPath db =
     sort_key (\<lambda>r. C (rowPath r))
       (filter (\<lambda>r. rowOwner r = owner \<and> (afterPath = [] \<or> C afterPath < C (rowPath r))
                    \<and> readableBy (document_acls db) reader r) (documents db))"

definition pg_ListDocuments :: "peer_lib \<Rightarrow> collation \<Rightarrow> peer_id \<Rightarrow> peer_id \<Rightarrow> string \<Rightarrow> int \<Rightarrow> (DocumentSummary list \<times> bool) storem" where
  "pg_ListDocuments L C ownerID readerID afterPath limit =
     (let l = list_limit limit in
      stmt (\<lambda>db.
        (let records = map document_summary
               (take (nat (l + 1)) (list_rows C (peer_String L ownerID) (peer_String L readerID) afterPath db));
             hasMore = (l < int (length records))
         in (Inr (if hasMore then take (nat l) records else records, hasMore), db))))"

definition version_record :: "version_row \<Rightarrow> DocumentVersionRecord" where
  "version_record v = version_row.extend v \<lparr>verContentLength = int (length (verContent v))\<rparr>"

definition newest_versions :: "int \<Rightarrow> stores \<Rightarrow> version_row list" where
  "newest_versions i db = sort_key (\<lambda>v. - verVersionNumber v) (versions_of i db)"

definition pg_GetDocumentHistory :: "peer_lib \<Rightarrow> peer_id \<Rightarrow> string \<Rightarrow> int option \<Rightarrow> DocumentVersionRecord list storem" where
  "pg_GetDocumentHistory L ownerID path maxVersions db =
     (case pg_HeadDocument L ownerID path db of
        (Inl e, db1) \<Rightarrow> (Inl e, db1)
      | (Inr None, db1) \<Rightarrow> (Inl ErrDocumentNotFound, db1)
      | (Inr (Some doc), db1) \<Rightarrow> stmt (\<lambda>d.
          (let vs = map (\<lambda>v. (version_record v)\<lparr>verContent := []\<rparr>) (newest_versions (rowID doc) d) in
           case maxVersions of
             None \<Rightarrow> (Inr vs, d)
           | Some n \<Rightarrow> if n < 0 then (Inl (DbError ''LIMIT must not be negative''), d) else (Inr (take (nat n) vs), d))) db1)"

definition pg_GetDocumentAtVersion :: "peer_lib \<Rightarrow> peer_id \<Rightarrow> string \<Rightarrow> int \<Rightarrow> DocumentVersionRecord storem" where
  "pg_GetDocumentAtVersion L ownerID path n db =
     (case pg_HeadDocument L ownerID path db of
        (Inl e, db1) \<Rightarrow> (Inl e, db1)
      | (Inr None, db1) \<Rightarrow> (Inl ErrDocumentNotFound, db1)
      | (Inr (Some doc), db1) \<Rightarrow> stmt (\<lambda>d.
          (case find (\<lambda>v. verVersionNumber v = n) (versions_of (rowID doc) d) of
             None \<Rightarrow> Inl ErrDocumentNotFound
           | Some v \<Rightarrow> Inr (version_record v), d)) db1)"


section \<open>Writes\<close>

text \<open>
  \<^verbatim>\<open>archiveDocumentVersion\<close> and \<^verbatim>\<open>pruneDocumentVersions\<close>. A version number the history already
  holds is left as it is; a negative offset is an error of the database.
\<close>

definition archived_version :: "int \<Rightarrow> document_row \<Rightarrow> version_row" where
  "archived_version i r =
     \<lparr>verID = i, verDocumentID = rowID r, verVersionNumber = docVersionNumber r, verContent = docContent r,
      verContentHash = docContentHash r, verContentType = docContentType r, verCreatedAt = docUpdatedAt r,
      verCreatedByPeerID = docUpdatedByPeerID r\<rparr>"

definition archiveDocumentVersion :: "int \<Rightarrow> stores \<Rightarrow> stores" where
  "archiveDocumentVersion i db =
     (case find (\<lambda>r. rowID r = i) (documents db) of
        None \<Rightarrow> db
      | Some r \<Rightarrow>
          if list_ex (\<lambda>v. verVersionNumber v = docVersionNumber r) (versions_of i db) then db
          else db\<lparr>document_versions := document_versions db @ [archived_version (store_next db) r],
                  store_next := store_next db + 1\<rparr>)"

definition pruneDocumentVersions :: "int \<Rightarrow> int \<Rightarrow> stores \<Rightarrow> err + stores" where
  "pruneDocumentVersions i maxVersions db =
     (if maxVersions < 0 then Inl (DbError ''OFFSET must not be negative'')
      else let dropped = map verID (drop (nat maxVersions) (newest_versions i db))
           in Inr (db\<lparr>document_versions := filter (\<lambda>v. verID v \<notin> set dropped) (document_versions db)\<rparr>))"

text \<open>The history setting a write leaves, and how many versions it keeps.\<close>

definition history_setting :: "DocumentWriteOptions \<Rightarrow> document_row option \<Rightarrow> bool \<times> int option" where
  "history_setting opts existing =
     (case woHistory opts of
        None \<Rightarrow> (case existing of None \<Rightarrow> (False, None) | Some r \<Rightarrow> (HistoryEnabled r, MaxHistoryVersions r))
      | Some h \<Rightarrow> (0 < h, if 0 < h then Some (min h (HistoryCeiling opts)) else None))"

definition history_keep :: "DocumentWriteOptions \<Rightarrow> document_row option \<Rightarrow> int" where
  "history_keep opts existing =
     (case snd (history_setting opts existing) of
        None \<Rightarrow> HistoryCeiling opts
      | Some m \<Rightarrow> if m < HistoryCeiling opts then m else HistoryCeiling opts)"

definition keep_history :: "DocumentWriteOptions \<Rightarrow> document_row option \<Rightarrow> stores \<Rightarrow> err + stores" where
  "keep_history opts existing db =
     (case existing of
        None \<Rightarrow> Inr db
      | Some r \<Rightarrow>
          if fst (history_setting opts existing)
          then pruneDocumentVersions (rowID r) (history_keep opts existing) (archiveDocumentVersion (rowID r) db)
          else if woHistory opts \<noteq> None then pruneDocumentVersions (rowID r) 0 db
          else Inr db)"

record document_write =
  dwOwner :: string
  dwPath :: string
  dwContent :: bytes
  dwContentType :: string
  dwUpdatedBy :: string

text \<open>The upsert, whose update keeps the columns that the options leave alone.\<close>

definition updated_row :: "document_write \<Rightarrow> DocumentWriteOptions \<Rightarrow> bool \<times> int option \<Rightarrow> int \<Rightarrow> millis \<Rightarrow> document_row \<Rightarrow> document_row" where
  "updated_row w opts hist version now r =
     r\<lparr>rowVisibility := (case woVisibility opts of None \<Rightarrow> rowVisibility r | Some v \<Rightarrow> v),
       docContent := dwContent w, docContentType := dwContentType w,
       docContentHash := computeContentHash (dwContent w), docUpdatedAt := now,
       docUpdatedByPeerID := dwUpdatedBy w, docVersionNumber := version,
       HistoryEnabled := (if woHistory opts \<noteq> None then fst hist else HistoryEnabled r),
       MaxHistoryVersions := (if woHistory opts \<noteq> None then snd hist else MaxHistoryVersions r)\<rparr>"

definition inserted_row :: "document_write \<Rightarrow> DocumentWriteOptions \<Rightarrow> bool \<times> int option \<Rightarrow> int \<Rightarrow> millis \<Rightarrow> int \<Rightarrow> document_row" where
  "inserted_row w opts hist version now i =
     \<lparr>rowID = i, rowOwner = dwOwner w, rowPath = dwPath w,
      rowVisibility = (case woVisibility opts of None \<Rightarrow> VisibilityPrivate | Some v \<Rightarrow> v),
      docContent = dwContent w, docContentType = dwContentType w,
      docContentHash = computeContentHash (dwContent w), docCreatedAt = now, docUpdatedAt = now,
      docUpdatedByPeerID = dwUpdatedBy w, docVersionNumber = version, HistoryEnabled = fst hist,
      MaxHistoryVersions = snd hist, VersionVector = None\<rparr>"

definition upsert_document :: "document_write \<Rightarrow> DocumentWriteOptions \<Rightarrow> bool \<times> int option \<Rightarrow> int \<Rightarrow> stores \<Rightarrow> bool \<times> stores" where
  "upsert_document w opts hist version db =
     (if list_ex (at_path (dwOwner w) (dwPath w)) (documents db)
      then (False, db\<lparr>documents := map (\<lambda>r. if at_path (dwOwner w) (dwPath w) r
                                            then updated_row w opts hist version (clock db) r else r) (documents db)\<rparr>)
      else (True, db\<lparr>documents := documents db @ [inserted_row w opts hist version (clock db) (store_next db)],
                     store_next := store_next db + 1\<rparr>))"

definition put_store :: "document_write \<Rightarrow> DocumentWriteOptions \<Rightarrow> document_row option \<Rightarrow> DocumentPutResult storem" where
  "put_store w opts existing db =
     (let version = (case existing of None \<Rightarrow> 1 | Some r \<Rightarrow> docVersionNumber r + 1) in
      case keep_history opts existing db of
        Inl e \<Rightarrow> (Inl e, db)
      | Inr db1 \<Rightarrow>
          (let (created, db2) = upsert_document w opts (history_setting opts existing) version db1
           in (Inr \<lparr>prContentHash = computeContentHash (dwContent w), prCreated = created, prUpdatedAt = clock db1,
                    prVersionNumber = version\<rparr>, db2)))"

definition put_write :: "document_write \<Rightarrow> string option \<Rightarrow> DocumentWriteOptions \<Rightarrow> document_row option \<Rightarrow> DocumentPutResult storem" where
  "put_write w ifMatch opts existing db =
     (case (ifMatch, existing) of
        (Some h, Some r) \<Rightarrow>
          if docContentHash r \<noteq> h then (Inl (DocumentConflictError h (docContentHash r)), db)
          else put_store w opts existing db
      | _ \<Rightarrow> put_store w opts existing db)"

definition putDocumentLocked :: "document_write \<Rightarrow> string option \<Rightarrow> DocumentWriteOptions \<Rightarrow> DocumentPutResult storem" where
  "putDocumentLocked w ifMatch opts db = put_write w ifMatch opts (find_document (dwOwner w) (dwPath w) db) db"

definition pg_PutDocument :: "peer_lib \<Rightarrow> peer_id \<Rightarrow> string \<Rightarrow> bytes \<Rightarrow> string \<Rightarrow> peer_id \<Rightarrow> string option \<Rightarrow> DocumentWriteOptions
    \<Rightarrow> DocumentPutResult storem" where
  "pg_PutDocument L ownerID path content contentType updatedBy ifMatch opts db =
     (if MaxDocumentSize < int (length content)
      then (Inl (DocumentSizeExceededError (int (length content)) MaxDocumentSize), db)
      else stmt (putDocumentLocked
             \<lparr>dwOwner = peer_String L ownerID, dwPath = path, dwContent = content, dwContentType = contentType,
              dwUpdatedBy = peer_String L updatedBy\<rparr> ifMatch opts) db)"

text \<open>
  \<^verbatim>\<open>json.Unmarshal\<close> into \<^verbatim>\<open>map[string]any\<close>: the last value of a key counts and a map is encoded in the
  order of its keys (\<open>map_fields\<close>); \<open>jsFloat\<close> is what a number literal becomes, if it is in range.
\<close>

record json_lib = json_text +
  jsFloat :: "json \<Rightarrow> json option"

fun go_any :: "(json \<Rightarrow> json option) \<Rightarrow> json \<Rightarrow> json option" where
  "go_any N (JNum n) = N (JNum n)"
| "go_any N (JFrac t) = N (JFrac t)"
| "go_any N (JArr js) = map_option JArr (those (map (go_any N) js))"
| "go_any N (JObj kvs) = map_option (\<lambda>vs. JObj (map_fields (zip (map fst kvs) vs))) (those (map (\<lambda>kv. go_any N (snd kv)) kvs))"
| "go_any N j = Some j"

definition go_map :: "json_lib \<Rightarrow> bytes \<Rightarrow> err + (string \<times> json) list" where
  "go_map J data =
     (case json_dec J data of
        Inl e \<Rightarrow> Inl e
      | Inr JNull \<Rightarrow> Inr []
      | Inr j \<Rightarrow> (case go_any (jsFloat J) j of
            Some (JObj kvs) \<Rightarrow> Inr kvs
          | _ \<Rightarrow> Inl (JsonUnmarshalTypeError ''map'')))"

definition map_put :: "string \<Rightarrow> json \<Rightarrow> (string \<times> json) list \<Rightarrow> (string \<times> json) list" where
  "map_put k v kvs = map_fields (kvs @ [(k, v)])"

definition map_drop :: "string \<Rightarrow> (string \<times> json) list \<Rightarrow> (string \<times> json) list" where
  "map_drop k kvs = filter (\<lambda>kv. fst kv \<noteq> k) kvs"

function applyMergePatch :: "(string \<times> json) list \<Rightarrow> (string \<times> json) list \<Rightarrow> (string \<times> json) list" where
  "applyMergePatch target [] = target"
| "applyMergePatch target ((k, v) # ps) =
     applyMergePatch
       (case v of
          JNull \<Rightarrow> map_drop k target
        | JObj patchMap \<Rightarrow>
            (case map_of target k of
               Some (JObj targetMap) \<Rightarrow> map_put k (JObj (applyMergePatch targetMap patchMap)) target
             | _ \<Rightarrow> map_put k v target)
        | _ \<Rightarrow> map_put k v target) ps"
  by pat_completeness auto
termination
  by (relation "measure (\<lambda>(t, p). size (JObj p))") auto

definition pg_PatchDocument :: "peer_lib \<Rightarrow> json_lib \<Rightarrow> peer_id \<Rightarrow> string \<Rightarrow> (string \<times> json) list \<Rightarrow> peer_id \<Rightarrow> string option
    \<Rightarrow> DocumentWriteOptions \<Rightarrow> DocumentPutResult storem" where
  "pg_PatchDocument L J ownerID path patch updatedBy ifMatch opts = stmt (\<lambda>db.
     case find_document (peer_String L ownerID) path db of
       None \<Rightarrow> (Inl ErrDocumentNotFound, db)
     | Some r \<Rightarrow>
         if (case ifMatch of None \<Rightarrow> False | Some h \<Rightarrow> docContentHash r \<noteq> h)
         then (Inl (DocumentConflictError (the ifMatch) (docContentHash r)), db)
         else case go_map J (docContent r) of
           Inl e \<Rightarrow> (Inl (Wrapped ''parse existing document: '' e []), db)
         | Inr existing \<Rightarrow>
             putDocumentLocked
               \<lparr>dwOwner = peer_String L ownerID, dwPath = path,
                dwContent = json_enc J (JObj (applyMergePatch existing patch)),
                dwContentType = ''application/json'', dwUpdatedBy = peer_String L updatedBy\<rparr> None
               \<lparr>woVisibility = None, woHistory = None, woMaxHistory = woMaxHistory opts\<rparr> db)"

definition pg_RestoreDocumentVersion :: "peer_lib \<Rightarrow> peer_id \<Rightarrow> string \<Rightarrow> int \<Rightarrow> peer_id \<Rightarrow> string option \<Rightarrow> DocumentWriteOptions
    \<Rightarrow> DocumentPutResult storem" where
  "pg_RestoreDocumentVersion L ownerID path n updatedBy ifMatch opts = stmt (\<lambda>db.
     case find_document (peer_String L ownerID) path db of
       None \<Rightarrow> (Inl ErrDocumentNotFound, db)
     | Some r \<Rightarrow>
         (case find (\<lambda>v. verVersionNumber v = n) (versions_of (rowID r) db) of
            None \<Rightarrow> (Inl ErrDocumentNotFound, db)
          | Some v \<Rightarrow>
              putDocumentLocked
                \<lparr>dwOwner = peer_String L ownerID, dwPath = path, dwContent = verContent v,
                 dwContentType = verContentType v, dwUpdatedBy = peer_String L updatedBy\<rparr> ifMatch
                \<lparr>woVisibility = None, woHistory = None, woMaxHistory = woMaxHistory opts\<rparr> db))"

text \<open>The versions and the reader list of a document go with it.\<close>

definition pg_DeleteDocument :: "peer_lib \<Rightarrow> peer_id \<Rightarrow> string \<Rightarrow> bool storem" where
  "pg_DeleteDocument L ownerID path = stmt (\<lambda>db.
     (let gone = map rowID (filter (at_path (peer_String L ownerID) path) (documents db))
      in (Inr (gone \<noteq> []),
          db\<lparr>documents := filter (\<lambda>r. \<not> at_path (peer_String L ownerID) path r) (documents db),
             document_versions := filter (\<lambda>v. verDocumentID v \<notin> set gone) (document_versions db),
             document_acls := filter (\<lambda>a. rdRow a \<notin> set gone) (document_acls db)\<rparr>)))"

end
