(* ===== verification/Documents_Merge.thy ===== *)
theory Documents_Merge
  imports Documents
begin

text \<open>
  The merge of patches (\<^verbatim>\<open>applyMergePatch\<close> of \<^verbatim>\<open>src/internal/storage/postgres/postgres.go\<close>) against
  RFC 7396, which the code announces: what a merge makes of every key, and the patches for which
  the code and the RFC agree.
\<close>

section \<open>Go maps as sorted lists of members\<close>

text \<open>A decoded object: its keys are distinct and in order, as \<^verbatim>\<open>map_fields\<close> leaves them, at every depth.\<close>

fun tidy :: "json \<Rightarrow> bool" where
  "tidy (JObj kvs) \<longleftrightarrow> sorted_wrt (<) (map fst kvs) \<and> list_all (\<lambda>kv. tidy (snd kv)) kvs"
| "tidy _ \<longleftrightarrow> True"

definition in_order :: "(string \<times> json) list \<Rightarrow> bool" where
  "in_order kvs \<longleftrightarrow> sorted_wrt (<) (map fst kvs)"

lemma in_order_distinct: "in_order kvs \<Longrightarrow> distinct (map fst kvs)"
  by (simp add: in_order_def strict_sorted_iff)

lemma map_of_rev: "distinct (map fst kvs) \<Longrightarrow> map_of (rev kvs) = map_of kvs"
  by (rule map_of_inject_set [THEN iffD2]) (simp_all flip: rev_map)

lemma in_order_map_fields [simp]: "in_order (map_fields kvs)"
  by (simp add: in_order_def map_fields_def comp_def)

lemma map_of_map_fields: "map_of (map_fields kvs) k = map_of (rev kvs) k"
proof (cases "k \<in> fst ` set kvs")
  case True
  then obtain v where "map_of (rev kvs) k = Some v" by (metis map_of_eq_None_iff not_None_eq set_rev)
  with True show ?thesis
    by (auto simp: map_fields_def map_of_map_restrict [of "\<lambda>k. the (map_of (rev kvs) k)"] restrict_map_def)
next
  case False
  then have "map_of (rev kvs) k = None" "map_of (map_fields kvs) k = None"
    by (force simp: map_of_eq_None_iff map_fields_def)+
  then show ?thesis by simp
qed

lemma in_order_eqI:
  assumes "in_order xs" "in_order ys" "\<And>k. map_of xs k = map_of ys k"
  shows "xs = ys"
proof -
  have tidied: "map_fields zs = zs" if "in_order zs" for zs
  proof -
    have d: "distinct (map fst zs)" using that by (rule in_order_distinct)
    have s: "sorted_list_of_set (set (map fst zs)) = map fst zs"
      using that sorted_list_of_set.idem_if_sorted_distinct [of "map fst zs"]
      by (simp add: in_order_def strict_sorted_iff del: set_map)
    have "map_of (rev zs) = map_of zs" using d by (rule map_of_rev)
    then have "map_fields zs = map (\<lambda>k. (k, the (map_of zs k))) (map fst zs)" by (simp add: map_fields_def s del: set_map)
    also have "\<dots> = zs" using d by (auto simp: comp_def intro!: map_idI)
    finally show ?thesis .
  qed
  have "map_of xs = map_of ys" using assms(3) by blast
  then have "set (map fst xs) = set (map fst ys)" using dom_map_of_conv_image_fst [of xs] dom_map_of_conv_image_fst [of ys] by simp
  moreover have "map_of (rev xs) = map_of (rev ys)"
    using assms(1,2) \<open>map_of xs = map_of ys\<close> by (simp add: in_order_distinct map_of_rev)
  ultimately have "map_fields xs = map_fields ys" by (simp add: map_fields_def del: set_map)
  then show ?thesis using tidied assms(1,2) by simp
qed

lemma map_put_simps:
  assumes "in_order kvs"
  shows "in_order (map_put k v kvs)" "map_of (map_put k v kvs) = (map_of kvs)(k \<mapsto> v)"
proof -
  show "in_order (map_put k v kvs)" by (simp add: map_put_def)
  have "map_of (rev kvs) = map_of kvs"
    using in_order_distinct [OF assms] by (rule map_of_rev)
  then show "map_of (map_put k v kvs) = (map_of kvs)(k \<mapsto> v)"
    by (auto simp: map_put_def map_of_map_fields)
qed

lemma map_drop_simps:
  assumes "in_order kvs"
  shows "in_order (map_drop k kvs)" "map_of (map_drop k kvs) = (map_of kvs)(k := None)"
proof -
  show "in_order (map_drop k kvs)"
    using assms by (simp add: in_order_def map_drop_def sorted_wrt_map sorted_wrt_filter)
  show "map_of (map_drop k kvs) = (map_of kvs)(k := None)"
    by (rule ext, induction kvs) (auto simp: map_drop_def)
qed


section \<open>What a merge makes of each key\<close>

text \<open>
  Both merges take the members of the patch one by one; \<open>val\<close> is what becomes of a key, given the
  patch's value and the value it had.
\<close>

locale member_merge =
  fixes merge :: "(string \<times> json) list \<Rightarrow> (string \<times> json) list \<Rightarrow> (string \<times> json) list"
    and val :: "json \<Rightarrow> json option \<Rightarrow> json option"
  assumes merge_Nil: "merge t [] = t"
    and merge_Cons: "in_order t \<Longrightarrow>
      \<exists>t'. in_order t' \<and> map_of t' = (map_of t)(k := val v (map_of t k)) \<and> merge t ((k, v) # ps) = merge t' ps"
begin

lemma lookup:
  assumes "in_order t" "distinct (map fst p)"
  shows "in_order (merge t p)"
    and "map_of (merge t p) k = (case map_of p k of None \<Rightarrow> map_of t k | Some v \<Rightarrow> val v (map_of t k))"
proof -
  have "in_order (merge t p) \<and> (\<forall>k. map_of (merge t p) k = (case map_of p k of None \<Rightarrow> map_of t k | Some v \<Rightarrow> val v (map_of t k)))"
    using assms
  proof (induction p arbitrary: t)
    case Nil
    then show ?case by (simp add: merge_Nil)
  next
    case (Cons kv ps)
    obtain k v where kv: "kv = (k, v)" by fastforce
    obtain t' where t': "in_order t'" "map_of t' = (map_of t)(k := val v (map_of t k))" "merge t (kv # ps) = merge t' ps"
      using merge_Cons [OF Cons.prems(1)] kv by blast
    have "map_of ps k = None" using Cons.prems(2) kv by (auto simp: map_of_eq_None_iff)
    then show ?case using Cons.IH [OF t'(1)] Cons.prems(2) t'(2,3) kv by (auto split: option.splits)
  qed
  then show "in_order (merge t p)"
    "map_of (merge t p) k = (case map_of p k of None \<Rightarrow> map_of t k | Some v \<Rightarrow> val v (map_of t k))" by auto
qed

end

fun code_value :: "json \<Rightarrow> json option \<Rightarrow> json option" where
  "code_value JNull old = None"
| "code_value (JObj pm) old =
     (case old of Some (JObj tm) \<Rightarrow> Some (JObj (applyMergePatch tm pm)) | _ \<Rightarrow> Some (JObj pm))"
| "code_value v old = Some v"

interpretation code_merge: member_merge applyMergePatch code_value
proof
  fix t ps :: "(string \<times> json) list" and k and v :: json
  assume t: "in_order t"
  show "\<exists>t'. in_order t' \<and> map_of t' = (map_of t)(k := code_value v (map_of t k)) \<and> applyMergePatch t ((k, v) # ps) = applyMergePatch t' ps"
  proof (cases v)
    case (JObj pm)
    then show ?thesis
      using map_put_simps [OF t]
      by (cases "map_of t k" rule: option.exhaust) (auto split: json.splits intro!: exI)
  next
    case JNull
    then show ?thesis using map_drop_simps [OF t] by (auto intro!: exI [of _ "map_drop k t"])
  qed (use map_put_simps [OF t] in \<open>auto intro!: exI\<close>)
qed simp

text \<open>RFC 7396: an object that replaces something else is merged into an empty object.\<close>

function rfc_merge :: "(string \<times> json) list \<Rightarrow> (string \<times> json) list \<Rightarrow> (string \<times> json) list" where
  "rfc_merge target [] = target"
| "rfc_merge target ((k, v) # ps) =
     rfc_merge
       (case v of
          JNull \<Rightarrow> map_drop k target
        | JObj pm \<Rightarrow> map_put k (JObj (rfc_merge (case map_of target k of Some (JObj tm) \<Rightarrow> tm | _ \<Rightarrow> []) pm)) target
        | _ \<Rightarrow> map_put k v target) ps"
  by pat_completeness auto
termination
  by (relation "measure (\<lambda>(t, p). size (JObj p))") auto

fun rfc_value :: "json \<Rightarrow> json option \<Rightarrow> json option" where
  "rfc_value JNull old = None"
| "rfc_value (JObj pm) old = Some (JObj (rfc_merge (case old of Some (JObj tm) \<Rightarrow> tm | _ \<Rightarrow> []) pm))"
| "rfc_value v old = Some v"

interpretation rfc: member_merge rfc_merge rfc_value
proof
  fix t ps :: "(string \<times> json) list" and k and v :: json
  assume t: "in_order t"
  show "\<exists>t'. in_order t' \<and> map_of t' = (map_of t)(k := rfc_value v (map_of t k)) \<and> rfc_merge t ((k, v) # ps) = rfc_merge t' ps"
  proof (cases v)
    case JNull
    then show ?thesis using map_drop_simps [OF t] by (auto intro!: exI [of _ "map_drop k t"])
  qed (use map_put_simps [OF t] in \<open>auto intro!: exI\<close>)
qed simp


section \<open>Where the code and the RFC agree\<close>

text \<open>No member of an object, at any depth of nested objects, is null.\<close>

fun null_free :: "json \<Rightarrow> bool" where
  "null_free (JObj kvs) \<longleftrightarrow> list_all (\<lambda>kv. snd kv \<noteq> JNull \<and> null_free (snd kv)) kvs"
| "null_free _ \<longleftrightarrow> True"

function agreeing :: "(string \<times> json) list \<Rightarrow> (string \<times> json) list \<Rightarrow> bool" where
  "agreeing target [] \<longleftrightarrow> True"
| "agreeing target ((k, v) # ps) \<longleftrightarrow>
     (case v of
        JObj pm \<Rightarrow> (case map_of target k of Some (JObj tm) \<Rightarrow> agreeing tm pm | _ \<Rightarrow> null_free v)
      | _ \<Rightarrow> True) \<and> agreeing target ps"
  by pat_completeness auto
termination
  by (relation "measure (\<lambda>(t, p). size (JObj p))") auto

lemma size_member: "(k, JObj q) \<in> set p \<Longrightarrow> size (JObj q) < size (JObj p)"
  by (induction p) auto

lemma null_free_fixed: "tidy (JObj p) \<Longrightarrow> rfc_merge [] p = p \<longleftrightarrow> null_free (JObj p)"
proof (induction p rule: measure_induct_rule [where f = "\<lambda>p. size (JObj p)"])
  case (less p)
  have ord: "in_order p" using less.prems by (simp add: in_order_def)
  then have dist: "distinct (map fst p)" by (rule in_order_distinct)
  have nil: "in_order []" by (simp add: in_order_def)
  have eq: "rfc_merge [] p = p \<longleftrightarrow> (\<forall>k. map_of (rfc_merge [] p) k = map_of p k)"
    using in_order_eqI [OF rfc.lookup(1) [OF nil dist] ord] by auto
  have member: "rfc_value v None = Some v \<longleftrightarrow> v \<noteq> JNull \<and> null_free v" if "(k, v) \<in> set p" for k v
  proof (cases v)
    case (JObj q)
    with that less.prems have "tidy (JObj q)" by (fastforce simp: list_all_iff)
    with less.IH [OF size_member] that JObj show ?thesis by auto
  qed auto
  have "rfc_merge [] p = p \<longleftrightarrow> (\<forall>(k, v) \<in> set p. rfc_value v None = Some v)"
    unfolding eq using rfc.lookup(2) [OF nil dist] dist by (auto split: option.splits)
  also have "\<dots> \<longleftrightarrow> null_free (JObj p)" using member by (auto simp: list_all_iff)
  finally show ?case .
qed

lemma agreeing_alt:
  "agreeing t p \<longleftrightarrow> (\<forall>(k, v) \<in> set p. case v of
      JObj pm \<Rightarrow> (case map_of t k of Some (JObj tm) \<Rightarrow> agreeing tm pm | _ \<Rightarrow> null_free v) | _ \<Rightarrow> True)"
  by (induction p) auto

text \<open>
  C35. The merge a PATCH performs is the one of RFC 7396 exactly when no object of the patch that replaces
  something that is not an object (or is absent) carries a null at any depth. For such patches the two
  agree on every document; for every other patch they differ.
\<close>

theorem merge_patch_agrees_with_rfc:
  assumes "tidy (JObj target)" "tidy (JObj patch)"
  shows "applyMergePatch target patch = rfc_merge target patch \<longleftrightarrow> agreeing target patch"
  using assms
proof (induction patch arbitrary: target rule: measure_induct_rule [where f = "\<lambda>p. size (JObj p)"])
  case (less p)
  have t: "in_order target" and ord: "in_order p" using less.prems by (simp_all add: in_order_def)
  then have dist: "distinct (map fst p)" by (blast intro: in_order_distinct)
  have eq: "applyMergePatch target p = rfc_merge target p \<longleftrightarrow>
      (\<forall>k. map_of (applyMergePatch target p) k = map_of (rfc_merge target p) k)"
    using in_order_eqI [OF code_merge.lookup(1) [OF t dist] rfc.lookup(1) [OF t dist]] by auto
  have member: "code_value v (map_of target k) = rfc_value v (map_of target k) \<longleftrightarrow>
      (case v of JObj pm \<Rightarrow> (case map_of target k of Some (JObj tm) \<Rightarrow> agreeing tm pm | _ \<Rightarrow> null_free v) | _ \<Rightarrow> True)"
    if kv: "(k, v) \<in> set p" for k v
  proof (cases v)
    case (JObj pm)
    with kv less.prems(2) have tp: "tidy (JObj pm)" by (fastforce simp: list_all_iff)
    show ?thesis
    proof (cases "\<exists>tm. map_of target k = Some (JObj tm)")
      case True
      then obtain tm where tm: "map_of target k = Some (JObj tm)" by blast
      then have "tidy (JObj tm)" using less.prems(1) map_of_SomeD [OF tm] by (fastforce simp: list_all_iff)
      with less.IH [OF size_member] kv JObj tp tm show ?thesis by simp
    next
      case False
      then have "code_value v (map_of target k) = Some (JObj pm)" "rfc_value v (map_of target k) = Some (JObj (rfc_merge [] pm))"
        using JObj by (auto split: option.splits json.splits)
      with False JObj null_free_fixed [OF tp] show ?thesis by (auto split: option.splits json.splits)
    qed
  qed auto
  have "applyMergePatch target p = rfc_merge target p \<longleftrightarrow>
      (\<forall>(k, v) \<in> set p. code_value v (map_of target k) = rfc_value v (map_of target k))"
    unfolding eq using code_merge.lookup(2) [OF t dist] rfc.lookup(2) [OF t dist] dist by (auto split: option.splits)
  also have "\<dots> \<longleftrightarrow> agreeing target p" using member by (auto simp: agreeing_alt [of target p])
  finally show ?case .
qed

theorem merge_patch_agrees_with_rfc_witness:
  "let target = [(''a'', JNum 1), (''b'', JObj [(''c'', JStr ''x'')])]; patch = [(''a'', JNull), (''b'', JObj [(''c'', JNull), (''d'', JNum 2)])]
   in applyMergePatch target patch = rfc_merge target patch \<and> agreeing target patch"
proof -
  let ?t = "[(''a'', JNum 1), (''b'', JObj [(''c'', JStr ''x'')])]" and ?p = "[(''a'', JNull), (''b'', JObj [(''c'', JNull), (''d'', JNum 2)])]"
  have "tidy (JObj ?t)" "tidy (JObj ?p)" "agreeing ?t ?p" by code_simp+
  then show ?thesis using merge_patch_agrees_with_rfc [of ?t ?p] by (simp add: Let_def)
qed

text \<open>
  Against RFC 7396, a null inside an object that is new to the document is stored instead of being
  left out, and so applying the same patch again changes the document: PATCH is not idempotent.
\<close>

theorem nested_nulls_survive:
  "let patch = [(''profile'', JObj [(''phone'', JNull)])]
   in applyMergePatch [] patch = [(''profile'', JObj [(''phone'', JNull)])]
      \<and> rfc_merge [] patch = [(''profile'', JObj [])]
      \<and> applyMergePatch (applyMergePatch [] patch) patch = [(''profile'', JObj [])]"
  by code_simp

end
