(* ===== verification/Feeds.thy ===== *)
theory Feeds
  imports Documents
begin

text \<open>
  Feeds (\<^verbatim>\<open>src/internal/storage/postgres/feeds.go\<close>): append-only logs of entries with sequence numbers,
  their creation, reading by ranges and in batches, and their retention.

  The context that a storage operation puts before a database error is part of the model here, since
  the batch read reports it.
\<close>

definition in_context :: "string \<Rightarrow> (err + 'a) \<times> 'b \<Rightarrow> (err + 'a) \<times> 'b" where
  "in_context what r = (case r of (Inl e, db) \<Rightarrow> (Inl (Wrapped what e []), db) | (Inr x, db) \<Rightarrow> (Inr x, db))"

section \<open>Feeds\<close>

definition find_feed :: "string \<Rightarrow> string \<Rightarrow> stores \<Rightarrow> FeedRecord option" where
  "find_feed owner path db = find (at_path owner path) (feeds db)"

definition entries_of :: "int \<Rightarrow> stores \<Rightarrow> FeedEntryRecord list" where
  "entries_of i db = filter (\<lambda>e. fentFeedID e = i) (feed_entries db)"

text \<open>A column that keeps its value when the new one is empty: \<^verbatim>\<open>COALESCE(NULLIF(new, ''), old)\<close>.\<close>

definition or_kept :: "string \<Rightarrow> string \<Rightarrow> string" where
  "or_kept new old = (if new = [] then old else new)"

definition created_feed :: "string \<Rightarrow> string \<Rightarrow> string \<Rightarrow> string \<Rightarrow> bool \<Rightarrow> Visibility \<Rightarrow> stores \<Rightarrow> FeedRecord" where
  "created_feed owner path title description collaborative vis db =
     \<lparr>rowID = store_next db, rowOwner = owner, rowPath = path, rowVisibility = vis, Title = title, Description = description,
      EntryContentType = ''application/json'', feedCreatedAt = clock db, LastEntryAt = clock db, CurrentSequence = 0,
      MaxEntries = None, MaxAgeDays = None, CollaborativeMode = collaborative\<rparr>"

definition pg_CreateFeed :: "peer_lib \<Rightarrow> peer_id \<Rightarrow> string \<Rightarrow> string \<Rightarrow> string \<Rightarrow> bool \<Rightarrow> Visibility \<Rightarrow> FeedRecord storem" where
  "pg_CreateFeed L ownerID path title description collaborative vis db = in_context ''create feed: '' (stmt (\<lambda>db.
     (let own = peer_String L ownerID in
      case find_feed own path db of
        None \<Rightarrow>
          (let r = created_feed own path title description collaborative vis db
           in (Inr r, db\<lparr>feeds := feeds db @ [r], store_next := store_next db + 1\<rparr>))
      | Some r \<Rightarrow>
          (let up = (\<lambda>x. x\<lparr>Title := or_kept title (Title x), Description := or_kept description (Description x)\<rparr>)
           in (Inr (up r), db\<lparr>feeds := map (\<lambda>x. if at_path own path x then up x else x) (feeds db)\<rparr>)))) db)"

definition pg_GetFeed :: "peer_lib \<Rightarrow> peer_id \<Rightarrow> string \<Rightarrow> FeedRecord option storem" where
  "pg_GetFeed L ownerID path db = in_context ''get feed: '' (stmt (\<lambda>d. (Inr (find_feed (peer_String L ownerID) path d), d)) db)"

text \<open>The entries and the reader list of a feed go with it.\<close>

definition pg_DeleteFeed :: "peer_lib \<Rightarrow> peer_id \<Rightarrow> string \<Rightarrow> bool storem" where
  "pg_DeleteFeed L ownerID path db = in_context ''delete feed: '' (stmt (\<lambda>db.
     (let gone = map rowID (filter (at_path (peer_String L ownerID) path) (feeds db))
      in (Inr (gone \<noteq> []),
          db\<lparr>feeds := filter (\<lambda>r. \<not> at_path (peer_String L ownerID) path r) (feeds db),
             feed_entries := filter (\<lambda>e. fentFeedID e \<notin> set gone) (feed_entries db),
             feed_acls := filter (\<lambda>a. rdRow a \<notin> set gone) (feed_acls db)\<rparr>))) db)"

definition pg_ListFeeds :: "peer_lib \<Rightarrow> collation \<Rightarrow> peer_id \<Rightarrow> peer_id \<Rightarrow> FeedRecord list storem" where
  "pg_ListFeeds L C ownerID readerID db = in_context ''list feeds: '' (stmt (\<lambda>d.
     (Inr (sort_key (\<lambda>r. C (rowPath r))
        (filter (\<lambda>r. rowOwner r = peer_String L ownerID \<and> readableBy (feed_acls d) (peer_String L readerID) r) (feeds d))), d)) db)"


section \<open>Entries\<close>

definition appended_entry :: "int \<Rightarrow> int \<Rightarrow> int \<Rightarrow> bytes \<Rightarrow> millis \<Rightarrow> string \<Rightarrow> string \<Rightarrow> FeedEntryRecord" where
  "appended_entry i feedID sq content now createdBy entryType =
     \<lparr>fentID = i, fentFeedID = feedID, fentSequenceNumber = sq, fentContent = content,
      fentContentHash = computeContentHash content, fentCreatedAt = now, fentCreatedByPeerID = createdBy, fentEntryType = entryType\<rparr>"

text \<open>
  One transaction: the counter of the feed is raised under the lock of its row, then the entry is
  inserted; an entry with the number would break the unique key and undo both.
\<close>

definition append_entry :: "string \<Rightarrow> int \<Rightarrow> bytes \<Rightarrow> string \<Rightarrow> FeedEntryRecord storem" where
  "append_entry createdBy feedID content entryType db =
     (case find (\<lambda>r. rowID r = feedID) (feeds db) of
        None \<Rightarrow> (Inl (Wrapped ''increment feed sequence: '' (DbError ''no rows in result set'') []), db)
      | Some f \<Rightarrow>
          (let newSeq = CurrentSequence f + 1;
               e = appended_entry (store_next db) feedID newSeq content (clock db) createdBy entryType
           in if list_ex (\<lambda>x. fentSequenceNumber x = newSeq) (entries_of feedID db)
              then (Inl (Wrapped ''insert feed entry: '' (DbError ''unique violation'') []), db)
              else (Inr e, db\<lparr>feeds := map (\<lambda>r. if rowID r = feedID then r\<lparr>CurrentSequence := CurrentSequence r + 1, LastEntryAt := clock db\<rparr> else r) (feeds db),
                              feed_entries := feed_entries db @ [e], store_next := store_next db + 1\<rparr>)))"

definition pg_AppendFeedEntry :: "peer_lib \<Rightarrow> int \<Rightarrow> bytes \<Rightarrow> peer_id \<Rightarrow> string \<Rightarrow> FeedEntryRecord storem" where
  "pg_AppendFeedEntry L feedID content createdBy entryType = stmt (append_entry (peer_String L createdBy) feedID content entryType)"

definition pg_GetFeedEntry :: "int \<Rightarrow> int \<Rightarrow> FeedEntryRecord option storem" where
  "pg_GetFeedEntry feedID sq db = in_context ''get feed entry: ''
     (stmt (\<lambda>d. (Inr (find (\<lambda>e. fentSequenceNumber e = sq) (entries_of feedID d)), d)) db)"

definition entries_limit :: "int \<Rightarrow> int" where
  "entries_limit limit = (let l = (if limit \<le> 0 then 50 else limit) in if 1000 < l then 1000 else l)"

definition in_range :: "int option \<Rightarrow> int option \<Rightarrow> string \<Rightarrow> FeedEntryRecord \<Rightarrow> bool" where
  "in_range fromSeq toSeq entryType e \<longleftrightarrow>
     (case fromSeq of None \<Rightarrow> True | Some a \<Rightarrow> a \<le> fentSequenceNumber e)
     \<and> (case toSeq of None \<Rightarrow> True | Some b \<Rightarrow> fentSequenceNumber e \<le> b)
     \<and> (entryType \<noteq> [] \<longrightarrow> fentEntryType e = entryType)"

definition entry_rows :: "int \<Rightarrow> int option \<Rightarrow> int option \<Rightarrow> string \<Rightarrow> stores \<Rightarrow> FeedEntryRecord list" where
  "entry_rows feedID fromSeq toSeq entryType db =
     sort_key fentSequenceNumber (filter (in_range fromSeq toSeq entryType) (entries_of feedID db))"

definition pg_GetFeedEntries :: "int \<Rightarrow> int option \<Rightarrow> int option \<Rightarrow> string \<Rightarrow> int \<Rightarrow> (FeedEntryRecord list \<times> bool) storem" where
  "pg_GetFeedEntries feedID fromSeq toSeq entryType limit db =
     (let l = entries_limit limit in
      in_context ''get feed entries: '' (stmt (\<lambda>d.
        (let records = take (nat (l + 1)) (entry_rows feedID fromSeq toSeq entryType d); hasMore = (l < int (length records))
         in (Inr (if hasMore then take (nat l) records else records, hasMore), d))) db))"

definition pg_CountFeedEntries :: "int \<Rightarrow> int storem" where
  "pg_CountFeedEntries feedID db =
     in_context ''count feed entries: '' (stmt (\<lambda>d. (Inr (int (length (entries_of feedID d))), d)) db)"


section \<open>Batches\<close>

record MultiFeedQuery =
  mqOwnerPeerID :: string
  mqPath :: string
  mqFromSequence :: "int option"
  mqLimit :: int

record MultiFeedResult =
  mrEntries :: "FeedEntryRecord list"
  mrHasMore :: bool
  mrError :: string

definition multi_error :: "string \<Rightarrow> MultiFeedResult" where
  "multi_error msg = \<lparr>mrEntries = [], mrHasMore = False, mrError = msg\<rparr>"

definition query_key :: "MultiFeedQuery \<Rightarrow> string" where
  "query_key q = mqOwnerPeerID q @ ''/'' @ mqPath q"

text \<open>
  The first loop: each query is resolved to the identifier of its feed (\<open>Inr\<close>) or to what is reported
  for it (\<open>Inl\<close>).
\<close>

fun resolve_feeds :: "peer_lib \<Rightarrow> MultiFeedQuery list \<Rightarrow> stores \<Rightarrow> (string \<times> (MultiFeedResult + int \<times> MultiFeedQuery)) list \<times> stores" where
  "resolve_feeds L [] db = ([], db)"
| "resolve_feeds L (q # qs) db =
     (let (r, db1) =
        (case peer_Decode L (mqOwnerPeerID q) of
           None \<Rightarrow> (Inl (multi_error ''invalid ownerPeerId''), db)
         | Some owner \<Rightarrow>
             (case pg_GetFeed L owner (mqPath q) db of
                (Inl e, d) \<Rightarrow> (Inl (multi_error (error_text e)), d)
              | (Inr None, d) \<Rightarrow> (Inl (multi_error ''feed not found''), d)
              | (Inr (Some feed), d) \<Rightarrow> (Inr (rowID feed, q), d)));
        (rs, db2) = resolve_feeds L qs db1
      in ((query_key q, r) # rs, db2))"

definition feed_result :: "int \<times> MultiFeedQuery \<Rightarrow> stores \<Rightarrow> MultiFeedResult \<times> stores" where
  "feed_result ref db =
     (let limit = (if mqLimit (snd ref) \<le> 0 then 50 else mqLimit (snd ref)) in
      case pg_GetFeedEntries (fst ref) (mqFromSequence (snd ref)) None [] limit db of
        (Inl e, d) \<Rightarrow> (multi_error (error_text e), d)
      | (Inr (es, hasMore), d) \<Rightarrow> (\<lparr>mrEntries = es, mrHasMore = hasMore, mrError = []\<rparr>, d))"

fun fetch_feeds :: "(string \<times> int \<times> MultiFeedQuery) list \<Rightarrow> stores \<Rightarrow> (string \<times> MultiFeedResult) list \<times> stores" where
  "fetch_feeds [] db = ([], db)"
| "fetch_feeds ((k, ref) # refs) db =
     (let (r, db1) = feed_result ref db; (rs, db2) = fetch_feeds refs db1 in ((k, r) # rs, db2))"

text \<open>
  The entries are fetched by one goroutine for each feed and their results stored in the order in which
  they arrive, which the scheduler chooses: \<open>arrival\<close> lists the positions of the feeds in that order.
  The result is the list of assignments to the map, of which the last one for a key counts.
\<close>

definition pg_GetMultiFeedEntries :: "peer_lib \<Rightarrow> nat list \<Rightarrow> MultiFeedQuery list \<Rightarrow> stores \<Rightarrow> (string \<times> MultiFeedResult) list \<times> stores" where
  "pg_GetMultiFeedEntries L arrival queries db =
     (let (resolved, db1) = resolve_feeds L queries db;
          errors = concat (map (\<lambda>(k, r). case r of Inl e \<Rightarrow> [(k, e)] | Inr _ \<Rightarrow> []) resolved);
          refs = concat (map (\<lambda>(k, r). case r of Inl _ \<Rightarrow> [] | Inr ref \<Rightarrow> [(k, ref)]) resolved);
          (fetched, db2) = fetch_feeds (map (\<lambda>i. refs ! i) arrival) db1
      in (errors @ fetched, db2))"


section \<open>Retention\<close>

definition too_old :: "int option \<Rightarrow> millis \<Rightarrow> FeedEntryRecord \<Rightarrow> bool" where
  "too_old days now e \<longleftrightarrow> (case days of None \<Rightarrow> False | Some d \<Rightarrow> 0 < d \<and> fentCreatedAt e < now - day_ms * d)"

definition newest_entries :: "int \<Rightarrow> stores \<Rightarrow> FeedEntryRecord list" where
  "newest_entries i db = sort_key (\<lambda>e. - fentSequenceNumber e) (entries_of i db)"

definition drop_entries :: "(FeedEntryRecord \<Rightarrow> bool) \<Rightarrow> stores \<Rightarrow> (err + int) \<times> stores" where
  "drop_entries P db =
     (Inr (int (length (filter P (feed_entries db)))), db\<lparr>feed_entries := filter (\<lambda>e. \<not> P e) (feed_entries db)\<rparr>)"

definition pg_EnforceFeedRetention :: "FeedRecord \<Rightarrow> int storem" where
  "pg_EnforceFeedRetention feed db =
     (let (aged, db1) =
        (case MaxAgeDays feed of
           Some d \<Rightarrow>
             if 0 < d then stmt (\<lambda>d0. drop_entries (\<lambda>e. fentFeedID e = rowID feed \<and> too_old (Some d) (clock d0) e) d0) db else (Inr 0, db)
         | None \<Rightarrow> (Inr 0, db))
      in case aged of
           Inl e \<Rightarrow> (Inl (Wrapped ''enforce feed age retention: '' e []), db1)
         | Inr n \<Rightarrow>
             (case MaxEntries feed of
                Some m \<Rightarrow>
                  if 0 < m
                  then (case stmt (\<lambda>d0. drop_entries (\<lambda>e. fentID e \<in> set (map fentID (drop (nat m) (newest_entries (rowID feed) d0)))) d0) db1 of
                          (Inl e, db2) \<Rightarrow> (Inl (Wrapped ''enforce feed count retention: '' e []), db2)
                        | (Inr k, db2) \<Rightarrow> (Inr (n + k), db2))
                  else (Inr n, db1)
              | None \<Rightarrow> (Inr n, db1)))"

text \<open>
  \<^verbatim>\<open>EnforceAllFeedRetention\<close>: the same limits in two statements over all feeds. The bound of the
  second is the sequence number of the first entry beyond the limit; a feed within it has none.
\<close>

definition beyond_bound :: "FeedRecord \<Rightarrow> stores \<Rightarrow> int option" where
  "beyond_bound f db =
     (case MaxEntries f of
        None \<Rightarrow> None
      | Some m \<Rightarrow>
          if 0 < m then map_option fentSequenceNumber (case drop (nat m) (newest_entries (rowID f) db) of [] \<Rightarrow> None | e # _ \<Rightarrow> Some e)
          else None)"

definition pg_EnforceAllFeedRetention :: "int storem" where
  "pg_EnforceAllFeedRetention db =
     (case stmt (\<lambda>d. drop_entries (\<lambda>e. list_ex (\<lambda>f. rowID f = fentFeedID e \<and> too_old (MaxAgeDays f) (clock d) e) (feeds d)) d) db of
        (Inl e, db1) \<Rightarrow> (Inl (Wrapped ''feed age retention: '' e []), db1)
      | (Inr n, db1) \<Rightarrow>
          (case stmt (\<lambda>d. drop_entries (\<lambda>e. list_ex (\<lambda>f. rowID f = fentFeedID e
                   \<and> (case beyond_bound f d of None \<Rightarrow> False | Some b \<Rightarrow> fentSequenceNumber e \<le> b)) (feeds d)) d) db1 of
             (Inl e, db2) \<Rightarrow> (Inl (Wrapped ''feed count retention: '' e []), db2)
           | (Inr k, db2) \<Rightarrow> (Inr (n + k), db2)))"

end
