(* ===== verification/Directory.thy ===== *)
theory Directory
  imports Documents
begin

text \<open>
  The public directory (\<^verbatim>\<open>UpsertDirectoryEntry\<close>, \<^verbatim>\<open>RemoveDirectoryEntry\<close>, \<^verbatim>\<open>GetDirectoryEntry\<close> and
  \<^verbatim>\<open>BrowseDirectory\<close> of \<^verbatim>\<open>src/internal/storage/postgres/postgres.go\<close>). What the words of a query are,
  which listings the full-text search of the database finds for them, and the text of a time are
  outside the program (\<open>dir_lib\<close>).
\<close>

record dir_lib =
  dlWords :: "string \<Rightarrow> string list"
  dlSearch :: "string \<Rightarrow> string \<Rightarrow> bool"
  dlFormat :: "millis \<Rightarrow> string"
  dlParse :: "string \<Rightarrow> string + millis"

record DirectoryPage =
  pgEntries :: "DirectoryEntry list"
  pgNextCursor :: string
  pgHasMore :: bool

definition MaxDirectoryQueryLength :: int where "MaxDirectoryQueryLength = 100"

text \<open>\<^verbatim>\<open>strings.TrimSpace\<close>: the encodings of the characters of \<^verbatim>\<open>unicode.IsSpace\<close>.\<close>

definition space_runes :: "string list" where
  "space_runes =
     [[CHR 0x09], [CHR 0x0A], [CHR 0x0B], [CHR 0x0C], [CHR 0x0D], [CHR 0x20], [CHR 0xC2, CHR 0x85], [CHR 0xC2, CHR 0xA0],
      [CHR 0xE1, CHR 0x9A, CHR 0x80], [CHR 0xE2, CHR 0x80, CHR 0x80], [CHR 0xE2, CHR 0x80, CHR 0x81],
      [CHR 0xE2, CHR 0x80, CHR 0x82], [CHR 0xE2, CHR 0x80, CHR 0x83], [CHR 0xE2, CHR 0x80, CHR 0x84],
      [CHR 0xE2, CHR 0x80, CHR 0x85], [CHR 0xE2, CHR 0x80, CHR 0x86], [CHR 0xE2, CHR 0x80, CHR 0x87],
      [CHR 0xE2, CHR 0x80, CHR 0x88], [CHR 0xE2, CHR 0x80, CHR 0x89], [CHR 0xE2, CHR 0x80, CHR 0x8A],
      [CHR 0xE2, CHR 0x80, CHR 0xA8], [CHR 0xE2, CHR 0x80, CHR 0xA9], [CHR 0xE2, CHR 0x80, CHR 0xAF],
      [CHR 0xE2, CHR 0x81, CHR 0x9F], [CHR 0xE3, CHR 0x80, CHR 0x80]]"

function trim_prefix :: "string list \<Rightarrow> string \<Rightarrow> string" where
  "trim_prefix rs s =
     (case find (\<lambda>r. r \<noteq> [] \<and> has_prefix s r) rs of None \<Rightarrow> s | Some r \<Rightarrow> trim_prefix rs (drop (length r) s))"
  by pat_completeness auto
termination
  by (relation "measure (\<lambda>(rs, s). length s)") (auto simp: find_Some_iff has_prefix_iff)

definition TrimSpace :: "string \<Rightarrow> string" where
  "TrimSpace s = rev (trim_prefix (map rev space_runes) (rev (trim_prefix space_runes s)))"

definition prefixTSQuery :: "dir_lib \<Rightarrow> string \<Rightarrow> string option" where
  "prefixTSQuery D query =
     (let ws = dlWords D query in
      if ws = [] then None
      else Some (join '' & '' (map (\<lambda>w. [CHR 0x27] @ w @ [CHR 0x27] @ '':*'') ws)))"

definition pg_UpsertDirectoryEntry :: "DirectoryEntry \<Rightarrow> unit storem" where
  "pg_UpsertDirectoryEntry entry = stmt (\<lambda>db.
     (Inr (),
      if list_ex (\<lambda>e. dirOwnerPeerID e = dirOwnerPeerID entry) (directory_listings db)
      then db\<lparr>directory_listings := map (\<lambda>e. if dirOwnerPeerID e = dirOwnerPeerID entry
                then e\<lparr>DisplayName := DisplayName entry, Bio := Bio entry, AvatarHash := AvatarHash entry,
                       Extras := Extras entry, dirUpdatedAt := clock db\<rparr> else e) (directory_listings db)\<rparr>
      else db\<lparr>directory_listings := directory_listings db @
                [entry\<lparr>dirID := store_next db, ListedAt := clock db, dirUpdatedAt := clock db\<rparr>],
              store_next := store_next db + 1\<rparr>))"

definition pg_RemoveDirectoryEntry :: "string \<Rightarrow> unit storem" where
  "pg_RemoveDirectoryEntry owner = stmt (\<lambda>db.
     (Inr (), db\<lparr>directory_listings := filter (\<lambda>e. dirOwnerPeerID e \<noteq> owner) (directory_listings db)\<rparr>))"

definition pg_GetDirectoryEntry :: "string \<Rightarrow> DirectoryEntry option storem" where
  "pg_GetDirectoryEntry owner = stmt (\<lambda>db.
     (Inr (find (\<lambda>e. dirOwnerPeerID e = owner) (directory_listings db)), db))"

definition browse_limit :: "int \<Rightarrow> int" where
  "browse_limit limit = (let l = (if limit \<le> 0 then 20 else limit) in if 100 < l then 100 else l)"

text \<open>The cursor is split at its last colon; the text of a time has colons of its own.\<close>

definition parse_cursor :: "dir_lib \<Rightarrow> string \<Rightarrow> err + (millis \<times> string) option" where
  "parse_cursor D cursor =
     (if cursor = [] then Inr None
      else case index_char (CHR '':'') (rev cursor) of
        None \<Rightarrow> Inl (Wrapped [] ErrInvalidCursor '': no separator'')
      | Some i \<Rightarrow>
          (let sepIdx = length cursor - 1 - i in
           if sepIdx = 0 then Inl (Wrapped [] ErrInvalidCursor '': no separator'')
           else case dlParse D (take sepIdx cursor) of
             Inl e \<Rightarrow> Inl (Wrapped [] ErrInvalidCursor ('': '' @ e))
           | Inr t \<Rightarrow>
               (let p = drop (sepIdx + 1) cursor in
                if p = [] then Inl (Wrapped [] ErrInvalidCursor '': no peer id'') else Inr (Some (t, p)))))"

definition dir_key :: "collation \<Rightarrow> millis \<Rightarrow> string \<Rightarrow> int list" where
  "dir_key C t owner = t # C owner"

definition browse_rows :: "collation \<Rightarrow> (DirectoryEntry \<Rightarrow> bool) \<Rightarrow> (millis \<times> string) option \<Rightarrow> stores \<Rightarrow> DirectoryEntry list" where
  "browse_rows C matches cur db =
     rev (sort_key (\<lambda>e. dir_key C (dirUpdatedAt e) (dirOwnerPeerID e))
       (filter (\<lambda>e. matches e \<and> (case cur of None \<Rightarrow> True
             | Some (t, p) \<Rightarrow> dir_key C (dirUpdatedAt e) (dirOwnerPeerID e) < dir_key C t p)) (directory_listings db)))"

definition browse_page :: "dir_lib \<Rightarrow> collation \<Rightarrow> (DirectoryEntry \<Rightarrow> bool) \<Rightarrow> (millis \<times> string) option \<Rightarrow> int \<Rightarrow> stores \<Rightarrow> DirectoryPage" where
  "browse_page D C matches cur l db =
     (let entries = take (nat (l + 1)) (browse_rows C matches cur db);
          hasMore = (l < int (length entries));
          shown = (if hasMore then take (nat l) entries else entries)
      in \<lparr>pgEntries = shown,
          pgNextCursor = (if hasMore \<and> shown \<noteq> [] then dlFormat D (dirUpdatedAt (last shown)) @ '':'' @ dirOwnerPeerID (last shown) else []),
          pgHasMore = hasMore\<rparr>)"

definition listing_text :: "DirectoryEntry \<Rightarrow> string" where
  "listing_text e = DisplayName e @ '' '' @ Bio e"

definition pg_BrowseDirectory :: "dir_lib \<Rightarrow> collation \<Rightarrow> string \<Rightarrow> string \<Rightarrow> int \<Rightarrow> DirectoryPage storem" where
  "pg_BrowseDirectory D C query cursor limit db =
     (let l = browse_limit limit; q = TrimSpace query in
      if MaxDirectoryQueryLength < int (length q)
      then (Inl (Wrapped [] ErrDirectoryQueryTooLong
              ('': '' @ show_int (int (length q)) @ '' bytes, maximum '' @ show_int MaxDirectoryQueryLength)), db)
      else if q \<noteq> [] \<and> prefixTSQuery D q = None
      then (Inr \<lparr>pgEntries = [], pgNextCursor = [], pgHasMore = False\<rparr>, db)
      else case parse_cursor D cursor of
        Inl e \<Rightarrow> (Inl e, db)
      | Inr cur \<Rightarrow>
          (let matches = (\<lambda>e. q = [] \<or> dlSearch D (the (prefixTSQuery D q)) (listing_text e))
           in stmt (\<lambda>d. (Inr (browse_page D C matches cur l d), d)) db))"

end
