(* ===== verification/Sda.thy ===== *)
theory Sda
  imports Directory
begin

text \<open>
  The document protocol (\<^verbatim>\<open>src/internal/protocol/sda/handler.go\<close>): reading, writing, patching, listing
  and restoring documents, their access and history, and the public directory. As in the mail
  protocols, a handler returns the response it sets (\<open>Inr\<close>) or the error it leaves to the response
  writer (\<open>Inl\<close>), and the operation a request names is read by forge's router.
\<close>

section \<open>Requests\<close>

record BatchDocument =
  bdPath :: string
  bdBody :: string
  bdContentType :: string
  bdIfMatch :: string
  bdVisibility :: string

record DocRequest =
  drOperation :: string
  drOwnerPeerID :: string
  drPath :: string
  drHeaders :: "(string \<times> string) list"
  drBody :: string
  drMaxVersions :: "int option"
  drVersionNumber :: "int option"
  drHistory :: "int option"
  drBatchDocuments :: "BatchDocument list"
  drListCursor :: string
  drListLimit :: "int option"
  drDirectoryAction :: string
  drDirectoryQuery :: string
  drDirectoryCursor :: string
  drDirectoryLimit :: "int option"
  drVisibility :: string
  drAccessAction :: string
  drReaderPeerID :: string

text \<open>
  A field that is a map: null makes it nil, an object adds its members to what an earlier field of the
  name left. The list has the last value of a key last.
\<close>

definition all_values :: "string \<Rightarrow> (string \<times> json) list \<Rightarrow> json list" where
  "all_values name kvs = map snd (filter (\<lambda>kv. fold_name (fst kv) = fold_name name) kvs)"

fun map_members :: "(json \<Rightarrow> 'a option) \<Rightarrow> 'a \<Rightarrow> (string \<times> json) list \<Rightarrow> (string \<times> 'a) list option" where
  "map_members dec nul [] = Some []"
| "map_members dec nul ((k, v) # kvs) =
     (case (if v = JNull then Some nul else dec v) of
        None \<Rightarrow> None
      | Some x \<Rightarrow> map_option ((#) (k, x)) (map_members dec nul kvs))"

fun merge_maps :: "(json \<Rightarrow> 'a option) \<Rightarrow> 'a \<Rightarrow> json list \<Rightarrow> (string \<times> 'a) list option \<Rightarrow> (string \<times> 'a) list option option" where
  "merge_maps dec nul [] m = Some m"
| "merge_maps dec nul (JNull # vs) m = merge_maps dec nul vs None"
| "merge_maps dec nul (JObj kvs # vs) m =
     (case map_members dec nul kvs of
        None \<Rightarrow> None
      | Some es \<Rightarrow> merge_maps dec nul vs (Some ((case m of None \<Rightarrow> [] | Some old \<Rightarrow> old) @ es)))"
| "merge_maps dec nul (_ # vs) m = None"

definition header :: "string \<Rightarrow> (string \<times> string) list \<Rightarrow> string option" where
  "header name hs = map_of (rev hs) name"

text \<open>
  A slice of structs: an element that an earlier field of the name filled is decoded over, since Go
  reuses the array behind the slice; null leaves an element as it is and makes the slice nil.
\<close>

definition no_document :: BatchDocument where
  "no_document = \<lparr>bdPath = [], bdBody = [], bdContentType = [], bdIfMatch = [], bdVisibility = []\<rparr>"

fun dec_BatchDocument :: "BatchDocument \<Rightarrow> json \<Rightarrow> BatchDocument option" where
  "dec_BatchDocument old (JObj kvs) = do {
     p \<leftarrow> json_field dec_string (bdPath old) ''path'' kvs;
     b \<leftarrow> json_field dec_string (bdBody old) ''body'' kvs;
     ct \<leftarrow> json_field dec_string (bdContentType old) ''contentType'' kvs;
     im \<leftarrow> json_field dec_string (bdIfMatch old) ''ifMatch'' kvs;
     vis \<leftarrow> json_field dec_string (bdVisibility old) ''visibility'' kvs;
     Some \<lparr>bdPath = p, bdBody = b, bdContentType = ct, bdIfMatch = im, bdVisibility = vis\<rparr> }"
| "dec_BatchDocument old JNull = Some old"
| "dec_BatchDocument old _ = None"

fun dec_over :: "('a \<Rightarrow> json \<Rightarrow> 'a option) \<Rightarrow> 'a \<Rightarrow> 'a list \<Rightarrow> json list \<Rightarrow> 'a list option" where
  "dec_over dec zero array [] = Some []"
| "dec_over dec zero array (j # js) =
     (case dec (case array of [] \<Rightarrow> zero | d # _ \<Rightarrow> d) j of
        None \<Rightarrow> None
      | Some d \<Rightarrow> map_option ((#) d) (dec_over dec zero (tl array) js))"

fun struct_slice :: "('a \<Rightarrow> json \<Rightarrow> 'a option) \<Rightarrow> 'a \<Rightarrow> json list \<Rightarrow> 'a list \<Rightarrow> 'a list \<Rightarrow> 'a list option" where
  "struct_slice dec zero [] array sl = Some sl"
| "struct_slice dec zero (JNull # vs) array sl = struct_slice dec zero vs [] []"
| "struct_slice dec zero (JArr js # vs) array sl =
     (case dec_over dec zero array js of
        None \<Rightarrow> None
      | Some ds \<Rightarrow> struct_slice dec zero vs (ds @ drop (length ds) array) ds)"
| "struct_slice dec zero (_ # vs) array sl = None"

definition dec_DocRequest :: "(string \<times> json) list \<Rightarrow> DocRequest option" where
  "dec_DocRequest kvs = do {
     opn \<leftarrow> json_field dec_string [] ''operation'' kvs;
     own \<leftarrow> json_field dec_string [] ''ownerPeerId'' kvs;
     p \<leftarrow> json_field dec_string [] ''path'' kvs;
     hs \<leftarrow> merge_maps dec_string [] (all_values ''headers'' kvs) None;
     b \<leftarrow> json_field dec_string [] ''body'' kvs;
     mv \<leftarrow> json_ref (dec_ptr dec_int64) None ''maxVersions'' kvs;
     vn \<leftarrow> json_ref (dec_ptr dec_int64) None ''versionNumber'' kvs;
     his \<leftarrow> json_ref (dec_ptr dec_int64) None ''history'' kvs;
     bds \<leftarrow> struct_slice dec_BatchDocument no_document (all_values ''batchDocuments'' kvs) [] [];
     lc \<leftarrow> json_field dec_string [] ''listCursor'' kvs;
     ll \<leftarrow> json_ref (dec_ptr dec_int64) None ''listLimit'' kvs;
     da \<leftarrow> json_field dec_string [] ''directoryAction'' kvs;
     dq \<leftarrow> json_field dec_string [] ''directoryQuery'' kvs;
     dc \<leftarrow> json_field dec_string [] ''directoryCursor'' kvs;
     dl \<leftarrow> json_ref (dec_ptr dec_int64) None ''directoryLimit'' kvs;
     vis \<leftarrow> json_field dec_string [] ''visibility'' kvs;
     aa \<leftarrow> json_field dec_string [] ''accessAction'' kvs;
     rp \<leftarrow> json_field dec_string [] ''readerPeerId'' kvs;
     Some \<lparr>drOperation = opn, drOwnerPeerID = own, drPath = p, drHeaders = (case hs of None \<Rightarrow> [] | Some m \<Rightarrow> m), drBody = b,
           drMaxVersions = mv, drVersionNumber = vn, drHistory = his, drBatchDocuments = bds, drListCursor = lc,
           drListLimit = ll, drDirectoryAction = da, drDirectoryQuery = dq, drDirectoryCursor = dc, drDirectoryLimit = dl,
           drVisibility = vis, drAccessAction = aa, drReaderPeerID = rp\<rparr> }"

definition maxBatchDocuments :: int where "maxBatchDocuments = 100"
definition maxBatchContentBytes :: int where "maxBatchContentBytes = 6 * 1024 * 1024"
definition maxPathLength :: int where "maxPathLength = 256"

fun containsDotDot :: "string \<Rightarrow> bool" where
  "containsDotDot (a # b # s) \<longleftrightarrow> a = CHR ''.'' \<and> b = CHR ''.'' \<or> containsDotDot (b # s)"
| "containsDotDot _ \<longleftrightarrow> False"

definition valid_path_char :: "char \<Rightarrow> bool" where
  "valid_path_char c \<longleftrightarrow>
     (CHR ''a'' \<le> c \<and> c \<le> CHR ''z'') \<or> (CHR ''A'' \<le> c \<and> c \<le> CHR ''Z'') \<or> (CHR ''0'' \<le> c \<and> c \<le> CHR ''9'')
     \<or> c = CHR ''-'' \<or> c = CHR ''_'' \<or> c = CHR ''/''"

definition validPathRe :: "string \<Rightarrow> bool" where
  "validPathRe s \<longleftrightarrow> s \<noteq> [] \<and> list_all valid_path_char s"

definition validatePath :: "string \<Rightarrow> string option" where
  "validatePath path =
     (if path = [] then Some ''path is required''
      else if maxPathLength < int (length path) then Some (''path exceeds maximum length of '' @ show_int maxPathLength @ '' characters'')
      else if hd path = CHR ''/'' then Some ''path must not start with /''
      else if containsDotDot path then Some ''path must not contain ..''
      else if \<not> validPathRe path then Some ''path contains invalid characters (allowed: alphanumeric, -, _, /)''
      else None)"


section \<open>Responses\<close>

datatype header_value = HStr string | HInt int | HBool bool

record DocResponse =
  rsStatus :: int
  rsHeaders :: "(string \<times> header_value) list"
  rsBody :: string

definition respond :: "int \<Rightarrow> (string \<times> header_value) list \<Rightarrow> err + DocResponse" where
  "respond status hs = Inr \<lparr>rsStatus = status, rsHeaders = hs, rsBody = []\<rparr>"

definition refuse :: "int \<Rightarrow> string \<Rightarrow> err + DocResponse" where
  "refuse status msg = respond status [(''Error'', HStr msg)]"

definition respond_body :: "int \<Rightarrow> (string \<times> header_value) list \<Rightarrow> bytes \<Rightarrow> err + DocResponse" where
  "respond_body status hs body = Inr \<lparr>rsStatus = status, rsHeaders = hs, rsBody = EncodeToString body\<rparr>"

definition docResponseWriter :: "err + DocResponse \<Rightarrow> DocResponse" where
  "docResponseWriter r =
     (case r of
        Inr x \<Rightarrow> x
      | Inl e \<Rightarrow>
          (let (status, retryAfter) = Classify (Some e); ms = RetryAfterMs retryAfter
           in \<lparr>rsStatus = status,
               rsHeaders = [(''Error'', HStr (ClientMessage (Some e)))] @ (if 0 < ms then [(''Retry-After-Ms'', HInt ms)] else []),
               rsBody = []\<rparr>))"

text \<open>\<^verbatim>\<open>writeErrorResponse\<close>.\<close>

definition writeErrorResponse :: "err \<Rightarrow> DocResponse" where
  "writeErrorResponse e =
     (if errors_is e ErrDocumentNotFound then \<lparr>rsStatus = 404, rsHeaders = [], rsBody = []\<rparr>
      else case errors_as (\<lambda>x. case x of DocumentSizeExceededError _ _ \<Rightarrow> True | _ \<Rightarrow> False) e of
        Some se \<Rightarrow> \<lparr>rsStatus = 413, rsHeaders = [(''Error'', HStr (error_text se))], rsBody = []\<rparr>
      | None \<Rightarrow>
          (case errors_as (\<lambda>x. case x of DocumentConflictError _ _ \<Rightarrow> True | _ \<Rightarrow> False) e of
             Some (DocumentConflictError ex act) \<Rightarrow>
               \<lparr>rsStatus = 409, rsHeaders = [(''Error'', HStr (error_text (DocumentConflictError ex act))),
                  (''Expected-ETag'', HStr ex), (''Actual-ETag'', HStr act)], rsBody = []\<rparr>
           | _ \<Rightarrow> \<lparr>rsStatus = 500, rsHeaders = [], rsBody = []\<rparr>))"


section \<open>Handlers\<close>

text \<open>
  What the handlers use of the world: libp2p's identities, the JSON package, the collation of the
  database, the directory's libraries, the text of a time in RFC 3339, forge, the bans, and the
  ceiling of the configuration (\<^verbatim>\<open>None\<close> without a configuration).
\<close>

record sda_env =
  sdPeer :: peer_lib
  sdJson :: json_lib
  sdColl :: collation
  sdDir :: dir_lib
  sdTime :: "millis \<Rightarrow> string"
  sdForge :: forge_lib
  sdGates :: gate_env
  sdMaxHistory :: "int option"

type_synonym sda_handler = "stores \<Rightarrow> (err + DocResponse) \<times> stores"

definition writeOptions :: "sda_env \<Rightarrow> DocumentWriteOptions" where
  "writeOptions V = \<lparr>woVisibility = None, woHistory = None, woMaxHistory = (case sdMaxHistory V of None \<Rightarrow> 0 | Some m \<Rightarrow> m)\<rparr>"

definition historyKept :: "sda_env \<Rightarrow> 'a document_row_scheme \<Rightarrow> int" where
  "historyKept V doc =
     (if \<not> HistoryEnabled doc then 0
      else let ceiling = HistoryCeiling (writeOptions V) in
           case MaxHistoryVersions doc of None \<Rightarrow> ceiling | Some m \<Rightarrow> if m < ceiling then m else ceiling)"

definition parseVisibility :: "string \<Rightarrow> err + Visibility option" where
  "parseVisibility s =
     (if s = [] then Inr None
      else case VisibilityFromString s of Inl e \<Rightarrow> Inl e | Inr v \<Rightarrow> Inr (Some v))"

text \<open>What the reading handlers share: the document, once the caller may read it.\<close>

definition with_document :: "sda_env \<Rightarrow> peer_id \<Rightarrow> (err + DocumentRecord option) \<times> stores \<Rightarrow> (DocumentRecord \<Rightarrow> sda_handler)
    \<Rightarrow> (err + DocResponse) \<times> stores" where
  "with_document V caller found k =
     (case found of
        (Inl e, db1) \<Rightarrow> (respond (if errors_is e ErrDocumentNotFound then 404 else 500) [], db1)
      | (Inr None, db1) \<Rightarrow> (respond 404 [], db1)
      | (Inr (Some doc), db1) \<Rightarrow>
          (case RequireReader (sdPeer V) (geBans (sdGates V)) caller StoreDocument (rowID doc) (rowOwner doc) (rowVisibility doc) db1 of
             (Some e, db2) \<Rightarrow> (Inl e, db2)
           | (None, db2) \<Rightarrow> k doc db2))"

definition handleGet :: "sda_env \<Rightarrow> peer_id \<Rightarrow> peer_id \<Rightarrow> DocRequest \<Rightarrow> sda_handler" where
  "handleGet V caller owner req db =
     with_document V caller (pg_GetDocument (sdPeer V) owner (drPath req) db) (\<lambda>doc db2.
       if header ''If-None-Match'' (drHeaders req) = Some (docContentHash doc)
       then (respond 304 [(''ETag'', HStr (docContentHash doc))], db2)
       else (respond_body 200
              [(''ETag'', HStr (docContentHash doc)), (''Content-Type'', HStr (docContentType doc)),
               (''Last-Modified'', HInt (docUpdatedAt doc)), (''Version'', HInt (docVersionNumber doc)),
               (''Visibility'', HStr (Visibility_String (rowVisibility doc))), (''History'', HInt (historyKept V doc))]
              (docContent doc), db2))"

definition handleHead :: "sda_env \<Rightarrow> peer_id \<Rightarrow> peer_id \<Rightarrow> DocRequest \<Rightarrow> sda_handler" where
  "handleHead V caller owner req db =
     with_document V caller (pg_HeadDocument (sdPeer V) owner (drPath req) db) (\<lambda>doc db2.
       if header ''If-None-Match'' (drHeaders req) = Some (docContentHash doc)
       then (respond 304 [(''ETag'', HStr (docContentHash doc))], db2)
       else (respond 200
              [(''ETag'', HStr (docContentHash doc)), (''Content-Type'', HStr (docContentType doc)),
               (''Content-Length'', HInt (docContentLength doc)), (''Last-Modified'', HInt (docUpdatedAt doc)),
               (''Version'', HInt (docVersionNumber doc)), (''Visibility'', HStr (Visibility_String (rowVisibility doc))),
               (''History'', HInt (historyKept V doc))], db2))"

subsection \<open>The directory as a projection of a document\<close>

record dir_listing =
  lsListed :: "bool option"
  lsDisplayName :: string
  lsBio :: string
  lsAvatarHash :: string
  lsExtras :: "(string \<times> json) list option"

definition dec_listing :: "(json \<Rightarrow> json option) \<Rightarrow> (string \<times> json) list \<Rightarrow> dir_listing option" where
  "dec_listing N kvs = do {
     ls \<leftarrow> json_ref (dec_ptr dec_bool) None ''listed'' kvs;
     nm \<leftarrow> json_field dec_string [] ''displayName'' kvs;
     b \<leftarrow> json_field dec_string [] ''bio'' kvs;
     av \<leftarrow> json_field dec_string [] ''avatarHash'' kvs;
     ex \<leftarrow> merge_maps (go_any N) JNull (all_values ''extras'' kvs) None;
     Some \<lparr>lsListed = ls, lsDisplayName = nm, lsBio = b, lsAvatarHash = av, lsExtras = map_option map_fields ex\<rparr> }"

definition checkListingFields :: "json_lib \<Rightarrow> dir_listing \<Rightarrow> err option" where
  "checkListingFields J l =
     first_refusal [CheckString ''displayName'' (lsDisplayName l) 256, CheckString ''bio'' (lsBio l) 4096,
       CheckString ''avatarHash'' (lsAvatarHash l) 256,
       CheckJSONSize ''extras'' (Some (Some (json_enc J (case lsExtras l of None \<Rightarrow> JNull | Some m \<Rightarrow> JObj m)))) 4096]"

definition listing_entry :: "string \<Rightarrow> dir_listing \<Rightarrow> DirectoryEntry" where
  "listing_entry owner l = \<lparr>dirID = 0, dirOwnerPeerID = owner, DisplayName = lsDisplayName l, Bio = lsBio l,
     AvatarHash = lsAvatarHash l, ListedAt = 0, dirUpdatedAt = 0, Extras = map_option JObj (lsExtras l)\<rparr>"

definition directoryListingPath :: string where "directoryListingPath = ''directory-listing''"

definition maybeUpdateDirectoryListing :: "sda_env \<Rightarrow> peer_id \<Rightarrow> string \<Rightarrow> stores \<Rightarrow> stores" where
  "maybeUpdateDirectoryListing V owner path db =
     (if path \<noteq> directoryListingPath then db
      else case pg_GetDocument (sdPeer V) owner path db of
        (Inr (Some doc), db1) \<Rightarrow>
          (case Option.bind (object_fields (json_text.truncate (sdJson V)) (docContent doc)) (dec_listing (jsFloat (sdJson V))) of
             None \<Rightarrow> db1
           | Some l \<Rightarrow>
               if lsListed l = Some False then snd (pg_RemoveDirectoryEntry (peer_String (sdPeer V) owner) db1)
               else if lsDisplayName l = [] then db1
               else if checkListingFields (sdJson V) l \<noteq> None then db1
               else snd (pg_UpsertDirectoryEntry (listing_entry (peer_String (sdPeer V) owner) l) db1))
      | (_, db1) \<Rightarrow> db1)"

definition maybeRemoveDirectoryListing :: "sda_env \<Rightarrow> peer_id \<Rightarrow> string \<Rightarrow> stores \<Rightarrow> stores" where
  "maybeRemoveDirectoryListing V owner path db =
     (if path \<noteq> directoryListingPath then db else snd (pg_RemoveDirectoryEntry (peer_String (sdPeer V) owner) db))"

subsection \<open>Writes\<close>

definition if_match :: "DocRequest \<Rightarrow> string option" where
  "if_match req = header ''If-Match'' (drHeaders req)"

definition handlePut :: "sda_env \<Rightarrow> peer_id \<Rightarrow> peer_id \<Rightarrow> DocRequest \<Rightarrow> sda_handler" where
  "handlePut V caller owner req db =
     (case DecodeString (drBody req) of
        None \<Rightarrow> (refuse 400 ''invalid base64 body'', db)
      | Some content \<Rightarrow>
          (let contentType = (case header ''Content-Type'' (drHeaders req) of None \<Rightarrow> ''application/octet-stream'' | Some ct \<Rightarrow> ct) in
           case CheckString ''Content-Type'' contentType 256 of
             Some e \<Rightarrow> (refuse 400 (error_text e), db)
           | None \<Rightarrow>
               (case parseVisibility (drVisibility req) of
                  Inl e \<Rightarrow> (refuse 400 (error_text e), db)
                | Inr vis \<Rightarrow>
                    if (case drHistory req of None \<Rightarrow> False | Some h \<Rightarrow> h < 0) then (refuse 400 ''history must not be negative'', db)
                    else case pg_PutDocument (sdPeer V) owner (drPath req) content contentType caller (if_match req)
                                ((writeOptions V)\<lparr>woVisibility := vis, woHistory := drHistory req\<rparr>) db of
                      (Inl e, db1) \<Rightarrow> (Inr (writeErrorResponse e), db1)
                    | (Inr res, db1) \<Rightarrow>
                        (respond (if prCreated res then 201 else 200)
                           [(''ETag'', HStr (prContentHash res)), (''Last-Modified'', HInt (prUpdatedAt res))],
                         maybeUpdateDirectoryListing V owner (drPath req) db1))))"

definition handleRestore :: "sda_env \<Rightarrow> peer_id \<Rightarrow> peer_id \<Rightarrow> DocRequest \<Rightarrow> sda_handler" where
  "handleRestore V caller owner req db =
     (case drVersionNumber req of
        None \<Rightarrow> (refuse 400 ''versionNumber is required'', db)
      | Some n \<Rightarrow>
          (case pg_RestoreDocumentVersion (sdPeer V) owner (drPath req) n caller (if_match req) (writeOptions V) db of
             (Inl e, db1) \<Rightarrow> (Inr (writeErrorResponse e), db1)
           | (Inr res, db1) \<Rightarrow>
               (respond 200 [(''ETag'', HStr (prContentHash res)), (''Last-Modified'', HInt (prUpdatedAt res)),
                  (''Version'', HInt (prVersionNumber res))],
                maybeUpdateDirectoryListing V owner (drPath req) db1)))"

definition handlePatch :: "sda_env \<Rightarrow> peer_id \<Rightarrow> peer_id \<Rightarrow> DocRequest \<Rightarrow> sda_handler" where
  "handlePatch V caller owner req db =
     (case DecodeString (drBody req) of
        None \<Rightarrow> (refuse 400 ''invalid base64 body'', db)
      | Some body \<Rightarrow>
          (case go_map (sdJson V) body of
             Inl e \<Rightarrow> (refuse 400 ''invalid JSON patch body'', db)
           | Inr patch \<Rightarrow>
               (case pg_PatchDocument (sdPeer V) (sdJson V) owner (drPath req) patch caller (if_match req) (writeOptions V) db of
                  (Inl e, db1) \<Rightarrow> (Inr (writeErrorResponse e), db1)
                | (Inr res, db1) \<Rightarrow>
                    (respond 200 [(''ETag'', HStr (prContentHash res)), (''Last-Modified'', HInt (prUpdatedAt res))],
                     maybeUpdateDirectoryListing V owner (drPath req) db1))))"

definition handleDelete :: "sda_env \<Rightarrow> peer_id \<Rightarrow> peer_id \<Rightarrow> DocRequest \<Rightarrow> sda_handler" where
  "handleDelete V caller owner req db =
     (case pg_DeleteDocument (sdPeer V) owner (drPath req) db of
        (Inl e, db1) \<Rightarrow> (respond 500 [], db1)
      | (Inr deleted, db1) \<Rightarrow>
          if deleted then (respond 204 [], maybeRemoveDirectoryListing V owner (drPath req) db1) else (respond 404 [], db1))"

subsection \<open>Batches\<close>

record BatchDocumentResult =
  brPath :: string
  brStatus :: int
  brETag :: string
  brCreated :: bool
  brError :: string
  brActualETag :: string

record pending_write =
  pwPath :: string
  pwContent :: bytes
  pwContentType :: string
  pwIfMatch :: "string option"
  pwVisibility :: "Visibility option"

definition batch_rejected :: "string \<Rightarrow> string \<Rightarrow> BatchDocumentResult" where
  "batch_rejected path e = \<lparr>brPath = path, brStatus = 400, brETag = [], brCreated = False, brError = e, brActualETag = []\<rparr>"

text \<open>
  The first pass: each document is rejected on its own (\<open>Inl\<close>) or decoded (\<open>Inr\<close>), and the whole batch
  is refused once its decoded content is too large (\<open>None\<close>).
\<close>

fun batch_decode :: "int \<Rightarrow> BatchDocument list \<Rightarrow> (BatchDocumentResult + pending_write) list option" where
  "batch_decode totalBytes [] = Some []"
| "batch_decode totalBytes (bd # bds) =
     (case validatePath (bdPath bd) of
        Some e \<Rightarrow> map_option ((#) (Inl (batch_rejected (bdPath bd) e))) (batch_decode totalBytes bds)
      | None \<Rightarrow>
          (case DecodeString (bdBody bd) of
             None \<Rightarrow> map_option ((#) (Inl (batch_rejected (bdPath bd) ''invalid base64 body''))) (batch_decode totalBytes bds)
           | Some content \<Rightarrow>
               (let tb = totalBytes + int (length content) in
                if maxBatchContentBytes < tb then None
                else let contentType = (if bdContentType bd = [] then ''application/octet-stream'' else bdContentType bd) in
                  case CheckString ''contentType'' contentType 256 of
                    Some e \<Rightarrow> map_option ((#) (Inl (batch_rejected (bdPath bd) (error_text e)))) (batch_decode tb bds)
                  | None \<Rightarrow>
                      (case parseVisibility (bdVisibility bd) of
                         Inl e \<Rightarrow> map_option ((#) (Inl (batch_rejected (bdPath bd) (error_text e)))) (batch_decode tb bds)
                       | Inr vis \<Rightarrow>
                           map_option ((#) (Inr \<lparr>pwPath = bdPath bd, pwContent = content, pwContentType = contentType,
                               pwIfMatch = (if bdIfMatch bd = [] then None else Some (bdIfMatch bd)), pwVisibility = vis\<rparr>))
                             (batch_decode tb bds)))))"

definition header_text :: "string \<Rightarrow> (string \<times> header_value) list \<Rightarrow> string" where
  "header_text name hs = (case map_of hs name of Some (HStr s) \<Rightarrow> s | _ \<Rightarrow> [])"

definition batch_write :: "sda_env \<Rightarrow> peer_id \<Rightarrow> peer_id \<Rightarrow> pending_write \<Rightarrow> stores \<Rightarrow> BatchDocumentResult \<times> stores" where
  "batch_write V caller owner p db =
     (let r0 = \<lparr>brPath = pwPath p, brStatus = 0, brETag = [], brCreated = False, brError = [], brActualETag = []\<rparr> in
      case pg_PutDocument (sdPeer V) owner (pwPath p) (pwContent p) (pwContentType p) caller (pwIfMatch p)
             ((writeOptions V)\<lparr>woVisibility := pwVisibility p\<rparr>) db of
        (Inl e, db1) \<Rightarrow>
          (let er = writeErrorResponse e
           in (r0\<lparr>brStatus := rsStatus er, brError := header_text ''Error'' (rsHeaders er),
                  brActualETag := header_text ''Actual-ETag'' (rsHeaders er)\<rparr>, db1))
      | (Inr res, db1) \<Rightarrow>
          (r0\<lparr>brStatus := (if prCreated res then 201 else 200), brCreated := prCreated res, brETag := prContentHash res\<rparr>,
           maybeUpdateDirectoryListing V owner (pwPath p) db1))"

fun batch_apply :: "sda_env \<Rightarrow> peer_id \<Rightarrow> peer_id \<Rightarrow> (BatchDocumentResult + pending_write) list \<Rightarrow> stores
    \<Rightarrow> BatchDocumentResult list \<times> stores" where
  "batch_apply V caller owner [] db = ([], db)"
| "batch_apply V caller owner (Inl r # ps) db = (let (rs, db1) = batch_apply V caller owner ps db in (r # rs, db1))"
| "batch_apply V caller owner (Inr p # ps) db =
     (let (r, db1) = batch_write V caller owner p db; (rs, db2) = batch_apply V caller owner ps db1 in (r # rs, db2))"

definition batch_result_json :: "BatchDocumentResult \<Rightarrow> json" where
  "batch_result_json r = JObj
     ([(''path'', JStr (brPath r)), (''status'', JNum (brStatus r))]
      @ omitempty (brETag r = []) ''etag'' (JStr (brETag r)) @ omitempty (\<not> brCreated r) ''created'' (JBool (brCreated r))
      @ omitempty (brError r = []) ''error'' (JStr (brError r))
      @ omitempty (brActualETag r = []) ''actualEtag'' (JStr (brActualETag r)))"

definition applied_count :: "BatchDocumentResult list \<Rightarrow> int" where
  "applied_count rs = int (length (filter (\<lambda>r. brStatus r = 200 \<or> brStatus r = 201) rs))"

definition handleBatchPut :: "sda_env \<Rightarrow> peer_id \<Rightarrow> peer_id \<Rightarrow> DocRequest \<Rightarrow> sda_handler" where
  "handleBatchPut V caller owner req db =
     (let bds = drBatchDocuments req in
      if bds = [] then (refuse 400 ''batchDocuments is required'', db)
      else if maxBatchDocuments < int (length bds)
      then (refuse 400 (''batchDocuments holds '' @ show_int (int (length bds)) @ '' documents, maximum is '' @ show_int maxBatchDocuments), db)
      else case batch_decode 0 bds of
        None \<Rightarrow> (refuse 413 (''batch content exceeds '' @ show_int maxBatchContentBytes @ '' bytes''), db)
      | Some ps \<Rightarrow>
          (let (results, db1) = batch_apply V caller owner ps db
           in (respond_body 200
                 [(''Content-Type'', HStr ''application/json''), (''Applied'', HInt (applied_count results)),
                  (''Total'', HInt (int (length bds)))]
                 (json_enc (sdJson V) (JObj [(''results'', JArr (map batch_result_json results))])), db1)))"

subsection \<open>Lists and history\<close>

definition doc_entry :: "sda_env \<Rightarrow> DocumentSummary \<Rightarrow> json" where
  "doc_entry V d = JObj
     [(''path'', JStr (sumPath d)), (''contentType'', JStr (sumContentType d)), (''contentHash'', JStr (sumContentHash d)),
      (''size'', JNum (sumSize d)), (''updatedAt'', JStr (sdTime V (sumUpdatedAt d))),
      (''versionNumber'', JNum (sumVersionNumber d)), (''visibility'', JStr (Visibility_String (sumVisibility d)))]"

definition handleList :: "sda_env \<Rightarrow> peer_id \<Rightarrow> peer_id \<Rightarrow> DocRequest \<Rightarrow> sda_handler" where
  "handleList V caller owner req db =
     (let limit = (case drListLimit req of None \<Rightarrow> 0 | Some l \<Rightarrow> l) in
      case pg_ListDocuments (sdPeer V) (sdColl V) owner caller (drListCursor req) limit db of
        (Inl e, db1) \<Rightarrow> (respond 500 [], db1)
      | (Inr found, db1) \<Rightarrow>
          (let (docs, hasMore) = (if HiddenOwner (geBans (sdGates V)) caller owner then ([], False) else found)
           in (respond_body 200
                 ([(''Content-Type'', HStr ''application/json''), (''Has-More'', HBool hasMore)]
                  @ (if hasMore \<and> docs \<noteq> [] then [(''Next-Cursor'', HStr (sumPath (last docs)))] else []))
                 (json_enc (sdJson V) (JArr (map (doc_entry V) docs))), db1)))"

definition version_entry :: "DocumentVersionRecord \<Rightarrow> json" where
  "version_entry v = JObj
     [(''versionNumber'', JNum (verVersionNumber v)), (''contentHash'', JStr (verContentHash v)),
      (''contentType'', JStr (verContentType v)), (''createdAt'', JNum (verCreatedAt v)), (''size'', JNum (verContentLength v))]"

definition read_history :: "sda_env \<Rightarrow> peer_id \<Rightarrow> DocRequest \<Rightarrow> sda_handler" where
  "read_history V owner req db =
     (case drVersionNumber req of
        Some n \<Rightarrow>
          (case pg_GetDocumentAtVersion (sdPeer V) owner (drPath req) n db of
             (Inl e, db1) \<Rightarrow> (respond (if errors_is e ErrDocumentNotFound then 404 else 500) [], db1)
           | (Inr v, db1) \<Rightarrow>
               (respond_body 200
                  [(''ETag'', HStr (verContentHash v)), (''Content-Type'', HStr (verContentType v)),
                   (''Version'', HInt (verVersionNumber v)), (''Created-At'', HInt (verCreatedAt v))] (verContent v), db1))
      | None \<Rightarrow>
          (case pg_GetDocumentHistory (sdPeer V) owner (drPath req) (drMaxVersions req) db of
             (Inl e, db1) \<Rightarrow> (respond (if errors_is e ErrDocumentNotFound then 404 else 500) [], db1)
           | (Inr vs, db1) \<Rightarrow>
               (respond_body 200 [(''Content-Type'', HStr ''application/json'')]
                  (json_enc (sdJson V) (JArr (map version_entry vs))), db1)))"

definition handleHistory :: "sda_env \<Rightarrow> peer_id \<Rightarrow> peer_id \<Rightarrow> DocRequest \<Rightarrow> sda_handler" where
  "handleHistory V caller owner req db =
     (if caller = owner then read_history V owner req db
      else case pg_HeadDocument (sdPeer V) owner (drPath req) db of
        (Inl e, db1) \<Rightarrow> (respond 500 [], db1)
      | (Inr None, db1) \<Rightarrow> (respond 404 [], db1)
      | (Inr (Some doc), db1) \<Rightarrow>
          (case RequireReader (sdPeer V) (geBans (sdGates V)) caller StoreDocument (rowID doc) (rowOwner doc) (rowVisibility doc) db1 of
             (Some e, db2) \<Rightarrow> (Inl e, db2)
           | (None, db2) \<Rightarrow> read_history V owner req db2))"

subsection \<open>Access\<close>

definition access_json :: "StoreAccessBody \<Rightarrow> json" where
  "access_json b = JObj
     [(''visibility'', JStr (sabVisibility b)),
      (''readers'', JArr (map (\<lambda>(p, t). JObj [(''peerId'', JStr p), (''grantedAt'', JNum t)]) (sabReaders b)))]"

definition handleAccess :: "sda_env \<Rightarrow> peer_id \<Rightarrow> DocRequest \<Rightarrow> sda_handler" where
  "handleAccess V caller req db =
     (case pg_HeadDocument (sdPeer V) caller (drPath req) db of
        (Inl e, db1) \<Rightarrow> (respond 500 [], db1)
      | (Inr None, db1) \<Rightarrow> (respond 404 [], db1)
      | (Inr (Some doc), db1) \<Rightarrow>
          (let (res, db2) = StoreAccess (sdPeer V) (sdColl V)
                 \<lparr>acKind = StoreDocument, acOwnerID = caller, acPath = drPath req, acID = rowID doc,
                  acCurrent = rowVisibility doc, acAction = drAccessAction req, acVisibility = drVisibility req,
                  acReaderID = drReaderPeerID req\<rparr> db1
           in (case resBody res of
                 None \<Rightarrow> refuse (resStatus res) (resError res)
               | Some b \<Rightarrow>
                   if resError res \<noteq> [] then refuse (resStatus res) (resError res)
                   else respond_body (resStatus res)
                     [(''Content-Type'', HStr ''application/json''), (''Visibility'', HStr (sabVisibility b))]
                     (json_enc (sdJson V) (access_json b)), db2)))"

subsection \<open>The directory\<close>

definition handleDirectoryJoin :: "sda_env \<Rightarrow> peer_id \<Rightarrow> DocRequest \<Rightarrow> sda_handler" where
  "handleDirectoryJoin V owner req db =
     (let empty = \<lparr>lsListed = None, lsDisplayName = [], lsBio = [], lsAvatarHash = [], lsExtras = None\<rparr>;
          listing = (if drBody req = [] then Inr empty
            else case DecodeString (drBody req) of
              None \<Rightarrow> Inl ''invalid base64 body''
            | Some body \<Rightarrow>
                (case Option.bind (object_fields (json_text.truncate (sdJson V)) body)
                        (\<lambda>kvs. dec_listing (jsFloat (sdJson V)) (filter (\<lambda>kv. fold_name (fst kv) \<noteq> fold_name ''listed'') kvs)) of
                   None \<Rightarrow> Inl ''invalid JSON body''
                 | Some l \<Rightarrow> Inr l))
      in case listing of
           Inl msg \<Rightarrow> (refuse 400 msg, db)
         | Inr l \<Rightarrow>
             if lsDisplayName l = [] then (refuse 400 ''displayName is required'', db)
             else case checkListingFields (sdJson V) l of
               Some e \<Rightarrow> (refuse 400 (error_text e), db)
             | None \<Rightarrow>
                 (case pg_UpsertDirectoryEntry (listing_entry (peer_String (sdPeer V) owner) l) db of
                    (Inl e, db1) \<Rightarrow> (respond 500 [], db1)
                  | (Inr _, db1) \<Rightarrow> (respond 200 [], db1)))"

definition handleDirectoryLeave :: "sda_env \<Rightarrow> peer_id \<Rightarrow> sda_handler" where
  "handleDirectoryLeave V owner db =
     (case pg_RemoveDirectoryEntry (peer_String (sdPeer V) owner) db of
        (Inl e, db1) \<Rightarrow> (respond 500 [], db1)
      | (Inr _, db1) \<Rightarrow> (respond 204 [], db1))"

definition dir_entry_json :: "dir_lib \<Rightarrow> DirectoryEntry \<Rightarrow> json" where
  "dir_entry_json D e = JObj
     ([(''id'', JNum (dirID e)), (''ownerPeerId'', JStr (dirOwnerPeerID e)), (''displayName'', JStr (DisplayName e)),
       (''bio'', JStr (Bio e)), (''avatarHash'', JStr (AvatarHash e)), (''listedAt'', JStr (dlFormat D (ListedAt e))),
       (''updatedAt'', JStr (dlFormat D (dirUpdatedAt e)))]
      @ (case Extras e of Some (JObj m) \<Rightarrow> omitempty (m = []) ''extras'' (JObj m) | _ \<Rightarrow> []))"

definition dir_page_json :: "dir_lib \<Rightarrow> DirectoryPage \<Rightarrow> json" where
  "dir_page_json D pg = JObj
     ([(''entries'', if pgEntries pg = [] then JNull else JArr (map (dir_entry_json D) (pgEntries pg)))]
      @ omitempty (pgNextCursor pg = []) ''nextCursor'' (JStr (pgNextCursor pg))
      @ [(''hasMore'', JBool (pgHasMore pg))])"

definition handleDirectoryBrowse :: "sda_env \<Rightarrow> DocRequest \<Rightarrow> sda_handler" where
  "handleDirectoryBrowse V req db =
     (let limit = (case drDirectoryLimit req of None \<Rightarrow> 20 | Some l \<Rightarrow> if 0 < l then l else 20) in
      case pg_BrowseDirectory (sdDir V) (sdColl V) (drDirectoryQuery req) (drDirectoryCursor req) limit db of
        (Inl e, db1) \<Rightarrow>
          (if errors_is e ErrInvalidCursor \<or> errors_is e ErrDirectoryQueryTooLong
           then refuse 400 (ClientMessage (Some e)) else respond 500 [], db1)
      | (Inr pg, db1) \<Rightarrow>
          (respond_body 200 [(''Content-Type'', HStr ''application/json'')] (json_enc (sdJson V) (dir_page_json (sdDir V) pg)), db1))"

definition handleDirectoryGet :: "sda_env \<Rightarrow> peer_id \<Rightarrow> sda_handler" where
  "handleDirectoryGet V owner db =
     (case pg_GetDirectoryEntry (peer_String (sdPeer V) owner) db of
        (Inl e, db1) \<Rightarrow> (respond 500 [], db1)
      | (Inr None, db1) \<Rightarrow> (respond 404 [], db1)
      | (Inr (Some entry), db1) \<Rightarrow>
          (respond_body 200 [(''Content-Type'', HStr ''application/json'')] (json_enc (sdJson V) (dir_entry_json (sdDir V) entry)), db1))"

definition handleDirectory :: "sda_env \<Rightarrow> peer_id \<Rightarrow> DocRequest \<Rightarrow> sda_handler" where
  "handleDirectory V owner req db =
     (if drDirectoryAction req = ''join'' then handleDirectoryJoin V owner req db
      else if drDirectoryAction req = ''leave'' then handleDirectoryLeave V owner db
      else if drDirectoryAction req = ''browse'' then handleDirectoryBrowse V req db
      else if drDirectoryAction req = ''get'' then handleDirectoryGet V owner db
      else (refuse 400 (''unknown directoryAction: '' @ drDirectoryAction req), db))"


section \<open>The pipeline\<close>

definition isWriteClassifier :: "json_text \<Rightarrow> bytes \<Rightarrow> bool" where
  "isWriteClassifier T raw =
     (case do {
        kvs \<leftarrow> object_fields T raw;
        opn \<leftarrow> json_field dec_string [] ''operation'' kvs;
        da \<leftarrow> json_field dec_string [] ''directoryAction'' kvs;
        aa \<leftarrow> json_field dec_string [] ''accessAction'' kvs;
        Some (opn, da, aa) } of
        None \<Rightarrow> False
      | Some (opn, da, aa) \<Rightarrow>
          if opn \<in> {''PUT'', ''PATCH'', ''DELETE'', ''BATCH_PUT'', ''RESTORE''} then True
          else if opn = ''DIRECTORY'' then da = ''join'' \<or> da = ''leave''
          else opn = ''ACCESS'' \<and> aa \<noteq> ''get'')"

definition document_gates :: "json_text \<Rightarrow> gate_env \<Rightarrow> peer_id \<Rightarrow> bytes \<Rightarrow> err option" where
  "document_gates T G caller raw =
     first_refusal [BanGate (geBans G) None caller raw, geRate G, DrainGate (geDrain G), geAdmit G,
                    WriteGate (geSampler G) (Some (isWriteClassifier T)) raw]"

text \<open>\<^verbatim>\<open>commonValidation\<close>: the owner the request is about, or what it answers instead of going on.\<close>

definition needs_owner :: "string \<Rightarrow> string \<Rightarrow> bool" where
  "needs_owner opn da \<longleftrightarrow>
     (if opn = ''DIRECTORY'' then da = ''join'' \<or> da = ''leave''
      else opn \<in> {''PUT'', ''PATCH'', ''DELETE'', ''BATCH_PUT'', ''ACCESS'', ''RESTORE''})"

definition commonValidation :: "sda_env \<Rightarrow> peer_id \<Rightarrow> bytes \<Rightarrow> (err + DocResponse) + peer_id" where
  "commonValidation V caller raw =
     (case do {
        kvs \<leftarrow> object_fields (json_text.truncate (sdJson V)) raw;
        opn \<leftarrow> json_field dec_string [] ''operation'' kvs;
        own \<leftarrow> json_field dec_string [] ''ownerPeerId'' kvs;
        p \<leftarrow> json_field dec_string [] ''path'' kvs;
        da \<leftarrow> json_field dec_string [] ''directoryAction'' kvs;
        Some (opn, own, p, da) } of
        None \<Rightarrow> Inl (respond 400 [])
      | Some (opn, own, p, da) \<Rightarrow>
          if own = [] then Inl (refuse 400 ''ownerPeerId is required'')
          else case peer_Decode (sdPeer V) own of
            None \<Rightarrow> Inl (refuse 400 ''invalid ownerPeerId'')
          | Some owner \<Rightarrow>
              (case (if opn \<in> {''LIST'', ''DIRECTORY'', ''BATCH_PUT''} then None else validatePath p) of
                 Some e \<Rightarrow> Inl (refuse 400 e)
               | None \<Rightarrow>
                   (case (if needs_owner opn da then RequireOwner caller owner ''write operations'' else None) of
                      Some e \<Rightarrow> Inl (Inl e)
                    | None \<Rightarrow> Inr owner)))"

definition sda_operations :: "string list" where
  "sda_operations = [''GET'', ''PUT'', ''PATCH'', ''HEAD'', ''DELETE'', ''LIST'', ''HISTORY'', ''DIRECTORY'', ''BATCH_PUT'', ''ACCESS'', ''RESTORE'']"

definition sda_handle :: "sda_env \<Rightarrow> peer_id \<Rightarrow> peer_id \<Rightarrow> string \<Rightarrow> DocRequest \<Rightarrow> sda_handler" where
  "sda_handle V caller owner opn req db =
     (if opn = ''GET'' then handleGet V caller owner req db
      else if opn = ''PUT'' then handlePut V caller owner req db
      else if opn = ''PATCH'' then handlePatch V caller owner req db
      else if opn = ''HEAD'' then handleHead V caller owner req db
      else if opn = ''DELETE'' then handleDelete V caller owner req db
      else if opn = ''LIST'' then handleList V caller owner req db
      else if opn = ''BATCH_PUT'' then handleBatchPut V caller owner req db
      else if opn = ''HISTORY'' then handleHistory V caller owner req db
      else if opn = ''DIRECTORY'' then handleDirectory V owner req db
      else if opn = ''ACCESS'' then handleAccess V caller req db
      else handleRestore V caller owner req db)"

definition sda_serve :: "sda_env \<Rightarrow> peer_id \<Rightarrow> bytes \<Rightarrow> stores \<Rightarrow> DocResponse \<times> stores" where
  "sda_serve V caller raw db =
     (let T = json_text.truncate (sdJson V) in
      case document_gates T (sdGates V) caller raw of
        Some e \<Rightarrow> (docResponseWriter (Inl e), db)
      | None \<Rightarrow>
          (case commonValidation V caller raw of
             Inl r \<Rightarrow> (docResponseWriter r, db)
           | Inr owner \<Rightarrow>
               (case fgOperation (sdForge V) ''operation'' raw of
                  Inl e \<Rightarrow> (docResponseWriter (Inl e), db)
                | Inr opn \<Rightarrow>
                    if opn \<notin> set sda_operations then (docResponseWriter (Inl (ErrUnknownOperation opn)), db)
                    else case Option.bind (object_fields T raw) dec_DocRequest of
                      None \<Rightarrow> (docResponseWriter (Inl (fgDecodeError (sdForge V) raw)), db)
                    | Some req \<Rightarrow> (let (r, db1) = sda_handle V caller owner opn req db in (docResponseWriter r, db1)))))"

end
