(* ===== verification/Sfa.thy ===== *)
theory Sfa
  imports Feeds Sda
begin

text \<open>
  The feed protocol (\<^verbatim>\<open>src/internal/protocol/sfa/handler.go\<close>). Its responses have the form of the
  document protocol's, its path check is a copy of that one, and the same definitions stand for both.
  A request is decoded before it is validated and routed; for a batch read no owner is set, and a
  handler that needs one panics without it, which the recovery middleware turns into no response.
\<close>

section \<open>Requests\<close>

record BatchQuery =
  bqOwnerPeerID :: string
  bqPath :: string
  bqFromSequence :: "int option"
  bqLimit :: "int option"

record FeedRequest =
  frOperation :: string
  frOwnerPeerID :: string
  frPath :: string
  frHeaders :: "(string \<times> string) list"
  frBody :: string
  frTitle :: string
  frDescription :: string
  frCollaborative :: bool
  frVisibility :: string
  frAccessAction :: string
  frReaderPeerID :: string
  frEntryType :: string
  frSequenceNumber :: "int option"
  frFromSequence :: "int option"
  frToSequence :: "int option"
  frLimit :: "int option"
  frBatchQueries :: "BatchQuery list"

fun dec_BatchQuery :: "BatchQuery \<Rightarrow> json \<Rightarrow> BatchQuery option" where
  "dec_BatchQuery old (JObj kvs) = do {
     own \<leftarrow> json_field dec_string (bqOwnerPeerID old) ''ownerPeerId'' kvs;
     p \<leftarrow> json_field dec_string (bqPath old) ''path'' kvs;
     fs \<leftarrow> json_ref (dec_ptr dec_int64) (bqFromSequence old) ''fromSequence'' kvs;
     l \<leftarrow> json_ref (dec_ptr dec_int64) (bqLimit old) ''limit'' kvs;
     Some \<lparr>bqOwnerPeerID = own, bqPath = p, bqFromSequence = fs, bqLimit = l\<rparr> }"
| "dec_BatchQuery old JNull = Some old"
| "dec_BatchQuery old _ = None"

definition no_query :: BatchQuery where
  "no_query = \<lparr>bqOwnerPeerID = [], bqPath = [], bqFromSequence = None, bqLimit = None\<rparr>"

definition dec_FeedRequest :: "(string \<times> json) list \<Rightarrow> FeedRequest option" where
  "dec_FeedRequest kvs = do {
     opn \<leftarrow> json_field dec_string [] ''operation'' kvs;
     own \<leftarrow> json_field dec_string [] ''ownerPeerId'' kvs;
     p \<leftarrow> json_field dec_string [] ''path'' kvs;
     hs \<leftarrow> merge_maps dec_string [] (all_values ''headers'' kvs) None;
     b \<leftarrow> json_field dec_string [] ''body'' kvs;
     ti \<leftarrow> json_field dec_string [] ''title'' kvs;
     de \<leftarrow> json_field dec_string [] ''description'' kvs;
     co \<leftarrow> json_field dec_bool False ''collaborative'' kvs;
     vis \<leftarrow> json_field dec_string [] ''visibility'' kvs;
     aa \<leftarrow> json_field dec_string [] ''accessAction'' kvs;
     rp \<leftarrow> json_field dec_string [] ''readerPeerId'' kvs;
     et \<leftarrow> json_field dec_string [] ''entryType'' kvs;
     sn \<leftarrow> json_ref (dec_ptr dec_int64) None ''sequenceNumber'' kvs;
     fs \<leftarrow> json_ref (dec_ptr dec_int64) None ''fromSequence'' kvs;
     ts \<leftarrow> json_ref (dec_ptr dec_int64) None ''toSequence'' kvs;
     l \<leftarrow> json_ref (dec_ptr dec_int64) None ''limit'' kvs;
     bqs \<leftarrow> struct_slice dec_BatchQuery no_query (all_values ''batchQueries'' kvs) [] [];
     Some \<lparr>frOperation = opn, frOwnerPeerID = own, frPath = p, frHeaders = (case hs of None \<Rightarrow> [] | Some m \<Rightarrow> m), frBody = b,
           frTitle = ti, frDescription = de, frCollaborative = co, frVisibility = vis, frAccessAction = aa, frReaderPeerID = rp,
           frEntryType = et, frSequenceNumber = sn, frFromSequence = fs, frToSequence = ts, frLimit = l, frBatchQueries = bqs\<rparr> }"


section \<open>Handlers\<close>

record sfa_env =
  sfPeer :: peer_lib
  sfJson :: json_text
  sfColl :: collation
  sfForge :: forge_lib
  sfGates :: gate_env
  sfMaxEntries :: "int option"

type_synonym sfa_handler = "stores \<Rightarrow> (err + DocResponse) \<times> stores"

definition json_body :: "sfa_env \<Rightarrow> int \<Rightarrow> (string \<times> header_value) list \<Rightarrow> json \<Rightarrow> err + DocResponse" where
  "json_body V status hs j = respond_body status ((''Content-Type'', HStr ''application/json'') # hs) (json_enc (sfJson V) j)"

definition createHandler :: "sfa_env \<Rightarrow> peer_id \<Rightarrow> FeedRequest \<Rightarrow> sfa_handler" where
  "createHandler V owner req db =
     (case (if frVisibility req = [] then Inr VisibilityPublic else VisibilityFromString (frVisibility req)) of
        Inl e \<Rightarrow> (refuse 400 (error_text e), db)
      | Inr vis \<Rightarrow>
          (case pg_CreateFeed (sfPeer V) owner (frPath req) (frTitle req) (frDescription req) (frCollaborative req) vis db of
             (Inl e, db1) \<Rightarrow> (respond 500 [], db1)
           | (Inr feed, db1) \<Rightarrow>
               (json_body V 201 [] (JObj (map_fields
                  [(''id'', JNum (rowID feed)), (''path'', JStr (rowPath feed)), (''title'', JStr (Title feed)),
                   (''description'', JStr (Description feed)), (''currentSequence'', JNum (CurrentSequence feed)),
                   (''collaborativeMode'', JBool (CollaborativeMode feed)),
                   (''visibility'', JStr (Visibility_String (rowVisibility feed)))])), db1)))"

definition handleGetMetadata :: "sfa_env \<Rightarrow> FeedRecord \<Rightarrow> err + DocResponse" where
  "handleGetMetadata V feed =
     json_body V 200 [(''X-Sequence'', HInt (CurrentSequence feed))] (JObj (map_fields
       [(''title'', JStr (Title feed)), (''description'', JStr (Description feed)), (''currentSequence'', JNum (CurrentSequence feed)),
        (''lastEntryAt'', JNum (LastEntryAt feed)), (''createdAt'', JNum (feedCreatedAt feed)),
        (''collaborativeMode'', JBool (CollaborativeMode feed)), (''visibility'', JStr (Visibility_String (rowVisibility feed)))]))"

definition handleGetEntry :: "sfa_env \<Rightarrow> FeedRecord \<Rightarrow> int \<Rightarrow> sfa_handler" where
  "handleGetEntry V feed sq db =
     (case pg_GetFeedEntry (rowID feed) sq db of
        (Inl e, db1) \<Rightarrow> (respond 500 [], db1)
      | (Inr None, db1) \<Rightarrow> (respond 404 [], db1)
      | (Inr (Some entry), db1) \<Rightarrow>
          (respond_body 200
             [(''ETag'', HStr (fentContentHash entry)), (''X-Sequence'', HInt (fentSequenceNumber entry)),
              (''X-Entry-Type'', HStr (fentEntryType entry)), (''X-Created-By'', HStr (fentCreatedByPeerID entry)),
              (''Content-Type'', HStr (EntryContentType feed)), (''Created-At'', HInt (fentCreatedAt entry))]
             (fentContent entry), db1))"

definition entryJSON :: "FeedEntryRecord \<Rightarrow> json" where
  "entryJSON e = JObj
     ([(''seq'', JNum (fentSequenceNumber e))] @ omitempty (fentEntryType e = []) ''type'' (JStr (fentEntryType e))
      @ [(''content'', JStr (EncodeToString (fentContent e))), (''hash'', JStr (fentContentHash e)), (''createdAt'', JNum (fentCreatedAt e))]
      @ omitempty (fentCreatedByPeerID e = []) ''createdBy'' (JStr (fentCreatedByPeerID e)))"

definition next_sequence :: "FeedEntryRecord list \<times> bool \<Rightarrow> int option" where
  "next_sequence page = (if snd page \<and> fst page \<noteq> [] then Some (fentSequenceNumber (last (fst page)) + 1) else None)"

definition handleGetEntries :: "sfa_env \<Rightarrow> FeedRecord \<Rightarrow> FeedRequest \<Rightarrow> sfa_handler" where
  "handleGetEntries V feed req db =
     (let limit = (case frLimit req of None \<Rightarrow> 50 | Some l \<Rightarrow> if 0 < l then l else 50) in
      case pg_GetFeedEntries (rowID feed) (frFromSequence req) (frToSequence req) (frEntryType req) limit db of
        (Inl e, db1) \<Rightarrow> (respond 500 [], db1)
      | (Inr (es, hasMore), db1) \<Rightarrow>
          (json_body V 200
             ((''X-Has-More'', HBool hasMore) # (case next_sequence (es, hasMore) of None \<Rightarrow> [] | Some n \<Rightarrow> [(''X-Next-Sequence'', HInt n)]))
             (JObj [(''entries'', JArr (map entryJSON es))]), db1))"

definition getHandler :: "sfa_env \<Rightarrow> peer_id \<Rightarrow> peer_id \<Rightarrow> FeedRequest \<Rightarrow> sfa_handler" where
  "getHandler V caller owner req db =
     (case pg_GetFeed (sfPeer V) owner (frPath req) db of
        (Inl e, db1) \<Rightarrow> (respond 500 [], db1)
      | (Inr None, db1) \<Rightarrow> (respond 404 [], db1)
      | (Inr (Some feed), db1) \<Rightarrow>
          (case RequireReader (sfPeer V) (geBans (sfGates V)) caller StoreFeed (rowID feed) (rowOwner feed) (rowVisibility feed) db1 of
             (Some e, db2) \<Rightarrow> (Inl e, db2)
           | (None, db2) \<Rightarrow>
               (case frSequenceNumber req of
                  Some n \<Rightarrow> handleGetEntry V feed n db2
                | None \<Rightarrow>
                    if frFromSequence req \<noteq> None \<or> frToSequence req \<noteq> None \<or> frLimit req \<noteq> None then handleGetEntries V feed req db2
                    else (handleGetMetadata V feed, db2))))"

text \<open>The ceiling of entries is counted by one statement and the entry appended by another.\<close>

definition append_refused :: "sfa_env \<Rightarrow> int \<Rightarrow> stores \<Rightarrow> (err + DocResponse) option \<times> stores" where
  "append_refused V feedID db =
     (case sfMaxEntries V of
        Some m \<Rightarrow>
          if 0 < m
          then (case pg_CountFeedEntries feedID db of
                  (Inl e, db1) \<Rightarrow> (Some (respond 500 []), db1)
                | (Inr count, db1) \<Rightarrow> (if m \<le> count then Some (Inl (QuotaExceededError ''entries per feed'' count m)) else None, db1))
          else (None, db)
      | None \<Rightarrow> (None, db))"

definition appendHandler :: "sfa_env \<Rightarrow> peer_id \<Rightarrow> peer_id \<Rightarrow> FeedRequest \<Rightarrow> sfa_handler" where
  "appendHandler V caller owner req db =
     (case pg_GetFeed (sfPeer V) owner (frPath req) db of
        (Inl e, db1) \<Rightarrow> (respond 500 [], db1)
      | (Inr None, db1) \<Rightarrow> (refuse 404 ''feed not found'', db1)
      | (Inr (Some feed), db1) \<Rightarrow>
          (case DecodeString (frBody req) of
             None \<Rightarrow> (refuse 400 ''invalid base64 body'', db1)
           | Some content \<Rightarrow>
               (case append_refused V (rowID feed) db1 of
                  (Some r, db2) \<Rightarrow> (r, db2)
                | (None, db2) \<Rightarrow>
                    (case pg_AppendFeedEntry (sfPeer V) (rowID feed) content caller (frEntryType req) db2 of
                       (Inl e, db3) \<Rightarrow> (respond 500 [], db3)
                     | (Inr entry, db3) \<Rightarrow>
                         (respond 201 [(''X-Sequence'', HInt (fentSequenceNumber entry)), (''ETag'', HStr (fentContentHash entry))], db3)))))"

definition deleteHandler :: "sfa_env \<Rightarrow> peer_id \<Rightarrow> FeedRequest \<Rightarrow> sfa_handler" where
  "deleteHandler V owner req db =
     (case pg_DeleteFeed (sfPeer V) owner (frPath req) db of
        (Inl e, db1) \<Rightarrow> (respond 500 [], db1)
      | (Inr deleted, db1) \<Rightarrow> (respond (if deleted then 204 else 404) [], db1))"

definition feedEntry :: "FeedRecord \<Rightarrow> json" where
  "feedEntry f = JObj
     [(''path'', JStr (rowPath f)), (''title'', JStr (Title f)), (''description'', JStr (Description f)),
      (''currentSequence'', JNum (CurrentSequence f)), (''lastEntryAt'', JNum (LastEntryAt f)), (''createdAt'', JNum (feedCreatedAt f)),
      (''visibility'', JStr (Visibility_String (rowVisibility f)))]"

definition listHandler :: "sfa_env \<Rightarrow> peer_id \<Rightarrow> peer_id \<Rightarrow> sfa_handler" where
  "listHandler V caller owner db =
     (case pg_ListFeeds (sfPeer V) (sfColl V) owner caller db of
        (Inl e, db1) \<Rightarrow> (respond 500 [], db1)
      | (Inr found, db1) \<Rightarrow>
          (json_body V 200 [] (JArr (map feedEntry (if HiddenOwner (geBans (sfGates V)) caller owner then [] else found))), db1))"

subsection \<open>Batch reads\<close>

text \<open>
  The checks before the entries are fetched: the queries that go on and the feeds that are refused, or
  the failure of the whole request (\<open>Inl\<close>).
\<close>

fun batch_queries :: "sfa_env \<Rightarrow> peer_id \<Rightarrow> BatchQuery list \<Rightarrow> stores
    \<Rightarrow> ((err + DocResponse) + MultiFeedQuery list \<times> (string \<times> MultiFeedResult) list) \<times> stores" where
  "batch_queries V caller [] db = (Inr ([], []), db)"
| "batch_queries V caller (bq # bqs) db =
     (let key = bqOwnerPeerID bq @ ''/'' @ bqPath bq;
          q = \<lparr>mqOwnerPeerID = bqOwnerPeerID bq, mqPath = bqPath bq, mqFromSequence = bqFromSequence bq,
               mqLimit = (case bqLimit bq of None \<Rightarrow> 50 | Some l \<Rightarrow> if 0 < l then l else 50)\<rparr>;
          go_on = (\<lambda>d. case batch_queries V caller bqs d of
                         (Inl r, d') \<Rightarrow> (Inl r, d') | (Inr (qs, rs), d') \<Rightarrow> (Inr (q # qs, rs), d'))
      in if bqOwnerPeerID bq = [] \<or> bqPath bq = [] \<or> validatePath (bqPath bq) \<noteq> None then batch_queries V caller bqs db
         else case peer_Decode (sfPeer V) (bqOwnerPeerID bq) of
           None \<Rightarrow> go_on db
         | Some owner \<Rightarrow>
             (case pg_GetFeed (sfPeer V) owner (bqPath bq) db of
                (Inl e, db1) \<Rightarrow> (Inl (respond 500 []), db1)
              | (Inr None, db1) \<Rightarrow> go_on db1
              | (Inr (Some feed), db1) \<Rightarrow>
                  (case RequireReader (sfPeer V) (geBans (sfGates V)) caller StoreFeed (rowID feed) (rowOwner feed) (rowVisibility feed) db1 of
                     (Some e, db2) \<Rightarrow>
                       (case batch_queries V caller bqs db2 of
                          (Inl r, d') \<Rightarrow> (Inl r, d')
                        | (Inr (qs, rs), d') \<Rightarrow> (Inr (qs, (key, multi_error (ClientMessage (Some e))) # rs), d'))
                   | (None, db2) \<Rightarrow> go_on db2)))"

definition feedResult :: "MultiFeedResult \<Rightarrow> json" where
  "feedResult mr = JObj
     ([(''entries'', JArr (map entryJSON (mrEntries mr))), (''hasMore'', JBool (mrHasMore mr))]
      @ omitempty (mrError mr = []) ''error'' (JStr (mrError mr)))"

definition batchGetHandler :: "sfa_env \<Rightarrow> nat list \<Rightarrow> peer_id \<Rightarrow> FeedRequest \<Rightarrow> sfa_handler" where
  "batchGetHandler V arrival caller req db =
     (if frBatchQueries req = [] then (refuse 400 ''batchQueries is required'', db)
      else if 50 < length (frBatchQueries req) then (refuse 400 ''batchQueries exceeds maximum of 50'', db)
      else case batch_queries V caller (frBatchQueries req) db of
        (Inl r, db1) \<Rightarrow> (r, db1)
      | (Inr (queries, refused), db1) \<Rightarrow>
          (let (results, db2) = pg_GetMultiFeedEntries (sfPeer V) arrival queries db1
           in (json_body V 200 []
                 (JObj [(''feeds'', JObj (map_fields (map (\<lambda>(k, mr). (k, feedResult mr)) (results @ refused))))]), db2)))"

definition accessHandler :: "sfa_env \<Rightarrow> peer_id \<Rightarrow> FeedRequest \<Rightarrow> sfa_handler" where
  "accessHandler V caller req db =
     (case pg_GetFeed (sfPeer V) caller (frPath req) db of
        (Inl e, db1) \<Rightarrow> (respond 500 [], db1)
      | (Inr None, db1) \<Rightarrow> (respond 404 [], db1)
      | (Inr (Some feed), db1) \<Rightarrow>
          (let (res, db2) = StoreAccess (sfPeer V) (sfColl V)
                 \<lparr>acKind = StoreFeed, acOwnerID = caller, acPath = frPath req, acID = rowID feed,
                  acCurrent = rowVisibility feed, acAction = frAccessAction req, acVisibility = frVisibility req,
                  acReaderID = frReaderPeerID req\<rparr> db1
           in (case resBody res of
                 None \<Rightarrow> refuse (resStatus res) (resError res)
               | Some b \<Rightarrow>
                   if resError res \<noteq> [] then refuse (resStatus res) (resError res)
                   else json_body V (resStatus res) [(''Visibility'', HStr (sabVisibility b))] (access_json b), db2)))"


section \<open>The pipeline\<close>

text \<open>The classifier looks for the names of the writing operations in the bytes of the request.\<close>

definition raw_text :: "bytes \<Rightarrow> string" where
  "raw_text raw = map (\<lambda>b. char_of (unat b)) raw"

definition feed_isWriteClassifier :: "bytes \<Rightarrow> bool" where
  "feed_isWriteClassifier raw \<longleftrightarrow>
     contains_sub (raw_text raw) ''\"CREATE\"'' \<or> contains_sub (raw_text raw) ''\"APPEND\"''
     \<or> contains_sub (raw_text raw) ''\"DELETE\"'' \<or> contains_sub (raw_text raw) ''\"ACCESS\"''"

definition feed_gates :: "gate_env \<Rightarrow> peer_id \<Rightarrow> bytes \<Rightarrow> err option" where
  "feed_gates G caller raw =
     first_refusal [BanGate (geBans G) None caller raw, geRate G, DrainGate (geDrain G), geAdmit G,
                    WriteGate (geSampler G) (Some feed_isWriteClassifier) raw]"

text \<open>
  \<^verbatim>\<open>commonValidation\<close>: what it answers (\<open>Inl\<close>) or the owner it sets, none for a batch read.
\<close>

definition feed_commonValidation :: "sfa_env \<Rightarrow> peer_id \<Rightarrow> FeedRequest \<Rightarrow> stores \<Rightarrow> ((err + DocResponse) + peer_id option) \<times> stores" where
  "feed_commonValidation V caller req db =
     (if frOperation req = ''BATCH_GET'' then (Inr None, db)
      else if frOwnerPeerID req = [] then (Inl (refuse 400 ''ownerPeerId is required''), db)
      else case peer_Decode (sfPeer V) (frOwnerPeerID req) of
        None \<Rightarrow> (Inl (refuse 400 ''invalid ownerPeerId''), db)
      | Some owner \<Rightarrow>
          (case (if frOperation req = ''LIST'' then None else validatePath (frPath req)) of
             Some msg \<Rightarrow> (Inl (refuse 400 msg), db)
           | None \<Rightarrow>
               (case first_refusal [CheckString ''title'' (frTitle req) 256, CheckString ''description'' (frDescription req) 4096,
                                    CheckString ''entryType'' (frEntryType req) 64] of
                  Some e \<Rightarrow> (Inl (refuse 400 (error_text e)), db)
                | None \<Rightarrow>
                    if frOperation req \<in> {''CREATE'', ''APPEND'', ''DELETE'', ''ACCESS''} \<and> caller \<noteq> owner
                    then
                      (if frOperation req \<noteq> ''APPEND'' then (Inl (Inl (the (RequireOwner caller owner ''write operations''))), db)
                       else case pg_GetFeed (sfPeer V) owner (frPath req) db of
                         (Inl e, db1) \<Rightarrow> (Inl (refuse 500 ''failed to check feed''), db1)
                       | (Inr None, db1) \<Rightarrow> (Inl (refuse 404 ''feed not found''), db1)
                       | (Inr (Some feed), db1) \<Rightarrow>
                           if \<not> CollaborativeMode feed then (Inl (Inl (the (RequireOwner caller owner ''write operations''))), db1)
                           else (Inr (Some owner), db1))
                    else (Inr (Some owner), db))))"

definition sfa_operations :: "string list" where
  "sfa_operations = [''CREATE'', ''GET'', ''APPEND'', ''DELETE'', ''LIST'', ''BATCH_GET'', ''ACCESS'']"

definition sfa_handle :: "sfa_env \<Rightarrow> nat list \<Rightarrow> peer_id \<Rightarrow> peer_id option \<Rightarrow> string \<Rightarrow> FeedRequest \<Rightarrow> stores
    \<Rightarrow> (err + DocResponse) go \<times> stores" where
  "sfa_handle V arrival caller owner opn req db =
     (if opn = ''BATCH_GET'' then apfst Return (batchGetHandler V arrival caller req db)
      else if opn = ''ACCESS'' then apfst Return (accessHandler V caller req db)
      else case owner of
        None \<Rightarrow>
          (if opn = ''CREATE'' \<and> frVisibility req \<noteq> []
           then (case VisibilityFromString (frVisibility req) of Inl e \<Rightarrow> Return (refuse 400 (error_text e)) | Inr _ \<Rightarrow> Panic)
           else Panic, db)
      | Some own \<Rightarrow>
          apfst Return
            (if opn = ''CREATE'' then createHandler V own req db
             else if opn = ''GET'' then getHandler V caller own req db
             else if opn = ''APPEND'' then appendHandler V caller own req db
             else if opn = ''DELETE'' then deleteHandler V own req db
             else listHandler V caller own db))"

definition sfa_serve :: "sfa_env \<Rightarrow> nat list \<Rightarrow> peer_id \<Rightarrow> bytes \<Rightarrow> stores \<Rightarrow> DocResponse go \<times> stores" where
  "sfa_serve V arrival caller raw db =
     (case feed_gates (sfGates V) caller raw of
        Some e \<Rightarrow> (Return (docResponseWriter (Inl e)), db)
      | None \<Rightarrow>
          (case Option.bind (object_fields (sfJson V) raw) dec_FeedRequest of
             None \<Rightarrow> (Return (docResponseWriter (Inl (fgDecodeError (sfForge V) raw))), db)
           | Some req \<Rightarrow>
               (case feed_commonValidation V caller req db of
                  (Inl r, db1) \<Rightarrow> (Return (docResponseWriter r), db1)
                | (Inr owner, db1) \<Rightarrow>
                    (case fgOperation (sfForge V) ''operation'' raw of
                       Inl e \<Rightarrow> (Return (docResponseWriter (Inl e)), db1)
                     | Inr opn \<Rightarrow>
                         if opn \<notin> set sfa_operations then (Return (docResponseWriter (Inl (ErrUnknownOperation opn))), db1)
                         else (case sfa_handle V arrival caller owner opn req db1 of
                                 (Return r, db2) \<Rightarrow> (Return (docResponseWriter r), db2)
                               | (Error e, db2) \<Rightarrow> (Error e, db2)
                               | (Panic, db2) \<Rightarrow> (Panic, db2))))))"

end
