(* ===== verification/Stores_Props.thy ===== *)
theory Stores_Props
  imports Stores
begin

text \<open>
  Who reads documents, feeds and collections: the reader list as a contract and its law for any
  sequence of grants and revocations, and the decision of \<^verbatim>\<open>RequireReader\<close> with that of the listings.
\<close>

section \<open>Tables\<close>

lemma stores_next_faults [simp]:
  "documents (next_faults d) = documents d" "document_versions (next_faults d) = document_versions d"
  "document_acls (next_faults d) = document_acls d" "feeds (next_faults d) = feeds d"
  "feed_entries (next_faults d) = feed_entries d" "feed_acls (next_faults d) = feed_acls d"
  "collections (next_faults d) = collections d" "collection_items (next_faults d) = collection_items d"
  "collection_acls (next_faults d) = collection_acls d" "directory_listings (next_faults d) = directory_listings d"
  "store_next (next_faults d) = store_next d"
  by (simp_all add: next_faults_def)

lemma tablesFor_feed:
  "tablesFor StoreFeed = Inr \<lparr>tblIDs = (\<lambda>db. map rowID (feeds db)),
     tblSetVisibility = (\<lambda>own p v db. (rows_at own p (feeds db), db\<lparr>feeds := set_visibility own p v (feeds db)\<rparr>)),
     tblAcls = feed_acls, tblSetAcls = (\<lambda>as db. db\<lparr>feed_acls := as\<rparr>)\<rparr>"
  by (simp add: tablesFor_def StoreDocument_def StoreFeed_def)

lemma tablesFor_collection:
  "tablesFor StoreCollection = Inr \<lparr>tblIDs = (\<lambda>db. map rowID (collections db)),
     tblSetVisibility = (\<lambda>own p v db. (rows_at own p (collections db), db\<lparr>collections := set_visibility own p v (collections db)\<rparr>)),
     tblAcls = collection_acls, tblSetAcls = (\<lambda>as db. db\<lparr>collection_acls := as\<rparr>)\<rparr>"
  by (simp add: tablesFor_def StoreDocument_def StoreFeed_def StoreCollection_def)

lemma tablesFor_document:
  "tablesFor StoreDocument = Inr \<lparr>tblIDs = (\<lambda>db. map rowID (documents db)),
     tblSetVisibility = (\<lambda>own p v db. (rows_at own p (documents db), db\<lparr>documents := set_visibility own p v (documents db)\<rparr>)),
     tblAcls = document_acls, tblSetAcls = (\<lambda>as db. db\<lparr>document_acls := as\<rparr>)\<rparr>"
  by (simp add: tablesFor_def)

lemma find_unique:
  assumes "x \<in> set xs" "P x" "\<And>y. y \<in> set xs \<Longrightarrow> P y \<Longrightarrow> y = x"
  shows "find P xs = Some x"
proof (cases "find P xs")
  case None
  then show ?thesis using assms(1,2) find_NoneD by metis
next
  case (Some y)
  then show ?thesis using assms(3) find_SomeD [of P xs y] by simp
qed

lemma tables_next_faults:
  "tablesFor kind = Inr t \<Longrightarrow> tblAcls t (next_faults db) = tblAcls t db \<and> tblIDs t (next_faults db) = tblIDs t db"
  by (auto simp: tablesFor_def split: if_splits)

lemma tables_acls:
  "tablesFor kind = Inr t \<Longrightarrow> tblAcls t (tblSetAcls t as db) = as \<and> tblIDs t (tblSetAcls t as db) = tblIDs t db
     \<and> faults (tblSetAcls t as db) = faults db \<and> clock (tblSetAcls t as db) = clock db"
  by (auto simp: tablesFor_def split: if_splits)


section \<open>Reader lists\<close>

locale reader_list =
  fixes grant revoke :: "'i \<Rightarrow> 'p \<Rightarrow> 's \<Rightarrow> 's" and reads :: "'i \<Rightarrow> 'p \<Rightarrow> 's \<Rightarrow> bool"
  assumes reads_grant: "reads i p (grant j q s) \<longleftrightarrow> (i, p) = (j, q) \<or> reads i p s"
    and reads_revoke: "reads i p (revoke j q s) \<longleftrightarrow> (i, p) \<noteq> (j, q) \<and> reads i p s"
begin

text \<open>A change is a grant or a revocation; only the last change of a peer's access counts.\<close>

definition change :: "bool \<times> 'i \<times> 'p \<Rightarrow> 's \<Rightarrow> 's" where
  "change = (\<lambda>(g, i, p). if g then grant i p else revoke i p)"

lemma last_change_counts:
  "reads i p (fold change cs s) \<longleftrightarrow>
     (case find (\<lambda>c. snd c = (i, p)) (rev cs) of None \<Rightarrow> reads i p s | Some c \<Rightarrow> fst c)"
proof (induction cs arbitrary: s rule: rev_induct)
  case (snoc c cs)
  obtain g j q where "c = (g, j, q)" by (metis prod_cases3)
  then show ?case using snoc by (auto simp: change_def reads_grant reads_revoke)
qed simp

end

interpretation acl: reader_list "acl_grant now" acl_revoke acl_reads
  by unfold_locales (auto simp: acl_reads_def acl_grant_def acl_revoke_def list_ex_iff)

text \<open>The same list through the statements of a store whose row exists, on a working database.\<close>

fun access_change :: "peer_lib \<Rightarrow> StoreKind \<Rightarrow> bool \<times> int \<times> peer_id \<Rightarrow> stores \<Rightarrow> stores" where
  "access_change L kind (True, i, p) db = snd (pg_GrantStoreReader L kind i p db)"
| "access_change L kind (False, i, p) db = snd (pg_RevokeStoreReader L kind i p db)"

lemma access_change_acls:
  assumes "tablesFor kind = Inr t" "faults db = []" "fst (snd c) \<in> set (tblIDs t db)"
  shows "tblAcls t (access_change L kind c db) =
      acl.change (clock db) (fst c, fst (snd c), peer_String L (snd (snd c))) (tblAcls t db)
    \<and> faults (access_change L kind c db) = [] \<and> tblIDs t (access_change L kind c db) = tblIDs t db
    \<and> clock (access_change L kind c db) = clock db"
  using assms tables_acls [OF assms(1)]
  by (cases c; cases "fst c") (auto simp: pg_GrantStoreReader_def pg_RevokeStoreReader_def acl.change_def)

lemma access_changes_acls:
  assumes "tablesFor kind = Inr t" "faults db = []" "fst ` snd ` set cs \<subseteq> set (tblIDs t db)"
  shows "tblAcls t (fold (access_change L kind) cs db) =
      fold (acl.change (clock db)) (map (\<lambda>c. (fst c, fst (snd c), peer_String L (snd (snd c)))) cs) (tblAcls t db)
    \<and> faults (fold (access_change L kind) cs db) = []"
  using assms(2,3)
proof (induction cs arbitrary: db)
  case (Cons c cs)
  have "fst (snd c) \<in> set (tblIDs t db)" using Cons.prems by auto
  from access_change_acls [OF assms(1) Cons.prems(1) this, of L] Cons show ?case by auto
qed simp


section \<open>Read authorisation\<close>

definition may_read :: "peer_lib \<Rightarrow> Bans option \<Rightarrow> reader_row list \<Rightarrow> peer_id \<Rightarrow> 'a store_row_scheme \<Rightarrow> bool" where
  "may_read L bans acls caller r \<longleftrightarrow>
     peer_String L caller = rowOwner r
     \<or> \<not> IsBannedString L bans (rowOwner r)
       \<and> (rowVisibility r = VisibilityPublic
          \<or> rowVisibility r = VisibilityShared \<and> acl_reads (rowID r) (peer_String L caller) acls)"

lemma visibilities_distinct [simp]: "VisibilityShared \<noteq> VisibilityPublic" "VisibilityPublic \<noteq> VisibilityShared"
  "VisibilityPrivate \<noteq> VisibilityPublic" "VisibilityPrivate \<noteq> VisibilityShared"
  by (simp_all add: visibility_defs)

lemma RequireReader_result:
  assumes "tablesFor kind = Inr t"
    and "RequireReader L bans caller kind (rowID r) (rowOwner r) (rowVisibility r) db = (res, db')"
  shows "res = None \<Longrightarrow> may_read L bans (tblAcls t db) caller r"
    and "faults db = [] \<Longrightarrow> res = (if may_read L bans (tblAcls t db) caller r then None else Some read_refused)"
    and "db' = db \<or> db' = next_faults db"
proof -
  let ?q = "\<lambda>d. (Inr (acl_reads (rowID r) (peer_String L caller) (tblAcls t d)), d)"
  have acls: "tblAcls t (next_faults db) = tblAcls t db" using tables_next_faults [OF assms(1)] by blast
  have q: "pg_IsStoreReader L kind (rowID r) caller db = stmt ?q db"
    using assms(1) by (simp add: pg_IsStoreReader_def)
  have snd: "snd (stmt ?q db) = next_faults db" by (rule stmt_read) simp
  have "res = None \<longrightarrow> may_read L bans (tblAcls t db) caller r"
    using assms(2) acls by (cases rule: stmt_cases [of ?q db])
      (auto simp: RequireReader_def may_read_def q split: if_splits)
  then show "res = None \<Longrightarrow> may_read L bans (tblAcls t db) caller r" by blast
  show "faults db = [] \<Longrightarrow> res = (if may_read L bans (tblAcls t db) caller r then None else Some read_refused)"
    using assms(2) by (auto simp: RequireReader_def may_read_def q split: if_splits)
  show "db' = db \<or> db' = next_faults db"
    using assms(2) snd by (auto simp: RequireReader_def q split: if_splits prod.splits sum.splits)
qed

text \<open>A listing shows a row exactly when a read of it is allowed.\<close>

lemma listing_agrees:
  assumes "peer_lib_ok L" "rowOwner r = peer_String L owner"
  shows "\<not> HiddenOwner bans caller owner \<and> readableBy acls (peer_String L caller) r \<longleftrightarrow> may_read L bans acls caller r"
  using assms peer_Decode_String [OF assms(1)] peer_String_inj [OF assms(1)]
  by (auto simp: HiddenOwner_def readableBy_def may_read_def IsBannedString_def IsBanned_def split: option.splits)

lemma find_map_inj:
  assumes "\<And>x. x \<in> set xs \<Longrightarrow> Q (f x) = P x"
  shows "find Q (map f xs) = map_option f (find P xs)"
  using assms by (induction xs) auto

text \<open>
  C36. Who may read a document, a feed or a collection, after any sequence of grants and revocations: its
  owner always; anyone else only while the owner is not banned, and then when it is public, or when it
  is shared and the last change of that peer's access was a grant (or the peer was a reader before and
  nothing changed). Everyone else is refused as Forbidden, in the words used for a private one, so the
  refusal does not tell a ban.
\<close>

theorem store_read_rights:
  assumes ok: "peer_lib_ok L" and t: "tablesFor kind = Inr t" and quiet: "faults db = []"
    and rows: "fst ` snd ` set cs \<subseteq> set (tblIDs t db)"
  shows "fst (RequireReader L bans caller kind (rowID r) (rowOwner r) (rowVisibility r) (fold (access_change L kind) cs db)) =
    (if peer_String L caller = rowOwner r
        \<or> \<not> IsBannedString L bans (rowOwner r)
          \<and> (rowVisibility r = VisibilityPublic
             \<or> rowVisibility r = VisibilityShared
               \<and> (case find (\<lambda>c. snd c = (rowID r, caller)) (rev cs) of
                    None \<Rightarrow> acl_reads (rowID r) (peer_String L caller) (tblAcls t db) | Some c \<Rightarrow> fst c))
     then None else Some read_refused)"
proof -
  let ?d = "fold (access_change L kind) cs db"
  let ?m = "\<lambda>c. (fst c, fst (snd c), peer_String L (snd (snd c)))"
  have acls: "tblAcls t ?d = fold (acl.change (clock db)) (map ?m cs) (tblAcls t db)" and q: "faults ?d = []"
    using access_changes_acls [OF t quiet rows] by auto
  have "find (\<lambda>c. snd c = (rowID r, peer_String L caller)) (map ?m (rev cs)) = map_option ?m (find (\<lambda>c. snd c = (rowID r, caller)) (rev cs))"
    by (rule find_map_inj) (auto simp: peer_String_inj [OF ok] prod_eq_iff)
  then have reads: "acl_reads (rowID r) (peer_String L caller) (tblAcls t ?d) \<longleftrightarrow>
      (case find (\<lambda>c. snd c = (rowID r, caller)) (rev cs) of
         None \<Rightarrow> acl_reads (rowID r) (peer_String L caller) (tblAcls t db) | Some c \<Rightarrow> fst c)"
    unfolding acls acl.last_change_counts by (simp add: rev_map split: option.splits)
  have "fst (RequireReader L bans caller kind (rowID r) (rowOwner r) (rowVisibility r) ?d) =
      (if may_read L bans (tblAcls t ?d) caller r then None else Some read_refused)"
    by (rule RequireReader_result(2) [OF t surjective_pairing q])
  then show ?thesis unfolding may_read_def reads .
qed

definition demo_feed :: FeedRecord where
  "demo_feed = \<lparr>rowID = 4, rowOwner = ''61'', rowPath = ''news'', rowVisibility = VisibilityShared, Title = [], Description = [],
     EntryContentType = [], feedCreatedAt = 0, LastEntryAt = 0, CurrentSequence = 0, MaxEntries = None, MaxAgeDays = None,
     CollaborativeMode = False\<rparr>"

definition empty_stores :: "millis \<Rightarrow> stores" where
  "empty_stores now = \<lparr>clock = now, faults = [], documents = [], document_versions = [], document_acls = [], feeds = [],
     feed_entries = [], feed_acls = [], collections = [], collection_items = [], collection_acls = [],
     directory_listings = [], store_next = 1\<rparr>"

theorem store_read_rights_witness:
  "fst (RequireReader hex_peers None (PeerID ''b'') StoreFeed 4 ''61'' VisibilityShared
     (fold (access_change hex_peers StoreFeed) [(True, 4, PeerID ''b''), (False, 4, PeerID ''c'')]
        ((empty_stores 0)\<lparr>feeds := [demo_feed]\<rparr>))) = None
   \<and> fst (RequireReader hex_peers None (PeerID ''c'') StoreFeed 4 ''61'' VisibilityShared
     (fold (access_change hex_peers StoreFeed) [(True, 4, PeerID ''b''), (False, 4, PeerID ''c'')]
        ((empty_stores 0)\<lparr>feeds := [demo_feed]\<rparr>))) = Some read_refused"
proof -
  let ?db = "(empty_stores 0)\<lparr>feeds := [demo_feed]\<rparr>" and ?cs = "[(True, 4, PeerID ''b''), (False, 4, PeerID ''c'')]"
  have c: "fst ` snd ` set ?cs \<subseteq> set (tblIDs \<lparr>tblIDs = (\<lambda>db. map rowID (feeds db)),
     tblSetVisibility = (\<lambda>own p v db. (rows_at own p (feeds db), db\<lparr>feeds := set_visibility own p v (feeds db)\<rparr>)),
     tblAcls = feed_acls, tblSetAcls = (\<lambda>as db. db\<lparr>feed_acls := as\<rparr>)\<rparr> ?db)" "faults ?db = []"
    by (simp_all add: demo_feed_def empty_stores_def)
  have s: "peer_String hex_peers (PeerID ''b'') \<noteq> ''61''" "peer_String hex_peers (PeerID ''c'') \<noteq> ''61''" by code_simp+
  show ?thesis
    using store_read_rights [OF hex_peers_ok tablesFor_feed c(2,1), of None _ demo_feed] s
    by (simp add: demo_feed_def IsBannedString_def empty_stores_def)
qed

end
