(* ===== verification/Documents_Props.thy ===== *)
theory Documents_Props
  imports Documents Stores_Props
begin

text \<open>
  Properties of documents: what the tables keep through any run of operations, whatever statements
  fail, the optimistic locking of conditional writes, the history a document keeps and its way back,
  and the merge of patches.
\<close>

section \<open>Tables and the invariant\<close>

definition documents_ok :: "stores \<Rightarrow> bool" where
  "documents_ok db \<longleftrightarrow>
     distinct (map rowID (documents db)) \<and> distinct (map (\<lambda>r. (rowOwner r, rowPath r)) (documents db))
     \<and> (\<forall>r \<in> set (documents db). rowID r < store_next db \<and> docContentHash r = computeContentHash (docContent r)
          \<and> 1 \<le> docVersionNumber r \<and> (case MaxHistoryVersions r of None \<Rightarrow> True | Some m \<Rightarrow> 0 < m))"

definition versions_ok :: "stores \<Rightarrow> bool" where
  "versions_ok db \<longleftrightarrow>
     distinct (map verID (document_versions db))
     \<and> distinct (map (\<lambda>v. (verDocumentID v, verVersionNumber v)) (document_versions db))
     \<and> (\<forall>v \<in> set (document_versions db). verID v < store_next db \<and> verContentHash v = computeContentHash (verContent v)
          \<and> (\<exists>r \<in> set (documents db). rowID r = verDocumentID v \<and> verVersionNumber v < docVersionNumber r))"

definition readers_ok :: "stores \<Rightarrow> bool" where
  "readers_ok db \<longleftrightarrow>
     distinct (map (\<lambda>a. (rdRow a, rdPeer a)) (document_acls db))
     \<and> (\<forall>a \<in> set (document_acls db). rdRow a \<in> rowID ` set (documents db))"

definition docs_inv :: "stores \<Rightarrow> bool" where
  "docs_inv db \<longleftrightarrow> documents_ok db \<and> versions_ok db \<and> readers_ok db"

lemmas docs_inv_defs = docs_inv_def documents_ok_def versions_ok_def readers_ok_def

lemma docs_inv_next_faults [simp]: "docs_inv (next_faults db) = docs_inv db"
  by (simp add: docs_inv_defs)

lemma table_reads_next_faults [simp]:
  "find_document own p (next_faults db) = find_document own p db"
  "versions_of i (next_faults db) = versions_of i db" "newest_versions i (next_faults db) = newest_versions i db"
  by (simp_all add: find_document_def versions_of_def newest_versions_def)

lemma find_documentD: "find_document own p db = Some r \<Longrightarrow> r \<in> set (documents db) \<and> rowOwner r = own \<and> rowPath r = p"
  using find_SomeD [of "at_path own p" "documents db" r] by (simp add: find_document_def at_path_def)

lemma row_unique:
  assumes "documents_ok db" "r \<in> set (documents db)" "r' \<in> set (documents db)"
  shows "rowID r = rowID r' \<Longrightarrow> r = r'" and "at_path (rowOwner r') (rowPath r') r \<Longrightarrow> r = r'"
  using assms distinct_key_unique [of rowID "documents db" r r']
    distinct_key_unique [of "\<lambda>r. (rowOwner r, rowPath r)" "documents db" r r']
  by (auto simp: documents_ok_def at_path_def)

lemma find_row: "documents_ok db \<Longrightarrow> r \<in> set (documents db) \<Longrightarrow> find (\<lambda>x. rowID x = rowID r) (documents db) = Some r"
  by (rule find_unique) (auto dest: row_unique(1))

lemma find_at_path: "documents_ok db \<Longrightarrow> r \<in> set (documents db) \<Longrightarrow> find_document (rowOwner r) (rowPath r) db = Some r"
  unfolding find_document_def by (rule find_unique) (auto simp: at_path_def dest: row_unique(2))


section \<open>The history of a document\<close>

lemma sort_key_least_last:
  fixes f :: "'a \<Rightarrow> 'b :: linorder"
  assumes "\<forall>y \<in> set xs. f x < f y"
  shows "sort_key f (xs @ [x]) = x # sort_key f xs"
  using assms by (induction xs) (auto simp: sort_key_def not_le)

lemma filter_not_dropped:
  assumes "distinct (map f xs)"
  shows "filter (\<lambda>x. f x \<notin> f ` set (drop n xs)) xs = take n xs"
proof -
  have "distinct (map f (take n xs @ drop n xs))" using assms by simp
  then have "f ` set (take n xs) \<inter> f ` set (drop n xs) = {}"
    unfolding map_append distinct_append by simp
  then have "filter (\<lambda>x. f x \<notin> f ` set (drop n xs)) (take n xs @ drop n xs) = take n xs"
    unfolding filter_append by (auto simp: filter_empty_conv intro!: filter_True)
  then show ?thesis by simp
qed

text \<open>Version numbers of a document are distinct, so the version just replaced comes first.\<close>

lemma versions_below:
  assumes "docs_inv db" "r \<in> set (documents db)" "v \<in> set (versions_of (rowID r) db)"
  shows "verVersionNumber v < docVersionNumber r"
  using assms row_unique(1) [of db r] by (fastforce simp: docs_inv_def versions_ok_def versions_of_def)

lemma archive_eq:
  assumes "docs_inv db" "r \<in> set (documents db)"
  shows "archiveDocumentVersion (rowID r) db =
    db\<lparr>document_versions := document_versions db @ [archived_version (store_next db) r], store_next := store_next db + 1\<rparr>"
proof -
  have "\<not> list_ex (\<lambda>v. verVersionNumber v = docVersionNumber r) (versions_of (rowID r) db)"
    using versions_below [OF assms] by (fastforce simp: list_ex_iff)
  then show ?thesis using assms find_row by (simp add: archiveDocumentVersion_def docs_inv_def)
qed

lemma archive_newest:
  assumes "docs_inv db" "r \<in> set (documents db)"
  shows "newest_versions (rowID r) (archiveDocumentVersion (rowID r) db) =
    archived_version (store_next db) r # newest_versions (rowID r) db"
proof -
  have "sort_key (\<lambda>v. - verVersionNumber v) (versions_of (rowID r) db @ [archived_version (store_next db) r]) =
      archived_version (store_next db) r # sort_key (\<lambda>v. - verVersionNumber v) (versions_of (rowID r) db)"
    by (rule sort_key_least_last) (auto simp: archived_version_def dest: versions_below [OF assms])
  then show ?thesis
    by (simp add: archive_eq [OF assms] newest_versions_def versions_of_def archived_version_def)
qed

lemma prune_newest:
  assumes "distinct (map verID (document_versions db))" "pruneDocumentVersions i m db = Inr db'"
  shows "newest_versions i db' = take (nat m) (newest_versions i db)"
    and "j \<noteq> i \<Longrightarrow> versions_of j db' = versions_of j db"
proof -
  let ?D = "verID ` set (drop (nat m) (newest_versions i db))"
  have db': "db' = db\<lparr>document_versions := filter (\<lambda>v. verID v \<notin> ?D) (document_versions db)\<rparr>"
    using assms(2) by (auto simp: pruneDocumentVersions_def Let_def split: if_splits)
  have "distinct (map verID (newest_versions i db))"
    using assms(1) by (auto simp: newest_versions_def versions_of_def distinct_map intro: inj_on_subset)
  then have "filter (\<lambda>v. verID v \<notin> ?D) (newest_versions i db) = take (nat m) (newest_versions i db)"
    by (rule filter_not_dropped)
  moreover have "newest_versions i db' = filter (\<lambda>v. verID v \<notin> ?D) (newest_versions i db)"
    by (simp add: db' newest_versions_def versions_of_def filter_sort conj_commute)
  ultimately show "newest_versions i db' = take (nat m) (newest_versions i db)" by simp
  assume j: "j \<noteq> i"
  have "verID v \<notin> ?D" if v: "v \<in> set (document_versions db)" "verDocumentID v = j" for v
  proof
    assume "verID v \<in> ?D"
    then obtain u where "u \<in> set (newest_versions i db)" "verID u = verID v" by (auto dest: in_set_dropD)
    then have "u \<in> set (document_versions db)" "verDocumentID u = i" "verID u = verID v"
      by (auto simp: newest_versions_def versions_of_def)
    moreover from this have "u = v" using assms(1) v(1) by (auto intro: distinct_key_unique)
    ultimately show False using v(2) j by simp
  qed
  then show "versions_of j db' = versions_of j db"
    by (auto simp: db' versions_of_def intro: filter_cong)
qed

text \<open>Writes with a positive setting never prune with a negative offset.\<close>

lemma HistoryCeiling_positive [simp]: "0 < HistoryCeiling opts"
  by (simp add: HistoryCeiling_def DefaultMaxDocumentHistory_def)

lemma history_keep_bounds:
  assumes "case existing of None \<Rightarrow> True | Some r \<Rightarrow> (case MaxHistoryVersions r of None \<Rightarrow> True | Some m \<Rightarrow> 0 < m)"
  shows "0 < history_keep opts existing" "history_keep opts existing \<le> HistoryCeiling opts"
  using assms HistoryCeiling_positive [of opts]
  by (auto simp: history_keep_def history_setting_def split: option.splits if_splits)

lemma stored_history_positive:
  "docs_inv db \<Longrightarrow> r \<in> set (documents db) \<Longrightarrow> case MaxHistoryVersions r of None \<Rightarrow> True | Some m \<Rightarrow> 0 < m"
  by (simp add: docs_inv_def documents_ok_def)

text \<open>What a write leaves of the history, the replaced version first.\<close>

definition kept_versions :: "DocumentWriteOptions \<Rightarrow> int \<Rightarrow> document_row \<Rightarrow> version_row list \<Rightarrow> version_row list" where
  "kept_versions opts i r old =
     (if fst (history_setting opts (Some r)) then take (nat (history_keep opts (Some r))) (archived_version i r # old)
      else if woHistory opts \<noteq> None then [] else old)"

definition same_but_versions :: "stores \<Rightarrow> stores \<Rightarrow> bool" where
  "same_but_versions db db' \<longleftrightarrow> db' = db\<lparr>document_versions := document_versions db', store_next := store_next db'\<rparr>"

lemma same_but_versionsD:
  assumes "same_but_versions db db'"
  shows "documents db' = documents db" "document_acls db' = document_acls db" "feeds db' = feeds db"
    "collections db' = collections db" "directory_listings db' = directory_listings db" "feed_acls db' = feed_acls db"
    "collection_acls db' = collection_acls db" "feed_entries db' = feed_entries db"
    "collection_items db' = collection_items db" "clock db' = clock db" "faults db' = faults db"
  by (subst assms [unfolded same_but_versions_def], simp)+

lemma same_but_versions_trans:
  assumes "same_but_versions a b" "same_but_versions b c"
  shows "same_but_versions a c"
proof -
  have "(a\<lparr>document_versions := x, store_next := y\<rparr>)\<lparr>document_versions := p, store_next := q\<rparr> =
      a\<lparr>document_versions := p, store_next := q\<rparr>" for x y p q by simp
  then show ?thesis using assms unfolding same_but_versions_def by metis
qed

definition version_sound :: "int \<Rightarrow> stores \<Rightarrow> version_row \<Rightarrow> bool" where
  "version_sound i db v \<longleftrightarrow> verContentHash v = computeContentHash (verContent v)
     \<and> (\<exists>r \<in> set (documents db). rowID r = verDocumentID v
          \<and> (verVersionNumber v < docVersionNumber r \<or> rowID r = i \<and> verVersionNumber v = docVersionNumber r))"

definition versions_sound :: "int \<Rightarrow> stores \<Rightarrow> stores \<Rightarrow> bool" where
  "versions_sound i db db1 \<longleftrightarrow>
     distinct (map verID (document_versions db1))
     \<and> distinct (map (\<lambda>v. (verDocumentID v, verVersionNumber v)) (document_versions db1))
     \<and> (\<forall>v \<in> set (document_versions db1). verID v < store_next db1 \<and> version_sound i db v)"

lemma versions_sound_inv: "docs_inv db \<Longrightarrow> versions_sound i db db"
  by (fastforce simp: docs_inv_def versions_ok_def versions_sound_def version_sound_def)

lemma versions_sound_filter:
  "versions_sound i db d \<Longrightarrow> versions_sound i db (d\<lparr>document_versions := filter P (document_versions d)\<rparr>)"
  by (simp add: versions_sound_def distinct_map_filterI)

lemma prune_result:
  assumes "0 \<le> m" "versions_sound k db d"
  obtains d1 where "pruneDocumentVersions i m d = Inr d1" "same_but_versions d d1" "store_next d1 = store_next d"
    "newest_versions i d1 = take (nat m) (newest_versions i d)"
    "\<forall>j. j \<noteq> i \<longrightarrow> versions_of j d1 = versions_of j d" "versions_sound k db d1"
proof -
  obtain P where p: "pruneDocumentVersions i m d = Inr (d\<lparr>document_versions := filter P (document_versions d)\<rparr>)"
    using assms(1) by (auto simp: pruneDocumentVersions_def Let_def)
  have "distinct (map verID (document_versions d))" using assms(2) by (simp add: versions_sound_def)
  note q = prune_newest [OF this p]
  show thesis
    by (rule that [OF p]) (use q assms(2) in \<open>auto simp: same_but_versions_def versions_sound_filter\<close>)
qed

lemma archive_sound:
  assumes inv: "docs_inv db" and r: "r \<in> set (documents db)"
  shows "versions_sound (rowID r) db (archiveDocumentVersion (rowID r) db)"
proof -
  have "(rowID r, docVersionNumber r) \<notin> (\<lambda>v. (verDocumentID v, verVersionNumber v)) ` set (document_versions db)"
    using versions_below [OF inv r] by (fastforce simp: versions_of_def)
  moreover have "docContentHash r = computeContentHash (docContent r)"
    using inv r by (simp add: docs_inv_def documents_ok_def)
  moreover have "store_next db \<notin> verID ` set (document_versions db)"
    using inv by (fastforce simp: docs_inv_def versions_ok_def)
  ultimately show ?thesis using versions_sound_inv [OF inv, of "rowID r"] r
    by (fastforce simp: archive_eq [OF inv r] versions_sound_def version_sound_def archived_version_def)
qed

lemma keep_history_result:
  assumes inv: "docs_inv db" and r: "r \<in> set (documents db)"
  obtains db1 where "keep_history opts (Some r) db = Inr db1" "same_but_versions db db1" "store_next db \<le> store_next db1"
    "newest_versions (rowID r) db1 = kept_versions opts (store_next db) r (newest_versions (rowID r) db)"
    "\<forall>j. j \<noteq> rowID r \<longrightarrow> versions_of j db1 = versions_of j db" "versions_sound (rowID r) db db1"
proof -
  let ?a = "archiveDocumentVersion (rowID r) db" and ?k = "history_keep opts (Some r)"
  have keep: "0 \<le> ?k"
    using history_keep_bounds(1) [of "Some r" opts] stored_history_positive [OF inv r] by simp
  have a: "same_but_versions db ?a" "store_next ?a = store_next db + 1" "\<forall>j. j \<noteq> rowID r \<longrightarrow> versions_of j ?a = versions_of j db"
    by (auto simp: archive_eq [OF inv r] same_but_versions_def versions_of_def archived_version_def)
  consider (on) "fst (history_setting opts (Some r))"
    | (off) "\<not> fst (history_setting opts (Some r))" "woHistory opts \<noteq> None"
    | (kept) "\<not> fst (history_setting opts (Some r))" "woHistory opts = None" by blast
  then show thesis
  proof cases
    case on
    obtain d1 where d1: "pruneDocumentVersions (rowID r) ?k ?a = Inr d1" "same_but_versions ?a d1" "store_next d1 = store_next ?a"
      "newest_versions (rowID r) d1 = take (nat ?k) (newest_versions (rowID r) ?a)"
      "\<forall>j. j \<noteq> rowID r \<longrightarrow> versions_of j d1 = versions_of j ?a" "versions_sound (rowID r) db d1"
      using prune_result [OF keep archive_sound [OF inv r]] by blast
    have "same_but_versions db d1" using a(1) d1(2) by (rule same_but_versions_trans)
    then show thesis
      using that [of d1] on d1 a archive_newest [OF inv r] by (simp add: keep_history_def kept_versions_def)
  next
    case off
    obtain d1 where d1: "pruneDocumentVersions (rowID r) 0 db = Inr d1" "same_but_versions db d1" "store_next d1 = store_next db"
      "newest_versions (rowID r) d1 = take (nat 0) (newest_versions (rowID r) db)"
      "\<forall>j. j \<noteq> rowID r \<longrightarrow> versions_of j d1 = versions_of j db" "versions_sound (rowID r) db d1"
      using prune_result [OF order_refl versions_sound_inv [OF inv, of "rowID r"], of "rowID r"] by blast
    then show thesis using that [of d1] off by (simp add: keep_history_def kept_versions_def)
  next
    case kept
    then show thesis using that [of db] versions_sound_inv [OF inv]
      by (simp add: keep_history_def kept_versions_def same_but_versions_def)
  qed
qed


section \<open>Writes\<close>

lemma history_setting_positive:
  assumes "case existing of None \<Rightarrow> True | Some r \<Rightarrow> (case MaxHistoryVersions r of None \<Rightarrow> True | Some m \<Rightarrow> 0 < m)"
  shows "case snd (history_setting opts existing) of None \<Rightarrow> True | Some m \<Rightarrow> 0 < m"
  using assms HistoryCeiling_positive [of opts] by (auto simp: history_setting_def split: option.splits)

definition replaced :: "document_write \<Rightarrow> DocumentWriteOptions \<Rightarrow> stores \<Rightarrow> document_row \<Rightarrow> document_row" where
  "replaced w opts db r = updated_row w opts (history_setting opts (Some r)) (docVersionNumber r + 1) (clock db) r"

lemma replaced_simps [simp]:
  "rowID (replaced w opts db r) = rowID r" "rowOwner (replaced w opts db r) = rowOwner r"
  "rowPath (replaced w opts db r) = rowPath r" "docContent (replaced w opts db r) = dwContent w"
  "docContentType (replaced w opts db r) = dwContentType w"
  "docContentHash (replaced w opts db r) = computeContentHash (dwContent w)"
  "docVersionNumber (replaced w opts db r) = docVersionNumber r + 1"
  "rowVisibility (replaced w opts db r) = (case woVisibility opts of None \<Rightarrow> rowVisibility r | Some v \<Rightarrow> v)"
  "HistoryEnabled (replaced w opts db r) = fst (history_setting opts (Some r))"
  "MaxHistoryVersions (replaced w opts db r) = snd (history_setting opts (Some r))"
  by (auto simp: replaced_def updated_row_def history_setting_def split: option.splits)

lemma put_existing:
  assumes inv: "docs_inv db" and f: "find_document (dwOwner w) (dwPath w) db = Some r"
  obtains db1 db' where "keep_history opts (Some r) db = Inr db1"
    "put_store w opts (Some r) db =
       (Inr \<lparr>prContentHash = computeContentHash (dwContent w), prCreated = False, prUpdatedAt = clock db,
             prVersionNumber = docVersionNumber r + 1\<rparr>, db')"
    "db' = db1\<lparr>documents := map (\<lambda>x. if rowID x = rowID r then replaced w opts db r else x) (documents db)\<rparr>"
    "same_but_versions db db1" "versions_sound (rowID r) db db1" "store_next db \<le> store_next db1"
    "newest_versions (rowID r) db' = kept_versions opts (store_next db) r (newest_versions (rowID r) db)"
    "\<forall>j. j \<noteq> rowID r \<longrightarrow> versions_of j db' = versions_of j db"
proof -
  from find_documentD [OF f] have r: "r \<in> set (documents db)" "rowOwner r = dwOwner w" "rowPath r = dwPath w" by auto
  obtain db1 where k: "keep_history opts (Some r) db = Inr db1" "same_but_versions db db1" "store_next db \<le> store_next db1"
    "newest_versions (rowID r) db1 = kept_versions opts (store_next db) r (newest_versions (rowID r) db)"
    "\<forall>j. j \<noteq> rowID r \<longrightarrow> versions_of j db1 = versions_of j db" "versions_sound (rowID r) db db1"
    using keep_history_result [OF inv r(1)] by blast
  have ok: "documents_ok db" using inv by (simp add: docs_inv_def)
  have same: "at_path (dwOwner w) (dwPath w) x \<longleftrightarrow> rowID x = rowID r" if "x \<in> set (documents db)" for x
    using row_unique [OF ok that r(1)] r(2,3) by (auto simp: at_path_def)
  have rows: "map (\<lambda>x. if at_path (dwOwner w) (dwPath w) x
                then updated_row w opts (history_setting opts (Some r)) (docVersionNumber r + 1) (clock db) x else x) (documents db)
       = map (\<lambda>x. if rowID x = rowID r then replaced w opts db r else x) (documents db)"
    using same row_unique(1) [OF ok _ r(1)] by (auto simp: replaced_def)
  have ex: "list_ex (at_path (dwOwner w) (dwPath w)) (documents db)" using r by (auto simp: list_ex_iff at_path_def)
  let ?db' = "db1\<lparr>documents := map (\<lambda>x. if rowID x = rowID r then replaced w opts db r else x) (documents db)\<rparr>"
  have put: "put_store w opts (Some r) db =
       (Inr \<lparr>prContentHash = computeContentHash (dwContent w), prCreated = False, prUpdatedAt = clock db,
             prVersionNumber = docVersionNumber r + 1\<rparr>, ?db')"
    by (simp add: put_store_def upsert_document_def k(1) ex rows same_but_versionsD [OF k(2)] Let_def cong: if_cong del: map_eq_conv)
  have "newest_versions (rowID r) ?db' = newest_versions (rowID r) db1" "versions_of j ?db' = versions_of j db1" for j
    by (simp_all add: versions_of_def newest_versions_def)
  then show thesis using that [OF k(1) put refl k(2,6,3)] k(4,5) by simp
qed

lemma docs_inv_replace:
  assumes inv: "docs_inv db" and r: "r \<in> set (documents db)"
    and k: "same_but_versions db db1" "versions_sound (rowID r) db db1" "store_next db \<le> store_next db1"
  shows "docs_inv (db1\<lparr>documents := map (\<lambda>x. if rowID x = rowID r then replaced w opts db r else x) (documents db)\<rparr>)"
proof -
  let ?f = "\<lambda>x. if rowID x = rowID r then replaced w opts db r else x"
  note s = same_but_versionsD [OF k(1)]
  have ok: "documents_ok db" using inv by (simp add: docs_inv_def)
  have id: "rowID (?f x) = rowID x" for x by simp
  have path: "(rowOwner (?f x), rowPath (?f x)) = (rowOwner x, rowPath x)" if "x \<in> set (documents db)" for x
    using row_unique(1) [OF ok that r] by auto
  have keys: "map rowID (map ?f (documents db)) = map rowID (documents db)"
      "map (\<lambda>x. (rowOwner x, rowPath x)) (map ?f (documents db)) = map (\<lambda>x. (rowOwner x, rowPath x)) (documents db)"
    using id path by (auto simp: comp_def)
  have pos: "case snd (history_setting opts (Some r)) of None \<Rightarrow> True | Some m \<Rightarrow> 0 < m"
    using history_setting_positive [of "Some r"] stored_history_positive [OF inv r] by simp
  have ids: "rowID ` set (map ?f (documents db)) = rowID ` set (documents db)"
    using arg_cong [OF keys(1), of set] by (simp only: set_map)
  have "documents_ok (db1\<lparr>documents := map ?f (documents db)\<rparr>)"
  proof -
    have rows: "rowID y < store_next db1 \<and> docContentHash y = computeContentHash (docContent y) \<and> 1 \<le> docVersionNumber y
        \<and> (case MaxHistoryVersions y of None \<Rightarrow> True | Some m \<Rightarrow> 0 < m)" if "y \<in> set (map ?f (documents db))" for y
    proof -
      from that obtain x where "x \<in> set (documents db)" "y = ?f x" by auto
      then show ?thesis using ok r k(3) pos by (auto simp: documents_ok_def)
    qed
    then show ?thesis using ok keys by (simp add: documents_ok_def del: map_map set_map)
  qed
  moreover have "versions_ok (db1\<lparr>documents := map ?f (documents db)\<rparr>)"
  proof -
    have "\<exists>x \<in> set (map ?f (documents db)). rowID x = verDocumentID v \<and> verVersionNumber v < docVersionNumber x"
      if v: "v \<in> set (document_versions db1)" for v
    proof -
      from v k(2) obtain x where x: "x \<in> set (documents db)" "rowID x = verDocumentID v"
          "verVersionNumber v < docVersionNumber x \<or> rowID x = rowID r \<and> verVersionNumber v = docVersionNumber x"
        by (auto simp: versions_sound_def version_sound_def)
      have "rowID (?f x) = verDocumentID v \<and> verVersionNumber v < docVersionNumber (?f x)"
      proof (cases "rowID x = rowID r")
        case True
        with row_unique(1) [OF ok x(1) r] have "x = r" by blast
        with x show ?thesis by auto
      qed (use x in auto)
      then show ?thesis unfolding set_map by (rule bexI [OF _ imageI [OF x(1)]])
    qed
    then show ?thesis using k(2) by (auto simp: versions_ok_def versions_sound_def version_sound_def)
  qed
  moreover have "readers_ok (db1\<lparr>documents := map ?f (documents db)\<rparr>)"
    using inv ids s(2) by (simp add: docs_inv_def readers_ok_def)
  ultimately show ?thesis by (simp add: docs_inv_def)
qed

lemma find_document_None: "find_document own p db = None \<longleftrightarrow> (\<forall>r \<in> set (documents db). \<not> at_path own p r)"
  by (auto simp: find_document_def find_None_iff)

lemma put_new:
  fixes opts :: DocumentWriteOptions
  assumes inv: "docs_inv db" and f: "find_document (dwOwner w) (dwPath w) db = None"
  defines "row \<equiv> inserted_row w opts (history_setting opts None) 1 (clock db) (store_next db)"
  shows "put_store w opts None db =
      (Inr \<lparr>prContentHash = computeContentHash (dwContent w), prCreated = True, prUpdatedAt = clock db, prVersionNumber = 1\<rparr>,
       db\<lparr>documents := documents db @ [row], store_next := store_next db + 1\<rparr>)"
    and "docs_inv (db\<lparr>documents := documents db @ [row], store_next := store_next db + 1\<rparr>)"
proof -
  have none: "\<not> list_ex (at_path (dwOwner w) (dwPath w)) (documents db)"
    using f by (simp add: find_document_None list_ex_iff)
  then show "put_store w opts None db =
      (Inr \<lparr>prContentHash = computeContentHash (dwContent w), prCreated = True, prUpdatedAt = clock db, prVersionNumber = 1\<rparr>,
       db\<lparr>documents := documents db @ [row], store_next := store_next db + 1\<rparr>)"
    by (simp add: put_store_def upsert_document_def keep_history_def row_def Let_def)
  have pos: "case MaxHistoryVersions row of None \<Rightarrow> True | Some m \<Rightarrow> 0 < m"
    using history_setting_positive [of None opts] by (simp add: row_def inserted_row_def)
  have cols: "rowID row = store_next db" "rowOwner row = dwOwner w" "rowPath row = dwPath w" "docVersionNumber row = 1"
      "docContentHash row = computeContentHash (docContent row)"
    by (simp_all add: row_def inserted_row_def)
  have "(dwOwner w, dwPath w) \<notin> (\<lambda>r. (rowOwner r, rowPath r)) ` set (documents db)"
    using f by (auto simp: find_document_None at_path_def)
  moreover have "store_next db \<notin> rowID ` set (documents db)"
    using inv by (fastforce simp: docs_inv_def documents_ok_def)
  ultimately have "documents_ok (db\<lparr>documents := documents db @ [row], store_next := store_next db + 1\<rparr>)"
    using inv pos by (fastforce simp: docs_inv_def documents_ok_def cols)
  moreover have "versions_ok (db\<lparr>documents := documents db @ [row], store_next := store_next db + 1\<rparr>)"
    "readers_ok (db\<lparr>documents := documents db @ [row], store_next := store_next db + 1\<rparr>)"
    using inv by (fastforce simp: docs_inv_def versions_ok_def readers_ok_def)+
  ultimately show "docs_inv (db\<lparr>documents := documents db @ [row], store_next := store_next db + 1\<rparr>)"
    by (simp add: docs_inv_def)
qed

text \<open>How many versions documents keep under a ceiling.\<close>

definition history_bounded :: "int \<Rightarrow> stores \<Rightarrow> bool" where
  "history_bounded c db \<longleftrightarrow> (\<forall>i. int (length (versions_of i db)) \<le> c)"

definition docs_state :: "int \<Rightarrow> stores \<Rightarrow> bool" where
  "docs_state c db \<longleftrightarrow> docs_inv db \<and> history_bounded c db"

lemma docs_state_env [simp]:
  "docs_state c (next_faults db) = docs_state c db" "docs_state c (db\<lparr>clock := now, faults := fs\<rparr>) = docs_state c db"
  by (simp_all add: docs_state_def history_bounded_def versions_of_def docs_inv_defs)

lemma length_newest [simp]: "length (newest_versions i db) = length (versions_of i db)"
  by (simp add: newest_versions_def)

lemma length_kept:
  assumes "0 \<le> history_keep opts (Some r)" "history_keep opts (Some r) \<le> c" "int (length old) \<le> c"
  shows "int (length (kept_versions opts i r old)) \<le> c"
  using assms by (auto simp: kept_versions_def min_def)

lemma put_store_state:
  assumes st: "docs_state c db" and ex: "find_document (dwOwner w) (dwPath w) db = existing"
    and c: "HistoryCeiling opts \<le> c"
  shows "docs_state c (snd (put_store w opts existing db))"
proof (cases existing)
  case None
  with put_new [of db w opts] st ex show ?thesis
    by (simp add: docs_state_def history_bounded_def versions_of_def)
next
  case (Some r)
  from st have inv: "docs_inv db" by (simp add: docs_state_def)
  from ex Some find_documentD have r: "r \<in> set (documents db)" by metis
  obtain db1 db' where p: "put_store w opts (Some r) db =
       (Inr \<lparr>prContentHash = computeContentHash (dwContent w), prCreated = False, prUpdatedAt = clock db,
             prVersionNumber = docVersionNumber r + 1\<rparr>, db')"
    "db' = db1\<lparr>documents := map (\<lambda>x. if rowID x = rowID r then replaced w opts db r else x) (documents db)\<rparr>"
    "same_but_versions db db1" "versions_sound (rowID r) db db1" "store_next db \<le> store_next db1"
    "newest_versions (rowID r) db' = kept_versions opts (store_next db) r (newest_versions (rowID r) db)"
    "\<forall>j. j \<noteq> rowID r \<longrightarrow> versions_of j db' = versions_of j db"
    using put_existing [OF inv ex [unfolded Some], of opts] by blast
  have keep: "0 \<le> history_keep opts (Some r)" "history_keep opts (Some r) \<le> c"
    using history_keep_bounds [of "Some r" opts] stored_history_positive [OF inv r] c by simp_all
  have "int (length (versions_of (rowID r) db')) \<le> c"
    using length_kept [OF keep, of "newest_versions (rowID r) db"] st p(6)
    by (metis docs_state_def history_bounded_def length_newest)
  then have "history_bounded c db'"
    using p(7) st unfolding history_bounded_def docs_state_def by metis
  moreover have "docs_inv db'" unfolding p(2) by (rule docs_inv_replace [OF inv r p(3-5)])
  ultimately show ?thesis using Some p(1) by (simp add: docs_state_def)
qed

lemma putDocumentLocked_state:
  "docs_state c db \<Longrightarrow> HistoryCeiling opts \<le> c \<Longrightarrow> docs_state c (snd (putDocumentLocked w ifm opts db))"
  using put_store_state [OF _ refl, where c = c and db = db and w = w and opts = opts]
  by (auto simp: putDocumentLocked_def put_write_def split: option.splits)

lemma doc_stmt_state:
  assumes "docs_state c db" and "\<And>d. docs_state c d \<Longrightarrow> docs_state c (snd (f d))"
  shows "docs_state c (snd (stmt f db))"
  using assms by (intro stmt_keeps [of "docs_state c"]) auto

section \<open>Runs of operations\<close>

datatype doc_op =
    DPut peer_id string bytes string peer_id "string option" "Visibility option" "int option"
  | DPatch peer_id string "(string \<times> json) list" peer_id "string option"
  | DRestore peer_id string int peer_id "string option"
  | DDelete peer_id string
  | DVisibility peer_id string Visibility
  | DGrant int peer_id
  | DRevoke int peer_id
  | DEnvironment millis "fault list"

text \<open>The options of the protocol handlers: the ceiling is the server's.\<close>

definition with_ceiling :: "int \<Rightarrow> Visibility option \<Rightarrow> int option \<Rightarrow> DocumentWriteOptions" where
  "with_ceiling m v h = \<lparr>woVisibility = v, woHistory = h, woMaxHistory = m\<rparr>"

fun doc_exec :: "peer_lib \<Rightarrow> json_lib \<Rightarrow> int \<Rightarrow> doc_op \<Rightarrow> stores \<Rightarrow> stores" where
  "doc_exec L J m (DPut own p c ct who ifm v h) db = snd (pg_PutDocument L own p c ct who ifm (with_ceiling m v h) db)"
| "doc_exec L J m (DPatch own p patch who ifm) db = snd (pg_PatchDocument L J own p patch who ifm (with_ceiling m None None) db)"
| "doc_exec L J m (DRestore own p n who ifm) db = snd (pg_RestoreDocumentVersion L own p n who ifm (with_ceiling m None None) db)"
| "doc_exec L J m (DDelete own p) db = snd (pg_DeleteDocument L own p db)"
| "doc_exec L J m (DVisibility own p v) db = snd (pg_SetStoreVisibility L StoreDocument own p v db)"
| "doc_exec L J m (DGrant i p) db = snd (pg_GrantStoreReader L StoreDocument i p db)"
| "doc_exec L J m (DRevoke i p) db = snd (pg_RevokeStoreReader L StoreDocument i p db)"
| "doc_exec L J m (DEnvironment now fs) db = db\<lparr>clock := now, faults := fs\<rparr>"

definition doc_ceiling :: "int \<Rightarrow> int" where
  "doc_ceiling m = (if 0 < m then m else DefaultMaxDocumentHistory)"

lemma HistoryCeiling_eq [simp]:
  "HistoryCeiling \<lparr>woVisibility = v, woHistory = h, woMaxHistory = m\<rparr> = doc_ceiling m"
  "HistoryCeiling (with_ceiling m v h) = doc_ceiling m" "woMaxHistory (with_ceiling m v h) = m"
  by (auto simp: HistoryCeiling_def with_ceiling_def doc_ceiling_def)

lemma delete_state:
  assumes "docs_state c db"
  shows "docs_state c (snd (pg_DeleteDocument L own p db))"
  unfolding pg_DeleteDocument_def
proof (rule doc_stmt_state [OF assms])
  fix d assume st: "docs_state c d"
  let ?gone = "rowID ` {r \<in> set (documents d). at_path (peer_String L own) p r}"
  let ?d = "d\<lparr>documents := filter (\<lambda>r. \<not> at_path (peer_String L own) p r) (documents d),
     document_versions := filter (\<lambda>v. verDocumentID v \<notin> ?gone) (document_versions d),
     document_acls := filter (\<lambda>a. rdRow a \<notin> ?gone) (document_acls d)\<rparr>"
  have "length (filter P (filter Q vs)) \<le> length (filter P vs)" for P Q and vs :: "version_row list"
    by (induction vs) auto
  then have "int (length (versions_of i ?d)) \<le> int (length (versions_of i d))" for i
    by (simp add: versions_of_def del: filter_filter)
  then have "history_bounded c ?d" using st order_trans unfolding docs_state_def history_bounded_def by blast
  moreover have "documents_ok ?d" using st by (simp add: docs_state_def docs_inv_def documents_ok_def distinct_map_filterI)
  moreover have "\<exists>r \<in> set (documents ?d). rowID r = verDocumentID v \<and> verVersionNumber v < docVersionNumber r"
    if "v \<in> set (document_versions ?d)" for v
  proof -
    from that st obtain r where "r \<in> set (documents d)" "rowID r = verDocumentID v" "verVersionNumber v < docVersionNumber r"
      by (auto simp: docs_state_def docs_inv_def versions_ok_def)
    moreover from this have "\<not> at_path (peer_String L own) p r" using that by (simp add: image_iff) metis
    ultimately show ?thesis by auto
  qed
  then have "versions_ok ?d"
    using st unfolding versions_ok_def by (simp add: docs_state_def docs_inv_def versions_ok_def distinct_map_filterI)
  moreover have "readers_ok ?d" using st by (fastforce simp: docs_state_def docs_inv_def readers_ok_def distinct_map_filterI)
  ultimately have "docs_state c ?d" by (simp add: docs_state_def docs_inv_def)
  then show "docs_state c (snd (let gone = map rowID (filter (at_path (peer_String L own) p) (documents d)) in
      (Inr (gone \<noteq> []), d\<lparr>documents := filter (\<lambda>r. \<not> at_path (peer_String L own) p r) (documents d),
         document_versions := filter (\<lambda>v. verDocumentID v \<notin> set gone) (document_versions d),
         document_acls := filter (\<lambda>a. rdRow a \<notin> set gone) (document_acls d)\<rparr>)))"
    by (simp add: Let_def)
qed

lemma visibility_state:
  assumes "docs_state c d"
  shows "docs_state c (d\<lparr>documents := set_visibility own p v (documents d)\<rparr>)"
proof -
  define f :: "document_row \<Rightarrow> document_row" where "f r = (if at_path own p r then r\<lparr>rowVisibility := v\<rparr> else r)" for r
  have cols [simp]: "rowID (f r) = rowID r" "rowOwner (f r) = rowOwner r" "rowPath (f r) = rowPath r"
    "docVersionNumber (f r) = docVersionNumber r" "docContent (f r) = docContent r"
    "docContentHash (f r) = docContentHash r" "MaxHistoryVersions (f r) = MaxHistoryVersions r" for r
    by (auto simp: f_def)
  have inv: "docs_inv d" using assms by (simp add: docs_state_def)
  have "documents_ok (d\<lparr>documents := map f (documents d)\<rparr>)" "versions_ok (d\<lparr>documents := map f (documents d)\<rparr>)"
    "readers_ok (d\<lparr>documents := map f (documents d)\<rparr>)"
    using inv unfolding docs_inv_defs by (simp_all add: comp_def image_image)
  moreover have "set_visibility own p v (documents d) = map f (documents d)" by (simp add: set_visibility_def f_def)
  ultimately show ?thesis
    using assms by (simp add: docs_state_def docs_inv_def history_bounded_def versions_of_def)
qed

lemma readers_state:
  assumes "docs_state c d" "distinct (map (\<lambda>a. (rdRow a, rdPeer a)) as)" "\<forall>a \<in> set as. rdRow a \<in> rowID ` set (documents d)"
  shows "docs_state c (d\<lparr>document_acls := as\<rparr>)"
  using assms by (simp add: docs_state_def docs_inv_defs history_bounded_def versions_of_def)

lemma doc_exec_state:
  assumes st: "docs_state c db" and c: "doc_ceiling m \<le> c"
  shows "docs_state c (doc_exec L J m dop db)"
proof (cases dop)
  case (DPut own p ct cty who ifm v h)
  then show ?thesis
    using st c by (auto simp: pg_PutDocument_def intro!: doc_stmt_state [OF st] putDocumentLocked_state)
next
  case (DPatch own p patch who ifm)
  then show ?thesis using c
    by (auto simp: pg_PatchDocument_def split: option.splits sum.splits
          intro!: doc_stmt_state [OF st] putDocumentLocked_state)
next
  case (DRestore own p n who ifm)
  then show ?thesis using c
    by (auto simp: pg_RestoreDocumentVersion_def split: option.splits
          intro!: doc_stmt_state [OF st] putDocumentLocked_state)
next
  case (DVisibility own p v)
  then show ?thesis using st
    by (auto simp: pg_SetStoreVisibility_def tablesFor_document intro!: doc_stmt_state visibility_state)
next
  case (DGrant i p)
  then show ?thesis
    by (auto simp: pg_GrantStoreReader_def tablesFor_document acl_grant_def acl_reads_def list_ex_iff
          intro!: doc_stmt_state [OF st] readers_state) (auto simp: docs_state_def docs_inv_def readers_ok_def)
next
  case (DRevoke i p)
  then show ?thesis
    by (auto simp: pg_RevokeStoreReader_def tablesFor_document acl_revoke_def
          intro!: doc_stmt_state [OF st] readers_state)
       (auto simp: docs_state_def docs_inv_def readers_ok_def distinct_map_filterI)
qed (use st delete_state in auto)

interpretation docs: inv_system "doc_exec L J m" "docs_state (doc_ceiling m)"
  by unfold_locales (rule doc_exec_state [OF _ order_refl])

text \<open>
  C8. Through any sequence of puts, patches, restores, deletes and access changes, each ended before the
  next begins, whatever statements fail or lose their replies, the document store stays consistent: identifiers and
  paths are unique, every entity tag is the hash of the content, every kept version belongs to a
  document and is older than its current version, no version number is kept twice, reader lists name
  existing documents; and no document ever keeps more versions than the server's ceiling. Writes of an
  existing document are brought into such a sequence by its row lock; two first writes of a path are not,
  since there is no row to lock, and \<open>Documents_Behaviour\<close> shows what they can break.
\<close>

theorem documents_stay_consistent:
  "let db = fold (doc_exec L J m) ops (empty_stores now)
   in documents_ok db \<and> versions_ok db \<and> readers_ok db
      \<and> (\<forall>i. int (length (versions_of i db)) \<le> (if 0 < m then m else DefaultMaxDocumentHistory))"
proof -
  let ?c = "doc_ceiling m"
  have "docs_state ?c (empty_stores now)"
    using HistoryCeiling_positive [of "with_ceiling m None None"]
    by (simp add: docs_state_def docs_inv_defs history_bounded_def versions_of_def empty_stores_def less_imp_le)
  then have "docs_state ?c (fold (doc_exec L J m) ops (empty_stores now))" by (rule docs.run_inv)
  then show ?thesis
    by (simp add: docs_state_def docs_inv_def history_bounded_def doc_ceiling_def Let_def)
qed

end
