(* ===== verification/Feeds_Props.thy ===== *)
theory Feeds_Props
  imports Feeds Documents_Props
begin

text \<open>
  Feeds as append-only logs: the invariant of their tables and what any run of operations leaves of
  them, reading a feed page by page, and the two forms of retention.
\<close>

section \<open>The invariant\<close>

definition feeds_ok :: "stores \<Rightarrow> bool" where
  "feeds_ok db \<longleftrightarrow>
     distinct (map rowID (feeds db)) \<and> distinct (map (\<lambda>r. (rowOwner r, rowPath r)) (feeds db))
     \<and> (\<forall>f \<in> set (feeds db). rowID f < store_next db \<and> 0 \<le> CurrentSequence f)"

definition entries_ok :: "stores \<Rightarrow> bool" where
  "entries_ok db \<longleftrightarrow>
     distinct (map fentID (feed_entries db)) \<and> distinct (map (\<lambda>e. (fentFeedID e, fentSequenceNumber e)) (feed_entries db))
     \<and> (\<forall>e \<in> set (feed_entries db). fentID e < store_next db \<and> fentContentHash e = computeContentHash (fentContent e)
          \<and> (\<exists>f \<in> set (feeds db). rowID f = fentFeedID e \<and> 1 \<le> fentSequenceNumber e \<and> fentSequenceNumber e \<le> CurrentSequence f))"

definition feed_readers_ok :: "stores \<Rightarrow> bool" where
  "feed_readers_ok db \<longleftrightarrow>
     distinct (map (\<lambda>a. (rdRow a, rdPeer a)) (feed_acls db)) \<and> (\<forall>a \<in> set (feed_acls db). rdRow a \<in> rowID ` set (feeds db))"

definition feeds_inv :: "stores \<Rightarrow> bool" where
  "feeds_inv db \<longleftrightarrow> feeds_ok db \<and> entries_ok db \<and> feed_readers_ok db"

lemmas feeds_inv_defs = feeds_inv_def feeds_ok_def entries_ok_def feed_readers_ok_def

lemma feeds_inv_env [simp]:
  "feeds_inv (next_faults db) = feeds_inv db" "feeds_inv (db\<lparr>clock := now, faults := fs\<rparr>) = feeds_inv db"
  by (simp_all add: feeds_inv_defs)

lemma feed_reads_next_faults [simp]:
  "find_feed own p (next_faults db) = find_feed own p db" "entries_of i (next_faults db) = entries_of i db"
  by (simp_all add: find_feed_def entries_of_def)

lemma find_feedD: "find_feed own p db = Some f \<Longrightarrow> f \<in> set (feeds db) \<and> rowOwner f = own \<and> rowPath f = p"
  using find_SomeD [of "at_path own p" "feeds db" f] by (simp add: find_feed_def at_path_def)

lemma find_feed_None: "find_feed own p db = None \<longleftrightarrow> (\<forall>r \<in> set (feeds db). \<not> at_path own p r)"
  by (auto simp: find_feed_def find_None_iff)

lemma feed_unique:
  assumes "feeds_ok db" "f \<in> set (feeds db)" "g \<in> set (feeds db)"
  shows "rowID f = rowID g \<longleftrightarrow> f = g" "rowOwner f = rowOwner g \<and> rowPath f = rowPath g \<longleftrightarrow> f = g"
  using assms by (auto simp: feeds_ok_def distinct_map inj_on_def)

lemma snd_in_context [simp]: "snd (in_context p r) = snd r"
  by (simp add: in_context_def split: prod.splits sum.splits)

lemma in_context_Inr [simp]: "in_context p r = (Inr x, d) \<longleftrightarrow> r = (Inr x, d)"
  by (auto simp: in_context_def split: prod.splits sum.splits)


section \<open>How a feed goes on\<close>

text \<open>
  A feed that was there before keeps its owner, path and mode of writing; its counter never falls, and
  of the entries numbered up to the old counter it holds only what it held.
\<close>

definition goes_on :: "stores \<Rightarrow> stores \<Rightarrow> bool" where
  "goes_on db db' \<longleftrightarrow> store_next db \<le> store_next db' \<and>
     (\<forall>f' \<in> set (feeds db'). rowID f' < store_next db \<longrightarrow>
        (\<exists>f \<in> set (feeds db). rowID f = rowID f' \<and> rowOwner f = rowOwner f' \<and> rowPath f = rowPath f'
           \<and> CollaborativeMode f = CollaborativeMode f' \<and> CurrentSequence f \<le> CurrentSequence f'
           \<and> (\<forall>e \<in> set (entries_of (rowID f') db'). fentSequenceNumber e \<le> CurrentSequence f \<longrightarrow> e \<in> set (entries_of (rowID f) db))))"

lemma goes_on_refl [simp]: "goes_on db db" "goes_on db (next_faults db)" "goes_on db (db\<lparr>clock := now, faults := fs\<rparr>)"
  by (auto simp: goes_on_def entries_of_def)

lemma goes_on_env [simp]: "goes_on (next_faults db) db' = goes_on db db'" "goes_on db (next_faults db') = goes_on db db'"
  by (simp_all add: goes_on_def)

lemma goes_on_trans:
  assumes "goes_on a b" "goes_on b d"
  shows "goes_on a d"
  unfolding goes_on_def
proof (intro conjI ballI impI)
  show "store_next a \<le> store_next d" using assms by (auto simp: goes_on_def)
  fix f' assume f': "f' \<in> set (feeds d)" "rowID f' < store_next a"
  then have "rowID f' < store_next b" using assms(1) by (auto simp: goes_on_def)
  then obtain g where g: "g \<in> set (feeds b)" "rowID g = rowID f'" "rowOwner g = rowOwner f'" "rowPath g = rowPath f'"
    "CollaborativeMode g = CollaborativeMode f'" "CurrentSequence g \<le> CurrentSequence f'"
    "\<forall>e \<in> set (entries_of (rowID f') d). fentSequenceNumber e \<le> CurrentSequence g \<longrightarrow> e \<in> set (entries_of (rowID g) b)"
    using assms(2) f'(1) unfolding goes_on_def by blast
  moreover obtain f where "f \<in> set (feeds a)" "rowID f = rowID g" "rowOwner f = rowOwner g" "rowPath f = rowPath g"
    "CollaborativeMode f = CollaborativeMode g" "CurrentSequence f \<le> CurrentSequence g"
    "\<forall>e \<in> set (entries_of (rowID g) b). fentSequenceNumber e \<le> CurrentSequence f \<longrightarrow> e \<in> set (entries_of (rowID f) a)"
    using assms(1) g(1) f'(2) g(2) unfolding goes_on_def by metis
  ultimately show "\<exists>f \<in> set (feeds a). rowID f = rowID f' \<and> rowOwner f = rowOwner f' \<and> rowPath f = rowPath f'
     \<and> CollaborativeMode f = CollaborativeMode f' \<and> CurrentSequence f \<le> CurrentSequence f'
     \<and> (\<forall>e \<in> set (entries_of (rowID f') d). fentSequenceNumber e \<le> CurrentSequence f \<longrightarrow> e \<in> set (entries_of (rowID f) a))"
    by (intro bexI [of _ f]) auto
qed

text \<open>What a statement does to a consistent store: it stays consistent, and its feeds go on.\<close>

definition feed_step :: "stores \<Rightarrow> stores \<Rightarrow> bool" where
  "feed_step db db' \<longleftrightarrow> feeds_inv db' \<and> goes_on db db'"

lemma feed_step_refl [simp]: "feeds_inv db \<Longrightarrow> feed_step db db" "feeds_inv db \<Longrightarrow> feed_step db (next_faults db)"
  by (simp_all add: feed_step_def)

lemma feed_step_stmt:
  assumes "feeds_inv db" "\<And>d. feeds_inv d \<Longrightarrow> feed_step d (snd (f d))"
  shows "feed_step db (snd (stmt f db))"
proof -
  have "feed_step db (snd (f (next_faults db)))" using assms(2) [of "next_faults db"] assms(1) by (simp add: feed_step_def)
  then show ?thesis using assms(1) by (intro stmt_snd_case [where Q = "feed_step db"]) auto
qed

lemma feed_step_trans: "feed_step a b \<Longrightarrow> feed_step b d \<Longrightarrow> feed_step a d"
  using goes_on_trans by (auto simp: feed_step_def)

text \<open>Rows whose columns other than title, description, visibility and time stay.\<close>

lemma rewrite_rows_step:
  fixes up :: "FeedRecord \<Rightarrow> FeedRecord"
  assumes inv: "feeds_inv d"
    and same: "\<And>x. rowID (up x) = rowID x \<and> rowOwner (up x) = rowOwner x \<and> rowPath (up x) = rowPath x
      \<and> CollaborativeMode (up x) = CollaborativeMode x \<and> CurrentSequence (up x) = CurrentSequence x"
  shows "feed_step d (d\<lparr>feeds := map up (feeds d)\<rparr>)"
proof -
  have keys: "map rowID (map up (feeds d)) = map rowID (feeds d)"
    "map (\<lambda>r. (rowOwner r, rowPath r)) (map up (feeds d)) = map (\<lambda>r. (rowOwner r, rowPath r)) (feeds d)"
    using same by simp_all
  have "rowID ` up ` set (feeds d) = rowID ` set (feeds d)" using same by (simp add: image_image)
  then have "feeds_inv (d\<lparr>feeds := map up (feeds d)\<rparr>)"
    using inv keys same unfolding feeds_inv_defs by (simp del: map_map)
  moreover have "goes_on d (d\<lparr>feeds := map up (feeds d)\<rparr>)"
    using same by (auto simp: goes_on_def entries_of_def)
  ultimately show ?thesis by (simp add: feed_step_def)
qed

lemma CreateFeed_step: "feeds_inv db \<Longrightarrow> feed_step db (snd (pg_CreateFeed L own p t de co vis db))"
  unfolding pg_CreateFeed_def snd_in_context
proof (rule feed_step_stmt)
  fix d assume inv: "feeds_inv d"
  let ?o = "peer_String L own"
  show "feed_step d (snd (let own = ?o in case find_feed own p d of
        None \<Rightarrow> let r = created_feed own p t de co vis d in (Inr r, d\<lparr>feeds := feeds d @ [r], store_next := store_next d + 1\<rparr>)
      | Some r \<Rightarrow> let up = \<lambda>x. x\<lparr>Title := or_kept t (Title x), Description := or_kept de (Description x)\<rparr>
          in (Inr (up r), d\<lparr>feeds := map (\<lambda>x. if at_path own p x then up x else x) (feeds d)\<rparr>)))"
  proof (cases "find_feed ?o p d")
    case None
    let ?r = "created_feed ?o p t de co vis d" and ?d = "d\<lparr>feeds := feeds d @ [created_feed ?o p t de co vis d], store_next := store_next d + 1\<rparr>"
    have "(?o, p) \<notin> (\<lambda>r. (rowOwner r, rowPath r)) ` set (feeds d)" using None by (auto simp: find_feed_None at_path_def)
    moreover have "store_next d \<notin> rowID ` set (feeds d)" using inv by (fastforce simp: feeds_inv_def feeds_ok_def)
    ultimately have "feeds_inv ?d" using inv by (fastforce simp: feeds_inv_defs created_feed_def)
    moreover have "goes_on d ?d" by (auto simp: goes_on_def entries_of_def created_feed_def)
    ultimately show ?thesis using None by (simp add: feed_step_def Let_def)
  next
    case (Some r)
    then show ?thesis using rewrite_rows_step [OF inv] by simp
  qed
qed

text \<open>Rows that go, of all three tables or of the entries alone.\<close>

lemma shrink_step:
  assumes inv: "feeds_inv d"
    and gone: "\<And>f. f \<in> set (feeds d) \<Longrightarrow> \<not> P f \<Longrightarrow> \<forall>e \<in> set (feed_entries d). fentFeedID e = rowID f \<longrightarrow> \<not> Q e"
      "\<And>f. f \<in> set (feeds d) \<Longrightarrow> \<not> P f \<Longrightarrow> \<forall>a \<in> set (feed_acls d). rdRow a = rowID f \<longrightarrow> \<not> R a"
  shows "feed_step d (d\<lparr>feeds := filter P (feeds d), feed_entries := filter Q (feed_entries d), feed_acls := filter R (feed_acls d)\<rparr>)"
proof -
  let ?d = "d\<lparr>feeds := filter P (feeds d), feed_entries := filter Q (feed_entries d), feed_acls := filter R (feed_acls d)\<rparr>"
  have "feeds_ok ?d" using inv by (simp add: feeds_inv_def feeds_ok_def distinct_map_filterI)
  moreover have "entries_ok ?d"
    using inv gone(1) unfolding entries_ok_def feeds_inv_def by (simp add: distinct_map_filterI) metis
  moreover have "feed_readers_ok ?d"
    using inv gone(2) unfolding feed_readers_ok_def feeds_inv_def by (simp add: distinct_map_filterI image_iff) metis
  ultimately have "feeds_inv ?d" by (simp add: feeds_inv_def)
  moreover have "goes_on d (d\<lparr>feeds := filter P (feeds d), feed_entries := filter Q (feed_entries d), feed_acls := filter R (feed_acls d)\<rparr>)"
    by (auto simp: goes_on_def entries_of_def)
  ultimately show ?thesis by (simp add: feed_step_def)
qed

lemma DeleteFeed_step: "feeds_inv db \<Longrightarrow> feed_step db (snd (pg_DeleteFeed L own p db))"
  unfolding pg_DeleteFeed_def snd_in_context
  by (rule feed_step_stmt) (auto simp: Let_def intro!: shrink_step)

lemma drop_entries_step: "feeds_inv d \<Longrightarrow> feed_step d (snd (drop_entries P d))"
  using shrink_step [of d "\<lambda>_. True" "\<lambda>e. \<not> P e" "\<lambda>_. True"] by (simp add: drop_entries_def)

lemma stmt_drop_step: "feeds_inv db \<Longrightarrow> feed_step db (snd (stmt (\<lambda>d. drop_entries (P d) d) db))"
  by (rule feed_step_stmt) (auto intro: drop_entries_step)

lemma stmt_drop_stepD: "stmt (\<lambda>d. drop_entries (P d) d) db = (x, d') \<Longrightarrow> feeds_inv db \<Longrightarrow> feed_step db d'"
  using stmt_drop_step [of db P] by simp

lemma then_drop_step:
  "feed_step db d \<Longrightarrow> stmt (\<lambda>d. drop_entries (P d) d) d = (x, d') \<Longrightarrow> feed_step db d'"
  using stmt_drop_stepD feed_step_trans by (metis feed_step_def)

lemma FeedRetention_step:
  assumes inv: "feeds_inv db"
  shows "feed_step db (snd (pg_EnforceFeedRetention f db))"
proof -
  obtain x d where a: "(case MaxAgeDays f of
       Some d \<Rightarrow> if 0 < d then stmt (\<lambda>d0. drop_entries (\<lambda>e. fentFeedID e = rowID f \<and> too_old (Some d) (clock d0) e) d0) db else (Inr 0, db)
     | None \<Rightarrow> (Inr 0, db)) = (x, d)" by fastforce
  have "feed_step db d" using a inv by (auto split: option.splits if_splits dest: stmt_drop_stepD)
  then show ?thesis unfolding pg_EnforceFeedRetention_def a Let_def
    by (auto split: sum.splits option.splits prod.splits dest: then_drop_step)
qed

lemma AllRetention_step: "feeds_inv db \<Longrightarrow> feed_step db (snd (pg_EnforceAllFeedRetention db))"
  unfolding pg_EnforceAllFeedRetention_def
  by (auto split: sum.splits prod.splits dest: stmt_drop_stepD then_drop_step [OF stmt_drop_stepD])

definition after_append :: "FeedEntryRecord \<Rightarrow> stores \<Rightarrow> stores" where
  "after_append e d = d\<lparr>feeds := map (\<lambda>r. if rowID r = fentFeedID e then r\<lparr>CurrentSequence := CurrentSequence r + 1, LastEntryAt := clock d\<rparr> else r) (feeds d),
     feed_entries := feed_entries d @ [e], store_next := store_next d + 1\<rparr>"

definition next_entry :: "FeedRecord \<Rightarrow> bytes \<Rightarrow> string \<Rightarrow> string \<Rightarrow> stores \<Rightarrow> FeedEntryRecord" where
  "next_entry f content who et d = appended_entry (store_next d) (rowID f) (CurrentSequence f + 1) content (clock d) who et"

lemma next_entry_simps [simp]:
  "fentFeedID (next_entry f content who et d) = rowID f" "fentSequenceNumber (next_entry f content who et d) = CurrentSequence f + 1"
  "fentID (next_entry f content who et d) = store_next d" "fentCreatedByPeerID (next_entry f content who et d) = who"
  "fentContentHash (next_entry f content who et d) = computeContentHash (fentContent (next_entry f content who et d))"
  by (simp_all add: next_entry_def appended_entry_def)

lemma feed_by_id:
  assumes "feeds_ok d" "f \<in> set (feeds d)"
  shows "find (\<lambda>r. rowID r = rowID f) (feeds d) = Some f"
  using assms feed_unique(1) [OF assms(1)] by (intro find_unique) auto

lemma entry_below:
  assumes "feeds_inv d" "f \<in> set (feeds d)" "x \<in> set (feed_entries d)" "fentFeedID x = rowID f"
  shows "fentSequenceNumber x \<le> CurrentSequence f"
  using assms feed_unique(1) [of d _ f] by (fastforce simp: feeds_inv_def entries_ok_def)

lemma append_result:
  assumes "feeds_inv d" "f \<in> set (feeds d)"
  shows "append_entry who (rowID f) content et d = (Inr (next_entry f content who et d), after_append (next_entry f content who et d) d)"
proof -
  have "find (\<lambda>r. rowID r = rowID f) (feeds d) = Some f" using assms feed_by_id by (simp add: feeds_inv_def)
  moreover have "\<not> list_ex (\<lambda>x. fentSequenceNumber x = CurrentSequence f + 1) (entries_of (rowID f) d)"
    using entry_below [OF assms] by (fastforce simp: list_ex_iff entries_of_def)
  ultimately show ?thesis by (simp add: append_entry_def after_append_def next_entry_def appended_entry_def Let_def)
qed

lemma append_step:
  assumes inv: "feeds_inv d" and f: "f \<in> set (feeds d)" and e: "e = next_entry f content who et d"
  shows "feed_step d (after_append e d)"
proof -
  define up where "up = (\<lambda>r :: FeedRecord. if rowID r = rowID f then r\<lparr>CurrentSequence := CurrentSequence r + 1, LastEntryAt := clock d\<rparr> else r)"
  have after: "after_append e d = d\<lparr>feeds := map up (feeds d), feed_entries := feed_entries d @ [e], store_next := store_next d + 1\<rparr>"
    by (simp add: after_append_def e up_def)
  have up: "rowID (up x) = rowID x" "rowOwner (up x) = rowOwner x" "rowPath (up x) = rowPath x"
    "CollaborativeMode (up x) = CollaborativeMode x" "CurrentSequence x \<le> CurrentSequence (up x)" for x by (simp_all add: up_def)
  have upf: "CurrentSequence (up f) = CurrentSequence f + 1" by (simp add: up_def)
  have ok: "feeds_ok d" "entries_ok d" "feed_readers_ok d" using inv by (simp_all add: feeds_inv_def)
  have "feeds_ok (after_append e d)"
    using ok(1) up(5) order_trans unfolding after feeds_ok_def by (fastforce simp: comp_def up)
  moreover have "feed_readers_ok (after_append e d)"
    using ok(3) unfolding after feed_readers_ok_def by (simp add: image_image up)
  moreover have "entries_ok (after_append e d)"
  proof -
    have "\<exists>g \<in> set (feeds d). rowID (up g) = fentFeedID x \<and> 1 \<le> fentSequenceNumber x \<and> fentSequenceNumber x \<le> CurrentSequence (up g)"
      if "x = e \<or> x \<in> set (feed_entries d)" for x
      using that
    proof
      assume "x = e"
      then show ?thesis using f ok(1) upf by (auto simp: e up feeds_ok_def)
    next
      assume "x \<in> set (feed_entries d)"
      then show ?thesis using ok(2) order_trans [OF _ up(5)] unfolding entries_ok_def up by metis
    qed
    moreover have "(rowID f, CurrentSequence f + 1) \<notin> (\<lambda>e. (fentFeedID e, fentSequenceNumber e)) ` set (feed_entries d)"
      using entry_below [OF inv f] by fastforce
    moreover have "store_next d \<notin> fentID ` set (feed_entries d)" using ok(2) by (fastforce simp: entries_ok_def)
    ultimately show ?thesis using ok(2) unfolding after entries_ok_def by (auto simp: e)
  qed
  moreover have "goes_on d (after_append e d)"
    unfolding goes_on_def
  proof (intro conjI ballI impI)
    fix f' assume "f' \<in> set (feeds (after_append e d))"
    then obtain g where g: "g \<in> set (feeds d)" "f' = up g" by (auto simp: after)
    have "x \<in> set (entries_of (rowID g) d)"
      if "x \<in> set (entries_of (rowID f') (after_append e d))" "fentSequenceNumber x \<le> CurrentSequence g" for x
      using that g feed_unique(1) [OF ok(1) g(1) f] unfolding after entries_of_def by (auto simp: up e)
    then show "\<exists>f \<in> set (feeds d). rowID f = rowID f' \<and> rowOwner f = rowOwner f' \<and> rowPath f = rowPath f'
       \<and> CollaborativeMode f = CollaborativeMode f' \<and> CurrentSequence f \<le> CurrentSequence f'
       \<and> (\<forall>x \<in> set (entries_of (rowID f') (after_append e d)). fentSequenceNumber x \<le> CurrentSequence f \<longrightarrow> x \<in> set (entries_of (rowID f) d))"
      using g up by (intro bexI [of _ g]) auto
  qed (simp add: after)
  ultimately show ?thesis by (simp add: feed_step_def feeds_inv_def)
qed

lemma append_entry_step: "feeds_inv d \<Longrightarrow> feed_step d (snd (append_entry who i content et d))"
proof (cases "find (\<lambda>r. rowID r = i) (feeds d)")
  case (Some f)
  assume inv: "feeds_inv d"
  have "f \<in> set (feeds d)" "rowID f = i" using find_SomeD [OF Some] by auto
  then show ?thesis using append_result [OF inv, of f who content et] append_step [OF inv _ refl, of f content who et] by auto
qed (simp add: append_entry_def)

lemma AppendFeedEntry_step: "feeds_inv db \<Longrightarrow> feed_step db (snd (pg_AppendFeedEntry L i content who et db))"
  unfolding pg_AppendFeedEntry_def by (rule feed_step_stmt) (auto intro: append_entry_step)

text \<open>Visibility and readers.\<close>

lemma set_visibility_feeds: "set_visibility own p v = map (\<lambda>r :: FeedRecord. if at_path own p r then r\<lparr>rowVisibility := v\<rparr> else r)"
  by (simp add: set_visibility_def fun_eq_iff)

lemma FeedVisibility_step: "feeds_inv db \<Longrightarrow> feed_step db (snd (pg_SetStoreVisibility L StoreFeed own p v db))"
  using rewrite_rows_step
  by (auto simp: pg_SetStoreVisibility_def tablesFor_feed set_visibility_feeds intro!: feed_step_stmt)

lemma feed_acls_step:
  assumes "feeds_inv d" "distinct (map (\<lambda>a. (rdRow a, rdPeer a)) as)" "\<forall>a \<in> set as. rdRow a \<in> rowID ` set (feeds d)"
  shows "feed_step d (d\<lparr>feed_acls := as\<rparr>)"
  using assms by (auto simp: feed_step_def goes_on_def feeds_inv_defs entries_of_def)

lemma FeedReader_step:
  assumes "feeds_inv db"
  shows "feed_step db (snd (pg_GrantStoreReader L StoreFeed i p db))" "feed_step db (snd (pg_RevokeStoreReader L StoreFeed i p db))"
proof -
  have "feed_step d (d\<lparr>feed_acls := acl_grant t i q (feed_acls d)\<rparr>)" if "feeds_inv d" "i \<in> rowID ` set (feeds d)" for d t q
    by (rule feed_acls_step) (use that in \<open>auto simp: acl_grant_def acl_reads_def list_ex_iff feeds_inv_def feed_readers_ok_def\<close>)
  then show "feed_step db (snd (pg_GrantStoreReader L StoreFeed i p db))"
    using assms by (auto simp: pg_GrantStoreReader_def tablesFor_feed intro!: feed_step_stmt)
  have "feed_step d (d\<lparr>feed_acls := acl_revoke i q (feed_acls d)\<rparr>)" if "feeds_inv d" for d q
    by (rule feed_acls_step) (use that in \<open>auto simp: acl_revoke_def distinct_map_filterI feeds_inv_def feed_readers_ok_def\<close>)
  then show "feed_step db (snd (pg_RevokeStoreReader L StoreFeed i p db))"
    using assms by (auto simp: pg_RevokeStoreReader_def tablesFor_feed intro!: feed_step_stmt)
qed

section \<open>Runs of operations\<close>

datatype feed_op =
    FCreate peer_id string string string bool Visibility
  | FDelete peer_id string
  | FAppend int bytes peer_id string
  | FVisibility peer_id string Visibility
  | FGrant int peer_id
  | FRevoke int peer_id
  | FRetain FeedRecord
  | FRetainAll
  | FEnvironment millis "fault list"

fun feed_exec :: "peer_lib \<Rightarrow> feed_op \<Rightarrow> stores \<Rightarrow> stores" where
  "feed_exec L (FCreate own p t de co vis) db = snd (pg_CreateFeed L own p t de co vis db)"
| "feed_exec L (FDelete own p) db = snd (pg_DeleteFeed L own p db)"
| "feed_exec L (FAppend i content who et) db = snd (pg_AppendFeedEntry L i content who et db)"
| "feed_exec L (FVisibility own p v) db = snd (pg_SetStoreVisibility L StoreFeed own p v db)"
| "feed_exec L (FGrant i p) db = snd (pg_GrantStoreReader L StoreFeed i p db)"
| "feed_exec L (FRevoke i p) db = snd (pg_RevokeStoreReader L StoreFeed i p db)"
| "feed_exec L (FRetain f) db = snd (pg_EnforceFeedRetention f db)"
| "feed_exec L FRetainAll db = snd (pg_EnforceAllFeedRetention db)"
| "feed_exec L (FEnvironment now fs) db = db\<lparr>clock := now, faults := fs\<rparr>"

lemma feed_exec_step: "feeds_inv db \<Longrightarrow> feed_step db (feed_exec L op db)"
  by (cases op)
     (simp_all add: CreateFeed_step DeleteFeed_step AppendFeedEntry_step FeedVisibility_step FeedReader_step
        FeedRetention_step AllRetention_step, simp add: feed_step_def)

interpretation feed_run: inv_system "feed_exec L" "\<lambda>d. feeds_inv d \<and> goes_on d0 d" for L d0
  by unfold_locales (use feed_exec_step goes_on_trans in \<open>auto simp: feed_step_def\<close>)

text \<open>
  C9. Feeds are append-only logs. Take the store after any run of creations, deletions, appends, access
  changes and retention sweeps by any clients, whatever statements fail or lose their replies, and
  again after any further run. Both times it is consistent: feeds and paths are unique, every entry
  belongs to a feed, has a number of its own between one and the counter of the feed, and the hash of
  its content. Every feed that the further run did not create is one that was there before, with the
  same owner, path and mode; its counter has not fallen; and of the numbers given out before it holds
  only entries it held before, unchanged: numbers are never reused and entries never rewritten.
\<close>

theorem feeds_are_append_only:
  "let db = fold (feed_exec L) ops (empty_stores now); db' = fold (feed_exec L) ops' db
   in feeds_inv db \<and> feeds_inv db' \<and> goes_on db db'"
proof -
  have "feeds_inv (empty_stores now)" by (simp add: feeds_inv_defs empty_stores_def)
  then have a: "feeds_inv (fold (feed_exec L) ops (empty_stores now))"
    using feed_run.run_inv [of "empty_stores now" "empty_stores now" L ops] by simp
  then show ?thesis
    using feed_run.run_inv [of "fold (feed_exec L) ops (empty_stores now)" "fold (feed_exec L) ops (empty_stores now)" L ops']
    by (simp add: Let_def)
qed


section \<open>Reading page by page\<close>

lemma entry_rows_sorted:
  assumes "feeds_inv db"
  shows "sorted_wrt (\<lambda>x y. fentSequenceNumber x < fentSequenceNumber y) (entry_rows i a b et db)"
proof -
  let ?xs = "filter (in_range a b et) (entries_of i db)"
  have "distinct (map (\<lambda>e. (fentFeedID e, fentSequenceNumber e)) (feed_entries db))"
    using assms by (simp add: feeds_inv_def entries_ok_def)
  then have "distinct (map fentSequenceNumber (filter (\<lambda>e. fentFeedID e = i \<and> in_range a b et e) (feed_entries db)))"
    by (auto simp: distinct_map inj_on_def)
  then have "distinct (map fentSequenceNumber (entry_rows i a b et db))"
    unfolding entry_rows_def entries_of_def by (simp add: distinct_map conj_commute)
  moreover have "sorted (map fentSequenceNumber (entry_rows i a b et db))" by (simp add: entry_rows_def)
  ultimately have "sorted_wrt (<) (map fentSequenceNumber (entry_rows i a b et db))" by (simp add: strict_sorted_iff)
  then show ?thesis by (simp add: sorted_wrt_map)
qed

lemma rows_after:
  assumes "sorted_wrt (\<lambda>x y. fentSequenceNumber x < fentSequenceNumber y) (xs @ y # ys)"
  shows "filter (\<lambda>e. fentSequenceNumber y + 1 \<le> fentSequenceNumber e) (xs @ y # ys) = ys"
proof -
  have "filter (\<lambda>e. fentSequenceNumber y + 1 \<le> fentSequenceNumber e) xs = []"
    "filter (\<lambda>e. fentSequenceNumber y + 1 \<le> fentSequenceNumber e) ys = ys"
    using assms by (auto simp: sorted_wrt_append filter_empty_conv filter_id_conv)
  then show ?thesis by simp
qed

lemma entry_rows_from:
  assumes "feeds_inv db" "entry_rows i a b et db = xs @ y # ys"
  shows "entry_rows i (Some (fentSequenceNumber y + 1)) b et db = ys"
proof -
  let ?n = "fentSequenceNumber y + 1"
  have "y \<in> set (entry_rows i a b et db)" using assms(2) by simp
  then have "in_range a b et y" by (simp add: entry_rows_def)
  then have "in_range (Some ?n) b et = (\<lambda>e. in_range a b et e \<and> ?n \<le> fentSequenceNumber e)"
    by (auto simp: in_range_def fun_eq_iff split: option.splits)
  then have "entry_rows i (Some ?n) b et db = filter (\<lambda>e. ?n \<le> fentSequenceNumber e) (entry_rows i a b et db)"
    by (simp add: entry_rows_def filter_sort conj_commute)
  then show ?thesis using rows_after [of xs y ys] entry_rows_sorted [OF assms(1), of i a b et] assms(2) by simp
qed

section \<open>Retention\<close>

text \<open>What the limits of a feed remove from a table of entries.\<close>

definition young :: "FeedRecord \<Rightarrow> millis \<Rightarrow> FeedEntryRecord list \<Rightarrow> FeedEntryRecord list" where
  "young f now es = filter (\<lambda>e. fentFeedID e = rowID f \<and> \<not> too_old (MaxAgeDays f) now e) es"

definition beyond :: "FeedRecord \<Rightarrow> FeedEntryRecord list \<Rightarrow> FeedEntryRecord list" where
  "beyond f es =
     (case MaxEntries f of None \<Rightarrow> [] | Some m \<Rightarrow> if 0 < m then drop (nat m) (sort_key (\<lambda>e. - fentSequenceNumber e) es) else [])"

definition removed :: "FeedRecord \<Rightarrow> millis \<Rightarrow> FeedEntryRecord list \<Rightarrow> FeedEntryRecord \<Rightarrow> bool" where
  "removed f now es e \<longleftrightarrow> fentFeedID e = rowID f \<and> (too_old (MaxAgeDays f) now e \<or> e \<in> set (beyond f (young f now es)))"

definition without :: "stores \<Rightarrow> FeedEntryRecord list \<Rightarrow> (err + int) \<times> stores" where
  "without db es = (Inr (int (length (feed_entries db)) - int (length es)), db\<lparr>feed_entries := es\<rparr>)"

lemma drop_entries_without: "drop_entries P db = without db (filter (\<lambda>e. \<not> P e) (feed_entries db))"
  using sum_length_filter_compl [of P "feed_entries db"] by (simp add: drop_entries_def without_def)

lemma beyond_subset: "set (beyond f es) \<subseteq> set es"
  by (auto simp: beyond_def dest: in_set_dropD split: option.splits if_splits)

lemma too_old_limits [simp]: "\<not> too_old None now e" "d \<le> 0 \<Longrightarrow> \<not> too_old (Some d) now e"
  by (simp_all add: too_old_def)

text \<open>The second statement of the sweep of one feed.\<close>

lemma count_stage:
  assumes "distinct (map fentID (feed_entries d))"
  shows "filter (\<lambda>e. fentID e \<notin> set (map fentID (drop (nat m) (newest_entries i d)))) (feed_entries d)
    = filter (\<lambda>e. e \<notin> set (drop (nat m) (newest_entries i d))) (feed_entries d)"
proof (rule filter_cong)
  fix e assume e: "e \<in> set (feed_entries d)"
  have "x \<in> set (feed_entries d)" if "x \<in> set (drop (nat m) (newest_entries i d))" for x
    using in_set_dropD [OF that] by (simp add: newest_entries_def entries_of_def)
  then show "(fentID e \<notin> set (map fentID (drop (nat m) (newest_entries i d)))) = (e \<notin> set (drop (nat m) (newest_entries i d)))"
    using assms e by (auto simp: distinct_map dest: inj_onD)
qed simp

lemma one_sweep:
  assumes d: "distinct (map fentID (feed_entries db))" and nf: "faults db = []"
  shows "pg_EnforceFeedRetention f db = without db (filter (\<lambda>e. \<not> removed f (clock db) (feed_entries db) e) (feed_entries db))"
proof -
  let ?es = "feed_entries db" and ?now = "clock db"
  define es1 where "es1 = filter (\<lambda>e. \<not> (fentFeedID e = rowID f \<and> too_old (MaxAgeDays f) ?now e)) ?es"
  let ?db1 = "db\<lparr>feed_entries := es1\<rparr>" and ?es2 = "filter (\<lambda>e. \<not> removed f ?now ?es e) ?es"
  have aged: "(case MaxAgeDays f of
       Some d \<Rightarrow> if 0 < d then stmt (\<lambda>d0. drop_entries (\<lambda>e. fentFeedID e = rowID f \<and> too_old (Some d) (clock d0) e) d0) db else (Inr 0, db)
     | None \<Rightarrow> (Inr 0, db)) = without db es1"
    using nf by (auto simp: drop_entries_without without_def es1_def split: option.splits)
  have mine: "entries_of (rowID f) ?db1 = young f ?now ?es"
    by (auto simp: entries_of_def young_def es1_def intro: filter_cong)
  have newest: "newest_entries (rowID f) ?db1 = sort_key (\<lambda>e. - fentSequenceNumber e) (young f ?now ?es)"
    by (simp add: newest_entries_def mine)
  have es2: "filter (\<lambda>e. e \<notin> set (beyond f (young f ?now ?es))) es1 = ?es2"
    using beyond_subset [of f "young f ?now ?es"] by (auto simp: removed_def young_def es1_def intro!: filter_cong)
  have "distinct (map fentID (feed_entries ?db1))" using d by (simp add: distinct_map_filterI es1_def)
  from count_stage [OF this, of _ "rowID f"]
  have counted: "filter (\<lambda>e. fentID e \<notin> set (map fentID (drop (nat m) (newest_entries (rowID f) ?db1)))) es1 = ?es2"
    if "MaxEntries f = Some m" "0 < m" for m
    using that es2 by (simp add: beyond_def newest)
  have none: "es1 = ?es2" if "\<not> (\<exists>m. MaxEntries f = Some m \<and> 0 < m)"
  proof -
    have "beyond f (young f ?now ?es) = []" using that by (auto simp: beyond_def split: option.split)
    then show ?thesis using es2 by simp
  qed
  show ?thesis
    unfolding pg_EnforceFeedRetention_def aged
    using nf counted none by (auto simp: without_def drop_entries_without Let_def split: option.split)
qed

fun sweep_each :: "FeedRecord list \<Rightarrow> int \<Rightarrow> int storem" where
  "sweep_each [] n db = (Inr n, db)"
| "sweep_each (f # fs) n db =
     (case pg_EnforceFeedRetention f db of (Inl e, d) \<Rightarrow> (Inl e, d) | (Inr k, d) \<Rightarrow> sweep_each fs (n + k) d)"

lemma removed_other:
  assumes "rowID g \<noteq> rowID f"
  shows "removed g now (filter (\<lambda>e. \<not> removed f now es e) es) = removed g now es"
proof -
  have "young g now (filter (\<lambda>e. \<not> removed f now es e) es) = young g now es"
    using assms by (auto simp: young_def removed_def intro!: filter_cong)
  then show ?thesis by (simp add: removed_def fun_eq_iff)
qed

lemma sweep_each_result:
  assumes "distinct (map rowID fs)" "distinct (map fentID (feed_entries db))" "faults db = []"
  shows "sweep_each fs n db =
    (let es = filter (\<lambda>e. \<forall>f \<in> set fs. \<not> removed f (clock db) (feed_entries db) e) (feed_entries db)
     in (Inr (n + int (length (feed_entries db)) - int (length es)), db\<lparr>feed_entries := es\<rparr>))"
  using assms
proof (induction fs arbitrary: n db)
  case (Cons f fs)
  let ?es = "feed_entries db" and ?now = "clock db"
  define es1 where "es1 = filter (\<lambda>e. \<not> removed f ?now ?es e) ?es"
  have same: "removed g ?now es1 = removed g ?now ?es" if "g \<in> set fs" for g
    unfolding es1_def by (rule removed_other) (use Cons.prems(1) that in \<open>auto simp: image_iff\<close>)
  have "filter (\<lambda>e. \<forall>g \<in> set fs. \<not> removed g ?now es1 e) es1 = filter (\<lambda>e. \<forall>g \<in> set (f # fs). \<not> removed g ?now ?es e) ?es"
    using same by (auto simp: es1_def intro!: filter_cong)
  moreover have "sweep_each fs m (db\<lparr>feed_entries := es1\<rparr>) =
     (let es = filter (\<lambda>e. \<forall>g \<in> set fs. \<not> removed g ?now es1 e) es1
      in (Inr (m + int (length es1) - int (length es)), db\<lparr>feed_entries := es\<rparr>))" for m
    using Cons.IH [of "db\<lparr>feed_entries := es1\<rparr>" m] Cons.prems by (simp add: es1_def distinct_map_filterI)
  ultimately show ?case
    using one_sweep [OF Cons.prems(2,3), of f] by (simp add: without_def es1_def [symmetric] Let_def)
qed simp

text \<open>In a list that falls strictly, what comes from a position on is what is at most the element there.\<close>

lemma falling_drop:
  assumes "sorted_wrt (\<lambda>x y. k y < k x) xs" "drop n xs = y # ys" "x \<in> set xs"
  shows "k x \<le> (k y :: int) \<longleftrightarrow> x \<in> set (drop n xs)"
proof -
  have xs: "xs = take n xs @ y # ys" using assms(2) by (metis append_take_drop_id)
  have "sorted_wrt (\<lambda>x y. k y < k x) (take n xs @ y # ys)" using assms(1) xs by simp
  then have "\<forall>z \<in> set (take n xs). k y < k z" "\<forall>z \<in> set ys. k z < k y" by (auto simp: sorted_wrt_append)
  then show ?thesis using assms(2,3) xs by (metis Un_iff insert_iff less_le_not_le list.simps(15) order_refl set_append linorder_not_less)
qed

lemma newest_falling:
  assumes "distinct (map (\<lambda>e. (fentFeedID e, fentSequenceNumber e)) es)" "\<forall>e \<in> set es. fentFeedID e = i"
  shows "sorted_wrt (\<lambda>x y. fentSequenceNumber y < fentSequenceNumber x) (sort_key (\<lambda>e. - fentSequenceNumber e) es)"
proof -
  let ?xs = "sort_key (\<lambda>e. - fentSequenceNumber e) es"
  have "distinct (map (\<lambda>e. - fentSequenceNumber e) es)" using assms by (auto simp: distinct_map inj_on_def)
  then have "distinct (map (\<lambda>e. - fentSequenceNumber e) ?xs)" by (simp add: distinct_map)
  moreover have "sorted (map (\<lambda>e. - fentSequenceNumber e) ?xs)" by simp
  ultimately have "sorted_wrt (<) (map (\<lambda>e. - fentSequenceNumber e) ?xs)" by (simp add: strict_sorted_iff)
  then show ?thesis by (simp add: sorted_wrt_map)
qed

lemma bound_is_beyond:
  assumes d: "distinct (map (\<lambda>e. (fentFeedID e, fentSequenceNumber e)) (feed_entries db))" and e: "e \<in> set (entries_of (rowID f) db)"
  shows "(case beyond_bound f db of None \<Rightarrow> False | Some b \<Rightarrow> fentSequenceNumber e \<le> b) \<longleftrightarrow> e \<in> set (beyond f (entries_of (rowID f) db))"
proof -
  have "distinct (map (\<lambda>e. (fentFeedID e, fentSequenceNumber e)) (entries_of (rowID f) db))"
    using d by (simp add: entries_of_def distinct_map_filterI)
  then have fall: "sorted_wrt (\<lambda>x y. fentSequenceNumber y < fentSequenceNumber x) (newest_entries (rowID f) db)"
    unfolding newest_entries_def by (rule newest_falling [where i = "rowID f"]) (simp add: entries_of_def)
  have "e \<in> set (newest_entries (rowID f) db)" using e by (simp add: newest_entries_def)
  then show ?thesis
    using falling_drop [OF fall]
    by (auto simp: beyond_bound_def beyond_def newest_entries_def [symmetric] split: option.splits list.splits)
qed

lemma all_sweep:
  assumes inv: "feeds_inv db" and nf: "faults db = []"
  shows "pg_EnforceAllFeedRetention db = without db
    (filter (\<lambda>e. \<forall>f \<in> set (feeds db). \<not> removed f (clock db) (feed_entries db) e) (feed_entries db))"
proof -
  let ?es = "feed_entries db" and ?now = "clock db"
  define es1 where "es1 = filter (\<lambda>e. \<not> list_ex (\<lambda>f. rowID f = fentFeedID e \<and> too_old (MaxAgeDays f) ?now e) (feeds db)) ?es"
  let ?db1 = "db\<lparr>feed_entries := es1\<rparr>"
  let ?over = "\<lambda>e. list_ex (\<lambda>f. rowID f = fentFeedID e
     \<and> (case beyond_bound f ?db1 of None \<Rightarrow> False | Some b \<Rightarrow> fentSequenceNumber e \<le> b)) (feeds db)"
  have ok: "feeds_ok db" "distinct (map (\<lambda>e. (fentFeedID e, fentSequenceNumber e)) ?es)"
    using inv by (simp_all add: feeds_inv_def entries_ok_def)
  have mine: "entries_of (rowID f) ?db1 = young f ?now ?es" if "f \<in> set (feeds db)" for f
    using feed_unique(1) [OF ok(1) _ that] that by (auto simp: entries_of_def young_def es1_def list_ex_iff intro!: filter_cong)
  have bound: "(case beyond_bound f ?db1 of None \<Rightarrow> False | Some b \<Rightarrow> fentSequenceNumber e \<le> b) \<longleftrightarrow> e \<in> set (beyond f (young f ?now ?es))"
    if "e \<in> set es1" "f \<in> set (feeds db)" "rowID f = fentFeedID e" for e f
    using bound_is_beyond [of ?db1 e f] that ok(2) mine [OF that(2)] by (simp add: es1_def distinct_map_filterI entries_of_def)
  have "filter (\<lambda>e. \<not> ?over e) es1 = filter (\<lambda>e. \<forall>f \<in> set (feeds db). \<not> removed f ?now ?es e) es1"
    using bound by (intro filter_cong) (auto simp: list_ex_iff removed_def es1_def)
  also have "\<dots> = filter (\<lambda>e. \<forall>f \<in> set (feeds db). \<not> removed f ?now ?es e) ?es"
    by (auto simp: es1_def list_ex_iff removed_def intro!: filter_cong)
  finally show ?thesis
    using nf by (simp add: pg_EnforceAllFeedRetention_def drop_entries_without without_def es1_def [symmetric])
qed

text \<open>
  C37. The sweep over all feeds and the retention of single feeds agree. In a consistent store whose
  statements work, the two statements of the sweep leave exactly the table that enforcing the limits of
  every feed one after the other leaves, and report as many removed entries; and what they leave of a
  feed are its entries that are young enough, and of these the newest, as many as the feed allows.
\<close>

theorem retention_sweeps_agree:
  assumes inv: "feeds_inv db" and nf: "faults db = []"
  shows "pg_EnforceAllFeedRetention db = sweep_each (feeds db) 0 db
    \<and> (\<forall>f \<in> set (feeds db). \<forall>e. e \<in> set (entries_of (rowID f) (snd (pg_EnforceAllFeedRetention db)))
         \<longleftrightarrow> e \<in> set (young f (clock db) (feed_entries db)) \<and> e \<notin> set (beyond f (young f (clock db) (feed_entries db))))"
proof -
  have ok: "feeds_ok db" "distinct (map fentID (feed_entries db))" "distinct (map rowID (feeds db))"
    using inv by (simp_all add: feeds_inv_def entries_ok_def feeds_ok_def)
  have "pg_EnforceAllFeedRetention db = sweep_each (feeds db) 0 db"
    using all_sweep [OF inv nf] sweep_each_result [OF ok(3,2) nf, of 0] by (simp add: without_def Let_def)
  moreover have "e \<in> set (entries_of (rowID f) (snd (pg_EnforceAllFeedRetention db)))
         \<longleftrightarrow> e \<in> set (young f (clock db) (feed_entries db)) \<and> e \<notin> set (beyond f (young f (clock db) (feed_entries db)))"
    if "f \<in> set (feeds db)" for f e
    using feed_unique(1) [OF ok(1) _ that] that
    by (auto simp: all_sweep [OF inv nf] without_def entries_of_def removed_def young_def)
  ultimately show ?thesis by blast
qed

definition old_feed :: FeedRecord where
  "old_feed = demo_feed\<lparr>CurrentSequence := 3, MaxEntries := Some 1, MaxAgeDays := Some 1\<rparr>"

definition old_entry :: "int \<Rightarrow> millis \<Rightarrow> FeedEntryRecord" where
  "old_entry n t = appended_entry (10 + n) (rowID demo_feed) n [] t ''61'' []"

theorem retention_sweeps_agree_witness:
  "let db = (empty_stores 100000000)\<lparr>feeds := [old_feed], feed_entries := [old_entry 1 0, old_entry 2 90000000, old_entry 3 95000000], store_next := 20\<rparr>
   in feed_entries (snd (sweep_each [old_feed] 0 db)) = [old_entry 3 95000000] \<and> pg_EnforceAllFeedRetention db = sweep_each [old_feed] 0 db"
proof -
  let ?db = "(empty_stores 100000000)\<lparr>feeds := [old_feed], feed_entries := [old_entry 1 0, old_entry 2 90000000, old_entry 3 95000000], store_next := 20\<rparr>"
  have inv: "feeds_inv ?db" "faults ?db = []"
    by (simp_all add: feeds_inv_defs old_feed_def demo_feed_def old_entry_def appended_entry_def empty_stores_def)
  have agree: "pg_EnforceAllFeedRetention ?db = sweep_each (feeds ?db) 0 ?db" using retention_sweeps_agree [OF inv] by blast
  have "feed_entries (snd (pg_EnforceAllFeedRetention ?db)) = [old_entry 3 95000000]"
    unfolding all_sweep [OF inv]
    by (simp add: without_def removed_def young_def beyond_def old_feed_def demo_feed_def old_entry_def appended_entry_def
        empty_stores_def too_old_def day_ms_def)
  then show ?thesis using agree by (simp add: Let_def)
qed

end
