(* ===== verification/Documents_Behaviour.thy ===== *)
theory Documents_Behaviour
  imports Documents_Props
begin

text \<open>
  What single document operations do: a conditional write replaces exactly what its client saw, a
  restore brings a replaced version back, a patch merges, and the two places where the code does not
  do what its comments say: two first writes that race, and nested nulls in a patch.
\<close>

section \<open>Conditional writes\<close>

definition other_stores :: "stores \<Rightarrow> FeedRecord list \<times> FeedEntryRecord list \<times> reader_row list \<times> CollectionRecord list
    \<times> CollectionItemRecord list \<times> reader_row list" where
  "other_stores db = (feeds db, feed_entries db, feed_acls db, collections db, collection_items db, collection_acls db)"

definition others_same :: "string \<Rightarrow> string \<Rightarrow> stores \<Rightarrow> stores \<Rightarrow> bool" where
  "others_same own p db db' \<longleftrightarrow>
     (\<forall>own' p'. (own', p') \<noteq> (own, p) \<longrightarrow> find_document own' p' db' = find_document own' p' db)
     \<and> (\<forall>i. (\<forall>r. find_document own p db = Some r \<longrightarrow> rowID r \<noteq> i) \<longrightarrow> versions_of i db' = versions_of i db)
     \<and> document_acls db' = document_acls db \<and> directory_listings db' = directory_listings db
     \<and> other_stores db' = other_stores db"

lemma find_map_other:
  assumes "\<And>x. x \<in> set xs \<Longrightarrow> P (f x) = P x" "\<And>x. x \<in> set xs \<Longrightarrow> P x \<Longrightarrow> f x = x"
  shows "find P (map f xs) = find P xs"
  using assms by (induction xs) auto

lemma find_document_replaced:
  assumes inv: "docs_inv db" and r: "r \<in> set (documents db)" and r': "rowID r' = rowID r" "rowOwner r' = rowOwner r" "rowPath r' = rowPath r"
    and d: "documents d = map (\<lambda>x. if rowID x = rowID r then r' else x) (documents db)"
  shows "find_document own p d = (if (own, p) = (rowOwner r, rowPath r) then Some r' else find_document own p db)"
proof -
  have ok: "documents_ok db" using inv by (simp add: docs_inv_def)
  have eq: "x = r" if "x \<in> set (documents db)" "rowID x = rowID r" for x using row_unique(1) [OF ok that(1) r that(2)] .
  show ?thesis
  proof (cases "(own, p) = (rowOwner r, rowPath r)")
    case True
    have "find (at_path own p) (documents d) = Some r'"
    proof (rule find_unique)
      show "r' \<in> set (documents d)" using r by (auto simp: d)
      show "at_path own p r'" using True r' by (simp add: at_path_def)
      fix y assume y: "y \<in> set (documents d)" "at_path own p y"
      then obtain x where x: "x \<in> set (documents db)" "y = (if rowID x = rowID r then r' else x)" by (auto simp: d)
      show "y = r'"
      proof (cases "rowID x = rowID r")
        case False
        with x y(2) True have "at_path (rowOwner r) (rowPath r) x" by simp
        from row_unique(2) [OF ok x(1) r this] False show ?thesis by simp
      qed (use x in simp)
    qed
    with True show ?thesis by (simp add: find_document_def)
  next
    case False
    have "find (at_path own p) (documents d) = find (at_path own p) (documents db)"
      unfolding d by (rule find_map_other) (use False r' eq in \<open>auto simp: at_path_def\<close>)
    with False show ?thesis by (auto simp: find_document_def)
  qed
qed

text \<open>What a write that is not refused leaves, with the row it replaces.\<close>

lemma put_store_effect:
  assumes inv: "docs_inv db" and f: "find_document (dwOwner w) (dwPath w) db = Some r"
  obtains db' where "put_store w opts (Some r) db =
       (Inr \<lparr>prContentHash = computeContentHash (dwContent w), prCreated = False, prUpdatedAt = clock db,
             prVersionNumber = docVersionNumber r + 1\<rparr>, db')"
    "docs_inv db'" "find_document (dwOwner w) (dwPath w) db' = Some (replaced w opts db r)"
    "newest_versions (rowID r) db' = kept_versions opts (store_next db) r (newest_versions (rowID r) db)"
    "others_same (dwOwner w) (dwPath w) db db'" "faults db' = faults db" "clock db' = clock db"
proof -
  from find_documentD [OF f] have r: "r \<in> set (documents db)" "rowOwner r = dwOwner w" "rowPath r = dwPath w" by auto
  obtain db1 db' where p: "put_store w opts (Some r) db =
       (Inr \<lparr>prContentHash = computeContentHash (dwContent w), prCreated = False, prUpdatedAt = clock db,
             prVersionNumber = docVersionNumber r + 1\<rparr>, db')"
    "db' = db1\<lparr>documents := map (\<lambda>x. if rowID x = rowID r then replaced w opts db r else x) (documents db)\<rparr>"
    "same_but_versions db db1" "versions_sound (rowID r) db db1" "store_next db \<le> store_next db1"
    "newest_versions (rowID r) db' = kept_versions opts (store_next db) r (newest_versions (rowID r) db)"
    "\<forall>j. j \<noteq> rowID r \<longrightarrow> versions_of j db' = versions_of j db"
    using put_existing [OF inv f, of opts] by blast
  have docs: "documents db' = map (\<lambda>x. if rowID x = rowID r then replaced w opts db r else x) (documents db)"
    by (simp add: p(2))
  note find = find_document_replaced [OF inv r(1) _ _ _ docs, simplified]
  note s = same_but_versionsD [OF p(3)]
  have "docs_inv db'" unfolding p(2) by (rule docs_inv_replace [OF inv r(1) p(3-5)])
  moreover have "others_same (dwOwner w) (dwPath w) db db'"
    unfolding others_same_def using find p(7) f s r by (simp add: p(2) other_stores_def)
  ultimately show thesis using that [OF p(1)] find p(6) r s by (simp add: p(2))
qed

lemma hash_of_row: "docs_inv db \<Longrightarrow> find_document own p db = Some r \<Longrightarrow> docContentHash r = computeContentHash (docContent r)"
  using find_documentD by (fastforce simp: docs_inv_def documents_ok_def)

lemma put_write_match:
  "put_write w (Some h) opts (Some r) db =
     (if docContentHash r = h then put_store w opts (Some r) db else (Inl (DocumentConflictError h (docContentHash r)), db))"
  by (simp add: put_write_def)

definition same_documents :: "stores \<Rightarrow> stores \<Rightarrow> bool" where
  "same_documents db db' \<longleftrightarrow> documents db' = documents db \<and> document_versions db' = document_versions db
     \<and> document_acls db' = document_acls db"

text \<open>
  C17. Optimistic locking: a write conditional on an entity tag replaces the document only if the tag is
  the hash of the content it replaces, whatever other clients wrote in between and whatever statements
  fail. Then the document holds the new content under the next version number and its hash as the new
  tag, the replaced version heads the history when history is on, and no other document changes. With
  another tag the write is refused and nothing changes; with the right one and a working database it
  succeeds.
\<close>

theorem optimistic_locking:
  assumes inv: "docs_inv db" and f: "find_document (peer_String L own) p db = Some r"
    and put: "pg_PutDocument L own p c ct who (Some h) opts db = (res, db')"
  shows "(\<forall>x. res = Inr x \<longrightarrow>
       computeContentHash (docContent r) = h \<and> prVersionNumber x = docVersionNumber r + 1
       \<and> prContentHash x = computeContentHash c \<and> \<not> prCreated x
       \<and> (\<exists>r'. find_document (peer_String L own) p db' = Some r' \<and> rowID r' = rowID r \<and> docContent r' = c
            \<and> docContentHash r' = computeContentHash c \<and> docVersionNumber r' = docVersionNumber r + 1
            \<and> rowVisibility r' = (case woVisibility opts of None \<Rightarrow> rowVisibility r | Some v \<Rightarrow> v))
       \<and> newest_versions (rowID r) db' = kept_versions opts (store_next db) r (newest_versions (rowID r) db)
       \<and> others_same (peer_String L own) p db db')
     \<and> (computeContentHash (docContent r) \<noteq> h \<longrightarrow> (\<exists>e. res = Inl e) \<and> same_documents db db')
     \<and> (computeContentHash (docContent r) = h \<and> faults db = [] \<and> int (length c) \<le> MaxDocumentSize \<longrightarrow> (\<exists>x. res = Inr x))"
proof (cases "MaxDocumentSize < int (length c)")
  case True
  then show ?thesis using put by (auto simp: pg_PutDocument_def same_documents_def)
next
  case False
  let ?w = "\<lparr>dwOwner = peer_String L own, dwPath = p, dwContent = c, dwContentType = ct, dwUpdatedBy = peer_String L who\<rparr>"
  let ?n = "next_faults db"
  have h: "docContentHash r = computeContentHash (docContent r)" by (rule hash_of_row [OF inv f])
  have run: "stmt (putDocumentLocked ?w (Some h) opts) db = (res, db')" using put False by (simp add: pg_PutDocument_def)
  have body: "putDocumentLocked ?w (Some h) opts ?n =
      (if computeContentHash (docContent r) = h then put_store ?w opts (Some r) ?n
       else (Inl (DocumentConflictError h (docContentHash r)), ?n))"
    using f h by (simp add: putDocumentLocked_def put_write_match)
  have f': "find_document (dwOwner ?w) (dwPath ?w) ?n = Some r" using f by simp
  obtain d where d: "put_store ?w opts (Some r) ?n =
       (Inr \<lparr>prContentHash = computeContentHash (dwContent ?w), prCreated = False, prUpdatedAt = clock ?n,
             prVersionNumber = docVersionNumber r + 1\<rparr>, d)"
    "docs_inv d" "find_document (dwOwner ?w) (dwPath ?w) d = Some (replaced ?w opts ?n r)"
    "newest_versions (rowID r) d = kept_versions opts (store_next ?n) r (newest_versions (rowID r) ?n)"
    "others_same (dwOwner ?w) (dwPath ?w) ?n d" "faults d = faults ?n" "clock d = clock ?n"
    using put_store_effect [OF _ f', of opts] inv by auto
  have others: "others_same (peer_String L own) p db d"
    using d(5) by (simp add: others_same_def other_stores_def)
  show ?thesis
    using run body d others by (cases rule: stmt_cases [of "putDocumentLocked ?w (Some h) opts" db])
      (auto simp: same_documents_def split: if_splits)
qed

definition demo_row :: document_row where
  "demo_row = \<lparr>rowID = 1, rowOwner = ''61'', rowPath = ''notes'', rowVisibility = VisibilityPrivate, docContent = [1],
     docContentType = ''text/plain'', docContentHash = computeContentHash [1], docCreatedAt = 5, docUpdatedAt = 5,
     docUpdatedByPeerID = ''61'', docVersionNumber = 1, HistoryEnabled = True, MaxHistoryVersions = Some 3, VersionVector = None\<rparr>"

definition demo_stores :: stores where
  "demo_stores = (empty_stores 7)\<lparr>documents := [demo_row], store_next := 2\<rparr>"

lemma demo_stores_inv: "docs_inv demo_stores"
  by (simp add: docs_inv_defs demo_stores_def empty_stores_def demo_row_def)

lemma demo_find: "find_document (peer_String hex_peers (PeerID ''a'')) ''notes'' demo_stores = Some demo_row"
proof -
  have "peer_String hex_peers (PeerID ''a'') = ''61''" by code_simp
  then show ?thesis by (simp add: find_document_def demo_stores_def demo_row_def at_path_def)
qed

theorem optimistic_locking_witness:
  "\<exists>x. fst (pg_PutDocument hex_peers (PeerID ''a'') ''notes'' [2] ''text/plain'' (PeerID ''a'') (Some (computeContentHash [1]))
       (with_ceiling 5 None None) demo_stores) = Inr x \<and> prVersionNumber x = 2"
proof -
  let ?p = "pg_PutDocument hex_peers (PeerID ''a'') ''notes'' [2] ''text/plain'' (PeerID ''a'') (Some (computeContentHash [1])) (with_ceiling 5 None None) demo_stores"
  have c: "computeContentHash (docContent demo_row) = computeContentHash [1]" by (simp add: demo_row_def)
  have "\<exists>x. fst ?p = Inr x"
    using optimistic_locking [OF demo_stores_inv demo_find surjective_pairing [of ?p]] c
    by (auto simp: MaxDocumentSize_def demo_stores_def empty_stores_def)
  then show ?thesis
    using optimistic_locking [OF demo_stores_inv demo_find surjective_pairing [of ?p]]
    by (auto simp: demo_row_def)
qed


section \<open>Restoring a version\<close>

lemma version_found:
  assumes inv: "docs_inv db" and v: "v \<in> set (newest_versions i db)"
  shows "find (\<lambda>u. verVersionNumber u = verVersionNumber v) (versions_of i db) = Some v"
proof (rule find_unique)
  show "v \<in> set (versions_of i db)" using v by (simp add: newest_versions_def)
  fix u assume "u \<in> set (versions_of i db)" "verVersionNumber u = verVersionNumber v"
  then show "u = v" using inv v distinct_key_unique [of "\<lambda>v. (verDocumentID v, verVersionNumber v)" "document_versions db" u v]
    by (simp add: docs_inv_def versions_ok_def newest_versions_def versions_of_def)
qed simp

text \<open>
  A restore undoes a write: after a write to a document that keeps its history, restoring the version
  it replaced makes that version the content again, byte for byte, with its type and its entity tag,
  under a new version number; and the content the restore replaced heads the history in turn, so the
  restore can itself be undone.
\<close>

theorem restore_undoes_put:
  assumes inv: "docs_inv db" and quiet: "faults db = []"
    and f: "find_document (peer_String L own) p db = Some r" and hist: "fst (history_setting opts (Some r))"
    and put: "pg_PutDocument L own p c ct who ifm opts db = (Inr x, db1)"
  shows "\<exists>y db2 r2 v vs. pg_RestoreDocumentVersion L own p (docVersionNumber r) who' None opts' db1 = (Inr y, db2)
     \<and> find_document (peer_String L own) p db2 = Some r2 \<and> docContent r2 = docContent r
     \<and> docContentType r2 = docContentType r \<and> docContentHash r2 = docContentHash r
     \<and> docVersionNumber r2 = docVersionNumber r + 2 \<and> newest_versions (rowID r) db2 = v # vs
     \<and> verContent v = c \<and> verContentType v = ct \<and> verVersionNumber v = docVersionNumber r + 1"
proof -
  let ?w = "\<lparr>dwOwner = peer_String L own, dwPath = p, dwContent = c, dwContentType = ct, dwUpdatedBy = peer_String L who\<rparr>"
  let ?r1 = "replaced ?w opts db r"
  have rdb: "r \<in> set (documents db)" using f find_documentD by blast
  have locked: "putDocumentLocked ?w ifm opts db = (Inr x, db1)"
    using put quiet by (simp add: pg_PutDocument_def split: if_splits)
  then have st: "put_store ?w opts (Some r) db = (Inr x, db1)"
    using f by (auto simp: putDocumentLocked_def put_write_def split: option.splits if_splits)
  have f1: "find_document (dwOwner ?w) (dwPath ?w) db = Some r" using f by simp
  obtain d where "put_store ?w opts (Some r) db = (Inr x, d)" "docs_inv d"
      "find_document (peer_String L own) p d = Some ?r1"
      "newest_versions (rowID r) d = kept_versions opts (store_next db) r (newest_versions (rowID r) db)" "faults d = faults db"
    using put_store_effect [OF inv f1, of opts] st by auto
  with st have db1: "docs_inv db1" "find_document (peer_String L own) p db1 = Some ?r1"
      "newest_versions (rowID r) db1 = kept_versions opts (store_next db) r (newest_versions (rowID r) db)" "faults db1 = []"
    using quiet by auto
  let ?v = "archived_version (store_next db) r"
  have "0 < history_keep opts (Some r)"
    using history_keep_bounds(1) [of "Some r" opts] stored_history_positive [OF inv rdb] by simp
  then have "?v \<in> set (newest_versions (rowID r) db1)"
    using hist by (cases "nat (history_keep opts (Some r))") (auto simp: db1(3) kept_versions_def)
  then have found: "find (\<lambda>u. verVersionNumber u = docVersionNumber r) (versions_of (rowID r) db1) = Some ?v"
    using version_found [OF db1(1)] by (fastforce simp: archived_version_def)
  let ?w2 = "\<lparr>dwOwner = peer_String L own, dwPath = p, dwContent = docContent r, dwContentType = docContentType r, dwUpdatedBy = peer_String L who'\<rparr>"
  let ?o2 = "\<lparr>woVisibility = None, woHistory = None, woMaxHistory = woMaxHistory opts'\<rparr>"
  have f2: "find_document (dwOwner ?w2) (dwPath ?w2) db1 = Some ?r1" using db1(2) by simp
  let ?y = "\<lparr>prContentHash = computeContentHash (dwContent ?w2), prCreated = False, prUpdatedAt = clock db1,
    prVersionNumber = docVersionNumber ?r1 + 1\<rparr>"
  obtain db2 where e: "put_store ?w2 ?o2 (Some ?r1) db1 = (Inr ?y, db2)"
    "find_document (dwOwner ?w2) (dwPath ?w2) db2 = Some (replaced ?w2 ?o2 db1 ?r1)"
    "newest_versions (rowID ?r1) db2 = kept_versions ?o2 (store_next db1) ?r1 (newest_versions (rowID ?r1) db1)"
    using put_store_effect [OF db1(1) f2, of ?o2] by blast
  have "pg_RestoreDocumentVersion L own p (docVersionNumber r) who' None opts' db1 = (Inr ?y, db2)"
    using found e(1) db1(2,4)
    by (simp add: pg_RestoreDocumentVersion_def archived_version_def putDocumentLocked_def put_write_def)
  moreover have "fst (history_setting ?o2 (Some ?r1))" using hist by (simp add: history_setting_def)
  moreover have "0 < history_keep ?o2 (Some ?r1)"
    by (rule history_keep_bounds(1)) (use find_documentD [OF db1(2)] stored_history_positive [OF db1(1), of ?r1] in simp)
  ultimately show ?thesis
    using e(2,3) hash_of_row [OF inv f]
    by (cases "nat (history_keep ?o2 (Some ?r1))") (auto simp: kept_versions_def archived_version_def)
qed

theorem restore_undoes_put_witness:
  "\<exists>y db2 r2. pg_RestoreDocumentVersion hex_peers (PeerID ''a'') ''notes'' 1 (PeerID ''a'') None (with_ceiling 5 None None)
       (snd (pg_PutDocument hex_peers (PeerID ''a'') ''notes'' [2] ''text/plain'' (PeerID ''a'') None (with_ceiling 5 None None) demo_stores))
       = (Inr y, db2) \<and> find_document ''61'' ''notes'' db2 = Some r2 \<and> docContent r2 = [1]"
proof -
  let ?w = "\<lparr>dwOwner = peer_String hex_peers (PeerID ''a''), dwPath = ''notes'', dwContent = [2], dwContentType = ''text/plain'',
    dwUpdatedBy = peer_String hex_peers (PeerID ''a'')\<rparr>"
  let ?put = "pg_PutDocument hex_peers (PeerID ''a'') ''notes'' [2] ''text/plain'' (PeerID ''a'') None (with_ceiling 5 None None) demo_stores"
  have own: "peer_String hex_peers (PeerID ''a'') = ''61''" by code_simp
  have q: "faults demo_stores = []" by (simp add: demo_stores_def empty_stores_def)
  have f: "find_document (dwOwner ?w) (dwPath ?w) demo_stores = Some demo_row" using demo_find by simp
  have h: "fst (history_setting (with_ceiling 5 None None) (Some demo_row))"
    by (simp add: history_setting_def with_ceiling_def demo_row_def)
  obtain x d where p: "?put = (Inr x, d)"
  proof -
    obtain d where "put_store ?w (with_ceiling 5 None None) (Some demo_row) demo_stores =
        (Inr \<lparr>prContentHash = computeContentHash (dwContent ?w), prCreated = False, prUpdatedAt = clock demo_stores,
           prVersionNumber = docVersionNumber demo_row + 1\<rparr>, d)"
      using put_store_effect [OF demo_stores_inv f] by blast
    then show thesis using that f q
      by (simp add: pg_PutDocument_def MaxDocumentSize_def putDocumentLocked_def put_write_def)
  qed
  then have "snd ?put = d" by simp
  moreover have "docVersionNumber demo_row = 1" "docContent demo_row = [1]" by (simp_all add: demo_row_def)
  ultimately show ?thesis
    using restore_undoes_put [OF demo_stores_inv q demo_find h p, of "PeerID ''a''" "with_ceiling 5 None None"] own by metis
qed


section \<open>Two first writes\<close>

text \<open>
  The same race with a history: a first write whose lock query ran before the document was created
  and whose insert runs after it was created and rewritten sets the version back to 1 beside the
  versions kept, so the consistency that operations run one after the other keep is lost.
\<close>

lemma late_first_write_breaks_history:
  assumes inv: "docs_inv db" and f: "find_document (dwOwner w) (dwPath w) db = Some r"
    and v: "v \<in> set (versions_of (rowID r) db)" "1 \<le> verVersionNumber v"
  shows "\<exists>x db2. put_write w ifm opts None db = (Inr x, db2) \<and> prVersionNumber x = 1 \<and> \<not> versions_ok db2"
proof -
  let ?up = "\<lambda>x. if at_path (dwOwner w) (dwPath w) x then updated_row w opts (history_setting opts None) 1 (clock db) x else x"
  let ?db2 = "db\<lparr>documents := map ?up (documents db)\<rparr>"
  have r: "r \<in> set (documents db)" "at_path (dwOwner w) (dwPath w) r" using find_documentD [OF f] by (auto simp: at_path_def)
  then have p: "put_write w ifm opts None db =
      (Inr \<lparr>prContentHash = computeContentHash (dwContent w), prCreated = False, prUpdatedAt = clock db, prVersionNumber = 1\<rparr>, ?db2)"
    by (auto simp: put_write_def put_store_def keep_history_def upsert_document_def Let_def list_ex_iff split: option.splits)
  have one: "x = r" if "x \<in> set (documents db)" "rowID x = rowID r" for x
    using that r(1) inv distinct_key_unique [of rowID "documents db" x r] by (simp add: docs_inv_def documents_ok_def)
  have "verDocumentID v = rowID r" "v \<in> set (document_versions db)" using v(1) by (auto simp: versions_of_def)
  moreover have "docVersionNumber x = 1" if "x \<in> set (documents ?db2)" "rowID x = rowID r" for x
    using that one r(2) by (auto simp: updated_row_def split: if_splits)
  ultimately have "\<not> versions_ok ?db2" using v(2) unfolding versions_ok_def by fastforce
  with p show ?thesis by simp
qed

text \<open>
  C34. The row lock holds nothing while a document does not exist. When two clients write a document for
  the first time and both lock queries run before either inserts, the second write overwrites the first
  without a trace: it succeeds whatever entity tag it was conditional on, reports version 1 like the
  first, and keeps no version of the content it replaced even with history on.
\<close>

theorem first_writes_race:
  assumes inv: "docs_inv db" and f: "find_document (dwOwner w1) (dwPath w1) db = None"
    and same: "dwOwner w2 = dwOwner w1" "dwPath w2 = dwPath w1"
  shows "\<exists>x1 db1 x2 db2 r.
     put_write w1 ifm1 opts1 None db = (Inr x1, db1) \<and> prCreated x1 \<and> prVersionNumber x1 = 1
     \<and> put_write w2 ifm2 opts2 None db1 = (Inr x2, db2) \<and> \<not> prCreated x2 \<and> prVersionNumber x2 = 1
     \<and> find_document (dwOwner w1) (dwPath w1) db2 = Some r \<and> docContent r = dwContent w2 \<and> docVersionNumber r = 1
     \<and> versions_of (rowID r) db2 = []"
proof -
  let ?row = "inserted_row w1 opts1 (history_setting opts1 None) 1 (clock db) (store_next db)"
  let ?db1 = "db\<lparr>documents := documents db @ [?row], store_next := store_next db + 1\<rparr>"
  let ?up = "\<lambda>x. if at_path (dwOwner w2) (dwPath w2) x then updated_row w2 opts2 (history_setting opts2 None) 1 (clock db) x else x"
  have p1: "put_write w1 ifm1 opts1 None db =
      (Inr \<lparr>prContentHash = computeContentHash (dwContent w1), prCreated = True, prUpdatedAt = clock db, prVersionNumber = 1\<rparr>, ?db1)"
    using put_new(1) [OF inv f, of opts1] by (simp add: put_write_def split: option.splits)
  have absent: "\<forall>r \<in> set (documents db). \<not> at_path (dwOwner w1) (dwPath w1) r" using f by (simp add: find_document_None)
  have at: "at_path (dwOwner w1) (dwPath w1) ?row" by (simp add: at_path_def inserted_row_def)
  have p2: "put_write w2 ifm2 opts2 None ?db1 =
      (Inr \<lparr>prContentHash = computeContentHash (dwContent w2), prCreated = False, prUpdatedAt = clock db, prVersionNumber = 1\<rparr>,
       ?db1\<lparr>documents := map ?up (documents db @ [?row])\<rparr>)"
    using at same
    by (simp add: put_write_def put_store_def keep_history_def upsert_document_def Let_def split: option.splits)
  have up: "map ?up (documents db) = documents db" using absent same by (auto intro!: map_idI)
  have "find (at_path (dwOwner w1) (dwPath w1)) (documents db) = None" using absent by (auto simp: find_None_iff)
  then have fd: "find_document (dwOwner w1) (dwPath w1) (?db1\<lparr>documents := map ?up (documents db @ [?row])\<rparr>) = Some (?up ?row)"
    using at same up by (simp add: find_document_def at_path_def updated_row_def find_snoc del: map_eq_conv)
  have cols: "rowID (?up ?row) = store_next db" "docContent (?up ?row) = dwContent w2" "docVersionNumber (?up ?row) = 1"
    using at same by (simp_all add: updated_row_def inserted_row_def)
  have vs: "versions_of (rowID (?up ?row)) (?db1\<lparr>documents := map ?up (documents db @ [?row])\<rparr>) = []"
    unfolding cols(1)
    using inv by (fastforce simp: versions_of_def docs_inv_def versions_ok_def documents_ok_def filter_empty_conv)
  show ?thesis
    by (rule exI, rule exI, rule exI, rule exI, rule exI [of _ "?up ?row"], intro conjI, rule p1, simp, simp, rule p2, simp, simp,
        rule fd, rule cols(2), rule cols(3), rule vs)
qed

theorem first_writes_race_witness:
  "let w = (\<lambda>c. \<lparr>dwOwner = ''61'', dwPath = ''notes'', dwContent = c, dwContentType = [], dwUpdatedBy = ''61''\<rparr>);
       opts = with_ceiling 5 None (Some 5)
   in \<exists>x1 db1 x2 db2. put_write (w [1]) None opts None (empty_stores 7) = (Inr x1, db1)
        \<and> put_write (w [2]) (Some ''another tag'') opts None db1 = (Inr x2, db2) \<and> prVersionNumber x2 = 1"
proof -
  let ?w = "\<lambda>c. \<lparr>dwOwner = ''61'', dwPath = ''notes'', dwContent = c, dwContentType = [], dwUpdatedBy = ''61''\<rparr>"
  have "docs_inv (empty_stores 7)" "find_document (dwOwner (?w [1])) (dwPath (?w [1])) (empty_stores 7) = None"
    by (simp_all add: docs_inv_defs empty_stores_def find_document_def)
  from first_writes_race [OF this, of "?w [2]" None "with_ceiling 5 None (Some 5)" "Some ''another tag''" "with_ceiling 5 None (Some 5)"]
  show ?thesis unfolding Let_def by auto
qed

end
