(* ===== verification/Directory_Props.thy ===== *)
theory Directory_Props
  imports Directory Stores_Props
begin

text \<open>
  Browsing the directory page by page: a client that follows the cursors sees every listing that
  matches, once, in order, and reaches the end.
\<close>

section \<open>Cursors\<close>

text \<open>What the cursors rely on of the time package: the text of a time is not empty and parses back.\<close>

definition time_texts_ok :: "dir_lib \<Rightarrow> bool" where
  "time_texts_ok D \<longleftrightarrow> (\<forall>t. dlFormat D t \<noteq> [] \<and> dlParse D (dlFormat D t) = Inr t)"

lemma parse_cursor_format:
  assumes "time_texts_ok D" "CHR '':'' \<notin> set owner" "owner \<noteq> []"
  shows "parse_cursor D (dlFormat D t @ '':'' @ owner) = Inr (Some (t, owner))"
proof -
  have "index_char (CHR '':'') (rev owner @ CHR '':'' # rev (dlFormat D t)) = Some (length owner)"
    using assms(2) index_char_append [of "CHR '':''" "rev owner"] by simp
  then show ?thesis using assms by (simp add: parse_cursor_def time_texts_ok_def Let_def)
qed


section \<open>Order of the listings\<close>

definition listings_ok :: "stores \<Rightarrow> bool" where
  "listings_ok db \<longleftrightarrow> distinct (map dirOwnerPeerID (directory_listings db))
     \<and> (\<forall>e \<in> set (directory_listings db). dirOwnerPeerID e \<noteq> [] \<and> CHR '':'' \<notin> set (dirOwnerPeerID e))"

definition entry_key :: "collation \<Rightarrow> DirectoryEntry \<Rightarrow> int list" where
  "entry_key C e = dir_key C (dirUpdatedAt e) (dirOwnerPeerID e)"

lemma browse_rows_alt:
  "browse_rows C m cur db = filter (\<lambda>e. case cur of None \<Rightarrow> True | Some (t, p) \<Rightarrow> entry_key C e < dir_key C t p) (browse_rows C m None db)"
  by (simp add: browse_rows_def entry_key_def rev_filter [symmetric] filter_sort conj_commute split: option.splits)

lemma browse_rows_set: "set (browse_rows C m None db) = {e \<in> set (directory_listings db). m e}"
  by (auto simp: browse_rows_def)

lemma browse_rows_descending:
  assumes "inj C" "distinct (map dirOwnerPeerID (directory_listings db))"
  shows "sorted_wrt (\<lambda>a b. entry_key C b < entry_key C a) (browse_rows C m None db)"
proof -
  let ?xs = "sort_key (entry_key C) (filter m (directory_listings db))"
  have inj: "inj_on (entry_key C) (set ?xs)"
    using assms by (auto simp: inj_on_def entry_key_def dir_key_def distinct_map inj_def)
  have "distinct ?xs" using assms(2) by (simp add: distinct_map)
  with inj have "distinct (map (entry_key C) ?xs)" by (simp add: distinct_map)
  then have "sorted_wrt (<) (map (entry_key C) ?xs)" by (simp add: strict_sorted_iff)
  then show ?thesis
    by (simp add: browse_rows_def entry_key_def [abs_def] sorted_wrt_map sorted_wrt_rev)
qed

lemma filter_below_descending:
  assumes "sorted_wrt (\<lambda>a b. f b < f a) xs" "j < length xs"
  shows "filter (\<lambda>e. f e < (f (xs ! j) :: 'k :: linorder)) xs = drop (Suc j) xs"
  using assms
proof (induction xs arbitrary: j)
  case (Cons x xs)
  show ?case
  proof (cases j)
    case 0
    with Cons.prems show ?thesis by (auto intro: filter_True)
  next
    case (Suc i)
    with Cons.prems have "\<not> f x < f (xs ! i)" by (auto simp: not_less intro: less_imp_le)
    with Suc Cons show ?thesis by simp
  qed
qed simp


section \<open>Following the cursors\<close>

text \<open>A client that asks for pages until none is left; \<open>None\<close> when it was refused or gave up after \<open>n\<close> pages.\<close>

fun browse_all :: "dir_lib \<Rightarrow> collation \<Rightarrow> string \<Rightarrow> int \<Rightarrow> nat \<Rightarrow> string \<Rightarrow> stores \<Rightarrow> DirectoryEntry list option" where
  "browse_all D C query limit 0 cursor db = None"
| "browse_all D C query limit (Suc n) cursor db =
     (case pg_BrowseDirectory D C query cursor limit db of
        (Inl e, db1) \<Rightarrow> None
      | (Inr page, db1) \<Rightarrow>
          if pgHasMore page then map_option ((@) (pgEntries page)) (browse_all D C query limit n (pgNextCursor page) db1)
          else Some (pgEntries page))"

definition matching :: "dir_lib \<Rightarrow> string \<Rightarrow> DirectoryEntry \<Rightarrow> bool" where
  "matching D query e \<longleftrightarrow> TrimSpace query = []
     \<or> (\<exists>q. prefixTSQuery D (TrimSpace query) = Some q \<and> dlSearch D q (listing_text e))"

lemma browse_limit_bounds: "1 \<le> browse_limit l" "browse_limit l \<le> 100"
  by (auto simp: browse_limit_def Let_def)

lemma browse_page_parts:
  assumes "1 \<le> l" "browse_rows C m cur db = ys"
  shows "pgEntries (browse_page D C m cur l db) = take (nat l) ys"
    "pgHasMore (browse_page D C m cur l db) \<longleftrightarrow> l < int (length ys)"
    "l < int (length ys) \<Longrightarrow> pgNextCursor (browse_page D C m cur l db) =
       dlFormat D (dirUpdatedAt (ys ! (nat l - 1))) @ '':'' @ dirOwnerPeerID (ys ! (nat l - 1))"
proof -
  have min: "min (nat l) (nat (l + 1)) = nat l" using assms(1) by simp
  have "last (take (nat l) ys) = ys ! (nat l - 1)" if "l < int (length ys)"
  proof -
    have "take (nat l) ys \<noteq> []" "length (take (nat l) ys) = nat l" using that assms(1) by auto
    then show ?thesis using assms(1) by (simp add: last_conv_nth)
  qed
  then show "pgEntries (browse_page D C m cur l db) = take (nat l) ys"
    "pgHasMore (browse_page D C m cur l db) \<longleftrightarrow> l < int (length ys)"
    "l < int (length ys) \<Longrightarrow> pgNextCursor (browse_page D C m cur l db) =
       dlFormat D (dirUpdatedAt (ys ! (nat l - 1))) @ '':'' @ dirOwnerPeerID (ys ! (nat l - 1))"
    using assms min by (auto simp: browse_page_def Let_def)
qed

lemma browse_all_from:
  assumes ok: "time_texts_ok D" "inj C" "listings_ok db" and quiet: "faults db = []"
    and q: "int (length (TrimSpace query)) \<le> MaxDirectoryQueryLength"
           "TrimSpace query = [] \<or> prefixTSQuery D (TrimSpace query) \<noteq> None"
    and cur: "parse_cursor D cursor = Inr cur" "browse_rows C (matching D query) cur db = drop j (browse_rows C (matching D query) None db)"
    and n: "length (browse_rows C (matching D query) None db) - j < n"
  shows "browse_all D C query limit n cursor db = Some (drop j (browse_rows C (matching D query) None db))"
  using cur n
proof (induction n arbitrary: cursor cur j)
  case (Suc n)
  let ?m = "matching D query" and ?l = "browse_limit limit"
  let ?xs = "browse_rows C ?m None db"
  let ?page = "browse_page D C ?m cur ?l db"
  have l: "1 \<le> ?l" by (rule browse_limit_bounds)
  have "(\<lambda>e. TrimSpace query = [] \<or> dlSearch D (the (prefixTSQuery D (TrimSpace query))) (listing_text e)) = ?m"
    using q(2) by (auto simp: matching_def)
  then have page: "pg_BrowseDirectory D C query cursor limit db = (Inr ?page, db)"
    using q Suc.prems(1) quiet by (auto simp: pg_BrowseDirectory_def Let_def)
  note parts = browse_page_parts [OF l Suc.prems(2)]
  show ?case
  proof (cases "?l < int (length (drop j ?xs))")
    case False
    then show ?thesis using page parts by simp
  next
    case True
    let ?e = "drop j ?xs ! (nat ?l - 1)" and ?j = "j + nat ?l"
    have lt: "j + (nat ?l - 1) < length ?xs" using True l by simp
    have e: "?e = ?xs ! (j + (nat ?l - 1))" using lt by (simp add: nth_drop)
    have "?e \<in> set (directory_listings db)" using lt e browse_rows_set by (metis (no_types, lifting) mem_Collect_eq nth_mem)
    then have ce: "parse_cursor D (pgNextCursor ?page) = Inr (Some (dirUpdatedAt ?e, dirOwnerPeerID ?e))"
      unfolding parts(3) [OF True, of D] using ok(1,3) by (intro parse_cursor_format) (auto simp: listings_ok_def)
    have "browse_rows C ?m (Some (dirUpdatedAt ?e, dirOwnerPeerID ?e)) db = filter (\<lambda>x. entry_key C x < entry_key C ?e) ?xs"
      by (subst browse_rows_alt) (simp add: entry_key_def)
    also have "\<dots> = drop (Suc (j + (nat ?l - 1))) ?xs"
      unfolding e by (rule filter_below_descending [OF browse_rows_descending lt]) (use ok in \<open>simp_all add: listings_ok_def\<close>)
    also have "Suc (j + (nat ?l - 1)) = ?j" using l by simp
    finally have rows: "browse_rows C ?m (Some (dirUpdatedAt ?e, dirOwnerPeerID ?e)) db = drop ?j ?xs" .
    have "length ?xs - ?j < n" using Suc.prems(3) lt l by simp
    note rest = Suc.IH [OF ce rows this]
    have "take (nat ?l) (drop j ?xs) @ drop ?j ?xs = drop j ?xs"
      using append_take_drop_id [of "nat ?l" "drop j ?xs"] by (simp add: add.commute)
    then show ?thesis using page rest parts(1,2) True by simp
  qed
qed simp

text \<open>
  Browsing the directory ends and misses nothing: a client that starts without a cursor and follows
  the cursors it is given, while the database answers and no listing changes, gets every listing that
  matches its query exactly once, the most recently updated first, in at most one page more than there are listings.
\<close>

theorem browsing_reaches_everything:
  assumes "time_texts_ok D" "inj C" "listings_ok db" "faults db = []"
    and "int (length (TrimSpace query)) \<le> MaxDirectoryQueryLength"
  shows "\<exists>es. browse_all D C query limit (Suc (length (directory_listings db))) [] db = Some es
     \<and> distinct es \<and> set es = {e \<in> set (directory_listings db). matching D query e}
     \<and> sorted_wrt (\<lambda>a b. entry_key C b < entry_key C a) es"
proof (cases "TrimSpace query = [] \<or> prefixTSQuery D (TrimSpace query) \<noteq> None")
  case True
  let ?xs = "browse_rows C (matching D query) None db"
  have len: "length ?xs - 0 < Suc (length (directory_listings db))"
    by (simp add: browse_rows_def less_Suc_eq_le)
  have "browse_all D C query limit (Suc (length (directory_listings db))) [] db = Some (drop 0 ?xs)"
    by (rule browse_all_from [OF assms True _ _ len]) (simp_all add: parse_cursor_def)
  moreover have "sorted_wrt (\<lambda>a b. entry_key C b < entry_key C a) ?xs"
    using assms by (intro browse_rows_descending) (simp_all add: listings_ok_def)
  moreover have "distinct ?xs" using assms(3) by (simp add: browse_rows_def listings_ok_def distinct_map)
  ultimately show ?thesis using browse_rows_set by (simp del: browse_all.simps)
next
  case False
  then have "pg_BrowseDirectory D C query [] limit db = (Inr \<lparr>pgEntries = [], pgNextCursor = [], pgHasMore = False\<rparr>, db)"
    using assms(5) by (simp add: pg_BrowseDirectory_def Let_def)
  then show ?thesis using False by (auto simp: matching_def)
qed

definition demo_dir :: dir_lib where
  "demo_dir = \<lparr>dlWords = (\<lambda>q. [q]), dlSearch = (\<lambda>q text. True),
     dlFormat = (\<lambda>t. if t < 0 then CHR ''-'' # replicate (nat (- t)) (CHR ''0'') else CHR ''+'' # replicate (nat t) (CHR ''0'')),
     dlParse = (\<lambda>s. Inr (if hd s = CHR ''-'' then 1 - int (length s) else int (length s) - 1))\<rparr>"

definition demo_listing :: "int \<Rightarrow> string \<Rightarrow> millis \<Rightarrow> DirectoryEntry" where
  "demo_listing i owner t = \<lparr>dirID = i, dirOwnerPeerID = owner, DisplayName = owner, Bio = [], AvatarHash = [], ListedAt = t,
     dirUpdatedAt = t, Extras = None\<rparr>"

theorem browsing_reaches_everything_witness:
  "\<exists>es. browse_all demo_dir (map of_char) [] 1 4 [] ((empty_stores 9)\<lparr>directory_listings :=
       [demo_listing 1 ''61'' 5, demo_listing 2 ''62'' 7, demo_listing 3 ''63'' 5]\<rparr>) = Some es
     \<and> set es = {demo_listing 1 ''61'' 5, demo_listing 2 ''62'' 7, demo_listing 3 ''63'' 5}"
proof -
  let ?ls = "[demo_listing 1 ''61'' 5, demo_listing 2 ''62'' 7, demo_listing 3 ''63'' 5]"
  let ?db = "(empty_stores 9)\<lparr>directory_listings := ?ls\<rparr>"
  have a: "time_texts_ok demo_dir" by (simp add: time_texts_ok_def demo_dir_def)
  have b: "inj (map of_char :: string \<Rightarrow> int list)" by (simp add: inj_mapI inj_def)
  have c: "listings_ok ?db" "faults ?db = []" by (simp_all add: listings_ok_def demo_listing_def empty_stores_def)
  have trim: "TrimSpace [] = []" by code_simp
  then have d: "int (length (TrimSpace [])) \<le> MaxDirectoryQueryLength" by (simp add: MaxDirectoryQueryLength_def)
  have ls: "directory_listings ?db = ?ls" "Suc (length ?ls) = 4" by simp_all
  have m: "{e \<in> set ?ls. matching demo_dir [] e} = set ?ls" using trim by (auto simp: matching_def)
  from browsing_reaches_everything [OF a b c d, of 1, unfolded ls m] obtain es where
    "browse_all demo_dir (map of_char) [] 1 4 [] ?db = Some es" "set es = set ?ls" by blast
  then show ?thesis by (intro exI [of _ es] conjI) (simp_all only: list.set)
qed

end
