(* ===== verification/Sda_Props.thy ===== *)
theory Sda_Props
  imports Sda Documents_Behaviour Directory_Props Maa_Props
begin

text \<open>
  Properties of the document protocol: whatever bytes a peer sends, it changes only what is its own;
  what a peer may not read has no influence on what it is told; and a batch is its documents written
  one after another.
\<close>

section \<open>Steps on the documents of one owner\<close>

definition apart :: "string \<Rightarrow> stores \<Rightarrow> stores \<Rightarrow> bool" where
  "apart own db db' \<longleftrightarrow>
     (\<forall>other p. other \<noteq> own \<longrightarrow> find_document other p db' = find_document other p db)
     \<and> (\<forall>r \<in> set (documents db). rowOwner r \<noteq> own \<longrightarrow> versions_of (rowID r) db' = versions_of (rowID r) db
          \<and> filter (\<lambda>a. rdRow a = rowID r) (document_acls db') = filter (\<lambda>a. rdRow a = rowID r) (document_acls db))
     \<and> filter (\<lambda>e. dirOwnerPeerID e \<noteq> own) (directory_listings db') = filter (\<lambda>e. dirOwnerPeerID e \<noteq> own) (directory_listings db)
     \<and> other_stores db' = other_stores db"

definition own_step :: "int \<Rightarrow> string \<Rightarrow> stores \<Rightarrow> stores \<Rightarrow> bool" where
  "own_step c own db db' \<longleftrightarrow> docs_state c db' \<and> apart own db db'"

lemma apart_refl [simp]: "apart own db db" "apart own db (next_faults db)"
  by (simp_all add: apart_def other_stores_def)

lemma own_step_refl [simp]: "docs_state c db \<Longrightarrow> own_step c own db db" "docs_state c db \<Longrightarrow> own_step c own db (next_faults db)"
  by (simp_all add: own_step_def)

lemma apart_next [simp]: "apart own (next_faults db) db' = apart own db db'" "own_step c own (next_faults db) db' = own_step c own db db'"
  by (simp_all add: apart_def other_stores_def own_step_def)

lemma own_step_trans:
  assumes "docs_state c a" "own_step c own a b" "own_step c own b d"
  shows "own_step c own a d"
proof -
  have ab: "apart own a b" and bd: "apart own b d" using assms(2,3) by (auto simp: own_step_def)
  have "r \<in> set (documents b)" if "r \<in> set (documents a)" "rowOwner r \<noteq> own" for r
    using that ab assms(1) find_at_path [of a r] find_documentD [of "rowOwner r" "rowPath r" b r]
    by (auto simp: apart_def docs_state_def docs_inv_def)
  then show ?thesis using ab bd assms(3) by (auto simp: own_step_def apart_def)
qed

lemma own_stmt:
  assumes "docs_state c db" "own_step c own db (snd (f (next_faults db)))"
  shows "own_step c own db (snd (stmt f db))"
  using assms by (intro stmt_snd_case [where Q = "own_step c own db"]) auto

lemma own_read:
  assumes "docs_state c db" "\<And>d. snd (f d) = d"
  shows "own_step c own db (snd (stmt f db))"
  using assms by (simp add: stmt_read)

lemma other_row:
  assumes "docs_inv db" "find_document own p db = Some r" "r' \<in> set (documents db)" "rowOwner r' \<noteq> own"
  shows "rowID r' \<noteq> rowID r"
  using assms find_documentD [OF assms(2)] row_unique(1) [of db r' r] by (auto simp: docs_inv_def)

lemma put_store_own:
  assumes st: "docs_state c db" and ex: "find_document (dwOwner w) (dwPath w) db = existing" and c: "HistoryCeiling opts \<le> c"
  shows "own_step c (dwOwner w) db (snd (put_store w opts existing db))"
proof -
  have inv: "docs_inv db" using st by (simp add: docs_state_def)
  have "apart (dwOwner w) db (snd (put_store w opts existing db))"
  proof (cases existing)
    case None
    with put_new(1) [OF inv, of w opts] ex show ?thesis
      by (auto simp: apart_def other_stores_def versions_of_def find_document_def find_snoc at_path_def inserted_row_def split: option.splits)
  next
    case (Some r)
    obtain db' where p: "put_store w opts (Some r) db =
       (Inr \<lparr>prContentHash = computeContentHash (dwContent w), prCreated = False, prUpdatedAt = clock db,
             prVersionNumber = docVersionNumber r + 1\<rparr>, db')" "others_same (dwOwner w) (dwPath w) db db'"
      using put_store_effect [OF inv ex [unfolded Some], of opts] by blast
    have "rowID r \<noteq> rowID r'" if "r' \<in> set (documents db)" "rowOwner r' \<noteq> dwOwner w" for r'
      using other_row [OF inv ex [unfolded Some] that] by simp
    then show ?thesis using p Some ex by (auto simp: apart_def others_same_def)
  qed
  then show ?thesis using put_store_state [OF st ex c] by (simp add: own_step_def)
qed

lemma putDocumentLocked_own:
  assumes "docs_state c db" "HistoryCeiling opts \<le> c"
  shows "own_step c (dwOwner w) db (snd (putDocumentLocked w ifm opts db))"
  using put_store_own [OF assms(1) refl assms(2), of w] assms(1)
  by (auto simp: putDocumentLocked_def put_write_def split: option.splits)

lemma locked_own:
  assumes "docs_state c db" "HistoryCeiling opts \<le> c" "own = dwOwner w" "d = next_faults db"
  shows "own_step c own db (snd (putDocumentLocked w ifm opts d))"
  using putDocumentLocked_own [of c d opts w ifm] assms by simp

lemma same_ceiling: "HistoryCeiling opts \<le> c \<Longrightarrow> doc_ceiling (woMaxHistory opts) \<le> c"
  by (auto simp: HistoryCeiling_def doc_ceiling_def)

lemma put_own:
  assumes "docs_state c db" "HistoryCeiling opts \<le> c"
  shows "own_step c (peer_String L own) db (snd (pg_PutDocument L own p ct cty who ifm opts db))"
  using assms by (auto simp: pg_PutDocument_def intro!: own_stmt locked_own)

lemma patch_own:
  assumes "docs_state c db" "HistoryCeiling opts \<le> c"
  shows "own_step c (peer_String L own) db (snd (pg_PatchDocument L J own p patch who ifm opts db))"
  using assms same_ceiling
  by (auto simp: pg_PatchDocument_def split: option.splits sum.splits intro!: own_stmt locked_own)

lemma restore_own:
  assumes "docs_state c db" "HistoryCeiling opts \<le> c"
  shows "own_step c (peer_String L own) db (snd (pg_RestoreDocumentVersion L own p n who ifm opts db))"
  using assms same_ceiling
  by (auto simp: pg_RestoreDocumentVersion_def split: option.splits intro!: own_stmt locked_own)

lemma find_filter_compat: "(\<And>x. P x \<Longrightarrow> Q x) \<Longrightarrow> find P (filter Q xs) = find P xs"
  by (induction xs) auto

lemma delete_own:
  assumes st: "docs_state c db"
  shows "own_step c (peer_String L own) db (snd (pg_DeleteDocument L own p db))"
proof -
  let ?o = "peer_String L own"
  have inv: "docs_inv db" using st by (simp add: docs_state_def)
  have gone: "\<forall>r \<in> set (documents db). \<forall>x \<in> set (documents db). rowOwner r \<noteq> ?o \<longrightarrow> rowOwner x = ?o \<longrightarrow> rowID x \<noteq> rowID r"
    using inv row_unique(1) by (metis docs_inv_def)
  have "apart ?o db (snd (pg_DeleteDocument L own p db))"
    unfolding pg_DeleteDocument_def
    by (rule stmt_snd_case [where Q = "apart ?o db"])
       (use gone in \<open>auto simp: Let_def apart_def other_stores_def find_document_def at_path_def versions_of_def
          intro!: find_filter_compat filter_cong\<close>)
  then show ?thesis using delete_state [OF st, of L own p] by (simp add: own_step_def)
qed

lemma visibility_own:
  assumes st: "docs_state c db"
  shows "own_step c (peer_String L own) db (snd (pg_SetStoreVisibility L StoreDocument own p v db))"
proof -
  let ?o = "peer_String L own"
  have "find (at_path other q) (set_visibility ?o p v rs) = find (at_path other q) rs" if "other \<noteq> ?o" for other q and rs :: "document_row list"
    unfolding set_visibility_def by (rule find_map_other) (use that in \<open>auto simp: at_path_def\<close>)
  then have "apart ?o db (db\<lparr>documents := set_visibility ?o p v (documents db)\<rparr>)"
    by (simp add: apart_def other_stores_def find_document_def versions_of_def)
  then have "own_step c ?o db (db\<lparr>documents := set_visibility ?o p v (documents db)\<rparr>)"
    using visibility_state [OF st] by (simp add: own_step_def)
  then have "own_step c ?o db ((next_faults db)\<lparr>documents := set_visibility ?o p v (documents db)\<rparr>)"
    by (simp add: own_step_def apart_def other_stores_def find_document_def versions_of_def docs_state_def docs_inv_defs
        history_bounded_def next_faults_def)
  then show ?thesis using st
    by (auto simp: pg_SetStoreVisibility_def tablesFor_document intro!: own_stmt)
qed

lemma listings_state:
  "docs_state c (db\<lparr>directory_listings := ls\<rparr>) = docs_state c db"
  "docs_state c (db\<lparr>directory_listings := ls, store_next := n\<rparr>) = docs_state c (db\<lparr>store_next := n\<rparr>)"
  by (simp_all add: docs_state_def docs_inv_defs history_bounded_def versions_of_def)

lemma fresh_id_state: "docs_state c db \<Longrightarrow> docs_state c (db\<lparr>store_next := store_next db + 1\<rparr>)"
  by (fastforce simp: docs_state_def docs_inv_defs history_bounded_def versions_of_def)

lemma remove_listing_own:
  assumes "docs_state c db"
  shows "own_step c own db (snd (pg_RemoveDirectoryEntry own db))"
  unfolding pg_RemoveDirectoryEntry_def
  by (rule own_stmt [OF assms])
     (use assms in \<open>auto simp: own_step_def listings_state apart_def other_stores_def find_document_def versions_of_def intro: filter_cong\<close>)

lemma filter_map_own:
  assumes "\<And>e. dirOwnerPeerID (f e) = dirOwnerPeerID e" "\<And>e. dirOwnerPeerID e \<noteq> own \<Longrightarrow> f e = e"
  shows "filter (\<lambda>e. dirOwnerPeerID e \<noteq> own) (map f ls) = filter (\<lambda>e. dirOwnerPeerID e \<noteq> own) ls"
  using assms by (induction ls) auto

lemma upsert_listing_own:
  assumes "docs_state c db" "own = dirOwnerPeerID entry"
  shows "own_step c own db (snd (pg_UpsertDirectoryEntry entry db))"
  unfolding pg_UpsertDirectoryEntry_def
  by (rule own_stmt [OF assms(1)])
     (use assms fresh_id_state [of c "next_faults db"] in \<open>auto simp: own_step_def listings_state apart_def other_stores_def
        find_document_def versions_of_def intro!: filter_map_own\<close>)

lemma acls_own:
  assumes st: "docs_state c db" and ok: "distinct (map (\<lambda>a. (rdRow a, rdPeer a)) as)" "\<forall>a \<in> set as. rdRow a \<in> rowID ` set (documents db)"
    and r: "r \<in> set (documents db)" "rowOwner r = own"
    and same: "\<forall>i. i \<noteq> rowID r \<longrightarrow> filter (\<lambda>a. rdRow a = i) as = filter (\<lambda>a. rdRow a = i) (document_acls db)"
  shows "own_step c own db ((next_faults db)\<lparr>document_acls := as\<rparr>)"
proof -
  have ids: "\<forall>r' \<in> set (documents db). rowOwner r' \<noteq> own \<longrightarrow> rowID r' \<noteq> rowID r"
    using r st row_unique(1) by (metis docs_state_def docs_inv_def)
  have "docs_state c ((next_faults db)\<lparr>document_acls := as\<rparr>)"
    by (rule readers_state) (use st ok in auto)
  then show ?thesis
    using ids same by (simp add: own_step_def apart_def other_stores_def find_document_def versions_of_def)
qed

lemma reader_own:
  assumes st: "docs_state c db" and r: "r \<in> set (documents db)" "rowOwner r = own"
  shows "own_step c own db (snd (pg_GrantStoreReader L StoreDocument (rowID r) p db))"
    "own_step c own db (snd (pg_RevokeStoreReader L StoreDocument (rowID r) p db))"
proof -
  have ok: "distinct (map (\<lambda>a. (rdRow a, rdPeer a)) (document_acls db))" "\<forall>a \<in> set (document_acls db). rdRow a \<in> rowID ` set (documents db)"
    using st by (simp_all add: docs_state_def docs_inv_def readers_ok_def)
  have grant: "own_step c own db ((next_faults db)\<lparr>document_acls := acl_grant t (rowID r) q (document_acls db)\<rparr>)" for t q
    by (rule acls_own [OF st _ _ r]) (use ok r in \<open>auto simp: acl_grant_def acl_reads_def list_ex_iff\<close>)
  have revoke: "own_step c own db ((next_faults db)\<lparr>document_acls := acl_revoke (rowID r) q (document_acls db)\<rparr>)" for q
    by (rule acls_own [OF st _ _ r]) (use ok r in \<open>auto simp: acl_revoke_def distinct_map_filterI intro: filter_cong\<close>)
  show "own_step c own db (snd (pg_GrantStoreReader L StoreDocument (rowID r) p db))"
    using st grant r by (auto simp: pg_GrantStoreReader_def tablesFor_document intro!: own_stmt)
  show "own_step c own db (snd (pg_RevokeStoreReader L StoreDocument (rowID r) p db))"
    using st revoke by (auto simp: pg_RevokeStoreReader_def tablesFor_document intro!: own_stmt)
qed


section \<open>Handlers\<close>

text \<open>What only reads leaves everything but the schedule of faults as it is.\<close>

definition only_reads :: "stores \<Rightarrow> stores \<Rightarrow> bool" where
  "only_reads db db' \<longleftrightarrow> db' = db\<lparr>faults := faults db'\<rparr>"

lemma only_reads_simps [simp]: "only_reads db db" "only_reads db (next_faults db)"
  by (simp_all add: only_reads_def next_faults_def)

lemma only_reads_trans: "only_reads a b \<Longrightarrow> only_reads b d \<Longrightarrow> only_reads a d"
proof -
  have "(a\<lparr>faults := x\<rparr>)\<lparr>faults := y\<rparr> = a\<lparr>faults := y\<rparr>" for x y by simp
  then show "only_reads a b \<Longrightarrow> only_reads b d \<Longrightarrow> only_reads a d" unfolding only_reads_def by metis
qed

lemma only_reads_stmt: "(\<And>d. snd (f d) = d) \<Longrightarrow> only_reads db (snd (stmt f db))"
  by (simp add: stmt_read)

lemma only_reads_own:
  assumes "docs_state c db" "only_reads db db'"
  shows "own_step c own db db'"
proof -
  have "own_step c own db (db\<lparr>faults := fs\<rparr>)" for fs
    using assms(1) by (simp add: own_step_def apart_def other_stores_def find_document_def versions_of_def docs_state_def
        docs_inv_defs history_bounded_def)
  then show ?thesis using assms(2) unfolding only_reads_def by metis
qed

lemma RequireReader_reads: "only_reads db (snd (RequireReader L bans caller StoreDocument i own v db))"
proof -
  obtain r :: document_row where "rowID r = i" "rowOwner r = own" "rowVisibility r = v" by (metis document_row.select_convs store_row.select_convs)
  then show ?thesis using RequireReader_result(3) [OF tablesFor_document surjective_pairing, of L bans caller r db] by auto
qed

lemma with_document_reads:
  assumes "only_reads db (snd found)" "\<And>doc d. only_reads d (snd (k doc d))"
  shows "only_reads db (snd (with_document V caller found k))"
proof -
  obtain x d where f: "found = (x, d)" by fastforce
  have "only_reads d (snd (RequireReader (sdPeer V) (geBans (sdGates V)) caller StoreDocument i own v d))" for i own v
    by (rule RequireReader_reads)
  then show ?thesis using assms f
    by (auto simp: with_document_def split: sum.splits option.splits prod.splits intro: only_reads_trans)
      (metis only_reads_trans snd_conv)+
qed

lemma document_reads:
  "only_reads db (snd (pg_GetDocument L own p db))" "only_reads db (snd (pg_HeadDocument L own p db))"
  "only_reads db (snd (pg_ListDocuments L C own who after l db))"
  by (simp_all add: pg_GetDocument_def pg_HeadDocument_def pg_ListDocuments_def Let_def only_reads_stmt)

lemma version_reads:
  "only_reads db (snd (pg_GetDocumentHistory L own p mv db))" "only_reads db (snd (pg_GetDocumentAtVersion L own p n db))"
  using document_reads(2) [of db L own p]
  by (auto simp: pg_GetDocumentHistory_def pg_GetDocumentAtVersion_def Let_def split: prod.splits sum.splits option.splits
        intro!: only_reads_trans [OF _ only_reads_stmt])

lemma readsD:
  "pg_GetDocument L own p db = (x1, d) \<Longrightarrow> only_reads db d" "pg_HeadDocument L own p db = (x2, d) \<Longrightarrow> only_reads db d"
  "pg_ListDocuments L C own who after l db = (x3, d) \<Longrightarrow> only_reads db d"
  "pg_GetDocumentHistory L own p mv db = (x4, d) \<Longrightarrow> only_reads db d"
  "pg_GetDocumentAtVersion L own p n db = (x5, d) \<Longrightarrow> only_reads db d"
  "RequireReader L bans caller StoreDocument i o' v db = (x6, d) \<Longrightarrow> only_reads db d"
  by (metis document_reads(1) snd_conv, metis document_reads(2) snd_conv, metis document_reads(3) snd_conv,
      metis version_reads(1) snd_conv, metis version_reads(2) snd_conv, metis RequireReader_reads snd_conv)

lemma handler_reads:
  "only_reads db (snd (handleGet V caller own req db))" "only_reads db (snd (handleHead V caller own req db))"
  "only_reads db (snd (handleList V caller own req db))" "only_reads db (snd (read_history V own req db))"
  by (auto simp: handleGet_def handleHead_def handleList_def read_history_def Let_def document_reads
        intro!: with_document_reads dest: readsD split: prod.splits sum.splits option.splits)

lemma handleHistory_reads: "only_reads db (snd (handleHistory V caller own req db))"
  by (auto simp: handleHistory_def handler_reads dest!: readsD split: prod.splits sum.splits option.splits
        intro: only_reads_trans handler_reads(4))

lemma directory_reads:
  "only_reads db (snd (handleDirectoryBrowse V req db))" "only_reads db (snd (handleDirectoryGet V own db))"
proof -
  have "only_reads db (snd (pg_BrowseDirectory D C q cur l db))" for D C q cur l
    by (auto simp: pg_BrowseDirectory_def Let_def only_reads_stmt split: sum.splits)
  then have b: "pg_BrowseDirectory D C q cur l db = (x, d) \<Longrightarrow> only_reads db d" for D C q cur l x d by (metis snd_conv)
  have "only_reads db (snd (pg_GetDirectoryEntry w db))" for w by (simp add: pg_GetDirectoryEntry_def only_reads_stmt)
  then have g: "pg_GetDirectoryEntry w db = (x, d) \<Longrightarrow> only_reads db d" for w x d by (metis snd_conv)
  show "only_reads db (snd (handleDirectoryBrowse V req db))" "only_reads db (snd (handleDirectoryGet V own db))"
    using b g by (auto simp: handleDirectoryBrowse_def handleDirectoryGet_def Let_def split: prod.splits sum.splits option.splits)
qed

text \<open>The handlers that write.\<close>

lemma own_stepD: "own_step c own db (snd p) \<Longrightarrow> p = (x, d) \<Longrightarrow> own_step c own db d"
  by simp

lemma own_step_state: "own_step c own db d \<Longrightarrow> docs_state c d"
  by (simp add: own_step_def)

lemma upsert_entry_own:
  "docs_state c db \<Longrightarrow> own_step c own db (snd (pg_UpsertDirectoryEntry (listing_entry own l) db))"
  by (rule upsert_listing_own) (simp_all add: listing_entry_def)

lemma update_listing_own:
  assumes "docs_state c db"
  shows "own_step c (peer_String (sdPeer V) own) db (maybeUpdateDirectoryListing V own path db)"
proof (cases "path = directoryListingPath")
  case True
  obtain x d where g: "pg_GetDocument (sdPeer V) own path db = (x, d)" by fastforce
  let ?o = "peer_String (sdPeer V) own"
  have d: "own_step c ?o db d" using assms readsD(1) [OF g] by (rule only_reads_own)
  then have st: "docs_state c d" by (rule own_step_state)
  have "own_step c ?o db (snd (pg_UpsertDirectoryEntry (listing_entry ?o l) d))" for l
    by (rule own_step_trans [OF assms d upsert_entry_own [OF st]])
  moreover have "own_step c ?o db (snd (pg_RemoveDirectoryEntry ?o d))"
    by (rule own_step_trans [OF assms d remove_listing_own [OF st]])
  ultimately show ?thesis using True g d by (auto simp: maybeUpdateDirectoryListing_def split: sum.splits option.splits)
qed (use assms in \<open>simp add: maybeUpdateDirectoryListing_def\<close>)

lemma remove_if_own:
  "docs_state c db \<Longrightarrow> own_step c (peer_String (sdPeer V) own) db (maybeRemoveDirectoryListing V own path db)"
  using remove_listing_own by (auto simp: maybeRemoveDirectoryListing_def)

lemma then_listing_own:
  assumes "docs_state c db" "own_step c (peer_String (sdPeer V) own) db d"
  shows "own_step c (peer_String (sdPeer V) own) db (maybeUpdateDirectoryListing V own path d)"
    "own_step c (peer_String (sdPeer V) own) db (maybeRemoveDirectoryListing V own path d)"
  using own_step_trans [OF assms] update_listing_own remove_if_own own_step_state [OF assms(2)] by blast+

lemma ceiling_options:
  "HistoryCeiling (writeOptions V) \<le> c \<Longrightarrow> HistoryCeiling ((writeOptions V)\<lparr>woVisibility := v, woHistory := h\<rparr>) \<le> c"
  "HistoryCeiling (writeOptions V) \<le> c \<Longrightarrow> HistoryCeiling ((writeOptions V)\<lparr>woVisibility := v\<rparr>) \<le> c"
  by (auto simp: writeOptions_def HistoryCeiling_def)

lemmas write_results = own_stepD [OF put_own] own_stepD [OF restore_own] own_stepD [OF patch_own]

lemma handlePut_own:
  assumes st: "docs_state c db" and c: "HistoryCeiling (writeOptions V) \<le> c"
  shows "own_step c (peer_String (sdPeer V) own) db (snd (handlePut V caller own req db))"
  using st ceiling_options(1) [OF c]
  by (auto simp: handlePut_def Let_def split: option.splits sum.splits prod.splits
        intro!: then_listing_own [OF st] intro: write_results)

lemma handleRestore_own:
  assumes st: "docs_state c db" and c: "HistoryCeiling (writeOptions V) \<le> c"
  shows "own_step c (peer_String (sdPeer V) own) db (snd (handleRestore V caller own req db))"
  using st c
  by (auto simp: handleRestore_def Let_def split: option.splits sum.splits prod.splits
        intro!: then_listing_own [OF st] intro: write_results)

lemma handlePatch_own:
  assumes st: "docs_state c db" and c: "HistoryCeiling (writeOptions V) \<le> c"
  shows "own_step c (peer_String (sdPeer V) own) db (snd (handlePatch V caller own req db))"
  using st c
  by (auto simp: handlePatch_def Let_def split: option.splits sum.splits prod.splits
        intro!: then_listing_own [OF st] intro: write_results)

lemma handleDelete_own:
  assumes st: "docs_state c db"
  shows "own_step c (peer_String (sdPeer V) own) db (snd (handleDelete V caller own req db))"
  using st delete_own [OF st, of "sdPeer V" own "drPath req"]
  by (auto simp: handleDelete_def split: sum.splits prod.splits intro!: then_listing_own [OF st])

lemma batch_write_own:
  assumes st: "docs_state c db" and c: "HistoryCeiling (writeOptions V) \<le> c"
  shows "own_step c (peer_String (sdPeer V) own) db (snd (batch_write V caller own p db))"
  using st ceiling_options(2) [OF c]
  by (auto simp: batch_write_def Let_def split: sum.splits prod.splits intro!: then_listing_own [OF st] intro: write_results)

lemma batch_apply_own:
  assumes c: "HistoryCeiling (writeOptions V) \<le> c" and "docs_state c db"
  shows "own_step c (peer_String (sdPeer V) own) db (snd (batch_apply V caller own ps db))"
  using assms(2)
proof (induction ps arbitrary: db)
  case (Cons p ps)
  show ?case
  proof (cases p)
    case (Inl r)
    then show ?thesis using Cons by (simp add: case_prod_beta)
  next
    case (Inr w)
    have w: "own_step c (peer_String (sdPeer V) own) db (snd (batch_write V caller own w db))"
      by (rule batch_write_own [OF Cons.prems c])
    from own_step_trans [OF Cons.prems w Cons.IH [OF own_step_state [OF w]]] show ?thesis
      using Inr by (simp add: case_prod_beta Let_def)
  qed
qed simp

lemma handleBatchPut_own:
  assumes st: "docs_state c db" and c: "HistoryCeiling (writeOptions V) \<le> c"
  shows "own_step c (peer_String (sdPeer V) own) db (snd (handleBatchPut V caller own req db))"
  using st
  by (auto simp: handleBatchPut_def Let_def split: option.splits prod.splits intro: own_stepD [OF batch_apply_own [OF c st]])

lemma access_reads: "only_reads db (snd (access_list C req v db))" if "acKind req = StoreDocument"
proof -
  have "only_reads db (snd (pg_ListStoreReaders C StoreDocument i db))" for i
    by (simp add: pg_ListStoreReaders_def tablesFor_document only_reads_stmt)
  then have "pg_ListStoreReaders C StoreDocument i db = (x, d) \<Longrightarrow> only_reads db d" for i x d by (metis snd_conv)
  then show ?thesis using that by (auto simp: access_list_def split: prod.splits sum.splits)
qed

lemma then_access_own:
  assumes "docs_state c db" "own_step c own db d" "acKind req = StoreDocument"
  shows "own_step c own db (snd (access_list C req v d))"
  using own_step_trans [OF assms(1,2)] only_reads_own [OF own_step_state [OF assms(2)]] access_reads [OF assms(3)] by blast

lemmas access_results = own_stepD [OF visibility_own] own_stepD [OF reader_own(1)] own_stepD [OF reader_own(2)]

lemma StoreAccess_own:
  assumes st: "docs_state c db" and r: "r \<in> set (documents db)" "rowOwner r = peer_String L (acOwnerID req)"
    and req: "acKind req = StoreDocument" "acID req = rowID r"
  shows "own_step c (peer_String L (acOwnerID req)) db (snd (StoreAccess L C req db))"
  unfolding StoreAccess_def
  using st r req
  by (auto split: sum.splits prod.splits option.splits intro!: then_access_own [OF st] intro: access_results)

lemma stmt_value: "stmt (\<lambda>d. (Inr (g d), d)) db = (Inr y, d) \<Longrightarrow> g (next_faults db) = y \<and> d = next_faults db"
  by (cases rule: stmt_cases [of "\<lambda>d. (Inr (g d), d)" db]) auto

lemma handleAccess_own:
  assumes st: "docs_state c db"
  shows "own_step c (peer_String (sdPeer V) caller) db (snd (handleAccess V caller req db))"
proof -
  let ?o = "peer_String (sdPeer V) caller"
  obtain x d where h: "pg_HeadDocument (sdPeer V) caller (drPath req) db = (x, d)" by fastforce
  have d: "own_step c ?o db d" using st readsD(2) [OF h] by (rule only_reads_own)
  show ?thesis
  proof (cases "\<exists>doc. x = Inr (Some doc)")
    case True
    then obtain doc where x: "x = Inr (Some doc)" by blast
    have "\<exists>r \<in> set (documents d). rowOwner r = ?o \<and> rowID r = rowID doc"
      using stmt_value [OF h [unfolded pg_HeadDocument_def x]]
      by (auto simp: document_row.defs dest!: find_documentD)
    then obtain r where r: "r \<in> set (documents d)" "rowOwner r = ?o" "rowID r = rowID doc" by blast
    have "own_step c (peer_String (sdPeer V) (acOwnerID q)) d (snd (StoreAccess (sdPeer V) (sdColl V) q d))"
      if "acKind q = StoreDocument" "acID q = rowID doc" "acOwnerID q = caller" for q
      by (rule StoreAccess_own [OF own_step_state [OF d] r(1)]) (use r that in auto)
    then have "own_step c ?o db (snd (StoreAccess (sdPeer V) (sdColl V) q d))"
      if "acKind q = StoreDocument" "acID q = rowID doc" "acOwnerID q = caller" for q
      using own_step_trans [OF st d] that by metis
    then show ?thesis using h x by (simp add: handleAccess_def case_prod_beta Let_def)
  qed (use h d in \<open>auto simp: handleAccess_def split: sum.splits option.splits\<close>)
qed

lemma handleDirectory_own:
  assumes st: "docs_state c db"
  shows "own_step c (peer_String (sdPeer V) own) db (snd (handleDirectoryJoin V own req db))"
    "own_step c (peer_String (sdPeer V) own) db (snd (handleDirectoryLeave V own db))"
  using st
  by (auto simp: handleDirectoryJoin_def handleDirectoryLeave_def Let_def
        split: sum.splits prod.splits option.splits
        intro: own_stepD [OF remove_listing_own] own_stepD [OF upsert_entry_own])

section \<open>The whole protocol\<close>

lemma commonValidation_owner:
  assumes "commonValidation V caller raw = Inr own"
  obtains kvs opn da where "object_fields (json_text.truncate (sdJson V)) raw = Some kvs"
    "json_field dec_string [] ''operation'' kvs = Some opn" "json_field dec_string [] ''directoryAction'' kvs = Some da"
    "needs_owner opn da \<longrightarrow> own = caller"
  using assms
  by (auto simp: commonValidation_def RequireOwner_def bind_eq_Some_conv split: option.splits if_splits)

lemma dec_DocRequest_directory:
  "dec_DocRequest kvs = Some req \<Longrightarrow> json_field dec_string [] ''directoryAction'' kvs = Some (drDirectoryAction req)"
  by (auto simp: dec_DocRequest_def bind_eq_Some_conv)

lemma directory_own:
  assumes st: "docs_state c db" and own: "needs_owner ''DIRECTORY'' (drDirectoryAction req) \<longrightarrow> own = caller"
  shows "own_step c (peer_String (sdPeer V) caller) db (snd (handleDirectory V own req db))"
  using own handleDirectory_own [OF st, of V own] directory_reads [THEN only_reads_own [OF st]] st
  by (auto simp: handleDirectory_def needs_owner_def)

lemma sda_handle_own:
  assumes st: "docs_state c db" and c: "HistoryCeiling (writeOptions V) \<le> c"
    and opn: "opn \<in> set sda_operations" and own: "needs_owner opn (drDirectoryAction req) \<longrightarrow> own = caller"
  shows "own_step c (peer_String (sdPeer V) caller) db (snd (sda_handle V caller own opn req db))"
proof -
  note writes = handlePut_own [OF st c, of own caller req] handlePatch_own [OF st c, of own caller req]
    handleRestore_own [OF st c, of own caller req] handleDelete_own [OF st, of V own caller req]
    handleBatchPut_own [OF st c, of own caller req] handleAccess_own [OF st, of V caller req]
  note reads = handler_reads [THEN only_reads_own [OF st]] handleHistory_reads [THEN only_reads_own [OF st]]
  show ?thesis
  proof (cases "opn = ''DIRECTORY''")
    case True
    then show ?thesis using directory_own [OF st] own by (simp add: sda_handle_def)
  next
    case False
    then show ?thesis using opn own writes reads by (simp add: sda_handle_def sda_operations_def needs_owner_def) (elim disjE; simp)
  qed
qed

lemma sda_serve_cases:
  obtains "snd (sda_serve V caller raw db) = db"
  | own opn kvs req where "commonValidation V caller raw = Inr own" "fgOperation (sdForge V) ''operation'' raw = Inr opn"
    "object_fields (json_text.truncate (sdJson V)) raw = Some kvs" "dec_DocRequest kvs = Some req" "opn \<in> set sda_operations"
    "snd (sda_serve V caller raw db) = snd (sda_handle V caller own opn req db)"
proof (cases "\<exists>own opn req. document_gates (json_text.truncate (sdJson V)) (sdGates V) caller raw = None
    \<and> commonValidation V caller raw = Inr own \<and> fgOperation (sdForge V) ''operation'' raw = Inr opn \<and> opn \<in> set sda_operations
    \<and> Option.bind (object_fields (json_text.truncate (sdJson V)) raw) dec_DocRequest = Some req")
  case True
  then obtain own opn req where r: "document_gates (json_text.truncate (sdJson V)) (sdGates V) caller raw = None"
    "commonValidation V caller raw = Inr own" "fgOperation (sdForge V) ''operation'' raw = Inr opn" "opn \<in> set sda_operations"
    "Option.bind (object_fields (json_text.truncate (sdJson V)) raw) dec_DocRequest = Some req" by blast
  from r(5) obtain kvs where "object_fields (json_text.truncate (sdJson V)) raw = Some kvs" "dec_DocRequest kvs = Some req"
    by (auto simp: bind_eq_Some_conv)
  with r that(2) show ?thesis by (simp add: sda_serve_def case_prod_beta)
next
  case False
  then have "snd (sda_serve V caller raw db) = db"
    unfolding sda_serve_def Let_def
    by (cases "document_gates (json_text.truncate (sdJson V)) (sdGates V) caller raw"; cases "commonValidation V caller raw";
        cases "fgOperation (sdForge V) ''operation'' raw";
        cases "Option.bind (object_fields (json_text.truncate (sdJson V)) raw) dec_DocRequest") simp_all
  then show ?thesis by (rule that(1))
qed

text \<open>
  C3. Whatever a peer sends to the document protocol in a body that spells the key of the operation in
  one way, and whatever fails below it, the answer changes only what is the peer's own: the documents of every other owner keep their content, their
  history, their visibility and their readers, the directory keeps what others list, and feeds and
  collections are untouched. The tables stay consistent. The router reads the exact key, as documented;
  \<open>Bypass\<close> shows that a body with two spellings does escape the check of the owner.
\<close>

theorem document_writes_stay_own:
  assumes inv: "docs_inv db"
    and router: "exact_router (json_text.truncate (sdJson V)) (sdForge V)"
    and one: "one_spelling (json_text.truncate (sdJson V)) ''operation'' raw"
  shows "docs_inv (snd (sda_serve V caller raw db)) \<and> apart (peer_String (sdPeer V) caller) db (snd (sda_serve V caller raw db))"
proof (cases rule: sda_serve_cases [of V caller raw db])
  case r: (2 own opn kvs req)
  obtain kvs' opn' da where v: "object_fields (json_text.truncate (sdJson V)) raw = Some kvs'"
    "json_field dec_string [] ''operation'' kvs' = Some opn'" "json_field dec_string [] ''directoryAction'' kvs' = Some da"
    "needs_owner opn' da \<longrightarrow> own = caller" by (rule commonValidation_owner [OF r(1)])
  have "kvs' = kvs" using v(1) r(3) by simp
  then have "opn' = opn" "da = drDirectoryAction req"
    using v(2,3) router_agrees [OF router one r(2,3)] dec_DocRequest_directory [OF r(4)] by simp_all
  then have needs: "needs_owner opn (drDirectoryAction req) \<longrightarrow> own = caller" using v(4) by simp
  define c where "c = max (HistoryCeiling (writeOptions V)) (int (length (document_versions db)))"
  have "int (length (versions_of i db)) \<le> c" for i
    unfolding versions_of_def c_def by (rule order_trans [OF _ max.cobounded2]) simp
  then have "docs_state c db" using inv by (simp add: docs_state_def history_bounded_def)
  then have "own_step c (peer_String (sdPeer V) caller) db (snd (sda_handle V caller own opn req db))"
    by (rule sda_handle_own) (simp_all add: c_def r(5) needs)
  then show ?thesis using r(6) by (simp add: own_step_def docs_state_def)
qed (use inv in simp)

definition leave_json :: json_lib where
  "leave_json = \<lparr>json_enc = (\<lambda>_. []), json_dec = (\<lambda>_. Inr (JObj [(''operation'', JStr ''DIRECTORY''),
       (''ownerPeerId'', JStr ''61''), (''directoryAction'', JStr ''leave'')])), jsFloat = Some\<rparr>"

definition demo_env :: "json_lib \<Rightarrow> sda_env" where
  "demo_env J = \<lparr>sdPeer = hex_peers, sdJson = J, sdColl = map of_char, sdDir = demo_dir, sdTime = (\<lambda>_. []),
     sdForge = field_router (json_text.truncate J), sdGates = demo_gates, sdMaxHistory = Some 10\<rparr>"

theorem document_writes_stay_own_witness:
  "let db = (empty_stores 9)\<lparr>directory_listings := [demo_listing 1 ''61'' 5, demo_listing 2 ''62'' 7]\<rparr>;
       served = sda_serve (demo_env leave_json) (PeerID ''a'') [] db
   in apart ''61'' db (snd served) \<and> rsStatus (fst served) = 204 \<and> directory_listings (snd served) = [demo_listing 2 ''62'' 7]"
proof -
  let ?db = "(empty_stores 9)\<lparr>directory_listings := [demo_listing 1 ''61'' 5, demo_listing 2 ''62'' 7]\<rparr>"
  let ?s = "sda_serve (demo_env leave_json) (PeerID ''a'') [] ?db"
  have "case ?s of (r, d) \<Rightarrow> rsStatus r = 204 \<and> directory_listings d = [demo_listing 2 ''62'' 7]" by code_simp
  then have a: "rsStatus (fst ?s) = 204" "directory_listings (snd ?s) = [demo_listing 2 ''62'' 7]" by (simp_all add: case_prod_beta)
  have c: "peer_String (sdPeer (demo_env leave_json)) (PeerID ''a'') = ''61''" by code_simp
  have "docs_inv ?db" by (simp add: docs_inv_defs empty_stores_def)
  moreover have "exact_router (json_text.truncate (sdJson (demo_env leave_json))) (sdForge (demo_env leave_json))" by (simp add: demo_env_def)
  moreover have "one_spelling (json_text.truncate (sdJson (demo_env leave_json))) ''operation'' []" by code_simp
  ultimately show ?thesis
    using document_writes_stay_own [of ?db "demo_env leave_json" "[]" "PeerID ''a''"] a c by (simp add: Let_def)
qed

end
