(* ===== verification/Sfa_Props.thy ===== *)
theory Sfa_Props
  imports Sfa Feeds_Props Sda_Props
begin

text \<open>
  Properties of the feed protocol: its pages, what a request of a peer may change, and two flaws of its
  handlers.
\<close>

section \<open>Pages\<close>

text \<open>A client that follows \<^verbatim>\<open>X-Next-Sequence\<close> from page to page.\<close>

fun read_pages :: "nat \<Rightarrow> int \<Rightarrow> int option \<Rightarrow> int option \<Rightarrow> string \<Rightarrow> int \<Rightarrow> stores \<Rightarrow> FeedEntryRecord list option" where
  "read_pages 0 i a b et l db = None"
| "read_pages (Suc n) i a b et l db =
     (case pg_GetFeedEntries i a b et l db of
        (Inl e, d) \<Rightarrow> None
      | (Inr page, d) \<Rightarrow>
          (case next_sequence page of
             None \<Rightarrow> Some (fst page)
           | Some m \<Rightarrow> map_option ((@) (fst page)) (read_pages n i (Some m) b et l d)))"

lemma entries_limit_bounds: "1 \<le> entries_limit l" "entries_limit l \<le> 1000"
  by (auto simp: entries_limit_def Let_def)

lemma page_result:
  assumes "faults db = []"
  shows "pg_GetFeedEntries i a b et l db =
    (Inr (take (nat (entries_limit l)) (entry_rows i a b et db), entries_limit l < int (length (entry_rows i a b et db))), db)"
  using assms entries_limit_bounds [of l]
  by (auto simp: pg_GetFeedEntries_def Let_def nat_add_distrib min_def in_context_def)

text \<open>
  Reading a feed page by page is complete. Whatever range, type of entries and page size a reader
  asks for, following the next sequence number that each page reports ends, and the pages put together
  are exactly the entries of the range, each once and in the order of their numbers.
\<close>

theorem feed_pages_complete:
  assumes "feeds_inv db" "faults db = []" "length (entry_rows i a b et db) < fuel"
  shows "read_pages fuel i a b et l db = Some (entry_rows i a b et db)"
  using assms(3)
proof (induction fuel arbitrary: a)
  case (Suc fuel)
  let ?rows = "entry_rows i a b et db" and ?l = "nat (entries_limit l)"
  have l: "1 \<le> ?l" using entries_limit_bounds(1) [of l] by simp
  note page = page_result [OF assms(2), of i a b et l]
  show ?case
  proof (cases "entries_limit l < int (length ?rows)")
    case False
    then show ?thesis by (simp add: page next_sequence_def)
  next
    case True
    then have long: "?l < length ?rows" using l by linarith
    define y where "y = last (take ?l ?rows)"
    have nonempty: "take ?l ?rows \<noteq> []" using l long by auto
    then have "?rows = butlast (take ?l ?rows) @ y # drop ?l ?rows"
      unfolding y_def by (metis append_assoc append_Cons append_Nil append_butlast_last_id append_take_drop_id)
    then have rest: "entry_rows i (Some (fentSequenceNumber y + 1)) b et db = drop ?l ?rows"
      by (rule entry_rows_from [OF assms(1)])
    have "length (drop ?l ?rows) < fuel" using Suc.prems l long by simp
    then have "read_pages fuel i (Some (fentSequenceNumber y + 1)) b et l db = Some (drop ?l ?rows)"
      using Suc.IH [of "Some (fentSequenceNumber y + 1)"] rest by simp
    then show ?thesis using True nonempty by (simp add: page next_sequence_def y_def)
  qed
qed simp

theorem feed_pages_complete_witness:
  "let db = (empty_stores 9)\<lparr>feeds := [old_feed], feed_entries := [old_entry 1 0, old_entry 2 1, old_entry 3 2], store_next := 20\<rparr>
   in read_pages 4 (rowID old_feed) None None [] 2 db = Some [old_entry 1 0, old_entry 2 1, old_entry 3 2]"
proof -
  let ?db = "(empty_stores 9)\<lparr>feeds := [old_feed], feed_entries := [old_entry 1 0, old_entry 2 1, old_entry 3 2], store_next := 20\<rparr>"
  have inv: "feeds_inv ?db" "faults ?db = []"
    by (simp_all add: feeds_inv_defs old_feed_def demo_feed_def old_entry_def appended_entry_def empty_stores_def)
  have rows: "entry_rows (rowID old_feed) None None [] ?db = [old_entry 1 0, old_entry 2 1, old_entry 3 2]"
    by (simp add: entry_rows_def entries_of_def in_range_def old_feed_def demo_feed_def old_entry_def appended_entry_def)
  show ?thesis
    using feed_pages_complete [OF inv, of "rowID old_feed" None None "[]" 4 2] unfolding rows by (simp add: Let_def)
qed


section \<open>What a request may change\<close>

definition beside_feeds :: "stores \<Rightarrow> document_row list \<times> version_row list \<times> reader_row list \<times> CollectionRecord list
    \<times> CollectionItemRecord list \<times> reader_row list \<times> DirectoryEntry list" where
  "beside_feeds db = (documents db, document_versions db, document_acls db, collections db, collection_items db,
     collection_acls db, directory_listings db)"

definition feed_readers :: "int \<Rightarrow> stores \<Rightarrow> reader_row list" where
  "feed_readers i db = filter (\<lambda>a. rdRow a = i) (feed_acls db)"

text \<open>
  What another peer leaves of a feed: the feed itself with its readers and entries, and behind them, if
  the feed is collaborative, entries that this peer is recorded as having written.
\<close>

definition log_kept :: "string \<Rightarrow> FeedRecord \<Rightarrow> stores \<Rightarrow> stores \<Rightarrow> bool" where
  "log_kept own f db db' \<longleftrightarrow> feed_readers (rowID f) db' = feed_readers (rowID f) db \<and>
     (\<exists>new t. f\<lparr>CurrentSequence := CurrentSequence f + int (length new), LastEntryAt := t\<rparr> \<in> set (feeds db')
        \<and> entries_of (rowID f) db' = entries_of (rowID f) db @ new
        \<and> (\<forall>e \<in> set new. fentCreatedByPeerID e = own \<and> CurrentSequence f < fentSequenceNumber e)
        \<and> (if new = [] then t = LastEntryAt f else CollaborativeMode f))"

definition confined :: "string \<Rightarrow> stores \<Rightarrow> stores \<Rightarrow> bool" where
  "confined own db db' \<longleftrightarrow> beside_feeds db' = beside_feeds db
     \<and> (\<forall>f \<in> set (feeds db). rowOwner f \<noteq> own \<longrightarrow> log_kept own f db db')
     \<and> (\<forall>f \<in> set (feeds db'). rowOwner f \<noteq> own \<longrightarrow> rowID f \<in> rowID ` set (feeds db))"

definition feed_own :: "string \<Rightarrow> stores \<Rightarrow> stores \<Rightarrow> bool" where
  "feed_own own db db' \<longleftrightarrow> feeds_inv db' \<and> confined own db db'"

lemma confinedI:
  assumes "beside_feeds db' = beside_feeds db"
    and "\<And>f. f \<in> set (feeds db) \<Longrightarrow> rowOwner f \<noteq> own \<Longrightarrow> f \<in> set (feeds db') \<and> entries_of (rowID f) db' = entries_of (rowID f) db
        \<and> feed_readers (rowID f) db' = feed_readers (rowID f) db"
    and "\<And>f. f \<in> set (feeds db') \<Longrightarrow> rowOwner f \<noteq> own \<Longrightarrow> rowID f \<in> rowID ` set (feeds db)"
  shows "confined own db db'"
  using assms unfolding confined_def log_kept_def by (auto intro!: exI [of _ "[]"])

lemma confined_faults:
  "confined own (db\<lparr>faults := fs\<rparr>) db' = confined own db db'" "confined own db (db'\<lparr>faults := fs\<rparr>) = confined own db db'"
  by (simp_all add: confined_def log_kept_def beside_feeds_def feed_readers_def entries_of_def)

lemma feed_own_reads:
  assumes "only_reads db d"
  shows "feed_own own d db' = feed_own own db db'" "feed_own own db' d = feed_own own db' db"
proof -
  have d: "d = db\<lparr>faults := faults d\<rparr>" using assms by (simp add: only_reads_def)
  show "feed_own own d db' = feed_own own db db'" unfolding feed_own_def by (subst d) (simp add: confined_faults)
  have "feeds_inv (db\<lparr>faults := fs\<rparr>) = feeds_inv db" for fs by (simp add: feeds_inv_defs)
  then show "feed_own own db' d = feed_own own db' db" unfolding feed_own_def by (subst (1 2) d) (simp add: confined_faults)
qed

lemma feed_own_refl: "feeds_inv db \<Longrightarrow> feed_own own db db"
  unfolding feed_own_def by (auto intro!: confinedI)

lemma feed_own_only_reads: "feeds_inv db \<Longrightarrow> only_reads db d \<Longrightarrow> feed_own own db d"
  using feed_own_reads(2) feed_own_refl by blast

lemma confined_next [simp]: "confined own (next_faults db) db' = confined own db db'" "confined own db (next_faults db') = confined own db db'"
  using confined_faults by (simp_all add: next_faults_def)

lemma confined_refl [simp]: "confined own db db"
  by (rule confinedI) auto

lemma confined_stmt: "confined own (next_faults db) (snd (f (next_faults db))) \<Longrightarrow> confined own db (snd (stmt f db))"
  by (rule stmt_snd_case [where Q = "confined own db"]) simp_all

lemma feed_ownI: "feed_step db db' \<Longrightarrow> confined own db db' \<Longrightarrow> feed_own own db db'"
  by (simp add: feed_step_def feed_own_def)

text \<open>Rewriting rows of one's own.\<close>

lemma rewrite_confined:
  assumes "\<And>x. rowID (up x) = rowID x \<and> rowOwner (up x) = rowOwner x" "\<And>x. rowOwner x \<noteq> own \<Longrightarrow> up x = x"
  shows "confined own d (d\<lparr>feeds := map up (feeds d)\<rparr>)"
proof (rule confinedI)
  fix f assume f: "f \<in> set (feeds d)" "rowOwner f \<noteq> own"
  then have "f \<in> set (map up (feeds d))" using assms(2) [of f] by (metis image_eqI set_map)
  then show "f \<in> set (feeds (d\<lparr>feeds := map up (feeds d)\<rparr>)) \<and> entries_of (rowID f) (d\<lparr>feeds := map up (feeds d)\<rparr>) = entries_of (rowID f) d
     \<and> feed_readers (rowID f) (d\<lparr>feeds := map up (feeds d)\<rparr>) = feed_readers (rowID f) d"
    by (simp add: entries_of_def feed_readers_def)
qed (use assms(1) in \<open>auto simp: beside_feeds_def image_iff\<close>)

lemma create_own:
  assumes "feeds_inv db"
  shows "feed_own (peer_String L own) db (snd (pg_CreateFeed L own p t de co vis db))"
proof (rule feed_ownI [OF CreateFeed_step [OF assms]])
  let ?o = "peer_String L own"
  have new: "confined ?o d (d\<lparr>feeds := feeds d @ [created_feed ?o p t de co vis d], store_next := store_next d + 1\<rparr>)" for d
    by (rule confinedI) (auto simp: beside_feeds_def entries_of_def feed_readers_def created_feed_def)
  have old: "confined ?o d (d\<lparr>feeds := map (\<lambda>x. if at_path ?o p x then x\<lparr>Title := or_kept t (Title x), Description := or_kept de (Description x)\<rparr> else x) (feeds d)\<rparr>)" for d
    by (rule rewrite_confined) (auto simp: at_path_def)
  show "confined ?o db (snd (pg_CreateFeed L own p t de co vis db))"
    unfolding pg_CreateFeed_def snd_in_context
    by (rule confined_stmt) (use new [of "next_faults db"] old [of "next_faults db"] in \<open>auto simp: Let_def split: option.split\<close>)
qed

lemma delete_feed_own:
  assumes inv: "feeds_inv db"
  shows "feed_own (peer_String L own) db (snd (pg_DeleteFeed L own p db))"
proof (rule feed_ownI [OF DeleteFeed_step [OF inv]])
  let ?o = "peer_String L own"
  have gone: "rowID g \<noteq> rowID f" if "f \<in> set (feeds db)" "g \<in> set (feeds db)" "rowOwner f \<noteq> ?o" "rowOwner g = ?o" for f g
    using inv that feed_unique(1) by (metis feeds_inv_def)
  show "confined ?o db (snd (pg_DeleteFeed L own p db))"
    unfolding pg_DeleteFeed_def snd_in_context
    by (rule confined_stmt, simp only: Let_def snd_conv, rule confinedI)
       (use gone in \<open>auto simp: beside_feeds_def entries_of_def feed_readers_def at_path_def intro!: filter_cong\<close>)
qed

lemma feed_visibility_own:
  assumes "feeds_inv db"
  shows "feed_own (peer_String L own) db (snd (pg_SetStoreVisibility L StoreFeed own p v db))"
proof (rule feed_ownI [OF FeedVisibility_step [OF assms]])
  have "confined (peer_String L own) d (d\<lparr>feeds := set_visibility (peer_String L own) p v (feeds d)\<rparr>)" for d
    unfolding set_visibility_feeds by (rule rewrite_confined) (auto simp: at_path_def)
  from this [of "next_faults db"] show "confined (peer_String L own) db (snd (pg_SetStoreVisibility L StoreFeed own p v db))"
    by (auto simp: pg_SetStoreVisibility_def tablesFor_feed intro!: confined_stmt)
qed

lemma acls_confined:
  assumes "feeds_inv d" "f \<in> set (feeds d)" "rowOwner f = own"
    and "\<forall>i. i \<noteq> rowID f \<longrightarrow> filter (\<lambda>a. rdRow a = i) as = filter (\<lambda>a. rdRow a = i) (feed_acls d)"
  shows "confined own d (d\<lparr>feed_acls := as\<rparr>)"
proof (rule confinedI)
  fix g assume "g \<in> set (feeds d)" "rowOwner g \<noteq> own"
  then have "rowID g \<noteq> rowID f" using assms(1-3) feed_unique(1) by (metis feeds_inv_def)
  then show "g \<in> set (feeds (d\<lparr>feed_acls := as\<rparr>)) \<and> entries_of (rowID g) (d\<lparr>feed_acls := as\<rparr>) = entries_of (rowID g) d
     \<and> feed_readers (rowID g) (d\<lparr>feed_acls := as\<rparr>) = feed_readers (rowID g) d"
    using assms(4) \<open>g \<in> set (feeds d)\<close> by (simp add: entries_of_def feed_readers_def)
qed (auto simp: beside_feeds_def)

lemma feed_reader_own:
  assumes inv: "feeds_inv db" and f: "f \<in> set (feeds db)" "rowOwner f = own"
  shows "feed_own own db (snd (pg_GrantStoreReader L StoreFeed (rowID f) p db))"
    "feed_own own db (snd (pg_RevokeStoreReader L StoreFeed (rowID f) p db))"
proof -
  have "confined own (next_faults db) ((next_faults db)\<lparr>feed_acls := acl_grant t (rowID f) q (feed_acls db)\<rparr>)" for t q
    by (rule acls_confined [of _ f]) (use inv f in \<open>auto simp: acl_grant_def\<close>)
  then show "feed_own own db (snd (pg_GrantStoreReader L StoreFeed (rowID f) p db))"
    by (intro feed_ownI FeedReader_step inv) (auto simp: pg_GrantStoreReader_def tablesFor_feed intro!: confined_stmt)
  have "confined own (next_faults db) ((next_faults db)\<lparr>feed_acls := acl_revoke (rowID f) q (feed_acls db)\<rparr>)" for q
    by (rule acls_confined [of _ f]) (use inv f in \<open>auto simp: acl_revoke_def intro: filter_cong\<close>)
  then show "feed_own own db (snd (pg_RevokeStoreReader L StoreFeed (rowID f) p db))"
    by (intro feed_ownI FeedReader_step inv) (auto simp: pg_RevokeStoreReader_def tablesFor_feed intro!: confined_stmt)
qed

text \<open>Appending: to one's own feed, or to a collaborative one.\<close>

lemma append_confined:
  assumes inv: "feeds_inv d" and f: "f \<in> set (feeds d)" and may: "rowOwner f = who \<or> CollaborativeMode f"
  shows "confined who d (after_append (next_entry f content who et d) d)"
proof -
  let ?e = "next_entry f content who et d" and ?d = "after_append (next_entry f content who et d) d"
  have kept: "log_kept who g d ?d" if g: "g \<in> set (feeds d)" "rowOwner g \<noteq> who" for g
  proof (cases "g = f")
    case True
    then have "CollaborativeMode f" using may g(2) by auto
    then show ?thesis using True f
      by (auto simp: log_kept_def feed_readers_def after_append_def entries_of_def intro!: exI [of _ "[?e]"] exI [of _ "clock d"] image_eqI [of _ _ f])
  next
    case False
    then have "rowID g \<noteq> rowID f" using inv f g feed_unique(1) by (metis feeds_inv_def)
    then show ?thesis using g
      by (auto simp: log_kept_def feed_readers_def after_append_def entries_of_def intro!: exI [of _ "[]"] image_eqI [of _ _ g])
  qed
  show ?thesis
    unfolding confined_def
  proof (intro conjI ballI impI)
    fix g assume "g \<in> set (feeds ?d)"
    then show "rowID g \<in> rowID ` set (feeds d)" using f by (auto simp: after_append_def)
  qed (use kept in \<open>auto simp: beside_feeds_def after_append_def\<close>)
qed

lemma append_own:
  assumes inv: "feeds_inv db" and f: "f \<in> set (feeds db)" and may: "rowOwner f = peer_String L who \<or> CollaborativeMode f"
  shows "feed_own (peer_String L who) db (snd (pg_AppendFeedEntry L (rowID f) content who et db))"
proof (rule feed_ownI [OF AppendFeedEntry_step [OF inv]])
  show "confined (peer_String L who) db (snd (pg_AppendFeedEntry L (rowID f) content who et db))"
    unfolding pg_AppendFeedEntry_def
    by (rule confined_stmt) (use append_confined [of "next_faults db" f "peer_String L who" content et] append_result [of "next_faults db" f] assms in simp)
qed

section \<open>Handlers\<close>

lemma in_context_reads: "only_reads db (snd r) \<Longrightarrow> in_context what r = (x, d) \<Longrightarrow> only_reads db d"
  by (metis snd_conv snd_in_context)

lemma feed_readsD:
  "pg_GetFeed L own p db = (x1, d) \<Longrightarrow> only_reads db d" "pg_ListFeeds L C own who db = (x2, d) \<Longrightarrow> only_reads db d"
  "pg_GetFeedEntry i n db = (x3, d) \<Longrightarrow> only_reads db d" "pg_GetFeedEntries i a b et l db = (x4, d) \<Longrightarrow> only_reads db d"
  "pg_CountFeedEntries i db = (x5, d) \<Longrightarrow> only_reads db d"
  by (auto simp: pg_GetFeed_def pg_ListFeeds_def pg_GetFeedEntry_def pg_GetFeedEntries_def pg_CountFeedEntries_def Let_def
        elim!: in_context_reads [rotated] intro!: only_reads_stmt)

lemma feed_RequireReader_reads: "RequireReader L bans caller StoreFeed i own v db = (x, d) \<Longrightarrow> only_reads db d"
proof -
  assume r: "RequireReader L bans caller StoreFeed i own v db = (x, d)"
  obtain f :: FeedRecord where "rowID f = i" "rowOwner f = own" "rowVisibility f = v" by (metis FeedRecord.select_convs store_row.select_convs)
  then show ?thesis using RequireReader_result(3) [OF tablesFor_feed surjective_pairing, of L bans caller f db] r by auto
qed

lemma GetFeed_found:
  assumes "pg_GetFeed L own p db = (Inr (Some f), d)"
  shows "f \<in> set (feeds db)" "rowOwner f = peer_String L own" "rowPath f = p" "feeds d = feeds db"
proof -
  have v: "stmt (\<lambda>d. (Inr (find_feed (peer_String L own) p d), d)) db = (Inr (Some f), d)" using assms by (simp add: pg_GetFeed_def)
  have "find_feed (peer_String L own) p db = Some f" "d = next_faults db" using stmt_value [OF v] by auto
  then show "f \<in> set (feeds db)" "rowOwner f = peer_String L own" "rowPath f = p" "feeds d = feeds db" using find_feedD by auto
qed

lemma get_reads: "only_reads db (snd (getHandler V caller own req db))"
proof -
  have one: "only_reads d (snd (handleGetEntry V f n d))" "only_reads d (snd (handleGetEntries V f req d))" for f n d
    by (auto simp: handleGetEntry_def handleGetEntries_def Let_def split: prod.splits sum.splits option.splits dest: feed_readsD)
  show ?thesis unfolding getHandler_def
    by (auto split: prod.splits sum.splits option.splits dest!: feed_readsD(1) feed_RequireReader_reads
        intro: only_reads_trans one only_reads_trans [OF only_reads_trans])
qed

lemma list_reads: "only_reads db (snd (listHandler V caller own db))"
  by (auto simp: listHandler_def split: prod.splits sum.splits dest: feed_readsD)

lemma batch_queries_reads: "only_reads db (snd (batch_queries V caller bqs db))"
proof (induction bqs arbitrary: db)
  case (Cons bq bqs)
  let ?go_on = "\<lambda>q d. case batch_queries V caller bqs d of (Inl r, d') \<Rightarrow> (Inl r, d') | (Inr (qs, rs), d') \<Rightarrow> (Inr (q # qs, rs), d')"
  have on: "only_reads db (snd (?go_on q d))" if "only_reads db d" for q d
    using only_reads_trans [OF that Cons [of d]] by (auto split: prod.split sum.split)
  have refused: "only_reads db (snd (case batch_queries V caller bqs d of
      (Inl r, d') \<Rightarrow> (Inl r, d') | (Inr (qs, rs), d') \<Rightarrow> (Inr (qs, kr # rs), d')))" if "only_reads db d" for kr d
    using only_reads_trans [OF that Cons [of d]] by (auto split: prod.split sum.split)
  show ?case
  proof (cases "bqOwnerPeerID bq = [] \<or> bqPath bq = [] \<or> validatePath (bqPath bq) \<noteq> None")
    case True
    then show ?thesis using Cons [of db] by simp
  next
    case False
    show ?thesis
    proof (cases "peer_Decode (sfPeer V) (bqOwnerPeerID bq)")
      case None
      then show ?thesis using False on [of db] by simp
    next
      case (Some owner)
      obtain x d where g: "pg_GetFeed (sfPeer V) owner (bqPath bq) db = (x, d)" by fastforce
      have d: "only_reads db d" by (rule feed_readsD(1) [OF g])
      show ?thesis
      proof (cases "\<exists>feed. x = Inr (Some feed)")
        case True
        then obtain feed where x: "x = Inr (Some feed)" by blast
        obtain e d' where r: "RequireReader (sfPeer V) (geBans (sfGates V)) caller StoreFeed (rowID feed) (rowOwner feed) (rowVisibility feed) d = (e, d')"
          by fastforce
        have "only_reads db d'" by (rule only_reads_trans [OF d feed_RequireReader_reads [OF r]])
        then show ?thesis using False Some g x r on [of d'] refused [of d'] by (simp add: Let_def split: option.split)
      next
        case other: False
        then show ?thesis using False Some g d on [of d] by (auto simp: Let_def split: sum.split option.split)
      qed
    qed
  qed
qed simp

lemma multi_reads: "only_reads db (snd (pg_GetMultiFeedEntries L arrival qs db))"
proof -
  have resolve: "only_reads db (snd (resolve_feeds L qs db))" for qs db
  proof (induction qs arbitrary: db)
    case (Cons q qs)
    have "resolve_feeds L qs d0 = (x, d') \<Longrightarrow> only_reads d0 d'" for d0 x d' using Cons [of d0] by simp
    then show ?case
      by (auto simp: Let_def split: prod.splits sum.splits option.splits dest!: feed_readsD(1) intro: only_reads_trans)
  qed simp
  have fetch: "only_reads db (snd (fetch_feeds refs db))" for refs db
  proof (induction refs arbitrary: db)
    case (Cons r refs)
    obtain k ref where r: "r = (k, ref)" by (cases r)
    obtain x d where f: "feed_result ref db = (x, d)" by fastforce
    then have "only_reads db d"
      by (auto simp: feed_result_def Let_def split: prod.splits sum.splits dest: feed_readsD)
    from only_reads_trans [OF this Cons [of d]] show ?case using r f by (simp add: Let_def case_prod_beta)
  qed simp
  obtain rs d where r: "resolve_feeds L qs db = (rs, d)" by fastforce
  then have "only_reads db d" using resolve [of db qs] by simp
  from only_reads_trans [OF this fetch] show ?thesis using r by (simp add: pg_GetMultiFeedEntries_def case_prod_beta Let_def)
qed

lemma batch_reads: "only_reads db (snd (batchGetHandler V arrival caller req db))"
proof -
  obtain x d where b: "batch_queries V caller (frBatchQueries req) db = (x, d)" by fastforce
  then have "only_reads db d" using batch_queries_reads [of db V caller "frBatchQueries req"] by simp
  moreover from only_reads_trans [OF this multi_reads]
  have "only_reads db (snd (pg_GetMultiFeedEntries (sfPeer V) arrival qs d))" for qs .
  ultimately show ?thesis using b by (auto simp: batchGetHandler_def case_prod_beta Let_def split: sum.split)
qed

lemma feed_ownD: "feed_own own db (snd p) \<Longrightarrow> p = (x, d) \<Longrightarrow> feed_own own db d"
  by simp

lemma createHandler_own: "feeds_inv db \<Longrightarrow> feed_own (peer_String (sfPeer V) own) db (snd (createHandler V own req db))"
  by (auto simp: createHandler_def split: sum.splits prod.splits intro: feed_own_refl feed_ownD [OF create_own])

lemma deleteHandler_own: "feeds_inv db \<Longrightarrow> feed_own (peer_String (sfPeer V) own) db (snd (deleteHandler V own req db))"
  by (auto simp: deleteHandler_def split: sum.splits prod.splits intro: feed_ownD [OF delete_feed_own])

text \<open>An append by the owner, or by anyone to a feed that is collaborative.\<close>

lemma append_refused_reads: "append_refused V i db = (x, d) \<Longrightarrow> only_reads db d"
  by (auto simp: append_refused_def split: option.splits if_splits prod.splits sum.splits dest: feed_readsD)

lemma only_reads_feeds:
  assumes "only_reads db d"
  shows "feeds_inv d = feeds_inv db" "feeds d = feeds db"
proof -
  have "feeds_inv (db\<lparr>faults := fs\<rparr>) = feeds_inv db" "feeds (db\<lparr>faults := fs\<rparr>) = feeds db" for fs by (simp_all add: feeds_inv_defs)
  then show "feeds_inv d = feeds_inv db" "feeds d = feeds db" using assms unfolding only_reads_def by metis+
qed

lemma appendHandler_own:
  assumes inv: "feeds_inv db"
    and may: "own = caller \<or> (\<forall>f. find_feed (peer_String (sfPeer V) own) (frPath req) db = Some f \<longrightarrow> CollaborativeMode f)"
  shows "feed_own (peer_String (sfPeer V) caller) db (snd (appendHandler V caller own req db))"
proof -
  let ?o = "peer_String (sfPeer V) caller"
  obtain x d where g: "pg_GetFeed (sfPeer V) own (frPath req) db = (x, d)" by fastforce
  have d: "only_reads db d" by (rule feed_readsD(1) [OF g])
  show ?thesis
  proof (cases "\<exists>feed content. x = Inr (Some feed) \<and> DecodeString (frBody req) = Some content")
    case True
    then obtain feed content where x: "x = Inr (Some feed)" "DecodeString (frBody req) = Some content" by blast
    obtain q d' where r: "append_refused V (rowID feed) d = (q, d')" by fastforce
    have d': "only_reads db d'" by (rule only_reads_trans [OF d append_refused_reads [OF r]])
    have v: "stmt (\<lambda>d. (Inr (find_feed (peer_String (sfPeer V) own) (frPath req) d), d)) db = (Inr (Some feed), d)"
      using g x(1) by (simp add: pg_GetFeed_def)
    have "find_feed (peer_String (sfPeer V) own) (frPath req) db = Some feed" using stmt_value [OF v] by simp
    then have f: "feed \<in> set (feeds d')" "rowOwner feed = ?o \<or> CollaborativeMode feed"
      using find_feedD [of "peer_String (sfPeer V) own" "frPath req" db feed] may only_reads_feeds(2) [OF d'] by auto
    have "feeds_inv d'" using inv only_reads_feeds(1) [OF d'] by simp
    from append_own [OF this f]
    have "feed_own ?o db (snd (pg_AppendFeedEntry (sfPeer V) (rowID feed) content caller (frEntryType req) d'))"
      using feed_own_reads(1) [OF d'] by simp
    then show ?thesis
      using g x r feed_own_only_reads [OF inv d'] by (auto simp: appendHandler_def split: option.split prod.split sum.split)
  next
    case False
    then show ?thesis using g feed_own_only_reads [OF inv d] by (auto simp: appendHandler_def split: option.split sum.split)
  qed
qed

text \<open>Changing the access of one's own feed.\<close>

lemma feed_access_reads: "acKind req = StoreFeed \<Longrightarrow> only_reads db (snd (access_list C req v db))"
proof -
  have "only_reads db (snd (pg_ListStoreReaders C StoreFeed i db))" for i
    by (simp add: pg_ListStoreReaders_def tablesFor_feed only_reads_stmt)
  then have "pg_ListStoreReaders C StoreFeed i db = (x, d) \<Longrightarrow> only_reads db d" for i x d by (metis snd_conv)
  then show "acKind req = StoreFeed \<Longrightarrow> only_reads db (snd (access_list C req v db))"
    by (auto simp: access_list_def split: prod.splits sum.splits)
qed

lemma then_feed_access_own:
  "feed_own own db d \<Longrightarrow> acKind req = StoreFeed \<Longrightarrow> feed_own own db (snd (access_list C req v d))"
  using feed_own_reads(2) [OF feed_access_reads] by blast

lemmas feed_access_results = feed_ownD [OF feed_visibility_own] feed_ownD [OF feed_reader_own(1)] feed_ownD [OF feed_reader_own(2)]

lemma feed_StoreAccess_own:
  assumes inv: "feeds_inv db" and f: "f \<in> set (feeds db)" "rowOwner f = peer_String L (acOwnerID req)"
    and req: "acKind req = StoreFeed" "acID req = rowID f"
  shows "feed_own (peer_String L (acOwnerID req)) db (snd (StoreAccess L C req db))"
  unfolding StoreAccess_def
  using inv f req
  by (auto split: sum.splits prod.splits option.splits intro!: then_feed_access_own feed_own_refl intro: feed_access_results)

lemma accessHandler_own:
  assumes inv: "feeds_inv db"
  shows "feed_own (peer_String (sfPeer V) caller) db (snd (accessHandler V caller req db))"
proof -
  let ?o = "peer_String (sfPeer V) caller"
  obtain x d where g: "pg_GetFeed (sfPeer V) caller (frPath req) db = (x, d)" by fastforce
  have d: "only_reads db d" by (rule feed_readsD(1) [OF g])
  show ?thesis
  proof (cases "\<exists>feed. x = Inr (Some feed)")
    case True
    then obtain feed where x: "x = Inr (Some feed)" by blast
    have f: "feed \<in> set (feeds d)" "rowOwner feed = ?o" using GetFeed_found [OF g [unfolded x]] by auto
    have "feeds_inv d" using inv only_reads_feeds(1) [OF d] by simp
    then have "feed_own ?o d (snd (StoreAccess (sfPeer V) (sfColl V) q d))"
      if "acKind q = StoreFeed" "acID q = rowID feed" "acOwnerID q = caller" for q
      using feed_StoreAccess_own [of d feed "sfPeer V" q] f that by simp
    then show ?thesis using g x feed_own_reads(1) [OF d] by (simp add: accessHandler_def case_prod_beta Let_def)
  next
    case False
    then show ?thesis using g feed_own_only_reads [OF inv d] by (auto simp: accessHandler_def split: sum.split option.split)
  qed
qed

section \<open>The whole protocol\<close>

lemma validation_result:
  assumes v: "feed_commonValidation V caller req db = (Inr owner, d)" and op: "frOperation req \<noteq> ''BATCH_GET''"
  shows "\<exists>own. owner = Some own \<and> (frOperation req \<in> {''CREATE'', ''DELETE''} \<longrightarrow> own = caller)
     \<and> (frOperation req = ''APPEND'' \<longrightarrow> own = caller
          \<or> (\<exists>f. find_feed (peer_String (sfPeer V) own) (frPath req) db = Some f \<and> CollaborativeMode f))"
proof (cases "peer_Decode (sfPeer V) (frOwnerPeerID req)")
  case None
  then show ?thesis using v op by (simp add: feed_commonValidation_def split: if_splits)
next
  case (Some own)
  have found: "find_feed (peer_String (sfPeer V) own) (frPath req) db = Some f"
    if "pg_GetFeed (sfPeer V) own (frPath req) db = (Inr (Some f), d)" for f d
    using that by (auto simp: pg_GetFeed_def dest!: stmt_value)
  show ?thesis
    using v op unfolding feed_commonValidation_def Some option.case
    by (auto split: if_splits option.splits prod.splits sum.splits dest: found)
qed

lemma validation_reads: "only_reads db (snd (feed_commonValidation V caller req db))"
  by (auto simp: feed_commonValidation_def split: option.splits prod.splits sum.splits dest: feed_readsD(1))

lemma sfa_handle_branches:
  "snd (sfa_handle V arrival caller (Some own) opn req db) =
     (if opn = ''BATCH_GET'' then snd (batchGetHandler V arrival caller req db)
      else if opn = ''ACCESS'' then snd (accessHandler V caller req db)
      else if opn = ''CREATE'' then snd (createHandler V own req db)
      else if opn = ''GET'' then snd (getHandler V caller own req db)
      else if opn = ''APPEND'' then snd (appendHandler V caller own req db)
      else if opn = ''DELETE'' then snd (deleteHandler V own req db)
      else snd (listHandler V caller own db))"
  unfolding sfa_handle_def option.case by (simp only: if_distrib [of snd] snd_apfst)

lemma sfa_handle_own:
  assumes inv: "feeds_inv db"
    and owner: "opn \<noteq> ''BATCH_GET'' \<Longrightarrow> \<exists>own. owner = Some own \<and> (opn \<in> {''CREATE'', ''DELETE''} \<longrightarrow> own = caller)
       \<and> (opn = ''APPEND'' \<longrightarrow> own = caller
            \<or> (\<exists>f. find_feed (peer_String (sfPeer V) own) (frPath req) db = Some f \<and> CollaborativeMode f))"
  shows "feed_own (peer_String (sfPeer V) caller) db (snd (sfa_handle V arrival caller owner opn req db))"
proof (cases "opn = ''BATCH_GET''")
  case True
  have "snd (sfa_handle V arrival caller owner opn req db) = snd (batchGetHandler V arrival caller req db)"
    unfolding sfa_handle_def True by simp
  then show ?thesis using feed_own_only_reads [OF inv batch_reads] by (simp only:)
next
  case False
  obtain own where own: "owner = Some own" "opn \<in> {''CREATE'', ''DELETE''} \<longrightarrow> own = caller"
    "opn = ''APPEND'' \<longrightarrow> own = caller \<or> (\<exists>f. find_feed (peer_String (sfPeer V) own) (frPath req) db = Some f \<and> CollaborativeMode f)"
    using owner [OF False] by (elim exE conjE)
  let ?own = "feed_own (peer_String (sfPeer V) caller) db"
  have create: "opn = ''CREATE'' \<Longrightarrow> ?own (snd (createHandler V own req db))"
    using createHandler_own [OF inv, of V own req] own(2) by simp
  have delete: "opn = ''DELETE'' \<Longrightarrow> ?own (snd (deleteHandler V own req db))"
    using deleteHandler_own [OF inv, of V own req] own(2) by simp
  have app: "opn = ''APPEND'' \<Longrightarrow> ?own (snd (appendHandler V caller own req db))"
    by (rule appendHandler_own [OF inv], drule mp [OF own(3)], elim disjE exE conjE) simp_all
  show ?thesis
    unfolding own(1) sfa_handle_branches if_split [where P = ?own]
    by (intro conjI impI;
        (rule feed_own_only_reads [OF inv batch_reads] accessHandler_own [OF inv] feed_own_only_reads [OF inv get_reads]
              feed_own_only_reads [OF inv list_reads]
         | erule create | erule app | erule delete))
qed

lemma dec_FeedRequest_operation:
  "dec_FeedRequest kvs = Some req \<Longrightarrow> json_field dec_string [] ''operation'' kvs = Some (frOperation req)"
  by (auto simp: dec_FeedRequest_def bind_eq_Some_conv)

text \<open>
  C10. Whatever a peer sends to the feed protocol in a body that spells the key of the operation in one
  way, and whatever fails below it, the feeds of other owners keep their entries, readers, visibility and settings. Only a feed its owner made collaborative
  may gain entries, behind those it has and recorded as written by this very peer; no feed appears under
  another owner; documents, collections and the directory are untouched; and the tables stay
  consistent. The router reads the exact key, as documented.
\<close>

theorem feed_writes_confined:
  assumes inv: "feeds_inv db"
    and router: "exact_router (sfJson V) (sfForge V)" and one: "one_spelling (sfJson V) ''operation'' raw"
  shows "feeds_inv (snd (sfa_serve V arrival caller raw db))
    \<and> confined (peer_String (sfPeer V) caller) db (snd (sfa_serve V arrival caller raw db))"
proof -
  let ?o = "peer_String (sfPeer V) caller"
  have "feed_own ?o db (snd (sfa_serve V arrival caller raw db))"
  proof (cases "feed_gates (sfGates V) caller raw")
    case None
    show ?thesis
    proof (cases "Option.bind (object_fields (sfJson V) raw) dec_FeedRequest")
      case (Some req)
      then obtain kvs where kvs: "object_fields (sfJson V) raw = Some kvs" "dec_FeedRequest kvs = Some req" by (auto simp: bind_eq_Some_conv)
      obtain x d where v: "feed_commonValidation V caller req db = (x, d)" by fastforce
      have d: "only_reads db d" using validation_reads [of db V caller req] v by simp
      show ?thesis
      proof (cases "\<exists>owner opn. x = Inr owner \<and> fgOperation (sfForge V) ''operation'' raw = Inr opn \<and> opn \<in> set sfa_operations")
        case True
        then obtain owner opn where o: "x = Inr owner" "fgOperation (sfForge V) ''operation'' raw = Inr opn" "opn \<in> set sfa_operations" by blast
        have same: "frOperation req = opn" using router_agrees [OF router one o(2) kvs(1)] dec_FeedRequest_operation [OF kvs(2)] by simp
        have "find_feed own p d = find_feed own p db" for own p by (simp add: find_feed_def only_reads_feeds(2) [OF d])
        then have "feed_own ?o d (snd (sfa_handle V arrival caller owner opn req d))"
          using validation_result [OF v [unfolded o(1)]] inv only_reads_feeds(1) [OF d]
          by (intro sfa_handle_own) (auto simp: same)
        then have "feed_own ?o db (snd (sfa_handle V arrival caller owner opn req d))" using feed_own_reads(1) [OF d] by simp
        then show ?thesis using None Some v o by (auto simp: sfa_serve_def split: prod.split go.split)
      next
        case False
        then have "snd (sfa_serve V arrival caller raw db) = d"
          using None Some v by (auto simp: sfa_serve_def split: sum.split)
        then show ?thesis using feed_own_only_reads [OF inv d] by simp
      qed
    qed (use None feed_own_refl [OF inv] in \<open>simp add: sfa_serve_def\<close>)
  qed (use feed_own_refl [OF inv] in \<open>simp add: sfa_serve_def\<close>)
  then show ?thesis by (simp add: feed_own_def)
qed

definition create_feed_text :: json_text where
  "create_feed_text = one_request (JObj [(''operation'', JStr ''CREATE''), (''ownerPeerId'', JStr ''62''), (''path'', JStr ''log'')])"

definition feed_env :: "json_text \<Rightarrow> gate_env \<Rightarrow> sfa_env" where
  "feed_env T G = \<lparr>sfPeer = hex_peers, sfJson = T, sfColl = map of_char, sfForge = field_router T, sfGates = G, sfMaxEntries = Some 10\<rparr>"

theorem feed_writes_confined_witness:
  "let db = (empty_stores 9)\<lparr>feeds := [old_feed], store_next := 20\<rparr>;
       served = sfa_serve (feed_env create_feed_text demo_gates) [] (PeerID ''b'') [] db
   in confined ''62'' db (snd served) \<and> map rowOwner (feeds (snd served)) = [''61'', ''62'']"
proof -
  let ?db = "(empty_stores 9)\<lparr>feeds := [old_feed], store_next := 20\<rparr>"
  let ?V = "feed_env create_feed_text demo_gates"
  let ?s = "sfa_serve ?V [] (PeerID ''b'') [] ?db"
  have "case ?s of (r, d) \<Rightarrow> map rowOwner (feeds d) = [''61'', ''62'']" by code_simp
  then have a: "map rowOwner (feeds (snd ?s)) = [''61'', ''62'']" by (simp add: case_prod_beta)
  have c: "peer_String (sfPeer ?V) (PeerID ''b'') = ''62''" by code_simp
  have inv: "feeds_inv ?db"
    by (simp add: feeds_inv_defs old_feed_def demo_feed_def empty_stores_def)
  have "confined (peer_String (sfPeer ?V) (PeerID ''b'')) ?db (snd ?s)"
  proof (rule conjunct2 [OF feed_writes_confined [OF inv]])
    show "exact_router (sfJson ?V) (sfForge ?V)" by (simp add: feed_env_def)
    show "one_spelling (sfJson ?V) ''operation'' []" by code_simp
  qed
  then show ?thesis using a c by (simp add: Let_def)
qed


section \<open>Writes that the budget gate does not see\<close>

lemma batch_queries_gates:
  "geBans (sfGates V') = geBans (sfGates V) \<Longrightarrow> sfPeer V' = sfPeer V \<Longrightarrow> batch_queries V' caller qs db = batch_queries V caller qs db"
proof (induction qs arbitrary: db)
  case (Cons q qs)
  show ?case by (simp only: batch_queries.simps Cons.IH [OF Cons.prems] Cons.prems)
qed simp

text \<open>What the handlers read of the gates is the list of bans.\<close>

lemma sfa_handle_gates:
  assumes "geBans G = geBans (sfGates V)"
  shows "sfa_handle (V\<lparr>sfGates := G\<rparr>) arrival caller owner opn req db = sfa_handle V arrival caller owner opn req db"
proof -
  let ?V = "V\<lparr>sfGates := G\<rparr>"
  have same: "geBans (sfGates ?V) = geBans (sfGates V)" "sfPeer ?V = sfPeer V" "sfJson ?V = sfJson V" "sfColl ?V = sfColl V"
    "sfMaxEntries ?V = sfMaxEntries V" using assms by simp_all
  note batch = batch_queries_gates [OF same(1,2)]
  have body: "json_body ?V = json_body V" by (intro ext) (simp add: json_body_def)
  have page: "handleGetEntries ?V f r d = handleGetEntries V f r d" "handleGetMetadata ?V f = handleGetMetadata V f"
    "handleGetEntry ?V f n d = handleGetEntry V f n d" "append_refused ?V n d = append_refused V n d" for f r d n
    unfolding handleGetEntries_def handleGetMetadata_def handleGetEntry_def append_refused_def body same by (rule refl)+
  have "createHandler ?V own r d = createHandler V own r d" "getHandler ?V c own r d = getHandler V c own r d"
    "appendHandler ?V c own r d = appendHandler V c own r d" "deleteHandler ?V own r d = deleteHandler V own r d"
    "listHandler ?V c own d = listHandler V c own d" "batchGetHandler ?V as c r d = batchGetHandler V as c r d"
    "accessHandler ?V c r d = accessHandler V c r d" for own c r d as
    unfolding createHandler_def getHandler_def appendHandler_def deleteHandler_def listHandler_def
      batchGetHandler_def accessHandler_def page body batch same by (rule refl)+
  then show ?thesis by (simp only: sfa_handle_def)
qed

text \<open>
  The budget gate misses a write whose operation is spelt with a JSON escape. On a server over its
  storage budget, a frame with the bytes of a writing operation's name is refused and changes nothing;
  a frame that only decodes to such an operation is served exactly as if the server had no budget.
\<close>

theorem escaped_write_passes_budget:
  assumes over: "geSampler (sfGates V) = Some s" "OverBudget s"
    and others: "first_refusal [BanGate (geBans (sfGates V)) None caller raw, geRate (sfGates V), DrainGate (geDrain (sfGates V)), geAdmit (sfGates V)] = None"
  shows "sfa_serve V arrival caller raw db =
    (if feed_isWriteClassifier raw then (Return (docResponseWriter (Inl ErrStorageFull)), db)
     else sfa_serve (V\<lparr>sfGates := (sfGates V)\<lparr>geSampler := None\<rparr>\<rparr>) arrival caller raw db)"
proof (cases "feed_isWriteClassifier raw")
  case True
  then show ?thesis
    using over others by (auto simp: sfa_serve_def feed_gates_def WriteGate_def first_refusal_None)
next
  let ?G = "(sfGates V)\<lparr>geSampler := None\<rparr>"
  case False
  then have gates: "feed_gates (sfGates V) caller raw = None" "feed_gates ?G caller raw = None"
    using others by (auto simp: feed_gates_def WriteGate_def first_refusal_None over)
  have same: "sfPeer (V\<lparr>sfGates := ?G\<rparr>) = sfPeer V" "sfJson (V\<lparr>sfGates := ?G\<rparr>) = sfJson V" "sfForge (V\<lparr>sfGates := ?G\<rparr>) = sfForge V"
    "sfGates (V\<lparr>sfGates := ?G\<rparr>) = ?G" by simp_all
  have handled: "sfa_handle (V\<lparr>sfGates := ?G\<rparr>) ar c own opn req d = sfa_handle V ar c own opn req d" for ar c own opn req d
    by (rule sfa_handle_gates) simp
  have checked: "feed_commonValidation (V\<lparr>sfGates := ?G\<rparr>) c req d = feed_commonValidation V c req d" for c req d
    unfolding feed_commonValidation_def same by (rule refl)
  have "sfa_serve V arrival caller raw db = sfa_serve (V\<lparr>sfGates := ?G\<rparr>) arrival caller raw db"
    unfolding sfa_serve_def handled checked same gates by (rule refl)
  then show ?thesis using False by simp
qed

definition text_bytes :: "string \<Rightarrow> bytes" where
  "text_bytes s = map (\<lambda>c. of_nat (of_char c)) s"

lemma raw_text_bytes: "raw_text (text_bytes s) = s"
  by (induction s) (simp_all add: raw_text_def text_bytes_def unat_of_nat)

definition plain_create :: bytes where
  "plain_create = text_bytes ''{\"operation\":\"CREATE\"}''"

definition escaped_create :: bytes where
  "escaped_create = text_bytes (''{\"operation\":\"'' @ CHR 0x5C # ''u0043REATE\"}'')"

definition full_gates :: gate_env where
  "full_gates = demo_gates\<lparr>geSampler := Some \<lparr>maxStorageBytes = 5,
     latest = Some \<lparr>SampledAt = 0, DatabaseBytes = 5, statMessages = 0, statMailboxes = 0\<rparr>\<rparr>\<rparr>"

theorem escaped_write_passes_budget_witness:
  "let V = feed_env create_feed_text full_gates; db = empty_stores 9
   in sfa_serve V [] (PeerID ''b'') plain_create db = (Return (docResponseWriter (Inl ErrStorageFull)), db)
    \<and> map rowOwner (feeds (snd (sfa_serve V [] (PeerID ''b'') escaped_create db))) = [''62'']"
proof -
  let ?V = "feed_env create_feed_text full_gates" and ?db = "empty_stores 9"
  let ?W = "?V\<lparr>sfGates := (sfGates ?V)\<lparr>geSampler := None\<rparr>\<rparr>"
  obtain s where s: "geSampler (sfGates ?V) = Some s" "OverBudget s"
    by (simp add: feed_env_def full_gates_def OverBudget_def Latest_def)
  have open_gates: "first_refusal [BanGate (geBans (sfGates ?V)) None (PeerID ''b'') raw, geRate (sfGates ?V), DrainGate (geDrain (sfGates ?V)),
      geAdmit (sfGates ?V)] = None" for raw by code_simp
  have w: "feed_isWriteClassifier plain_create" "\<not> feed_isWriteClassifier escaped_create"
    unfolding feed_isWriteClassifier_def plain_create_def escaped_create_def raw_text_bytes by code_simp+
  have "case sfa_serve ?W [] (PeerID ''b'') escaped_create ?db of (r, d) \<Rightarrow> map rowOwner (feeds d) = [''62'']" by code_simp
  then have e: "map rowOwner (feeds (snd (sfa_serve ?W [] (PeerID ''b'') escaped_create ?db))) = [''62'']" by (simp add: case_prod_beta)
  show ?thesis
    using escaped_write_passes_budget [OF s open_gates, of "[]" plain_create ?db]
      escaped_write_passes_budget [OF s open_gates, of "[]" escaped_create ?db] e w
    by (simp only: Let_def if_True if_False)
qed

end
