(* ===== verification/Jsonb_Filter.thy ===== *)
theory Jsonb_Filter
  imports Stores "HOL-Library.Char_ord"
begin

text \<open>
  The filters of a collection query (\<^verbatim>\<open>src/internal/storage/postgres/jsonb_filter.go\<close>): a JSON object is
  translated to a condition of SQL with numbered parameters and the list of their values.

  A Go map is the list of its members in the order in which the runtime happens to iterate over them,
  so that what is shown of every list is shown of every order.
\<close>

section \<open>The translation\<close>

datatype filter_arg = AnyArg json | TextArg string

definition valid_field_char :: "char \<Rightarrow> bool" where
  "valid_field_char c \<longleftrightarrow>
     (CHR ''a'' \<le> c \<and> c \<le> CHR ''z'') \<or> (CHR ''A'' \<le> c \<and> c \<le> CHR ''Z'') \<or> (CHR ''0'' \<le> c \<and> c \<le> CHR ''9'')
     \<or> c = CHR ''_'' \<or> c = CHR ''.'' \<or> c = CHR ''-''"

definition validFieldName :: "string \<Rightarrow> bool" where
  "validFieldName s \<longleftrightarrow> s \<noteq> [] \<and> list_all valid_field_char s"

definition comparisonOps :: "(string \<times> string) list" where
  "comparisonOps = [(''$lt'', ''<''), (''$lte'', ''<=''), (''$gt'', ''>''), (''$gte'', ''>='')]"

definition invalid_filter :: "string \<Rightarrow> err" where
  "invalid_filter why = Wrapped [] ErrInvalidFilter ('': '' @ why)"

text \<open>\<^verbatim>\<open>string(jsonVal)\<close> of a marshalled value; values that were decoded from JSON always marshal.\<close>

definition marshalled :: "json_text \<Rightarrow> json \<Rightarrow> string" where
  "marshalled T j = map (\<lambda>b. char_of (unat b)) (json_enc T j)"

text \<open>One operator of an operator object, and all of them.\<close>

definition build_op :: "json_text \<Rightarrow> string \<Rightarrow> string \<Rightarrow> json \<Rightarrow> nat \<Rightarrow> err + string \<times> filter_arg" where
  "build_op T key opn v i =
     (case map_of comparisonOps opn of
        Some c \<Rightarrow> Inr (''(content->>'' @ [CHR 0x27] @ key @ [CHR 0x27] @ '')::numeric '' @ c @ '' $'' @ show_nat i, AnyArg v)
      | None \<Rightarrow>
          if opn = ''$ilike''
          then (case v of
                  JStr pattern \<Rightarrow> Inr (''content->>'' @ [CHR 0x27] @ key @ [CHR 0x27] @ '' ILIKE $'' @ show_nat i, TextArg pattern)
                | _ \<Rightarrow> Inl (invalid_filter ''$ilike requires a string value''))
          else if opn = ''$contains''
          then Inr (''content->'' @ [CHR 0x27] @ key @ [CHR 0x27] @ '' @> $'' @ show_nat i @ ''::jsonb'', TextArg (marshalled T v))
          else Inl (invalid_filter (''unknown operator '' @ opn)))"

fun build_ops :: "json_text \<Rightarrow> string \<Rightarrow> (string \<times> json) list \<Rightarrow> nat \<Rightarrow> err + string list \<times> filter_arg list" where
  "build_ops T key [] i = Inr ([], [])"
| "build_ops T key ((opn, v) # ops) i =
     (case build_op T key opn v i of
        Inl e \<Rightarrow> Inl e
      | Inr (c, a) \<Rightarrow>
          (case build_ops T key ops (i + 1) of
             Inl e \<Rightarrow> Inl e
           | Inr (cs, as) \<Rightarrow> Inr (c # cs, a # as)))"

text \<open>What the clauses of one object become.\<close>

definition joined :: "string list \<times> filter_arg list \<Rightarrow> string \<times> filter_arg list" where
  "joined r = (if fst r = [] then (''TRUE'', []) else (join '' AND '' (fst r), snd r))"

text \<open>
  The loop over the members of a filter and the loop over the array of a \<^verbatim>\<open>$and\<close> or \<^verbatim>\<open>$or\<close>, which calls
  \<^verbatim>\<open>BuildJSONBFilter\<close> for each of its objects.
\<close>

fun build_members :: "json_text \<Rightarrow> (string \<times> json) list \<Rightarrow> nat \<Rightarrow> err + string list \<times> filter_arg list"
and build_array :: "json_text \<Rightarrow> string \<Rightarrow> json list \<Rightarrow> nat \<Rightarrow> err + string list \<times> filter_arg list" where
  "build_members T [] i = Inr ([], [])"
| "build_members T ((key, v) # kvs) i =
     (case (if key = ''$and'' \<or> key = ''$or''
            then (case v of
                    JArr arr \<Rightarrow>
                      if arr = [] then Inr ([], [])
                      else (case build_array T key arr i of
                              Inl e \<Rightarrow> Inl e
                            | Inr (subs, as) \<Rightarrow>
                                Inr ([''('' @ join (if key = ''$or'' then '' OR '' else '' AND '') subs @ '')''], as))
                  | _ \<Rightarrow> Inl (invalid_filter (''operator '' @ key @ '' requires an array'')))
            else if \<not> validFieldName key then Inl (invalid_filter (''invalid field name '' @ quoted key))
            else (case v of
                    JObj ops \<Rightarrow> build_ops T key ops i
                  | _ \<Rightarrow> Inr ([''content @> $'' @ show_nat i @ ''::jsonb''], [TextArg (marshalled T (JObj [(key, v)]))]))) of
        Inl e \<Rightarrow> Inl e
      | Inr (cs, as) \<Rightarrow>
          (case build_members T kvs (i + length as) of
             Inl e \<Rightarrow> Inl e
           | Inr (cs', as') \<Rightarrow> Inr (cs @ cs', as @ as')))"
| "build_array T key [] i = Inr ([], [])"
| "build_array T key (item # items) i =
     (case item of
        JObj sub \<Rightarrow>
          (case build_members T sub i of
             Inl e \<Rightarrow> Inl e
           | Inr r \<Rightarrow>
               (case build_array T key items (i + length (snd (joined r))) of
                  Inl e \<Rightarrow> Inl e
                | Inr (cs, as) \<Rightarrow> Inr (fst (joined r) # cs, snd (joined r) @ as)))
      | _ \<Rightarrow> Inl (invalid_filter (''operator '' @ key @ '' array items must be objects'')))"

definition BuildJSONBFilter :: "json_text \<Rightarrow> (string \<times> json) list \<Rightarrow> nat \<Rightarrow> err + string \<times> filter_arg list" where
  "BuildJSONBFilter T flt i =
     (if flt = [] then Inr (''TRUE'', [])
      else case build_members T flt i of Inl e \<Rightarrow> Inl e | Inr r \<Rightarrow> Inr (joined r))"


section \<open>What a filter may put into a statement\<close>

text \<open>
  A condition is put together from pieces: fixed fragments of SQL, names of fields, and holes for
  parameters, which are numbered from left to right.
\<close>

datatype piece = Fixed string | Name string | Hole filter_arg

definition sql_fragments :: "string list" where
  "sql_fragments = [''TRUE'', ''('', '')'', '' AND '', '' OR '', ''(content->>'' @ [CHR 0x27], [CHR 0x27] @ '')::numeric <'', [CHR 0x27] @ '')::numeric <='',
     [CHR 0x27] @ '')::numeric >'', [CHR 0x27] @ '')::numeric >='', '' $'', ''content->>'' @ [CHR 0x27], [CHR 0x27] @ '' ILIKE $'',
     ''content->'' @ [CHR 0x27], [CHR 0x27] @ '' @> $'', ''::jsonb'', ''content @> $'']"

fun piece_ok :: "piece \<Rightarrow> bool" where
  "piece_ok (Fixed s) \<longleftrightarrow> s \<in> set sql_fragments"
| "piece_ok (Name s) \<longleftrightarrow> validFieldName s"
| "piece_ok (Hole a) \<longleftrightarrow> True"

fun render :: "nat \<Rightarrow> piece list \<Rightarrow> string" where
  "render i [] = []"
| "render i (Fixed s # ps) = s @ render i ps"
| "render i (Name s # ps) = s @ render i ps"
| "render i (Hole a # ps) = show_nat i @ render (i + 1) ps"

fun holes :: "piece list \<Rightarrow> filter_arg list" where
  "holes [] = []"
| "holes (Hole a # ps) = a # holes ps"
| "holes (_ # ps) = holes ps"

lemma holes_append [simp]: "holes (ps @ qs) = holes ps @ holes qs"
  by (induction ps rule: holes.induct) simp_all

lemma render_append: "render i (ps @ qs) = render i ps @ render (i + length (holes ps)) qs"
  by (induction i ps rule: render.induct) simp_all

text \<open>A text with its parameters that is made of such pieces, and a list of them.\<close>

definition composed :: "nat \<Rightarrow> string \<Rightarrow> filter_arg list \<Rightarrow> bool" where
  "composed i s as \<longleftrightarrow> (\<exists>ps. s = render i ps \<and> as = holes ps \<and> list_all piece_ok ps)"

inductive composed_list :: "nat \<Rightarrow> string list \<Rightarrow> filter_arg list \<Rightarrow> bool" where
  Nil: "composed_list i [] []"
| Cons: "composed i s as \<Longrightarrow> composed_list (i + length as) ss as' \<Longrightarrow> composed_list i (s # ss) (as @ as')"

lemma composed_append: "composed i s as \<Longrightarrow> composed (i + length as) t as' \<Longrightarrow> composed i (s @ t) (as @ as')"
  unfolding composed_def by (metis holes_append list_all_append render_append)

lemma composed_fixed: "s \<in> set sql_fragments \<Longrightarrow> composed i s []"
  unfolding composed_def by (intro exI [of _ "[Fixed s]"]) simp

lemma composed_list_append:
  "composed_list i ss as \<Longrightarrow> composed_list (i + length as) ts as' \<Longrightarrow> composed_list i (ss @ ts) (as @ as')"
  by (induction rule: composed_list.induct) (auto simp: add.assoc intro: composed_list.Cons)

lemma composed_join:
  assumes "sep \<in> set sql_fragments" "composed_list i ss as"
  shows "composed i (join sep ss) as"
  using assms(2)
proof induction
  case (Nil i)
  show ?case unfolding composed_def by (intro exI [of _ "[]"]) simp
next
  case (Cons i s as ss as')
  show ?case
  proof (cases ss)
    case Nil
    then show ?thesis using Cons by (auto elim: composed_list.cases)
  next
    case (Cons t ts)
    then have "composed (i + length as) (sep @ join sep ss) as'"
      using composed_append [OF composed_fixed [OF assms(1)], of "i + length as"] Cons.IH by simp
    then show ?thesis using composed_append [OF Cons.hyps(1)] Cons by simp
  qed
qed

lemma composed_listI1: "composed i s as \<Longrightarrow> composed_list i [s] as"
  using composed_list.Cons [OF _ composed_list.Nil] by fastforce

lemma composed_list_Cons1: "composed i s [a] \<Longrightarrow> composed_list (i + 1) ss as \<Longrightarrow> composed_list i (s # ss) (a # as)"
  using composed_list.Cons [of i s "[a]" ss as] by simp

lemma composed_op:
  assumes "build_op T key opn v i = Inr (s, a)" "validFieldName key"
  shows "composed i s [a]"
proof -
  let ?q = "[CHR 0x27]"
  have frag: "f \<in> set sql_fragments \<Longrightarrow> g \<in> set sql_fragments \<Longrightarrow> h \<in> set sql_fragments
      \<Longrightarrow> composed i (f @ key @ g @ h @ show_nat i) [a]" for f g h
    unfolding composed_def using assms(2) by (intro exI [of _ "[Fixed f, Name key, Fixed g, Fixed h, Hole a]"]) simp
  have frag2: "f \<in> set sql_fragments \<Longrightarrow> g \<in> set sql_fragments
      \<Longrightarrow> composed i (f @ key @ g @ show_nat i) [a]" for f g
    unfolding composed_def using assms(2) by (intro exI [of _ "[Fixed f, Name key, Fixed g, Hole a]"]) simp
  have frag3: "f \<in> set sql_fragments \<Longrightarrow> g \<in> set sql_fragments \<Longrightarrow> h \<in> set sql_fragments
      \<Longrightarrow> composed i (f @ key @ g @ show_nat i @ h) [a]" for f g h
    unfolding composed_def using assms(2) by (intro exI [of _ "[Fixed f, Name key, Fixed g, Hole a, Fixed h]"]) simp
  consider (cmp) c where "map_of comparisonOps opn = Some c" "s = (''(content->>'' @ ?q) @ key @ (?q @ '')::numeric '' @ c) @ '' $'' @ show_nat i"
    | (ilike) "s = (''content->>'' @ ?q) @ key @ (?q @ '' ILIKE $'') @ show_nat i"
    | (contains) "s = (''content->'' @ ?q) @ key @ (?q @ '' @> $'') @ show_nat i @ ''::jsonb''"
    using assms(1) by (auto simp: build_op_def split: option.splits if_splits json.splits)
  then show ?thesis
  proof cases
    case cmp
    then have "?q @ '')::numeric '' @ c \<in> set sql_fragments"
      by (auto simp: comparisonOps_def sql_fragments_def split: if_splits)
    then show ?thesis unfolding cmp(2) by (intro frag) (simp_all add: sql_fragments_def)
  next
    case ilike
    then show ?thesis unfolding ilike by (intro frag2) (simp_all add: sql_fragments_def)
  next
    case contains
    then show ?thesis unfolding contains by (intro frag3) (simp_all add: sql_fragments_def)
  qed
qed

lemma composed_ops: "build_ops T key ops i = Inr (ss, as) \<Longrightarrow> validFieldName key \<Longrightarrow> composed_list i ss as"
  by (induction T key ops i arbitrary: ss as rule: build_ops.induct)
     (auto split: sum.splits prod.splits intro: composed_list.Nil composed_list_Cons1 composed_op)

lemma composed_equality: "composed i (''content @> $'' @ show_nat i @ ''::jsonb'') [a]"
  unfolding composed_def
  by (intro exI [of _ "[Fixed ''content @> $'', Hole a, Fixed ''::jsonb'']"]) (simp add: sql_fragments_def)

lemma composed_parens:
  assumes "composed i s as"
  shows "composed i (''('' @ s @ '')'') as"
proof -
  have "composed (i + length as) '')'' []" "composed i ''('' []" by (simp_all add: composed_fixed sql_fragments_def)
  then have "composed i (''('' @ s) as" using composed_append [of i "''(''" "[]" s as] assms by simp
  then show ?thesis using composed_append [of i "''('' @ s" as "'')''" "[]"] \<open>composed (i + length as) '')'' []\<close> by simp
qed

lemma composed_joined: "composed_list i (fst r) (snd r) \<Longrightarrow> composed i (fst (joined r)) (snd (joined r))"
  by (simp add: joined_def composed_join composed_fixed sql_fragments_def)

lemma composed_members:
  "build_members T kvs i = Inr (ss, as) \<Longrightarrow> composed_list i ss as"
  "build_array T key js i = Inr (ts, bs) \<Longrightarrow> composed_list i ts bs"
proof (induction T kvs i and T key js i arbitrary: ss as and ts bs rule: build_members_build_array.induct)
  case (2 T key v kvs i)
  from "2.prems" obtain cs1 as1 cs2 as2 where rest: "build_members T kvs (i + length as1) = Inr (cs2, as2)" "ss = cs1 @ cs2" "as = as1 @ as2"
    and one: "(if key = ''$and'' \<or> key = ''$or''
            then (case v of
                    JArr arr \<Rightarrow>
                      if arr = [] then Inr ([], [])
                      else (case build_array T key arr i of
                              Inl e \<Rightarrow> Inl e
                            | Inr (subs, as) \<Rightarrow>
                                Inr ([''('' @ join (if key = ''$or'' then '' OR '' else '' AND '') subs @ '')''], as))
                  | _ \<Rightarrow> Inl (invalid_filter (''operator '' @ key @ '' requires an array'')))
            else if \<not> validFieldName key then Inl (invalid_filter (''invalid field name '' @ quoted key))
            else (case v of
                    JObj ops \<Rightarrow> build_ops T key ops i
                  | _ \<Rightarrow> Inr ([''content @> $'' @ show_nat i @ ''::jsonb''], [TextArg (marshalled T (JObj [(key, v)]))]))) = Inr (cs1, as1)"
    by (auto split: sum.splits)
  have "composed_list i cs1 as1"
  proof (cases "key = ''$and'' \<or> key = ''$or''")
    case True
    then obtain arr where arr: "v = JArr arr" using one by (auto split: json.splits)
    show ?thesis
    proof (cases "arr = []")
      case False
      then obtain subs where subs: "build_array T key arr i = Inr (subs, as1)"
        "cs1 = [''('' @ join (if key = ''$or'' then '' OR '' else '' AND '') subs @ '')'']"
        using one True arr by (auto split: sum.splits prod.splits)
      have "composed_list i subs as1" by (rule "2.IH"(1) [OF True arr False subs(1)])
      then have "composed i (join (if key = ''$or'' then '' OR '' else '' AND '') subs) as1"
        by (rule composed_join [rotated]) (simp add: sql_fragments_def)
      then show ?thesis unfolding subs(2) by (intro composed_listI1 composed_parens)
    qed (use one True arr composed_list.Nil in simp)
  next
    case False
    then show ?thesis
      using one composed_ops [of T key _ i cs1 as1] composed_listI1 [OF composed_equality]
      by (auto split: json.splits if_splits)
  qed
  then show ?case using "2.IH"(2) [OF one refl rest(1)] rest(2,3) by (simp add: composed_list_append)
next
  case (4 T key item items i)
  then show ?case
    by (auto split: json.splits sum.splits prod.splits intro!: composed_list.Cons composed_joined)
qed (auto intro: composed_list.Nil)

text \<open>
  C14. A filter cannot put text of its own into a statement. Whatever object a client sends and in
  whatever order its members are visited, a condition that is built consists of fixed fragments of SQL,
  names made of letters, digits and the characters underscore, dot and hyphen, and parameters; and the
  parameters are numbered without gap from the given number on, in the order of the values returned.
\<close>

theorem filter_is_parameterized:
  assumes "BuildJSONBFilter T flt i = Inr (clause, args)"
  shows "\<exists>ps. clause = render i ps \<and> args = holes ps \<and> list_all piece_ok ps"
proof (cases "flt = []")
  case True
  then show ?thesis
    using assms composed_fixed [of "''TRUE''" i] by (simp add: BuildJSONBFilter_def composed_def sql_fragments_def)
next
  case False
  then obtain r where r: "build_members T flt i = Inr r" "(clause, args) = joined r"
    using assms by (auto simp: BuildJSONBFilter_def split: sum.splits)
  then have "composed_list i (fst r) (snd r)" using composed_members(1) [of T flt i "fst r" "snd r"] by simp
  then have "composed i clause args" using composed_joined [of i r] r(2) by (metis fst_conv snd_conv)
  then show ?thesis by (simp add: composed_def)
qed

theorem filter_is_parameterized_witness:
  "\<exists>ps. ''(content->>'' @ [CHR 0x27] @ ''age'' @ [CHR 0x27] @ '')::numeric < $2 AND (content->>'' @ [CHR 0x27] @ ''n'' @ [CHR 0x27] @ '' ILIKE $3 OR TRUE)''
       = render 2 ps \<and> [AnyArg (JNum 7), TextArg ''x''] = holes ps \<and> list_all piece_ok ps"
proof -
  let ?T = "\<lparr>json_enc = (\<lambda>_. []), json_dec = (\<lambda>_. Inr JNull)\<rparr>"
  have "BuildJSONBFilter ?T
      [(''age'', JObj [(''$lt'', JNum 7)]), (''$or'', JArr [JObj [(''n'', JObj [(''$ilike'', JStr ''x'')])], JObj []])] 2
    = Inr (''(content->>'' @ [CHR 0x27] @ ''age'' @ [CHR 0x27] @ '')::numeric < $2 AND (content->>'' @ [CHR 0x27] @ ''n'' @ [CHR 0x27] @ '' ILIKE $3 OR TRUE)'',
        [AnyArg (JNum 7), TextArg ''x''])" by code_simp
  then show ?thesis by (rule filter_is_parameterized)
qed

end
