(* ===== verification/Collections.thy ===== *)
theory Collections
  imports Jsonb_Filter Feeds
begin

text \<open>
  Collections (\<^verbatim>\<open>src/internal/storage/postgres/collections.go\<close>): JSON items under keys, conditional
  writes, and queries by filters that are paged with cursors.

  The database holds an item as \<^verbatim>\<open>jsonb\<close>. What its engine does with the value is a parameter: the text it
  keeps of a content, or the code and message with which it refuses one; the text of a field
  (\<^verbatim>\<open>COALESCE(content->>'f', '')\<close>); and what a condition with its parameters says of a row.
\<close>

record jsonb_lib =
  jbStore :: "bytes \<Rightarrow> (string \<times> string) + bytes"
  jbField :: "string \<Rightarrow> bytes \<Rightarrow> string"
  jbWhere :: "string \<Rightarrow> filter_arg list \<Rightarrow> bytes \<Rightarrow> err + bool"

section \<open>Collections\<close>

definition find_collection :: "string \<Rightarrow> string \<Rightarrow> stores \<Rightarrow> CollectionRecord option" where
  "find_collection owner path db = find (at_path owner path) (collections db)"

definition items_of :: "int \<Rightarrow> stores \<Rightarrow> CollectionItemRecord list" where
  "items_of i db = filter (\<lambda>r. itmCollectionID r = i) (collection_items db)"

definition pg_CreateCollection :: "peer_lib \<Rightarrow> peer_id \<Rightarrow> string \<Rightarrow> string \<Rightarrow> Visibility \<Rightarrow> CollectionRecord storem" where
  "pg_CreateCollection L ownerID path name vis db = in_context ''create collection: '' (stmt (\<lambda>db.
     (let own = peer_String L ownerID;
          r = \<lparr>rowID = store_next db, rowOwner = own, rowPath = path, rowVisibility = vis, collName = name,
               collCreatedAt = clock db, LastModifiedAt = clock db, RecordCount = 0\<rparr>
      in case find_collection own path db of
           Some _ \<Rightarrow> (Inl (DbError ''unique violation''), db)
         | None \<Rightarrow> (Inr r, db\<lparr>collections := collections db @ [r], store_next := store_next db + 1\<rparr>))) db)"

definition pg_GetCollection :: "peer_lib \<Rightarrow> peer_id \<Rightarrow> string \<Rightarrow> CollectionRecord option storem" where
  "pg_GetCollection L ownerID path db =
     in_context ''get collection: '' (stmt (\<lambda>d. (Inr (find_collection (peer_String L ownerID) path d), d)) db)"

text \<open>The items and the reader list of a collection go with it.\<close>

definition pg_DeleteCollection :: "peer_lib \<Rightarrow> peer_id \<Rightarrow> string \<Rightarrow> bool storem" where
  "pg_DeleteCollection L ownerID path db = in_context ''delete collection: '' (stmt (\<lambda>db.
     (let gone = map rowID (filter (at_path (peer_String L ownerID) path) (collections db))
      in (Inr (gone \<noteq> []),
          db\<lparr>collections := filter (\<lambda>r. \<not> at_path (peer_String L ownerID) path r) (collections db),
             collection_items := filter (\<lambda>e. itmCollectionID e \<notin> set gone) (collection_items db),
             collection_acls := filter (\<lambda>a. rdRow a \<notin> set gone) (collection_acls db)\<rparr>))) db)"

definition pg_ListCollections :: "peer_lib \<Rightarrow> collation \<Rightarrow> peer_id \<Rightarrow> peer_id \<Rightarrow> CollectionRecord list storem" where
  "pg_ListCollections L C ownerID readerID db = in_context ''list collections: '' (stmt (\<lambda>d.
     (Inr (sort_key (\<lambda>r. C (rowPath r))
        (filter (\<lambda>r. rowOwner r = peer_String L ownerID \<and> readableBy (collection_acls d) (peer_String L readerID) r) (collections d))), d)) db)"


section \<open>Items\<close>

definition at_key :: "int \<Rightarrow> string \<Rightarrow> CollectionItemRecord \<Rightarrow> bool" where
  "at_key i key r \<longleftrightarrow> itmCollectionID r = i \<and> itmKey r = key"

definition pg_GetCollectionItem :: "int \<Rightarrow> string \<Rightarrow> CollectionItemRecord option storem" where
  "pg_GetCollectionItem i key db =
     in_context ''get collection item: '' (stmt (\<lambda>d. (Inr (find (at_key i key) (collection_items d)), d)) db)"

definition contentError :: "string \<times> string \<Rightarrow> err" where
  "contentError pgErr =
     (if fst pgErr \<in> {''22P05'', ''22021''} then Wrapped [] ErrInvalidContent ('': '' @ snd pgErr) else DbError (snd pgErr))"

definition touch_collection :: "int \<Rightarrow> int \<Rightarrow> millis \<Rightarrow> CollectionRecord \<Rightarrow> CollectionRecord" where
  "touch_collection i n now r = (if rowID r = i then r\<lparr>RecordCount := RecordCount r + n, LastModifiedAt := now\<rparr> else r)"

text \<open>
  \<^verbatim>\<open>PutCollectionItem\<close> is one transaction under the lock of the item's row: it inserts the item and raises
  the count of its collection, or replaces the item if the condition holds.
\<close>

definition new_item :: "int \<Rightarrow> int \<Rightarrow> string \<Rightarrow> bytes \<Rightarrow> string \<Rightarrow> millis \<Rightarrow> string \<Rightarrow> CollectionItemRecord" where
  "new_item i collectionID key stored contentHash now updatedBy =
     \<lparr>itmID = i, itmCollectionID = collectionID, itmKey = key, itmContent = stored, itmContentHash = contentHash,
      itmVersion = 1, itmCreatedAt = now, itmUpdatedAt = now, itmUpdatedByPeerID = updatedBy\<rparr>"

definition insert_item :: "jsonb_lib \<Rightarrow> string \<Rightarrow> int \<Rightarrow> string \<Rightarrow> bytes \<Rightarrow> (CollectionItemRecord \<times> bool) storem" where
  "insert_item B updatedBy i key content db =
     (case jbStore B content of
        Inl pgErr \<Rightarrow> (Inl (Wrapped ''insert collection item: '' (contentError pgErr) []), db)
      | Inr stored \<Rightarrow>
          if i \<notin> set (map rowID (collections db))
          then (Inl (Wrapped ''insert collection item: '' (DbError ''foreign key violation'') []), db)
          else (let r = new_item (store_next db) i key stored (computeContentHash content) (clock db) updatedBy
                in (Inr (r, True),
                    db\<lparr>collection_items := collection_items db @ [r], collections := map (touch_collection i 1 (clock db)) (collections db),
                       store_next := store_next db + 1\<rparr>)))"

definition update_item :: "jsonb_lib \<Rightarrow> string \<Rightarrow> CollectionItemRecord \<Rightarrow> bytes \<Rightarrow> (CollectionItemRecord \<times> bool) storem" where
  "update_item B updatedBy old content db =
     (case jbStore B content of
        Inl pgErr \<Rightarrow> (Inl (Wrapped ''update collection item: '' (contentError pgErr) []), db)
      | Inr stored \<Rightarrow>
          (let r = old\<lparr>itmContent := stored, itmContentHash := computeContentHash content, itmVersion := itmVersion old + 1,
                       itmUpdatedAt := clock db, itmUpdatedByPeerID := updatedBy\<rparr>
           in (Inr (r, False),
               db\<lparr>collection_items := map (\<lambda>x. if at_key (itmCollectionID old) (itmKey old) x then r else x) (collection_items db),
                  collections := map (touch_collection (itmCollectionID old) 0 (clock db)) (collections db)\<rparr>)))"

definition put_item :: "jsonb_lib \<Rightarrow> string \<Rightarrow> int \<Rightarrow> string \<Rightarrow> bytes \<Rightarrow> string option \<Rightarrow> (CollectionItemRecord \<times> bool) storem" where
  "put_item B updatedBy i key content ifMatch db =
     (case find (at_key i key) (collection_items db) of
        None \<Rightarrow> insert_item B updatedBy i key content db
      | Some old \<Rightarrow>
          (case ifMatch of
             None \<Rightarrow> update_item B updatedBy old content db
           | Some h \<Rightarrow>
               if h \<noteq> itmContentHash old then (Inl (CollectionItemConflictError h (itmContentHash old)), db)
               else update_item B updatedBy old content db))"

definition pg_PutCollectionItem :: "peer_lib \<Rightarrow> jsonb_lib \<Rightarrow> int \<Rightarrow> string \<Rightarrow> bytes \<Rightarrow> peer_id \<Rightarrow> string option
    \<Rightarrow> (CollectionItemRecord \<times> bool) storem" where
  "pg_PutCollectionItem L B i key content updatedBy ifMatch = stmt (put_item B (peer_String L updatedBy) i key content ifMatch)"

definition pg_DeleteCollectionItem :: "int \<Rightarrow> string \<Rightarrow> bool storem" where
  "pg_DeleteCollectionItem i key = stmt (\<lambda>db.
     (let deleted = list_ex (at_key i key) (collection_items db)
      in (Inr deleted,
          if deleted
          then db\<lparr>collection_items := filter (\<lambda>r. \<not> at_key i key r) (collection_items db),
                  collections := map (touch_collection i (- 1) (clock db)) (collections db)\<rparr>
          else db)))"


section \<open>Cursors\<close>

text \<open>
  The unpadded base64 of URLs (\<^verbatim>\<open>base64.RawURLEncoding\<close>), from the padded one by its two other digits.
\<close>

definition url_char :: "char \<Rightarrow> char" where
  "url_char c = (if c = CHR ''+'' then CHR ''-'' else if c = CHR ''/'' then CHR ''_'' else c)"

definition std_char :: "char \<Rightarrow> char option" where
  "std_char c =
     (if c = CHR ''-'' then Some (CHR ''+'') else if c = CHR ''_'' then Some (CHR ''/'')
      else if c = CHR ''+'' \<or> c = CHR ''/'' \<or> c = pad then None else Some c)"

definition RawURL_EncodeToString :: "bytes \<Rightarrow> string" where
  "RawURL_EncodeToString bs = map url_char (filter (\<lambda>c. c \<noteq> pad) (EncodeToString bs))"

definition RawURL_DecodeString :: "string \<Rightarrow> bytes option" where
  "RawURL_DecodeString s =
     (let t = filter (\<lambda>c. c \<noteq> CHR 0x0A \<and> c \<noteq> CHR 0x0D) s in
      if length t mod 4 = 1 then None
      else case those (map std_char t) of
        None \<Rightarrow> None
      | Some u \<Rightarrow> b64_quads (u @ replicate ((4 - length t mod 4) mod 4) pad))"

definition encodeItemCursor :: "json_text \<Rightarrow> string \<Rightarrow> string \<Rightarrow> string" where
  "encodeItemCursor T srt key = RawURL_EncodeToString (json_enc T (JObj [(''s'', JStr srt), (''k'', JStr key)]))"

text \<open>The words of the decoders behind the error are left out: no client is told them.\<close>

definition decodeItemCursor :: "json_text \<Rightarrow> string \<Rightarrow> err + string \<times> string" where
  "decodeItemCursor T cursor =
     (case do { b \<leftarrow> RawURL_DecodeString cursor;
                kvs \<leftarrow> object_fields T b;
                s \<leftarrow> json_field dec_string [] ''s'' kvs;
                k \<leftarrow> json_field dec_string [] ''k'' kvs;
                Some (s, k) } of
        None \<Rightarrow> Inl (Wrapped [] ErrInvalidCursor [])
      | Some c \<Rightarrow> if snd c = [] then Inl (Wrapped [] ErrInvalidCursor '': no key'') else Inr c)"


section \<open>Listings\<close>

definition clampCollectionLimit :: "int \<Rightarrow> int" where
  "clampCollectionLimit limit = (if limit \<le> 0 then 50 else if 1000 < limit then 1000 else limit)"

definition collectionRecordCount :: "int \<Rightarrow> int storem" where
  "collectionRecordCount i db = in_context ''collection record count: '' (stmt (\<lambda>d.
     (case find (\<lambda>r. rowID r = i) (collections d) of
        None \<Rightarrow> Inl (DbError ''no rows in result set'')
      | Some r \<Rightarrow> Inr (RecordCount r), d)) db)"

text \<open>The cursor a request names: none, or the sort text and key of the item the page starts after.\<close>

definition request_cursor :: "json_text \<Rightarrow> string \<Rightarrow> err + (string \<times> string) option" where
  "request_cursor T cursor =
     (if cursor = [] then Inr None
      else case decodeItemCursor T cursor of Inl e \<Rightarrow> Inl e | Inr c \<Rightarrow> Inr (Some c))"

definition page_rows :: "int \<Rightarrow> int \<Rightarrow> 'a list \<Rightarrow> 'a list" where
  "page_rows limit offset rows = take (nat (limit + 1)) (drop (nat offset) rows)"

definition page_offset :: "(string \<times> string) option \<Rightarrow> int \<Rightarrow> int" where
  "page_offset cur offset = (if cur \<noteq> None \<or> offset < 0 then 0 else offset)"

definition pg_ListCollectionKeys :: "json_text \<Rightarrow> collation \<Rightarrow> int \<Rightarrow> int \<Rightarrow> int \<Rightarrow> string
    \<Rightarrow> (string list \<times> int \<times> string) storem" where
  "pg_ListCollectionKeys T C i lim offset cursor db =
     (let limit = clampCollectionLimit lim in
      case request_cursor T cursor of
        Inl e \<Rightarrow> (Inl e, db)
      | Inr cur \<Rightarrow>
          (case in_context ''list collection keys: '' (stmt (\<lambda>d.
              (Inr (page_rows limit (page_offset cur offset) (sort_key C
                 (filter (\<lambda>k. case cur of None \<Rightarrow> True | Some c \<Rightarrow> C (snd c) < C k) (map itmKey (items_of i d))))), d)) db) of
             (Inl e, db1) \<Rightarrow> (Inl e, db1)
           | (Inr keys, db1) \<Rightarrow>
               (case (if cursor = [] then collectionRecordCount i db1 else (Inr (- 1), db1)) of
                  (Inl e, db2) \<Rightarrow> (Inl e, db2)
                | (Inr total_count, db2) \<Rightarrow>
                    (Inr (if limit < int (length keys)
                          then (take (nat limit) keys, total_count, encodeItemCursor T [] (last (take (nat limit) keys)))
                          else (keys, total_count, [])), db2))))"


section \<open>Queries\<close>

record CollectionQueryResult =
  qrItems :: "CollectionItemRecord list"
  qrTotalCount :: int
  qrHasMore :: bool
  qrNextCursor :: string

text \<open>
  What \<^verbatim>\<open>ORDER BY\<close> and the comparison with a cursor go by: the text of the sort field, if one is named,
  then the key.
\<close>

definition sort_text :: "jsonb_lib \<Rightarrow> string \<Rightarrow> CollectionItemRecord \<Rightarrow> string" where
  "sort_text B sortField r = (if sortField = [] then [] else jbField B sortField (itmContent r))"

definition order_key :: "collation \<Rightarrow> string \<Rightarrow> string \<Rightarrow> string \<Rightarrow> int list list" where
  "order_key C sortField srt key = (if sortField = [] then [C key] else [C srt, C key])"

definition item_key :: "jsonb_lib \<Rightarrow> collation \<Rightarrow> string \<Rightarrow> CollectionItemRecord \<Rightarrow> int list list" where
  "item_key B C sortField r = order_key C sortField (sort_text B sortField r) (itmKey r)"

definition beyond_cursor :: "jsonb_lib \<Rightarrow> collation \<Rightarrow> string \<Rightarrow> bool \<Rightarrow> (string \<times> string) option \<Rightarrow> CollectionItemRecord \<Rightarrow> bool" where
  "beyond_cursor B C sortField asc cur r =
     (case cur of
        None \<Rightarrow> True
      | Some (s, k) \<Rightarrow>
          if asc then order_key C sortField s k < item_key B C sortField r
          else item_key B C sortField r < order_key C sortField s k)"

definition ordered_items :: "jsonb_lib \<Rightarrow> collation \<Rightarrow> string \<Rightarrow> bool \<Rightarrow> CollectionItemRecord list \<Rightarrow> CollectionItemRecord list" where
  "ordered_items B C sortField asc rs =
     (let xs = sort_key (item_key B C sortField) rs in if asc then xs else rev xs)"

text \<open>
  The rows of the statement: those of the collection that the condition holds of. A condition that
  fails on one of them (a text that is not a number, compared as one) fails the statement.
\<close>

fun where_rows :: "(CollectionItemRecord \<Rightarrow> err + bool) \<Rightarrow> CollectionItemRecord list \<Rightarrow> err + CollectionItemRecord list" where
  "where_rows cond [] = Inr []"
| "where_rows cond (r # rs) =
     (case cond r of
        Inl e \<Rightarrow> Inl e
      | Inr b \<Rightarrow> (case where_rows cond rs of Inl e \<Rightarrow> Inl e | Inr xs \<Rightarrow> Inr (if b then r # xs else xs)))"

definition query_rows :: "jsonb_lib \<Rightarrow> collation \<Rightarrow> string \<Rightarrow> filter_arg list \<Rightarrow> string \<Rightarrow> bool \<Rightarrow> (string \<times> string) option \<Rightarrow> int
    \<Rightarrow> stores \<Rightarrow> err + CollectionItemRecord list" where
  "query_rows B C clause args sortField asc cur i db =
     (case where_rows (\<lambda>r. jbWhere B clause args (itmContent r)) (items_of i db) of
        Inl e \<Rightarrow> Inl e
      | Inr rs \<Rightarrow> Inr (ordered_items B C sortField asc (filter (beyond_cursor B C sortField asc cur) rs)))"

text \<open>
  The total: of an unfiltered first page the maintained count of the collection; of a filtered one, when
  the caller asks, the number of matching rows, which the statement reports with every row of the page
  and so not with an empty page; otherwise none.
\<close>

definition query_total :: "bool \<Rightarrow> bool \<Rightarrow> int \<Rightarrow> CollectionItemRecord list \<Rightarrow> CollectionItemRecord list \<Rightarrow> int storem" where
  "query_total filtered counted i rows page db =
     (if \<not> filtered then collectionRecordCount i db
      else (Inr (if counted then (if page = [] then 0 else int (length rows)) else - 1), db))"

definition query_page :: "json_text \<Rightarrow> jsonb_lib \<Rightarrow> string \<Rightarrow> int \<Rightarrow> int \<Rightarrow> CollectionItemRecord list \<Rightarrow> CollectionQueryResult" where
  "query_page T B sortField limit total_count page =
     (if limit < int (length page)
      then (let items = take (nat limit) page; l = last items
            in \<lparr>qrItems = items, qrTotalCount = total_count, qrHasMore = True,
                qrNextCursor = encodeItemCursor T (sort_text B sortField l) (itmKey l)\<rparr>)
      else \<lparr>qrItems = page, qrTotalCount = total_count, qrHasMore = False, qrNextCursor = []\<rparr>)"

definition pg_QueryCollection :: "json_text \<Rightarrow> jsonb_lib \<Rightarrow> collation \<Rightarrow> int \<Rightarrow> (string \<times> json) list \<Rightarrow> string \<Rightarrow> bool \<Rightarrow> int \<Rightarrow> int
    \<Rightarrow> string \<Rightarrow> bool \<Rightarrow> CollectionQueryResult storem" where
  "pg_QueryCollection T B C i flt sortField asc lim offset cursor wantTotal db =
     (let limit = clampCollectionLimit lim in
      case BuildJSONBFilter T flt 2 of
        Inl e \<Rightarrow> (Inl (Wrapped ''build filter: '' e []), db)
      | Inr (clause, args) \<Rightarrow>
          if sortField \<noteq> [] \<and> \<not> validFieldName sortField
          then (Inl (PlainError (''invalid sort field name: '' @ quoted sortField)), db)
          else case request_cursor T cursor of
            Inl e \<Rightarrow> (Inl e, db)
          | Inr cur \<Rightarrow>
              (case in_context ''query collection: '' (stmt (\<lambda>d.
                  (query_rows B C clause args sortField asc cur i d, d)) db) of
                 (Inl e, db1) \<Rightarrow> (Inl e, db1)
               | (Inr rows, db1) \<Rightarrow>
                   (let page = page_rows limit (page_offset cur offset) rows in
                    case (if cursor \<noteq> [] then (Inr (- 1), db1) else query_total (flt \<noteq> []) wantTotal i rows page db1) of
                      (Inl e, db2) \<Rightarrow> (Inl e, db2)
                    | (Inr total_count, db2) \<Rightarrow> (Inr (query_page T B sortField limit total_count page), db2))))"

end
