(* ===== verification/Sca.thy ===== *)
theory Sca
  imports Collections Sda
begin

text \<open>
  The collection protocol (\<^verbatim>\<open>src/internal/protocol/sca/handler.go\<close>): collections of JSON items, their
  listings, queries and access. A handler returns the response it sets (\<open>Inr\<close>) or the error it leaves to
  the response writer (\<open>Inl\<close>).
\<close>

section \<open>Requests and responses\<close>

record CollectionRequest =
  crOperation :: string
  crOwnerPeerID :: string
  crPath :: string
  crKey :: string
  crHeaders :: "(string \<times> string) list"
  crBody :: string
  crName :: string
  crVisibility :: string
  crAccessAction :: string
  crReaderPeerID :: string
  crFilter :: "(string \<times> json) list"
  crSortField :: string
  crSortAsc :: "bool option"
  crLimit :: "int option"
  crOffset :: "int option"
  crCursor :: string
  crWantTotal :: bool

definition dec_CollectionRequest :: "(json \<Rightarrow> json option) \<Rightarrow> (string \<times> json) list \<Rightarrow> CollectionRequest option" where
  "dec_CollectionRequest N kvs = do {
     opn \<leftarrow> json_field dec_string [] ''operation'' kvs;
     own \<leftarrow> json_field dec_string [] ''ownerPeerId'' kvs;
     p \<leftarrow> json_field dec_string [] ''path'' kvs;
     k \<leftarrow> json_field dec_string [] ''key'' kvs;
     hs \<leftarrow> merge_maps dec_string [] (all_values ''headers'' kvs) None;
     b \<leftarrow> json_field dec_string [] ''body'' kvs;
     n \<leftarrow> json_field dec_string [] ''name'' kvs;
     vis \<leftarrow> json_field dec_string [] ''visibility'' kvs;
     aa \<leftarrow> json_field dec_string [] ''accessAction'' kvs;
     rp \<leftarrow> json_field dec_string [] ''readerPeerId'' kvs;
     fl \<leftarrow> merge_maps (go_any N) JNull (all_values ''filter'' kvs) None;
     sf \<leftarrow> json_field dec_string [] ''sortField'' kvs;
     sa \<leftarrow> json_ref (dec_ptr dec_bool) None ''sortAsc'' kvs;
     l \<leftarrow> json_ref (dec_ptr dec_int64) None ''limit'' kvs;
     off \<leftarrow> json_ref (dec_ptr dec_int64) None ''offset'' kvs;
     cu \<leftarrow> json_field dec_string [] ''cursor'' kvs;
     wt \<leftarrow> json_field dec_bool False ''wantTotal'' kvs;
     Some \<lparr>crOperation = opn, crOwnerPeerID = own, crPath = p, crKey = k, crHeaders = (case hs of None \<Rightarrow> [] | Some m \<Rightarrow> m), crBody = b,
           crName = n, crVisibility = vis, crAccessAction = aa, crReaderPeerID = rp,
           crFilter = (case fl of None \<Rightarrow> [] | Some m \<Rightarrow> map_fields m), crSortField = sf, crSortAsc = sa,
           crLimit = l, crOffset = off, crCursor = cu, crWantTotal = wt\<rparr> }"

record CollectionResponse = DocResponse +
  rsData :: bytes

definition coll_respond :: "int \<Rightarrow> (string \<times> header_value) list \<Rightarrow> err + CollectionResponse" where
  "coll_respond status hs = Inr \<lparr>rsStatus = status, rsHeaders = hs, rsBody = [], rsData = []\<rparr>"

definition coll_refuse :: "int \<Rightarrow> string \<Rightarrow> err + CollectionResponse" where
  "coll_refuse status msg = coll_respond status [(''Error'', HStr msg)]"

definition coll_body :: "int \<Rightarrow> (string \<times> header_value) list \<Rightarrow> bytes \<Rightarrow> err + CollectionResponse" where
  "coll_body status hs body = Inr \<lparr>rsStatus = status, rsHeaders = hs, rsBody = EncodeToString body, rsData = []\<rparr>"

definition coll_data :: "int \<Rightarrow> (string \<times> header_value) list \<Rightarrow> bytes \<Rightarrow> err + CollectionResponse" where
  "coll_data status hs raw = Inr \<lparr>rsStatus = status, rsHeaders = hs, rsBody = [], rsData = raw\<rparr>"

definition collectionResponseWriter :: "err + CollectionResponse \<Rightarrow> CollectionResponse" where
  "collectionResponseWriter r =
     (case r of
        Inr x \<Rightarrow> x
      | Inl e \<Rightarrow>
          (let (status, retryAfter) = Classify (Some e); ms = RetryAfterMs retryAfter
           in \<lparr>rsStatus = status,
               rsHeaders = [(''Error'', HStr (ClientMessage (Some e)))] @ (if 0 < ms then [(''Retry-After-Ms'', HInt ms)] else []),
               rsBody = [], rsData = []\<rparr>))"

definition pageHeaders :: "int \<Rightarrow> string \<Rightarrow> (string \<times> header_value) list" where
  "pageHeaders total_count next_cursor =
     [(''Content-Type'', HStr ''application/json''), (''X-Has-More'', HBool (next_cursor \<noteq> []))]
     @ (if 0 \<le> total_count then [(''X-Total-Count'', HInt total_count)] else [])
     @ (if next_cursor \<noteq> [] then [(''Next-Cursor'', HStr next_cursor)] else [])"


section \<open>Handlers\<close>

text \<open>\<open>scOrder\<close> is the order in which Go iterates over the members of a map.\<close>

record sca_env =
  scPeer :: peer_lib
  scJson :: json_lib
  scJsonb :: jsonb_lib
  scColl :: collation
  scOrder :: "(string \<times> json) list \<Rightarrow> (string \<times> json) list"
  scForge :: forge_lib
  scGates :: gate_env

type_synonym sca_handler = "stores \<Rightarrow> (err + CollectionResponse) \<times> stores"

definition scText :: "sca_env \<Rightarrow> json_text" where
  "scText V = json_text.truncate (scJson V)"

fun iterated :: "((string \<times> json) list \<Rightarrow> (string \<times> json) list) \<Rightarrow> json \<Rightarrow> json" where
  "iterated ord (JArr js) = JArr (map (iterated ord) js)"
| "iterated ord (JObj kvs) = JObj (ord (map (\<lambda>kv. (fst kv, iterated ord (snd kv))) kvs))"
| "iterated ord j = j"

definition filter_members :: "sca_env \<Rightarrow> CollectionRequest \<Rightarrow> (string \<times> json) list" where
  "filter_members V req = scOrder V (map (\<lambda>kv. (fst kv, iterated (scOrder V) (snd kv))) (crFilter req))"

text \<open>\<^verbatim>\<open>readableCollection\<close>: what it answers (\<open>Inl\<close>) or the collection.\<close>

definition readableCollection :: "sca_env \<Rightarrow> peer_id \<Rightarrow> peer_id \<Rightarrow> string \<Rightarrow> stores
    \<Rightarrow> ((err + CollectionResponse) + CollectionRecord) \<times> stores" where
  "readableCollection V caller owner path db =
     (case pg_GetCollection (scPeer V) owner path db of
        (Inl e, db1) \<Rightarrow> (Inl (coll_respond 500 []), db1)
      | (Inr None, db1) \<Rightarrow> (Inl (coll_refuse 404 ''collection not found''), db1)
      | (Inr (Some coll), db1) \<Rightarrow>
          (case RequireReader (scPeer V) (geBans (scGates V)) caller StoreCollection (rowID coll) (rowOwner coll) (rowVisibility coll) db1 of
             (Some e, db2) \<Rightarrow> (Inl (Inl e), db2)
           | (None, db2) \<Rightarrow> (Inr coll, db2)))"

definition handleCreate :: "sca_env \<Rightarrow> peer_id \<Rightarrow> CollectionRequest \<Rightarrow> sca_handler" where
  "handleCreate V owner req db =
     (if crPath req = [] then (coll_refuse 400 ''path is required'', db)
      else case (if crVisibility req = [] then Inr VisibilityPrivate else VisibilityFromString (crVisibility req)) of
        Inl e \<Rightarrow> (coll_refuse 400 (error_text e), db)
      | Inr vis \<Rightarrow>
          (case pg_CreateCollection (scPeer V) owner (crPath req) (crName req) vis db of
             (Inl e, db1) \<Rightarrow> (coll_respond 500 [], db1)
           | (Inr coll, db1) \<Rightarrow>
               (coll_body 201 [(''Content-Type'', HStr ''application/json'')] (json_enc (scJson V) (JObj (map_fields
                  [(''id'', JNum (rowID coll)), (''path'', JStr (rowPath coll)), (''name'', JStr (collName coll)),
                   (''recordCount'', JNum (RecordCount coll)), (''visibility'', JStr (Visibility_String (rowVisibility coll)))]))), db1)))"

definition coll_handleGetMetadata :: "sca_env \<Rightarrow> peer_id \<Rightarrow> peer_id \<Rightarrow> CollectionRequest \<Rightarrow> sca_handler" where
  "coll_handleGetMetadata V caller owner req db =
     (if crPath req = [] then (coll_refuse 400 ''path is required'', db)
      else case readableCollection V caller owner (crPath req) db of
        (Inl r, db1) \<Rightarrow> (r, db1)
      | (Inr coll, db1) \<Rightarrow>
          (coll_body 200 [(''Content-Type'', HStr ''application/json''), (''X-Record-Count'', HInt (RecordCount coll))]
             (json_enc (scJson V) (JObj (map_fields
                [(''path'', JStr (rowPath coll)), (''name'', JStr (collName coll)), (''recordCount'', JNum (RecordCount coll)),
                 (''lastModifiedAt'', JNum (LastModifiedAt coll)), (''createdAt'', JNum (collCreatedAt coll)),
                 (''visibility'', JStr (Visibility_String (rowVisibility coll)))]))), db1))"

definition handleGetItem :: "sca_env \<Rightarrow> peer_id \<Rightarrow> peer_id \<Rightarrow> CollectionRequest \<Rightarrow> sca_handler" where
  "handleGetItem V caller owner req db =
     (case readableCollection V caller owner (crPath req) db of
        (Inl r, db1) \<Rightarrow> (r, db1)
      | (Inr coll, db1) \<Rightarrow>
          (case pg_GetCollectionItem (rowID coll) (crKey req) db1 of
             (Inl e, db2) \<Rightarrow> (coll_respond 500 [], db2)
           | (Inr None, db2) \<Rightarrow> (coll_refuse 404 ''item not found'', db2)
           | (Inr (Some item), db2) \<Rightarrow>
               (coll_data 200
                  [(''Content-Type'', HStr ''application/json''), (''ETag'', HStr (itmContentHash item)), (''X-Version'', HInt (itmVersion item)),
                   (''Updated-At'', HInt (itmUpdatedAt item)), (''Created-At'', HInt (itmCreatedAt item))]
                  (itmContent item), db2)))"

definition coll_handleGet :: "sca_env \<Rightarrow> peer_id \<Rightarrow> peer_id \<Rightarrow> CollectionRequest \<Rightarrow> sca_handler" where
  "coll_handleGet V caller owner req db =
     (if crKey req \<noteq> [] then handleGetItem V caller owner req db else coll_handleGetMetadata V caller owner req db)"

definition json_Valid :: "json_text \<Rightarrow> bytes \<Rightarrow> bool" where
  "json_Valid T content = (case json_dec T content of Inl e \<Rightarrow> False | Inr j \<Rightarrow> True)"

definition coll_handlePut :: "sca_env \<Rightarrow> peer_id \<Rightarrow> peer_id \<Rightarrow> CollectionRequest \<Rightarrow> sca_handler" where
  "coll_handlePut V caller owner req db =
     (if crPath req = [] \<or> crKey req = [] then (coll_refuse 400 ''path and key are required'', db)
      else case pg_GetCollection (scPeer V) owner (crPath req) db of
        (Inl e, db1) \<Rightarrow> (coll_respond 500 [], db1)
      | (Inr None, db1) \<Rightarrow> (coll_refuse 404 ''collection not found'', db1)
      | (Inr (Some coll), db1) \<Rightarrow>
          (case DecodeString (crBody req) of
             None \<Rightarrow> (coll_refuse 400 ''invalid base64 body'', db1)
           | Some content \<Rightarrow>
               if \<not> json_Valid (scText V) content then (coll_refuse 400 ''body must be valid JSON'', db1)
               else case pg_PutCollectionItem (scPeer V) (scJsonb V) (rowID coll) (crKey req) content caller
                           (header ''If-Match'' (crHeaders req)) db1 of
                 (Inl e, db2) \<Rightarrow>
                   ((case e of CollectionItemConflictError h a \<Rightarrow> coll_refuse 409 (error_text e) | _ \<Rightarrow> coll_respond 500 []), db2)
               | (Inr (item, created), db2) \<Rightarrow>
                   (coll_respond (if created then 201 else 200)
                      [(''ETag'', HStr (itmContentHash item)), (''X-Version'', HInt (itmVersion item))], db2)))"

definition handleDeleteCollection :: "sca_env \<Rightarrow> peer_id \<Rightarrow> CollectionRequest \<Rightarrow> sca_handler" where
  "handleDeleteCollection V owner req db =
     (if crPath req = [] then (coll_refuse 400 ''path is required'', db)
      else case pg_DeleteCollection (scPeer V) owner (crPath req) db of
        (Inl e, db1) \<Rightarrow> (coll_respond 500 [], db1)
      | (Inr deleted, db1) \<Rightarrow> (coll_respond (if deleted then 204 else 404) [], db1))"

definition handleDeleteItem :: "sca_env \<Rightarrow> peer_id \<Rightarrow> CollectionRequest \<Rightarrow> sca_handler" where
  "handleDeleteItem V owner req db =
     (case pg_GetCollection (scPeer V) owner (crPath req) db of
        (Inl e, db1) \<Rightarrow> (coll_respond 500 [], db1)
      | (Inr None, db1) \<Rightarrow> (coll_refuse 404 ''collection not found'', db1)
      | (Inr (Some coll), db1) \<Rightarrow>
          (case pg_DeleteCollectionItem (rowID coll) (crKey req) db1 of
             (Inl e, db2) \<Rightarrow> (coll_respond 500 [], db2)
           | (Inr deleted, db2) \<Rightarrow> (if deleted then coll_respond 204 [] else coll_refuse 404 ''item not found'', db2)))"

definition coll_handleDelete :: "sca_env \<Rightarrow> peer_id \<Rightarrow> CollectionRequest \<Rightarrow> sca_handler" where
  "coll_handleDelete V owner req db =
     (if crKey req \<noteq> [] then handleDeleteItem V owner req db else handleDeleteCollection V owner req db)"

definition collEntry :: "CollectionRecord \<Rightarrow> json" where
  "collEntry c = JObj
     [(''path'', JStr (rowPath c)), (''name'', JStr (collName c)), (''recordCount'', JNum (RecordCount c)),
      (''lastModifiedAt'', JNum (LastModifiedAt c)), (''createdAt'', JNum (collCreatedAt c)),
      (''visibility'', JStr (Visibility_String (rowVisibility c)))]"

definition handleListCollections :: "sca_env \<Rightarrow> peer_id \<Rightarrow> peer_id \<Rightarrow> sca_handler" where
  "handleListCollections V caller owner db =
     (case pg_ListCollections (scPeer V) (scColl V) owner caller db of
        (Inl e, db1) \<Rightarrow> (coll_respond 500 [], db1)
      | (Inr found, db1) \<Rightarrow>
          (coll_body 200 [(''Content-Type'', HStr ''application/json'')] (json_enc (scJson V)
             (JArr (map collEntry (if HiddenOwner (geBans (scGates V)) caller owner then [] else found)))), db1))"

definition coll_limit :: "CollectionRequest \<Rightarrow> int" where
  "coll_limit req = (case crLimit req of None \<Rightarrow> 50 | Some l \<Rightarrow> if 0 < l then l else 50)"

definition coll_offset :: "CollectionRequest \<Rightarrow> int" where
  "coll_offset req = (case crOffset req of None \<Rightarrow> 0 | Some x \<Rightarrow> if 0 \<le> x then x else 0)"

definition rejected :: "err \<Rightarrow> err + CollectionResponse" where
  "rejected e = coll_refuse (fst (Classify (Some e))) (ClientMessage (Some e))"

text \<open>A listing without keys has a nil slice, which marshals to null.\<close>

definition handleListKeys :: "sca_env \<Rightarrow> peer_id \<Rightarrow> peer_id \<Rightarrow> CollectionRequest \<Rightarrow> sca_handler" where
  "handleListKeys V caller owner req db =
     (case readableCollection V caller owner (crPath req) db of
        (Inl r, db1) \<Rightarrow> (r, db1)
      | (Inr coll, db1) \<Rightarrow>
          (case pg_ListCollectionKeys (scText V) (scColl V) (rowID coll) (coll_limit req) (coll_offset req) (crCursor req) db1 of
             (Inl e, db2) \<Rightarrow> (rejected e, db2)
           | (Inr (keys, total_count, next_cursor), db2) \<Rightarrow>
               (coll_body 200 (pageHeaders total_count next_cursor) (json_enc (scJson V)
                  (JObj [(''keys'', if keys = [] then JNull else JArr (map JStr keys))])), db2)))"

definition coll_handleList :: "sca_env \<Rightarrow> peer_id \<Rightarrow> peer_id \<Rightarrow> CollectionRequest \<Rightarrow> sca_handler" where
  "coll_handleList V caller owner req db =
     (if crPath req \<noteq> [] then handleListKeys V caller owner req db else handleListCollections V caller owner db)"

text \<open>The raw content of an item is embedded in the response, which fails if it is not JSON.\<close>

definition itemJSON :: "json_text \<Rightarrow> CollectionItemRecord \<Rightarrow> json option" where
  "itemJSON T item =
     (case json_dec T (itmContent item) of
        Inl e \<Rightarrow> None
      | Inr j \<Rightarrow> Some (JObj
          [(''key'', JStr (itmKey item)), (''content'', j), (''hash'', JStr (itmContentHash item)),
           (''version'', JNum (itmVersion item)), (''updatedAt'', JNum (itmUpdatedAt item))]))"

definition handleQuery :: "sca_env \<Rightarrow> peer_id \<Rightarrow> peer_id \<Rightarrow> CollectionRequest \<Rightarrow> sca_handler" where
  "handleQuery V caller owner req db =
     (if crPath req = [] then (coll_refuse 400 ''path is required'', db)
      else case readableCollection V caller owner (crPath req) db of
        (Inl r, db1) \<Rightarrow> (r, db1)
      | (Inr coll, db1) \<Rightarrow>
          (case pg_QueryCollection (scText V) (scJsonb V) (scColl V) (rowID coll) (filter_members V req) (crSortField req)
                  (case crSortAsc req of None \<Rightarrow> True | Some b \<Rightarrow> b) (coll_limit req) (coll_offset req) (crCursor req) (crWantTotal req) db1 of
             (Inl e, db2) \<Rightarrow> (rejected e, db2)
           | (Inr result, db2) \<Rightarrow>
               ((case those (map (itemJSON (scText V)) (qrItems result)) of
                   None \<Rightarrow> coll_respond 500 []
                 | Some items \<Rightarrow>
                     coll_data 200 (pageHeaders (qrTotalCount result) (qrNextCursor result))
                       (json_enc (scJson V) (JObj [(''items'', JArr items)]))), db2)))"

definition coll_handleAccess :: "sca_env \<Rightarrow> peer_id \<Rightarrow> CollectionRequest \<Rightarrow> sca_handler" where
  "coll_handleAccess V caller req db =
     (if crPath req = [] then (coll_refuse 400 ''path is required'', db)
      else case pg_GetCollection (scPeer V) caller (crPath req) db of
        (Inl e, db1) \<Rightarrow> (coll_respond 500 [], db1)
      | (Inr None, db1) \<Rightarrow> (coll_refuse 404 ''collection not found'', db1)
      | (Inr (Some coll), db1) \<Rightarrow>
          (let (res, db2) = StoreAccess (scPeer V) (scColl V)
                 \<lparr>acKind = StoreCollection, acOwnerID = caller, acPath = crPath req, acID = rowID coll,
                  acCurrent = rowVisibility coll, acAction = crAccessAction req, acVisibility = crVisibility req,
                  acReaderID = crReaderPeerID req\<rparr> db1
           in (case resBody res of
                 None \<Rightarrow> coll_refuse (resStatus res) (resError res)
               | Some b \<Rightarrow>
                   if resError res \<noteq> [] then coll_refuse (resStatus res) (resError res)
                   else coll_body (resStatus res) [(''Content-Type'', HStr ''application/json''), (''Visibility'', HStr (sabVisibility b))]
                          (json_enc (scJson V) (access_json b)), db2)))"


section \<open>The pipeline\<close>

definition coll_isWriteClassifier :: "json_text \<Rightarrow> bytes \<Rightarrow> bool" where
  "coll_isWriteClassifier T raw =
     (case do {
        kvs \<leftarrow> object_fields T raw;
        opn \<leftarrow> json_field dec_string [] ''operation'' kvs;
        aa \<leftarrow> json_field dec_string [] ''accessAction'' kvs;
        Some (opn, aa) } of
        None \<Rightarrow> False
      | Some (opn, aa) \<Rightarrow> opn \<in> {''CREATE'', ''PUT'', ''DELETE''} \<or> (opn = ''ACCESS'' \<and> aa \<noteq> ''get''))"

definition collection_gates :: "json_text \<Rightarrow> gate_env \<Rightarrow> peer_id \<Rightarrow> bytes \<Rightarrow> err option" where
  "collection_gates T G caller raw =
     first_refusal [BanGate (geBans G) None caller raw, geRate G, DrainGate (geDrain G), geAdmit G,
                    WriteGate (geSampler G) (Some (coll_isWriteClassifier T)) raw]"

definition MaxCollectionKeyLength :: int where "MaxCollectionKeyLength = 256"
definition MaxCollectionNameLength :: int where "MaxCollectionNameLength = 256"

text \<open>\<^verbatim>\<open>commonValidation\<close>: what it answers (\<open>Inl\<close>) or the owner it sets.\<close>

definition coll_commonValidation :: "sca_env \<Rightarrow> peer_id \<Rightarrow> CollectionRequest \<Rightarrow> (err + CollectionResponse) + peer_id" where
  "coll_commonValidation V caller req =
     (if crOwnerPeerID req = [] then Inl (coll_refuse 400 ''ownerPeerId is required'')
      else case peer_Decode (scPeer V) (crOwnerPeerID req) of
        None \<Rightarrow> Inl (coll_refuse 400 ''invalid ownerPeerId'')
      | Some owner \<Rightarrow>
          (case (if crPath req \<noteq> [] then validatePath (crPath req) else None) of
             Some msg \<Rightarrow> Inl (coll_refuse 400 msg)
           | None \<Rightarrow>
               (case first_refusal [CheckString ''key'' (crKey req) MaxCollectionKeyLength, CheckString ''name'' (crName req) MaxCollectionNameLength] of
                  Some e \<Rightarrow> Inl (coll_refuse 400 (error_text e))
                | None \<Rightarrow>
                    (case (if crOperation req \<in> {''CREATE'', ''PUT'', ''DELETE'', ''ACCESS''}
                           then RequireOwner caller owner ''write operations'' else None) of
                       Some e \<Rightarrow> Inl (Inl e)
                     | None \<Rightarrow> Inr owner))))"

definition sca_operations :: "string list" where
  "sca_operations = [''CREATE'', ''GET'', ''PUT'', ''DELETE'', ''LIST'', ''QUERY'', ''ACCESS'']"

definition sca_handle :: "sca_env \<Rightarrow> peer_id \<Rightarrow> peer_id \<Rightarrow> string \<Rightarrow> CollectionRequest \<Rightarrow> sca_handler" where
  "sca_handle V caller owner opn req db =
     (if opn = ''CREATE'' then handleCreate V owner req db
      else if opn = ''GET'' then coll_handleGet V caller owner req db
      else if opn = ''PUT'' then coll_handlePut V caller owner req db
      else if opn = ''DELETE'' then coll_handleDelete V owner req db
      else if opn = ''LIST'' then coll_handleList V caller owner req db
      else if opn = ''QUERY'' then handleQuery V caller owner req db
      else coll_handleAccess V caller req db)"

definition sca_serve :: "sca_env \<Rightarrow> peer_id \<Rightarrow> bytes \<Rightarrow> stores \<Rightarrow> CollectionResponse \<times> stores" where
  "sca_serve V caller raw db =
     (case collection_gates (scText V) (scGates V) caller raw of
        Some e \<Rightarrow> (collectionResponseWriter (Inl e), db)
      | None \<Rightarrow>
          (case Option.bind (object_fields (scText V) raw) (dec_CollectionRequest (jsFloat (scJson V))) of
             None \<Rightarrow> (collectionResponseWriter (Inl (fgDecodeError (scForge V) raw)), db)
           | Some req \<Rightarrow>
               (case coll_commonValidation V caller req of
                  Inl r \<Rightarrow> (collectionResponseWriter r, db)
                | Inr owner \<Rightarrow>
                    (case fgOperation (scForge V) ''operation'' raw of
                       Inl e \<Rightarrow> (collectionResponseWriter (Inl e), db)
                     | Inr opn \<Rightarrow>
                         if opn \<notin> set sca_operations then (collectionResponseWriter (Inl (ErrUnknownOperation opn)), db)
                         else (let (r, db1) = sca_handle V caller owner opn req db in (collectionResponseWriter r, db1))))))"

end
