(* ===== verification/Collections_Props.thy ===== *)
theory Collections_Props
  imports Collections Feeds_Props Sda_Props
begin

text \<open>
  The tables of collections: their invariant, of which the maintained count of items is a part, what any
  run of operations keeps of it, what an operation may change, conditional writes, and cursors.
\<close>

section \<open>The invariant\<close>

definition colls_ok :: "stores \<Rightarrow> bool" where
  "colls_ok db \<longleftrightarrow>
     distinct (map rowID (collections db)) \<and> distinct (map (\<lambda>r. (rowOwner r, rowPath r)) (collections db))
     \<and> (\<forall>c \<in> set (collections db). rowID c < store_next db \<and> RecordCount c = int (length (items_of (rowID c) db)))"

definition items_ok :: "stores \<Rightarrow> bool" where
  "items_ok db \<longleftrightarrow>
     distinct (map itmID (collection_items db)) \<and> distinct (map (\<lambda>x. (itmCollectionID x, itmKey x)) (collection_items db))
     \<and> (\<forall>x \<in> set (collection_items db). itmID x < store_next db \<and> 1 \<le> itmVersion x
          \<and> itmCollectionID x \<in> rowID ` set (collections db))"

definition coll_readers_ok :: "stores \<Rightarrow> bool" where
  "coll_readers_ok db \<longleftrightarrow>
     distinct (map (\<lambda>a. (rdRow a, rdPeer a)) (collection_acls db))
     \<and> (\<forall>a \<in> set (collection_acls db). rdRow a \<in> rowID ` set (collections db))"

definition coll_inv :: "stores \<Rightarrow> bool" where
  "coll_inv db \<longleftrightarrow> colls_ok db \<and> items_ok db \<and> coll_readers_ok db"

lemmas coll_inv_defs = coll_inv_def colls_ok_def items_ok_def coll_readers_ok_def items_of_def

lemma coll_inv_env [simp]:
  "coll_inv (next_faults db) = coll_inv db" "coll_inv (db\<lparr>faults := fs\<rparr>) = coll_inv db"
  "coll_inv (db\<lparr>clock := now\<rparr>) = coll_inv db"
  by (simp_all add: coll_inv_defs)

lemma coll_reads_next_faults [simp]:
  "find_collection own p (next_faults db) = find_collection own p db" "items_of i (next_faults db) = items_of i db"
  by (simp_all add: find_collection_def items_of_def)

lemma find_collectionD: "find_collection own p db = Some c \<Longrightarrow> c \<in> set (collections db) \<and> rowOwner c = own \<and> rowPath c = p"
  using find_SomeD [of "at_path own p" "collections db" c] by (simp add: find_collection_def at_path_def)

lemma find_collection_None: "find_collection own p db = None \<longleftrightarrow> (\<forall>r \<in> set (collections db). \<not> at_path own p r)"
  by (auto simp: find_collection_def find_None_iff)

lemma coll_unique:
  assumes "coll_inv db" "c \<in> set (collections db)" "g \<in> set (collections db)"
  shows "rowID c = rowID g \<longleftrightarrow> c = g"
  using assms by (auto simp: coll_inv_def colls_ok_def distinct_map inj_on_def)

lemma item_unique:
  assumes "coll_inv db" "x \<in> set (collection_items db)" "y \<in> set (collection_items db)"
  shows "itmID x = itmID y \<longleftrightarrow> x = y" "itmCollectionID x = itmCollectionID y \<and> itmKey x = itmKey y \<longleftrightarrow> x = y"
  using assms by (auto simp: coll_inv_def items_ok_def distinct_map inj_on_def)


section \<open>What an owner may change\<close>

definition beside_collections :: "stores \<Rightarrow> document_row list \<times> version_row list \<times> reader_row list \<times> FeedRecord list
    \<times> FeedEntryRecord list \<times> reader_row list \<times> DirectoryEntry list" where
  "beside_collections db = (documents db, document_versions db, document_acls db, feeds db, feed_entries db,
     feed_acls db, directory_listings db)"

definition coll_readers :: "int \<Rightarrow> stores \<Rightarrow> reader_row list" where
  "coll_readers i db = filter (\<lambda>a. rdRow a = i) (collection_acls db)"

text \<open>
  The collections of other owners are the same rows, with the same items and readers; the other stores
  are the same.
\<close>

definition coll_apart :: "string \<Rightarrow> stores \<Rightarrow> stores \<Rightarrow> bool" where
  "coll_apart own db db' \<longleftrightarrow> beside_collections db' = beside_collections db
     \<and> filter (\<lambda>c. rowOwner c \<noteq> own) (collections db') = filter (\<lambda>c. rowOwner c \<noteq> own) (collections db)
     \<and> (\<forall>c \<in> set (collections db). rowOwner c \<noteq> own \<longrightarrow>
          items_of (rowID c) db' = items_of (rowID c) db \<and> coll_readers (rowID c) db' = coll_readers (rowID c) db)"

definition coll_step :: "string \<Rightarrow> stores \<Rightarrow> stores \<Rightarrow> bool" where
  "coll_step own db db' \<longleftrightarrow> coll_inv db' \<and> coll_apart own db db'"

lemmas coll_apart_defs = coll_apart_def beside_collections_def coll_readers_def items_of_def

lemma coll_apart_env [simp]:
  "coll_apart own (next_faults db) db' = coll_apart own db db'" "coll_apart own db (next_faults db') = coll_apart own db db'"
  "coll_apart own (db\<lparr>faults := fs\<rparr>) db' = coll_apart own db db'" "coll_apart own db (db'\<lparr>faults := fs\<rparr>) = coll_apart own db db'"
  "coll_apart own db db"
  by (simp_all add: coll_apart_defs next_faults_def)

lemma coll_step_refl [simp]: "coll_step own db db = coll_inv db"
  by (simp add: coll_step_def)

lemma coll_step_stmt: "coll_inv db \<Longrightarrow> coll_step own (next_faults db) (snd (f (next_faults db))) \<Longrightarrow> coll_step own db (snd (stmt f db))"
  by (rule stmt_snd_case [where Q = "coll_step own db"]) (simp_all add: coll_step_def)

lemma coll_step_reads:
  assumes "only_reads db d"
  shows "coll_step own d db' = coll_step own db db'" "coll_step own db' d = coll_step own db' db" "coll_inv d = coll_inv db"
    "collections d = collections db"
proof -
  have d: "d = db\<lparr>faults := faults d\<rparr>" using assms by (simp add: only_reads_def)
  show "coll_step own d db' = coll_step own db db'" unfolding coll_step_def by (subst d) simp
  show "coll_step own db' d = coll_step own db' db" unfolding coll_step_def by (subst (1 2) d) simp
  show "coll_inv d = coll_inv db" by (subst d) simp
  show "collections d = collections db" by (subst d) simp
qed

lemma coll_step_only_reads: "coll_inv db \<Longrightarrow> only_reads db d \<Longrightarrow> coll_step own db d"
  using coll_step_reads(2) by simp

text \<open>Rows whose count and key columns stay are rewritten.\<close>

lemma rewrite_colls_step:
  fixes up :: "CollectionRecord \<Rightarrow> CollectionRecord"
  assumes inv: "coll_inv d"
    and same: "\<And>x. rowID (up x) = rowID x \<and> rowOwner (up x) = rowOwner x \<and> rowPath (up x) = rowPath x \<and> RecordCount (up x) = RecordCount x"
    and mine: "\<And>x. rowOwner x \<noteq> own \<Longrightarrow> up x = x"
  shows "coll_step own d (d\<lparr>collections := map up (collections d)\<rparr>)"
proof -
  have keys: "map rowID (map up (collections d)) = map rowID (collections d)"
    "map (\<lambda>r. (rowOwner r, rowPath r)) (map up (collections d)) = map (\<lambda>r. (rowOwner r, rowPath r)) (collections d)"
    using same by simp_all
  have "rowID ` up ` set (collections d) = rowID ` set (collections d)" using same by (simp add: image_image)
  then have "coll_inv (d\<lparr>collections := map up (collections d)\<rparr>)"
    using inv keys same unfolding coll_inv_defs by (simp del: map_map)
  moreover have "filter (\<lambda>c. rowOwner c \<noteq> own) (map up cs) = filter (\<lambda>c. rowOwner c \<noteq> own) cs" for cs
    using same mine by (induction cs) auto
  ultimately show ?thesis by (simp add: coll_step_def coll_apart_defs)
qed

lemma CreateCollection_step:
  assumes inv: "coll_inv db"
  shows "coll_step (peer_String L own) db (snd (pg_CreateCollection L own p n vis db))"
  unfolding pg_CreateCollection_def snd_in_context
proof (rule coll_step_stmt [OF inv])
  let ?o = "peer_String L own" and ?d = "next_faults db"
  let ?r = "\<lparr>rowID = store_next db, rowOwner = ?o, rowPath = p, rowVisibility = vis, collName = n,
      collCreatedAt = clock db, LastModifiedAt = clock db, RecordCount = 0\<rparr> :: CollectionRecord"
  have "coll_inv (?d\<lparr>collections := collections db @ [?r], store_next := store_next db + 1\<rparr>)" if "find_collection ?o p db = None"
  proof -
    have "(?o, p) \<notin> (\<lambda>r. (rowOwner r, rowPath r)) ` set (collections db)" using that by (auto simp: find_collection_None at_path_def)
    moreover have "store_next db \<notin> rowID ` set (collections db)" using inv by (fastforce simp: coll_inv_def colls_ok_def)
    moreover have "itmCollectionID x \<noteq> store_next db" if "x \<in> set (collection_items db)" for x
      using inv that by (fastforce simp: coll_inv_def colls_ok_def items_ok_def)
    then have "filter (\<lambda>x. itmCollectionID x = store_next db) (collection_items db) = []" by (simp add: filter_empty_conv)
    ultimately show ?thesis using inv unfolding coll_inv_defs by fastforce
  qed
  then have "coll_step ?o ?d (?d\<lparr>collections := collections db @ [?r], store_next := store_next db + 1\<rparr>)" if "find_collection ?o p db = None"
    using that by (simp add: coll_step_def coll_apart_defs)
  then show "coll_step ?o ?d (snd (let own = ?o; r = \<lparr>rowID = store_next ?d, rowOwner = own, rowPath = p, rowVisibility = vis, collName = n,
        collCreatedAt = clock ?d, LastModifiedAt = clock ?d, RecordCount = 0\<rparr>
      in case find_collection own p ?d of
           None \<Rightarrow> (Inr r, ?d\<lparr>collections := collections ?d @ [r], store_next := store_next ?d + 1\<rparr>)
         | Some _ \<Rightarrow> (Inl (DbError ''unique violation''), ?d)))"
    using inv by (cases "find_collection ?o p db") (simp_all add: Let_def)
qed

lemma DeleteCollection_step:
  assumes inv: "coll_inv db"
  shows "coll_step (peer_String L own) db (snd (pg_DeleteCollection L own p db))"
  unfolding pg_DeleteCollection_def snd_in_context
proof (rule coll_step_stmt [OF inv])
  let ?o = "peer_String L own"
  define d where "d = next_faults db"
  define gone where "gone = set (map rowID (filter (at_path ?o p) (collections d)))"
  let ?d = "d\<lparr>collections := filter (\<lambda>r. \<not> at_path ?o p r) (collections d),
     collection_items := filter (\<lambda>e. itmCollectionID e \<notin> gone) (collection_items d),
     collection_acls := filter (\<lambda>a. rdRow a \<notin> gone) (collection_acls d)\<rparr>"
  have inv: "coll_inv d" using inv by (simp add: d_def)
  have stays: "rowID c \<notin> gone" if "c \<in> set (collections d)" "\<not> at_path ?o p c" for c
    using coll_unique [OF inv that(1)] that(2) by (auto simp: gone_def)
  have "items_of (rowID c) ?d = items_of (rowID c) d \<and> coll_readers (rowID c) ?d = coll_readers (rowID c) d"
    if "c \<in> set (collections d)" "\<not> at_path ?o p c" for c
    using stays [OF that] by (auto simp: items_of_def coll_readers_def intro!: filter_cong)
  note kept = this
  have "colls_ok ?d" using inv kept by (simp add: coll_inv_def colls_ok_def distinct_map_filterI)
  moreover have "items_ok ?d" using inv by (fastforce simp: coll_inv_def items_ok_def distinct_map_filterI gone_def)
  moreover have "coll_readers_ok ?d" using inv by (fastforce simp: coll_inv_def coll_readers_ok_def distinct_map_filterI gone_def)
  moreover have "coll_apart ?o d ?d"
  proof -
    have "\<not> at_path ?o p c" if "rowOwner c \<noteq> ?o" for c :: CollectionRecord using that by (simp add: at_path_def)
    then have "filter (\<lambda>c. rowOwner c \<noteq> ?o) (filter (\<lambda>r. \<not> at_path ?o p r) cs) = filter (\<lambda>c. rowOwner c \<noteq> ?o) cs" for cs :: "CollectionRecord list"
      by (induction cs) auto
    then show ?thesis using kept by (auto simp: coll_apart_def beside_collections_def at_path_def)
  qed
  ultimately have "coll_step ?o d ?d" by (simp add: coll_step_def coll_inv_def)
  then show "coll_step ?o (next_faults db) (snd (let gone = map rowID (filter (at_path ?o p) (collections (next_faults db))) in
      (Inr (gone \<noteq> []), (next_faults db)\<lparr>collections := filter (\<lambda>r. \<not> at_path ?o p r) (collections (next_faults db)),
         collection_items := filter (\<lambda>e. itmCollectionID e \<notin> set gone) (collection_items (next_faults db)),
         collection_acls := filter (\<lambda>a. rdRow a \<notin> set gone) (collection_acls (next_faults db))\<rparr>)))"
    by (simp only: Let_def snd_conv d_def [symmetric] gone_def)
qed

text \<open>The items of one collection change, and its count with them.\<close>

lemma touch_columns [simp]:
  "rowID (touch_collection i n now x) = rowID x" "rowOwner (touch_collection i n now x) = rowOwner x"
  "rowPath (touch_collection i n now x) = rowPath x"
  "RecordCount (touch_collection i n now x) = RecordCount x + (if rowID x = i then n else 0)"
  by (simp_all add: touch_collection_def)

lemma items_change_step:
  assumes inv: "coll_inv d" and c: "c \<in> set (collections d)" "rowID c = i" "rowOwner c = own" and m: "store_next d \<le> m"
    and keys: "distinct (map itmID xs)" "distinct (map (\<lambda>x. (itmCollectionID x, itmKey x)) xs)"
    and rows: "\<And>x. x \<in> set xs \<Longrightarrow> itmID x < m \<and> 1 \<le> itmVersion x \<and> itmCollectionID x \<in> rowID ` set (collections d)"
    and others: "\<And>j. j \<noteq> i \<Longrightarrow> filter (\<lambda>x. itmCollectionID x = j) xs = items_of j d"
    and count: "int (length (filter (\<lambda>x. itmCollectionID x = i) xs)) = int (length (items_of i d)) + n"
  shows "coll_step own d (d\<lparr>collection_items := xs, collections := map (touch_collection i n now) (collections d), store_next := m\<rparr>)"
    (is "coll_step own d ?d")
proof -
  have ids: "rowID ` set (collections ?d) = rowID ` set (collections d)" by (auto simp: image_image)
  have kept: "items_of (rowID g) ?d = items_of (rowID g) d" if "rowID g \<noteq> i" for g :: CollectionRecord
    using others [OF that] by (simp add: items_of_def)
  have "int (length (items_of (rowID g) ?d)) = int (length (items_of (rowID g) d)) + (if rowID g = i then n else 0)" for g :: CollectionRecord
    using count others [of "rowID g"] by (simp add: items_of_def)
  then have "colls_ok ?d" using inv m by (auto simp: coll_inv_def colls_ok_def comp_def intro: less_le_trans)
  moreover have "items_ok ?d" unfolding items_ok_def ids using keys rows by simp
  moreover have "coll_readers_ok ?d" unfolding coll_readers_ok_def ids using inv by (simp add: coll_inv_def coll_readers_ok_def)
  moreover have "coll_apart own d ?d"
  proof -
    have "filter (\<lambda>x. rowOwner x \<noteq> own) (map (touch_collection i n now) cs) = filter (\<lambda>x. rowOwner x \<noteq> own) cs"
      if "set cs \<subseteq> set (collections d)" for cs
      using that
    proof (induction cs)
      case (Cons x cs)
      then have "touch_collection i n now x = x" if "rowOwner x \<noteq> own"
        using coll_unique [OF inv, of x c] c that by (auto simp: touch_collection_def)
      then show ?case using Cons by auto
    qed simp
    moreover have "rowID g \<noteq> i" if "g \<in> set (collections d)" "rowOwner g \<noteq> own" for g
      using coll_unique [OF inv that(1) c(1)] c that(2) by auto
    ultimately show ?thesis using kept by (auto simp: coll_apart_def beside_collections_def coll_readers_def)
  qed
  ultimately show ?thesis by (simp add: coll_step_def coll_inv_def)
qed

lemma insert_item_step:
  assumes inv: "coll_inv d" and free: "find (at_key i key) (collection_items d) = None"
    and c: "\<And>c. c \<in> set (collections d) \<Longrightarrow> rowID c = i \<Longrightarrow> rowOwner c = own"
  shows "coll_step own d (snd (insert_item B who i key content d))"
proof (cases "\<exists>stored. jbStore B content = Inr stored \<and> i \<in> set (map rowID (collections d))")
  case True
  then obtain stored c where s: "jbStore B content = Inr stored" "c \<in> set (collections d)" "rowID c = i" by auto
  let ?r = "new_item (store_next d) i key stored (computeContentHash content) (clock d) who"
  have "(i, key) \<notin> (\<lambda>x. (itmCollectionID x, itmKey x)) ` set (collection_items d)"
    using free by (auto simp: find_None_iff at_key_def)
  moreover have "store_next d \<notin> itmID ` set (collection_items d)" using inv by (fastforce simp: coll_inv_def items_ok_def)
  ultimately have "coll_step own d (d\<lparr>collection_items := collection_items d @ [?r], collections := map (touch_collection i 1 (clock d)) (collections d),
      store_next := store_next d + 1\<rparr>)"
    using inv s(2,3)
    by (intro items_change_step [OF inv s(2,3) c [OF s(2,3)]])
       (auto simp: coll_inv_def items_ok_def new_item_def items_of_def intro: less_trans)
  then show ?thesis using s by (auto simp: insert_item_def Let_def)
next
  case False
  then show ?thesis using inv by (auto simp: insert_item_def split: sum.split)
qed

lemma replace_item:
  assumes inv: "coll_inv d" and old: "old \<in> set (collection_items d)"
    and r: "itmID r = itmID old" "itmCollectionID r = itmCollectionID old" "itmKey r = itmKey old"
  shows "map itmID (map (\<lambda>x. if at_key (itmCollectionID old) (itmKey old) x then r else x) (collection_items d)) = map itmID (collection_items d)"
    "map (\<lambda>x. (itmCollectionID x, itmKey x)) (map (\<lambda>x. if at_key (itmCollectionID old) (itmKey old) x then r else x) (collection_items d))
       = map (\<lambda>x. (itmCollectionID x, itmKey x)) (collection_items d)"
  using r item_unique(2) [OF inv _ old] by (auto simp: at_key_def)

lemma update_item_step:
  assumes inv: "coll_inv d" and old: "old \<in> set (collection_items d)"
    and c: "\<And>c. c \<in> set (collections d) \<Longrightarrow> rowID c = itmCollectionID old \<Longrightarrow> rowOwner c = own"
  shows "coll_step own d (snd (update_item B who old content d))"
proof (cases "jbStore B content")
  case (Inr stored)
  let ?i = "itmCollectionID old"
  obtain c0 where c0: "c0 \<in> set (collections d)" "rowID c0 = ?i" using inv old by (auto simp: coll_inv_def items_ok_def)
  define r where "r = old\<lparr>itmContent := stored, itmContentHash := computeContentHash content, itmVersion := itmVersion old + 1,
      itmUpdatedAt := clock d, itmUpdatedByPeerID := who\<rparr>"
  define f where "f = (\<lambda>x. if at_key ?i (itmKey old) x then r else x)"
  have f: "itmCollectionID (f x) = itmCollectionID x" for x by (simp add: f_def r_def at_key_def)
  have cols: "map itmID (map f (collection_items d)) = map itmID (collection_items d)"
    "map (\<lambda>x. (itmCollectionID x, itmKey x)) (map f (collection_items d)) = map (\<lambda>x. (itmCollectionID x, itmKey x)) (collection_items d)"
    unfolding f_def by (rule replace_item [OF inv old]; simp add: r_def)+
  have at: "filter (\<lambda>x. itmCollectionID x = j) (map f xs) = map f (filter (\<lambda>x. itmCollectionID x = j) xs)" for j xs
    by (induction xs) (auto simp: f)
  have "map f (items_of j d) = items_of j d" if "j \<noteq> ?i" for j
    using that by (intro map_idI) (auto simp: f_def at_key_def items_of_def)
  then have others: "filter (\<lambda>x. itmCollectionID x = j) (map f (collection_items d)) = items_of j d" if "j \<noteq> ?i" for j
    using that by (simp add: at items_of_def)
  have rows: "itmID x < store_next d \<and> 1 \<le> itmVersion x \<and> itmCollectionID x \<in> rowID ` set (collections d)" if "x \<in> set (map f (collection_items d))" for x
    using that inv old by (auto simp: f_def r_def coll_inv_def items_ok_def split: if_splits)
  have "coll_step own d (d\<lparr>collection_items := map f (collection_items d),
      collections := map (touch_collection ?i 0 (clock d)) (collections d), store_next := store_next d\<rparr>)"
    using inv cols rows others at
    by (intro items_change_step [OF inv c0 c [OF c0]]) (simp_all add: coll_inv_def items_ok_def items_of_def del: map_map)
  then show ?thesis using Inr by (simp add: update_item_def Let_def r_def [symmetric] f_def)
qed (simp add: update_item_def inv)

lemma PutItem_step:
  assumes inv: "coll_inv db" and c: "\<And>c. c \<in> set (collections db) \<Longrightarrow> rowID c = i \<Longrightarrow> rowOwner c = own"
  shows "coll_step own db (snd (pg_PutCollectionItem L B i key content who im db))"
  unfolding pg_PutCollectionItem_def
proof (rule coll_step_stmt [OF inv])
  let ?d = "next_faults db"
  have inv: "coll_inv ?d" using inv by simp
  show "coll_step own ?d (snd (put_item B (peer_String L who) i key content im ?d))"
  proof (cases "find (at_key i key) (collection_items ?d)")
    case None
    then show ?thesis using insert_item_step [OF inv None] c by (simp add: put_item_def)
  next
    case (Some old)
    then have old: "old \<in> set (collection_items ?d)" "itmCollectionID old = i" using find_SomeD [OF Some] by (auto simp: at_key_def)
    then show ?thesis using Some update_item_step [OF inv old(1), of own B "peer_String L who" content] c inv
      by (simp add: put_item_def split: option.split)
  qed
qed

lemma DeleteItem_step:
  assumes inv: "coll_inv db" and c: "\<And>c. c \<in> set (collections db) \<Longrightarrow> rowID c = i \<Longrightarrow> rowOwner c = own"
  shows "coll_step own db (snd (pg_DeleteCollectionItem i key db))"
  unfolding pg_DeleteCollectionItem_def
proof (rule coll_step_stmt [OF inv])
  define d where "d = next_faults db"
  have inv: "coll_inv d" using inv by (simp add: d_def)
  have "coll_step own d (d\<lparr>collection_items := filter (\<lambda>r. \<not> at_key i key r) (collection_items d),
      collections := map (touch_collection i (- 1) (clock d)) (collections d), store_next := store_next d\<rparr>)"
    if gone: "list_ex (at_key i key) (collection_items d)"
  proof -
    obtain x where x: "x \<in> set (collection_items d)" "at_key i key x" using gone by (auto simp: list_ex_iff)
    obtain c0 where c0: "c0 \<in> set (collections d)" "rowID c0 = i" using inv x by (auto simp: coll_inv_def items_ok_def at_key_def)
    have own: "rowOwner c0 = own" using c [of c0] c0 by (simp add: d_def)
    have others: "filter (\<lambda>x. itmCollectionID x = j) (filter (\<lambda>r. \<not> at_key i key r) (collection_items d)) = items_of j d" if "j \<noteq> i" for j
      using that by (auto simp: items_of_def at_key_def intro: filter_cong)
    have "filter (\<lambda>y. itmCollectionID y = i \<and> \<not> at_key i key y) xs = remove1 x (filter (\<lambda>y. itmCollectionID y = i) xs)"
      if "distinct xs" "\<forall>y \<in> set xs. at_key i key y \<longrightarrow> y = x" for xs
      using that x(2) by (induction xs) (auto simp: at_key_def filter_empty_conv remove1_idem intro!: filter_cong)
    moreover have "distinct (collection_items d)" using inv by (auto simp: coll_inv_def items_ok_def distinct_map)
    moreover have "\<forall>y \<in> set (collection_items d). at_key i key y \<longrightarrow> y = x"
      using x item_unique(2) [OF inv _ x(1)] by (auto simp: at_key_def)
    ultimately have "filter (\<lambda>y. itmCollectionID y = i) (filter (\<lambda>r. \<not> at_key i key r) (collection_items d)) = remove1 x (items_of i d)"
      by (simp add: items_of_def conj_commute)
    moreover have "x \<in> set (items_of i d)" using x by (simp add: items_of_def at_key_def)
    ultimately have "int (length (filter (\<lambda>y. itmCollectionID y = i) (filter (\<lambda>r. \<not> at_key i key r) (collection_items d)))) = int (length (items_of i d)) + - 1"
      using length_pos_if_in_set [of x "items_of i d"] by (simp add: length_remove1 of_nat_diff Suc_leI)
    then show ?thesis
      using inv others by (intro items_change_step [OF inv c0 own]) (auto simp: coll_inv_def items_ok_def distinct_map_filterI)
  qed
  then show "coll_step own (next_faults db) (snd (let deleted = list_ex (at_key i key) (collection_items (next_faults db))
      in (Inr deleted, if deleted then (next_faults db)\<lparr>collection_items := filter (\<lambda>r. \<not> at_key i key r) (collection_items (next_faults db)),
           collections := map (touch_collection i (- 1) (clock (next_faults db))) (collections (next_faults db))\<rparr> else next_faults db)))"
    using inv unfolding d_def [symmetric] by (simp add: Let_def)
qed

text \<open>Visibility and readers.\<close>

lemma coll_visibility_step:
  assumes inv: "coll_inv db"
  shows "coll_step (peer_String L own) db (snd (pg_SetStoreVisibility L StoreCollection own p v db))"
proof -
  have "coll_step (peer_String L own) d (d\<lparr>collections := set_visibility (peer_String L own) p v (collections d)\<rparr>)" if "coll_inv d" for d
    unfolding set_visibility_def by (rule rewrite_colls_step [OF that]) (auto simp: at_path_def)
  from this [of "next_faults db"] show ?thesis
    using inv by (auto simp: pg_SetStoreVisibility_def tablesFor_collection intro!: coll_step_stmt)
qed

lemma coll_acls_step:
  assumes inv: "coll_inv d" and c: "\<And>c. c \<in> set (collections d) \<Longrightarrow> rowID c = i \<Longrightarrow> rowOwner c = own"
    and "distinct (map (\<lambda>a. (rdRow a, rdPeer a)) as)" "\<forall>a \<in> set as. rdRow a \<in> rowID ` set (collections d)"
    and "\<forall>j. j \<noteq> i \<longrightarrow> filter (\<lambda>a. rdRow a = j) as = filter (\<lambda>a. rdRow a = j) (collection_acls d)"
  shows "coll_step own d (d\<lparr>collection_acls := as\<rparr>)"
  using assms by (auto simp: coll_step_def coll_apart_def beside_collections_def coll_readers_def coll_inv_defs)

lemma coll_reader_step:
  assumes inv: "coll_inv db" and c: "\<And>c. c \<in> set (collections db) \<Longrightarrow> rowID c = i \<Longrightarrow> rowOwner c = own"
  shows "coll_step own db (snd (pg_GrantStoreReader L StoreCollection i p db))"
    "coll_step own db (snd (pg_RevokeStoreReader L StoreCollection i p db))"
proof -
  let ?d = "next_faults db"
  have inv': "coll_inv ?d" using inv by simp
  have c': "c \<in> set (collections ?d) \<Longrightarrow> rowID c = i \<Longrightarrow> rowOwner c = own" for c using c by simp
  have "coll_step own ?d (?d\<lparr>collection_acls := acl_grant t i q (collection_acls db)\<rparr>)" if "i \<in> rowID ` set (collections db)" for t q
    by (rule coll_acls_step [OF inv' c']) (use that inv in \<open>auto simp: acl_grant_def acl_reads_def list_ex_iff coll_inv_def coll_readers_ok_def\<close>)
  then show "coll_step own db (snd (pg_GrantStoreReader L StoreCollection i p db))"
    using inv by (auto simp: pg_GrantStoreReader_def tablesFor_collection intro!: coll_step_stmt)
  have "coll_step own ?d (?d\<lparr>collection_acls := acl_revoke i q (collection_acls db)\<rparr>)" for q
    by (rule coll_acls_step [OF inv' c'])
       (use inv in \<open>auto simp: acl_revoke_def distinct_map_filterI coll_inv_def coll_readers_ok_def intro: filter_cong\<close>)
  then show "coll_step own db (snd (pg_RevokeStoreReader L StoreCollection i p db))"
    using inv by (auto simp: pg_RevokeStoreReader_def tablesFor_collection intro!: coll_step_stmt)
qed


section \<open>Runs of operations\<close>

datatype coll_op =
    CCreate peer_id string string Visibility
  | CDelete peer_id string
  | CPut int string bytes peer_id "string option"
  | CDeleteItem int string
  | CVisibility peer_id string Visibility
  | CGrant int peer_id
  | CRevoke int peer_id
  | CEnvironment millis "fault list"

fun coll_exec :: "peer_lib \<Rightarrow> jsonb_lib \<Rightarrow> coll_op \<Rightarrow> stores \<Rightarrow> stores" where
  "coll_exec L B (CCreate own p n vis) db = snd (pg_CreateCollection L own p n vis db)"
| "coll_exec L B (CDelete own p) db = snd (pg_DeleteCollection L own p db)"
| "coll_exec L B (CPut i key content who im) db = snd (pg_PutCollectionItem L B i key content who im db)"
| "coll_exec L B (CDeleteItem i key) db = snd (pg_DeleteCollectionItem i key db)"
| "coll_exec L B (CVisibility own p v) db = snd (pg_SetStoreVisibility L StoreCollection own p v db)"
| "coll_exec L B (CGrant i p) db = snd (pg_GrantStoreReader L StoreCollection i p db)"
| "coll_exec L B (CRevoke i p) db = snd (pg_RevokeStoreReader L StoreCollection i p db)"
| "coll_exec L B (CEnvironment now fs) db = db\<lparr>clock := now, faults := fs\<rparr>"

lemma coll_exec_inv:
  assumes inv: "coll_inv db"
  shows "coll_inv (coll_exec L B op db)"
proof -
  have "\<exists>own. \<forall>c \<in> set (collections db). rowID c = i \<longrightarrow> rowOwner c = own" for i
    using coll_unique [OF inv] by metis
  then obtain own where own: "\<And>c i. c \<in> set (collections db) \<Longrightarrow> rowID c = i \<Longrightarrow> rowOwner c = own i" by metis
  have "coll_step (own i) db (snd (pg_PutCollectionItem L B i key content who im db))" "coll_step (own i) db (snd (pg_DeleteCollectionItem i key db))"
    "coll_step (own i) db (snd (pg_GrantStoreReader L StoreCollection i p db))" "coll_step (own i) db (snd (pg_RevokeStoreReader L StoreCollection i p db))"
    for i key content who im p
    by (rule PutItem_step [OF inv own] DeleteItem_step [OF inv own] coll_reader_step [OF inv own]; assumption)+
  then have "coll_inv (snd (pg_PutCollectionItem L B i key content who im db))" "coll_inv (snd (pg_DeleteCollectionItem i key db))"
    "coll_inv (snd (pg_GrantStoreReader L StoreCollection i p db))" "coll_inv (snd (pg_RevokeStoreReader L StoreCollection i p db))"
    for i key content who im p by (simp_all add: coll_step_def)
  moreover have "coll_inv (snd (pg_CreateCollection L w q n v db))" "coll_inv (snd (pg_DeleteCollection L w q db))"
    "coll_inv (snd (pg_SetStoreVisibility L StoreCollection w q v db))" for w q n v
    using CreateCollection_step [OF inv] DeleteCollection_step [OF inv] coll_visibility_step [OF inv] by (simp_all add: coll_step_def)
  ultimately show ?thesis using inv by (cases op) simp_all
qed

interpretation coll_run: inv_system "coll_exec L B" coll_inv for L B
  by unfold_locales (rule coll_exec_inv)

text \<open>
  C13. The count of items that a collection maintains is true. After any run of creations, deletions,
  conditional and unconditional writes, removals and access changes by any clients, whatever statements
  fail or lose their replies and whatever contents the database refuses, the count of every collection
  is the number of its items; a collection is unique for its owner and path, an item for its collection
  and key; and no item or reader is left without its collection.
\<close>

theorem record_counts_are_true:
  "coll_inv (fold (coll_exec L B) ops (empty_stores now))"
proof -
  have "coll_inv (empty_stores now)" by (simp add: coll_inv_defs empty_stores_def)
  then show ?thesis by (rule coll_run.run_inv)
qed


section \<open>Conditional writes\<close>

text \<open>
  Writing an item is atomic and conditional. Without faults, a write of an existing item that names
  a tag other than the item's is refused and changes nothing; any other write of it that the database
  accepts stores exactly the content under a version one higher. A read then returns that item, with the
  tag the write reported, and every other item is what it was.
\<close>

theorem conditional_item_writes:
  assumes inv: "coll_inv db" and quiet: "faults db = []"
    and item: "find (at_key i key) (collection_items db) = Some old" and accepted: "jbStore B content = Inr stored"
  shows "case pg_PutCollectionItem L B i key content who ifMatch db of
      (Inl e, db') \<Rightarrow> db' = db \<and> (\<exists>h. ifMatch = Some h \<and> h \<noteq> itmContentHash old \<and> e = CollectionItemConflictError h (itmContentHash old))
    | (Inr (r, created), db') \<Rightarrow>
        \<not> created \<and> ifMatch \<in> {None, Some (itmContentHash old)}
        \<and> itmContent r = stored \<and> itmContentHash r = computeContentHash content \<and> itmVersion r = itmVersion old + 1
        \<and> pg_GetCollectionItem i key db' = (Inr (Some r), db')
        \<and> filter (\<lambda>x. \<not> at_key i key x) (collection_items db') = filter (\<lambda>x. \<not> at_key i key x) (collection_items db)"
proof (cases "ifMatch \<in> {None, Some (itmContentHash old)}")
  case False
  then obtain h where "ifMatch = Some h" "h \<noteq> itmContentHash old" by (cases ifMatch) auto
  then show ?thesis using quiet item by (simp add: pg_PutCollectionItem_def put_item_def)
next
  case True
  have old: "itmCollectionID old = i" "itmKey old = key" using find_SomeD [OF item] by (auto simp: at_key_def)
  define r where "r = old\<lparr>itmContent := stored, itmContentHash := computeContentHash content, itmVersion := itmVersion old + 1,
      itmUpdatedAt := clock db, itmUpdatedByPeerID := peer_String L who\<rparr>"
  define db' where "db' = db\<lparr>collection_items := map (\<lambda>x. if at_key i key x then r else x) (collection_items db),
      collections := map (touch_collection i 0 (clock db)) (collections db)\<rparr>"
  have put: "pg_PutCollectionItem L B i key content who ifMatch db = (Inr (r, False), db')"
    using True quiet item accepted old by (auto simp: pg_PutCollectionItem_def put_item_def update_item_def Let_def r_def db'_def)
  have at: "at_key i key r" using old by (simp add: r_def at_key_def)
  have "find (at_key i key) (map (\<lambda>x. if at_key i key x then r else x) xs) = Some r" if "find (at_key i key) xs = Some old" for xs
    using that at by (induction xs) (auto split: if_splits)
  then have "pg_GetCollectionItem i key db' = (Inr (Some r), db')"
    using item quiet by (simp add: pg_GetCollectionItem_def in_context_def db'_def)
  moreover have "filter (\<lambda>x. \<not> at_key i key x) (map (\<lambda>x. if at_key i key x then r else x) xs) = filter (\<lambda>x. \<not> at_key i key x) xs" for xs
    using at by (induction xs) auto
  ultimately show ?thesis using put True by (simp add: r_def db'_def)
qed

definition plain_jsonb :: jsonb_lib where
  "plain_jsonb = \<lparr>jbStore = Inr, jbField = (\<lambda>f c. []), jbWhere = (\<lambda>q args c. Inr True)\<rparr>"

definition demo_collection :: CollectionRecord where
  "demo_collection = \<lparr>rowID = 1, rowOwner = ''61'', rowPath = ''c'', rowVisibility = VisibilityPublic, collName = [], collCreatedAt = 0,
     LastModifiedAt = 0, RecordCount = 3\<rparr>"

definition demo_item :: "int \<Rightarrow> string \<Rightarrow> CollectionItemRecord" where
  "demo_item i key = new_item i 1 key [] [] 0 ''61''"

definition demo_items :: stores where
  "demo_items = (empty_stores 9)\<lparr>collections := [demo_collection],
     collection_items := [demo_item 2 ''b'', demo_item 3 ''a'', demo_item 4 ''c''], store_next := 5\<rparr>"

lemma demo_items_inv: "coll_inv demo_items" "faults demo_items = []" "1 \<in> rowID ` set (collections demo_items)"
  by (simp_all add: coll_inv_defs demo_items_def demo_collection_def demo_item_def new_item_def empty_stores_def)

theorem conditional_item_writes_witness:
  "\<exists>r db'. pg_PutCollectionItem hex_peers plain_jsonb 1 ''a'' [4] (PeerID ''a'') None demo_items = (Inr (r, False), db')
     \<and> itmContent r = [4] \<and> itmVersion r = 2 \<and> pg_GetCollectionItem 1 ''a'' db' = (Inr (Some r), db')"
proof -
  have old: "find (at_key 1 ''a'') (collection_items demo_items) = Some (demo_item 3 ''a'')"
    by (simp add: demo_items_def demo_item_def new_item_def at_key_def)
  have "jbStore plain_jsonb [4] = Inr [4]" by (simp add: plain_jsonb_def)
  from conditional_item_writes [OF demo_items_inv(1,2) old this, where L = hex_peers and who = "PeerID ''a''" and ifMatch = None]
  show ?thesis by (auto simp: demo_item_def new_item_def split: prod.splits sum.splits)
qed

end
