(* ===== verification/Collections_Paging.thy ===== *)
theory Collections_Paging
  imports Collections_Props
begin

text \<open>
  Cursors of collection queries are read back as they were written, and a client that follows them sees
  every matching item once.
\<close>

section \<open>Cursors\<close>

abbreviation digits_of :: "bytes \<Rightarrow> string" where
  "digits_of bs \<equiv> filter (\<lambda>c. c \<noteq> pad) (EncodeToString bs)"

lemma url_char_back: "list_all (\<lambda>c. std_char (url_char c) = Some c \<and> url_char c \<noteq> CHR 0x0A \<and> url_char c \<noteq> CHR 0x0D) b64_alphabet"
  by code_simp

lemma digits_of_alphabet: "set (digits_of bs) \<subseteq> set b64_alphabet"
  by (induction bs rule: EncodeToString.induct) (auto simp: Let_def b64_char_in)

lemma std_of_url:
  assumes "set cs \<subseteq> set b64_alphabet"
  shows "those (map std_char (map url_char cs)) = Some cs"
    "filter (\<lambda>c. c \<noteq> CHR 0x0A \<and> c \<noteq> CHR 0x0D) (map url_char cs) = map url_char cs"
  using assms url_char_back by (induction cs) (auto simp: list_all_iff)

lemma digits_group: "\<exists>w. EncodeToString (a # b # c # xs) = w @ EncodeToString xs \<and> length w = 4 \<and> filter (\<lambda>c. c \<noteq> pad) w = w"
  unfolding EncodeToString.simps Let_def by (intro exI conjI, rule refl) simp_all

lemma padding_step:
  assumes "length w = 4" "filter (\<lambda>c. c \<noteq> pad) w = w" "s = t @ replicate ((4 - length t mod 4) mod 4) pad"
  shows "w @ s = (w @ t) @ replicate ((4 - length (w @ t) mod 4) mod 4) pad" "length (w @ t) mod 4 = length t mod 4"
  using assms by simp_all

lemma EncodeToString_padding:
  "EncodeToString bs = digits_of bs @ replicate ((4 - length (digits_of bs) mod 4) mod 4) pad \<and> length (digits_of bs) mod 4 \<noteq> 1"
proof (induction bs rule: EncodeToString.induct)
  case (2 a)
  have "digits_of [a] = take 2 (EncodeToString [a])" "length (EncodeToString [a]) = 4" "drop 2 (EncodeToString [a]) = [pad, pad]"
    by (simp_all add: Let_def)
  then show ?case using append_take_drop_id [of 2 "EncodeToString [a]"] by (simp add: numeral_2_eq_2)
next
  case (3 a b)
  have "digits_of [a, b] = take 3 (EncodeToString [a, b])" "length (EncodeToString [a, b]) = 4" "drop 3 (EncodeToString [a, b]) = [pad]"
    by (simp_all add: Let_def)
  then show ?case using append_take_drop_id [of 3 "EncodeToString [a, b]"] by simp
next
  case (4 a b c xs)
  obtain w where w: "EncodeToString (a # b # c # xs) = w @ EncodeToString xs" "length w = 4" "filter (\<lambda>c. c \<noteq> pad) w = w"
    using digits_group by blast
  have d: "digits_of (a # b # c # xs) = w @ digits_of xs" unfolding w(1) filter_append w(3) ..
  note IH = 4 [OF refl]
  show ?case unfolding d unfolding w(1) using padding_step [OF w(2,3) conjunct1 [OF IH]] IH by (intro conjI) simp_all
qed simp

lemma RawURL_roundtrip: "RawURL_DecodeString (RawURL_EncodeToString bs) = Some bs"
proof -
  have "b64_quads (EncodeToString bs) = Some bs"
    using DecodeString_EncodeToString [of bs] by (simp add: DecodeString_def EncodeToString_no_newline)
  then have "b64_quads (digits_of bs @ replicate ((4 - length (digits_of bs) mod 4) mod 4) pad) = Some bs"
    using EncodeToString_padding [of bs] by (simp only:)
  then show ?thesis
    unfolding RawURL_DecodeString_def RawURL_EncodeToString_def Let_def std_of_url [OF digits_of_alphabet]
    using EncodeToString_padding [of bs] by simp
qed

text \<open>What is relied on of \<^verbatim>\<open>encoding/json\<close>: the text of a cursor is not empty and is read back.\<close>

definition cursor_value :: "string \<Rightarrow> string \<Rightarrow> json" where
  "cursor_value srt key = JObj [(''s'', JStr srt), (''k'', JStr key)]"

definition cursor_text_ok :: "json_text \<Rightarrow> string \<Rightarrow> string \<Rightarrow> bool" where
  "cursor_text_ok T srt key \<longleftrightarrow> json_enc T (cursor_value srt key) \<noteq> [] \<and> json_dec T (json_enc T (cursor_value srt key)) = Inr (cursor_value srt key)"

lemma cursor_names: "fold_name ''k'' \<noteq> fold_name ''s''"
  by code_simp

lemma cursor_fields:
  "json_field dec_string [] ''s'' [(''s'', JStr srt), (''k'', JStr key)] = Some srt"
  "json_field dec_string [] ''k'' [(''s'', JStr srt), (''k'', JStr key)] = Some key"
  using cursor_names by (simp_all add: json_field_def field_values_def)

lemma cursor_roundtrip:
  assumes "cursor_text_ok T srt key" "key \<noteq> []"
  shows "request_cursor T (encodeItemCursor T srt key) = Inr (Some (srt, key))" "encodeItemCursor T srt key \<noteq> []"
proof -
  have "decodeItemCursor T (encodeItemCursor T srt key) = Inr (srt, key)"
    using assms cursor_fields
    by (simp add: decodeItemCursor_def encodeItemCursor_def RawURL_roundtrip cursor_text_ok_def cursor_value_def object_fields_def)
  moreover show "encodeItemCursor T srt key \<noteq> []"
  proof
    assume "encodeItemCursor T srt key = []"
    then have "Some (json_enc T (cursor_value srt key)) = RawURL_DecodeString []"
      using RawURL_roundtrip [of "json_enc T (cursor_value srt key)"] by (simp add: encodeItemCursor_def cursor_value_def)
    then show False using assms by (simp add: RawURL_DecodeString_def cursor_text_ok_def)
  qed
  ultimately show "request_cursor T (encodeItemCursor T srt key) = Inr (Some (srt, key))" by (simp add: request_cursor_def)
qed


section \<open>The order of a query\<close>

definition precedes :: "jsonb_lib \<Rightarrow> collation \<Rightarrow> string \<Rightarrow> bool \<Rightarrow> CollectionItemRecord \<Rightarrow> CollectionItemRecord \<Rightarrow> bool" where
  "precedes B C sf asc a b \<longleftrightarrow> (if asc then item_key B C sf a < item_key B C sf b else item_key B C sf b < item_key B C sf a)"

lemma beyond_item: "beyond_cursor B C sf asc (Some (sort_text B sf a, itmKey a)) = precedes B C sf asc a"
  by (simp add: fun_eq_iff beyond_cursor_def precedes_def item_key_def)

lemma precedes_asym: "precedes B C sf asc a b \<Longrightarrow> \<not> precedes B C sf asc b a"
  by (auto simp: precedes_def split: if_splits)

lemma filter_after:
  assumes "sorted_wrt P xs" "\<And>a b. P a b \<Longrightarrow> \<not> P b a" "j < length xs"
  shows "filter (P (xs ! j)) xs = drop (Suc j) xs"
  using assms(1,3)
proof (induction xs arbitrary: j)
  case (Cons x xs)
  show ?case
  proof (cases j)
    case 0
    then show ?thesis using Cons.prems assms(2) [of x x] by (auto intro: filter_True)
  next
    case (Suc i)
    then have "\<not> P (xs ! i) x" using Cons.prems assms(2) [of x "xs ! i"] by auto
    with Suc Cons show ?thesis by simp
  qed
qed simp

lemma ordered_filter: "ordered_items B C sf asc (filter P rs) = filter P (ordered_items B C sf asc rs)"
  by (simp add: ordered_items_def Let_def filter_sort flip: rev_filter)

lemma ordered_items_sorted:
  assumes "inj C" "distinct (map itmKey rs)"
  shows "sorted_wrt (precedes B C sf asc) (ordered_items B C sf asc rs)" "set (ordered_items B C sf asc rs) = set rs"
    "length (ordered_items B C sf asc rs) = length rs"
proof -
  let ?xs = "sort_key (item_key B C sf) rs"
  have "inj_on (item_key B C sf) (set ?xs)"
    using assms by (auto simp: inj_on_def item_key_def order_key_def distinct_map inj_def split: if_splits)
  moreover have "distinct ?xs" using assms(2) by (simp add: distinct_map)
  ultimately have "distinct (map (item_key B C sf) ?xs)" by (simp add: distinct_map)
  then have up: "sorted_wrt (\<lambda>a b. item_key B C sf a < item_key B C sf b) ?xs"
    by (simp add: strict_sorted_iff sorted_wrt_map [symmetric])
  then show "sorted_wrt (precedes B C sf asc) (ordered_items B C sf asc rs)"
    by (cases asc) (simp_all add: ordered_items_def precedes_def [abs_def] sorted_wrt_rev)
qed (simp_all add: ordered_items_def Let_def)


section \<open>Following the cursors\<close>

text \<open>A client that asks for pages until none is left; \<open>None\<close> when it was refused or gave up after \<open>n\<close> pages.\<close>

fun query_all :: "json_text \<Rightarrow> jsonb_lib \<Rightarrow> collation \<Rightarrow> int \<Rightarrow> (string \<times> json) list \<Rightarrow> string \<Rightarrow> bool \<Rightarrow> int \<Rightarrow> bool \<Rightarrow> nat \<Rightarrow> string
    \<Rightarrow> stores \<Rightarrow> CollectionItemRecord list option" where
  "query_all T B C i flt sf asc lim want 0 cursor db = None"
| "query_all T B C i flt sf asc lim want (Suc n) cursor db =
     (case pg_QueryCollection T B C i flt sf asc lim 0 cursor want db of
        (Inl e, db1) \<Rightarrow> None
      | (Inr res, db1) \<Rightarrow>
          if qrHasMore res then map_option ((@) (qrItems res)) (query_all T B C i flt sf asc lim want n (qrNextCursor res) db1)
          else Some (qrItems res))"

lemma limit_bounds: "1 \<le> clampCollectionLimit l" "clampCollectionLimit l \<le> 1000"
  by (auto simp: clampCollectionLimit_def)

lemma query_total_known:
  assumes "faults db = []" "i \<in> rowID ` set (collections db)"
  shows "\<exists>t. query_total filtered counted i rows page db = (Inr t, db)"
proof -
  obtain r where "find (\<lambda>r. rowID r = i) (collections db) = Some r"
    using assms(2) by (cases "find (\<lambda>r. rowID r = i) (collections db)") (auto simp: find_None_iff)
  then show ?thesis using assms(1) by (simp add: query_total_def collectionRecordCount_def in_context_def)
qed

lemma query_page_parts:
  assumes "1 \<le> l" "page = take (nat (l + 1)) ys"
  shows "qrItems (query_page T B sf l t page) = take (nat l) ys" "qrHasMore (query_page T B sf l t page) \<longleftrightarrow> nat l < length ys"
    "nat l < length ys \<Longrightarrow> qrNextCursor (query_page T B sf l t page) = encodeItemCursor T (sort_text B sf (ys ! (nat l - 1))) (itmKey (ys ! (nat l - 1)))"
proof -
  have l: "nat (l + 1) = Suc (nat l)" "0 < nat l" using assms(1) by auto
  have more: "l < int (length page) \<longleftrightarrow> nat l < length ys" using assms l by auto
  have "take (nat l) page = take (nat l) ys" using assms(2) l by simp
  moreover have "last (take (nat l) ys) = ys ! (nat l - 1)" if "nat l < length ys"
  proof -
    have "take (nat l) ys \<noteq> []" "length (take (nat l) ys) = nat l" using that l(2) by auto
    then show ?thesis using l(2) last_conv_nth [of "take (nat l) ys"] by simp
  qed
  moreover have "page = take (nat l) ys" if "\<not> nat l < length ys" using that assms(2) l by simp
  ultimately show "qrItems (query_page T B sf l t page) = take (nat l) ys" "qrHasMore (query_page T B sf l t page) \<longleftrightarrow> nat l < length ys"
    "nat l < length ys \<Longrightarrow> qrNextCursor (query_page T B sf l t page) = encodeItemCursor T (sort_text B sf (ys ! (nat l - 1))) (itmKey (ys ! (nat l - 1)))"
    using more by (auto simp: query_page_def Let_def)
qed

text \<open>
  A query that is answered: its filter is valid, the sort field has a valid name, and the condition
  fails on no item of the collection, of which \<open>rows\<close> satisfy it.
\<close>

definition answerable :: "json_text \<Rightarrow> jsonb_lib \<Rightarrow> int \<Rightarrow> (string \<times> json) list \<Rightarrow> string \<Rightarrow> CollectionItemRecord list \<Rightarrow> stores \<Rightarrow> bool" where
  "answerable T B i flt sf rows db \<longleftrightarrow> (sf = [] \<or> validFieldName sf)
     \<and> (case BuildJSONBFilter T flt 2 of
          Inl e \<Rightarrow> False
        | Inr (clause, args) \<Rightarrow> where_rows (\<lambda>r. jbWhere B clause args (itmContent r)) (items_of i db) = Inr rows)"

lemma where_rows_subseq: "where_rows cond xs = Inr ys \<Longrightarrow> subseq ys xs"
  by (induction xs arbitrary: ys) (auto split: sum.splits if_splits)

lemma subseq_keeps_distinct: "subseq xs ys \<Longrightarrow> distinct ys \<Longrightarrow> distinct xs"
proof (induction rule: list_emb.induct)
  case (list_emb_Cons2 x y xs ys)
  then have "x \<notin> set xs" using list_emb_set [of "(=)" xs ys x] by auto
  then show ?case using list_emb_Cons2 by simp
qed simp_all

lemma query_step:
  assumes ok: "answerable T B i flt sf rows db" and quiet: "faults db = []" "i \<in> rowID ` set (collections db)"
    and cur: "request_cursor T cursor = Inr cur"
    and rest: "filter (beyond_cursor B C sf asc cur) (ordered_items B C sf asc rows) = ys"
  shows "\<exists>t. pg_QueryCollection T B C i flt sf asc lim 0 cursor want db
     = (Inr (query_page T B sf (clampCollectionLimit lim) t (take (nat (clampCollectionLimit lim + 1)) ys)), db)"
proof -
  obtain clause args where f: "BuildJSONBFilter T flt 2 = Inr (clause, args)"
    "where_rows (\<lambda>r. jbWhere B clause args (itmContent r)) (items_of i db) = Inr rows"
    using ok by (auto simp: answerable_def split: sum.splits)
  have "query_rows B C clause args sf asc cur i db = Inr ys" using f(2) rest by (simp add: query_rows_def ordered_filter)
  then have st: "in_context ''query collection: '' (stmt (\<lambda>d. (query_rows B C clause args sf asc cur i d, d)) db) = (Inr ys, db)"
    using quiet(1) by (simp add: in_context_def)
  have sf: "\<not> (sf \<noteq> [] \<and> \<not> validFieldName sf)" using ok by (auto simp: answerable_def)
  have page: "page_rows l (page_offset cur 0) ys = take (nat (l + 1)) ys" for l by (simp add: page_rows_def page_offset_def)
  show ?thesis
  proof (cases "cursor = []")
    case True
    then show ?thesis
      using f(1) st sf cur page query_total_known [OF quiet, of "flt \<noteq> []" want ys "take (nat (clampCollectionLimit lim + 1)) ys"]
      by (auto simp: pg_QueryCollection_def Let_def in_context_def)
  next
    case False
    then show ?thesis using f(1) st sf cur page by (auto simp: pg_QueryCollection_def Let_def in_context_def)
  qed
qed

lemma query_all_from:
  fixes asc :: bool
  assumes ok: "answerable T B i flt sf rows db" and quiet: "faults db = []" "i \<in> rowID ` set (collections db)"
    and C: "inj C" "distinct (map itmKey rows)"
    and texts: "\<forall>x \<in> set rows. itmKey x \<noteq> [] \<and> cursor_text_ok T (sort_text B sf x) (itmKey x)"
  defines "xs \<equiv> ordered_items B C sf asc rows"
  assumes cur: "request_cursor T cursor = Inr cur" "filter (beyond_cursor B C sf asc cur) xs = drop j xs"
    and n: "length xs - j < n"
  shows "query_all T B C i flt sf asc lim want n cursor db = Some (drop j xs)"
  using cur n
proof (induction n arbitrary: cursor cur j)
  case (Suc n)
  let ?l = "clampCollectionLimit lim" and ?ys = "drop j xs"
  obtain t where q: "pg_QueryCollection T B C i flt sf asc lim 0 cursor want db = (Inr (query_page T B sf ?l t (take (nat (?l + 1)) ?ys)), db)"
    using query_step [OF ok quiet Suc.prems(1) Suc.prems(2) [unfolded xs_def]] unfolding xs_def [symmetric] by blast
  note parts = query_page_parts [OF limit_bounds(1) [of lim] refl, where T = T and B = B and sf = sf and t = t and ys = ?ys]
  show ?case
  proof (cases "nat ?l < length ?ys")
    case False
    then show ?thesis using q parts by simp
  next
    case True
    define k where "k = j + (nat ?l - 1)"
    have l: "0 < nat ?l" using limit_bounds(1) [of lim] by simp
    have k: "k < length xs" "?ys ! (nat ?l - 1) = xs ! k" "Suc k = j + nat ?l" using True l by (auto simp: k_def)
    have x: "xs ! k \<in> set rows" using nth_mem [OF k(1)] ordered_items_sorted(2) [OF C] by (simp add: xs_def)
    have "filter (precedes B C sf asc (xs ! k)) xs = drop (Suc k) xs"
      using filter_after [of "precedes B C sf asc" xs k] ordered_items_sorted(1) [OF C] precedes_asym k(1) unfolding xs_def by blast
    moreover have "request_cursor T (encodeItemCursor T (sort_text B sf (xs ! k)) (itmKey (xs ! k))) = Inr (Some (sort_text B sf (xs ! k), itmKey (xs ! k)))"
      using cursor_roundtrip(1) texts x by blast
    ultimately have "query_all T B C i flt sf asc lim want n (encodeItemCursor T (sort_text B sf (xs ! k)) (itmKey (xs ! k))) db = Some (drop (Suc k) xs)"
      using Suc.prems(3) k l by (intro Suc.IH) (auto simp: beyond_item)
    then have "query_all T B C i flt sf asc lim want (Suc n) cursor db = Some (take (nat ?l) ?ys @ drop (Suc k) xs)"
      using q parts True k(2) by simp
    moreover have "drop (Suc k) xs = drop (nat ?l) ?ys" using k(3) by (simp add: add.commute)
    then have "take (nat ?l) ?ys @ drop (Suc k) xs = ?ys" by (simp only: append_take_drop_id)
    ultimately show ?thesis by (simp only:)
  qed
qed simp

text \<open>
  C38. Querying a collection page by page is complete. Whatever filter, sort field, direction and page
  size a client asks for, following the cursors ends, and the pages put together are exactly the items
  that satisfy the filter, each once and in the order asked for.
\<close>

theorem query_pages_complete:
  assumes "coll_inv db" "faults db = []" "i \<in> rowID ` set (collections db)" "inj C"
    and rows: "answerable T B i flt sf rows db"
    and "\<forall>x \<in> set rows. itmKey x \<noteq> [] \<and> cursor_text_ok T (sort_text B sf x) (itmKey x)"
    and "length rows < n"
  shows "query_all T B C i flt sf asc lim want n [] db = Some (ordered_items B C sf asc rows)"
proof -
  have "subseq rows (items_of i db)" using rows where_rows_subseq by (auto simp: answerable_def split: sum.splits)
  then have sub: "subseq (map itmKey rows) (map itmKey (items_of i db))" by (rule subseq_map)
  have "distinct (map (\<lambda>x. (itmCollectionID x, itmKey x)) (items_of i db))"
    using assms(1) by (simp add: coll_inv_def items_ok_def items_of_def distinct_map_filterI)
  then have "distinct (map itmKey (items_of i db))" by (auto simp: distinct_map inj_on_def items_of_def)
  then have keys: "distinct (map itmKey rows)" using subseq_keeps_distinct [OF sub] by blast
  have "request_cursor T [] = Inr None" by (simp add: request_cursor_def)
  moreover have "filter (beyond_cursor B C sf asc None) xs = drop 0 xs" for xs by (simp add: beyond_cursor_def)
  ultimately show ?thesis
    using query_all_from [OF rows assms(2-4) keys assms(6), of "[]" None asc 0 n lim want] assms(7) ordered_items_sorted(3) [OF assms(4) keys] by simp
qed

text \<open>A cursor encoder whose text is the text of the two strings, for the cursors of a small collection.\<close>

definition pair_text :: json_text where
  "pair_text = \<lparr>json_enc = (\<lambda>j. if j = cursor_value [] ''a'' then [1] else if j = cursor_value [] ''b'' then [2] else [3]),
     json_dec = (\<lambda>b. if b = [1] then Inr (cursor_value [] ''a'') else if b = [2] then Inr (cursor_value [] ''b'') else Inr (cursor_value [] ''c''))\<rparr>"

theorem query_pages_complete_witness:
  "query_all pair_text plain_jsonb (map of_char) 1 [] [] True 1 False 4 [] demo_items
     = Some [demo_item 3 ''a'', demo_item 2 ''b'', demo_item 4 ''c'']"
proof -
  let ?rows = "[demo_item 2 ''b'', demo_item 3 ''a'', demo_item 4 ''c'']"
  have a: "answerable pair_text plain_jsonb 1 [] [] ?rows demo_items"
    by (simp add: answerable_def BuildJSONBFilter_def plain_jsonb_def demo_items_def items_of_def demo_item_def new_item_def)
  have t: "\<forall>x \<in> set ?rows. itmKey x \<noteq> [] \<and> cursor_text_ok pair_text (sort_text plain_jsonb [] x) (itmKey x)"
    by (simp add: demo_item_def new_item_def sort_text_def cursor_text_ok_def pair_text_def cursor_value_def)
  have c: "inj (map of_char :: string \<Rightarrow> int list)" by (rule injI) (metis map_injective inj_of_char)
  have "ordered_items plain_jsonb (map of_char) [] True ?rows = [demo_item 3 ''a'', demo_item 2 ''b'', demo_item 4 ''c'']" by code_simp
  then show ?thesis using query_pages_complete [OF demo_items_inv c a t, of 4 True 1 False] by simp
qed

end
