(* ===== verification/Sca_Props.thy ===== *)
theory Sca_Props
  imports Sca Collections_Paging
begin

text \<open>
  Properties of the collection protocol: what a request of a peer may change, and mistakes of clients
  that are reported as failures of the server.
\<close>

section \<open>Reading handlers\<close>

lemma context_reads: "only_reads db (snd r) \<Longrightarrow> in_context what r = (x, d) \<Longrightarrow> only_reads db d"
  by (metis snd_conv snd_in_context)

lemma coll_readsD:
  "pg_GetCollection L own p db = (x1, d) \<Longrightarrow> only_reads db d" "pg_ListCollections L C own who db = (x2, d) \<Longrightarrow> only_reads db d"
  "pg_GetCollectionItem i key db = (x3, d) \<Longrightarrow> only_reads db d" "collectionRecordCount i db = (x4, d) \<Longrightarrow> only_reads db d"
  by (auto simp: pg_GetCollection_def pg_ListCollections_def pg_GetCollectionItem_def collectionRecordCount_def
        elim!: context_reads [rotated] intro!: only_reads_stmt)

lemma stmt_context_reads: "in_context what (stmt (\<lambda>d. (f d, d)) db) = (x, d) \<Longrightarrow> only_reads db d"
  by (erule context_reads [rotated]) (simp add: only_reads_stmt)

lemma stmt_readsD: "stmt (\<lambda>d. (f d, d)) db = (x, d) \<Longrightarrow> only_reads db d"
  using only_reads_stmt [of "\<lambda>d. (f d, d)" db] by simp

lemma keys_reads: "pg_ListCollectionKeys T C i l off cursor db = (x, d) \<Longrightarrow> only_reads db d"
  by (auto simp: pg_ListCollectionKeys_def Let_def split: sum.splits prod.splits if_splits
        dest!: stmt_context_reads stmt_readsD coll_readsD(4) intro: only_reads_trans)

lemma total_reads: "query_total a b i rows page db = (x, d) \<Longrightarrow> only_reads db d"
  by (auto simp: query_total_def split: if_splits dest: coll_readsD(4))

lemma query_reads: "pg_QueryCollection T B C i flt sf asc l off cursor want db = (x, d) \<Longrightarrow> only_reads db d"
  by (auto simp: pg_QueryCollection_def Let_def split: sum.splits prod.splits if_splits
        dest!: stmt_context_reads stmt_readsD total_reads intro: only_reads_trans)

lemma coll_RequireReader_reads: "RequireReader L bans caller StoreCollection i own v db = (x, d) \<Longrightarrow> only_reads db d"
proof -
  assume r: "RequireReader L bans caller StoreCollection i own v db = (x, d)"
  obtain c :: CollectionRecord where "rowID c = i" "rowOwner c = own" "rowVisibility c = v"
    by (metis CollectionRecord.select_convs store_row.select_convs)
  then show ?thesis using RequireReader_result(3) [OF tablesFor_collection surjective_pairing, of L bans caller c db] r by auto
qed

lemma readableCollection_reads: "readableCollection V caller own p db = (x, d) \<Longrightarrow> only_reads db d"
  by (auto simp: readableCollection_def split: prod.splits sum.splits option.splits
        dest!: coll_readsD(1) coll_RequireReader_reads intro: only_reads_trans)

lemma coll_handlers_read:
  "only_reads db (snd (coll_handleGet V caller own req db))" "only_reads db (snd (coll_handleList V caller own req db))"
  "only_reads db (snd (handleQuery V caller own req db))"
  by (auto simp: coll_handleGet_def coll_handleGetMetadata_def handleGetItem_def coll_handleList_def handleListKeys_def
        handleListCollections_def handleQuery_def split: prod.splits sum.splits option.splits
        dest!: readableCollection_reads coll_readsD(2,3) keys_reads query_reads intro: only_reads_trans)


section \<open>Writing handlers\<close>

lemma coll_stepD: "coll_step own db (snd p) \<Longrightarrow> p = (x, d) \<Longrightarrow> coll_step own db d"
  by simp

lemma GetCollection_found:
  assumes "pg_GetCollection L own p db = (Inr (Some c), d)"
  shows "c \<in> set (collections db)" "rowOwner c = peer_String L own"
proof -
  have v: "stmt (\<lambda>d. (Inr (find_collection (peer_String L own) p d), d)) db = (Inr (Some c), d)" using assms by (simp add: pg_GetCollection_def)
  have "find_collection (peer_String L own) p db = Some c" using stmt_value [OF v] by auto
  then show "c \<in> set (collections db)" "rowOwner c = peer_String L own" using find_collectionD by auto
qed

text \<open>What is known once a handler has found a collection of the owner, and what it then does to it.\<close>

lemma found_collection:
  assumes inv: "coll_inv db" and g: "pg_GetCollection L own p db = (Inr (Some c), d)"
  shows "coll_inv d" "c' \<in> set (collections d) \<Longrightarrow> rowID c' = rowID c \<Longrightarrow> rowOwner c' = peer_String L own"
    "coll_step (peer_String L own) d d' \<Longrightarrow> coll_step (peer_String L own) db d'"
proof -
  have d: "only_reads db d" by (rule coll_readsD(1) [OF g])
  have c: "c \<in> set (collections db)" "rowOwner c = peer_String L own" using GetCollection_found [OF g] .
  show "coll_inv d" "coll_step (peer_String L own) d d' \<Longrightarrow> coll_step (peer_String L own) db d'"
    using inv coll_step_reads [OF d] by simp_all
  show "c' \<in> set (collections d) \<Longrightarrow> rowID c' = rowID c \<Longrightarrow> rowOwner c' = peer_String L own"
    using coll_unique [OF inv, of c' c] c coll_step_reads(4) [OF d] by simp
qed

lemma coll_GetCollection_step: "coll_inv db \<Longrightarrow> pg_GetCollection L own p db = (x, d) \<Longrightarrow> coll_step o' db d"
  using coll_step_only_reads coll_readsD(1) by blast

lemma handleCreate_step: "coll_inv db \<Longrightarrow> coll_step (peer_String (scPeer V) own) db (snd (handleCreate V own req db))"
  by (auto simp: handleCreate_def split: sum.splits prod.splits intro: coll_stepD [OF CreateCollection_step])

lemma handleDeleteCollection_step: "coll_inv db \<Longrightarrow> coll_step (peer_String (scPeer V) own) db (snd (handleDeleteCollection V own req db))"
  by (auto simp: handleDeleteCollection_def split: sum.splits prod.splits intro: coll_stepD [OF DeleteCollection_step])

lemma handleDeleteItem_step:
  assumes inv: "coll_inv db"
  shows "coll_step (peer_String (scPeer V) own) db (snd (handleDeleteItem V own req db))"
proof -
  let ?o = "peer_String (scPeer V) own"
  obtain x d where g: "pg_GetCollection (scPeer V) own (crPath req) db = (x, d)" by fastforce
  show ?thesis
  proof (cases "\<exists>c. x = Inr (Some c)")
    case True
    then obtain c where x: "x = Inr (Some c)" by blast
    note f = found_collection [OF inv g [unfolded x]]
    have "coll_step ?o db (snd (pg_DeleteCollectionItem (rowID c) (crKey req) d))" by (intro f(3) DeleteItem_step f(1)) (rule f(2))
    then show ?thesis using g x by (auto simp: handleDeleteItem_def split: sum.split prod.split)
  next
    case False
    then show ?thesis using g coll_GetCollection_step [OF inv g] by (auto simp: handleDeleteItem_def split: sum.split option.split)
  qed
qed

lemma handlePut_step:
  assumes inv: "coll_inv db"
  shows "coll_step (peer_String (scPeer V) own) db (snd (coll_handlePut V caller own req db))"
proof -
  let ?o = "peer_String (scPeer V) own"
  obtain x d where g: "pg_GetCollection (scPeer V) own (crPath req) db = (x, d)" by fastforce
  have d: "coll_step ?o db d" by (rule coll_GetCollection_step [OF inv g])
  show ?thesis
  proof (cases "\<exists>c content. x = Inr (Some c) \<and> DecodeString (crBody req) = Some content")
    case True
    then obtain c content where x: "x = Inr (Some c)" "DecodeString (crBody req) = Some content" by blast
    note f = found_collection [OF inv g [unfolded x(1)]]
    have "coll_step ?o db (snd (pg_PutCollectionItem (scPeer V) (scJsonb V) (rowID c) (crKey req) content caller (header ''If-Match'' (crHeaders req)) d))"
      by (intro f(3) PutItem_step f(1)) (rule f(2))
    then show ?thesis using g x d inv by (auto simp: coll_handlePut_def split: sum.split prod.split)
  next
    case False
    then show ?thesis using g d inv by (auto simp: coll_handlePut_def split: sum.split option.split)
  qed
qed

text \<open>Changing the access of one's own collection.\<close>

lemma coll_access_reads: "acKind req = StoreCollection \<Longrightarrow> only_reads db (snd (access_list C req v db))"
proof -
  have "only_reads db (snd (pg_ListStoreReaders C StoreCollection i db))" for i
    by (simp add: pg_ListStoreReaders_def tablesFor_collection only_reads_stmt)
  then have "pg_ListStoreReaders C StoreCollection i db = (x, d) \<Longrightarrow> only_reads db d" for i x d by (metis snd_conv)
  then show "acKind req = StoreCollection \<Longrightarrow> only_reads db (snd (access_list C req v db))"
    by (auto simp: access_list_def split: prod.splits sum.splits)
qed

lemma then_coll_access_step:
  "coll_step own db d \<Longrightarrow> acKind req = StoreCollection \<Longrightarrow> coll_step own db (snd (access_list C req v d))"
  using coll_step_reads(2) [OF coll_access_reads] by blast

lemma coll_StoreAccess_step:
  assumes inv: "coll_inv db" and kind: "acKind req = StoreCollection"
    and mine: "\<And>c. c \<in> set (collections db) \<Longrightarrow> rowID c = acID req \<Longrightarrow> rowOwner c = peer_String L (acOwnerID req)"
  shows "coll_step (peer_String L (acOwnerID req)) db (snd (StoreAccess L C req db))"
proof -
  let ?o = "peer_String L (acOwnerID req)"
  have readers: "coll_step ?o db (snd (pg_GrantStoreReader L StoreCollection (acID req) p db))"
    "coll_step ?o db (snd (pg_RevokeStoreReader L StoreCollection (acID req) p db))" for p
    by (rule coll_reader_step [OF inv mine]; assumption)+
  have results: "pg_SetStoreVisibility L StoreCollection (acOwnerID req) q v db = (x1, d) \<Longrightarrow> coll_step ?o db d"
    "pg_GrantStoreReader L StoreCollection (acID req) p db = (x2, d) \<Longrightarrow> coll_step ?o db d"
    "pg_RevokeStoreReader L StoreCollection (acID req) p db = (x3, d) \<Longrightarrow> coll_step ?o db d" for q v p x1 x2 x3 d
    using coll_visibility_step [OF inv, of L "acOwnerID req" q v] readers [of p] by simp_all
  show ?thesis
    unfolding StoreAccess_def kind
    by (auto split: sum.splits prod.splits option.splits intro!: then_coll_access_step kind simp: inv dest!: results)
qed

lemma coll_handleAccess_step:
  assumes inv: "coll_inv db"
  shows "coll_step (peer_String (scPeer V) caller) db (snd (coll_handleAccess V caller req db))"
proof -
  let ?o = "peer_String (scPeer V) caller"
  obtain x d where g: "pg_GetCollection (scPeer V) caller (crPath req) db = (x, d)" by fastforce
  have d: "coll_step ?o db d" by (rule coll_GetCollection_step [OF inv g])
  show ?thesis
  proof (cases "\<exists>c. x = Inr (Some c)")
    case True
    then obtain c where x: "x = Inr (Some c)" by blast
    note f = found_collection [OF inv g [unfolded x]]
    have "coll_step ?o db (snd (StoreAccess (scPeer V) (scColl V) q d))"
      if "acKind q = StoreCollection" "acID q = rowID c" "acOwnerID q = caller" for q
      using coll_StoreAccess_step [OF f(1) that(1), of "scPeer V" "scColl V"] f(2,3) that(2,3) by simp
    then show ?thesis using g x inv by (simp add: coll_handleAccess_def case_prod_beta Let_def)
  next
    case False
    then show ?thesis using g d inv by (auto simp: coll_handleAccess_def split: sum.split option.split)
  qed
qed


section \<open>The whole protocol\<close>

lemma coll_validation_owner:
  assumes "coll_commonValidation V caller req = Inr owner" "crOperation req \<in> {''CREATE'', ''PUT'', ''DELETE'', ''ACCESS''}"
  shows "owner = caller"
  using assms by (auto simp: coll_commonValidation_def RequireOwner_def split: if_splits option.splits)

lemma sca_handle_step:
  assumes inv: "coll_inv db" and owner: "opn \<in> {''CREATE'', ''PUT'', ''DELETE'', ''ACCESS''} \<Longrightarrow> owner = caller"
  shows "coll_step (peer_String (scPeer V) caller) db (snd (sca_handle V caller owner opn req db))"
proof -
  let ?step = "coll_step (peer_String (scPeer V) caller) db"
  have create: "opn = ''CREATE'' \<Longrightarrow> ?step (snd (handleCreate V owner req db))"
    using handleCreate_step [OF inv, of V owner req] owner by simp
  have put: "opn = ''PUT'' \<Longrightarrow> ?step (snd (coll_handlePut V caller owner req db))"
    using handlePut_step [OF inv, of V owner caller req] owner by simp
  have delete: "opn = ''DELETE'' \<Longrightarrow> ?step (snd (coll_handleDelete V owner req db))"
    using handleDeleteItem_step [OF inv, of V owner req] handleDeleteCollection_step [OF inv, of V owner req] owner
    by (simp add: coll_handleDelete_def)
  show ?thesis
    unfolding sca_handle_def if_distrib [of snd] if_split [where P = ?step]
    by (intro conjI impI;
        (rule coll_step_only_reads [OF inv coll_handlers_read(1)] coll_step_only_reads [OF inv coll_handlers_read(2)]
              coll_step_only_reads [OF inv coll_handlers_read(3)] coll_handleAccess_step [OF inv]
         | erule create | erule put | erule delete))
qed

lemma dec_CollectionRequest_operation:
  "dec_CollectionRequest N kvs = Some req \<Longrightarrow> json_field dec_string [] ''operation'' kvs = Some (crOperation req)"
  by (auto simp: dec_CollectionRequest_def bind_eq_Some_conv)

text \<open>
  C11. Whatever a peer sends to the collection protocol in a body that spells the key of the operation
  in one way, and whatever fails below it, the collections of other owners keep their rows, items and readers, documents, feeds and the directory are
  untouched, and the tables stay consistent, every maintained count included. The router reads the
  exact key, as documented.
\<close>

theorem collection_writes_stay_own:
  assumes inv: "coll_inv db"
    and router: "exact_router (scText V) (scForge V)" and one: "one_spelling (scText V) ''operation'' raw"
  shows "coll_inv (snd (sca_serve V caller raw db))
    \<and> coll_apart (peer_String (scPeer V) caller) db (snd (sca_serve V caller raw db))"
proof -
  have "coll_step (peer_String (scPeer V) caller) db (snd (sca_serve V caller raw db))"
  proof (cases "\<exists>req owner opn. collection_gates (scText V) (scGates V) caller raw = None
      \<and> Option.bind (object_fields (scText V) raw) (dec_CollectionRequest (jsFloat (scJson V))) = Some req
      \<and> coll_commonValidation V caller req = Inr owner \<and> fgOperation (scForge V) ''operation'' raw = Inr opn \<and> opn \<in> set sca_operations")
    case True
    then obtain req owner opn where r: "collection_gates (scText V) (scGates V) caller raw = None"
      "Option.bind (object_fields (scText V) raw) (dec_CollectionRequest (jsFloat (scJson V))) = Some req"
      "coll_commonValidation V caller req = Inr owner" "fgOperation (scForge V) ''operation'' raw = Inr opn" "opn \<in> set sca_operations" by blast
    obtain kvs where kvs: "object_fields (scText V) raw = Some kvs" "dec_CollectionRequest (jsFloat (scJson V)) kvs = Some req"
      using r(2) by (auto simp: bind_eq_Some_conv)
    have "crOperation req = opn" using router_agrees [OF router one r(4) kvs(1)] dec_CollectionRequest_operation [OF kvs(2)] by simp
    then have "coll_step (peer_String (scPeer V) caller) db (snd (sca_handle V caller owner opn req db))"
      using coll_validation_owner [OF r(3)] by (intro sca_handle_step [OF inv]) simp
    then show ?thesis using r by (simp add: sca_serve_def case_prod_beta)
  next
    case False
    then have "snd (sca_serve V caller raw db) = db"
      by (auto simp: sca_serve_def split: option.split sum.split)
    then show ?thesis using inv by simp
  qed
  then show ?thesis by (simp add: coll_step_def)
qed

definition drop_request :: json_lib where
  "drop_request = \<lparr>json_enc = (\<lambda>_. []), json_dec = (\<lambda>_. Inr (JObj [(''operation'', JStr ''DELETE''),
     (''ownerPeerId'', JStr ''61''), (''path'', JStr ''c''), (''key'', JStr ''a'')])), jsFloat = Some\<rparr>"

definition coll_env :: "json_lib \<Rightarrow> jsonb_lib \<Rightarrow> sca_env" where
  "coll_env J B = \<lparr>scPeer = hex_peers, scJson = J, scJsonb = B, scColl = map of_char, scOrder = id,
     scForge = field_router (json_text.truncate J), scGates = demo_gates\<rparr>"

theorem collection_writes_stay_own_witness:
  "let mine = sca_serve (coll_env drop_request plain_jsonb) (PeerID ''a'') [] demo_items;
       other = sca_serve (coll_env drop_request plain_jsonb) (PeerID ''b'') [] demo_items
   in coll_inv (snd mine) \<and> map RecordCount (collections (snd mine)) = [2] \<and> rsStatus (fst mine) = 204
    \<and> coll_apart ''62'' demo_items (snd other) \<and> rsStatus (fst other) = 403"
proof -
  let ?V = "coll_env drop_request plain_jsonb"
  let ?m = "sca_serve ?V (PeerID ''a'') [] demo_items" and ?o = "sca_serve ?V (PeerID ''b'') [] demo_items"
  have "case ?m of (r, d) \<Rightarrow> map RecordCount (collections d) = [2] \<and> rsStatus r = 204" by code_simp
  then have m: "map RecordCount (collections (snd ?m)) = [2]" "rsStatus (fst ?m) = 204" by (simp_all add: case_prod_beta)
  have "case ?o of (r, d) \<Rightarrow> rsStatus r = 403" by code_simp
  then have o: "rsStatus (fst ?o) = 403" by (simp add: case_prod_beta)
  have c: "peer_String (scPeer ?V) (PeerID ''b'') = ''62''" by code_simp
  have router: "exact_router (scText ?V) (scForge ?V)" by (simp add: coll_env_def scText_def)
  have one: "one_spelling (scText ?V) ''operation'' []" by code_simp
  have kept: "coll_inv (snd (sca_serve ?V p [] demo_items)) \<and> coll_apart (peer_String (scPeer ?V) p) demo_items (snd (sca_serve ?V p [] demo_items))" for p
    by (rule collection_writes_stay_own [OF demo_items_inv(1) router one])
  show ?thesis using m o c kept [of "PeerID ''a''"] kept [of "PeerID ''b''"] by (simp add: Let_def)
qed


section \<open>Mistakes of clients\<close>

lemma invalid_content_400: "fst (Classify (Some (Wrapped ctx (Wrapped [] ErrInvalidContent t) []))) = 400"
  by code_simp

text \<open>
  Content that the database cannot hold is reported as a failure of the server. The storage marks
  the refusal of a NUL character as invalid content, which the status table answers with 400; but the
  handler of PUT answers every error that is not a conflict with 500 and no message. A sort field with
  an invalid name is an untyped error, so the query that names it is answered with 500 too.
\<close>

theorem client_mistakes_answered_500:
  assumes quiet: "faults db = []" and coll: "find_collection (peer_String (scPeer V) owner) (crPath req) db = Some c"
    and put: "crPath req \<noteq> []" "crKey req \<noteq> []" "DecodeString (crBody req) = Some content" "json_Valid (scText V) content"
      "header ''If-Match'' (crHeaders req) = None" "jbStore (scJsonb V) content = Inl (''22P05'', msg)"
    and srt: "crSortField req \<noteq> []" "\<not> validFieldName (crSortField req)" "BuildJSONBFilter T flt 2 = Inr q"
  shows "(\<exists>e. pg_PutCollectionItem (scPeer V) (scJsonb V) (rowID c) (crKey req) content caller None db = (Inl e, db)
      \<and> fst (Classify (Some e)) = 400 \<and> coll_handlePut V caller owner req db = (coll_respond 500 [], db))
    \<and> (\<exists>e. pg_QueryCollection T B C i flt (crSortField req) asc lim off cursor want db = (Inl e, db) \<and> fst (Classify (Some e)) = 500)"
proof
  define e where "e = Wrapped (if find (at_key (rowID c) (crKey req)) (collection_items db) = None
     then ''insert collection item: '' else ''update collection item: '') (Wrapped [] ErrInvalidContent ('': '' @ msg)) []"
  have p: "pg_PutCollectionItem (scPeer V) (scJsonb V) (rowID c) (crKey req) content caller None db = (Inl e, db)"
    using quiet put(6)
    by (auto simp: pg_PutCollectionItem_def put_item_def insert_item_def update_item_def contentError_def e_def split: option.split)
  have "pg_GetCollection (scPeer V) owner (crPath req) db = (Inr (Some c), db)"
    using quiet coll by (simp add: pg_GetCollection_def in_context_def)
  then have "coll_handlePut V caller owner req db = (coll_respond 500 [], db)"
    using p put by (simp add: coll_handlePut_def e_def)
  moreover have "fst (Classify (Some e)) = 400" unfolding e_def by (rule invalid_content_400)
  ultimately show "\<exists>e. pg_PutCollectionItem (scPeer V) (scJsonb V) (rowID c) (crKey req) content caller None db = (Inl e, db)
      \<and> fst (Classify (Some e)) = 400 \<and> coll_handlePut V caller owner req db = (coll_respond 500 [], db)" using p by blast
next
  have "pg_QueryCollection T B C i flt (crSortField req) asc lim off cursor want db
      = (Inl (PlainError (''invalid sort field name: '' @ quoted (crSortField req))), db)"
    using srt by (simp add: pg_QueryCollection_def Let_def split: prod.split)
  moreover have "fst (Classify (Some (PlainError t))) = 500" for t by code_simp
  ultimately show "\<exists>e. pg_QueryCollection T B C i flt (crSortField req) asc lim off cursor want db = (Inl e, db)
      \<and> fst (Classify (Some e)) = 500" by blast
qed

definition nul_jsonb :: jsonb_lib where
  "nul_jsonb = plain_jsonb\<lparr>jbStore := (\<lambda>c. Inl (''22P05'', ''unsupported Unicode escape sequence''))\<rparr>"

definition nul_request :: CollectionRequest where
  "nul_request = \<lparr>crOperation = ''PUT'', crOwnerPeerID = ''61'', crPath = ''c'', crKey = ''a'', crHeaders = [], crBody = [], crName = [],
     crVisibility = [], crAccessAction = [], crReaderPeerID = [], crFilter = [], crSortField = ''a b'', crSortAsc = None, crLimit = None,
     crOffset = None, crCursor = [], crWantTotal = False\<rparr>"

theorem client_mistakes_answered_500_witness:
  "coll_handlePut (coll_env drop_request nul_jsonb) (PeerID ''a'') (PeerID ''a'') nul_request demo_items = (coll_respond 500 [], demo_items)
   \<and> (\<exists>e. pg_QueryCollection pair_text plain_jsonb (map of_char) 1 [] (crSortField nul_request) True 5 0 [] False demo_items = (Inl e, demo_items)
        \<and> fst (Classify (Some e)) = 500)"
proof -
  let ?V = "coll_env drop_request nul_jsonb" and ?a = "PeerID ''a''"
  have "peer_String (scPeer ?V) ?a = ''61''" by code_simp
  then have c: "find_collection (peer_String (scPeer ?V) ?a) (crPath nul_request) demo_items = Some demo_collection"
    by (simp add: find_collection_def demo_items_def at_path_def demo_collection_def nul_request_def)
  have p: "crPath nul_request \<noteq> []" "crKey nul_request \<noteq> []" "DecodeString (crBody nul_request) = Some []" "json_Valid (scText ?V) []"
    "header ''If-Match'' (crHeaders nul_request) = None"
    "jbStore (scJsonb ?V) [] = Inl (''22P05'', ''unsupported Unicode escape sequence'')"
    by (simp_all add: nul_request_def coll_env_def nul_jsonb_def json_Valid_def scText_def drop_request_def json_text.defs header_def DecodeString_def)
  have q: "crSortField nul_request \<noteq> []" "\<not> validFieldName (crSortField nul_request)" "BuildJSONBFilter pair_text [] 2 = Inr (''TRUE'', [])"
    by code_simp+
  show ?thesis using client_mistakes_answered_500 [OF demo_items_inv(2) c p q, where caller = ?a] by blast
qed

end
