(* ===== verification/Bypass.thy ===== *)
theory Bypass
  imports Sfa_Props Sca_Props
begin

text \<open>
  A body that spells the key of its operation in two ways, against the document, feed and collection
  protocols together. The validation of each decodes the body into a struct, whose fields take any
  spelling of their names, the last one counting; the router reads the exact key. So the owner
  is checked for the operation of the one spelling and the handler runs that of the other.
\<close>

definition two_spellings :: "string \<Rightarrow> string \<Rightarrow> (string \<times> json) list" where
  "two_spellings own p = [(''operation'', JStr ''DELETE''), (''ownerPeerId'', JStr own), (''path'', JStr p), (''Operation'', JStr ''GET'')]"

text \<open>The router finds the operation under the exact key where there is one.\<close>

definition routes_exactly :: "json_text \<Rightarrow> forge_lib \<Rightarrow> bytes \<Rightarrow> bool" where
  "routes_exactly T F raw \<longleftrightarrow> (\<forall>opn. exact_operation T ''operation'' raw = Some opn \<and> opn \<noteq> [] \<longrightarrow> fgOperation F ''operation'' raw = Inr opn)"

lemma spelt_fields:
  "json_field dec_string [] ''operation'' (two_spellings own p) = Some ''GET''"
  "json_field dec_string [] ''ownerPeerId'' (two_spellings own p) = Some own"
  "json_field dec_string [] ''path'' (two_spellings own p) = Some p"
  "json_field dec_string [] ''directoryAction'' (two_spellings own p) = Some []"
  by code_simp+

lemma spelt_document: "map_option drPath (dec_DocRequest (two_spellings own p)) = Some p"
  by code_simp

lemma spelt_feed:
  "map_option (\<lambda>r. (frOperation r, frOwnerPeerID r, frPath r, frTitle r, frDescription r, frEntryType r)) (dec_FeedRequest (two_spellings own p))
     = Some (''GET'', own, p, [], [], [])"
  by code_simp

lemma spelt_collection:
  "map_option (\<lambda>r. (crOperation r, crOwnerPeerID r, crPath r, crKey r, crName r)) (dec_CollectionRequest N (two_spellings own p))
     = Some (''GET'', own, p, [], [])"
  by code_simp

lemma spelt_route:
  assumes "json_dec T raw = Inr (JObj (two_spellings own p))" "routes_exactly T F raw"
  shows "fgOperation F ''operation'' raw = Inr ''DELETE''" "object_fields T raw = Some (two_spellings own p)"
proof -
  show fields: "object_fields T raw = Some (two_spellings own p)" using assms(1) by (simp add: object_fields_def)
  have "map_of (rev (two_spellings own p)) ''operation'' = Some (JStr ''DELETE'')" by (simp add: two_spellings_def)
  then have "exact_operation T ''operation'' raw = Some ''DELETE''" using fields by (simp add: exact_operation_def)
  then show "fgOperation F ''operation'' raw = Inr ''DELETE''" using assms(2) by (simp add: routes_exactly_def)
qed

lemma find_removed: "find P (filter (\<lambda>r. \<not> P r) rs) = None"
  by (auto simp: find_None_iff)

lemma found_any: "find P rs \<noteq> None \<Longrightarrow> map f (filter P rs) \<noteq> []"
  by (auto simp: find_None_iff filter_empty_conv)

lemma path_given: "validatePath p = None \<Longrightarrow> p \<noteq> []"
  by (auto simp: validatePath_def)

lemma document_bypass:
  assumes own: "own = peer_String (sdPeer V) owner" "own \<noteq> []" "peer_Decode (sdPeer V) own = Some owner" and p: "validatePath p = None"
    and body: "json_dec (json_text.truncate (sdJson V)) raw = Inr (JObj (two_spellings own p))"
    and routes: "routes_exactly (json_text.truncate (sdJson V)) (sdForge V) raw"
    and open_gates: "document_gates (json_text.truncate (sdJson V)) (sdGates V) caller raw = None"
    and db: "faults db = []" "find_document own p db \<noteq> None"
  shows "rsStatus (fst (sda_serve V caller raw db)) = 204 \<and> find_document own p (snd (sda_serve V caller raw db)) = None"
proof -
  obtain req where req: "dec_DocRequest (two_spellings own p) = Some req" "drPath req = p" using spelt_document [of own p] by auto
  note route = spelt_route [OF body routes]
  have valid: "commonValidation V caller raw = Inr owner"
    using own p by (simp add: commonValidation_def route(2) spelt_fields needs_owner_def)
  obtain x d where del: "pg_DeleteDocument (sdPeer V) owner p db = (x, d)" by fastforce
  have d: "x = Inr True" "find_document own p d = None" "faults d = []"
    using del db own(1) found_any [of "at_path own p" "documents db" rowID]
    by (auto simp: pg_DeleteDocument_def stmt_def Let_def find_document_def find_removed)
  then have "find_document own p (maybeRemoveDirectoryListing V owner p d) = None"
    by (auto simp: maybeRemoveDirectoryListing_def pg_RemoveDirectoryEntry_def stmt_def find_document_def)
  then show ?thesis
    using open_gates valid route req del d
    by (simp add: sda_serve_def Let_def sda_operations_def sda_handle_def handleDelete_def docResponseWriter_def respond_def)
qed

lemma feed_bypass:
  assumes own: "own = peer_String (sfPeer V) owner" "own \<noteq> []" "peer_Decode (sfPeer V) own = Some owner" and p: "validatePath p = None"
    and body: "json_dec (sfJson V) raw = Inr (JObj (two_spellings own p))" and routes: "routes_exactly (sfJson V) (sfForge V) raw"
    and open_gates: "feed_gates (sfGates V) caller raw = None"
    and db: "faults db = []" "find_feed own p db \<noteq> None"
  shows "fst (sfa_serve V arrival caller raw db) = Return \<lparr>rsStatus = 204, rsHeaders = [], rsBody = []\<rparr>
    \<and> find_feed own p (snd (sfa_serve V arrival caller raw db)) = None"
proof -
  obtain req where req: "dec_FeedRequest (two_spellings own p) = Some req" "frOperation req = ''GET''" "frOwnerPeerID req = own" "frPath req = p"
      "frTitle req = []" "frDescription req = []" "frEntryType req = []"
    using spelt_feed [of own p] by auto
  note route = spelt_route [OF body routes]
  have valid: "feed_commonValidation V caller req db = (Inr (Some owner), db)"
    using own p req by (simp add: feed_commonValidation_def CheckString_def valid_utf8_def)
  obtain x d where del: "pg_DeleteFeed (sfPeer V) owner p db = (x, d)" by fastforce
  have d: "x = Inr True" "find_feed own p d = None"
    using del db own(1) found_any [of "at_path own p" "feeds db" rowID]
    by (auto simp: pg_DeleteFeed_def in_context_def stmt_def Let_def find_feed_def find_removed)
  then show ?thesis
    using open_gates valid route req del
    by (simp add: sfa_serve_def sfa_operations_def sfa_handle_def deleteHandler_def docResponseWriter_def respond_def)
qed

lemma collection_bypass:
  assumes own: "own = peer_String (scPeer V) owner" "own \<noteq> []" "peer_Decode (scPeer V) own = Some owner" and p: "validatePath p = None"
    and body: "json_dec (scText V) raw = Inr (JObj (two_spellings own p))" and routes: "routes_exactly (scText V) (scForge V) raw"
    and open_gates: "collection_gates (scText V) (scGates V) caller raw = None"
    and db: "faults db = []" "find_collection own p db \<noteq> None"
  shows "rsStatus (fst (sca_serve V caller raw db)) = 204 \<and> find_collection own p (snd (sca_serve V caller raw db)) = None"
proof -
  obtain req where req: "dec_CollectionRequest (jsFloat (scJson V)) (two_spellings own p) = Some req" "crOperation req = ''GET''"
      "crOwnerPeerID req = own" "crPath req = p" "crKey req = []" "crName req = []"
    using spelt_collection [of "jsFloat (scJson V)" own p] by auto
  note route = spelt_route [OF body routes]
  have valid: "coll_commonValidation V caller req = Inr owner"
    using own p req by (simp add: coll_commonValidation_def CheckString_def valid_utf8_def MaxCollectionKeyLength_def MaxCollectionNameLength_def)
  obtain x d where del: "pg_DeleteCollection (scPeer V) owner p db = (x, d)" by fastforce
  have d: "x = Inr True" "find_collection own p d = None"
    using del db own(1) found_any [of "at_path own p" "collections db" rowID]
    by (auto simp: pg_DeleteCollection_def in_context_def stmt_def Let_def find_collection_def find_removed)
  then show ?thesis
    using open_gates valid route req del path_given [OF p]
    by (simp add: sca_serve_def sca_operations_def sca_handle_def coll_handleDelete_def handleDeleteCollection_def
        collectionResponseWriter_def coll_respond_def)
qed

text \<open>
  C15. The owner check of the document, feed and collection protocols can be passed by spelling the key of
  the operation in two ways. Whoever the caller and the owner are: a body that asks to DELETE under
  \<^verbatim>\<open>operation\<close> and to GET under \<^verbatim>\<open>Operation\<close> is validated as a GET, which needs no owner, and routed
  as a DELETE, so that the owner's document, feed or collection at that path is deleted and the caller told
  204. The router reads the exact key, as documented; the gates are open and the database answers.
\<close>

theorem owner_check_bypassed:
  assumes L: "peer_lib_ok L" "sdPeer V = L" "sfPeer W = L" "scPeer C = L" "peer_String L owner \<noteq> []" and p: "validatePath p = None"
    and body: "json_dec (json_text.truncate (sdJson V)) raw = Inr (JObj (two_spellings (peer_String L owner) p))"
      "json_dec (sfJson W) raw = Inr (JObj (two_spellings (peer_String L owner) p))"
      "json_dec (scText C) raw = Inr (JObj (two_spellings (peer_String L owner) p))"
    and routes: "routes_exactly (json_text.truncate (sdJson V)) (sdForge V) raw" "routes_exactly (sfJson W) (sfForge W) raw"
      "routes_exactly (scText C) (scForge C) raw"
    and open_gates: "document_gates (json_text.truncate (sdJson V)) (sdGates V) caller raw = None" "feed_gates (sfGates W) caller raw = None"
      "collection_gates (scText C) (scGates C) caller raw = None"
    and db: "faults db = []"
  shows "(find_document (peer_String L owner) p db \<noteq> None \<longrightarrow> rsStatus (fst (sda_serve V caller raw db)) = 204
      \<and> find_document (peer_String L owner) p (snd (sda_serve V caller raw db)) = None)
    \<and> (find_feed (peer_String L owner) p db \<noteq> None \<longrightarrow>
      fst (sfa_serve W arrival caller raw db) = Return \<lparr>rsStatus = 204, rsHeaders = [], rsBody = []\<rparr>
      \<and> find_feed (peer_String L owner) p (snd (sfa_serve W arrival caller raw db)) = None)
    \<and> (find_collection (peer_String L owner) p db \<noteq> None \<longrightarrow> rsStatus (fst (sca_serve C caller raw db)) = 204
      \<and> find_collection (peer_String L owner) p (snd (sca_serve C caller raw db)) = None)"
proof (intro conjI impI)
  note dec = peer_Decode_String [OF L(1), of owner]
  show "rsStatus (fst (sda_serve V caller raw db)) = 204" "find_document (peer_String L owner) p (snd (sda_serve V caller raw db)) = None"
    if "find_document (peer_String L owner) p db \<noteq> None"
    using document_bypass [OF _ L(5) _ p body(1) routes(1) open_gates(1) db that] dec L(2) by simp_all
  show "fst (sfa_serve W arrival caller raw db) = Return \<lparr>rsStatus = 204, rsHeaders = [], rsBody = []\<rparr>"
    "find_feed (peer_String L owner) p (snd (sfa_serve W arrival caller raw db)) = None"
    if "find_feed (peer_String L owner) p db \<noteq> None"
    using feed_bypass [OF _ L(5) _ p body(2) routes(2) open_gates(2) db that] dec L(3) by simp_all
  show "rsStatus (fst (sca_serve C caller raw db)) = 204" "find_collection (peer_String L owner) p (snd (sca_serve C caller raw db)) = None"
    if "find_collection (peer_String L owner) p db \<noteq> None"
    using collection_bypass [OF _ L(5) _ p body(3) routes(3) open_gates(3) db that] dec L(4) by simp_all
qed

definition spelt_text :: json_text where
  "spelt_text = one_request (JObj (two_spellings ''61'' ''notes''))"

definition spelt_lib :: json_lib where
  "spelt_lib = \<lparr>json_enc = (\<lambda>_. []), json_dec = (\<lambda>_. Inr (JObj (two_spellings ''61'' ''notes''))), jsFloat = Some\<rparr>"

text \<open>A document, a feed and a collection of \<^verbatim>\<open>a\<close> at one path.\<close>

definition three_stores :: stores where
  "three_stores = demo_stores\<lparr>feeds := [old_feed\<lparr>rowPath := ''notes''\<rparr>], collections := [demo_collection\<lparr>rowPath := ''notes''\<rparr>]\<rparr>"

theorem owner_check_bypassed_witness:
  "find_document ''61'' ''notes'' three_stores \<noteq> None
   \<and> find_document ''61'' ''notes'' (snd (sda_serve (demo_env spelt_lib) (PeerID ''b'') [] three_stores)) = None
   \<and> find_feed ''61'' ''notes'' three_stores \<noteq> None
   \<and> find_feed ''61'' ''notes'' (snd (sfa_serve (feed_env spelt_text demo_gates) [] (PeerID ''b'') [] three_stores)) = None
   \<and> find_collection ''61'' ''notes'' three_stores \<noteq> None
   \<and> find_collection ''61'' ''notes'' (snd (sca_serve (coll_env spelt_lib plain_jsonb) (PeerID ''b'') [] three_stores)) = None"
proof -
  let ?V = "demo_env spelt_lib" and ?W = "feed_env spelt_text demo_gates" and ?C = "coll_env spelt_lib plain_jsonb"
  have trunc: "json_text.truncate spelt_lib = spelt_text"
    by (simp add: spelt_lib_def spelt_text_def one_request_def json_text.truncate_def)
  have a: "peer_String hex_peers (PeerID ''a'') = ''61''" by code_simp
  have exact: "routes_exactly spelt_text (field_router spelt_text) []" by (auto simp: routes_exactly_def field_router_def)
  have body: "json_dec spelt_text [] = Inr (JObj (two_spellings (peer_String hex_peers (PeerID ''a'')) ''notes''))"
    by (simp add: spelt_text_def one_request_def a)
  have env: "sdPeer ?V = hex_peers" "json_text.truncate (sdJson ?V) = spelt_text" "sdForge ?V = field_router spelt_text" "sdGates ?V = demo_gates"
    "sfPeer ?W = hex_peers" "sfJson ?W = spelt_text" "sfForge ?W = field_router spelt_text" "sfGates ?W = demo_gates"
    "scPeer ?C = hex_peers" "scText ?C = spelt_text" "scForge ?C = field_router spelt_text" "scGates ?C = demo_gates"
    using trunc by (simp_all add: demo_env_def feed_env_def coll_env_def scText_def)
  have g: "document_gates spelt_text demo_gates (PeerID ''b'') [] = None" "feed_gates demo_gates (PeerID ''b'') [] = None"
    "collection_gates spelt_text demo_gates (PeerID ''b'') [] = None" by code_simp+
  have v: "validatePath ''notes'' = None" by code_simp
  have db: "faults three_stores = []" "find_document ''61'' ''notes'' three_stores \<noteq> None" "find_feed ''61'' ''notes'' three_stores \<noteq> None"
    "find_collection ''61'' ''notes'' three_stores \<noteq> None"
    by (simp_all add: three_stores_def demo_stores_def empty_stores_def find_document_def find_feed_def find_collection_def at_path_def
        demo_row_def old_feed_def demo_feed_def demo_collection_def)
  have ne: "peer_String hex_peers (PeerID ''a'') \<noteq> []" by (simp add: a)
  from owner_check_bypassed [OF hex_peers_ok env(1,5,9) ne v, of "[]" "PeerID ''b''" three_stores "[]"] env body exact g db a
  show ?thesis by simp
qed

end
