(* ===== verification/Moa.thy ===== *)
theory Moa
  imports Sfa
begin

text \<open>
  The moderation protocol (\<^verbatim>\<open>src/internal/protocol/moa/handler.go\<close>) with the parts of the storage that
  only it uses: removing posts (\<^verbatim>\<open>src/internal/storage/postgres/moderation.go\<close>) and the log of connections
  (\<^verbatim>\<open>src/internal/storage/postgres/connections.go\<close>).
\<close>

section \<open>The log of connections\<close>

record PeerConnection =
  pcID :: int
  pcPeerID :: string
  pcIP :: string
  pcRemoteAddr :: string
  pcTransport :: string
  pcDirection :: string
  pcConnectedAt :: millis
  pcDisconnectedAt :: "millis option"

record conn_db = env +
  peer_connections :: "PeerConnection list"
  conn_next :: int

definition pg_InsertPeerConnection :: "PeerConnection \<Rightarrow> conn_db \<Rightarrow> (err + int) \<times> conn_db" where
  "pg_InsertPeerConnection c db = in_context ''insert peer connection: '' (stmt (\<lambda>db.
     (Inr (conn_next db), db\<lparr>peer_connections := peer_connections db @ [c\<lparr>pcID := conn_next db\<rparr>], conn_next := conn_next db + 1\<rparr>)) db)"

definition pg_MarkPeerDisconnected :: "int \<Rightarrow> millis \<Rightarrow> conn_db \<Rightarrow> (err + unit) \<times> conn_db" where
  "pg_MarkPeerDisconnected i at db = in_context ''mark peer disconnected: '' (stmt (\<lambda>db.
     (Inr (), db\<lparr>peer_connections := map (\<lambda>c. if pcID c = i \<and> pcDisconnectedAt c = None then c\<lparr>pcDisconnectedAt := Some at\<rparr> else c)
        (peer_connections db)\<rparr>)) db)"

definition pg_ListPeerConnections :: "string \<Rightarrow> millis option \<Rightarrow> int \<Rightarrow> conn_db \<Rightarrow> (err + PeerConnection list) \<times> conn_db" where
  "pg_ListPeerConnections p since limit db = in_context ''list peer connections: '' (stmt (\<lambda>d.
     (Inr (take (nat limit) (rev (sort_key (\<lambda>c. (pcConnectedAt c, pcID c))
        (filter (\<lambda>c. pcPeerID c = p \<and> (case since of None \<Rightarrow> True | Some t \<Rightarrow> t \<le> pcConnectedAt c)) (peer_connections d))))), d)) db)"

definition pg_PurgePeerConnections :: "millis \<Rightarrow> conn_db \<Rightarrow> (err + int) \<times> conn_db" where
  "pg_PurgePeerConnections cutoff db = in_context ''purge peer connections: '' (stmt (\<lambda>db.
     (Inr (int (length (filter (\<lambda>c. pcConnectedAt c < cutoff) (peer_connections db)))),
      db\<lparr>peer_connections := filter (\<lambda>c. \<not> pcConnectedAt c < cutoff) (peer_connections db)\<rparr>)) db)"


section \<open>Removing posts\<close>

text \<open>\<^verbatim>\<open>LIKE ... ESCAPE\<close> with a backslash, and the pattern \<^verbatim>\<open>likePrefix\<close> makes of a prefix.\<close>

fun like :: "string \<Rightarrow> string \<Rightarrow> bool" where
  "like [] s \<longleftrightarrow> s = []"
| "like (p # ps) s \<longleftrightarrow>
     (if p = CHR ''%'' then (case s of [] \<Rightarrow> like ps [] | c # cs \<Rightarrow> like ps (c # cs) \<or> like (p # ps) cs)
      else if p = CHR ''_'' then (case s of [] \<Rightarrow> False | c # cs \<Rightarrow> like ps cs)
      else if p = CHR 0x5C then (case ps of [] \<Rightarrow> False | q # qs \<Rightarrow> (case s of [] \<Rightarrow> False | c # cs \<Rightarrow> c = q \<and> like qs cs))
      else (case s of [] \<Rightarrow> False | c # cs \<Rightarrow> c = p \<and> like ps cs))"

definition like_escape :: "char \<Rightarrow> string" where
  "like_escape c = (if c \<in> {CHR 0x5C, CHR ''%'', CHR ''_''} then [CHR 0x5C, c] else [c])"

definition likePrefix :: "string \<Rightarrow> string" where
  "likePrefix p = concat (map like_escape p) @ ''%''"

record FeedEntryMatch = FeedEntryRecord +
  fmOwnerPeerID :: string
  fmPath :: string

definition with_feed :: "FeedRecord \<Rightarrow> FeedEntryRecord \<Rightarrow> FeedEntryMatch" where
  "with_feed f e = \<lparr>fentID = fentID e, fentFeedID = fentFeedID e, fentSequenceNumber = fentSequenceNumber e, fentContent = fentContent e,
     fentContentHash = fentContentHash e, fentCreatedAt = fentCreatedAt e, fentCreatedByPeerID = fentCreatedByPeerID e,
     fentEntryType = fentEntryType e, fmOwnerPeerID = rowOwner f, fmPath = rowPath f\<rparr>"

definition pg_FeedEntriesContaining :: "peer_lib \<Rightarrow> peer_id \<Rightarrow> string \<Rightarrow> string \<Rightarrow> FeedEntryMatch list storem" where
  "pg_FeedEntriesContaining L peerID pathPrefix needle db = in_context ''find feed entries: '' (stmt (\<lambda>d.
     (Inr (sort_key (\<lambda>m. (fentFeedID m, fentSequenceNumber m))
        (concat (map (\<lambda>e. map (\<lambda>f. with_feed f e) (filter (\<lambda>f. rowID f = fentFeedID e
             \<and> (rowPath f = pathPrefix \<or> like (likePrefix (pathPrefix @ ''/'')) (rowPath f))
             \<and> (rowOwner f = peer_String L peerID \<or> fentCreatedByPeerID e = peer_String L peerID)
             \<and> contains_sub (raw_text (fentContent e)) needle) (feeds d))) (feed_entries d)))), d)) db)"

definition pg_DeleteFeedEntries :: "int list \<Rightarrow> int storem" where
  "pg_DeleteFeedEntries ids db =
     (if ids = [] then (Inr 0, db)
      else in_context ''delete feed entries: '' (stmt (drop_entries (\<lambda>e. fentID e \<in> set ids)) db))"

definition pg_DeleteDocumentsWithPrefix :: "peer_lib \<Rightarrow> peer_id \<Rightarrow> string \<Rightarrow> int storem" where
  "pg_DeleteDocumentsWithPrefix L ownerID pfx db = in_context ''delete documents: '' (stmt (\<lambda>db.
     (let hit = (\<lambda>r. rowOwner r = peer_String L ownerID \<and> like (likePrefix pfx) (rowPath r));
          gone = map rowID (filter hit (documents db))
      in (Inr (int (length gone)),
          db\<lparr>documents := filter (\<lambda>r. \<not> hit r) (documents db),
             document_versions := filter (\<lambda>v. verDocumentID v \<notin> set gone) (document_versions db),
             document_acls := filter (\<lambda>a. rdRow a \<notin> set gone) (document_acls db)\<rparr>))) db)"


section \<open>Requests and responses\<close>

record ModRequest =
  mdOperation :: string
  mdPeerID :: string
  mdReason :: string
  mdPostID :: string
  mdSince :: string
  mdLimit :: int

definition dec_ModRequest :: "(string \<times> json) list \<Rightarrow> ModRequest option" where
  "dec_ModRequest kvs = do {
     opn \<leftarrow> json_field dec_string [] ''operation'' kvs;
     p \<leftarrow> json_field dec_string [] ''peerId'' kvs;
     r \<leftarrow> json_field dec_string [] ''reason'' kvs;
     po \<leftarrow> json_field dec_string [] ''postId'' kvs;
     si \<leftarrow> json_field dec_string [] ''since'' kvs;
     l \<leftarrow> json_field dec_int64 0 ''limit'' kvs;
     Some \<lparr>mdOperation = opn, mdPeerID = p, mdReason = r, mdPostID = po, mdSince = si, mdLimit = l\<rparr> }"

record PostRemoval =
  prEntries :: int
  prFeeds :: "string list"
  prThreadRemoved :: bool
  prMedia :: int

record ModResponse =
  mrSuccess :: bool
  mrErrorMessage :: string
  mrStatus :: int
  mrBan :: "PeerBan option"
  mrBans :: "PeerBan list"
  mrWasBanned :: bool
  mrConnectionsClosed :: bool
  mrListingRemoved :: bool
  mrRemoval :: "PostRemoval option"
  mrConnections :: "PeerConnection list option"
  mrRetentionDays :: "int option"

definition mod_success :: ModResponse where
  "mod_success = \<lparr>mrSuccess = True, mrErrorMessage = [], mrStatus = 0, mrBan = None, mrBans = [], mrWasBanned = False,
     mrConnectionsClosed = False, mrListingRemoved = False, mrRemoval = None, mrConnections = None, mrRetentionDays = None\<rparr>"

definition mod_refuse :: "int \<Rightarrow> string \<Rightarrow> ModResponse" where
  "mod_refuse status msg = mod_success\<lparr>mrSuccess := False, mrErrorMessage := msg, mrStatus := status\<rparr>"

definition mod_StatusCode :: "ModResponse \<Rightarrow> int" where
  "mod_StatusCode r = (if mrStatus r \<noteq> 0 then mrStatus r else if mrSuccess r then 200 else 400)"


section \<open>Handlers\<close>

text \<open>
  What the handlers use: the moderators, the way to close connections (none without a network), the
  text of times, the first JSON value of a stream of bytes, the order in which Go visits a set, and
  the days the log of connections is kept. What they change: the bans, the stores and the log.
\<close>

record moa_env =
  moPeer :: peer_lib
  moText :: json_text
  moForge :: forge_lib
  moModerators :: Moderators
  moClose :: "(peer_id \<Rightarrow> bool) option"
  moTime :: "string \<Rightarrow> millis option"
  moFirst :: "bytes \<Rightarrow> json option"
  moOrder :: "string list \<Rightarrow> string list"
  moLogDays :: int

record moa_state =
  moBans :: "Bans option"
  moStore :: stores
  moLog :: conn_db

type_synonym moa_handler = "moa_state \<Rightarrow> ModResponse go \<times> moa_state"

definition mod_target :: "peer_lib \<Rightarrow> ModRequest \<Rightarrow> ModResponse + peer_id" where
  "mod_target L req =
     (if mdPeerID req = [] then Inl (mod_refuse 400 ''peerId is required'')
      else case peer_Decode L (mdPeerID req) of
        None \<Rightarrow> Inl (mod_refuse 400 ''peerId is not a peer ID'')
      | Some p \<Rightarrow> Inr p)"

text \<open>
  The first runes of a string, which is valid UTF-8 as every string from JSON: a byte that does not
  continue a rune starts one.
\<close>

fun take_runes :: "nat \<Rightarrow> string \<Rightarrow> string" where
  "take_runes n [] = []"
| "take_runes n (c # cs) =
     (if 128 \<le> (of_char c :: nat) \<and> (of_char c :: nat) < 192 then c # take_runes n cs
      else if n = 0 then [] else c # take_runes (n - 1) cs)"

definition maxReasonRunes :: nat where "maxReasonRunes = 500"

definition handleBan :: "moa_env \<Rightarrow> peer_id \<Rightarrow> ModRequest \<Rightarrow> moa_handler" where
  "handleBan V caller req s =
     (case mod_target (moPeer V) req of
        Inl bad \<Rightarrow> (Return bad, s)
      | Inr p \<Rightarrow>
          if p = caller \<or> Moderators_Contains (moModerators V) p
          then (Return (mod_refuse 400 ''a moderator cannot be banned''), s)
          else (case moBans s of
                  None \<Rightarrow> (Panic, s)
                | Some bans \<Rightarrow>
                    (case Ban (moPeer V) p caller (take_runes maxReasonRunes (TrimSpace (mdReason req))) (clock (moStore s)) bans of
                       (Inl e, bans1) \<Rightarrow> (Return (mod_refuse 500 ''the ban could not be kept''), s\<lparr>moBans := Some bans1\<rparr>)
                     | (Inr ban, bans1) \<Rightarrow>
                         (let (gone, db1) = pg_RemoveDirectoryEntry (peer_String (moPeer V) p) (moStore s)
                          in (Return (mod_success\<lparr>mrBan := Some ban,
                                mrConnectionsClosed := (case moClose V of None \<Rightarrow> False | Some close \<Rightarrow> close p),
                                mrListingRemoved := (case gone of Inl e \<Rightarrow> False | Inr _ \<Rightarrow> True)\<rparr>),
                              s\<lparr>moBans := Some bans1, moStore := db1\<rparr>)))))"

definition handleUnban :: "moa_env \<Rightarrow> ModRequest \<Rightarrow> moa_handler" where
  "handleUnban V req s =
     (case mod_target (moPeer V) req of
        Inl bad \<Rightarrow> (Return bad, s)
      | Inr p \<Rightarrow>
          (case moBans s of
             None \<Rightarrow> (Panic, s)
           | Some bans \<Rightarrow>
               (case Unban (moPeer V) p bans of
                  (Inl e, bans1) \<Rightarrow> (Return (mod_refuse 500 ''the unban could not be kept''), s\<lparr>moBans := Some bans1\<rparr>)
                | (Inr was, bans1) \<Rightarrow> (Return (mod_success\<lparr>mrWasBanned := was\<rparr>), s\<lparr>moBans := Some bans1\<rparr>))))"

definition handleGetBan :: "moa_env \<Rightarrow> ModRequest \<Rightarrow> moa_handler" where
  "handleGetBan V req s =
     (case mod_target (moPeer V) req of
        Inl bad \<Rightarrow> (Return bad, s)
      | Inr p \<Rightarrow> (Return (mod_success\<lparr>mrBan := Bans_Get (moBans s) p\<rparr>), s))"

definition handleListBans :: moa_handler where
  "handleListBans s = (case moBans s of None \<Rightarrow> (Panic, s) | Some bans \<Rightarrow> (Return (mod_success\<lparr>mrBans := Bans_List bans\<rparr>), s))"

definition defaultConnectionsLimit :: int where "defaultConnectionsLimit = 500"
definition maxConnectionsLimit :: int where "maxConnectionsLimit = 2000"

definition handleConnections :: "moa_env \<Rightarrow> ModRequest \<Rightarrow> moa_handler" where
  "handleConnections V req s =
     (case mod_target (moPeer V) req of
        Inl bad \<Rightarrow> (Return bad, s)
      | Inr p \<Rightarrow>
          if mdSince req \<noteq> [] \<and> moTime V (mdSince req) = None then (Return (mod_refuse 400 ''since is not an RFC 3339 time''), s)
          else if mdLimit req < 0 then (Return (mod_refuse 400 ''limit must not be negative''), s)
          else (let since = (if mdSince req = [] then None else moTime V (mdSince req));
                    limit = (if mdLimit req = 0 then defaultConnectionsLimit
                             else if maxConnectionsLimit < mdLimit req then maxConnectionsLimit else mdLimit req)
                in case pg_ListPeerConnections (peer_String (moPeer V) p) since limit (moLog s) of
                     (Inl e, db1) \<Rightarrow> (Return (mod_refuse 500 ''could not read the connection log''), s\<lparr>moLog := db1\<rparr>)
                   | (Inr conns, db1) \<Rightarrow>
                       (Return (mod_success\<lparr>mrConnections := Some conns, mrRetentionDays := Some (moLogDays V)\<rparr>), s\<lparr>moLog := db1\<rparr>)))"

text \<open>
  \<^verbatim>\<open>entryIsAbout\<close>: the value of \<^verbatim>\<open>target\<close> after every member of the name was decoded over the one before.
\<close>

fun target_ids :: "json list \<Rightarrow> string option \<Rightarrow> string option option" where
  "target_ids [] t = Some t"
| "target_ids (JNull # vs) t = target_ids vs None"
| "target_ids (JObj kvs # vs) t =
     (case json_field dec_string (case t of None \<Rightarrow> [] | Some old \<Rightarrow> old) ''id'' kvs of
        None \<Rightarrow> None
      | Some new \<Rightarrow> target_ids vs (Some new))"
| "target_ids (_ # vs) t = None"

definition entry_ids :: "moa_env \<Rightarrow> bytes \<Rightarrow> (string \<times> string option) option" where
  "entry_ids V content =
     (case moFirst V content of
        Some (JObj kvs) \<Rightarrow> do {
          i \<leftarrow> json_field dec_string [] ''id'' kvs;
          t \<leftarrow> target_ids (all_values ''target'' kvs) None;
          Some (i, t) }
      | Some JNull \<Rightarrow> Some ([], None)
      | _ \<Rightarrow> None)"

definition entryIsAbout :: "moa_env \<Rightarrow> FeedEntryMatch \<Rightarrow> peer_id \<Rightarrow> string \<Rightarrow> bool" where
  "entryIsAbout V e author postID \<longleftrightarrow>
     (fentCreatedByPeerID e = peer_String (moPeer V) author
      \<or> fentCreatedByPeerID e = [] \<and> fmOwnerPeerID e = peer_String (moPeer V) author)
     \<and> (case entry_ids V (fentContent e) of
          None \<Rightarrow> False
        | Some (i, t) \<Rightarrow> i = postID \<or> t = Some postID)"

definition microblogFeed :: string where "microblogFeed = ''microblog''"
definition threadsPrefix :: string where "threadsPrefix = ''microblog/threads/''"
definition mediaPrefix :: string where "mediaPrefix = ''microblog/media/''"

definition bad_post_id :: "string \<Rightarrow> bool" where
  "bad_post_id postID \<longleftrightarrow> postID = [] \<or> list_ex (\<lambda>c. c \<in> {CHR ''/'', CHR ''%'', CHR ''_'', CHR 0x5C}) postID \<or> 128 < length postID"

text \<open>What is removed once the entries are known: they, the thread of the post and its images.\<close>

definition remove_post :: "moa_env \<Rightarrow> peer_id \<Rightarrow> string \<Rightarrow> FeedEntryMatch list \<Rightarrow> stores \<Rightarrow> (err + PostRemoval) \<times> stores" where
  "remove_post V author postID matches db =
     (case pg_DeleteFeedEntries (map fentID matches) db of
        (Inl e, db1) \<Rightarrow> (Inl e, db1)
      | (Inr n, db1) \<Rightarrow>
          (let (thread, db2) = pg_DeleteFeed (moPeer V) author (threadsPrefix @ postID) db1;
               (media, db3) = pg_DeleteDocumentsWithPrefix (moPeer V) author (mediaPrefix @ postID @ ''-img'') db2
           in (Inr \<lparr>prEntries = n, prFeeds = moOrder V (remdups (map (\<lambda>m. fmOwnerPeerID m @ ''/'' @ fmPath m) matches)),
                    prThreadRemoved = (case thread of Inl e \<Rightarrow> False | Inr b \<Rightarrow> b),
                    prMedia = (case media of Inl e \<Rightarrow> 0 | Inr k \<Rightarrow> k)\<rparr>, db3)))"

definition handleRemovePost :: "moa_env \<Rightarrow> ModRequest \<Rightarrow> moa_handler" where
  "handleRemovePost V req s =
     (case mod_target (moPeer V) req of
        Inl bad \<Rightarrow> (Return bad, s)
      | Inr author \<Rightarrow>
          (let postID = TrimSpace (mdPostID req) in
           if bad_post_id postID then (Return (mod_refuse 400 ''postId is required, and is an id, not a path''), s)
           else case pg_FeedEntriesContaining (moPeer V) author microblogFeed postID (moStore s) of
             (Inl e, db1) \<Rightarrow> (Return (mod_refuse 500 ''could not look the post up''), s\<lparr>moStore := db1\<rparr>)
           | (Inr candidates, db1) \<Rightarrow>
               (case remove_post V author postID (filter (\<lambda>m. entryIsAbout V m author postID) candidates) db1 of
                  (Inl e, db2) \<Rightarrow> (Return (mod_refuse 500 ''could not remove the post''), s\<lparr>moStore := db2\<rparr>)
                | (Inr removal, db2) \<Rightarrow>
                    (Return (if prEntries removal = 0 \<and> \<not> prThreadRemoved removal \<and> prMedia removal = 0
                       then (mod_refuse 404 (''no post '' @ postID @ '' by '' @ peer_String (moPeer V) author @ '' here''))\<lparr>mrRemoval := Some removal\<rparr>
                       else mod_success\<lparr>mrRemoval := Some removal\<rparr>), s\<lparr>moStore := db2\<rparr>))))"


section \<open>The pipeline\<close>

definition requireModerator :: "moa_env \<Rightarrow> peer_id \<Rightarrow> err option" where
  "requireModerator V caller =
     (if Moderators_Contains (moModerators V) caller then None else Some (Forbidden ''moderation requires a moderator''))"

definition modResponseWriter :: "err \<Rightarrow> ModResponse" where
  "modResponseWriter e = mod_refuse (fst (Classify (Some e))) (ClientMessage (Some e))"

definition moa_operations :: "string list" where
  "moa_operations = [''ban'', ''unban'', ''getBan'', ''listBans'', ''removePost'', ''connections'']"

definition moa_handle :: "moa_env \<Rightarrow> peer_id \<Rightarrow> string \<Rightarrow> ModRequest \<Rightarrow> moa_handler" where
  "moa_handle V caller opn req s =
     (if opn = ''ban'' then handleBan V caller req s
      else if opn = ''unban'' then handleUnban V req s
      else if opn = ''getBan'' then handleGetBan V req s
      else if opn = ''listBans'' then handleListBans s
      else if opn = ''removePost'' then handleRemovePost V req s
      else handleConnections V req s)"

definition moa_serve :: "moa_env \<Rightarrow> peer_id \<Rightarrow> bytes \<Rightarrow> moa_handler" where
  "moa_serve V caller raw s =
     (case requireModerator V caller of
        Some e \<Rightarrow> (Return (modResponseWriter e), s)
      | None \<Rightarrow>
          (case fgOperation (moForge V) ''operation'' raw of
             Inl e \<Rightarrow> (Return (modResponseWriter e), s)
           | Inr opn \<Rightarrow>
               if opn \<notin> set moa_operations then (Return (modResponseWriter (ErrUnknownOperation opn)), s)
               else (case Option.bind (object_fields (moText V) raw) dec_ModRequest of
                       None \<Rightarrow> (Return (modResponseWriter (fgDecodeError (moForge V) raw)), s)
                     | Some req \<Rightarrow> moa_handle V caller opn req s)))"

end
