(* ===== verification/Moa_Props.thy ===== *)
theory Moa_Props
  imports Moa Feeds_Props Sda_Props
begin

text \<open>
  What moderation removes: the post a moderator names, its author's own entries about it, its thread
  and its images, and the directory entry of a peer that is banned; nothing else, and no moderator
  is ever banned.
\<close>

section \<open>Patterns\<close>

lemma like_any [simp]: "like ''%'' s"
  by (induction s) simp_all

lemma like_escaped: "like (like_escape c @ ps) s \<longleftrightarrow> (case s of [] \<Rightarrow> False | d # ds \<Rightarrow> d = c \<and> like ps ds)"
  by (auto simp: like_escape_def split: list.split)

lemma like_likePrefix [simp]: "like (likePrefix p) s \<longleftrightarrow> has_prefix s p"
proof -
  have "like (concat (map like_escape p) @ ''%'') s \<longleftrightarrow> has_prefix s p"
  proof (induction p arbitrary: s)
    case (Cons c p)
    then show ?case by (cases s) (auto simp: like_escaped has_prefix_def)
  qed (simp add: has_prefix_def del: like.simps)
  then show ?thesis by (simp add: likePrefix_def)
qed


section \<open>What belongs to a post\<close>

text \<open>
  The entries about a post: those in a microblog feed, by its author, with the identifier of the post
  in their bytes and as their identifier or their target. The thread of the post is a feed of its
  author, its images are documents of its author.
\<close>

definition posted :: "moa_env \<Rightarrow> peer_id \<Rightarrow> string \<Rightarrow> stores \<Rightarrow> FeedEntryRecord \<Rightarrow> bool" where
  "posted V author postID d e \<longleftrightarrow> (\<exists>f \<in> set (feeds d). rowID f = fentFeedID e
     \<and> (rowPath f = microblogFeed \<or> has_prefix (rowPath f) (microblogFeed @ ''/''))
     \<and> contains_sub (raw_text (fentContent e)) postID \<and> entryIsAbout V (with_feed f e) author postID)"

definition is_thread :: "moa_env \<Rightarrow> peer_id \<Rightarrow> string \<Rightarrow> FeedRecord \<Rightarrow> bool" where
  "is_thread V author postID f \<longleftrightarrow> at_path (peer_String (moPeer V) author) (threadsPrefix @ postID) f"

definition is_image :: "moa_env \<Rightarrow> peer_id \<Rightarrow> string \<Rightarrow> document_row \<Rightarrow> bool" where
  "is_image V author postID r \<longleftrightarrow>
     rowOwner r = peer_String (moPeer V) author \<and> has_prefix (rowPath r) (mediaPrefix @ postID @ ''-img'')"

definition threads_of :: "moa_env \<Rightarrow> peer_id \<Rightarrow> string \<Rightarrow> stores \<Rightarrow> int set" where
  "threads_of V author postID d = rowID ` set (filter (is_thread V author postID) (feeds d))"

definition images_of :: "moa_env \<Rightarrow> peer_id \<Rightarrow> string \<Rightarrow> stores \<Rightarrow> int set" where
  "images_of V author postID d = rowID ` set (filter (is_image V author postID) (documents d))"

text \<open>The stores without the entries, the thread, or the images of a post.\<close>

definition without_entries :: "moa_env \<Rightarrow> peer_id \<Rightarrow> string \<Rightarrow> stores \<Rightarrow> stores" where
  "without_entries V author postID d = d\<lparr>feed_entries := filter (\<lambda>e. \<not> posted V author postID d e) (feed_entries d)\<rparr>"

definition without_thread :: "moa_env \<Rightarrow> peer_id \<Rightarrow> string \<Rightarrow> stores \<Rightarrow> stores" where
  "without_thread V author postID d = d\<lparr>
     feeds := filter (\<lambda>f. \<not> is_thread V author postID f) (feeds d),
     feed_entries := filter (\<lambda>e. fentFeedID e \<notin> threads_of V author postID d) (feed_entries d),
     feed_acls := filter (\<lambda>a. rdRow a \<notin> threads_of V author postID d) (feed_acls d)\<rparr>"

definition without_images :: "moa_env \<Rightarrow> peer_id \<Rightarrow> string \<Rightarrow> stores \<Rightarrow> stores" where
  "without_images V author postID d = d\<lparr>
     documents := filter (\<lambda>r. \<not> is_image V author postID r) (documents d),
     document_versions := filter (\<lambda>v. verDocumentID v \<notin> images_of V author postID d) (document_versions d),
     document_acls := filter (\<lambda>a. rdRow a \<notin> images_of V author postID d) (document_acls d)\<rparr>"

lemmas without_defs = without_entries_def without_thread_def without_images_def

lemma post_next_faults [simp]:
  "posted V author postID (next_faults d) = posted V author postID d"
  "threads_of V author postID (next_faults d) = threads_of V author postID d"
  "images_of V author postID (next_faults d) = images_of V author postID d"
  by (simp_all add: posted_def threads_of_def images_of_def fun_eq_iff)


section \<open>The statements\<close>

lemma DeleteFeed_thread:
  "pg_DeleteFeed (moPeer V) author (threadsPrefix @ postID) db
     = in_context ''delete feed: '' (stmt (\<lambda>d. (Inr (threads_of V author postID d \<noteq> {}), without_thread V author postID d)) db)"
  by (simp add: pg_DeleteFeed_def without_thread_def threads_of_def is_thread_def [abs_def] filter_empty_conv Bex_def Let_def)

lemma DeleteDocuments_images:
  "pg_DeleteDocumentsWithPrefix (moPeer V) author (mediaPrefix @ postID @ ''-img'') db
     = in_context ''delete documents: '' (stmt (\<lambda>d. (Inr (int (length (filter (is_image V author postID) (documents d)))),
         without_images V author postID d)) db)"
  by (simp add: pg_DeleteDocumentsWithPrefix_def without_images_def images_of_def is_image_def [abs_def] Let_def)

text \<open>The entries found, filtered by the handler, are by their identifiers those about the post.\<close>

definition found_entries :: "moa_env \<Rightarrow> peer_id \<Rightarrow> string \<Rightarrow> stores \<Rightarrow> FeedEntryMatch list" where
  "found_entries V author postID d = sort_key (\<lambda>m. (fentFeedID m, fentSequenceNumber m))
     (concat (map (\<lambda>e. map (\<lambda>f. with_feed f e) (filter (\<lambda>f. rowID f = fentFeedID e
         \<and> (rowPath f = microblogFeed \<or> has_prefix (rowPath f) (microblogFeed @ ''/''))
         \<and> (rowOwner f = peer_String (moPeer V) author \<or> fentCreatedByPeerID e = peer_String (moPeer V) author)
         \<and> contains_sub (raw_text (fentContent e)) postID) (feeds d))) (feed_entries d)))"

lemma FeedEntriesContaining_found:
  "pg_FeedEntriesContaining (moPeer V) author microblogFeed postID db
     = in_context ''find feed entries: '' (stmt (\<lambda>d. (Inr (found_entries V author postID d), d)) db)"
  by (simp add: pg_FeedEntriesContaining_def found_entries_def)

lemma with_feed_fields [simp]:
  "fentID (with_feed f e) = fentID e" "fmOwnerPeerID (with_feed f e) = rowOwner f"
  "fentCreatedByPeerID (with_feed f e) = fentCreatedByPeerID e"
  by (simp_all add: with_feed_def)

lemma found_entry_ids:
  "fentID ` set (filter (\<lambda>m. entryIsAbout V m author postID) (found_entries V author postID d))
     = fentID ` set (filter (posted V author postID d) (feed_entries d))" (is "?lhs = ?rhs")
proof
  show "?lhs \<subseteq> ?rhs" by (force simp: found_entries_def posted_def)
  show "?rhs \<subseteq> ?lhs"
  proof
    fix i assume "i \<in> ?rhs"
    then obtain e f where e: "e \<in> set (feed_entries d)" "i = fentID e" and f: "f \<in> set (feeds d)" "rowID f = fentFeedID e"
        "rowPath f = microblogFeed \<or> has_prefix (rowPath f) (microblogFeed @ ''/'')"
        "contains_sub (raw_text (fentContent e)) postID" and about: "entryIsAbout V (with_feed f e) author postID"
      by (auto simp: posted_def)
    from about have "rowOwner f = peer_String (moPeer V) author \<or> fentCreatedByPeerID e = peer_String (moPeer V) author"
      by (auto simp: entryIsAbout_def)
    then have "with_feed f e \<in> set (found_entries V author postID d)"
      using e f by (auto simp: found_entries_def intro!: bexI [of _ e] image_eqI [of _ _ f])
    then show "i \<in> ?lhs" using about e by (auto intro!: image_eqI [of _ _ "with_feed f e"])
  qed
qed

lemma id_is_posted:
  assumes inv: "feeds_inv d" and e: "e \<in> set (feed_entries d)"
  shows "fentID e \<in> fentID ` set (filter (posted V author postID d) (feed_entries d)) \<longleftrightarrow> posted V author postID d e"
  using inv e by (auto simp: feeds_inv_defs distinct_map inj_on_def)

lemma drop_posted:
  assumes inv: "feeds_inv d" and ids: "set ids = fentID ` set (filter (posted V author postID d) (feed_entries d))"
  shows "drop_entries (\<lambda>e. fentID e \<in> set ids) d
    = (Inr (int (length (filter (posted V author postID d) (feed_entries d)))), without_entries V author postID d)"
  using id_is_posted [OF inv]
  by (simp add: drop_entries_def without_entries_def ids cong: filter_cong)


section \<open>Removing a post\<close>

text \<open>Only rows of a kind are gone from a table; what any statement of the removal leaves.\<close>

definition lost_only :: "('a \<Rightarrow> bool) \<Rightarrow> 'a list \<Rightarrow> 'a list \<Rightarrow> bool" where
  "lost_only P xs ys \<longleftrightarrow> set ys \<subseteq> set xs \<and> (\<forall>x \<in> set xs - set ys. P x)"

lemma lost_only_refl [simp]: "lost_only P xs xs"
  by (simp add: lost_only_def)

lemma lost_only_filter: "(\<And>x. \<not> Q x \<Longrightarrow> P x) \<Longrightarrow> lost_only P xs (filter Q xs)"
  by (auto simp: lost_only_def)

lemma lost_only_trans: "lost_only P xs ys \<Longrightarrow> lost_only Q ys zs \<Longrightarrow> (\<And>x. Q x \<Longrightarrow> P x) \<Longrightarrow> lost_only P xs zs"
  unfolding lost_only_def by blast

definition spares :: "moa_env \<Rightarrow> peer_id \<Rightarrow> string \<Rightarrow> stores \<Rightarrow> stores \<Rightarrow> bool" where
  "spares V p postID d d' \<longleftrightarrow>
     feeds_inv d'
     \<and> collections d' = collections d \<and> collection_items d' = collection_items d \<and> collection_acls d' = collection_acls d
     \<and> lost_only (is_thread V p postID) (feeds d) (feeds d')
     \<and> lost_only (\<lambda>e. posted V p postID d e \<or> fentFeedID e \<in> threads_of V p postID d) (feed_entries d) (feed_entries d')
     \<and> lost_only (\<lambda>a. rdRow a \<in> threads_of V p postID d) (feed_acls d) (feed_acls d')
     \<and> lost_only (is_image V p postID) (documents d) (documents d')
     \<and> lost_only (\<lambda>v. verDocumentID v \<in> images_of V p postID d) (document_versions d) (document_versions d')
     \<and> lost_only (\<lambda>a. rdRow a \<in> images_of V p postID d) (document_acls d) (document_acls d')
     \<and> directory_listings d' = directory_listings d"

lemma without_inv:
  assumes "feeds_inv d"
  shows "feeds_inv (without_entries V p postID d)" "feeds_inv (without_thread V p postID d)" "feeds_inv (without_images V p postID d)"
proof -
  show "feeds_inv (without_entries V p postID d)"
    using drop_entries_step [OF assms, of "posted V p postID d"] by (simp add: drop_entries_def without_entries_def feed_step_def)
  have "feed_step d (without_thread V p postID d)"
    unfolding without_thread_def threads_of_def by (rule shrink_step [OF assms]) auto
  then show "feeds_inv (without_thread V p postID d)" by (simp add: feed_step_def)
  show "feeds_inv (without_images V p postID d)" using assms by (simp add: feeds_inv_defs without_images_def)
qed

lemma spares_refl [simp]: "feeds_inv d \<Longrightarrow> spares V p postID d d" "feeds_inv d \<Longrightarrow> spares V p postID d (next_faults d)"
  by (simp_all add: spares_def)

lemma post_mono:
  assumes "set (feeds d') \<subseteq> set (feeds d)" "set (documents d') \<subseteq> set (documents d)"
  shows "posted V p postID d' e \<Longrightarrow> posted V p postID d e" "i \<in> threads_of V p postID d' \<Longrightarrow> i \<in> threads_of V p postID d"
    "i \<in> images_of V p postID d' \<Longrightarrow> i \<in> images_of V p postID d"
  using assms by (auto simp: posted_def threads_of_def images_of_def)

lemma spares_trans:
  assumes a: "spares V p postID d d1" and b: "spares V p postID d1 d2"
  shows "spares V p postID d d2"
proof -
  have sub: "set (feeds d1) \<subseteq> set (feeds d)" "set (documents d1) \<subseteq> set (documents d)" using a by (simp_all add: spares_def lost_only_def)
  have acls: "lost_only (\<lambda>a. rdRow a \<in> threads_of V p postID d) (feed_acls d) (feed_acls d2)"
    "lost_only (\<lambda>v. verDocumentID v \<in> images_of V p postID d) (document_versions d) (document_versions d2)"
    "lost_only (\<lambda>a. rdRow a \<in> images_of V p postID d) (document_acls d) (document_acls d2)"
    using a b post_mono(2,3) [OF sub] by (auto simp: spares_def elim!: lost_only_trans)
  have entries: "lost_only (\<lambda>e. posted V p postID x e \<or> fentFeedID e \<in> threads_of V p postID x) (feed_entries x) (feed_entries y)"
    if "spares V p postID x y" for x y using that by (simp add: spares_def)
  have "lost_only (\<lambda>e. posted V p postID d e \<or> fentFeedID e \<in> threads_of V p postID d) (feed_entries d) (feed_entries d2)"
    by (rule lost_only_trans [OF entries [OF a] entries [OF b]]) (use post_mono [OF sub] in blast)
  then show ?thesis using a b acls unfolding spares_def by (auto elim: lost_only_trans)
qed

lemma spares_stmt:
  assumes inv: "feeds_inv db" and f: "\<And>d. feeds_inv d \<Longrightarrow> spares V p postID d (snd (f d))"
  shows "spares V p postID db (snd (stmt f db))"
proof -
  have "spares V p postID db (snd (f (next_faults db)))"
    using f [of "next_faults db"] inv by (simp add: spares_def)
  then show ?thesis using inv by (intro stmt_snd_case [where Q = "spares V p postID db"]) auto
qed

lemma spares_without:
  assumes "feeds_inv d"
  shows "spares V p postID d (without_entries V p postID d)" "spares V p postID d (without_thread V p postID d)"
    "spares V p postID d (without_images V p postID d)"
proof -
  show "spares V p postID d (without_entries V p postID d)"
    using without_inv(1) [OF assms, of V p postID] by (auto simp: spares_def without_entries_def intro!: lost_only_filter)
  show "spares V p postID d (without_thread V p postID d)"
    using without_inv(2) [OF assms, of V p postID] by (auto simp: spares_def without_thread_def intro!: lost_only_filter)
  show "spares V p postID d (without_images V p postID d)"
    using without_inv(3) [OF assms, of V p postID] by (auto simp: spares_def without_images_def intro!: lost_only_filter)
qed

lemma DeleteFeedEntries_posted:
  assumes inv: "feeds_inv d" and ids: "set ids = fentID ` set (filter (posted V p postID d) (feed_entries d))"
  shows "spares V p postID d (snd (pg_DeleteFeedEntries ids d))"
    "faults d = [] \<Longrightarrow> pg_DeleteFeedEntries ids d
       = (Inr (int (length (filter (posted V p postID d) (feed_entries d)))), without_entries V p postID d)"
proof -
  have drop: "drop_entries (\<lambda>e. fentID e \<in> set ids) (next_faults d)
      = (Inr (int (length (filter (posted V p postID d) (feed_entries d)))), without_entries V p postID (next_faults d))"
    using drop_posted [of "next_faults d" ids V p postID] inv ids by simp
  have "spares V p postID d (without_entries V p postID (next_faults d))"
    using spares_trans [OF spares_refl(2) spares_without(1)] inv by simp
  then show "spares V p postID d (snd (pg_DeleteFeedEntries ids d))"
    using inv drop by (auto simp: pg_DeleteFeedEntries_def intro!: stmt_snd_case [where Q = "spares V p postID d"])
  assume nf: "faults d = []"
  show "pg_DeleteFeedEntries ids d
      = (Inr (int (length (filter (posted V p postID d) (feed_entries d)))), without_entries V p postID d)"
  proof (cases "ids = []")
    case True
    then have none: "\<forall>e \<in> set (feed_entries d). \<not> posted V p postID d e" using ids by (auto simp: image_iff)
    then have "filter (\<lambda>e. \<not> posted V p postID d e) (feed_entries d) = feed_entries d" by (simp add: filter_id_conv)
    moreover have "filter (posted V p postID d) (feed_entries d) = []" using none by (simp add: filter_empty_conv)
    ultimately show ?thesis using True by (simp add: pg_DeleteFeedEntries_def without_entries_def)
  next
    case False
    then show ?thesis using drop_posted [OF inv ids] nf by (simp add: pg_DeleteFeedEntries_def in_context_def)
  qed
qed

lemma remove_post_spares:
  assumes inv: "feeds_inv d" and ids: "fentID ` set matches = fentID ` set (filter (posted V p postID d) (feed_entries d))"
  shows "spares V p postID d (snd (remove_post V p postID matches d))"
proof -
  obtain x d1 where del: "pg_DeleteFeedEntries (map fentID matches) d = (x, d1)" by fastforce
  then have s1: "spares V p postID d d1" using DeleteFeedEntries_posted(1) [OF inv, of "map fentID matches" V p postID] ids by simp
  obtain t d2 where thread: "pg_DeleteFeed (moPeer V) p (threadsPrefix @ postID) d1 = (t, d2)" by fastforce
  have i1: "feeds_inv d1" using s1 by (simp add: spares_def)
  have "spares V p postID d1 (snd (pg_DeleteFeed (moPeer V) p (threadsPrefix @ postID) d1))"
    unfolding DeleteFeed_thread snd_in_context by (rule spares_stmt [OF i1]) (simp add: spares_without)
  then have s2: "spares V p postID d d2" using spares_trans [OF s1] thread by simp
  then have i2: "feeds_inv d2" by (simp add: spares_def)
  have "spares V p postID d2 (snd (pg_DeleteDocumentsWithPrefix (moPeer V) p (mediaPrefix @ postID @ ''-img'') d2))"
    unfolding DeleteDocuments_images snd_in_context by (rule spares_stmt [OF i2]) (simp add: spares_without)
  then have "spares V p postID d (snd (pg_DeleteDocumentsWithPrefix (moPeer V) p (mediaPrefix @ postID @ ''-img'') d2))"
    by (rule spares_trans [OF s2])
  then show ?thesis using s1 del thread by (auto simp: remove_post_def split: sum.split prod.split)
qed

lemma handleRemovePost_spares:
  assumes inv: "feeds_inv (moStore s)" and r: "handleRemovePost V req s = (r, s')"
  shows "(\<exists>p postID. spares V p postID (moStore s) (moStore s')) \<and> moBans s' = moBans s \<and> moLog s' = moLog s"
proof (cases "mod_target (moPeer V) req")
  case (Inl bad)
  then show ?thesis using r inv by (auto simp: handleRemovePost_def)
next
  case (Inr p)
  let ?id = "TrimSpace (mdPostID req)" and ?d = "next_faults (moStore s)"
  show ?thesis
  proof (cases rule: stmt_cases [of "\<lambda>d. (Inr (found_entries V p ?id d), d)" "moStore s"])
    case works
    have i: "feeds_inv ?d" using inv by simp
    have sp: "spares V p ?id (moStore s) (snd (remove_post V p ?id (filter (\<lambda>m. entryIsAbout V m p ?id) (found_entries V p ?id ?d)) ?d))"
      by (rule spares_trans [OF spares_refl(2) [OF inv] remove_post_spares [OF i found_entry_ids]])
    show ?thesis
    proof (cases "bad_post_id ?id")
      case True
      then show ?thesis using Inr r inv by (auto simp: handleRemovePost_def Let_def)
    next
      case False
      obtain x d2 where rm: "remove_post V p ?id (filter (\<lambda>m. entryIsAbout V m p ?id) (found_entries V p ?id ?d)) ?d = (x, d2)" by fastforce
      then have "moStore s' = d2 \<and> moBans s' = moBans s \<and> moLog s' = moLog s"
        using Inr r works False
        by (auto simp: handleRemovePost_def FeedEntriesContaining_found in_context_def Let_def split: sum.splits)
      then show ?thesis using sp rm by auto
    qed
  qed (use Inr r inv in \<open>auto simp: handleRemovePost_def FeedEntriesContaining_found in_context_def Let_def intro: spares_refl split: if_splits\<close>)
qed


section \<open>The protocol\<close>

text \<open>The stores after the removal of a peer's listing, which may have failed.\<close>

definition delisted :: "peer_lib \<Rightarrow> peer_id \<Rightarrow> stores \<Rightarrow> stores \<Rightarrow> bool" where
  "delisted L p d d' \<longleftrightarrow> d' = next_faults d
     \<or> d' = (next_faults d)\<lparr>directory_listings := filter (\<lambda>e. dirOwnerPeerID e \<noteq> peer_String L p) (directory_listings d)\<rparr>"

text \<open>
  What a request of the protocol may change: a removal takes what belongs to one post and leaves the
  bans; a ban that is kept takes the listing of the peer it bans; anything else leaves the stores.
\<close>

definition moderated :: "moa_env \<Rightarrow> peer_id \<Rightarrow> moa_state \<Rightarrow> moa_state \<Rightarrow> bool" where
  "moderated V caller s s' \<longleftrightarrow>
     peer_connections (moLog s') = peer_connections (moLog s)
     \<and> (\<forall>p. Moderators_Contains (moModerators V) p \<and> IsBanned (moBans s') p \<longrightarrow> IsBanned (moBans s) p)
     \<and> (moStore s' = moStore s
        \<or> (\<exists>p postID. spares V p postID (moStore s) (moStore s') \<and> moBans s' = moBans s)
        \<or> (\<exists>p why b ban b'. moBans s = Some b \<and> Ban (moPeer V) p caller why (clock (moStore s)) b = (Inr ban, b')
             \<and> moBans s' = Some b' \<and> IsBanned (moBans s') p \<and> delisted (moPeer V) p (moStore s) (moStore s')))"

lemma moderated_refl [simp]: "moderated V caller s s"
  by (simp add: moderated_def)

lemma Ban_banSet: "Ban L p m why at b = (x, b') \<Longrightarrow> IsBanned (Some b') q \<Longrightarrow> q \<noteq> p \<Longrightarrow> IsBanned (Some b) q"
  by (auto simp: ban_sections pg_PutPeerBan_def IsBanned_def Let_def split: sum.splits prod.splits)

lemma Unban_banSet: "Unban L p b = (x, b') \<Longrightarrow> IsBanned (Some b') q \<Longrightarrow> IsBanned (Some b) q"
  by (auto simp: ban_sections pg_DeletePeerBan_def IsBanned_def map_of_unban split: sum.splits prod.splits if_splits)

lemma Ban_bans: "Ban L p m why at b = (Inr ban, b') \<Longrightarrow> IsBanned (Some b') p"
  by (auto simp: ban_sections IsBanned_def split: sum.splits prod.splits)

lemma RemoveDirectoryEntry_delisted: "pg_RemoveDirectoryEntry (peer_String L p) d = (x, d') \<Longrightarrow> delisted L p d d'"
  unfolding pg_RemoveDirectoryEntry_def delisted_def
  by (cases rule: stmt_cases [of "\<lambda>db. (Inr (), db\<lparr>directory_listings := filter (\<lambda>e. dirOwnerPeerID e \<noteq> peer_String L p) (directory_listings db)\<rparr>)" d]) auto

lemma handleBan_moderated:
  assumes r: "handleBan V caller req s = (r, s')"
  shows "moderated V caller s s'"
proof (cases "mod_target (moPeer V) req")
  case (Inl bad)
  then show ?thesis using r by (auto simp: handleBan_def)
next
  case (Inr p)
  obtain gone d1 where rem: "pg_RemoveDirectoryEntry (peer_String (moPeer V) p) (moStore s) = (gone, d1)" by fastforce
  note del = RemoveDirectoryEntry_delisted [OF rem]
  show ?thesis
  proof (cases "p = caller \<or> Moderators_Contains (moModerators V) p \<or> moBans s = None")
    case True
    then show ?thesis using Inr r by (auto simp: handleBan_def split: if_splits)
  next
    case False
    then obtain bans where b: "moBans s = Some bans" by auto
    let ?ban = "Ban (moPeer V) p caller (take_runes maxReasonRunes (TrimSpace (mdReason req))) (clock (moStore s)) bans"
    obtain x bans1 where ban: "?ban = (x, bans1)" by fastforce
    have "IsBanned (Some bans1) q \<Longrightarrow> IsBanned (Some bans) q" if "Moderators_Contains (moModerators V) q" for q
      using Ban_banSet [OF ban] that False by blast
    moreover have "(case x of Inl e \<Rightarrow> moStore s' = moStore s | Inr v \<Rightarrow> moStore s' = d1) \<and> moBans s' = Some bans1 \<and> moLog s' = moLog s"
      using r Inr False b ban rem by (auto simp: handleBan_def Let_def split: sum.splits)
    moreover have "IsBanned (moBans s') p \<and> delisted (moPeer V) p (moStore s) (moStore s')" if "x = Inr v" for v
      using calculation(2) that del Ban_bans [OF ban [unfolded that]] by simp
    ultimately show ?thesis
      unfolding moderated_def using b ban by (cases x; simp) blast
  qed
qed

lemma handleUnban_moderated:
  assumes r: "handleUnban V req s = (r, s')"
  shows "moderated V caller s s'"
proof (cases "mod_target (moPeer V) req")
  case (Inl bad)
  then show ?thesis using r by (auto simp: handleUnban_def)
next
  case (Inr p)
  show ?thesis
  proof (cases "moBans s")
    case None
    then show ?thesis using Inr r by (simp add: handleUnban_def)
  next
    case (Some bans)
    obtain x bans1 where u: "Unban (moPeer V) p bans = (x, bans1)" by fastforce
    then have "s' = s\<lparr>moBans := Some bans1\<rparr>" using r Inr Some by (auto simp: handleUnban_def split: sum.splits)
    then show ?thesis using Unban_banSet [OF u] Some by (auto simp: moderated_def)
  qed
qed

lemma ListPeerConnections_reads: "peer_connections (snd (pg_ListPeerConnections p since limit db)) = peer_connections db"
proof -
  have "peer_connections (next_faults db) = peer_connections db" by (simp add: next_faults_def)
  then show ?thesis unfolding pg_ListPeerConnections_def snd_in_context
    by (intro stmt_snd_case [where Q = "\<lambda>d. peer_connections d = peer_connections db"]) simp_all
qed

lemma handleConnections_moderated:
  assumes r: "handleConnections V req s = (r, s')"
  shows "moderated V caller s s'"
proof -
  have "moStore s' = moStore s \<and> moBans s' = moBans s \<and> peer_connections (moLog s') = peer_connections (moLog s)"
    using r ListPeerConnections_reads
    by (auto simp: handleConnections_def Let_def split: sum.splits prod.splits if_splits) (metis snd_conv)+
  then show ?thesis by (auto simp: moderated_def)
qed

lemma handleRemovePost_moderated:
  assumes inv: "feeds_inv (moStore s)" and r: "handleRemovePost V req s = (r, s')"
  shows "moderated V caller s s'"
  using handleRemovePost_spares [OF inv r] by (auto simp: moderated_def)

lemma moa_handle_moderated:
  assumes inv: "feeds_inv (moStore s)" and r: "moa_handle V caller opn req s = (r, s')"
  shows "moderated V caller s s'"
proof -
  have "handleGetBan V req s = (r, s') \<Longrightarrow> moderated V caller s s'" "handleListBans s = (r, s') \<Longrightarrow> moderated V caller s s'"
    by (auto simp: handleGetBan_def handleListBans_def split: sum.splits option.splits)
  with r show ?thesis
    unfolding moa_handle_def
    using handleBan_moderated handleUnban_moderated handleRemovePost_moderated [OF inv] handleConnections_moderated
    by metis
qed

text \<open>
  C12. The moderation protocol, whatever bytes a peer sends and whatever statements fail: a peer that is
  no moderator is answered 403 and nothing changes; no moderator becomes banned; the log of
  connections stays as it was. A request changes the stores in one of two ways only. A removal
  leaves the bans, the listings and the collections, and takes, for one peer and one post, entries
  of that peer about the post, the thread of the post in that peer's feeds with its entries and
  readers, and images of the post among that peer's documents with their versions and readers. A
  ban that was kept takes the listing of the very peer it bans, and nothing else.
\<close>

theorem moderation_confined:
  assumes "feeds_inv (moStore s)" and "moa_serve V caller raw s = (r, s')"
  shows "moderated V caller s s'
    \<and> (\<not> Moderators_Contains (moModerators V) caller
        \<longrightarrow> s' = s \<and> r = Return (mod_refuse 403 ''unauthorized: moderation requires a moderator''))"
proof -
  have "modResponseWriter (Forbidden ''moderation requires a moderator'') = mod_refuse 403 ''unauthorized: moderation requires a moderator''"
    by code_simp
  then show ?thesis
    using assms moa_handle_moderated [OF assms(1), of V caller]
    by (auto simp: moa_serve_def requireModerator_def split: if_splits sum.splits option.splits)
qed


definition demo_moa :: "json \<Rightarrow> moa_env" where
  "demo_moa req = \<lparr>moPeer = hex_peers, moText = one_request req, moForge = field_router (one_request req),
     moModerators = Some {PeerID ''m''}, moClose = None, moTime = (\<lambda>_. None),
     moFirst = (\<lambda>raw. Some (JObj [(''id'', JStr (raw_text raw))])), moOrder = (\<lambda>fs. fs), moLogDays = 30\<rparr>"

definition demo_moderation :: "stores \<Rightarrow> moa_state" where
  "demo_moderation db = \<lparr>moBans = Some (NewBans \<lparr>clock = 1, faults = [], peer_bans = []\<rparr>), moStore = db,
     moLog = \<lparr>clock = 1, faults = [], peer_connections = [], conn_next = 1\<rparr>\<rparr>"

definition ban_b :: json where
  "ban_b = JObj [(''operation'', JStr ''ban''), (''peerId'', JStr ''62'')]"

definition two_listings :: stores where
  "two_listings = (empty_stores 9)\<lparr>directory_listings := [demo_listing 1 ''61'' 5, demo_listing 2 ''62'' 7]\<rparr>"

theorem moderation_confined_witness:
  "let served = moa_serve (demo_moa ban_b) (PeerID ''m'') [] (demo_moderation two_listings)
   in moderated (demo_moa ban_b) (PeerID ''m'') (demo_moderation two_listings) (snd served)
      \<and> directory_listings (moStore (snd served)) = [demo_listing 1 ''61'' 5] \<and> IsBanned (moBans (snd served)) (PeerID ''b'')"
proof -
  let ?s = "moa_serve (demo_moa ban_b) (PeerID ''m'') [] (demo_moderation two_listings)"
  have "case ?s of (r, s') \<Rightarrow> directory_listings (moStore s') = [demo_listing 1 ''61'' 5] \<and> IsBanned (moBans s') (PeerID ''b'')"
    by code_simp
  then have a: "directory_listings (moStore (snd ?s)) = [demo_listing 1 ''61'' 5]" "IsBanned (moBans (snd ?s)) (PeerID ''b'')"
    by (simp_all add: case_prod_beta)
  have inv: "feeds_inv (moStore (demo_moderation two_listings))"
    by (simp add: feeds_inv_defs demo_moderation_def two_listings_def empty_stores_def)
  have "moderated (demo_moa ban_b) (PeerID ''m'') (demo_moderation two_listings) (snd ?s)"
    using moderation_confined [OF inv, of "demo_moa ban_b" "PeerID ''m''" "[]" "fst ?s" "snd ?s"] by simp
  with a show ?thesis by (simp add: Let_def)
qed


section \<open>What a removal removes\<close>

definition without_post :: "moa_env \<Rightarrow> peer_id \<Rightarrow> string \<Rightarrow> stores \<Rightarrow> stores" where
  "without_post V author postID d = d\<lparr>
     feeds := filter (\<lambda>f. \<not> is_thread V author postID f) (feeds d),
     feed_entries := filter (\<lambda>e. \<not> posted V author postID d e \<and> fentFeedID e \<notin> threads_of V author postID d) (feed_entries d),
     feed_acls := filter (\<lambda>a. rdRow a \<notin> threads_of V author postID d) (feed_acls d),
     documents := filter (\<lambda>r. \<not> is_image V author postID r) (documents d),
     document_versions := filter (\<lambda>v. verDocumentID v \<notin> images_of V author postID d) (document_versions d),
     document_acls := filter (\<lambda>a. rdRow a \<notin> images_of V author postID d) (document_acls d)\<rparr>"

lemma without_post_steps: "without_post V p i d = without_images V p i (without_thread V p i (without_entries V p i d))"
  by (simp add: without_post_def without_defs threads_of_def images_of_def conj_commute)

lemma without_post_same:
  "without_post V p i d = d \<longleftrightarrow> filter (posted V p i d) (feed_entries d) = [] \<and> threads_of V p i d = {}
     \<and> filter (is_image V p i) (documents d) = []" (is "?same \<longleftrightarrow> ?none")
proof
  assume ?same
  then have "feeds (without_post V p i d) = feeds d" "feed_entries (without_post V p i d) = feed_entries d"
    "documents (without_post V p i d) = documents d" by simp_all
  then show ?none by (auto simp: without_post_def filter_id_conv filter_empty_conv threads_of_def)
next
  assume none: ?none
  then have "images_of V p i d = {}" "\<forall>f \<in> set (feeds d). \<not> is_thread V p i f" "\<forall>e \<in> set (feed_entries d). \<not> posted V p i d e"
    "\<forall>r \<in> set (documents d). \<not> is_image V p i r"
    by (auto simp: images_of_def threads_of_def filter_empty_conv)
  with none show ?same by (simp add: without_post_def filter_id_conv cong: filter_cong)
qed

lemma remove_post_result:
  assumes inv: "feeds_inv d" and nf: "faults d = []"
    and ids: "fentID ` set matches = fentID ` set (filter (posted V p i d) (feed_entries d))"
  shows "\<exists>removal. remove_post V p i matches d = (Inr removal, without_post V p i d)
    \<and> prEntries removal = int (length (filter (posted V p i d) (feed_entries d)))
    \<and> prThreadRemoved removal = (threads_of V p i d \<noteq> {})
    \<and> prMedia removal = int (length (filter (is_image V p i) (documents d)))"
proof -
  have "set (map fentID matches) = fentID ` set (filter (posted V p i d) (feed_entries d))" using ids by simp
  note del = DeleteFeedEntries_posted(2) [OF inv this nf]
  have "faults (without_entries V p i d) = []" "faults (without_thread V p i (without_entries V p i d)) = []"
    using nf by (simp_all add: without_defs)
  moreover have "threads_of V p i (without_entries V p i d) = threads_of V p i d"
    "documents (without_thread V p i (without_entries V p i d)) = documents d"
    by (simp_all add: without_defs threads_of_def)
  ultimately show ?thesis
    by (simp add: remove_post_def del DeleteFeed_thread DeleteDocuments_images in_context_def without_post_steps)
qed

text \<open>
  C26. While the database answers, a removal of a valid post identifier removes exactly the entries, the
  thread and the images of the post from the stores, reports how many entries and images and whether
  a thread went, and is answered 404 exactly when there was nothing to remove.
\<close>

theorem removed_posts_exact:
  assumes "feeds_inv (moStore s)" and "faults (moStore s) = []"
    and "mod_target (moPeer V) req = Inr author" and "\<not> bad_post_id (TrimSpace (mdPostID req))"
  shows "\<exists>resp removal. handleRemovePost V req s
        = (Return resp, s\<lparr>moStore := without_post V author (TrimSpace (mdPostID req)) (moStore s)\<rparr>)
    \<and> mod_StatusCode resp = (if without_post V author (TrimSpace (mdPostID req)) (moStore s) = moStore s then 404 else 200)
    \<and> mrRemoval resp = Some removal
    \<and> prEntries removal = int (length (filter (posted V author (TrimSpace (mdPostID req)) (moStore s)) (feed_entries (moStore s))))
    \<and> prThreadRemoved removal = (threads_of V author (TrimSpace (mdPostID req)) (moStore s) \<noteq> {})
    \<and> prMedia removal = int (length (filter (is_image V author (TrimSpace (mdPostID req))) (documents (moStore s))))"
proof -
  let ?i = "TrimSpace (mdPostID req)" and ?d = "moStore s"
  obtain removal where rm: "remove_post V author ?i (filter (\<lambda>m. entryIsAbout V m author ?i) (found_entries V author ?i ?d)) ?d
        = (Inr removal, without_post V author ?i ?d)"
      "prEntries removal = int (length (filter (posted V author ?i ?d) (feed_entries ?d)))"
      "prThreadRemoved removal = (threads_of V author ?i ?d \<noteq> {})"
      "prMedia removal = int (length (filter (is_image V author ?i) (documents ?d)))"
    using remove_post_result [OF assms(1,2) found_entry_ids] by blast
  then have "(prEntries removal = 0 \<and> \<not> prThreadRemoved removal \<and> prMedia removal = 0) \<longleftrightarrow> without_post V author ?i ?d = ?d"
    by (simp add: without_post_same)
  then show ?thesis using assms(2-4) rm
    by (simp add: handleRemovePost_def FeedEntriesContaining_found in_context_def Let_def mod_StatusCode_def mod_refuse_def mod_success_def)
qed

definition blog :: FeedRecord where
  "blog = old_feed\<lparr>rowPath := microblogFeed\<rparr>"

definition blog_entry :: "int \<Rightarrow> bytes \<Rightarrow> FeedEntryRecord" where
  "blog_entry n content = appended_entry (10 + n) (rowID blog) n content 5 ''61'' []"

definition blog_stores :: stores where
  "blog_stores = (empty_stores 9)\<lparr>feeds := [blog], feed_entries := [blog_entry 1 [112, 49], blog_entry 2 [112, 50]], store_next := 20\<rparr>"

definition remove_p1 :: ModRequest where
  "remove_p1 = \<lparr>mdOperation = ''removePost'', mdPeerID = ''61'', mdReason = [], mdPostID = ''p1 '', mdSince = [], mdLimit = 0\<rparr>"

theorem removed_posts_exact_witness:
  "\<exists>resp s'. handleRemovePost (demo_moa JNull) remove_p1 (demo_moderation blog_stores) = (Return resp, s')
     \<and> feed_entries (moStore s') = [blog_entry 2 [112, 50]] \<and> mod_StatusCode resp = 200"
proof -
  let ?V = "demo_moa JNull" and ?s = "demo_moderation blog_stores"
  have inv: "feeds_inv (moStore ?s)" "faults (moStore ?s) = []"
    by (simp_all add: feeds_inv_defs demo_moderation_def blog_stores_def empty_stores_def blog_def old_feed_def demo_feed_def
        blog_entry_def appended_entry_def)
  have t: "mod_target (moPeer ?V) remove_p1 = Inr (PeerID ''a'')" "TrimSpace (mdPostID remove_p1) = ''p1''" "\<not> bad_post_id ''p1''"
    by code_simp+
  have c: "contains_sub (raw_text [112, 49]) ''p1''" "\<not> contains_sub (raw_text [112, 50]) ''p1''" "raw_text [112, 49] = ''p1''"
    "peer_String hex_peers (PeerID ''a'') = ''61''" "entry_ids ?V [112, 49] = Some (''p1'', None)" by code_simp+
  have m: "moPeer ?V = hex_peers" by (simp add: demo_moa_def)
  have p: "posted ?V (PeerID ''a'') ''p1'' (moStore ?s) (blog_entry 1 [112, 49])" "\<not> posted ?V (PeerID ''a'') ''p1'' (moStore ?s) (blog_entry 2 [112, 50])"
    using c m by (simp_all add: posted_def demo_moderation_def blog_stores_def blog_def old_feed_def demo_feed_def blog_entry_def appended_entry_def
        entryIsAbout_def with_feed_def)
  have th: "threads_of ?V (PeerID ''a'') ''p1'' (moStore ?s) = {}"
    by (simp add: threads_of_def is_thread_def at_path_def demo_moderation_def blog_stores_def blog_def microblogFeed_def threadsPrefix_def)
  have e: "feed_entries (without_post ?V (PeerID ''a'') ''p1'' (moStore ?s)) = [blog_entry 2 [112, 50]]"
    using p th by (simp add: without_post_def demo_moderation_def blog_stores_def)
  then have "without_post ?V (PeerID ''a'') ''p1'' (moStore ?s) \<noteq> moStore ?s"
    by (auto simp: demo_moderation_def blog_stores_def)
  then show ?thesis using removed_posts_exact [OF inv t(1)] t(2,3) e by fastforce
qed

text \<open>
  The identifier is looked for in the bytes of an entry before its JSON is read, so a post whose
  identifier is spelt with an escape is read by every client as that post and stays.
\<close>

lemma escaped_post_survives:
  assumes "feeds_inv (moStore s)" and "faults (moStore s) = []"
    and "mod_target (moPeer V) req = Inr author" and "\<not> bad_post_id (TrimSpace (mdPostID req))"
    and f: "f \<in> set (feeds (moStore s))" "rowPath f = microblogFeed" and e: "e \<in> set (feed_entries (moStore s))" "fentFeedID e = rowID f"
    and escaped: "\<not> contains_sub (raw_text (fentContent e)) (TrimSpace (mdPostID req))"
  shows "e \<in> set (feed_entries (moStore (snd (handleRemovePost V req s))))"
proof -
  let ?i = "TrimSpace (mdPostID req)"
  have "\<not> is_thread V author ?i f" using f(2) by (simp add: is_thread_def at_path_def microblogFeed_def threadsPrefix_def)
  then have "rowID f \<notin> threads_of V author ?i (moStore s)"
    using assms(1) f(1) by (auto simp: threads_of_def feeds_inv_defs distinct_map inj_on_def)
  moreover have "\<not> posted V author ?i (moStore s) e" using escaped by (simp add: posted_def)
  moreover have "moStore (snd (handleRemovePost V req s)) = without_post V author ?i (moStore s)"
  proof -
    obtain removal where "remove_post V author ?i (filter (\<lambda>m. entryIsAbout V m author ?i) (found_entries V author ?i (moStore s))) (moStore s)
        = (Inr removal, without_post V author ?i (moStore s))"
      using remove_post_result [OF assms(1,2) found_entry_ids] by blast
    then show ?thesis using assms(2-4)
      by (simp add: handleRemovePost_def FeedEntriesContaining_found in_context_def Let_def)
  qed
  ultimately show ?thesis using e by (simp add: without_post_def)
qed

end
