(* ===== verification/Presence.thy ===== *)
theory Presence
  imports Sda Msa "HOL-Library.AList"
begin

text \<open>
  Presence (\<^verbatim>\<open>src/internal/presence\<close>): the cache of states, the messages servers publish about their
  peers, the service that publishes them and the tracker that applies them. Times are milliseconds;
  maps are association lists, in the order in which the loops of the code visit them.
\<close>

section \<open>The cache\<close>

type_synonym PresenceState = int

definition Online :: PresenceState where "Online = 0"
definition ProbablyOnline :: PresenceState where "ProbablyOnline = 1"
definition Offline :: PresenceState where "Offline = 2"
definition Unknown :: PresenceState where "Unknown = 3"

lemmas presence_states = Online_def ProbablyOnline_def Offline_def Unknown_def

definition PresenceState_String :: "PresenceState \<Rightarrow> string" where
  "PresenceState_String s =
     (if s = Online then ''online'' else if s = ProbablyOnline then ''probably_online''
      else if s = Offline then ''offline'' else if s = Unknown then ''unknown''
      else ''PresenceState('' @ show_int s @ '')'')"

text \<open>The zero time, which \<^verbatim>\<open>LastSeen\<close> has until it is set, is \<open>None\<close>.\<close>

record PresenceStatus =
  psPeerID :: peer_id
  psState :: PresenceState
  psLastSeen :: "millis option"
  psCheckedAt :: millis

record PresenceCache =
  cacheEntries :: "(peer_id \<times> PresenceStatus) list"
  cacheTTL :: int

definition NewCache :: "int \<Rightarrow> PresenceCache" where
  "NewCache ttl = \<lparr>cacheEntries = [], cacheTTL = ttl\<rparr>"

definition expired_entry :: "millis \<Rightarrow> PresenceCache \<Rightarrow> PresenceStatus \<Rightarrow> bool" where
  "expired_entry now c e \<longleftrightarrow> cacheTTL c < now - psCheckedAt e"

definition Cache_Get :: "millis \<Rightarrow> peer_id \<Rightarrow> PresenceCache \<Rightarrow> PresenceStatus option" where
  "Cache_Get now p c =
     (case map_of (cacheEntries c) p of
        None \<Rightarrow> None
      | Some e \<Rightarrow> if expired_entry now c e then None else Some e)"

definition Cache_Set :: "peer_id \<Rightarrow> PresenceStatus \<Rightarrow> PresenceCache \<Rightarrow> PresenceCache" where
  "Cache_Set p st c = c\<lparr>cacheEntries := AList.update p st (cacheEntries c)\<rparr>"

definition Cache_Cleanup :: "millis \<Rightarrow> PresenceCache \<Rightarrow> PresenceCache" where
  "Cache_Cleanup now c = c\<lparr>cacheEntries := filter (\<lambda>(p, e). \<not> expired_entry now c e) (cacheEntries c)\<rparr>"

record cache_stats =
  total_entries :: nat
  online :: nat
  probably_online :: nat
  offline :: nat
  unknown :: nat
  expired :: nat

definition Cache_GetStats :: "millis \<Rightarrow> PresenceCache \<Rightarrow> cache_stats" where
  "Cache_GetStats now c =
     (let live = filter (\<lambda>(p, e). \<not> expired_entry now c e) (cacheEntries c);
          n = (\<lambda>s. length (filter (\<lambda>(p, e). psState e = s) live))
      in \<lparr>total_entries = length (cacheEntries c), online = n Online, probably_online = n ProbablyOnline,
          offline = n Offline, unknown = n Unknown, expired = length (cacheEntries c) - length live\<rparr>)"


section \<open>The monitor\<close>

text \<open>
  A check of a peer: whether it is connected and, if not, whether a dial succeeds are what the host
  says; \<open>later\<close> is the time after the dial.
\<close>

definition CheckPresence :: "millis \<Rightarrow> millis \<Rightarrow> bool \<Rightarrow> bool \<Rightarrow> peer_id \<Rightarrow> PresenceCache \<Rightarrow> PresenceStatus \<times> PresenceCache" where
  "CheckPresence now later connected connects p c =
     (let status = \<lparr>psPeerID = p, psState = Online, psLastSeen = Some now, psCheckedAt = now\<rparr> in
      if connected then (status, Cache_Set p status c)
      else if \<not> connects then
        (let off = \<lparr>psPeerID = p, psState = Offline,
                    psLastSeen = (case Cache_Get later p c of None \<Rightarrow> None | Some old \<Rightarrow> psLastSeen old), psCheckedAt = now\<rparr>
         in (off, Cache_Set p off c))
      else (status, Cache_Set p status c))"

text \<open>A round of the periodic monitoring: each peer with what the host says of it, then a cleanup.\<close>

fun check_all :: "(peer_id \<times> millis \<times> millis \<times> bool \<times> bool) list \<Rightarrow> PresenceCache \<Rightarrow> PresenceCache" where
  "check_all [] c = c"
| "check_all ((p, now, later, connected, connects) # ps) c = check_all ps (snd (CheckPresence now later connected connects p c))"

definition monitor_round :: "(peer_id \<times> millis \<times> millis \<times> bool \<times> bool) list \<Rightarrow> millis \<Rightarrow> PresenceCache \<Rightarrow> PresenceCache" where
  "monitor_round checks now c = Cache_Cleanup now (check_all checks c)"


section \<open>Messages\<close>

text \<open>
  What the messages rely on: identities and their text, JSON, and the text of times. An identity is
  read from a JSON string by libp2p, which is asked for null as well and then gets an empty text.
\<close>

record presence_lib =
  plPeer :: peer_lib
  plText :: json_text
  plTime :: "millis \<Rightarrow> string"
  plReadTime :: "string \<Rightarrow> millis option"

record PresenceChange =
  chPeerID :: peer_id
  chState :: PresenceState
  chTTLSeconds :: int

record PresenceEvent =
  evServerID :: peer_id
  evTimestamp :: "millis option"
  evChanges :: "PresenceChange list"

record PresenceHeartbeat =
  hbServerID :: peer_id
  hbTimestamp :: "millis option"
  OnlineCount :: int
  OnlinePeerIDs :: "peer_id list"
  HeartbeatSequence :: "64 word"
  Page :: int
  PageCount :: int

definition enc_peer :: "presence_lib \<Rightarrow> peer_id \<Rightarrow> json" where
  "enc_peer P p = JStr (peer_String (plPeer P) p)"

definition zero_time :: string where "zero_time = ''0001-01-01T00:00:00Z''"

definition enc_time :: "presence_lib \<Rightarrow> millis option \<Rightarrow> json" where
  "enc_time P t = JStr (case t of None \<Rightarrow> zero_time | Some m \<Rightarrow> plTime P m)"

definition enc_PresenceChange :: "presence_lib \<Rightarrow> PresenceChange \<Rightarrow> json" where
  "enc_PresenceChange P c =
     JObj [(''peerId'', enc_peer P (chPeerID c)), (''state'', JNum (chState c)), (''ttlSeconds'', JNum (chTTLSeconds c))]"

definition enc_PresenceEvent :: "presence_lib \<Rightarrow> PresenceEvent \<Rightarrow> json" where
  "enc_PresenceEvent P e =
     JObj [(''type'', JStr ''event''), (''serverId'', enc_peer P (evServerID e)), (''timestamp'', enc_time P (evTimestamp e)),
           (''changes'', JArr (map (enc_PresenceChange P) (evChanges e)))]"

definition enc_PresenceHeartbeat :: "presence_lib \<Rightarrow> PresenceHeartbeat \<Rightarrow> json" where
  "enc_PresenceHeartbeat P h =
     JObj ([(''type'', JStr ''heartbeat''), (''serverId'', enc_peer P (hbServerID h)), (''timestamp'', enc_time P (hbTimestamp h)),
            (''onlineCount'', JNum (OnlineCount h)), (''onlinePeerIds'', JArr (map (enc_peer P) (OnlinePeerIDs h))),
            (''heartbeatSequence'', JNum (uint (HeartbeatSequence h)))]
           @ omitempty (Page h = 0) ''page'' (JNum (Page h)) @ omitempty (PageCount h = 0) ''pageCount'' (JNum (PageCount h)))"

definition PresenceEvent_Encode :: "presence_lib \<Rightarrow> PresenceEvent \<Rightarrow> bytes" where
  "PresenceEvent_Encode P e = json_enc (plText P) (enc_PresenceEvent P e)"

definition PresenceHeartbeat_Encode :: "presence_lib \<Rightarrow> PresenceHeartbeat \<Rightarrow> bytes" where
  "PresenceHeartbeat_Encode P h = json_enc (plText P) (enc_PresenceHeartbeat P h)"

fun dec_peer :: "presence_lib \<Rightarrow> json \<Rightarrow> peer_id option" where
  "dec_peer P (JStr s) = peer_Decode (plPeer P) s"
| "dec_peer P JNull = peer_Decode (plPeer P) []"
| "dec_peer P _ = None"

definition peer_field :: "presence_lib \<Rightarrow> string \<Rightarrow> (string \<times> json) list \<Rightarrow> peer_id option" where
  "peer_field P name kvs =
     (let vs = all_values name kvs in
      if list_all (\<lambda>v. dec_peer P v \<noteq> None) vs then (if vs = [] then Some (PeerID []) else dec_peer P (last vs)) else None)"

fun dec_time :: "presence_lib \<Rightarrow> json \<Rightarrow> millis option option" where
  "dec_time P (JStr s) = (if s = zero_time then Some None else map_option Some (plReadTime P s))"
| "dec_time P _ = None"

fun dec_each :: "(json \<Rightarrow> 'a option) \<Rightarrow> json list \<Rightarrow> 'a list option" where
  "dec_each f [] = Some []"
| "dec_each f (j # js) = do { x \<leftarrow> f j; xs \<leftarrow> dec_each f js; Some (x # xs) }"

definition dec_slice :: "(json \<Rightarrow> 'a option) \<Rightarrow> json \<Rightarrow> 'a list option" where
  "dec_slice f j = Option.bind (dec_array j) (dec_each f)"

fun dec_PresenceChange :: "presence_lib \<Rightarrow> json \<Rightarrow> PresenceChange option" where
  "dec_PresenceChange P (JObj kvs) = do {
     p \<leftarrow> peer_field P ''peerId'' kvs;
     s \<leftarrow> json_field dec_int64 0 ''state'' kvs;
     t \<leftarrow> json_field dec_int64 0 ''ttlSeconds'' kvs;
     Some \<lparr>chPeerID = p, chState = s, chTTLSeconds = t\<rparr> }"
| "dec_PresenceChange P JNull = Some \<lparr>chPeerID = PeerID [], chState = 0, chTTLSeconds = 0\<rparr>"
| "dec_PresenceChange P _ = None"

definition DecodePresenceEvent :: "presence_lib \<Rightarrow> bytes \<Rightarrow> PresenceEvent option" where
  "DecodePresenceEvent P raw = do {
     kvs \<leftarrow> object_fields (plText P) raw;
     ty \<leftarrow> json_field dec_string [] ''type'' kvs;
     srv \<leftarrow> peer_field P ''serverId'' kvs;
     t \<leftarrow> json_field (dec_time P) None ''timestamp'' kvs;
     cs \<leftarrow> json_field (dec_slice (dec_PresenceChange P)) [] ''changes'' kvs;
     Some \<lparr>evServerID = srv, evTimestamp = t, evChanges = cs\<rparr> }"

definition DecodePresenceHeartbeat :: "presence_lib \<Rightarrow> bytes \<Rightarrow> PresenceHeartbeat option" where
  "DecodePresenceHeartbeat P raw = do {
     kvs \<leftarrow> object_fields (plText P) raw;
     ty \<leftarrow> json_field dec_string [] ''type'' kvs;
     srv \<leftarrow> peer_field P ''serverId'' kvs;
     t \<leftarrow> json_field (dec_time P) None ''timestamp'' kvs;
     n \<leftarrow> json_field dec_int64 0 ''onlineCount'' kvs;
     ids \<leftarrow> json_field (dec_slice (dec_peer P)) [] ''onlinePeerIds'' kvs;
     sq \<leftarrow> json_field dec_uint 0 ''heartbeatSequence'' kvs;
     pg \<leftarrow> json_field dec_int64 0 ''page'' kvs;
     pc \<leftarrow> json_field dec_int64 0 ''pageCount'' kvs;
     Some \<lparr>hbServerID = srv, hbTimestamp = t, OnlineCount = n, OnlinePeerIDs = ids, HeartbeatSequence = sq, Page = pg, PageCount = pc\<rparr> }"

definition DetectMessageType :: "presence_lib \<Rightarrow> bytes \<Rightarrow> string" where
  "DetectMessageType P raw =
     (case Option.bind (object_fields (plText P) raw) (json_field dec_string [] ''type'') of None \<Rightarrow> [] | Some t \<Rightarrow> t)"


section \<open>The tracker\<close>

record heartbeatAssembly =
  asmSeq :: "64 word"
  asmPages :: "int list"
  asmTotal :: int
  asmOnline :: "peer_id list"

text \<open>\<^verbatim>\<open>trCalls\<close> are the calls of the callback, when one is set.\<close>

record Tracker =
  trCache :: PresenceCache
  trContacts :: "peer_id list"
  trPartial :: "(peer_id \<times> heartbeatAssembly) list"
  trOnChange :: bool
  trCalls :: "(peer_id \<times> PresenceState) list"

definition NewTracker :: "PresenceCache \<Rightarrow> Tracker" where
  "NewTracker c = \<lparr>trCache = c, trContacts = [], trPartial = [], trOnChange = False, trCalls = []\<rparr>"

definition AddContact :: "peer_id \<Rightarrow> Tracker \<Rightarrow> Tracker" where
  "AddContact p t = t\<lparr>trContacts := List.insert p (trContacts t)\<rparr>"

definition RemoveContact :: "peer_id \<Rightarrow> Tracker \<Rightarrow> Tracker" where
  "RemoveContact p t = t\<lparr>trContacts := removeAll p (trContacts t)\<rparr>"

definition GetPresence :: "millis \<Rightarrow> peer_id \<Rightarrow> Tracker \<Rightarrow> PresenceState" where
  "GetPresence now p t = (case Cache_Get now p (trCache t) of None \<Rightarrow> Unknown | Some st \<Rightarrow> psState st)"

definition GetOnlineContacts :: "millis \<Rightarrow> Tracker \<Rightarrow> peer_id list" where
  "GetOnlineContacts now t =
     filter (\<lambda>p. case Cache_Get now p (trCache t) of None \<Rightarrow> False | Some st \<Rightarrow> psState st = Online) (trContacts t)"

definition call_back :: "peer_id \<Rightarrow> PresenceState \<Rightarrow> Tracker \<Rightarrow> Tracker" where
  "call_back p st t = (if trOnChange t then t\<lparr>trCalls := trCalls t @ [(p, st)]\<rparr> else t)"

definition set_presence :: "millis \<Rightarrow> peer_id \<Rightarrow> PresenceState \<Rightarrow> Tracker \<Rightarrow> Tracker" where
  "set_presence now p st t =
     t\<lparr>trCache := Cache_Set p \<lparr>psPeerID = p, psState = st, psLastSeen = Some now, psCheckedAt = now\<rparr> (trCache t)\<rparr>"

fun apply_changes :: "millis \<Rightarrow> PresenceChange list \<Rightarrow> Tracker \<Rightarrow> Tracker" where
  "apply_changes now [] t = t"
| "apply_changes now (c # cs) t =
     (if chPeerID c \<notin> set (trContacts t) then apply_changes now cs t
      else apply_changes now cs (call_back (chPeerID c) (chState c) (set_presence now (chPeerID c) (chState c) t)))"

definition processEvent :: "millis \<Rightarrow> PresenceEvent \<Rightarrow> Tracker \<Rightarrow> Tracker" where
  "processEvent now e t = apply_changes now (evChanges e) t"

definition new_assembly :: "PresenceHeartbeat \<Rightarrow> heartbeatAssembly" where
  "new_assembly hb = \<lparr>asmSeq = HeartbeatSequence hb, asmPages = [], asmTotal = PageCount hb, asmOnline = []\<rparr>"

definition assembleHeartbeat :: "PresenceHeartbeat \<Rightarrow> Tracker \<Rightarrow> peer_id list option \<times> Tracker" where
  "assembleHeartbeat hb t =
     (if PageCount hb \<le> 1 then (Some (OnlinePeerIDs hb), t)
      else if Page hb < 0 \<or> PageCount hb \<le> Page hb then (None, t)
      else
        (let asm = (case map_of (trPartial t) (hbServerID hb) of
                      None \<Rightarrow> new_assembly hb
                    | Some a \<Rightarrow> if asmSeq a \<noteq> HeartbeatSequence hb \<or> asmTotal a \<noteq> PageCount hb then new_assembly hb else a);
             asm1 = asm\<lparr>asmPages := List.insert (Page hb) (asmPages asm), asmOnline := asmOnline asm @ OnlinePeerIDs hb\<rparr>
         in if int (length (asmPages asm1)) < asmTotal asm1
            then (None, t\<lparr>trPartial := AList.update (hbServerID hb) asm1 (trPartial t)\<rparr>)
            else (Some (asmOnline asm1), t\<lparr>trPartial := AList.delete (hbServerID hb) (trPartial t)\<rparr>)))"

fun reconcile_each :: "millis \<Rightarrow> peer_id list \<Rightarrow> peer_id list \<Rightarrow> Tracker \<Rightarrow> Tracker" where
  "reconcile_each now onlineSet [] t = t"
| "reconcile_each now onlineSet (p # ps) t =
     (let newState = (if p \<in> set onlineSet then Online else Offline);
          oldState = GetPresence now p t;
          t1 = set_presence now p newState t
      in reconcile_each now onlineSet ps (if newState \<noteq> oldState then call_back p newState t1 else t1))"

definition reconcileContacts :: "millis \<Rightarrow> peer_id list \<Rightarrow> Tracker \<Rightarrow> Tracker" where
  "reconcileContacts now onlineSet t = reconcile_each now onlineSet (trContacts t) t"

definition processHeartbeat :: "millis \<Rightarrow> PresenceHeartbeat \<Rightarrow> Tracker \<Rightarrow> Tracker" where
  "processHeartbeat now hb t =
     (case assembleHeartbeat hb t of
        (None, t1) \<Rightarrow> t1
      | (Some onlineSet, t1) \<Rightarrow> reconcileContacts now onlineSet t1)"

text \<open>A message that is refused (\<open>False\<close>) or applied.\<close>

definition handleMessage :: "presence_lib \<Rightarrow> millis \<Rightarrow> peer_id \<Rightarrow> peer_id \<Rightarrow> bytes \<Rightarrow> Tracker \<Rightarrow> bool \<times> Tracker" where
  "handleMessage P now signer serverID raw t =
     (if signer \<noteq> serverID then (False, t)
      else if DetectMessageType P raw = ''event'' then
        (case DecodePresenceEvent P raw of
           None \<Rightarrow> (False, t)
         | Some e \<Rightarrow> if evServerID e \<noteq> signer then (False, t) else (True, processEvent now e t))
      else if DetectMessageType P raw = ''heartbeat'' then
        (case DecodePresenceHeartbeat P raw of
           None \<Rightarrow> (False, t)
         | Some hb \<Rightarrow> if hbServerID hb \<noteq> signer then (False, t) else (True, processHeartbeat now hb t))
      else (True, t))"


section \<open>The service\<close>

record PresenceConfig =
  TimeoutDuration :: int
  MaxBatchSize :: int
  EnableBroadcast :: bool

text \<open>
  The state of the service. Changes wait in \<^verbatim>\<open>pendingChanges\<close>; \<open>svFlushing\<close> are the batches that a flush
  has taken and not yet published, in the order they were taken; \<open>svTimer\<close> says that a timer will
  flush, \<open>svSpawned\<close> counts the flushes started at once. \<open>svPublished\<close> is what the topic got.
\<close>

record Service =
  svConfig :: PresenceConfig
  svHost :: peer_id
  svCache :: PresenceCache
  connectedPeers :: "(peer_id \<times> millis) list"
  pendingChanges :: "PresenceChange list"
  svTimer :: bool
  svSpawned :: nat
  svFlushing :: "PresenceChange list list"
  heartbeatSeq :: "64 word"
  svPublished :: "bytes list"

definition NewService :: "peer_id \<Rightarrow> PresenceCache \<Rightarrow> PresenceConfig \<Rightarrow> Service" where
  "NewService host c cfg = \<lparr>svConfig = cfg, svHost = host, svCache = c, connectedPeers = [], pendingChanges = [], svTimer = False,
     svSpawned = 0, svFlushing = [], heartbeatSeq = 0, svPublished = []\<rparr>"

text \<open>\<^verbatim>\<open>Start\<close> takes the peers that are connected already into the online set.\<close>

definition Service_Start :: "millis \<Rightarrow> peer_id list \<Rightarrow> Service \<Rightarrow> Service" where
  "Service_Start now connected s = s\<lparr>connectedPeers := fold (\<lambda>p. AList.update p now) connected (connectedPeers s)\<rparr>"

definition GetOnlinePeers :: "Service \<Rightarrow> peer_id list" where
  "GetOnlinePeers s = map fst (connectedPeers s)"

definition queueChange :: "PresenceChange \<Rightarrow> Service \<Rightarrow> Service" where
  "queueChange c s =
     (if \<not> EnableBroadcast (svConfig s) then s
      else
        (let pending = pendingChanges s @ [c]; s1 = s\<lparr>pendingChanges := pending\<rparr>
         in if MaxBatchSize (svConfig s) \<le> int (length pending) then s1\<lparr>svSpawned := svSpawned s1 + 1\<rparr>
            else s1\<lparr>svTimer := True\<rparr>))"

definition cache_state :: "millis \<Rightarrow> peer_id \<Rightarrow> PresenceState \<Rightarrow> Service \<Rightarrow> Service" where
  "cache_state now p st s =
     s\<lparr>svCache := Cache_Set p \<lparr>psPeerID = p, psState = st, psLastSeen = Some now, psCheckedAt = now\<rparr> (svCache s)\<rparr>"

definition whole_seconds :: "int \<Rightarrow> int" where
  "whole_seconds ms = (if ms < 0 then - ((- ms) div 1000) else ms div 1000)"

definition markOnline :: "millis \<Rightarrow> peer_id \<Rightarrow> Service \<Rightarrow> Service" where
  "markOnline now p s = queueChange \<lparr>chPeerID = p, chState = Online, chTTLSeconds = whole_seconds (TimeoutDuration (svConfig s))\<rparr> (cache_state now p Online s)"

definition markOffline :: "millis \<Rightarrow> peer_id \<Rightarrow> Service \<Rightarrow> Service" where
  "markOffline now p s = queueChange \<lparr>chPeerID = p, chState = Offline, chTTLSeconds = 0\<rparr> (cache_state now p Offline s)"

definition onPeerConnected :: "millis \<Rightarrow> peer_id \<Rightarrow> Service \<Rightarrow> Service" where
  "onPeerConnected now p s = markOnline now p (s\<lparr>connectedPeers := AList.update p now (connectedPeers s)\<rparr>)"

definition onPeerDisconnected :: "millis \<Rightarrow> peer_id \<Rightarrow> Service \<Rightarrow> Service" where
  "onPeerDisconnected now p s = markOffline now p (s\<lparr>connectedPeers := AList.delete p (connectedPeers s)\<rparr>)"

text \<open>The notifiee: how many connections to the peer remain is what the network says.\<close>

definition notifiee_Disconnected :: "nat \<Rightarrow> millis \<Rightarrow> peer_id \<Rightarrow> Service \<Rightarrow> Service" where
  "notifiee_Disconnected conns now p s = (if conns = 0 then onPeerDisconnected now p s else s)"

text \<open>\<^verbatim>\<open>flushBatch\<close> takes what is pending under the lock and publishes after it, so it has two steps.\<close>

definition flush_take :: "Service \<Rightarrow> Service" where
  "flush_take s =
     (if pendingChanges s = [] then s
      else s\<lparr>pendingChanges := [], svTimer := False, svFlushing := svFlushing s @ [pendingChanges s]\<rparr>)"

definition flush_publish :: "presence_lib \<Rightarrow> millis \<Rightarrow> nat \<Rightarrow> bool \<Rightarrow> Service \<Rightarrow> Service" where
  "flush_publish P now i works s =
     (if length (svFlushing s) \<le> i then s
      else
        (let e = \<lparr>evServerID = svHost s, evTimestamp = Some now, evChanges = svFlushing s ! i\<rparr>;
             s1 = s\<lparr>svFlushing := take i (svFlushing s) @ drop (Suc i) (svFlushing s)\<rparr>
         in if works then s1\<lparr>svPublished := svPublished s1 @ [PresenceEvent_Encode P e]\<rparr> else s1))"

definition heartbeatPageSize :: int where "heartbeatPageSize = 4096"

definition heartbeatPages :: "peer_id \<Rightarrow> 64 word \<Rightarrow> millis \<Rightarrow> peer_id list \<Rightarrow> int \<Rightarrow> PresenceHeartbeat list" where
  "heartbeatPages serverID sq at peerIDs pageSize =
     (let sz = (if pageSize \<le> 0 then heartbeatPageSize else pageSize);
          n = (int (length peerIDs) + sz - 1) div sz;
          pageCount = (if n = 0 then 1 else n)
      in map (\<lambda>page. \<lparr>hbServerID = serverID, hbTimestamp = Some at, OnlineCount = int (length peerIDs),
                 OnlinePeerIDs = take (nat sz) (drop (nat (int page * sz)) peerIDs),
                 HeartbeatSequence = sq, Page = int page, PageCount = pageCount\<rparr>)
           [0 ..< nat pageCount])"

text \<open>The pages are published until one cannot be; \<open>works\<close> says how many the topic takes.\<close>

definition publishHeartbeat :: "presence_lib \<Rightarrow> millis \<Rightarrow> nat \<Rightarrow> Service \<Rightarrow> Service" where
  "publishHeartbeat P now works s =
     (if \<not> EnableBroadcast (svConfig s) then s
      else
        (let s1 = s\<lparr>heartbeatSeq := heartbeatSeq s + 1\<rparr>;
             pages = heartbeatPages (svHost s) (heartbeatSeq s1) now (GetOnlinePeers s) heartbeatPageSize
         in s1\<lparr>svPublished := svPublished s1 @ map (PresenceHeartbeat_Encode P) (take works pages)\<rparr>))"

definition reconcile :: "millis \<Rightarrow> peer_id list \<Rightarrow> Service \<Rightarrow> Service" where
  "reconcile now connected s =
     (let gone = map fst (filter (\<lambda>(p, t). p \<notin> set connected) (connectedPeers s));
          kept = filter (\<lambda>(p, t). p \<in> set connected) (connectedPeers s);
          appeared = filter (\<lambda>p. p \<notin> fst ` set kept) (rev (remdups (rev connected)));
          s1 = s\<lparr>connectedPeers := kept @ map (\<lambda>p. (p, now)) appeared\<rparr>;
          s2 = fold (markOffline now) gone s1;
          s3 = fold (markOnline now) appeared s2;
          s4 = fold (\<lambda>p. cache_state now p Online) connected s3
      in s4\<lparr>svCache := Cache_Cleanup now (svCache s4)\<rparr>)"

end
