(* ===== verification/Presence_Props.thy ===== *)
theory Presence_Props
  imports Presence
begin

text \<open>
  Presence: what a server publishes about its peers is what a tracker of its contacts believes, in
  whatever order the pages arrive; the online set follows the network; a restarted server confuses its trackers.
\<close>

section \<open>Reading back what was published\<close>

lemma presence_keys_fold:
  "fold_name ''type'' = ''type''" "fold_name ''serverId'' = ''serverid''" "fold_name ''timestamp'' = ''timestamp''"
  "fold_name ''onlineCount'' = ''onlinecount''" "fold_name ''onlinePeerIds'' = ''onlinepeerids''"
  "fold_name ''heartbeatSequence'' = ''heartbeatsequence''" "fold_name ''page'' = ''page''" "fold_name ''pageCount'' = ''pagecount''"
  by code_simp+

lemma dec_each_map: "(\<And>x. x \<in> set xs \<Longrightarrow> f (g x) = Some x) \<Longrightarrow> dec_each f (map g xs) = Some xs"
  by (induction xs) simp_all

definition heartbeat_fields :: "presence_lib \<Rightarrow> PresenceHeartbeat \<Rightarrow> (string \<times> json) list" where
  "heartbeat_fields P h =
     [(''type'', JStr ''heartbeat''), (''serverId'', enc_peer P (hbServerID h)), (''timestamp'', enc_time P (hbTimestamp h)),
      (''onlineCount'', JNum (OnlineCount h)), (''onlinePeerIds'', JArr (map (enc_peer P) (OnlinePeerIDs h))),
      (''heartbeatSequence'', JNum (uint (HeartbeatSequence h)))]
     @ omitempty (Page h = 0) ''page'' (JNum (Page h)) @ omitempty (PageCount h = 0) ''pageCount'' (JNum (PageCount h))"

lemma heartbeat_field_values:
  "field_values ''type'' (heartbeat_fields P h) = [JStr ''heartbeat'']"
  "field_values ''timestamp'' (heartbeat_fields P h) = [enc_time P (hbTimestamp h)]"
  "field_values ''onlineCount'' (heartbeat_fields P h) = [JNum (OnlineCount h)]"
  "field_values ''onlinePeerIds'' (heartbeat_fields P h) = [JArr (map (enc_peer P) (OnlinePeerIDs h))]"
  "field_values ''heartbeatSequence'' (heartbeat_fields P h) = [JNum (uint (HeartbeatSequence h))]"
  "field_values ''page'' (heartbeat_fields P h) = (if Page h = 0 then [] else [JNum (Page h)])"
  "field_values ''pageCount'' (heartbeat_fields P h) = (if PageCount h = 0 then [] else [JNum (PageCount h)])"
  unfolding heartbeat_fields_def
  by (simp_all add: field_values_Nil field_values_Cons field_values_append field_values_omitempty presence_keys_fold
      enc_time_def enc_peer_def split del: if_split)

lemma heartbeat_server: "all_values ''serverId'' (heartbeat_fields P h) = [enc_peer P (hbServerID h)]"
  by (simp add: heartbeat_fields_def all_values_def omitempty_def presence_keys_fold)

definition int64 :: "int \<Rightarrow> bool" where
  "int64 n \<longleftrightarrow> - (2 ^ 63) \<le> n \<and> n < 2 ^ 63"

text \<open>What reading a heartbeat back relies on: identities, this time and this value as JSON text.\<close>

definition heartbeat_readable :: "presence_lib \<Rightarrow> PresenceHeartbeat \<Rightarrow> bool" where
  "heartbeat_readable P h \<longleftrightarrow> peer_lib_ok (plPeer P) \<and> json_utf8 (enc_PresenceHeartbeat P h)
     \<and> (\<forall>t. hbTimestamp h = Some t \<longrightarrow> plReadTime P (plTime P t) = Some t \<and> plTime P t \<noteq> zero_time)
     \<and> int64 (OnlineCount h) \<and> int64 (Page h) \<and> int64 (PageCount h)"

lemma heartbeat_decoded:
  assumes "heartbeat_readable P h" and "json_text_ok (plText P) [enc_PresenceHeartbeat P h]"
  shows "DetectMessageType P (PresenceHeartbeat_Encode P h) = ''heartbeat''"
    "DecodePresenceHeartbeat P (PresenceHeartbeat_Encode P h) = Some h"
proof -
  have f: "object_fields (plText P) (PresenceHeartbeat_Encode P h) = Some (heartbeat_fields P h)"
    using assms by (simp add: heartbeat_readable_def json_text_ok_def object_fields_def PresenceHeartbeat_Encode_def
        enc_PresenceHeartbeat_def heartbeat_fields_def)
  have ty: "json_field dec_string [] ''type'' (heartbeat_fields P h) = Some ''heartbeat''"
    by (simp add: json_field_single [OF heartbeat_field_values(1)])
  then show "DetectMessageType P (PresenceHeartbeat_Encode P h) = ''heartbeat''" by (simp add: DetectMessageType_def f)
  have p: "dec_peer P (enc_peer P q) = Some q" for q
    using assms(1) by (simp add: enc_peer_def heartbeat_readable_def peer_Decode_String)
  have srv: "peer_field P ''serverId'' (heartbeat_fields P h) = Some (hbServerID h)"
    by (simp add: peer_field_def heartbeat_server p)
  have tm: "json_field (dec_time P) None ''timestamp'' (heartbeat_fields P h) = Some (hbTimestamp h)"
    using assms(1) by (simp add: json_field_single [OF heartbeat_field_values(2)] enc_time_def heartbeat_readable_def split: option.split)
  have ids: "json_field (dec_slice (dec_peer P)) [] ''onlinePeerIds'' (heartbeat_fields P h) = Some (OnlinePeerIDs h)"
    by (simp add: json_field_single [OF heartbeat_field_values(4)] dec_slice_def dec_each_map p)
  have n: "json_field dec_int64 0 ''onlineCount'' (heartbeat_fields P h) = Some (OnlineCount h)"
    "json_field dec_int64 0 ''page'' (heartbeat_fields P h) = Some (Page h)"
    "json_field dec_int64 0 ''pageCount'' (heartbeat_fields P h) = Some (PageCount h)"
    using assms(1) by (simp_all add: json_field_single [OF heartbeat_field_values(3)] json_field_omit [OF heartbeat_field_values(6)]
        json_field_omit [OF heartbeat_field_values(7)] heartbeat_readable_def int64_def)
  have sq: "json_field dec_uint 0 ''heartbeatSequence'' (heartbeat_fields P h) = Some (HeartbeatSequence h)"
    by (simp add: json_field_single [OF heartbeat_field_values(5)])
  show "DecodePresenceHeartbeat P (PresenceHeartbeat_Encode P h) = Some h"
    by (simp add: DecodePresenceHeartbeat_def f ty srv tm ids n sq)
qed


section \<open>Pages\<close>

lemma ceil_pages:
  assumes "0 < (s :: int)"
  shows "n \<le> (n + s - 1) div s * s" "0 \<le> n \<Longrightarrow> 0 \<le> (n + s - 1) div s"
proof -
  have "(n + s - 1) mod s < s" using assms by simp
  then show "n \<le> (n + s - 1) div s * s" using div_mult_mod_eq [of "n + s - 1" s] by linarith
  show "0 \<le> n \<Longrightarrow> 0 \<le> (n + s - 1) div s" using assms by (simp add: pos_imp_zdiv_nonneg_iff)
qed

lemma chunks_cover:
  assumes "0 < s" "length xs \<le> n * s"
  shows "(\<Union>i < n. set (take s (drop (i * s) xs))) = set xs"
proof
  show "(\<Union>i < n. set (take s (drop (i * s) xs))) \<subseteq> set xs" by (auto dest!: in_set_takeD in_set_dropD)
  show "set xs \<subseteq> (\<Union>i < n. set (take s (drop (i * s) xs)))"
  proof
    fix x assume "x \<in> set xs"
    then obtain j where j: "j < length xs" "x = xs ! j" by (auto simp: in_set_conv_nth)
    have le: "j div s * s \<le> length xs" using j(1) div_times_less_eq_dividend [of j s] by linarith
    have lt: "j div s < n" using j(1) assms by (metis less_mult_imp_div_less order_less_le_trans)
    have "take s (drop (j div s * s) xs) ! (j mod s) = x" "j mod s < length (take s (drop (j div s * s) xs))"
      using j le assms(1) mod_less_divisor [OF assms(1), of j] div_mult_mod_eq [of j s] by (simp_all add: nth_drop [OF le] less_diff_conv add.commute)
    then have "x \<in> set (take s (drop (j div s * s) xs))" by (metis nth_mem)
    then show "x \<in> (\<Union>i < n. set (take s (drop (i * s) xs)))" using lt by auto
  qed
qed

lemma heartbeatPages_nth:
  assumes "i < length (heartbeatPages srv sq at ids sz)"
  shows "hbServerID (heartbeatPages srv sq at ids sz ! i) = srv" "HeartbeatSequence (heartbeatPages srv sq at ids sz ! i) = sq"
    "Page (heartbeatPages srv sq at ids sz ! i) = int i" "PageCount (heartbeatPages srv sq at ids sz ! i) = int (length (heartbeatPages srv sq at ids sz))"
  using assms by (simp_all add: heartbeatPages_def Let_def split: if_splits)

lemma heartbeatPages_online:
  "(\<Union>i < length (heartbeatPages srv sq at ids sz). set (OnlinePeerIDs (heartbeatPages srv sq at ids sz ! i))) = set ids"
proof -
  define s where "s = (if sz \<le> 0 then heartbeatPageSize else sz)"
  define c where "c = (let n = (int (length ids) + s - 1) div s in if n = 0 then 1 else n)"
  have s: "0 < s" by (simp add: s_def heartbeatPageSize_def)
  have pages: "heartbeatPages srv sq at ids sz = map (\<lambda>page. \<lparr>hbServerID = srv, hbTimestamp = Some at, OnlineCount = int (length ids),
      OnlinePeerIDs = take (nat s) (drop (nat (int page * s)) ids), HeartbeatSequence = sq, Page = int page, PageCount = c\<rparr>) [0 ..< nat c]"
    by (simp add: heartbeatPages_def s_def c_def Let_def)
  have "int (length ids) \<le> c * s" "0 \<le> c" using ceil_pages [OF s, of "int (length ids)"] s by (auto simp: c_def Let_def)
  then have "length ids \<le> nat c * nat s" using s by (metis nat_int nat_mono nat_mult_distrib)
  then have "(\<Union>i < nat c. set (take (nat s) (drop (i * nat s) ids))) = set ids" using s by (intro chunks_cover) simp_all
  moreover have "nat (int i * s) = i * nat s" for i using s by (simp add: nat_mult_distrib)
  ultimately show ?thesis by (simp add: pages)
qed


section \<open>The tracker\<close>

lemma GetPresence_set:
  "0 \<le> cacheTTL (trCache t) \<Longrightarrow> GetPresence now q (set_presence now p st t) = (if q = p then st else GetPresence now q t)"
  by (simp add: GetPresence_def set_presence_def Cache_Get_def Cache_Set_def update_conv' expired_entry_def split: option.split)

lemma tracker_fields [simp]:
  "trContacts (set_presence now p st t) = trContacts t" "trContacts (call_back p st t) = trContacts t"
  "trPartial (set_presence now p st t) = trPartial t" "trPartial (call_back p st t) = trPartial t"
  "cacheTTL (trCache (set_presence now p st t)) = cacheTTL (trCache t)" "trCache (call_back p st t) = trCache t"
  "GetPresence now q (call_back p st t) = GetPresence now q t"
  by (simp_all add: set_presence_def call_back_def Cache_Set_def GetPresence_def)

definition same_setup :: "Tracker \<Rightarrow> Tracker \<Rightarrow> bool" where
  "same_setup t t' \<longleftrightarrow> trContacts t' = trContacts t \<and> cacheTTL (trCache t') = cacheTTL (trCache t)"

lemma reconcile_each_setup: "same_setup t (reconcile_each now os ps t) \<and> trPartial (reconcile_each now os ps t) = trPartial t"
  by (induction ps arbitrary: t) (auto simp: same_setup_def Let_def)

lemma reconcile_each_result:
  "0 \<le> cacheTTL (trCache t) \<Longrightarrow> GetPresence now q (reconcile_each now os ps t)
     = (if q \<in> set ps then (if q \<in> set os then Online else Offline) else GetPresence now q t)"
proof (induction ps arbitrary: t)
  case (Cons p ps)
  then show ?case by (simp add: Let_def GetPresence_set)
qed simp

lemma apply_changes_setup: "same_setup t (apply_changes now cs t) \<and> trPartial (apply_changes now cs t) = trPartial t"
  by (induction cs arbitrary: t) (auto simp: same_setup_def)

lemma assemble_setup:
  "same_setup t (snd (assembleHeartbeat hb t))
   \<and> (q \<noteq> hbServerID hb \<longrightarrow> map_of (trPartial (snd (assembleHeartbeat hb t))) q = map_of (trPartial t) q)"
  by (simp add: assembleHeartbeat_def same_setup_def Let_def update_conv' delete_conv')

lemma processHeartbeat_setup:
  "same_setup t (processHeartbeat now hb t)
   \<and> (q \<noteq> hbServerID hb \<longrightarrow> map_of (trPartial (processHeartbeat now hb t)) q = map_of (trPartial t) q)"
  using assemble_setup [of t hb q] reconcile_each_setup
  by (auto simp: processHeartbeat_def reconcileContacts_def same_setup_def split: prod.split option.split)

text \<open>A message changes only what its signer has pending, and neither the contacts nor the lifetime of entries.\<close>

lemma handleMessage_setup:
  "same_setup t (snd (handleMessage P now signer srv raw t))
   \<and> (q \<noteq> signer \<longrightarrow> map_of (trPartial (snd (handleMessage P now signer srv raw t))) q = map_of (trPartial t) q)"
proof -
  have refl: "same_setup t t" by (simp add: same_setup_def)
  show ?thesis
    using refl apply_changes_setup [of t now] processHeartbeat_setup [of t now _ q]
    by (auto simp: handleMessage_def processEvent_def split: option.split)
qed


section \<open>Assembling the pages of a heartbeat\<close>

text \<open>What the tracker has of the pages of a server after some of them, by their numbers.\<close>

definition assembling :: "PresenceHeartbeat list \<Rightarrow> peer_id \<Rightarrow> 64 word \<Rightarrow> nat set \<Rightarrow> Tracker \<Rightarrow> bool" where
  "assembling pages srv sq got t \<longleftrightarrow>
     (case map_of (trPartial t) srv of
        None \<Rightarrow> got = {}
      | Some a \<Rightarrow> if asmSeq a \<noteq> sq then got = {}
          else asmTotal a = int (length pages) \<and> distinct (asmPages a) \<and> set (asmPages a) = int ` got
               \<and> set (asmOnline a) = (\<Union>i \<in> got. set (OnlinePeerIDs (pages ! i))))"

lemma assembling_other: "map_of (trPartial t') srv = map_of (trPartial t) srv \<Longrightarrow> assembling pages srv sq got t' = assembling pages srv sq got t"
  by (simp add: assembling_def)

lemma assemble_page:
  assumes pages: "pages = heartbeatPages srv sq at ids sz" and i: "i < length pages" and many: "1 < length pages"
    and asm: "assembling pages srv sq got t" and got: "got \<subseteq> {..<length pages}"
  shows "if insert i got = {..<length pages}
         then \<exists>os. fst (assembleHeartbeat (pages ! i) t) = Some os \<and> set os = set ids
         else fst (assembleHeartbeat (pages ! i) t) = None \<and> assembling pages srv sq (insert i got) (snd (assembleHeartbeat (pages ! i) t))"
proof -
  let ?h = "pages ! i" and ?n = "length pages"
  have h: "hbServerID ?h = srv" "HeartbeatSequence ?h = sq" "Page ?h = int i" "PageCount ?h = int ?n"
    using heartbeatPages_nth [of i srv sq at ids sz] i by (simp_all add: pages)
  define a where "a = (case map_of (trPartial t) (hbServerID ?h) of None \<Rightarrow> new_assembly ?h
    | Some a \<Rightarrow> if asmSeq a \<noteq> HeartbeatSequence ?h \<or> asmTotal a \<noteq> PageCount ?h then new_assembly ?h else a)"
  have a: "asmSeq a = sq" "asmTotal a = int ?n" "distinct (asmPages a)" "set (asmPages a) = int ` got"
    "set (asmOnline a) = (\<Union>i \<in> got. set (OnlinePeerIDs (pages ! i)))"
    using asm h by (auto simp: a_def assembling_def new_assembly_def split: option.splits if_splits)
  let ?a = "a\<lparr>asmPages := List.insert (int i) (asmPages a), asmOnline := asmOnline a @ OnlinePeerIDs ?h\<rparr>"
  have res: "assembleHeartbeat ?h t = (if int (length (asmPages ?a)) < int ?n
      then (None, t\<lparr>trPartial := AList.update srv ?a (trPartial t)\<rparr>)
      else (Some (asmOnline ?a), t\<lparr>trPartial := AList.delete srv (trPartial t)\<rparr>))"
    unfolding assembleHeartbeat_def a_def [symmetric] using many i a(2) h by (simp add: Let_def)
  have "set (asmPages ?a) = int ` insert i got" "distinct (asmPages ?a)" using a by auto
  then have "length (asmPages ?a) = card (insert i got)" by (metis card_image distinct_card inj_on_of_nat)
  moreover have "insert i got \<subseteq> {..<?n}" using got i by simp
  ultimately have all: "int (length (asmPages ?a)) < int ?n \<longleftrightarrow> insert i got \<noteq> {..<?n}"
    by (metis card_lessThan card_subset_eq finite_lessThan of_nat_less_iff psubset_card_mono psubsetI less_irrefl)
  have onl: "set (asmOnline ?a) = (\<Union>j \<in> insert i got. set (OnlinePeerIDs (pages ! j)))" using a(5) by auto
  show ?thesis
  proof (cases "insert i got = {..<?n}")
    case True
    then have "set (asmOnline ?a) = set ids" using onl heartbeatPages_online [of srv sq at ids sz] pages by simp
    then show ?thesis using True all res by simp
  next
    case False
    have "assembling pages srv sq (insert i got) (t\<lparr>trPartial := AList.update srv ?a (trPartial t)\<rparr>)"
      using a onl by (auto simp: assembling_def update_conv')
    then show ?thesis using False all res by simp
  qed
qed

type_synonym delivery = "millis \<times> peer_id \<times> bytes"

definition receive :: "presence_lib \<Rightarrow> delivery \<Rightarrow> Tracker \<Rightarrow> Tracker" where
  "receive P m t = (case m of (now, signer, raw) \<Rightarrow> snd (handleMessage P now signer signer raw t))"

definition by_server :: "peer_id \<Rightarrow> delivery list \<Rightarrow> bytes list" where
  "by_server srv ms = map (\<lambda>(now, signer, raw). raw) (filter (\<lambda>(now, signer, raw). signer = srv) ms)"

lemma by_server_simps:
  "by_server srv [] = []"
  "by_server srv ((now, signer, raw) # ms) = (if signer = srv then raw # by_server srv ms else by_server srv ms)"
  by (simp_all add: by_server_def)

definition pages_readable :: "presence_lib \<Rightarrow> PresenceHeartbeat list \<Rightarrow> bool" where
  "pages_readable P pages \<longleftrightarrow> list_all (heartbeat_readable P) pages \<and> json_text_ok (plText P) (map (enc_PresenceHeartbeat P) pages)"

lemma receive_page:
  assumes "pages_readable P pages" and "pages = heartbeatPages srv sq at ids sz" and "i < length pages"
  shows "receive P (now, srv, PresenceHeartbeat_Encode P (pages ! i)) t = processHeartbeat now (pages ! i) t"
proof -
  have "heartbeat_readable P (pages ! i)" "json_text_ok (plText P) [enc_PresenceHeartbeat P (pages ! i)]"
    using assms(1,3) by (auto simp: pages_readable_def json_text_ok_def list_all_length)
  note dec = heartbeat_decoded [OF this]
  have "hbServerID (pages ! i) = srv" using heartbeatPages_nth(1) assms(2,3) by simp
  then show ?thesis by (simp add: receive_def handleMessage_def dec)
qed

lemma receive_setup: "same_setup t (receive P m t) \<and> (q \<noteq> fst (snd m) \<longrightarrow> map_of (trPartial (receive P m t)) q = map_of (trPartial t) q)"
  using handleMessage_setup by (cases m) (auto simp: receive_def)

lemma receive_trace:
  assumes ok: "pages_readable P pages" and pages: "pages = heartbeatPages srv sq at ids sz" and many: "1 < length pages"
    and k: "k < length pages"
  shows "by_server srv ms = map (\<lambda>i. PresenceHeartbeat_Encode P (pages ! i)) xs \<Longrightarrow> set xs \<subseteq> {..<length pages} - {k}
    \<Longrightarrow> got \<subseteq> {..<length pages} \<Longrightarrow> k \<notin> got \<Longrightarrow> assembling pages srv sq got t
    \<Longrightarrow> assembling pages srv sq (set xs \<union> got) (fold (receive P) ms t) \<and> same_setup t (fold (receive P) ms t)"
proof (induction ms arbitrary: xs got t)
  case Nil
  then show ?case by (simp add: by_server_simps same_setup_def)
next
  case (Cons m ms)
  obtain now signer raw where m: "m = (now, signer, raw)" by (cases m)
  have kept: "same_setup t (receive P m t)" using receive_setup by blast
  show ?case
  proof (cases "signer = srv")
    case False
    then have "map_of (trPartial (receive P m t)) srv = map_of (trPartial t) srv" using receive_setup [of t P m srv] m by auto
    then have "assembling pages srv sq got (receive P m t)" using Cons.prems(5) assembling_other by blast
    moreover have "by_server srv ms = map (\<lambda>i. PresenceHeartbeat_Encode P (pages ! i)) xs"
      using Cons.prems(1) False m by (simp add: by_server_simps)
    ultimately have "assembling pages srv sq (set xs \<union> got) (fold (receive P) ms (receive P m t)) \<and> same_setup (receive P m t) (fold (receive P) ms (receive P m t))"
      using Cons.prems(2-4) by (intro Cons.IH) 
    then show ?thesis using kept by (simp add: same_setup_def)
  next
    case True
    then have eq: "map (\<lambda>i. PresenceHeartbeat_Encode P (pages ! i)) xs = raw # by_server srv ms"
      using Cons.prems(1) m by (simp add: by_server_simps)
    then obtain i ys where xs: "xs = i # ys" by (meson map_eq_Cons_D)
    have raw: "raw = PresenceHeartbeat_Encode P (pages ! i)" and rest: "by_server srv ms = map (\<lambda>i. PresenceHeartbeat_Encode P (pages ! i)) ys"
      using eq xs by simp_all
    have i: "i < length pages" "i \<noteq> k" using Cons.prems(2) xs by auto
    then have part: "insert i got \<noteq> {..<length pages}" using k Cons.prems(4) by (metis insertE lessThan_iff)
    have "fst (assembleHeartbeat (pages ! i) t) = None" "assembling pages srv sq (insert i got) (snd (assembleHeartbeat (pages ! i) t))"
      using assemble_page [OF pages i(1) many Cons.prems(5,3)] part by simp_all
    then have "assembling pages srv sq (insert i got) (receive P m t)"
      using receive_page [OF ok pages i(1), of now t] m True raw by (simp add: processHeartbeat_def case_prod_beta)
    then have "assembling pages srv sq (set ys \<union> insert i got) (fold (receive P) ms (receive P m t)) \<and> same_setup (receive P m t) (fold (receive P) ms (receive P m t))"
      using Cons.prems(2-4) xs i rest by (intro Cons.IH) auto
    then show ?thesis using kept xs by (simp add: same_setup_def)
  qed
qed

text \<open>
  C39. The pages of a heartbeat reach the tracker as the online set they came from. Let a server publish
  its online set in pages and let the tracker receive messages of any servers at any times, among
  which those of this server are pages of the heartbeat in any order and any number of times. As soon
  as the last missing page arrives, every contact is online or offline as it is in the set.
\<close>

theorem heartbeat_pages_roundtrip:
  assumes "pages = heartbeatPages srv sq at ids sz" and "pages_readable P pages"
    and "by_server srv ms = map (\<lambda>i. PresenceHeartbeat_Encode P (pages ! i)) xs" and "set xs = {..<length pages} - {k}" "k < length pages"
    and "assembling pages srv sq {} t" and "0 \<le> cacheTTL (trCache t)"
  shows "\<forall>p \<in> set (trContacts t).
    GetPresence now p (fold (receive P) (ms @ [(now, srv, PresenceHeartbeat_Encode P (pages ! k))]) t) = (if p \<in> set ids then Online else Offline)"
proof -
  let ?t = "fold (receive P) ms t"
  have kept: "same_setup t (fold (receive P) ms t)" for ms
    by (induction ms arbitrary: t) (use receive_setup in \<open>auto simp: same_setup_def\<close>)
  obtain os where os: "fst (assembleHeartbeat (pages ! k) ?t) = Some os" "set os = set ids"
  proof (cases "length pages \<le> 1")
    case True
    then have "length pages = 1" "k = 0" using assms(5) by auto
    moreover from this have "PageCount (pages ! 0) \<le> 1" using heartbeatPages_nth(4) [of 0 srv sq at ids sz] assms(1) by simp
    moreover have "set (OnlinePeerIDs (pages ! 0)) = set ids"
      using heartbeatPages_online [of srv sq at ids sz] assms(1) \<open>length pages = 1\<close> by (simp add: lessThan_Suc)
    ultimately show ?thesis using that by (simp add: assembleHeartbeat_def)
  next
    case False
    then have many: "1 < length pages" by simp
    have "assembling pages srv sq (set xs \<union> {}) ?t"
      using receive_trace [OF assms(2,1) many assms(5), of ms xs "{}" t] assms(3,4,6) by simp
    then show ?thesis using assemble_page [OF assms(1,5) many, of "set xs" ?t] assms(4,5) that by (auto simp: insert_absorb)
  qed
  have "same_setup t (snd (assembleHeartbeat (pages ! k) ?t))"
    using kept [of ms] assemble_setup [of ?t "pages ! k"] by (simp add: same_setup_def)
  then have "GetPresence now p (processHeartbeat now (pages ! k) ?t) = (if p \<in> set ids then Online else Offline)" if "p \<in> set (trContacts t)" for p
    using os that assms(7) reconcile_each_result [of "snd (assembleHeartbeat (pages ! k) ?t)" now p os "trContacts t"]
    by (simp add: processHeartbeat_def reconcileContacts_def same_setup_def case_prod_beta)
  then show ?thesis by (simp add: receive_page [OF assms(2,1,5)])
qed

definition two_pages :: "PresenceHeartbeat list" where
  "two_pages = heartbeatPages (PeerID ''s'') 4 7 [PeerID ''a'', PeerID ''b''] 1"

text \<open>A library that writes these two pages, and reads them back, by their numbers.\<close>

definition page_lib :: presence_lib where
  "page_lib = (let enc = (\<lambda>T h. enc_PresenceHeartbeat \<lparr>plPeer = hex_peers, plText = T, plTime = (\<lambda>_. ''t''), plReadTime = (\<lambda>_. Some 7)\<rparr> h);
       T0 = \<lparr>json_enc = (\<lambda>_. []), json_dec = (\<lambda>_. Inr JNull)\<rparr>
     in \<lparr>plPeer = hex_peers,
         plText = \<lparr>json_enc = (\<lambda>j. if j = enc T0 (two_pages ! 0) then [0] else [1]),
                   json_dec = (\<lambda>raw. if raw = [0] then Inr (enc T0 (two_pages ! 0)) else if raw = [1] then Inr (enc T0 (two_pages ! 1)) else Inr JNull)\<rparr>,
         plTime = (\<lambda>_. ''t''), plReadTime = (\<lambda>_. Some 7)\<rparr>)"

definition page_tracker :: Tracker where
  "page_tracker = AddContact (PeerID ''a'') (AddContact (PeerID ''c'') (NewTracker (NewCache 60000)))"

lemma two_pages_readable: "pages_readable page_lib two_pages"
proof -
  have e: "list_all (\<lambda>h. json_utf8 (enc_PresenceHeartbeat page_lib h) \<and> hbTimestamp h = Some 7 \<and> int64 (OnlineCount h) \<and> int64 (Page h) \<and> int64 (PageCount h)) two_pages"
    by code_simp
  have "peer_lib_ok (plPeer page_lib)" by (simp add: page_lib_def Let_def hex_peers_ok)
  moreover have "plReadTime page_lib (plTime page_lib t) = Some 7" "plTime page_lib t \<noteq> zero_time" for t
    by (simp_all add: page_lib_def Let_def zero_time_def)
  ultimately have "list_all (heartbeat_readable page_lib) two_pages" using e by (auto simp: list_all_iff heartbeat_readable_def)
  moreover have "json_text_ok (plText page_lib) (map (enc_PresenceHeartbeat page_lib) two_pages)" by code_simp
  ultimately show ?thesis by (simp add: pages_readable_def)
qed

theorem heartbeat_pages_roundtrip_witness:
  "let got = fold (receive page_lib) [(1, PeerID ''x'', [9]), (2, PeerID ''s'', PresenceHeartbeat_Encode page_lib (two_pages ! 1)),
       (3, PeerID ''s'', PresenceHeartbeat_Encode page_lib (two_pages ! 0))] page_tracker
   in GetPresence 3 (PeerID ''a'') got = Online \<and> GetPresence 3 (PeerID ''c'') got = Offline"
proof -
  let ?ms = "[(1, PeerID ''x'', [9]), (2, PeerID ''s'', PresenceHeartbeat_Encode page_lib (two_pages ! 1))]"
  have mine: "by_server (PeerID ''s'') ?ms = map (\<lambda>i. PresenceHeartbeat_Encode page_lib (two_pages ! i)) [1]" by (simp add: by_server_simps)
  have len: "length two_pages = 2" by code_simp
  have "{..<2} - {0 :: nat} = {1}" by auto
  then have xs: "set [1] = {..<length two_pages} - {0}" "0 < length two_pages" by (simp_all add: len)
  have t: "assembling two_pages (PeerID ''s'') 4 {} page_tracker" "0 \<le> cacheTTL (trCache page_tracker)"
    by (simp_all add: assembling_def page_tracker_def AddContact_def NewTracker_def NewCache_def)
  have c: "set (trContacts page_tracker) = {PeerID ''a'', PeerID ''c''}" by (auto simp: page_tracker_def AddContact_def NewTracker_def)
  show ?thesis
    using heartbeat_pages_roundtrip [OF two_pages_def two_pages_readable mine xs t, of 3] by (simp add: c)
qed


section \<open>A server that restarts\<close>

text \<open>
  Sequence numbers start again with the process, so a heartbeat that was cut off by a restart is
  completed by pages of the new process with the same number: the contacts are then set from two
  different online sets.
\<close>

lemma first_heartbeat: "EnableBroadcast cfg \<Longrightarrow> heartbeatSeq (publishHeartbeat P now works (NewService host c cfg)) = 1"
  by (simp add: publishHeartbeat_def NewService_def Let_def)

theorem restart_mixes_heartbeats:
  "let old = heartbeatPages (PeerID ''s'') 1 5 [PeerID ''a'', PeerID ''b''] 1;
       new = heartbeatPages (PeerID ''s'') 1 9 [PeerID ''c'', PeerID ''d''] 1;
       got = processHeartbeat 10 (new ! 1) (processHeartbeat 6 (old ! 0) page_tracker)
   in GetPresence 10 (PeerID ''a'') got = Online \<and> GetPresence 10 (PeerID ''c'') got = Offline"
  by code_simp


section \<open>The service\<close>

lemma queueChange_fields [simp]:
  "connectedPeers (queueChange c s) = connectedPeers s" "svCache (queueChange c s) = svCache s" "svConfig (queueChange c s) = svConfig s"
  by (simp_all add: queueChange_def Let_def)

lemma mark_fields [simp]:
  "connectedPeers (markOffline now p s) = connectedPeers s" "connectedPeers (markOnline now p s) = connectedPeers s"
  "connectedPeers (cache_state now p st s) = connectedPeers s"
  "cacheTTL (svCache (markOffline now p s)) = cacheTTL (svCache s)" "cacheTTL (svCache (markOnline now p s)) = cacheTTL (svCache s)"
  "cacheTTL (svCache (cache_state now p st s)) = cacheTTL (svCache s)"
  by (simp_all add: markOffline_def markOnline_def cache_state_def Cache_Set_def)

lemma fold_marks [simp]:
  "connectedPeers (fold (markOffline now) ps s) = connectedPeers s" "connectedPeers (fold (markOnline now) ps s) = connectedPeers s"
  "connectedPeers (fold (\<lambda>p. cache_state now p st) ps s) = connectedPeers s"
  "cacheTTL (svCache (fold (markOffline now) ps s)) = cacheTTL (svCache s)" "cacheTTL (svCache (fold (markOnline now) ps s)) = cacheTTL (svCache s)"
  "cacheTTL (svCache (fold (\<lambda>p. cache_state now p st) ps s)) = cacheTTL (svCache s)"
  by (induction ps arbitrary: s) simp_all

lemma fold_cache_state:
  "map_of (cacheEntries (svCache (fold (\<lambda>p. cache_state now p st) ps s))) q
     = (if q \<in> set ps then Some \<lparr>psPeerID = q, psState = st, psLastSeen = Some now, psCheckedAt = now\<rparr> else map_of (cacheEntries (svCache s)) q)"
proof (induction ps arbitrary: s)
  case (Cons p ps)
  then show ?case by (simp add: cache_state_def [of now p] Cache_Set_def update_conv')
qed simp

lemma map_of_filter_value: "map_of m q = Some e \<Longrightarrow> Q e \<Longrightarrow> map_of (filter (\<lambda>(p, e). Q e) m) q = Some e"
  by (induction m) (auto split: if_splits)

lemma Cache_Get_cleaned: "map_of (cacheEntries c) p = Some e \<Longrightarrow> \<not> expired_entry now c e \<Longrightarrow> Cache_Get now p (Cache_Cleanup now c) = Some e"
  using map_of_filter_value [of "cacheEntries c" p e "\<lambda>e. \<not> expired_entry now c e"]
  by (simp add: Cache_Get_def Cache_Cleanup_def expired_entry_def)

text \<open>A reconciliation makes the online set that of the network and keeps its peers cached as online.\<close>

theorem reconcile_follows_network:
  assumes "0 \<le> cacheTTL (svCache s)"
  shows "set (GetOnlinePeers (reconcile now connected s)) = set connected
    \<and> (\<forall>p \<in> set connected. Cache_Get now p (svCache (reconcile now connected s))
         = Some \<lparr>psPeerID = p, psState = Online, psLastSeen = Some now, psCheckedAt = now\<rparr>)"
proof
  show "set (GetOnlinePeers (reconcile now connected s)) = set connected"
    by (force simp: GetOnlinePeers_def reconcile_def Let_def)
  show "\<forall>p \<in> set connected. Cache_Get now p (svCache (reconcile now connected s))
         = Some \<lparr>psPeerID = p, psState = Online, psLastSeen = Some now, psCheckedAt = now\<rparr>"
    using assms by (auto simp: reconcile_def Let_def fold_cache_state expired_entry_def intro!: Cache_Get_cleaned)
qed

end
