(* ===== verification/Notifier.thy ===== *)
theory Notifier
  imports Mda Presence
begin

text \<open>
  The notifier (\<^verbatim>\<open>src/internal/mda/notifier.go\<close>) as threads of atomic sections: a delivery that
  notifies the owner of a mailbox or the topic of a shared or public one, the sweep that leaves idle
  topics, and the deletion of a mailbox. The topics the node is joined to, and what was sent to whom,
  are part of the state.
\<close>

section \<open>State and sections\<close>

record Notification =
  ntMailboxPath :: string
  ntMailboxType :: string
  ntOwnerPeerID :: string
  ntMessageCount :: int
  ntTimestamp :: int
  ntServerPeerID :: string

definition MailboxTopicPrefix :: string where "MailboxTopicPrefix = ''/ricochet/mailbox/''"

definition MailboxTopic :: "string \<Rightarrow> string \<Rightarrow> string" where
  "MailboxTopic owner folder = MailboxTopicPrefix @ owner @ ''/'' @ folder"

datatype nf_sent = Direct peer_id Notification | Published string Notification bool

text \<open>
  \<^verbatim>\<open>nfBusy\<close> is the number of values in the channel \<^verbatim>\<open>workers\<close>. \<open>nfJoined\<close> is what the node is joined to,
  and \<open>Published\<close> records whether it was joined to the topic when it published; \<open>nfLeaveFailed\<close> are the
  warnings of leaves that failed.
\<close>

record Notifier =
  nfHost :: peer_id
  nfNode :: bool
  nfPresence :: bool
  nfWorkers :: "nat option"
  nfBusy :: nat
  nfDropped :: int
  nfTopics :: "(string \<times> millis) list"
  topicIdle :: int
  nfJoined :: "string list"
  nfSent :: "nf_sent list"
  nfLeaveFailed :: "string list"

definition defaultTopicIdle :: int where "defaultTopicIdle = 900000"

definition NewNotifier :: "peer_id \<Rightarrow> bool \<Rightarrow> bool \<Rightarrow> Notifier" where
  "NewNotifier host node pm = \<lparr>nfHost = host, nfNode = node, nfPresence = pm, nfWorkers = None, nfBusy = 0, nfDropped = 0, nfTopics = [],
     topicIdle = defaultTopicIdle, nfJoined = [], nfSent = [], nfLeaveFailed = []\<rparr>"

definition WithTopicIdle :: "int \<Rightarrow> Notifier \<Rightarrow> Notifier" where
  "WithTopicIdle d n = (if 0 < d then n\<lparr>topicIdle := d\<rparr> else n)"

definition WithWorkers :: "int \<Rightarrow> Notifier \<Rightarrow> Notifier" where
  "WithWorkers count n = (if 0 < count then n\<lparr>nfWorkers := Some (nat count), nfBusy := 0\<rparr> else n)"

definition JoinedTopics :: "Notifier \<Rightarrow> nat" where
  "JoinedTopics n = length (nfTopics n)"

definition acquireWorker :: "Notifier \<Rightarrow> bool \<times> Notifier" where
  "acquireWorker n =
     (case nfWorkers n of
        None \<Rightarrow> (True, n)
      | Some k \<Rightarrow> if nfBusy n < k then (True, n\<lparr>nfBusy := nfBusy n + 1\<rparr>) else (False, n))"

definition releaseWorker :: "Notifier \<Rightarrow> Notifier" where
  "releaseWorker n = (case nfWorkers n of None \<Rightarrow> n | Some _ \<Rightarrow> n\<lparr>nfBusy := nfBusy n - 1\<rparr>)"

text \<open>
  A thread at a point of its program. A notification that got a worker is sent directly
  (\<open>NDirect\<close>), or its topic is joined (\<open>NJoin\<close>) and published to (\<open>NPublish\<close>), then the worker is
  released. A sweep looks for idle topics and leaves one after the other; leaving forgets the topic
  (\<open>NForget\<close>) and then leaves it (\<open>NLeave\<close>).
\<close>

datatype nf_thread =
    NDirect peer_id Notification
  | NJoin string Notification
  | NPublish string Notification
  | NRelease
  | NSweep
  | NForget "string list"
  | NLeave string "string list"
  | NDone

text \<open>What the outside answers to a section: the time, whether the call of the node works, the presence of the peer.\<close>

record nf_answer =
  anNow :: millis
  anWorks :: bool
  anState :: PresenceState

definition notification_for :: "peer_lib \<Rightarrow> millis \<Rightarrow> MailboxAddress \<Rightarrow> Notifier \<Rightarrow> Notification" where
  "notification_for L now addr n =
     \<lparr>ntMailboxPath = addrFolderPath addr, ntMailboxType = MailboxType_String (addrType addr), ntOwnerPeerID = peer_String L (OwnerID addr),
      ntMessageCount = 1, ntTimestamp = now div 1000, ntServerPeerID = peer_String L (nfHost n)\<rparr>"

text \<open>The thread that \<^verbatim>\<open>NotifyNewMessage\<close> starts, if a worker is free.\<close>

definition NotifyNewMessage :: "peer_lib \<Rightarrow> millis \<Rightarrow> MailboxAddress \<Rightarrow> Notifier \<Rightarrow> nf_thread option \<times> Notifier" where
  "NotifyNewMessage L now addr n =
     (let nt = notification_for L now addr n in
      case acquireWorker n of
        (False, n1) \<Rightarrow> (None, n1\<lparr>nfDropped := nfDropped n1 + 1\<rparr>)
      | (True, n1) \<Rightarrow>
          (Some (if addrType addr = MailboxPrivate then NDirect (OwnerID addr) nt
                 else if addrType addr \<in> {MailboxShared, MailboxPublic}
                 then NJoin (MailboxTopic (peer_String L (OwnerID addr)) (addrFolderPath addr)) nt
                 else NRelease), n1))"

definition notifyDirect :: "nf_answer \<Rightarrow> peer_id \<Rightarrow> Notification \<Rightarrow> Notifier \<Rightarrow> nf_thread \<times> Notifier" where
  "notifyDirect a p nt n =
     (if nfPresence n \<and> anState a = Offline \<or> \<not> anWorks a then (NRelease, n)
      else (NRelease, n\<lparr>nfSent := nfSent n @ [Direct p nt]\<rparr>))"

definition join_section :: "nf_answer \<Rightarrow> string \<Rightarrow> Notification \<Rightarrow> Notifier \<Rightarrow> nf_thread \<times> Notifier" where
  "join_section a topic nt n =
     (if \<not> nfNode n \<or> \<not> anWorks a then (NRelease, n)
      else (NPublish topic nt, n\<lparr>nfJoined := List.insert topic (nfJoined n), nfTopics := AList.update topic (anNow a) (nfTopics n)\<rparr>))"

definition publish_section :: "string \<Rightarrow> Notification \<Rightarrow> Notifier \<Rightarrow> nf_thread \<times> Notifier" where
  "publish_section topic nt n = (NRelease, n\<lparr>nfSent := nfSent n @ [Published topic nt (topic \<in> set (nfJoined n))]\<rparr>)"

definition leaveIdleTopics :: "nf_answer \<Rightarrow> Notifier \<Rightarrow> nf_thread \<times> Notifier" where
  "leaveIdleTopics a n = (NForget (map fst (filter (\<lambda>(t, seen). topicIdle n < anNow a - seen) (nfTopics n))), n)"

fun leaveTopic :: "string list \<Rightarrow> Notifier \<Rightarrow> nf_thread \<times> Notifier" where
  "leaveTopic [] n = (NDone, n)"
| "leaveTopic (t # ts) n =
     (let n1 = n\<lparr>nfTopics := AList.delete t (nfTopics n)\<rparr>
      in (if map_of (nfTopics n) t = None \<or> \<not> nfNode n then NForget ts else NLeave t ts, n1))"

definition leave_section :: "nf_answer \<Rightarrow> string \<Rightarrow> string list \<Rightarrow> Notifier \<Rightarrow> nf_thread \<times> Notifier" where
  "leave_section a t ts n =
     (NForget ts, if anWorks a then n\<lparr>nfJoined := removeAll t (nfJoined n)\<rparr> else n\<lparr>nfLeaveFailed := nfLeaveFailed n @ [t]\<rparr>)"

definition MailboxDeleted_thread :: "peer_lib \<Rightarrow> MailboxAddress \<Rightarrow> nf_thread" where
  "MailboxDeleted_thread L addr =
     (if addrType addr \<notin> {MailboxShared, MailboxPublic} then NDone
      else NForget [MailboxTopic (peer_String L (OwnerID addr)) (addrFolderPath addr)])"

fun nf_section :: "nf_answer \<Rightarrow> nf_thread \<Rightarrow> Notifier \<Rightarrow> nf_thread \<times> Notifier" where
  "nf_section a (NDirect p nt) n = notifyDirect a p nt n"
| "nf_section a (NJoin t nt) n = join_section a t nt n"
| "nf_section a (NPublish t nt) n = publish_section t nt n"
| "nf_section a NRelease n = (NDone, releaseWorker n)"
| "nf_section a NSweep n = leaveIdleTopics a n"
| "nf_section a (NForget ts) n = leaveTopic ts n"
| "nf_section a (NLeave t ts) n = leave_section a t ts n"
| "nf_section a NDone n = (NDone, n)"


section \<open>Interleavings\<close>

text \<open>What happens next: a delivery, a tick of the sweep, a deletion, or the next section of a thread.\<close>

datatype nf_act =
    Deliver millis MailboxAddress
  | Tick
  | Delete MailboxAddress
  | Run nat nf_answer

type_synonym nf_sys = "Notifier \<times> nf_thread list"

fun nf_exec :: "peer_lib \<Rightarrow> nf_act \<Rightarrow> nf_sys \<Rightarrow> nf_sys" where
  "nf_exec L (Deliver now addr) (n, ths) =
     (case NotifyNewMessage L now addr n of
        (None, n1) \<Rightarrow> (n1, ths)
      | (Some th, n1) \<Rightarrow> (n1, ths @ [th]))"
| "nf_exec L Tick (n, ths) = (n, ths @ [NSweep])"
| "nf_exec L (Delete addr) (n, ths) = (n, ths @ [MailboxDeleted_thread L addr])"
| "nf_exec L (Run i a) (n, ths) =
     (if length ths \<le> i then (n, ths)
      else (let (th, n1) = nf_section a (ths ! i) n in (n1, ths[i := th])))"


section \<open>Workers and topics\<close>

fun holds_worker :: "nf_thread \<Rightarrow> bool" where
  "holds_worker (NDirect p nt) = True"
| "holds_worker (NJoin t nt) = True"
| "holds_worker (NPublish t nt) = True"
| "holds_worker NRelease = True"
| "holds_worker _ = False"

fun leaving :: "nf_thread \<Rightarrow> string set" where
  "leaving (NLeave t ts) = {t}"
| "leaving _ = {}"

text \<open>
  The workers in use are the threads that hold one, never more than there are. Every topic the node
  is joined to is known by the map, so a sweep will find it, or is about to be left, or could not be left.
\<close>

definition workers_ok :: "nf_sys \<Rightarrow> bool" where
  "workers_ok s \<longleftrightarrow> (case nfWorkers (fst s) of None \<Rightarrow> True
     | Some k \<Rightarrow> nfBusy (fst s) = length (filter holds_worker (snd s)) \<and> nfBusy (fst s) \<le> k)"

definition known_topics :: "Notifier \<Rightarrow> string set" where
  "known_topics n = dom (map_of (nfTopics n))"

definition topics_ok :: "nf_sys \<Rightarrow> bool" where
  "topics_ok s \<longleftrightarrow> (\<not> nfNode (fst s) \<longrightarrow> nfJoined (fst s) = [])
     \<and> set (nfJoined (fst s)) \<subseteq> known_topics (fst s) \<union> (\<Union>th \<in> set (snd s). leaving th) \<union> set (nfLeaveFailed (fst s))"

lemma length_filter_update:
  "i < length xs \<Longrightarrow> length (filter P (xs[i := y])) + (if P (xs ! i) then 1 else 0) = length (filter P xs) + (if P y then 1 else 0)"
proof (induction xs arbitrary: i)
  case (Cons x xs)
  then show ?case by (cases i) auto
qed simp

lemma section_workers:
  assumes "nf_section a th n = (th', n')"
  shows "nfWorkers n' = nfWorkers n \<and> holds_worker th' = (holds_worker th \<and> th \<noteq> NRelease)
    \<and> nfBusy n' = (if th = NRelease \<and> nfWorkers n \<noteq> None then nfBusy n - 1 else nfBusy n)"
  using assms
  by (cases "(a, th, n)" rule: nf_section.cases)
    (auto simp: notifyDirect_def join_section_def publish_section_def releaseWorker_def leaveIdleTopics_def leave_section_def Let_def
      split: if_splits option.splits elim!: leaveTopic.elims)

lemma run_workers_ok:
  assumes ok: "workers_ok (n, ths)" and i: "i < length ths" and r: "nf_section a (ths ! i) n = (th, n1)"
  shows "workers_ok (n1, ths[i := th])"
proof (cases "nfWorkers n")
  case (Some k)
  have "holds_worker (ths ! i) \<Longrightarrow> 0 < length (filter holds_worker ths)" using i by (auto simp: filter_empty_conv)
  then show ?thesis
    using ok Some section_workers [OF r] length_filter_update [OF i, of holds_worker th] by (auto simp: workers_ok_def split: if_splits)
qed (use section_workers [OF r] in \<open>simp add: workers_ok_def\<close>)

lemma leaving_update:
  assumes "i < length ths"
  shows "(\<Union>th \<in> set ths. leaving th) \<subseteq> leaving (ths ! i) \<union> (\<Union>x \<in> set (ths[i := th]). leaving x)"
    "leaving th \<subseteq> (\<Union>x \<in> set (ths[i := th]). leaving x)"
proof -
  show "leaving th \<subseteq> (\<Union>x \<in> set (ths[i := th]). leaving x)" using assms set_update_memI [of i ths th] by blast
  show "(\<Union>th \<in> set ths. leaving th) \<subseteq> leaving (ths ! i) \<union> (\<Union>x \<in> set (ths[i := th]). leaving x)"
  proof
    fix t assume "t \<in> (\<Union>th \<in> set ths. leaving th)"
    then obtain j where j: "j < length ths" "t \<in> leaving (ths ! j)" by (auto simp: in_set_conv_nth)
    then have "j \<noteq> i \<Longrightarrow> ths ! j \<in> set (ths[i := th])" by (metis length_list_update nth_list_update_neq nth_mem)
    with j show "t \<in> leaving (ths ! i) \<union> (\<Union>x \<in> set (ths[i := th]). leaving x)" by (cases "j = i") auto
  qed
qed

text \<open>What a section does to the topics, those of its thread that are about to be left included.\<close>

lemma section_topics:
  assumes "nf_section a th n = (th', n')" and "nfNode n \<or> nfJoined n = []"
  shows "nfNode n' = nfNode n \<and> (nfNode n' \<or> nfJoined n' = []) \<and> set (nfLeaveFailed n) \<subseteq> set (nfLeaveFailed n')
    \<and> (\<forall>t \<in> set (nfJoined n'). t \<in> known_topics n' \<union> leaving th' \<union> set (nfLeaveFailed n')
         \<or> t \<in> set (nfJoined n) \<and> t \<notin> known_topics n \<and> t \<notin> leaving th)"
  using assms
  by (cases "(a, th, n)" rule: nf_section.cases)
    (auto simp: notifyDirect_def join_section_def publish_section_def releaseWorker_def leaveIdleTopics_def leave_section_def Let_def
      known_topics_def update_conv' delete_conv' split: if_splits option.splits elim!: leaveTopic.elims)

lemma run_topics_ok:
  assumes ok: "topics_ok (n, ths)" and i: "i < length ths" and r: "nf_section a (ths ! i) n = (th, n1)"
  shows "topics_ok (n1, ths[i := th])"
proof -
  have st: "nfNode n \<or> nfJoined n = []"
    and sub: "set (nfJoined n) \<subseteq> known_topics n \<union> (\<Union>th \<in> set ths. leaving th) \<union> set (nfLeaveFailed n)"
    using ok by (auto simp: topics_ok_def)
  note sec = section_topics [OF r st] and up = leaving_update [OF i, of th]
  have "t \<in> known_topics n1 \<union> (\<Union>x \<in> set (ths[i := th]). leaving x) \<union> set (nfLeaveFailed n1)" if t: "t \<in> set (nfJoined n1)" for t
  proof -
    from sec t consider "t \<in> known_topics n1 \<union> leaving th \<union> set (nfLeaveFailed n1)"
      | "t \<in> set (nfJoined n)" "t \<notin> known_topics n" "t \<notin> leaving (ths ! i)" by meson
    then show ?thesis
    proof cases
      case 1
      then show ?thesis using up(2) by (meson UnE UnI1 UnI2 subsetD)
    next
      case 2
      then have "t \<in> (\<Union>th \<in> set ths. leaving th) \<or> t \<in> set (nfLeaveFailed n)" using sub by (meson UnE subsetD)
      moreover have "set (nfLeaveFailed n) \<subseteq> set (nfLeaveFailed n1)" using sec by meson
      ultimately show ?thesis using up(1) 2(3) by (meson UnE UnI1 UnI2 subsetD)
    qed
  qed
  then show ?thesis using sec by (auto simp: topics_ok_def)
qed

definition notifier_ok :: "nf_sys \<Rightarrow> bool" where
  "notifier_ok s \<longleftrightarrow> workers_ok s \<and> topics_ok s"

lemma nf_exec_ok: "notifier_ok s \<Longrightarrow> notifier_ok (nf_exec L act s)"
proof (cases s)
  case (Pair n ths)
  assume ok: "notifier_ok s"
  show ?thesis
  proof (cases act)
    case (Deliver now addr)
    then show ?thesis using ok Pair
      by (auto simp: notifier_ok_def workers_ok_def topics_ok_def known_topics_def NotifyNewMessage_def acquireWorker_def Let_def split: if_splits option.splits)
  next
    case (Run i a)
    obtain th n1 where r: "nf_section a (ths ! i) n = (th, n1)" by fastforce
    then show ?thesis
      using ok Pair Run run_workers_ok [OF _ _ r] run_topics_ok [OF _ _ r] by (cases "length ths \<le> i") (auto simp: notifier_ok_def)
  qed (use ok Pair in \<open>auto simp: notifier_ok_def workers_ok_def topics_ok_def known_topics_def MailboxDeleted_thread_def split: option.splits\<close>)
qed

interpretation nf_runs: inv_system "nf_exec L" notifier_ok for L
  by unfold_locales (rule nf_exec_ok)

text \<open>
  C40. The notifier under every interleaving of deliveries, sweeps and deletions, whatever calls of the
  network fail: the workers in use are exactly the notifications in flight and never more than the
  bound, and no topic is joined for ever: each is in the map that the sweeps go through, is about to
  be left, or its leave has failed with a warning.
\<close>

theorem notifier_bounded:
  "notifier_ok (fold (nf_exec L) acts (WithWorkers count (WithTopicIdle idle (NewNotifier host node pm)), []))"
  by (rule nf_runs.run_inv) (simp add: notifier_ok_def workers_ok_def topics_ok_def known_topics_def WithWorkers_def WithTopicIdle_def NewNotifier_def)

text \<open>
  The sweep decides that a topic is idle under the lock and leaves it later without looking
  again, so a notification that joins the topic in between publishes to a topic the server has just left,
  which joining under the lock was to prevent.
\<close>

definition race_addr :: MailboxAddress where
  "race_addr = \<lparr>OwnerID = PeerID ''a'', addrFolderPath = ''news'', addrType = MailboxPublic\<rparr>"

definition race_acts :: "nf_act list" where
  "race_acts = (let at = (\<lambda>t. \<lparr>anNow = t, anWorks = True, anState = Online\<rparr>) in
     [Deliver 0 race_addr, Run 0 (at 0), Run 0 (at 0), Run 0 (at 0),
      Tick, Run 1 (at 900001), Deliver 900002 race_addr, Run 2 (at 900002), Run 1 (at 900002), Run 1 (at 900002), Run 2 (at 900002)])"

theorem sweep_leaves_active_topic:
  "let (n, ths) = fold (nf_exec hex_peers) race_acts (NewNotifier (PeerID ''s'') True False, []);
       topic = MailboxTopic ''61'' ''news''
   in map (\<lambda>m. case m of Direct p nt \<Rightarrow> None | Published t nt joined \<Rightarrow> Some (t, joined)) (nfSent n) = [Some (topic, True), Some (topic, False)]
      \<and> nfTopics n = [] \<and> nfJoined n = [] \<and> ths = [NDone, NForget [], NRelease]"
  by code_simp

end
