(* ===== verification/Spec2Isabelle.thy ===== *)
theory Spec2Isabelle
  imports Server Admission_Props Documents_Merge Bypass Moa_Props Presence_Props Notifier
begin

text \<open>
  \<^bold>\<open>go-ricochet, a store-and-forward server for libp2p.\<close>

  Peers submit messages for each other (\<^verbatim>\<open>src/internal/protocol/msa\<close>), which the transfer agent
  checks and the delivery agent stores in mailboxes (\<^verbatim>\<open>src/internal/mta\<close>, \<^verbatim>\<open>src/internal/mda\<close>). Owners
  and readers fetch, flag, acknowledge and claim them (\<^verbatim>\<open>maa\<close>) and manage mailboxes and grants
  (\<^verbatim>\<open>mma\<close>). Beside mail the server keeps versioned documents with readers and a public directory
  (\<^verbatim>\<open>sda\<close>), feeds, append-only logs that others may read or contribute to
  (\<^verbatim>\<open>sfa\<close>), and collections of JSON items that are queried by filters (\<^verbatim>\<open>sca\<close>). All state is in a PostgreSQL database (\<^verbatim>\<open>src/internal/storage\<close>); in memory the server has a
  cache of mailbox records, the bans and the admission counters. Every protocol is a pipeline of
  gates (bans, rates, drain, admission, capacity), a router and one handler per operation.

  \<^bold>\<open>Conventions.\<close> A definition has the name of the Go function it models; operations of the
  storage start with \<open>pg_\<close>. Integers that Go computes on without reaching 64 bits are \<open>int\<close>; lengths
  on the wire are 32 bit words, since their overflow is observable. Strings are lists of bytes as
  characters. Errors are the datatype \<open>err\<close>, and a fallible operation returns a sum with the error on
  the left. Code that is not in the repository is a parameter: libp2p's identities (\<open>peer_lib\<close>, with
  the round trip of their text as law), \<^verbatim>\<open>encoding/json\<close> as the map between bytes and values
  (\<open>json_text\<close>, \<open>json_lib\<close>), forge's router (\<open>forge_lib\<close>, which reads the exact key of a map, as
  \<^verbatim>\<open>src/doc/audit-2026-09-13/performance.md\<close> describes it: \<open>exact_router\<close>), the token buckets and the LRU cache
  (\<open>rate_lib\<close>, \<open>limiter_lib\<close>, \<open>cache_lib\<close>), the collation of the database, its full-text search and
  its JSON values (\<open>collation\<close>, \<open>dir_lib\<close>, \<open>jsonb_lib\<close>). The database may fail at every statement: \<open>stmt\<close> takes the next entry of a
  list of faults, which either fails the statement or applies it and loses the reply. The clock is a
  field of the state.

  \<^bold>\<open>The theories.\<close>

  \<^item> \<open>Prelude\<close>, \<open>Errors\<close>: types, text functions, the locales of the development for systems with
    an invariant, lemmas on lists; the errors and \<^verbatim>\<open>errors.Is\<close>, \<^verbatim>\<open>errors.As\<close>.
  \<^item> \<open>Wire\<close>, \<open>Json\<close>, \<open>Frame\<close> (\<^verbatim>\<open>pkg/wire\<close>, \<^verbatim>\<open>internal/protocol/frame\<close>): enumerations and bit sets,
    messages and their JSON and base64, frames and the compound retrieve response. Frames and
    responses are read back as they were written; the client's decoder checks its bounds in 32 bits
    and can be made to panic.
  \<^item> \<open>Address\<close> (\<^verbatim>\<open>internal/core/mailbox.go\<close>): mailbox addresses.
  \<^item> \<open>Store\<close>, \<open>Store_Inv\<close>, \<open>Store_Props\<close>, \<open>Store_Behaviour\<close>, \<open>Store_Cleanup\<close> (the message part of
    \<^verbatim>\<open>internal/storage/postgres/postgres.go\<close>): the tables and every statement on them with the
    triggers. Any run of operations with any faults keeps the invariant \<open>db_inv\<close>; what storing,
    retrieving, claiming, acknowledging, expiring and retiring do, and that owners are isolated.
  \<^item> \<open>Mailboxes\<close>, \<open>Mailbox_Props\<close> (\<^verbatim>\<open>internal/mda/mailboxes\<close>): the four types of mailboxes, who may
    read and write them, pages, the rolling window, and the reader cursor that skips messages.
  \<^item> \<open>Mda\<close>, \<open>Mda_Props\<close>, \<open>Mda_Cache\<close>, \<open>Mda_Delivery\<close>, \<open>Mda_Access\<close> (\<^verbatim>\<open>internal/mda\<close>): delivery,
    quotas, the cache, claims. A delivery appends exactly its message. The cache agrees with the table
    as long as requests are served one after the other; a load that a deletion overtakes leaves a
    stale entry that refuses deliveries.
  \<^item> \<open>Status\<close>, \<open>Moderation\<close>, \<open>Gates\<close>, \<open>Admission\<close>, \<open>Admission_Props\<close> (\<^verbatim>\<open>internal/protocol/wire\<close>,
    \<^verbatim>\<open>internal/moderation\<close>, \<^verbatim>\<open>internal/capacity\<close>, \<^verbatim>\<open>internal/admission\<close>): what clients are told of errors,
    bans, gates; the admission controller as threads of atomic sections, a refinement of a counting
    semaphore, and the end of every request. The bans in memory follow the table under every
    interleaving in which calls about the same peer do not overlap; two that do overlap part them.
  \<^item> \<open>Mta\<close>, \<open>Msa\<close>, \<open>Msa_Props\<close> (\<^verbatim>\<open>internal/mta\<close>, \<^verbatim>\<open>internal/trust\<close>, \<^verbatim>\<open>internal/protocol/msa\<close>):
    submission and forwarding. Senders are genuine, batches are their messages one by one, and
    forwarding ends.
  \<^item> \<open>Maa\<close>, \<open>Maa_Props\<close>, \<open>Mma\<close>, \<open>Mma_Props\<close> (\<^verbatim>\<open>internal/protocol/maa\<close>, \<^verbatim>\<open>internal/protocol/mma\<close>):
    access and management, from the bytes of a request to its response.
  \<^item> \<open>Server\<close>: the mail protocols together; every sequence of requests keeps the server consistent.
  \<^item> \<open>Sha256\<close>, \<open>Stores\<close>, \<open>Stores_Props\<close> (\<^verbatim>\<open>internal/storage/postgres/store_access.go\<close>,
    \<^verbatim>\<open>internal/protocol/wire/access.go\<close>): content hashes; the tables of documents, feeds and
    collections, their visibility and readers, and who may read.
  \<^item> \<open>Documents\<close>, \<open>Documents_Props\<close>, \<open>Documents_Behaviour\<close>, \<open>Documents_Merge\<close> (the document part of
    \<^verbatim>\<open>postgres.go\<close>): versions, history, conditional writes, restoring, and merge patches compared
    with RFC 7396; what operations run one after the other keep, and what two first writes, which no
    row lock orders, do to each other.
  \<^item> \<open>Directory\<close>, \<open>Directory_Props\<close>: the public directory; browsing by cursors reaches every entry once.
  \<^item> \<open>Sda\<close>, \<open>Sda_Props\<close> (\<^verbatim>\<open>internal/protocol/sda\<close>): the document protocol from bytes to response; a
    peer that spells the key of the operation in one way changes only what is its own.
  \<^item> \<open>Feeds\<close>, \<open>Feeds_Props\<close> (\<^verbatim>\<open>internal/storage/postgres/feeds.go\<close>): feeds, their entries, batch reads
    and retention. Entries never change and numbers are never reused, whatever fails; the sweep over
    all feeds removes what sweeping each of them removes.
  \<^item> \<open>Sfa\<close>, \<open>Sfa_Props\<close> (\<^verbatim>\<open>internal/protocol/sfa\<close>): the feed protocol. Pages are complete, a peer
    changes its own feeds and adds to collaborative ones, and the budget gate misses escaped writes.
  \<^item> \<open>Jsonb_Filter\<close> (\<^verbatim>\<open>internal/storage/postgres/jsonb_filter.go\<close>): filters as SQL; a filter cannot put
    text of its own into a statement.
  \<^item> \<open>Collections\<close>, \<open>Collections_Props\<close>, \<open>Collections_Paging\<close>
    (\<^verbatim>\<open>internal/storage/postgres/collections.go\<close>): collections and their items. The maintained counts are
    true after any run, conditional writes are atomic, and following the cursors of a query reaches
    every matching item once.
  \<^item> \<open>Sca\<close>, \<open>Sca_Props\<close> (\<^verbatim>\<open>internal/protocol/sca\<close>): the collection protocol. A peer changes only its own
    collections; some mistakes of clients are answered as failures of the server.
  \<^item> \<open>Bypass\<close>: a body that spells the key of the operation in two ways passes the owner check of all three
    protocols, since the validation takes any spelling and the router the exact one.
  \<^item> \<open>Moa\<close>, \<open>Moa_Props\<close> (\<^verbatim>\<open>internal/protocol/moa\<close>, \<^verbatim>\<open>internal/storage/postgres/moderation.go\<close>,
    \<^verbatim>\<open>internal/storage/postgres/connections.go\<close>): the moderation protocol and the log of connections. Only
    moderators are served, none of them is banned, and a removal takes exactly what belongs to the
    post, which an escaped identifier hides from it.
  \<^item> \<open>Presence\<close>, \<open>Presence_Props\<close> (\<^verbatim>\<open>internal/presence\<close>): the cache of states, the messages between
    servers and trackers, the tracker and the service. The pages of a heartbeat arrive as the online
    set they came from, in any order; a restarted server mixes two of them.
  \<^item> \<open>Notifier\<close> (\<^verbatim>\<open>internal/mda/notifier.go\<close>): notifications as threads of atomic sections, with a bound
    on those in flight and on the topics joined, and the sweep that leaves a topic in use.

  \<^bold>\<open>Locales.\<close> \<open>inv_system\<close> states what a system of operations with an invariant gives for runs
  and is used for the message store, the delivery agent, the documents, the feeds, the collections,
  the notifier and the server;
  \<open>stream_codec\<close> is the contract of frames on a stream; \<open>mailbox_contract\<close> what every type of mailbox
  promises, interpreted on the four; \<open>lru_laws\<close> what the cache may be relied on for, and \<open>mda_cache\<close>
  the delivery agent on such a cache; \<open>delivery_kept\<close> carries what every delivery keeps to every
  submission; \<open>key_table\<close> is the table of counters behind its shards; \<open>reader_list\<close> states the laws of
  a list of readers and is interpreted on the grants of the three stores; \<open>member_merge\<close> states a merge
  of JSON objects member by member and is interpreted on the code's patch and on that of the RFC.

  \<^bold>\<open>Bounds.\<close> Loops of the code are structural recursions or have a measure. The expiry sweep
  has the ceiling of batches of the code itself. Following directory cursors takes a fuel of one more
  than the number of listings, and following the pages of a feed or of a query one more than their entries or
  items, which the theorems show to be enough. Threads of the admission
  controller need at most eleven actions of their own.

  \<^bold>\<open>Not modelled.\<close> The registry, relays, transports, operator interfaces, metrics and logs, the
  loading of the configuration, the client library and the benchmarks. Deadlines and cancellations
  appear as statement faults only. A run is a sequence of operations, each ended before the next begins;
  operations overlap only where a theory says so (the admission controller, the notifier, the bans, the
  mailbox cache, first writes of a document).
\<close>

end
